(* ===== verification/VC_Prelude.thy ===== *)
theory VC_Prelude
  imports Main "HOL-Library.Word" "HOL-Library.AList"
begin

text \<open>
  Shared vocabulary of the development: the machine types of the Rust sources, time, byte
  strings, decimal rendering, the hash-map operations the server components use, and the
  locale that lifts an invariant of one step to every run.

  \<^item> Unsigned Rust integers are words of their width, so \<open>+\<close>, \<open>-\<close> and \<open>*\<close> wrap as they do in
    the release profile the crates are built with.
  \<^item> A Rust \<open>String\<close> is its UTF-8 byte sequence, an HOL \<open>string\<close>.
  \<^item> An \<open>Instant\<close> is a natural number of nanoseconds since an arbitrary origin.
    \<open>Instant::duration_since\<close> saturates at zero, as subtraction on \<open>nat\<close> does.
  \<^item> A \<open>HashMap\<close> that is only looked up is a partial function. One that is iterated is an
    association list with distinct keys, whose order stands for the unspecified hash order.
\<close>

named_theorems vc_defs "definitions of operations, unfolded by simp in case proofs"

type_synonym u8 = "8 word"
type_synonym u16 = "16 word"
type_synonym u32 = "32 word"
type_synonym u64 = "64 word"
type_synonym u128 = "128 word"
type_synonym bytes = "8 word list"
type_synonym instant = nat

abbreviation ms :: "nat \<Rightarrow> nat" where
  "ms n \<equiv> n * 1000000"

abbreviation secs :: "nat \<Rightarrow> nat" where
  "secs n \<equiv> n * 1000000000"

section \<open>Strings and bytes\<close>

definition as_bytes :: "string \<Rightarrow> bytes" where
  "as_bytes s = map (\<lambda>c. of_nat (of_char c)) s"

definition spaces_to_underscores :: "string \<Rightarrow> string" where
  "spaces_to_underscores s = map (\<lambda>c. if c = CHR '' '' then CHR ''_'' else c) s"

definition is_ascii_alphanumeric :: "char \<Rightarrow> bool" where
  "is_ascii_alphanumeric c \<longleftrightarrow>
     (let n = (of_char c :: nat) in
       48 \<le> n \<and> n \<le> 57 \<or> 65 \<le> n \<and> n \<le> 90 \<or> 97 \<le> n \<and> n \<le> 122)"

definition is_id_char :: "char \<Rightarrow> bool" where
  "is_id_char c \<longleftrightarrow> is_ascii_alphanumeric c \<or> c = CHR ''_'' \<or> c = CHR ''-''"

fun show_nat :: "nat \<Rightarrow> string" where
  "show_nat n =
     (if n < 10 then [''0123456789'' ! n]
      else show_nat (n div 10) @ [''0123456789'' ! (n mod 10)])"

declare show_nat.simps [simp del]

definition show_u64 :: "u64 \<Rightarrow> string" where
  "show_u64 w = show_nat (unat w)"

fun read_nat :: "string \<Rightarrow> nat" where
  "read_nat s = foldl (\<lambda>n c. 10 * n + (of_char c - 48)) 0 s"

declare read_nat.simps [simp del]

section \<open>Lemmas on strings\<close>

lemma char_to_u8_inj: "of_nat (of_char c) = (of_nat (of_char d) :: u8) \<longleftrightarrow> c = d"
proof
  assume eq: "of_nat (of_char c) = (of_nat (of_char d) :: u8)"
  have "unat (of_nat (of_char x) :: u8) = of_char x" for x :: char
    by (simp add: unat_of_nat)
  with eq have "(of_char c :: nat) = of_char d" by metis
  then show "c = d" by simp
qed simp

lemma as_bytes_inj [simp]: "as_bytes s = as_bytes t \<longleftrightarrow> s = t"
proof
  assume "as_bytes s = as_bytes t"
  then show "s = t"
    unfolding as_bytes_def by (rule map_injective) (simp add: inj_def char_to_u8_inj)
qed simp

lemma set_spaces_to_underscores: "CHR '' '' \<notin> set (spaces_to_underscores s)"
  by (auto simp: spaces_to_underscores_def)

lemma spaces_to_underscores_append [simp]:
  "spaces_to_underscores (s @ t) = spaces_to_underscores s @ spaces_to_underscores t"
  by (simp add: spaces_to_underscores_def)

lemma spaces_to_underscores_simps [simp]:
  "spaces_to_underscores [] = []"
  "spaces_to_underscores (c # s) =
     (if c = CHR '' '' then CHR ''_'' else c) # spaces_to_underscores s"
  by (simp_all add: spaces_to_underscores_def)

lemma spaces_to_underscores_id: "CHR '' '' \<notin> set s \<Longrightarrow> spaces_to_underscores s = s"
  by (induction s) (auto simp: spaces_to_underscores_def)

lemma is_id_char_no_space: "is_id_char c \<Longrightarrow> c \<noteq> CHR '' ''"
  by (auto simp: is_id_char_def is_ascii_alphanumeric_def Let_def)

lemma is_id_char_no_dot: "is_id_char c \<Longrightarrow> c \<noteq> CHR ''.''"
  by (auto simp: is_id_char_def is_ascii_alphanumeric_def Let_def)

lemma spaces_to_underscores_id_chars: "list_all is_id_char s \<Longrightarrow> spaces_to_underscores s = s"
  by (rule spaces_to_underscores_id) (auto simp: list_all_iff dest: is_id_char_no_space)

lemma digit_char:
  assumes "d < 10"
  shows "of_char (''0123456789'' ! d) = (48 + d :: nat)"
    and "is_ascii_alphanumeric (''0123456789'' ! d)"
proof -
  have "\<forall>d \<in> set [0..<10]. of_char (''0123456789'' ! d) = (48 + d :: nat)"
    by code_simp
  with assms show "of_char (''0123456789'' ! d) = (48 + d :: nat)" by simp
  then show "is_ascii_alphanumeric (''0123456789'' ! d)"
    using assms by (simp add: is_ascii_alphanumeric_def)
qed

lemma digit_is_id_char: "d < 10 \<Longrightarrow> is_id_char (''0123456789'' ! d)"
  by (simp add: is_id_char_def digit_char(2))

lemma show_nat_digits: "list_all is_id_char (show_nat n)"
proof (induction n rule: show_nat.induct)
  case (1 n)
  then show ?case
    by (subst show_nat.simps) (auto simp: digit_is_id_char)
qed

lemma read_show_nat [simp]: "read_nat (show_nat n) = n"
proof (induction n rule: show_nat.induct)
  case (1 n)
  then show ?case
    by (subst show_nat.simps) (auto simp: read_nat.simps digit_char(1))
qed

lemma show_nat_inj [simp]: "show_nat m = show_nat n \<longleftrightarrow> m = n"
  by (metis read_show_nat)

lemma show_u64_inj [simp]: "show_u64 v = show_u64 w \<longleftrightarrow> v = w"
  by (simp add: show_u64_def word_unat_eq_iff)

lemma show_u64_digits: "list_all is_id_char (show_u64 w)"
  by (simp add: show_u64_def show_nat_digits)

lemma show_u64_no_space [simp]: "spaces_to_underscores (show_u64 w) = show_u64 w"
  by (simp add: spaces_to_underscores_id_chars show_u64_digits)

section \<open>Words\<close>

lemma unat_plus_one:
  "Suc (unat c) < 2 ^ LENGTH('a) \<Longrightarrow> unat (c + 1 :: 'a::len word) = Suc (unat c)"
  by (simp add: unat_word_ariths)

lemma of_nat_neq_0_word:
  "0 < n \<Longrightarrow> n < 2 ^ LENGTH('a) \<Longrightarrow> (of_nat n :: 'a::len word) \<noteq> 0"
  by (metis less_irrefl mod_less unat_0 unat_of_nat)

section \<open>Association lists as hash maps\<close>

lemma map_of_update [simp]: "map_of (AList.update k v al) = (map_of al)(k \<mapsto> v)"
  by (rule update_conv')

lemma map_of_delete [simp]: "map_of (AList.delete k al) = (map_of al)(k := None)"
  by (rule delete_conv')

lemma distinct_keys_update: "distinct (map fst al) \<Longrightarrow> distinct (map fst (AList.update k v al))"
  by (rule distinct_update)

lemma distinct_keys_delete: "distinct (map fst al) \<Longrightarrow> distinct (map fst (AList.delete k al))"
  by (rule distinct_delete)

lemma find_SomeD: "find Q xs = Some x \<Longrightarrow> x \<in> set xs \<and> Q x"
  by (auto simp: find_Some_iff)

section \<open>Invariants of runs\<close>

text \<open>
  A component that is driven by a sequence of inputs: one step per input, an invariant that
  every admissible input keeps. The lemmas hold for every run of admissible inputs.
\<close>

locale invariant_system =
  fixes step :: "'s \<Rightarrow> 'i \<Rightarrow> 's"
    and inv :: "'s \<Rightarrow> bool"
    and ok :: "'i \<Rightarrow> bool"
  assumes step_inv: "inv s \<Longrightarrow> ok i \<Longrightarrow> inv (step s i)"
begin

lemma run_inv: "inv s \<Longrightarrow> list_all ok is \<Longrightarrow> inv (foldl step s is)"
  by (induction "is" arbitrary: s) (auto intro: step_inv)

lemma run_prefix_inv:
  assumes "inv s" and "list_all ok (is @ js)"
  shows "inv (foldl step s is)"
  using assms by (auto intro: run_inv)

end

end
