(* ===== verification/Proto_Types.thy ===== *)
theory Proto_Types
  imports Complex_Main VC_Prelude
begin

text \<open>
  The protocol buffer messages the services exchange, with the fields of the generated structs
  under \<open>videocall-types/src/protos\<close>, and the identity helpers of
  \<open>videocall-types/src/user_id.rs\<close>.

  The wire encoding itself is the \<open>protobuf\<close> crate, which is not part of the repository. The
  record \<open>proto\<close> carries its parse and write functions as a parameter of every definition that
  serialises a message; \<open>proto_roundtrip\<close> is the law the services rely on: a message that is
  written parses back to itself. \<open>ref_proto\<close> is one concrete codec that satisfies the law; it
  instantiates the parameter in the witnesses. An \<open>EnumOrUnknown\<close> field is the \<open>i32\<close> it wraps.
  Floating point fields are the real numbers they denote.
\<close>

type_synonym enum_or_unknown = "32 word"

datatype packet_type =
    PACKET_TYPE_UNKNOWN | RSA_PUB_KEY | AES_KEY | MEDIA | CONNECTION | DIAGNOSTICS | HEALTH
  | MEETING | SESSION_ASSIGNED | CONGESTION

fun packet_type_value :: "packet_type \<Rightarrow> enum_or_unknown" where
  "packet_type_value PACKET_TYPE_UNKNOWN = 0"
| "packet_type_value RSA_PUB_KEY = 1"
| "packet_type_value AES_KEY = 2"
| "packet_type_value MEDIA = 3"
| "packet_type_value CONNECTION = 4"
| "packet_type_value DIAGNOSTICS = 5"
| "packet_type_value HEALTH = 6"
| "packet_type_value MEETING = 7"
| "packet_type_value SESSION_ASSIGNED = 8"
| "packet_type_value CONGESTION = 9"

definition packet_type_from_i32 :: "enum_or_unknown \<Rightarrow> packet_type option" where
  "packet_type_from_i32 v =
     (if v = 0 then Some PACKET_TYPE_UNKNOWN else if v = 1 then Some RSA_PUB_KEY
      else if v = 2 then Some AES_KEY else if v = 3 then Some MEDIA
      else if v = 4 then Some CONNECTION else if v = 5 then Some DIAGNOSTICS
      else if v = 6 then Some HEALTH else if v = 7 then Some MEETING
      else if v = 8 then Some SESSION_ASSIGNED else if v = 9 then Some CONGESTION
      else None)"

record packet_wrapper =
  pw_packet_type :: enum_or_unknown
  pw_user_id :: bytes
  pw_data :: bytes
  pw_session_id :: u64
  pw_special_fields :: bytes

definition default_packet_wrapper :: packet_wrapper where
  "default_packet_wrapper =
     \<lparr>pw_packet_type = packet_type_value PACKET_TYPE_UNKNOWN, pw_user_id = [], pw_data = [],
      pw_session_id = 0, pw_special_fields = []\<rparr>"

datatype meeting_event_type =
    MEETING_EVENT_TYPE_UNKNOWN | MEETING_STARTED | MEETING_ENDED | PARTICIPANT_JOINED
  | PARTICIPANT_LEFT | MEETING_ACTIVATED | PARTICIPANT_ADMITTED | PARTICIPANT_REJECTED
  | WAITING_ROOM_UPDATED

fun meeting_event_type_value :: "meeting_event_type \<Rightarrow> enum_or_unknown" where
  "meeting_event_type_value MEETING_EVENT_TYPE_UNKNOWN = 0"
| "meeting_event_type_value MEETING_STARTED = 1"
| "meeting_event_type_value MEETING_ENDED = 2"
| "meeting_event_type_value PARTICIPANT_JOINED = 3"
| "meeting_event_type_value PARTICIPANT_LEFT = 4"
| "meeting_event_type_value MEETING_ACTIVATED = 5"
| "meeting_event_type_value PARTICIPANT_ADMITTED = 6"
| "meeting_event_type_value PARTICIPANT_REJECTED = 7"
| "meeting_event_type_value WAITING_ROOM_UPDATED = 8"

record meeting_packet =
  mp_event_type :: enum_or_unknown
  mp_room_id :: string
  mp_start_time_ms :: u64
  mp_message :: string
  mp_creator_id :: bytes
  mp_participant_count :: "64 word"
  mp_target_user_id :: bytes
  mp_room_token :: string
  mp_session_id :: u64
  mp_display_name :: bytes
  mp_special_fields :: bytes

definition default_meeting_packet :: meeting_packet where
  "default_meeting_packet =
     \<lparr>mp_event_type = meeting_event_type_value MEETING_EVENT_TYPE_UNKNOWN, mp_room_id = [],
      mp_start_time_ms = 0, mp_message = [], mp_creator_id = [], mp_participant_count = 0,
      mp_target_user_id = [], mp_room_token = [], mp_session_id = 0, mp_display_name = [],
      mp_special_fields = []\<rparr>"

datatype media_type =
    MEDIA_TYPE_UNKNOWN | VIDEO | AUDIO | SCREEN | HEARTBEAT | RTT | KEYFRAME_REQUEST

fun media_type_value :: "media_type \<Rightarrow> enum_or_unknown" where
  "media_type_value MEDIA_TYPE_UNKNOWN = 0"
| "media_type_value VIDEO = 1"
| "media_type_value AUDIO = 2"
| "media_type_value SCREEN = 3"
| "media_type_value HEARTBEAT = 4"
| "media_type_value RTT = 5"
| "media_type_value KEYFRAME_REQUEST = 6"

datatype video_codec = VIDEO_CODEC_UNSPECIFIED | VP8 | VP9_PROFILE0_LEVEL10_8BIT

record audio_metadata =
  am_audio_format :: string
  am_audio_number_of_channels :: u32
  am_audio_number_of_frames :: u32
  am_audio_sample_rate :: real
  am_sequence :: u64

record video_metadata =
  vm_sequence :: u64
  vm_codec :: enum_or_unknown

record heartbeat_metadata =
  hm_video_enabled :: bool
  hm_audio_enabled :: bool
  hm_screen_enabled :: bool
  hm_is_speaking :: bool

record media_packet =
  med_media_type :: enum_or_unknown
  med_user_id :: bytes
  med_data :: bytes
  med_frame_type :: string
  med_timestamp :: real
  med_duration :: real
  med_audio_metadata :: "audio_metadata option"
  med_video_metadata :: "video_metadata option"
  med_heartbeat_metadata :: "heartbeat_metadata option"
  med_special_fields :: bytes

definition default_media_packet :: media_packet where
  "default_media_packet =
     \<lparr>med_media_type = media_type_value MEDIA_TYPE_UNKNOWN, med_user_id = [], med_data = [],
      med_frame_type = [], med_timestamp = 0, med_duration = 0, med_audio_metadata = None,
      med_video_metadata = None, med_heartbeat_metadata = None, med_special_fields = []\<rparr>"

section \<open>Identities\<close>

definition SYSTEM_USER_ID :: string where
  "SYSTEM_USER_ID = ''system-&^%$#@!''"

definition to_user_id_bytes :: "string \<Rightarrow> bytes" where
  "to_user_id_bytes identity = as_bytes identity"

definition is_system_user :: "bytes \<Rightarrow> bool" where
  "is_system_user bs \<longleftrightarrow> bs = as_bytes SYSTEM_USER_ID"

section \<open>The wire codec as a parameter\<close>

record proto =
  parse_wrapper :: "bytes \<Rightarrow> packet_wrapper option"
  write_wrapper :: "packet_wrapper \<Rightarrow> bytes option"
  parse_meeting :: "bytes \<Rightarrow> meeting_packet option"
  write_meeting :: "meeting_packet \<Rightarrow> bytes option"
  parse_media :: "bytes \<Rightarrow> media_packet option"
  write_media :: "media_packet \<Rightarrow> bytes option"

definition proto_roundtrip :: "proto \<Rightarrow> bool" where
  "proto_roundtrip P \<longleftrightarrow>
     (\<forall>w. \<exists>b. write_wrapper P w = Some b \<and> parse_wrapper P b = Some w) \<and>
     (\<forall>m. \<exists>b. write_meeting P m = Some b \<and> parse_meeting P b = Some m)"

definition bytes_or_default :: "bytes option \<Rightarrow> bytes" where
  "bytes_or_default r = (case r of Some b \<Rightarrow> b | None \<Rightarrow> [])"

lemma bytes_or_default_Some [simp]: "bytes_or_default (Some b) = b"
  by (simp add: bytes_or_default_def)

lemma parse_written_wrapper:
  "proto_roundtrip P \<Longrightarrow> parse_wrapper P (bytes_or_default (write_wrapper P w)) = Some w"
  by (metis bytes_or_default_Some proto_roundtrip_def)

lemma parse_written_meeting:
  "proto_roundtrip P \<Longrightarrow> parse_meeting P (bytes_or_default (write_meeting P m)) = Some m"
  by (metis bytes_or_default_Some proto_roundtrip_def)

lemma is_system_user_iff: "is_system_user (to_user_id_bytes u) \<longleftrightarrow> u = SYSTEM_USER_ID"
  by (simp add: is_system_user_def to_user_id_bytes_def)

lemma packet_type_roundtrip [simp]: "packet_type_from_i32 (packet_type_value t) = Some t"
  by (cases t) (simp_all add: packet_type_from_i32_def)

lemma packet_type_value_inj [simp]: "packet_type_value s = packet_type_value t \<longleftrightarrow> s = t"
  by (metis option.inject packet_type_roundtrip)

lemma media_type_value_inj [simp]: "media_type_value s = media_type_value t \<longleftrightarrow> s = t"
  by (cases s; cases t) simp_all

lemma meeting_event_type_value_inj [simp]:
  "meeting_event_type_value s = meeting_event_type_value t \<longleftrightarrow> s = t"
  by (cases s; cases t) simp_all

declare packet_type_value.simps [simp del] meeting_event_type_value.simps [simp del]
  media_type_value.simps [simp del]

section \<open>A concrete codec\<close>

text \<open>Each field is a byte string; a message is the sequence of its fields, every byte marked by
  a 1 and every field closed by a 0.\<close>

fun frame_fields :: "bytes list \<Rightarrow> bytes" where
  "frame_fields [] = []"
| "frame_fields (f # fs) = concat (map (\<lambda>b. [1, b]) f) @ 0 # frame_fields fs"

fun take_field :: "bytes \<Rightarrow> bytes \<times> bytes" where
  "take_field (m # rest) =
     (if m = 0 then ([], rest)
      else (case rest of [] \<Rightarrow> ([], []) | b # bs \<Rightarrow> (case take_field bs of (f, r) \<Rightarrow> (b # f, r))))"
| "take_field [] = ([], [])"

fun take_fields :: "nat \<Rightarrow> bytes \<Rightarrow> bytes list" where
  "take_fields 0 bs = []"
| "take_fields (Suc n) bs = (case take_field bs of (f, r) \<Rightarrow> f # take_fields n r)"

definition word_field :: "'a::len word \<Rightarrow> bytes" where
  "word_field w = as_bytes (show_nat (unat w))"

definition bytes_string :: "bytes \<Rightarrow> string" where
  "bytes_string bs = map (\<lambda>b. char_of (unat b)) bs"

definition field_word :: "bytes \<Rightarrow> 'a::len word" where
  "field_word bs = of_nat (read_nat (bytes_string bs))"

definition ref_write_wrapper :: "packet_wrapper \<Rightarrow> bytes" where
  "ref_write_wrapper w =
     frame_fields [word_field (pw_packet_type w), pw_user_id w, pw_data w,
       word_field (pw_session_id w), pw_special_fields w]"

definition ref_parse_wrapper :: "bytes \<Rightarrow> packet_wrapper option" where
  "ref_parse_wrapper bs =
     (let fs = take_fields 5 bs in
      Some \<lparr>pw_packet_type = field_word (fs ! 0), pw_user_id = fs ! 1, pw_data = fs ! 2,
        pw_session_id = field_word (fs ! 3), pw_special_fields = fs ! 4\<rparr>)"

definition ref_write_meeting :: "meeting_packet \<Rightarrow> bytes" where
  "ref_write_meeting m =
     frame_fields [word_field (mp_event_type m), as_bytes (mp_room_id m),
       word_field (mp_start_time_ms m), as_bytes (mp_message m), mp_creator_id m,
       word_field (mp_participant_count m), mp_target_user_id m, as_bytes (mp_room_token m),
       word_field (mp_session_id m), mp_display_name m, mp_special_fields m]"

definition ref_parse_meeting :: "bytes \<Rightarrow> meeting_packet option" where
  "ref_parse_meeting bs =
     (let fs = take_fields 11 bs in
      Some \<lparr>mp_event_type = field_word (fs ! 0), mp_room_id = bytes_string (fs ! 1),
        mp_start_time_ms = field_word (fs ! 2), mp_message = bytes_string (fs ! 3),
        mp_creator_id = fs ! 4, mp_participant_count = field_word (fs ! 5),
        mp_target_user_id = fs ! 6, mp_room_token = bytes_string (fs ! 7),
        mp_session_id = field_word (fs ! 8), mp_display_name = fs ! 9,
        mp_special_fields = fs ! 10\<rparr>)"

definition ref_proto :: proto where
  "ref_proto =
     \<lparr>parse_wrapper = ref_parse_wrapper, write_wrapper = (\<lambda>w. Some (ref_write_wrapper w)),
      parse_meeting = ref_parse_meeting, write_meeting = (\<lambda>m. Some (ref_write_meeting m)),
      parse_media = (\<lambda>_. None), write_media = (\<lambda>_. None)\<rparr>"

lemma take_field_frame:
  "take_field (concat (map (\<lambda>b. [1, b]) f) @ 0 # r) = (f, r)"
  by (induction f) auto

lemma take_fields_frame: "n = length fs \<Longrightarrow> take_fields n (frame_fields fs) = fs"
  by (induction fs arbitrary: n) (simp_all add: take_field_frame)

lemma bytes_string_as_bytes [simp]: "bytes_string (as_bytes s) = s"
  by (induction s) (simp_all add: bytes_string_def as_bytes_def unat_of_nat)

lemma field_word_word_field [simp]: "field_word (word_field w) = w"
  by (simp add: field_word_def word_field_def)

lemma ref_proto_roundtrip [simp]: "proto_roundtrip ref_proto"
proof -
  have "ref_parse_wrapper (ref_write_wrapper w) = Some w" for w
    by (simp add: ref_parse_wrapper_def ref_write_wrapper_def take_fields_frame
        del: frame_fields.simps)
  moreover have "ref_parse_meeting (ref_write_meeting m) = Some m" for m
    by (simp add: ref_parse_meeting_def ref_write_meeting_def take_fields_frame
        del: frame_fields.simps)
  ultimately show ?thesis by (simp add: proto_roundtrip_def ref_proto_def)
qed

end
