(* ===== verification/Packet_Handler.thy ===== *)
theory Packet_Handler
  imports Proto_Types
begin

text \<open>
  \<open>actix-api/src/actors/packet_handler.rs\<close>: the classification of an inbound packet and the
  limiter of keyframe requests. \<open>Instant::now()\<close> is an argument, in nanoseconds.
  The locale \<open>window_limiter\<close> states what a fixed-window limiter promises over a run of calls
  and is interpreted on \<open>KeyframeRequestLimiter\<close>.
\<close>

datatype packet_kind = Rtt | Health | Data | Dropped | KeyframeRequest

definition classify_packet :: "proto \<Rightarrow> bytes \<Rightarrow> packet_kind" where
  "classify_packet P data =
     (case parse_wrapper P data of
        None \<Rightarrow> Data
      | Some packet_wrapper \<Rightarrow>
          if pw_packet_type packet_wrapper = packet_type_value CONGESTION then Dropped
          else if pw_packet_type packet_wrapper = packet_type_value MEDIA then
            (case parse_media P (pw_data packet_wrapper) of
               Some media_packet \<Rightarrow>
                 if med_media_type media_packet = media_type_value RTT then Rtt
                 else if med_media_type media_packet = media_type_value KEYFRAME_REQUEST
                 then KeyframeRequest
                 else Data
             | None \<Rightarrow> Data)
          else if pw_packet_type packet_wrapper = packet_type_value HEALTH then Health
          else Data)"

definition KEYFRAME_REQUEST_MAX_PER_SEC :: u32 where
  "KEYFRAME_REQUEST_MAX_PER_SEC = 2"

definition KEYFRAME_REQUEST_WINDOW_MS :: nat where
  "KEYFRAME_REQUEST_WINDOW_MS = 1000"

record keyframe_request_limiter =
  krl_count :: u32
  krl_window_start :: instant

definition krl_new :: "instant \<Rightarrow> keyframe_request_limiter" where
  "krl_new now = \<lparr>krl_count = 0, krl_window_start = now\<rparr>"

definition krl_allow :: "keyframe_request_limiter \<Rightarrow> instant \<Rightarrow> bool \<times> keyframe_request_limiter" where
  "krl_allow l now =
     (let l1 = (if now - krl_window_start l > ms KEYFRAME_REQUEST_WINDOW_MS
                then l\<lparr>krl_count := 0, krl_window_start := now\<rparr> else l)
      in if krl_count l1 < KEYFRAME_REQUEST_MAX_PER_SEC
         then (True, l1\<lparr>krl_count := krl_count l1 + 1\<rparr>)
         else (False, l1))"

section \<open>Fixed-window limiters\<close>

locale window_limiter =
  fixes allow :: "'st \<Rightarrow> instant \<Rightarrow> bool \<times> 'st"
    and used :: "'st \<Rightarrow> nat"
    and start :: "'st \<Rightarrow> instant"
    and limit :: nat
    and width :: nat
  assumes expired: "now - start s > width \<Longrightarrow>
      fst (allow s now) = (0 < limit) \<and> start (snd (allow s now)) = now \<and>
      used (snd (allow s now)) = (if 0 < limit then 1 else 0)"
    and within: "now - start s \<le> width \<Longrightarrow>
      fst (allow s now) = (used s < limit) \<and> start (snd (allow s now)) = start s \<and>
      used (snd (allow s now)) = (if used s < limit then Suc (used s) else used s)"
begin

primrec granted :: "'st \<Rightarrow> instant list \<Rightarrow> nat" where
  "granted s [] = 0"
| "granted s (t # ts) = (if fst (allow s t) then 1 else 0) + granted (snd (allow s t)) ts"

lemma granted_one_window:
  "\<forall>t\<in>set ts. t - start s \<le> width \<Longrightarrow> granted s ts \<le> limit - used s"
proof (induction ts arbitrary: s)
  case Nil
  then show ?case by simp
next
  case (Cons t ts)
  let ?s = "snd (allow s t)"
  have w: "start ?s = start s"
    "fst (allow s t) = (used s < limit)"
    "used ?s = (if used s < limit then Suc (used s) else used s)"
    using within [of t s] Cons.prems by simp_all
  have "granted ?s ts \<le> limit - used ?s"
    using Cons.prems w(1) by (intro Cons.IH) simp
  then show ?case using w by auto
qed

lemma granted_sliding_aux:
  "sorted ts \<Longrightarrow> \<forall>t\<in>set ts. t0 \<le> t \<and> t \<le> t0 + width \<Longrightarrow>
    granted s ts \<le> (limit - used s) + limit"
proof (induction ts arbitrary: s)
  case Nil
  then show ?case by simp
next
  case (Cons t ts)
  let ?s = "snd (allow s t)"
  show ?case
  proof (cases "t - start s \<le> width")
    case True
    have "granted ?s ts \<le> (limit - used ?s) + limit"
      using Cons.prems by (intro Cons.IH) auto
    then show ?thesis using within [OF True] by auto
  next
    case False
    then have e: "fst (allow s t) = (0 < limit)" "start ?s = t"
      "used ?s = (if 0 < limit then 1 else 0)"
      using expired [where now = t and s = s] by simp_all
    have "granted ?s ts \<le> limit - used ?s"
      using Cons.prems e(2) by (intro granted_one_window) fastforce
    then show ?thesis using e by auto
  qed
qed

lemma granted_sliding:
  "sorted ts \<Longrightarrow> \<forall>t\<in>set ts. t0 \<le> t \<and> t \<le> t0 + width \<Longrightarrow> granted s ts \<le> 2 * limit"
  using granted_sliding_aux [of ts t0 s] by fastforce

end

lemma u32_inc: "c < (2 :: u32) \<Longrightarrow> unat (c + 1) = Suc (unat c)"
  by (rule unat_plus_one) (simp add: word_less_nat_alt)

interpretation krl: window_limiter krl_allow "\<lambda>l. unat (krl_count l)" krl_window_start
  "unat KEYFRAME_REQUEST_MAX_PER_SEC" "ms KEYFRAME_REQUEST_WINDOW_MS"
  by standard
    (auto simp: krl_allow_def KEYFRAME_REQUEST_MAX_PER_SEC_def u32_inc word_less_nat_alt Let_def)

text \<open>The number of calls of \<open>allow\<close> that are granted over a run, at the given instants.\<close>

primrec keyframe_grants :: "keyframe_request_limiter \<Rightarrow> instant list \<Rightarrow> nat" where
  "keyframe_grants l [] = 0"
| "keyframe_grants l (t # ts) =
     (case krl_allow l t of (ok, l') \<Rightarrow> (if ok then 1 else 0) + keyframe_grants l' ts)"

lemma keyframe_grants_granted: "keyframe_grants l ts = krl.granted l ts"
  by (induction ts arbitrary: l) (simp_all add: case_prod_beta)

lemma limiter_constants [simp]:
  "unat KEYFRAME_REQUEST_MAX_PER_SEC = 2" "ms KEYFRAME_REQUEST_WINDOW_MS = 1000000000"
  by (simp_all add: KEYFRAME_REQUEST_MAX_PER_SEC_def KEYFRAME_REQUEST_WINDOW_MS_def)

section \<open>Properties\<close>

text \<open>Classification. A packet is dropped exactly when it parses as a wrapper of type
  CONGESTION, so no client can inject a congestion signal; a packet that does not parse, and a
  media wrapper whose payload does not parse, is ordinary data; RTT and keyframe requests are
  recognised only inside a MEDIA wrapper.\<close>

theorem classify_packet_cases:
  "(classify_packet P d = Dropped \<longleftrightarrow>
      (\<exists>w. parse_wrapper P d = Some w \<and> pw_packet_type w = packet_type_value CONGESTION)) \<and>
   (classify_packet P d = Health \<longleftrightarrow>
      (\<exists>w. parse_wrapper P d = Some w \<and> pw_packet_type w = packet_type_value HEALTH)) \<and>
   (classify_packet P d = Rtt \<longleftrightarrow>
      (\<exists>w m. parse_wrapper P d = Some w \<and> pw_packet_type w = packet_type_value MEDIA \<and>
         parse_media P (pw_data w) = Some m \<and> med_media_type m = media_type_value RTT)) \<and>
   (classify_packet P d = KeyframeRequest \<longleftrightarrow>
      (\<exists>w m. parse_wrapper P d = Some w \<and> pw_packet_type w = packet_type_value MEDIA \<and>
         parse_media P (pw_data w) = Some m \<and>
         med_media_type m = media_type_value KEYFRAME_REQUEST))"
  by (auto simp: classify_packet_def split: option.splits if_splits)

text \<open>Keyframe requests. Within one limiter window at most two requests are granted, and over
  any interval of one second, wherever the window boundaries fall, at most four.\<close>

theorem keyframe_limit:
  "((\<forall>t\<in>set ts. t - krl_window_start l \<le> secs 1) \<longrightarrow> keyframe_grants l ts \<le> 2) \<and>
   (sorted ts \<and> (\<forall>t\<in>set ts. t0 \<le> t \<and> t \<le> t0 + secs 1) \<longrightarrow> keyframe_grants l ts \<le> 4)"
  using krl.granted_one_window [of ts l] krl.granted_sliding [of ts t0 l]
  by (auto simp: keyframe_grants_granted)

text \<open>Both bounds are reached: two requests late in a window and two just after it expired are
  all forwarded, four within three hundredths of a second.\<close>

theorem keyframe_limit_witness:
  "keyframe_grants (krl_new 0) [ms 10, ms 20, ms 30] = 2 \<and>
   keyframe_grants (krl_new 0) [ms 980, ms 990, ms 1001, ms 1002, ms 1003] = 4"
proof -
  have "keyframe_grants (krl_new 0) [ms 10, ms 20, ms 30] \<le> 2"
    "keyframe_grants (krl_new 0) [ms 980, ms 990, ms 1001, ms 1002, ms 1003] \<le> 4"
    using keyframe_limit [of "[ms 10, ms 20, ms 30]" "krl_new 0" 0]
      keyframe_limit [of "[ms 980, ms 990, ms 1001, ms 1002, ms 1003]" "krl_new 0" "ms 980"]
    by (simp_all add: krl_new_def del: keyframe_grants.simps)
  then show ?thesis
    by (simp add: krl_new_def krl_allow_def KEYFRAME_REQUEST_MAX_PER_SEC_def Let_def
        KEYFRAME_REQUEST_WINDOW_MS_def)
qed

end
