(* ===== verification/Session_Manager.thy ===== *)
theory Session_Manager
  imports Proto_Types
begin

text \<open>
  \<open>actix-api/src/session_manager.rs\<close>: the stateless session manager of the media server. It
  vets the user id of a new session and builds the system packets the server sends to clients.
  The wall clock is an argument; serialisation goes through the codec parameter \<open>P\<close>.
\<close>

datatype session_error = ReservedUserId

record session_start_result =
  ssr_start_time_ms :: u64
  ssr_is_first_participant :: bool
  ssr_creator_id :: string
  ssr_session_id :: u64

datatype session_end_result =
    MeetingContinues "64 word"
  | HostEndedMeeting
  | LastParticipantLeft

definition start_session :: "string \<Rightarrow> string \<Rightarrow> u64 \<Rightarrow> u64 \<Rightarrow> session_error + session_start_result" where
  "start_session room_id user_id sid now_ms =
     (if user_id = SYSTEM_USER_ID then Inl ReservedUserId
      else Inr \<lparr>ssr_start_time_ms = now_ms, ssr_is_first_participant = True,
                ssr_creator_id = user_id, ssr_session_id = sid\<rparr>)"

definition end_session :: "string \<Rightarrow> string \<Rightarrow> session_error + session_end_result" where
  "end_session room_id user_id = Inr (MeetingContinues 0)"

definition build_session_assigned_packet :: "proto \<Rightarrow> u64 \<Rightarrow> bytes" where
  "build_session_assigned_packet P session_id =
     (let wrapper = default_packet_wrapper
            \<lparr>pw_packet_type := packet_type_value SESSION_ASSIGNED,
             pw_user_id := to_user_id_bytes SYSTEM_USER_ID,
             pw_session_id := session_id\<rparr>
      in bytes_or_default (write_wrapper P wrapper))"

definition build_meeting_started_packet :: "proto \<Rightarrow> string \<Rightarrow> u64 \<Rightarrow> string \<Rightarrow> bytes" where
  "build_meeting_started_packet P room_id start_time_ms creator_id =
     (let meeting_packet = default_meeting_packet
            \<lparr>mp_event_type := meeting_event_type_value MEETING_STARTED,
             mp_room_id := room_id, mp_start_time_ms := start_time_ms,
             mp_creator_id := to_user_id_bytes creator_id\<rparr>;
          wrapper = default_packet_wrapper
            \<lparr>pw_packet_type := packet_type_value MEETING,
             pw_user_id := to_user_id_bytes SYSTEM_USER_ID,
             pw_data := bytes_or_default (write_meeting P meeting_packet)\<rparr>
      in bytes_or_default (write_wrapper P wrapper))"

definition build_peer_joined_packet :: "proto \<Rightarrow> string \<Rightarrow> string \<Rightarrow> u64 \<Rightarrow> string \<Rightarrow> bytes" where
  "build_peer_joined_packet P room_id user_id session_id display_name =
     (let meeting_packet = default_meeting_packet
            \<lparr>mp_event_type := meeting_event_type_value PARTICIPANT_JOINED,
             mp_room_id := room_id,
             mp_message := user_id @ '' has joined the meeting'',
             mp_target_user_id := to_user_id_bytes user_id,
             mp_session_id := session_id,
             mp_display_name := as_bytes display_name\<rparr>;
          wrapper = default_packet_wrapper
            \<lparr>pw_packet_type := packet_type_value MEETING,
             pw_user_id := to_user_id_bytes SYSTEM_USER_ID,
             pw_data := bytes_or_default (write_meeting P meeting_packet)\<rparr>
      in bytes_or_default (write_wrapper P wrapper))"

definition build_peer_left_packet :: "proto \<Rightarrow> string \<Rightarrow> string \<Rightarrow> u64 \<Rightarrow> string \<Rightarrow> bytes" where
  "build_peer_left_packet P room_id user_id session_id display_name =
     (let meeting_packet = default_meeting_packet
            \<lparr>mp_event_type := meeting_event_type_value PARTICIPANT_LEFT,
             mp_room_id := room_id,
             mp_message := user_id @ '' has left the meeting'',
             mp_target_user_id := to_user_id_bytes user_id,
             mp_session_id := session_id,
             mp_display_name := as_bytes display_name\<rparr>;
          wrapper = default_packet_wrapper
            \<lparr>pw_packet_type := packet_type_value MEETING,
             pw_user_id := to_user_id_bytes SYSTEM_USER_ID,
             pw_data := bytes_or_default (write_meeting P meeting_packet)\<rparr>
      in bytes_or_default (write_wrapper P wrapper))"

definition build_meeting_ended_packet :: "proto \<Rightarrow> string \<Rightarrow> string \<Rightarrow> bytes" where
  "build_meeting_ended_packet P room_id message =
     (let meeting_packet = default_meeting_packet
            \<lparr>mp_event_type := meeting_event_type_value MEETING_ENDED,
             mp_room_id := room_id, mp_message := message\<rparr>;
          wrapper = default_packet_wrapper
            \<lparr>pw_packet_type := packet_type_value MEETING,
             pw_user_id := to_user_id_bytes SYSTEM_USER_ID,
             pw_data := bytes_or_default (write_meeting P meeting_packet)\<rparr>
      in bytes_or_default (write_wrapper P wrapper))"

section \<open>What a receiver reads\<close>

text \<open>The meeting event a receiver extracts from the bytes of a packet: the wrapper must be a
  MEETING packet of the system user.\<close>

definition read_system_event :: "proto \<Rightarrow> bytes \<Rightarrow> meeting_packet option" where
  "read_system_event P bs =
     (case parse_wrapper P bs of
        None \<Rightarrow> None
      | Some w \<Rightarrow> if pw_packet_type w = packet_type_value MEETING \<and> is_system_user (pw_user_id w)
                then parse_meeting P (pw_data w) else None)"

lemma read_system_event_meeting:
  assumes "proto_roundtrip P"
  shows "read_system_event P (bytes_or_default (write_wrapper P
           (default_packet_wrapper
             \<lparr>pw_packet_type := packet_type_value MEETING,
              pw_user_id := to_user_id_bytes SYSTEM_USER_ID,
              pw_data := bytes_or_default (write_meeting P m)\<rparr>))) = Some m"
  using assms
  by (simp add: read_system_event_def parse_written_wrapper parse_written_meeting
      is_system_user_iff)

lemmas build_defs =
  build_meeting_started_packet_def build_peer_joined_packet_def build_peer_left_packet_def
  build_meeting_ended_packet_def

lemma start_session_reserved: "start_session room SYSTEM_USER_ID sid now = Inl ReservedUserId"
  by (simp add: start_session_def)

lemma session_assigned_parses:
  assumes "proto_roundtrip P"
  shows "\<exists>w. parse_wrapper P (build_session_assigned_packet P sid) = Some w \<and>
     pw_packet_type w = packet_type_value SESSION_ASSIGNED \<and> pw_session_id w = sid \<and>
     is_system_user (pw_user_id w)"
  using assms
  by (simp add: build_session_assigned_packet_def parse_written_wrapper is_system_user_iff)

text \<open>
  The join and leave notifications carry what the peers need. A receiver that decodes the
  bytes of a PARTICIPANT_JOINED or PARTICIPANT_LEFT packet sees a system event of that type
  for the room, with the identity, the session and the display name of the participant.
\<close>

theorem peer_packets_roundtrip:
  assumes "proto_roundtrip P"
  shows "\<exists>j l. read_system_event P (build_peer_joined_packet P room user sid name) = Some j \<and>
     read_system_event P (build_peer_left_packet P room user sid name) = Some l \<and>
     mp_event_type j = meeting_event_type_value PARTICIPANT_JOINED \<and>
     mp_event_type l = meeting_event_type_value PARTICIPANT_LEFT \<and>
     (\<forall>m. m = j \<or> m = l \<longrightarrow>
        mp_room_id m = room \<and> mp_target_user_id m = to_user_id_bytes user \<and>
        mp_session_id m = sid \<and> mp_display_name m = as_bytes name)"
  unfolding build_defs Let_def read_system_event_meeting [OF assms]
  by (intro exI conjI; (rule refl)?) auto

theorem peer_packets_roundtrip_witness:
  "\<exists>j. read_system_event ref_proto
         (build_peer_joined_packet ref_proto ''r'' ''alice'' 5 ''Alice'') = Some j \<and>
     mp_session_id j = 5 \<and> mp_target_user_id j = to_user_id_bytes ''alice''"
  using peer_packets_roundtrip [OF ref_proto_roundtrip, of "''r''" "''alice''" 5 "''Alice''"]
  by auto

end
