(* ===== verification/Nats_Subjects.thy ===== *)
theory Nats_Subjects
  imports VC_Prelude
begin

text \<open>
  The NATS subjects the services agree on. The media server publishes the packets of a session
  on \<open>room.<room>.<session>\<close> and system events on \<open>room.<room>.system\<close>, and every session
  subscribes to \<open>room.<room>.*\<close> (\<open>actix-api/src/actors/chat_server.rs\<close>,
  \<open>actix-api/src/models/mod.rs\<close>, \<open>actix-api/src/actors/session_logic.rs\<close>). The meeting
  service publishes its lifecycle events on its own rendering of the system subject
  (\<open>meeting-api/src/nats_events.rs\<close>).

  The NATS server is not part of the repository. Its subject matching is a parameter of the
  theorems, restricted by \<open>nats_wildcard_law\<close>: subjects are dot separated tokens and the token
  \<open>*\<close> of a pattern stands for exactly one token.
\<close>

section \<open>Subjects built by the media server\<close>

definition session_subject :: "string \<Rightarrow> u64 \<Rightarrow> string" where
  "session_subject room session =
     spaces_to_underscores (''room.'' @ room @ ''.'' @ show_u64 session)"

definition system_subject :: "string \<Rightarrow> string" where
  "system_subject room_id = ''room.'' @ spaces_to_underscores room_id @ ''.system''"

definition congestion_subject :: "string \<Rightarrow> u64 \<Rightarrow> string" where
  "congestion_subject room sender_sid =
     ''room.'' @ spaces_to_underscores room @ ''.'' @ show_u64 sender_sid"

definition build_subject_and_queue :: "string \<Rightarrow> string \<Rightarrow> string \<times> string" where
  "build_subject_and_queue room session =
     (spaces_to_underscores (''room.'' @ room @ ''.*''),
      spaces_to_underscores (session @ ''-'' @ room))"

section \<open>Subjects built by the meeting service\<close>

definition sanitize_room_id :: "string \<Rightarrow> string" where
  "sanitize_room_id room_id =
     map (\<lambda>c. if c \<in> {CHR ''.'', CHR ''*'', CHR ''>'', CHR '' '', CHR 0x09, CHR 0x0A, CHR 0x0D}
              then CHR ''_'' else c) room_id"

definition room_system_subject :: "string \<Rightarrow> string" where
  "room_system_subject room_id = ''room.'' @ sanitize_room_id room_id @ ''.system''"

section \<open>Subject matching of the message broker\<close>

fun subject_tokens :: "string \<Rightarrow> string list" where
  "subject_tokens [] = [[]]"
| "subject_tokens (c # s) =
     (if c = CHR ''.'' then [] # subject_tokens s
      else (case subject_tokens s of [] \<Rightarrow> [[c]] | t # ts \<Rightarrow> (c # t) # ts))"

definition wildcard_match :: "string \<Rightarrow> string \<Rightarrow> bool" where
  "wildcard_match pat subj =
     list_all2 (\<lambda>p t. p = ''*'' \<or> p = t) (subject_tokens pat) (subject_tokens subj)"

definition nats_wildcard_law :: "(string \<Rightarrow> string \<Rightarrow> bool) \<Rightarrow> bool" where
  "nats_wildcard_law nats_match \<longleftrightarrow>
     (\<forall>pat subj. CHR ''>'' \<notin> set pat \<longrightarrow> nats_match pat subj = wildcard_match pat subj)"

section \<open>Lemmas\<close>

lemma subject_tokens_append_dot:
  "CHR ''.'' \<notin> set s \<Longrightarrow> subject_tokens (s @ CHR ''.'' # t) = s # subject_tokens t"
  by (induction s) auto

lemma subject_tokens_no_dot: "CHR ''.'' \<notin> set s \<Longrightarrow> subject_tokens s = [s]"
  by (induction s) auto

lemma id_chars_no_dot: "list_all is_id_char s \<Longrightarrow> CHR ''.'' \<notin> set s"
  by (auto simp: list_all_iff dest: is_id_char_no_dot)

lemma id_chars_not_star: "list_all is_id_char s \<Longrightarrow> s \<noteq> ''*''"
  by (auto simp: is_id_char_def is_ascii_alphanumeric_def)

lemma id_chars_no_gt: "list_all is_id_char s \<Longrightarrow> CHR ''>'' \<notin> set s"
  by (auto simp: list_all_iff is_id_char_def is_ascii_alphanumeric_def)

lemma session_subject_tokens:
  assumes "list_all is_id_char room"
  shows "subject_tokens (session_subject room s) = [''room'', room, show_u64 s]"
proof -
  have eq: "session_subject room s = ''room'' @ CHR ''.'' # (room @ CHR ''.'' # show_u64 s)"
    by (simp add: session_subject_def assms spaces_to_underscores_id_chars)
  have "subject_tokens (room @ CHR ''.'' # show_u64 s) = [room, show_u64 s]"
    by (simp add: subject_tokens_append_dot subject_tokens_no_dot id_chars_no_dot assms
        show_u64_digits)
  then show ?thesis
    unfolding eq by (subst subject_tokens_append_dot) simp_all
qed

lemma room_pattern_tokens:
  assumes "list_all is_id_char room"
  shows "subject_tokens (fst (build_subject_and_queue room q)) = [''room'', room, ''*'']"
proof -
  have eq: "fst (build_subject_and_queue room q) = ''room'' @ CHR ''.'' # (room @ CHR ''.'' # ''*'')"
    by (simp add: build_subject_and_queue_def assms spaces_to_underscores_id_chars)
  have "subject_tokens (room @ CHR ''.'' # ''*'') = [room, ''*'']"
    by (subst subject_tokens_append_dot) (simp_all add: id_chars_no_dot assms)
  then show ?thesis
    unfolding eq by (subst subject_tokens_append_dot) simp_all
qed

lemma system_subject_tokens:
  assumes "list_all is_id_char room"
  shows "subject_tokens (system_subject room) = [''room'', room, ''system'']"
proof -
  have eq: "system_subject room = ''room'' @ CHR ''.'' # (room @ CHR ''.'' # ''system'')"
    by (simp add: system_subject_def assms spaces_to_underscores_id_chars)
  have "subject_tokens (room @ CHR ''.'' # ''system'') = [room, ''system'']"
    by (subst subject_tokens_append_dot) (simp_all add: id_chars_no_dot assms)
  then show ?thesis
    unfolding eq by (subst subject_tokens_append_dot) simp_all
qed

lemma sanitize_room_id_valid:
  assumes "list_all is_id_char room"
  shows "sanitize_room_id room = room"
proof -
  have "(if c \<in> {CHR ''.'', CHR ''*'', CHR ''>'', CHR '' '', CHR 0x09, CHR 0x0A, CHR 0x0D}
         then CHR ''_'' else c) = c" if "c \<in> set room" for c
    using assms that
    by (auto simp: list_all_iff is_id_char_def is_ascii_alphanumeric_def)
  then show ?thesis
    by (simp add: sanitize_room_id_def map_idI)
qed

lemma last_show_nat: "of_char (last (show_nat n)) = (48 + n mod 10 :: nat)"
  by (subst show_nat.simps) (simp add: digit_char(1))

lemma show_u64_not_system: "show_u64 s \<noteq> ''system''"
proof
  assume "show_u64 s = ''system''"
  then have "(109 :: nat) = 48 + unat s mod 10"
    using last_show_nat [of "unat s"] by (simp add: show_u64_def)
  moreover have "unat s mod 10 < 10" by simp
  ultimately show False by linarith
qed

lemma congestion_subject_eq: "congestion_subject room s = session_subject room s"
  by (simp add: congestion_subject_def session_subject_def)

section \<open>Properties\<close>

text \<open>
  Subjects identify their session. For room names that pass the token validator's character
  check, two sessions publish on the same NATS subject only if they are the same session of
  the same room. The self-skip of the subscription handler compares these subjects, so it
  drops a session's own packets and no others.
\<close>

theorem session_subject_injective:
  assumes "list_all is_id_char room" and "list_all is_id_char room'"
  shows "session_subject room s = session_subject room' s' \<longleftrightarrow> room = room' \<and> s = s'"
proof
  assume "session_subject room s = session_subject room' s'"
  then have "[''room'', room, show_u64 s] = [''room'', room', show_u64 s']"
    using assms by (metis session_subject_tokens)
  then show "room = room' \<and> s = s'" by simp
qed simp

theorem session_subject_injective_witness:
  "session_subject ''standup-1'' 7 = session_subject ''standup-1'' 8 \<longleftrightarrow> False"
proof -
  have "list_all is_id_char ''standup-1''" by code_simp
  from session_subject_injective [OF this this, of 7 8] show ?thesis by simp
qed

text \<open>
  Rooms are isolated at the broker. With single-token wildcards, the subscription a session
  opens for its room matches the media subject and the system subject of exactly that room.
\<close>

theorem room_subscription_isolated:
  assumes "nats_wildcard_law nats_match"
    and "list_all is_id_char room" and "list_all is_id_char room'"
  shows "(nats_match (fst (build_subject_and_queue room q)) (session_subject room' s) \<longleftrightarrow> room = room') \<and>
    (nats_match (fst (build_subject_and_queue room q)) (system_subject room') \<longleftrightarrow> room = room')"
proof -
  have "CHR ''>'' \<notin> set (fst (build_subject_and_queue room q))"
    using id_chars_no_gt [OF assms(2)]
    by (auto simp: build_subject_and_queue_def spaces_to_underscores_def)
  with assms(1) have m: "nats_match (fst (build_subject_and_queue room q)) t =
      wildcard_match (fst (build_subject_and_queue room q)) t" for t
    by (simp add: nats_wildcard_law_def)
  show ?thesis
    using id_chars_not_star [OF assms(2)]
    by (auto simp: m wildcard_match_def room_pattern_tokens session_subject_tokens
        system_subject_tokens assms)
qed

theorem room_subscription_isolated_witness:
  "wildcard_match (fst (build_subject_and_queue ''a'' ''q'')) (session_subject ''a'' 3) \<and>
   \<not> wildcard_match (fst (build_subject_and_queue ''a'' ''q'')) (system_subject ''b'')"
proof -
  have law: "nats_wildcard_law wildcard_match" by (simp add: nats_wildcard_law_def)
  have a: "list_all is_id_char ''a''" and b: "list_all is_id_char ''b''" by code_simp+
  show ?thesis
    using room_subscription_isolated [OF law a a, of "''q''" 3]
      room_subscription_isolated [OF law a b, of "''q''" 3] by simp
qed

text \<open>
  The two services agree on the system subject. The meeting service sanitises more
  characters than the media server, yet for every room name made of identifier characters
  both render the same subject, so a lifecycle event reaches the sessions of the room.
\<close>

theorem system_subjects_agree:
  assumes "list_all is_id_char room"
  shows "room_system_subject room = system_subject room"
  by (simp add: room_system_subject_def system_subject_def sanitize_room_id_valid
      spaces_to_underscores_id_chars assms)

theorem system_subjects_agree_witness:
  "room_system_subject ''standup'' = ''room.standup.system'' \<and>
   system_subject ''standup'' = ''room.standup.system''"
proof -
  have "list_all is_id_char ''standup''" by code_simp
  from system_subjects_agree [OF this] show ?thesis
    by (simp add: system_subject_def spaces_to_underscores_def)
qed

end
