(* ===== verification/Session_Logic.thy ===== *)
theory Session_Logic
  imports Packet_Handler Session_Manager Nats_Subjects
begin

text \<open>
  \<open>actix-api/src/actors/session_logic.rs\<close>, the transport independent logic of one chat session,
  with the messages of \<open>actix-api/src/messages\<close> it exchanges with the chat server and the
  constants of \<open>actix-api/src/constants.rs\<close>.

  \<^item> The clock (\<open>Instant::now()\<close>) and the random UUID are arguments.
  \<^item> Calls that leave the component (metrics, health processing, NATS, the chat server's
    mailbox) are returned as a list of \<open>logic_effect\<close> values in program order.
  \<^item> The drop table of the congestion tracker is looked up and filtered by key, so it is a
    partial function.
\<close>

section \<open>Messages\<close>

record client_message =
  cm_session :: u64
  cm_user :: string
  cm_room :: string
  cm_msg :: bytes

record join_room_msg =
  jr_session :: u64
  jr_room :: string
  jr_user_id :: string
  jr_display_name :: string
  jr_observer :: bool

record 'addr connect_msg =
  co_id :: u64
  co_addr :: 'addr

record disconnect_msg =
  di_session :: u64
  di_room :: string
  di_user_id :: string
  di_display_name :: string
  di_observer :: bool

record leave_msg =
  le_session :: u64
  le_room :: string
  le_user_id :: string

record activate_connection_msg =
  ac_session :: u64

record session_message =
  sm_session :: u64
  sm_msg :: bytes

section \<open>Congestion tracking\<close>

definition CONGESTION_DROP_THRESHOLD :: u32 where
  "CONGESTION_DROP_THRESHOLD = 5"

definition CONGESTION_WINDOW :: nat where
  "CONGESTION_WINDOW = ms 1000"

definition CONGESTION_NOTIFY_MIN_INTERVAL :: nat where
  "CONGESTION_NOTIFY_MIN_INTERVAL = ms 1000"

definition CLEANUP_INTERVAL :: u32 where
  "CLEANUP_INTERVAL = 100"

datatype connection_state = Testing | Active

record sender_drop_state =
  sds_drop_count :: u32
  sds_window_start :: instant
  sds_last_notify :: "instant option"

record congestion_tracker =
  ct_senders :: "u64 \<rightharpoonup> sender_drop_state"
  ct_total_drops :: u32

definition congestion_tracker_new :: congestion_tracker where
  "congestion_tracker_new = \<lparr>ct_senders = Map.empty, ct_total_drops = 0\<rparr>"

definition retain_fresh :: "instant \<Rightarrow> (u64 \<rightharpoonup> sender_drop_state) \<Rightarrow> (u64 \<rightharpoonup> sender_drop_state)" where
  "retain_fresh now senders =
     (\<lambda>k. case senders k of
            Some state \<Rightarrow>
              if now - sds_window_start state \<le> CONGESTION_WINDOW * 10 then Some state else None
          | None \<Rightarrow> None)"

definition record_drop ::
  "congestion_tracker \<Rightarrow> instant \<Rightarrow> u64 \<Rightarrow> u64 option \<times> congestion_tracker" where
  "record_drop tr now sender_session_id =
     (let total = ct_total_drops tr + 1;
          senders = (if total mod CLEANUP_INTERVAL = 0 then retain_fresh now (ct_senders tr)
                     else ct_senders tr);
          state = (case senders sender_session_id of
                     Some state \<Rightarrow> state
                   | None \<Rightarrow> \<lparr>sds_drop_count = 0, sds_window_start = now, sds_last_notify = None\<rparr>);
          state = (if now - sds_window_start state > CONGESTION_WINDOW
                   then state\<lparr>sds_drop_count := 0, sds_window_start := now\<rparr> else state);
          state = state\<lparr>sds_drop_count := sds_drop_count state + 1\<rparr>;
          put = (\<lambda>st. \<lparr>ct_senders = senders(sender_session_id \<mapsto> st), ct_total_drops = total\<rparr>)
      in if sds_drop_count state \<ge> CONGESTION_DROP_THRESHOLD
         then (if (case sds_last_notify state of
                     Some notified \<Rightarrow> now - notified < CONGESTION_NOTIFY_MIN_INTERVAL
                   | None \<Rightarrow> False)
               then (None, put state)
               else (Some sender_session_id,
                     put \<lparr>sds_drop_count = 0, sds_window_start = now, sds_last_notify = Some now\<rparr>))
         else (None, put state))"

section \<open>Session logic\<close>

datatype inbound_action =
    Echo bytes
  | Forward bytes
  | Processed
  | KeepAlive

datatype logic_effect =
    TrackConnectionStarted u64 string string string
  | TrackConnectionEnded u64
  | TrackReceived u64 u64
  | TrackSent u64 u64
  | ProcessHealthPacket bytes
  | NatsPublish string bytes
  | SendDisconnect disconnect_msg

record session_logic =
  sl_id :: u64
  sl_room :: string
  sl_user_id :: string
  sl_display_name :: string
  sl_observer :: bool
  sl_congestion_tracker :: congestion_tracker
  sl_keyframe_limiter :: keyframe_request_limiter

definition session_logic_new ::
  "u128 \<Rightarrow> instant \<Rightarrow> string \<Rightarrow> string \<Rightarrow> string \<Rightarrow> bool \<Rightarrow> session_logic" where
  "session_logic_new uuid now room user_id display_name observer =
     \<lparr>sl_id = ucast (and uuid 0xffffffffffffffff), sl_room = room, sl_user_id = user_id,
      sl_display_name = display_name, sl_observer = observer,
      sl_congestion_tracker = congestion_tracker_new, sl_keyframe_limiter = krl_new now\<rparr>"

definition track_connection_start :: "session_logic \<Rightarrow> string \<Rightarrow> logic_effect list" where
  "track_connection_start l transport =
     [TrackConnectionStarted (sl_id l) (sl_user_id l) (sl_room l) transport]"

definition build_meeting_started :: "proto \<Rightarrow> session_logic \<Rightarrow> u64 \<Rightarrow> string \<Rightarrow> bytes" where
  "build_meeting_started P l start_time_ms creator_id =
     build_meeting_started_packet P (sl_room l) start_time_ms creator_id"

definition build_session_assigned :: "proto \<Rightarrow> session_logic \<Rightarrow> bytes" where
  "build_session_assigned P l = build_session_assigned_packet P (sl_id l)"

definition build_meeting_ended :: "proto \<Rightarrow> session_logic \<Rightarrow> string \<Rightarrow> bytes" where
  "build_meeting_ended P l reason = build_meeting_ended_packet P (sl_room l) reason"

definition create_connect_message :: "session_logic \<Rightarrow> 'addr \<Rightarrow> 'addr connect_msg" where
  "create_connect_message l recipient = \<lparr>co_id = sl_id l, co_addr = recipient\<rparr>"

definition create_join_room_message :: "session_logic \<Rightarrow> join_room_msg" where
  "create_join_room_message l =
     \<lparr>jr_session = sl_id l, jr_room = sl_room l, jr_user_id = sl_user_id l,
      jr_display_name = sl_display_name l, jr_observer = sl_observer l\<rparr>"

definition create_client_message :: "session_logic \<Rightarrow> bytes \<Rightarrow> client_message" where
  "create_client_message l msg =
     \<lparr>cm_session = sl_id l, cm_user = sl_user_id l, cm_room = sl_room l, cm_msg = msg\<rparr>"

text \<open>The outer error is a mailbox error, the inner one the handler's message.\<close>

definition handle_join_room_result :: "session_logic \<Rightarrow> 'e + (string + unit) \<Rightarrow> bool" where
  "handle_join_room_result l result =
     (case result of Inr (Inr _) \<Rightarrow> False | Inr (Inl e) \<Rightarrow> True | Inl err \<Rightarrow> True)"

definition on_stopping :: "session_logic \<Rightarrow> logic_effect list" where
  "on_stopping l =
     [TrackConnectionEnded (sl_id l),
      SendDisconnect \<lparr>di_session = sl_id l, di_room = sl_room l, di_user_id = sl_user_id l,
        di_display_name = sl_display_name l, di_observer = sl_observer l\<rparr>]"

definition should_activate_on_action :: "inbound_action \<Rightarrow> bool" where
  "should_activate_on_action action = (case action of Echo _ \<Rightarrow> False | _ \<Rightarrow> True)"

definition handle_inbound ::
  "proto \<Rightarrow> instant \<Rightarrow> session_logic \<Rightarrow> bytes \<Rightarrow> inbound_action \<times> session_logic \<times> logic_effect list" where
  "handle_inbound P now l data =
     (let received = TrackReceived (sl_id l) (of_nat (length data)) in
      case classify_packet P data of
        Dropped \<Rightarrow> (Processed, l, [received])
      | Rtt \<Rightarrow> (Echo data, l, [received, TrackSent (sl_id l) (of_nat (length data))])
      | Health \<Rightarrow> (Processed, l, [received, ProcessHealthPacket data])
      | KeyframeRequest \<Rightarrow>
          if sl_observer l then (Processed, l, [received])
          else (case krl_allow (sl_keyframe_limiter l) now of
                  (ok, limiter) \<Rightarrow>
                    let l' = l\<lparr>sl_keyframe_limiter := limiter\<rparr>
                    in if \<not> ok then (Processed, l', [received])
                       else (Forward data, l', [received]))
      | Data \<Rightarrow>
          if sl_observer l then (Processed, l, [received])
          else (Forward data, l, [received]))"

definition handle_outbound :: "session_logic \<Rightarrow> session_message \<Rightarrow> bytes \<times> logic_effect list" where
  "handle_outbound l msg =
     (sm_msg msg, [TrackSent (sl_id l) (of_nat (length (sm_msg msg)))])"

definition on_outbound_drop ::
  "proto \<Rightarrow> instant \<Rightarrow> session_logic \<Rightarrow> u64 \<Rightarrow> session_logic \<times> logic_effect list" where
  "on_outbound_drop P now l sender_session_id =
     (case record_drop (sl_congestion_tracker l) now sender_session_id of
        (r, tracker) \<Rightarrow>
          let l' = l\<lparr>sl_congestion_tracker := tracker\<rparr> in
          case r of
            None \<Rightarrow> (l', [])
          | Some sender_sid \<Rightarrow>
              let congestion_packet = default_packet_wrapper
                    \<lparr>pw_packet_type := packet_type_value CONGESTION,
                     pw_user_id := as_bytes (sl_user_id l'),
                     pw_session_id := sender_sid\<rparr>
              in case write_wrapper P congestion_packet of
                   Some bs \<Rightarrow> (l', [NatsPublish (congestion_subject (sl_room l') sender_sid) bs])
                 | None \<Rightarrow> (l', []))"

section \<open>Runs of the congestion tracker\<close>

text \<open>A run of drops is a list of instants and senders; \<open>notifications\<close> collects the instants at
  which the tracker asks for a CONGESTION signal and the sender it is for.\<close>

primrec notifications ::
  "congestion_tracker \<Rightarrow> (instant \<times> u64) list \<Rightarrow> (instant \<times> u64) list" where
  "notifications tr [] = []"
| "notifications tr (e # es) =
     (case record_drop tr (fst e) (snd e) of
        (None, tr') \<Rightarrow> notifications tr' es
      | (Some s, tr') \<Rightarrow> (fst e, s) # notifications tr' es)"

lemmas congestion_consts =
  CONGESTION_DROP_THRESHOLD_def CONGESTION_WINDOW_def CONGESTION_NOTIFY_MIN_INTERVAL_def
  CLEANUP_INTERVAL_def

text \<open>The ghost \<open>L\<close> holds the last notification of every sender. Either the tracker still knows
  it, or it is old enough not to matter: the cleanup forgets a sender only after ten windows.\<close>

definition gap_inv :: "instant \<Rightarrow> (u64 \<rightharpoonup> instant) \<Rightarrow> congestion_tracker \<Rightarrow> bool" where
  "gap_inv c L tr \<longleftrightarrow>
     (\<forall>s T. L s = Some T \<longrightarrow>
        T + CONGESTION_NOTIFY_MIN_INTERVAL \<le> c \<or>
        (\<exists>st. ct_senders tr s = Some st \<and> sds_last_notify st = Some T \<and> T \<le> sds_window_start st))"

lemma gap_inv_retain:
  assumes "gap_inv c L tr" and "c \<le> now"
  shows "gap_inv now L (tr\<lparr>ct_senders := retain_fresh now (ct_senders tr)\<rparr>)"
  unfolding gap_inv_def
proof (intro allI impI)
  fix s T assume L: "L s = Some T"
  with assms(1) consider "T + CONGESTION_NOTIFY_MIN_INTERVAL \<le> c"
    | st where "ct_senders tr s = Some st" "sds_last_notify st = Some T" "T \<le> sds_window_start st"
    unfolding gap_inv_def by blast
  then show "T + CONGESTION_NOTIFY_MIN_INTERVAL \<le> now \<or>
      (\<exists>st. ct_senders (tr\<lparr>ct_senders := retain_fresh now (ct_senders tr)\<rparr>) s = Some st \<and>
         sds_last_notify st = Some T \<and> T \<le> sds_window_start st)"
  proof cases
    case 1
    with assms(2) show ?thesis by simp
  next
    case 2
    then show ?thesis
      by (cases "now - sds_window_start st \<le> CONGESTION_WINDOW * 10")
        (auto simp: retain_fresh_def congestion_consts)
  qed
qed

lemma gap_inv_mono: "gap_inv c L tr \<Longrightarrow> c \<le> now \<Longrightarrow> gap_inv now L tr"
  unfolding gap_inv_def using le_trans by blast

text \<open>The entry a drop works on, after the cleanup pass and the window reset.\<close>

definition swept :: "congestion_tracker \<Rightarrow> instant \<Rightarrow> (u64 \<rightharpoonup> sender_drop_state)" where
  "swept tr now =
     (if (ct_total_drops tr + 1) mod CLEANUP_INTERVAL = 0 then retain_fresh now (ct_senders tr)
      else ct_senders tr)"

definition bumped :: "instant \<Rightarrow> sender_drop_state option \<Rightarrow> sender_drop_state" where
  "bumped now e =
     (case e of
        None \<Rightarrow> \<lparr>sds_drop_count = 1, sds_window_start = now, sds_last_notify = None\<rparr>
      | Some st \<Rightarrow>
          if now - sds_window_start st > CONGESTION_WINDOW
          then st\<lparr>sds_drop_count := 1, sds_window_start := now\<rparr>
          else st\<lparr>sds_drop_count := sds_drop_count st + 1\<rparr>)"

definition limited :: "instant \<Rightarrow> sender_drop_state \<Rightarrow> bool" where
  "limited now st = (case sds_last_notify st of
      Some T \<Rightarrow> now - T < CONGESTION_NOTIFY_MIN_INTERVAL | None \<Rightarrow> False)"

lemma record_drop_eq:
  "record_drop tr now s =
     (let m = swept tr now; st = bumped now (m s) in
      if sds_drop_count st \<ge> CONGESTION_DROP_THRESHOLD \<and> \<not> limited now st
      then (Some s, \<lparr>ct_senders = m(s \<mapsto> \<lparr>sds_drop_count = 0, sds_window_start = now,
              sds_last_notify = Some now\<rparr>), ct_total_drops = ct_total_drops tr + 1\<rparr>)
      else (None, \<lparr>ct_senders = m(s \<mapsto> st), ct_total_drops = ct_total_drops tr + 1\<rparr>))"
  by (auto simp: record_drop_def swept_def bumped_def limited_def Let_def split: option.splits)

lemma gap_inv_swept:
  assumes "gap_inv c L tr" and "c \<le> now"
  shows "gap_inv now L \<lparr>ct_senders = swept tr now, ct_total_drops = n\<rparr>"
  using gap_inv_retain [OF assms] gap_inv_mono [OF assms]
  by (simp add: swept_def gap_inv_def)

lemma bumped_keeps_notify:
  "T \<le> now \<Longrightarrow> m = Some st \<Longrightarrow> sds_last_notify st = Some T \<Longrightarrow> T \<le> sds_window_start st \<Longrightarrow>
     sds_last_notify (bumped now m) = Some T \<and> T \<le> sds_window_start (bumped now m)"
  by (auto simp: bumped_def)

lemma gap_inv_put:
  assumes "gap_inv now L \<lparr>ct_senders = m, ct_total_drops = n\<rparr>"
    and "\<And>T. L' s = Some T \<Longrightarrow> T + CONGESTION_NOTIFY_MIN_INTERVAL \<le> now \<or>
           sds_last_notify st = Some T \<and> T \<le> sds_window_start st"
    and "\<And>s'. s' \<noteq> s \<Longrightarrow> L' s' = L s'"
  shows "gap_inv now L' \<lparr>ct_senders = m(s \<mapsto> st), ct_total_drops = n\<rparr>"
  unfolding gap_inv_def
proof (intro allI impI, goal_cases)
  case (1 s' T)
  then show ?case
    using assms by (cases "s' = s") (auto simp: gap_inv_def)
qed

lemma record_drop_gap:
  assumes inv: "gap_inv c L tr" and mono: "c \<le> now" and past: "\<forall>T. L s = Some T \<longrightarrow> T \<le> now"
    and step: "record_drop tr now s = (r, tr')"
  shows "(r = None \<longrightarrow> gap_inv now L tr') \<and>
    (r \<noteq> None \<longrightarrow> r = Some s \<and> gap_inv now (L(s \<mapsto> now)) tr' \<and>
       (\<forall>T. L s = Some T \<longrightarrow> T + CONGESTION_NOTIFY_MIN_INTERVAL \<le> now))"
proof -
  let ?m = "swept tr now" and ?st = "bumped now (swept tr now s)"
  have m: "gap_inv now L \<lparr>ct_senders = ?m, ct_total_drops = ct_total_drops tr + 1\<rparr>"
    by (rule gap_inv_swept [OF inv mono])
  have gap: "T + CONGESTION_NOTIFY_MIN_INTERVAL \<le> now" if "\<not> limited now ?st" "L s = Some T" for T
  proof (rule ccontr)
    assume c: "\<not> ?thesis"
    with m that(2) obtain st where "?m s = Some st" "sds_last_notify st = Some T"
      "T \<le> sds_window_start st"
      unfolding gap_inv_def by auto
    with that past have "sds_last_notify ?st = Some T"
      using bumped_keeps_notify [of T now "?m s" st] by simp
    moreover have "T \<le> now" using past that(2) by blast
    ultimately show False
      using that(1) c by (simp add: limited_def)
  qed
  have known: "T + CONGESTION_NOTIFY_MIN_INTERVAL \<le> now \<or>
      sds_last_notify ?st = Some T \<and> T \<le> sds_window_start ?st" if "L s = Some T" for T
  proof -
    from m that have "T + CONGESTION_NOTIFY_MIN_INTERVAL \<le> now \<or>
        (\<exists>st. ?m s = Some st \<and> sds_last_notify st = Some T \<and> T \<le> sds_window_start st)"
      by (simp add: gap_inv_def)
    moreover have "T \<le> now" using past that by blast
    ultimately show ?thesis using bumped_keeps_notify [of T now "?m s"] by blast
  qed
  have keep: "gap_inv now L \<lparr>ct_senders = ?m(s \<mapsto> ?st), ct_total_drops = ct_total_drops tr + 1\<rparr>"
    by (rule gap_inv_put [OF m known]) simp_all
  have notify: "gap_inv now (L(s \<mapsto> now)) \<lparr>ct_senders = ?m(s \<mapsto> \<lparr>sds_drop_count = 0,
      sds_window_start = now, sds_last_notify = Some now\<rparr>), ct_total_drops = ct_total_drops tr + 1\<rparr>"
    by (rule gap_inv_put [OF m]) simp_all
  show ?thesis
    using step keep notify gap
    by (auto simp: record_drop_eq Let_def split: if_splits)
qed

lemma notifications_gap:
  assumes "gap_inv c L tr" and "sorted (c # map fst es)" and "\<forall>s T. L s = Some T \<longrightarrow> T \<le> c"
  shows "sorted_wrt (\<lambda>(t, s) (t', s'). s = s' \<longrightarrow> t + CONGESTION_NOTIFY_MIN_INTERVAL \<le> t')
           (notifications tr es) \<and>
         (\<forall>(t, s) \<in> set (notifications tr es). \<forall>T. L s = Some T \<longrightarrow>
            T + CONGESTION_NOTIFY_MIN_INTERVAL \<le> t)"
  using assms
proof (induction es arbitrary: c L tr)
  case Nil
  then show ?case by simp
next
  case (Cons e es)
  obtain now s where e: "e = (now, s)" by (cases e)
  obtain r tr' where step: "record_drop tr now s = (r, tr')"
    by (cases "record_drop tr now s")
  have le: "c \<le> now" and srt: "sorted (now # map fst es)"
    using Cons.prems(2) e by auto
  have past: "\<forall>s T. L s = Some T \<longrightarrow> T \<le> now"
    using Cons.prems(3) le le_trans by blast
  note g = record_drop_gap [OF Cons.prems(1) le _ step]
  show ?case
  proof (cases r)
    case None
    with g past have "gap_inv now L tr'" by blast
    from Cons.IH [OF this srt past] show ?thesis
      using e step None by simp
  next
    case (Some s0)
    with g past have s0: "s0 = s" and inv: "gap_inv now (L(s \<mapsto> now)) tr'"
      and old: "\<forall>T. L s = Some T \<longrightarrow> T + CONGESTION_NOTIFY_MIN_INTERVAL \<le> now" by auto
    have past': "\<forall>s' T. (L(s \<mapsto> now)) s' = Some T \<longrightarrow> T \<le> now"
      using past by auto
    note ih = Cons.IH [OF inv srt past']
    have new: "now + CONGESTION_NOTIFY_MIN_INTERVAL \<le> t" if "(t, s) \<in> set (notifications tr' es)" for t
      using ih that by fastforce
    show ?thesis
      using ih old new e step Some s0
      by (fastforce split: if_splits)
  qed
qed

text \<open>Drops of one sender within one window, before its first notification: \<open>k\<close> counts them.\<close>

definition counting :: "congestion_tracker \<Rightarrow> u64 \<Rightarrow> instant \<Rightarrow> nat \<Rightarrow> bool" where
  "counting tr s t0 k \<longleftrightarrow>
     (case ct_senders tr s of
        None \<Rightarrow> k = 0
      | Some st \<Rightarrow> t0 \<le> sds_window_start st \<and> sds_last_notify st = None \<and>
                   unat (sds_drop_count st) = k)"

definition drops_of :: "u64 \<Rightarrow> (instant \<times> u64) list \<Rightarrow> instant list" where
  "drops_of s es = map fst (filter (\<lambda>e. snd e = s) es)"

lemma drops_of_simps [simp]:
  "drops_of s [] = []"
  "drops_of s (e # es) = (if snd e = s then fst e # drops_of s es else drops_of s es)"
  by (simp_all add: drops_of_def)

lemma notifications_of_senders: "drops_of s es = [] \<Longrightarrow> drops_of s (notifications tr es) = []"
proof (induction es arbitrary: tr)
  case (Cons e es)
  then show ?case
    by (auto simp: record_drop_eq Let_def split: if_splits)
qed simp

lemma swept_counting:
  assumes "counting tr s t0 k" and "now \<le> t0 + CONGESTION_WINDOW"
  shows "swept tr now s = ct_senders tr s"
  using assms
  by (auto simp: swept_def retain_fresh_def counting_def congestion_consts split: option.splits)

lemma counting_step_other:
  assumes "counting tr s t0 k" and "now \<le> t0 + CONGESTION_WINDOW" and "s' \<noteq> s"
  shows "counting (snd (record_drop tr now s')) s t0 k"
  using assms swept_counting [OF assms(1,2)]
  by (auto simp: record_drop_eq Let_def counting_def)

lemma counting_step:
  assumes "counting tr s t0 k" and "t0 \<le> now" and "now \<le> t0 + CONGESTION_WINDOW" and "k < 5"
  shows "if Suc k < 5 then fst (record_drop tr now s) = None \<and>
           counting (snd (record_drop tr now s)) s t0 (Suc k)
         else fst (record_drop tr now s) = Some s"
proof -
  have inc: "unat (c + 1) = Suc (unat c)" if "unat c < 5" for c :: u32
    using that by (intro unat_plus_one) simp
  have "unat (sds_drop_count (bumped now (ct_senders tr s))) = Suc k \<and>
      sds_last_notify (bumped now (ct_senders tr s)) = None \<and>
      t0 \<le> sds_window_start (bumped now (ct_senders tr s))"
    using assms inc by (auto simp: counting_def bumped_def split: option.splits)
  moreover have "(5 :: u32) \<le> c \<longleftrightarrow> 5 \<le> unat c" for c :: u32
    by (simp add: word_le_nat_alt)
  ultimately show ?thesis
    using assms(4) swept_counting [OF assms(1,3)]
    by (auto simp: record_drop_eq Let_def limited_def counting_def CONGESTION_DROP_THRESHOLD_def)
qed

lemma notifications_counting:
  assumes "counting tr s t0 k" and "\<forall>e\<in>set es. t0 \<le> fst e \<and> fst e \<le> t0 + CONGESTION_WINDOW"
    and "k < 5" and "length (drops_of s es) + k \<le> 5"
  shows "drops_of s (notifications tr es) =
           (if length (drops_of s es) + k = 5 then [last (drops_of s es)] else [])"
  using assms
proof (induction es arbitrary: tr k)
  case Nil
  then show ?case by simp
next
  case (Cons e es)
  obtain now s' where e: "e = (now, s')" by (cases e)
  obtain r tr' where step: "record_drop tr now s' = (r, tr')"
    by (cases "record_drop tr now s'")
  have bounds: "t0 \<le> now" "now \<le> t0 + CONGESTION_WINDOW" using Cons.prems(2) e by auto
  show ?case
  proof (cases "s' = s")
    case False
    have "counting tr' s t0 k"
      using counting_step_other [OF Cons.prems(1) bounds(2) False] step by simp
    moreover have "\<And>x. r = Some x \<Longrightarrow> x = s'"
      using step by (auto simp: record_drop_eq Let_def split: if_splits)
    ultimately show ?thesis
      using Cons.IH [of tr' k] Cons.prems e step False by (auto split: option.splits)
  next
    case True
    note st = counting_step [OF Cons.prems(1) bounds Cons.prems(3)]
    show ?thesis
    proof (cases "Suc k < 5")
      case more: True
      then have "r = None" "counting tr' s t0 (Suc k)" using st step True by simp_all
      then show ?thesis
        using Cons.IH [of tr' "Suc k"] Cons.prems e step True more by auto
    next
      case last: False
      then have "r = Some s" using st step True by simp
      moreover have "length (drops_of s es) = 0"
        using Cons.prems(4) e True last by (simp del: length_0_conv)
      ultimately show ?thesis
        using notifications_of_senders [of s es] Cons.prems(3) e step True last by simp
    qed
  qed
qed

section \<open>Runs of inbound packets\<close>

primrec forwarded :: "proto \<Rightarrow> session_logic \<Rightarrow> (instant \<times> bytes) list \<Rightarrow> bytes list" where
  "forwarded P l [] = []"
| "forwarded P l (e # es) =
     (case handle_inbound P (fst e) l (snd e) of
        (Forward d, l', _) \<Rightarrow> d # forwarded P l' es
      | (_, l', _) \<Rightarrow> forwarded P l' es)"

lemma handle_inbound_keeps:
  "sl_observer (fst (snd (handle_inbound P now l d))) = sl_observer l \<and>
   sl_id (fst (snd (handle_inbound P now l d))) = sl_id l"
  by (simp add: handle_inbound_def Let_def split: packet_kind.split prod.split)

lemma handle_inbound_forward:
  "fst (handle_inbound P now l d) = Forward d' \<longleftrightarrow>
     d' = d \<and> \<not> sl_observer l \<and>
     (classify_packet P d = Data \<or>
      classify_packet P d = KeyframeRequest \<and> fst (krl_allow (sl_keyframe_limiter l) now))"
  by (auto simp: handle_inbound_def Let_def split: packet_kind.split prod.split)

lemma handle_inbound_limiter:
  "sl_keyframe_limiter (fst (snd (handle_inbound P now l d))) =
     (if classify_packet P d = KeyframeRequest \<and> \<not> sl_observer l
      then snd (krl_allow (sl_keyframe_limiter l) now) else sl_keyframe_limiter l)"
  by (auto simp: handle_inbound_def Let_def split: packet_kind.split prod.split)

lemma forwarded_Cons:
  "forwarded P l (e # es) =
     (if \<exists>d. fst (handle_inbound P (fst e) l (snd e)) = Forward d
      then snd e # forwarded P (fst (snd (handle_inbound P (fst e) l (snd e)))) es
      else forwarded P (fst (snd (handle_inbound P (fst e) l (snd e)))) es)"
proof -
  obtain a l' eff where h: "handle_inbound P (fst e) l (snd e) = (a, l', eff)"
    by (cases "handle_inbound P (fst e) l (snd e)") auto
  have "a = Forward d \<Longrightarrow> d = snd e" for d
    using handle_inbound_forward [of P "fst e" l "snd e" d] h by simp
  then show ?thesis using h by (cases a) auto
qed

declare forwarded.simps(2) [simp del]

lemma forwarded_sound:
  "d \<in> set (forwarded P l es) \<Longrightarrow>
     \<not> sl_observer l \<and> d \<in> snd ` set es \<and>
     (classify_packet P d = Data \<or> classify_packet P d = KeyframeRequest)"
proof (induction es arbitrary: l)
  case (Cons e es)
  then show ?case
    using handle_inbound_keeps [of P "fst e" l "snd e"]
    by (auto simp: forwarded_Cons handle_inbound_forward split: if_splits)
qed simp

text \<open>The keyframe requests of a run reach the limiter in order, and only they do.\<close>

lemma forwarded_keyframes:
  assumes "\<not> sl_observer l"
  shows "length (filter (\<lambda>d. classify_packet P d = KeyframeRequest) (forwarded P l es)) =
     keyframe_grants (sl_keyframe_limiter l)
       (map fst (filter (\<lambda>e. classify_packet P (snd e) = KeyframeRequest) es))"
  using assms
proof (induction es arbitrary: l)
  case (Cons e es)
  then show ?case
    using handle_inbound_keeps [of P "fst e" l "snd e"]
    by (auto simp: forwarded_Cons handle_inbound_forward handle_inbound_limiter case_prod_beta)
qed simp

section \<open>Properties of a session\<close>

text \<open>C34: CONGESTION feedback is rate limited. Over every run of drops with a monotone clock, two
  signals for the same sender are at least one second apart. This holds across the amortised
  cleanup, which may forget a sender and its last notification in between.\<close>

theorem congestion_rate_limited:
  assumes "sorted (map fst drops)"
  shows "sorted_wrt (\<lambda>(t, s) (t', s'). s = s' \<longrightarrow> t + secs 1 \<le> t')
           (notifications congestion_tracker_new drops)"
proof -
  have "gap_inv 0 Map.empty congestion_tracker_new" by (simp add: gap_inv_def)
  from notifications_gap [OF this, of drops] assms show ?thesis
    by (simp add: CONGESTION_NOTIFY_MIN_INTERVAL_def)
qed

theorem congestion_rate_limited_witness:
  "\<exists>drops. notifications congestion_tracker_new drops = [(2, 7), (1000000002, 7)] \<and>
     sorted_wrt (\<lambda>(t, s) (t', s'). s = s' \<longrightarrow> t + secs 1 \<le> t')
       (notifications congestion_tracker_new drops)"
proof -
  let ?drops = "[(0, 7), (0, 7), (1, 7), (1, 7), (2, 7), (1000000000, 7), (1000000000, 7),
    (1000000000, 7), (1000000000, 7), (1000000002, 7)] :: (instant \<times> u64) list"
  have "notifications congestion_tracker_new ?drops = [(2, 7), (1000000002, 7)]"
    by (simp add: record_drop_eq swept_def bumped_def limited_def Let_def congestion_consts
        congestion_tracker_new_def word_le_nat_alt)
  moreover have "sorted (map fst ?drops)" by simp
  ultimately show ?thesis using congestion_rate_limited by blast
qed

text \<open>The threshold is exact. For a sender the tracker does not know, four drops within a window
  produce no signal and the fifth produces exactly one, at its own instant, whatever other
  senders' drops come in between and whenever the cleanup runs.\<close>

theorem congestion_threshold:
  assumes "ct_senders tr s = None"
    and "\<forall>e\<in>set drops. t0 \<le> fst e \<and> fst e \<le> t0 + secs 1"
    and "length (drops_of s drops) \<le> 5"
  shows "drops_of s (notifications tr drops) =
     (if length (drops_of s drops) = 5 then [last (drops_of s drops)] else [])"
  using notifications_counting [of tr s t0 0 drops] assms
  by (simp add: counting_def CONGESTION_WINDOW_def)

theorem congestion_threshold_witness:
  "drops_of 7 (notifications congestion_tracker_new
     [(0, 7), (1, 7), (2, 9), (3, 7), (4, 7), (5, 7)]) = [5]"
  using congestion_threshold [of congestion_tracker_new 7 "[(0, 7), (1, 7), (2, 9), (3, 7), (4, 7), (5, 7)]" 0]
  by (simp add: congestion_tracker_new_def del: notifications.simps)

text \<open>What a client can inject. Every packet a session forwards to the room was received from
  the client unchanged, is no CONGESTION or health packet and no RTT probe, and comes from a
  participant, never from an observer; in any interval of one second at most four of them are
  keyframe requests.\<close>

theorem forwarded_packets:
  "(\<forall>d. d \<in> set (forwarded P l es) \<longrightarrow> d \<in> snd ` set es \<and> \<not> sl_observer l \<and>
      (\<forall>w. parse_wrapper P d = Some w \<longrightarrow>
         pw_packet_type w \<noteq> packet_type_value CONGESTION \<and>
         pw_packet_type w \<noteq> packet_type_value HEALTH)) \<and>
   (sorted (map fst es) \<and> (\<forall>e\<in>set es. t0 \<le> fst e \<and> fst e \<le> t0 + secs 1) \<longrightarrow>
      length (filter (\<lambda>d. classify_packet P d = KeyframeRequest) (forwarded P l es)) \<le> 4)"
proof (intro conjI impI allI, goal_cases)
  case 5
  let ?ts = "map fst (filter (\<lambda>e. classify_packet P (snd e) = KeyframeRequest) es)"
  have "sorted ?ts" using 5 by (simp add: sorted_filter)
  moreover have "\<forall>t\<in>set ?ts. t0 \<le> t \<and> t \<le> t0 + secs 1" using 5 by auto
  ultimately have "krl.granted (sl_keyframe_limiter l) ?ts \<le> 4"
    using krl.granted_sliding [of ?ts t0 "sl_keyframe_limiter l"] by simp
  moreover have "forwarded P l es = []" if "sl_observer l"
    using forwarded_sound [of _ P l es] that by (metis last_in_set)
  ultimately show ?case
    using forwarded_keyframes [of l P es]
    by (cases "sl_observer l") (simp_all add: keyframe_grants_granted)
qed (use forwarded_sound [of _ P l es] in \<open>fastforce simp: classify_packet_def\<close>)+

theorem forwarded_packets_witness:
  "\<exists>P d. classify_packet P d = KeyframeRequest \<and>
     (let l = session_logic_new 1 0 ''r'' ''alice'' ''Alice'' False;
          es = [(ms 999, d), (ms 1001, d), (ms 1001, d), (ms 1002, d)]
      in length (forwarded P l es) = 3 \<and> sl_observer l = False \<and>
         length (filter (\<lambda>d. classify_packet P d = KeyframeRequest) (forwarded P l es)) \<le> 4)"
proof -
  let ?P = "ref_proto \<lparr>parse_wrapper := \<lambda>_. Some (default_packet_wrapper
        \<lparr>pw_packet_type := packet_type_value MEDIA\<rparr>),
      parse_media := \<lambda>_. Some (default_media_packet
        \<lparr>med_media_type := media_type_value KEYFRAME_REQUEST\<rparr>)\<rparr>"
  let ?l = "session_logic_new 1 0 ''r'' ''alice'' ''Alice'' False"
  let ?es = "[(ms 999, []), (ms 1001, []), (ms 1001, []), (ms 1002, [])] :: (instant \<times> bytes) list"
  have k: "classify_packet ?P [] = KeyframeRequest" by (simp add: classify_packet_def)
  have "length (forwarded ?P ?l ?es) = 3"
    by (simp add: forwarded.simps handle_inbound_def k session_logic_new_def krl_new_def
        krl_allow_def KEYFRAME_REQUEST_MAX_PER_SEC_def KEYFRAME_REQUEST_WINDOW_MS_def Let_def)
  moreover have "length (filter (\<lambda>d. classify_packet ?P d = KeyframeRequest) (forwarded ?P ?l ?es)) \<le> 4"
    using forwarded_packets [of ?P ?l ?es "ms 999"] by simp
  moreover have "sl_observer ?l = False" by (simp add: session_logic_new_def)
  ultimately show ?thesis using k unfolding Let_def by blast
qed

text \<open>Congestion feedback reaches its sender. Whenever a drop makes the session publish, it
  publishes one packet, on the subject of the sending session, that decodes as a CONGESTION
  wrapper for that session naming the congested receiver; the same bytes coming from a client
  would be dropped.\<close>

theorem congestion_signal_targets_sender:
  assumes "proto_roundtrip P"
    and "snd (on_outbound_drop P now l sender) \<noteq> []"
  shows "\<exists>bs w. snd (on_outbound_drop P now l sender) =
            [NatsPublish (session_subject (sl_room l) sender) bs] \<and>
          parse_wrapper P bs = Some w \<and> pw_packet_type w = packet_type_value CONGESTION \<and>
          pw_session_id w = sender \<and> pw_user_id w = as_bytes (sl_user_id l) \<and>
          classify_packet P bs = Dropped"
proof -
  obtain r tr where step: "record_drop (sl_congestion_tracker l) now sender = (r, tr)"
    by (cases "record_drop (sl_congestion_tracker l) now sender")
  then have "r = None \<or> r = Some sender"
    by (auto simp: record_drop_eq Let_def split: if_splits)
  with assms(2) step have r: "r = Some sender"
    by (auto simp: on_outbound_drop_def Let_def)
  let ?w = "default_packet_wrapper \<lparr>pw_packet_type := packet_type_value CONGESTION,
      pw_user_id := as_bytes (sl_user_id l), pw_session_id := sender\<rparr>"
  obtain bs where "write_wrapper P ?w = Some bs" "parse_wrapper P bs = Some ?w"
    using assms(1) unfolding proto_roundtrip_def by blast
  with step r show ?thesis
    by (simp add: on_outbound_drop_def Let_def congestion_subject_eq classify_packet_def)
qed

theorem congestion_signal_targets_sender_witness:
  "\<exists>l bs. snd (on_outbound_drop ref_proto 0 l 9) = [NatsPublish (session_subject ''r'' 9) bs] \<and>
     classify_packet ref_proto bs = Dropped"
proof -
  let ?l = "(session_logic_new 1 0 ''r'' ''bob'' ''Bob'' False)
    \<lparr>sl_congestion_tracker := \<lparr>ct_senders = [9 \<mapsto> \<lparr>sds_drop_count = 4, sds_window_start = 0,
        sds_last_notify = None\<rparr>], ct_total_drops = 4\<rparr>\<rparr>"
  have "snd (on_outbound_drop ref_proto 0 ?l 9) \<noteq> []"
    by (simp add: on_outbound_drop_def record_drop_eq swept_def bumped_def limited_def Let_def
        congestion_consts ref_proto_def word_le_nat_alt)
  from congestion_signal_targets_sender [OF ref_proto_roundtrip this]
  have "\<exists>bs. snd (on_outbound_drop ref_proto 0 ?l 9) = [NatsPublish (session_subject ''r'' 9) bs] \<and>
     classify_packet ref_proto bs = Dropped"
    by (auto simp: session_logic_new_def)
  then show ?thesis by blast
qed

end
