(* ===== verification/Chat_Server.thy ===== *)
theory Chat_Server
  imports Session_Logic
begin

text \<open>
  \<open>actix-api/src/actors/chat_server.rs\<close>: the actor that registers sessions, joins them to rooms,
  relays their packets to NATS and announces arrivals and departures, with a grace period that
  hides quick reconnections.

  \<^item> \<open>chat_server\<close> has the fields of the struct. \<open>room_members\<close> is iterated, so it is an association
    list. A \<open>Recipient\<close> is a value of the type parameter \<open>'r\<close>; a \<open>JoinHandle\<close> is the number of
    the task.
  \<^item> \<open>actor_ctx\<close> is what the actor framework keeps for the server: the timers of \<open>notify_later\<close>
    with their due time and message, and counters for fresh timer and task handles.
  \<^item> Every handler returns the new state, the new context and its effects in program order. The
    body of a spawned task is the list of effects it runs; failures of NATS or of a mailbox
    are logged by the code and change nothing.
  \<^item> The clock is an argument where the code reads it.
\<close>

section \<open>State\<close>

definition RECONNECT_GRACE_PERIOD :: nat where
  "RECONNECT_GRACE_PERIOD = secs 2"

record execute_pending_departure =
  epd_session :: u64
  epd_room :: string
  epd_user_id :: string
  epd_display_name :: string

record pending_departure_state =
  pds_spawn_handle :: nat
  pds_old_session :: u64
  pds_was_active :: bool

type_synonym member = "u64 \<times> string \<times> string"

record 'r chat_server =
  cs_sessions :: "u64 \<rightharpoonup> 'r"
  cs_active_subs :: "u64 \<rightharpoonup> nat"
  cs_connection_states :: "u64 \<rightharpoonup> connection_state"
  cs_room_members :: "(string \<times> member list) list"
  cs_pending_departures :: "string \<times> string \<rightharpoonup> pending_departure_state"
  cs_suppress_join_broadcast :: "u64 set"

record timer =
  tm_handle :: nat
  tm_due :: instant
  tm_msg :: execute_pending_departure

record actor_ctx =
  ctx_timers :: "timer list"
  ctx_next_handle :: nat
  ctx_next_task :: nat

datatype 'r server_effect =
    Publish string bytes
  | TrySend 'r session_message
  | QueueSubscribe string string
  | SpawnTask nat "'r server_effect list"
  | AbortTask nat

definition chat_server_new :: "'r chat_server" where
  "chat_server_new =
     \<lparr>cs_sessions = Map.empty, cs_active_subs = Map.empty, cs_connection_states = Map.empty,
      cs_room_members = [], cs_pending_departures = Map.empty,
      cs_suppress_join_broadcast = {}\<rparr>"

definition actor_ctx_new :: actor_ctx where
  "actor_ctx_new = \<lparr>ctx_timers = [], ctx_next_handle = 0, ctx_next_task = 0\<rparr>"

text \<open>\<open>notify_later\<close> and \<open>cancel_future\<close> of the actor context.\<close>

definition notify_later ::
  "execute_pending_departure \<Rightarrow> instant \<Rightarrow> nat \<Rightarrow> actor_ctx \<Rightarrow> nat \<times> actor_ctx" where
  "notify_later msg now after ctx =
     (ctx_next_handle ctx,
      ctx\<lparr>ctx_timers := ctx_timers ctx @
             [\<lparr>tm_handle = ctx_next_handle ctx, tm_due = now + after, tm_msg = msg\<rparr>],
          ctx_next_handle := Suc (ctx_next_handle ctx)\<rparr>)"

definition cancel_future :: "nat \<Rightarrow> actor_ctx \<Rightarrow> actor_ctx" where
  "cancel_future h ctx = ctx\<lparr>ctx_timers := filter (\<lambda>t. tm_handle t \<noteq> h) (ctx_timers ctx)\<rparr>"

section \<open>Operations\<close>

definition retain_members :: "u64 \<Rightarrow> member list \<Rightarrow> member list" where
  "retain_members session members = filter (\<lambda>(sid, _, _). sid \<noteq> session) members"

definition remove_member ::
  "string \<Rightarrow> u64 \<Rightarrow> (string \<times> member list) list \<Rightarrow> (string \<times> member list) list" where
  "remove_member room session rm =
     (case map_of rm room of
        None \<Rightarrow> rm
      | Some members \<Rightarrow>
          let members' = retain_members session members
          in if members' = [] then AList.delete room rm else AList.update room members' rm)"

definition end_session_effects ::
  "proto \<Rightarrow> string \<Rightarrow> string \<Rightarrow> u64 \<Rightarrow> string \<Rightarrow> 'r server_effect list" where
  "end_session_effects P room_id user_id session_id display_name =
     (case end_session room_id user_id of
        Inr HostEndedMeeting \<Rightarrow>
          [Publish (system_subject room_id)
             (build_meeting_ended_packet P room_id ''The host has ended the meeting'')]
      | Inr LastParticipantLeft \<Rightarrow> []
      | Inr (MeetingContinues remaining_count) \<Rightarrow>
          [Publish (system_subject room_id)
             (build_peer_left_packet P room_id user_id session_id display_name)]
      | Inl e \<Rightarrow> [])"

definition leave_rooms ::
  "proto \<Rightarrow> u64 \<Rightarrow> string option \<Rightarrow> string option \<Rightarrow> string option \<Rightarrow> bool \<Rightarrow> 'r chat_server \<Rightarrow>
   'r chat_server \<times> 'r server_effect list" where
  "leave_rooms P session room user_id display_name observer sv =
     (let aborts = (case cs_active_subs sv session of Some task \<Rightarrow> [AbortTask task] | None \<Rightarrow> []);
          sv1 = sv\<lparr>cs_active_subs := (cs_active_subs sv)(session := None)\<rparr>;
          sv2 = (case room of
                   None \<Rightarrow> sv1
                 | Some room_id \<Rightarrow>
                     sv1\<lparr>cs_room_members := remove_member room_id session (cs_room_members sv1)\<rparr>)
      in case (room, user_id) of
           (Some room_id, Some uid) \<Rightarrow>
             let name = (case display_name of Some d \<Rightarrow> d | None \<Rightarrow> uid)
             in if observer then (sv2, aborts)
                else (case cs_connection_states sv2 session of
                        Some state \<Rightarrow>
                          if state \<noteq> Active then (sv2, aborts)
                          else (sv2, aborts @ end_session_effects P room_id uid session name)
                      | None \<Rightarrow> (sv2, aborts @ end_session_effects P room_id uid session name))
         | _ \<Rightarrow> (sv2, aborts))"

definition handle_connect :: "'r connect_msg \<Rightarrow> 'r chat_server \<Rightarrow> 'r chat_server" where
  "handle_connect msg sv =
     sv\<lparr>cs_sessions := (cs_sessions sv)(co_id msg \<mapsto> co_addr msg),
        cs_connection_states := (cs_connection_states sv)(co_id msg \<mapsto> Testing)\<rparr>"

definition handle_disconnect ::
  "proto \<Rightarrow> instant \<Rightarrow> disconnect_msg \<Rightarrow> 'r chat_server \<Rightarrow> actor_ctx \<Rightarrow>
   'r chat_server \<times> actor_ctx \<times> 'r server_effect list" where
  "handle_disconnect P now msg sv ctx =
     (let session = di_session msg; room = di_room msg; user_id = di_user_id msg;
          was_active = (case cs_connection_states sv session of
                          Some s \<Rightarrow> s = Active | None \<Rightarrow> False);
          sv1 = sv\<lparr>cs_sessions := (cs_sessions sv)(session := None),
                   cs_connection_states := (cs_connection_states sv)(session := None),
                   cs_suppress_join_broadcast := cs_suppress_join_broadcast sv - {session}\<rparr>
      in if di_observer msg
         then (case leave_rooms P session (Some room) (Some user_id) (Some (di_display_name msg))
                      True sv1 of
                 (sv2, eff) \<Rightarrow> (sv2, ctx, eff))
         else
           let aborts = (case cs_active_subs sv1 session of
                           Some task \<Rightarrow> [AbortTask task] | None \<Rightarrow> []);
               sv2 = sv1\<lparr>cs_active_subs := (cs_active_subs sv1)(session := None)\<rparr>;
               key = (room, user_id);
               ctx1 = (case cs_pending_departures sv2 key of
                         Some old \<Rightarrow> cancel_future (pds_spawn_handle old) ctx
                       | None \<Rightarrow> ctx);
               departure = \<lparr>epd_session = session, epd_room = room, epd_user_id = user_id,
                            epd_display_name = di_display_name msg\<rparr>
           in case notify_later departure now RECONNECT_GRACE_PERIOD ctx1 of
                (handle, ctx2) \<Rightarrow>
                  (sv2\<lparr>cs_pending_departures := (cs_pending_departures sv2)
                         (key \<mapsto> \<lparr>pds_spawn_handle = handle, pds_old_session = session,
                                  pds_was_active = was_active\<rparr>)\<rparr>,
                   ctx2, aborts))"

definition handle_leave ::
  "proto \<Rightarrow> leave_msg \<Rightarrow> 'r chat_server \<Rightarrow> 'r chat_server \<times> 'r server_effect list" where
  "handle_leave P msg sv =
     (let key = (le_room msg, le_user_id msg);
          sv1 = sv\<lparr>cs_pending_departures := (cs_pending_departures sv)(key := None)\<rparr>
      in leave_rooms P (le_session msg) (Some (le_room msg)) (Some (le_user_id msg)) None False sv1)"

fun find_member :: "u64 \<Rightarrow> (string \<times> member list) list \<Rightarrow> (string \<times> string \<times> string) option" where
  "find_member session [] = None"
| "find_member session ((room_id, members) # rest) =
     (case find (\<lambda>(sid, _, _). sid = session) members of
        Some (sid, uid, dname) \<Rightarrow> Some (room_id, uid, dname)
      | None \<Rightarrow> find_member session rest)"

definition handle_activate ::
  "proto \<Rightarrow> activate_connection_msg \<Rightarrow> 'r chat_server \<Rightarrow> 'r chat_server \<times> 'r server_effect list" where
  "handle_activate P msg sv =
     (let session = ac_session msg;
          was_testing = (case cs_connection_states sv session of
                           Some state \<Rightarrow> state = Testing | None \<Rightarrow> True);
          sv1 = (if was_testing
                 then sv\<lparr>cs_connection_states := (cs_connection_states sv)(session \<mapsto> Active)\<rparr>
                 else sv);
          suppressed = session \<in> cs_suppress_join_broadcast sv1;
          sv2 = sv1\<lparr>cs_suppress_join_broadcast := cs_suppress_join_broadcast sv1 - {session}\<rparr>
      in if was_testing \<and> \<not> suppressed
         then (case find_member session (cs_room_members sv2) of
                 Some (room_id, user_id, display_name) \<Rightarrow>
                   (sv2, [Publish (system_subject room_id)
                            (build_peer_joined_packet P room_id user_id session display_name)])
               | None \<Rightarrow> (sv2, []))
         else (sv2, []))"

definition handle_execute_pending_departure ::
  "proto \<Rightarrow> execute_pending_departure \<Rightarrow> 'r chat_server \<Rightarrow> 'r chat_server \<times> 'r server_effect list" where
  "handle_execute_pending_departure P msg sv =
     (let session = epd_session msg; room = epd_room msg; key = (room, epd_user_id msg);
          sv1 = sv\<lparr>cs_pending_departures := (cs_pending_departures sv)(key := None)\<rparr>
      in case cs_pending_departures sv key of
           Some pending \<Rightarrow>
             if pds_old_session pending \<noteq> session
             then (sv1\<lparr>cs_pending_departures := (cs_pending_departures sv1)(key \<mapsto> pending)\<rparr>, [])
             else if \<not> pds_was_active pending
             then (sv1\<lparr>cs_room_members := remove_member room session (cs_room_members sv1)\<rparr>, [])
             else leave_rooms P session (Some room) (Some (epd_user_id msg))
                    (Some (epd_display_name msg)) False sv1
         | None \<Rightarrow> (sv1, []))"

definition handle_client_message ::
  "proto \<Rightarrow> client_message \<Rightarrow> 'r chat_server \<Rightarrow> 'r server_effect list" where
  "handle_client_message P msg sv =
     (let session = cm_session msg;
          connection_state = (case cs_connection_states sv session of
                                Some s \<Rightarrow> s | None \<Rightarrow> Testing)
      in if connection_state \<noteq> Active then []
         else
           let subject = session_subject (cm_room msg) session;
               packet_bytes =
                 (case parse_wrapper P (cm_msg msg) of
                    Some packet_wrapper \<Rightarrow>
                      let packet_wrapper =
                            (if pw_session_id packet_wrapper = 0
                             then packet_wrapper\<lparr>pw_session_id := session\<rparr> else packet_wrapper)
                      in (case write_wrapper P packet_wrapper of
                            Some bs \<Rightarrow> bs | None \<Rightarrow> cm_msg msg)
                  | None \<Rightarrow> cm_msg msg)
           in [Publish subject packet_bytes])"

definition send_meeting_info :: "proto \<Rightarrow> string \<Rightarrow> u64 \<Rightarrow> string \<Rightarrow> 'r server_effect list" where
  "send_meeting_info P room start_time_ms creator_id =
     [Publish (system_subject room) (build_meeting_started_packet P room start_time_ms creator_id)]"

definition join_task ::
  "proto \<Rightarrow> u64 \<Rightarrow> string \<Rightarrow> string \<Rightarrow> u64 \<Rightarrow> bool \<Rightarrow> member list \<Rightarrow> 'r \<Rightarrow> 'r server_effect list" where
  "join_task P start_time_ms room user_id session is_first_in_room existing_members recipient =
     (if is_first_in_room then send_meeting_info P room start_time_ms user_id else []) @
     map (\<lambda>(existing_sid, existing_uid, existing_display_name).
            TrySend recipient
              \<lparr>sm_session = existing_sid,
               sm_msg = build_peer_joined_packet P room existing_uid existing_sid
                          existing_display_name\<rparr>) existing_members @
     [case build_subject_and_queue room (show_u64 session) of
        (subject, queue) \<Rightarrow> QueueSubscribe subject queue]"

definition handle_join_room ::
  "proto \<Rightarrow> u64 \<Rightarrow> join_room_msg \<Rightarrow> 'r chat_server \<Rightarrow> actor_ctx \<Rightarrow>
   (string + unit) \<times> 'r chat_server \<times> actor_ctx \<times> 'r server_effect list" where
  "handle_join_room P now_ms msg sv ctx =
     (let session = jr_session msg; room = jr_room msg; user_id = jr_user_id msg;
          observer = jr_observer msg
      in if user_id = SYSTEM_USER_ID
         then (Inl ''Cannot use reserved system user ID'', sv, ctx, [])
         else if cs_active_subs sv session \<noteq> None then (Inr (), sv, ctx, [])
         else
           let departure_key = (room, user_id);
               (is_reconnection, sv1, ctx1) =
                 (case cs_pending_departures sv departure_key of
                    Some pending \<Rightarrow>
                      (True,
                       sv\<lparr>cs_pending_departures := (cs_pending_departures sv)(departure_key := None),
                          cs_room_members :=
                            (case map_of (cs_room_members sv) room of
                               Some members \<Rightarrow>
                                 AList.update room (retain_members (pds_old_session pending) members)
                                   (cs_room_members sv)
                             | None \<Rightarrow> cs_room_members sv)\<rparr>,
                       cancel_future (pds_spawn_handle pending) ctx)
                  | None \<Rightarrow> (False, sv, ctx));
               sv2 = (if is_reconnection \<or> observer
                      then sv1\<lparr>cs_suppress_join_broadcast :=
                                 insert session (cs_suppress_join_broadcast sv1)\<rparr>
                      else sv1)
           in case cs_sessions sv2 session of
                None \<Rightarrow> (Inl ''Session not found'', sv2, ctx1, [])
              | Some session_recipient \<Rightarrow>
                  let existing_members =
                        (if \<not> observer
                         then (case map_of (cs_room_members sv2) room of
                                 Some members \<Rightarrow> members | None \<Rightarrow> [])
                         else []);
                      is_first_in_room = (existing_members = [] \<and> \<not> observer);
                      sv3 = (if \<not> observer
                             then sv2\<lparr>cs_room_members :=
                                        AList.update room
                                          (existing_members @
                                             [(session, user_id, jr_display_name msg)])
                                          (cs_room_members sv2)\<rparr>
                             else sv2);
                      handle = ctx_next_task ctx1
                  in (Inr (),
                      sv3\<lparr>cs_active_subs := (cs_active_subs sv3)(session \<mapsto> handle)\<rparr>,
                      ctx1\<lparr>ctx_next_task := Suc handle\<rparr>,
                      [SpawnTask handle
                         (join_task P now_ms room user_id session is_first_in_room
                            existing_members session_recipient)]))"

text \<open>The subscription loop hands every NATS message to \<open>handle_msg\<close>.\<close>

definition handle_msg ::
  "proto \<Rightarrow> 'r \<Rightarrow> string \<Rightarrow> u64 \<Rightarrow> string \<Rightarrow> bytes \<Rightarrow> 'r server_effect list" where
  "handle_msg P session_recipient room session subject payload =
     (let is_congestion = (case parse_wrapper P payload of
                             Some pw \<Rightarrow> pw_packet_type pw = packet_type_value CONGESTION
                           | None \<Rightarrow> False)
      in if subject = session_subject room session \<and> \<not> is_congestion then []
         else [TrySend session_recipient \<lparr>sm_session = session, sm_msg = payload\<rparr>])"

section \<open>The server as a system driven by events\<close>

text \<open>One event is one message the actor handles, a timer that fires, or the passing of time. A
  timer fires only once it is due and only if it was not cancelled.\<close>

datatype 'r server_event =
    EvConnect "'r connect_msg"
  | EvDisconnect disconnect_msg
  | EvLeave leave_msg
  | EvActivate activate_connection_msg
  | EvClient client_message
  | EvJoin u64 join_room_msg
  | EvTimer nat
  | EvTick nat

record 'r chat_system =
  sys_server :: "'r chat_server"
  sys_ctx :: actor_ctx
  sys_now :: instant

definition chat_system_new :: "'r chat_system" where
  "chat_system_new = \<lparr>sys_server = chat_server_new, sys_ctx = actor_ctx_new, sys_now = 0\<rparr>"

definition fire_timer ::
  "proto \<Rightarrow> nat \<Rightarrow> 'r chat_system \<Rightarrow> 'r chat_system \<times> 'r server_effect list" where
  "fire_timer P h sys =
     (case find (\<lambda>t. tm_handle t = h \<and> tm_due t \<le> sys_now sys) (ctx_timers (sys_ctx sys)) of
        None \<Rightarrow> (sys, [])
      | Some t \<Rightarrow>
          (case handle_execute_pending_departure P (tm_msg t) (sys_server sys) of
             (sv, eff) \<Rightarrow> (sys\<lparr>sys_server := sv, sys_ctx := cancel_future h (sys_ctx sys)\<rparr>, eff)))"

fun sys_step ::
  "proto \<Rightarrow> 'r chat_system \<Rightarrow> 'r server_event \<Rightarrow> 'r chat_system \<times> 'r server_effect list" where
  "sys_step P sys (EvConnect m) = (sys\<lparr>sys_server := handle_connect m (sys_server sys)\<rparr>, [])"
| "sys_step P sys (EvDisconnect m) =
     (case handle_disconnect P (sys_now sys) m (sys_server sys) (sys_ctx sys) of
        (sv, ctx, eff) \<Rightarrow> (sys\<lparr>sys_server := sv, sys_ctx := ctx\<rparr>, eff))"
| "sys_step P sys (EvLeave m) =
     (case handle_leave P m (sys_server sys) of (sv, eff) \<Rightarrow> (sys\<lparr>sys_server := sv\<rparr>, eff))"
| "sys_step P sys (EvActivate m) =
     (case handle_activate P m (sys_server sys) of (sv, eff) \<Rightarrow> (sys\<lparr>sys_server := sv\<rparr>, eff))"
| "sys_step P sys (EvClient m) = (sys, handle_client_message P m (sys_server sys))"
| "sys_step P sys (EvJoin now_ms m) =
     (case handle_join_room P now_ms m (sys_server sys) (sys_ctx sys) of
        (_, sv, ctx, eff) \<Rightarrow> (sys\<lparr>sys_server := sv, sys_ctx := ctx\<rparr>, eff))"
| "sys_step P sys (EvTimer h) = fire_timer P h sys"
| "sys_step P sys (EvTick d) = (sys\<lparr>sys_now := sys_now sys + d\<rparr>, [])"

primrec sys_trace ::
  "proto \<Rightarrow> 'r chat_system \<Rightarrow> 'r server_event list \<Rightarrow> ('r server_event \<times> 'r server_effect list) list" where
  "sys_trace P sys [] = []"
| "sys_trace P sys (e # es) =
     (e, snd (sys_step P sys e)) # sys_trace P (fst (sys_step P sys e)) es"

definition sys_run :: "proto \<Rightarrow> 'r chat_system \<Rightarrow> 'r server_event list \<Rightarrow> 'r chat_system" where
  "sys_run P sys es = foldl (\<lambda>s e. fst (sys_step P s e)) sys es"

fun publications :: "'r server_effect \<Rightarrow> (string \<times> bytes) list" where
  "publications (Publish subject bs) = [(subject, bs)]"
| "publications (SpawnTask _ effs) = concat (map publications effs)"
| "publications _ = []"

definition published :: "'r server_effect list \<Rightarrow> (string \<times> bytes) list" where
  "published effs = concat (map publications effs)"

section \<open>Invariants\<close>

definition members_of :: "'r chat_server \<Rightarrow> string \<Rightarrow> member list" where
  "members_of sv room = (case map_of (cs_room_members sv) room of Some members \<Rightarrow> members | None \<Rightarrow> [])"

definition server_inv :: "'r chat_server \<Rightarrow> bool" where
  "server_inv sv \<longleftrightarrow>
     distinct (map fst (cs_room_members sv)) \<and>
     (\<forall>s. cs_sessions sv s = None \<longrightarrow> cs_active_subs sv s = None) \<and>
     (\<forall>s. cs_connection_states sv s = None \<longrightarrow> cs_sessions sv s = None)"

definition timer_for :: "actor_ctx \<Rightarrow> instant \<Rightarrow> string \<times> string \<Rightarrow> pending_departure_state \<Rightarrow> bool" where
  "timer_for ctx now key pd \<longleftrightarrow>
     (\<exists>t\<in>set (ctx_timers ctx). tm_handle t = pds_spawn_handle pd \<and>
        tm_due t \<le> now + RECONNECT_GRACE_PERIOD \<and>
        epd_session (tm_msg t) = pds_old_session pd \<and>
        (epd_room (tm_msg t), epd_user_id (tm_msg t)) = key)"

definition timers_inv :: "'r chat_server \<Rightarrow> actor_ctx \<Rightarrow> instant \<Rightarrow> bool" where
  "timers_inv sv ctx now \<longleftrightarrow>
     distinct (map tm_handle (ctx_timers ctx)) \<and>
     (\<forall>t\<in>set (ctx_timers ctx). tm_handle t < ctx_next_handle ctx) \<and>
     (\<forall>key pd. cs_pending_departures sv key = Some pd \<longrightarrow> timer_for ctx now key pd)"

definition system_inv :: "'r chat_system \<Rightarrow> bool" where
  "system_inv sys \<longleftrightarrow>
     server_inv (sys_server sys) \<and> timers_inv (sys_server sys) (sys_ctx sys) (sys_now sys)"

subsection \<open>The operations and the invariant\<close>

lemma distinct_remove_member:
  "distinct (map fst rm) \<Longrightarrow> distinct (map fst (remove_member room s rm))"
  by (simp add: remove_member_def Let_def distinct_keys_update distinct_keys_delete
      split: option.split)

lemma leave_rooms_state:
  "fst (leave_rooms P s (Some room) (Some u) d obs sv) =
     sv\<lparr>cs_active_subs := (cs_active_subs sv)(s := None),
        cs_room_members := remove_member room s (cs_room_members sv)\<rparr>"
  by (simp add: leave_rooms_def Let_def split: option.split)

lemma handle_activate_state:
  "\<exists>cst sup. fst (handle_activate P m sv) =
     sv\<lparr>cs_connection_states := cst, cs_suppress_join_broadcast := sup\<rparr> \<and>
     (\<forall>s. cst s = None \<longrightarrow> cs_connection_states sv s = None)"
  by (cases sv) (auto simp: handle_activate_def Let_def split: option.split)

lemma execute_state:
  "fst (handle_execute_pending_departure P m sv) =
     (case cs_pending_departures sv (epd_room m, epd_user_id m) of
        None \<Rightarrow> sv
      | Some pd \<Rightarrow>
          if pds_old_session pd \<noteq> epd_session m then sv
          else let sv1 = sv\<lparr>cs_pending_departures :=
                   (cs_pending_departures sv)((epd_room m, epd_user_id m) := None),
                   cs_room_members := remove_member (epd_room m) (epd_session m) (cs_room_members sv)\<rparr>
               in if pds_was_active pd
                  then sv1\<lparr>cs_active_subs := (cs_active_subs sv)(epd_session m := None)\<rparr> else sv1)"
  by (cases sv) (auto simp: handle_execute_pending_departure_def leave_rooms_state Let_def
      split: option.split)

lemma timers_invD:
  "timers_inv sv ctx now \<Longrightarrow> cs_pending_departures sv key = Some pd \<Longrightarrow> timer_for ctx now key pd"
  unfolding timers_inv_def by blast

lemma timers_inv_cong:
  "cs_pending_departures sv' = cs_pending_departures sv \<Longrightarrow> timers_inv sv ctx now \<Longrightarrow>
     timers_inv sv' ctx now"
  by (simp add: timers_inv_def)

lemma timers_inv_fewer:
  "timers_inv sv ctx now \<Longrightarrow> cs_pending_departures sv' = (cs_pending_departures sv)(key := None) \<Longrightarrow>
     timers_inv sv' ctx now"
  by (simp add: timers_inv_def)

lemma timers_inv_key:
  assumes "timers_inv (sv\<lparr>cs_pending_departures := (cs_pending_departures sv)(key := None)\<rparr>) ctx now"
    and "\<And>pd. cs_pending_departures sv key = Some pd \<Longrightarrow> timer_for ctx now key pd"
  shows "timers_inv sv ctx now"
proof -
  have "timer_for ctx now k pd" if "cs_pending_departures sv k = Some pd" for k pd
    using assms(2) timers_invD [OF assms(1), of k pd] that by (cases "k = key") auto
  with assms(1) show ?thesis by (simp add: timers_inv_def)
qed

text \<open>Cancelling the timer of one key leaves the timers of all other keys alone: a timer belongs to
  one key, and handles are unique.\<close>

lemma timer_unique:
  assumes "timers_inv sv ctx now" "t \<in> set (ctx_timers ctx)" "t' \<in> set (ctx_timers ctx)"
    "tm_handle t = tm_handle t'"
  shows "t = t'"
  using assms by (auto simp: timers_inv_def distinct_map dest: inj_onD)

lemma timers_inv_cancel:
  assumes inv: "timers_inv sv ctx now"
    and pending: "cs_pending_departures sv' = (cs_pending_departures sv)(key := None)"
    and handle: "\<And>t. t \<in> set (ctx_timers ctx) \<Longrightarrow> tm_handle t = h \<Longrightarrow>
       (epd_room (tm_msg t), epd_user_id (tm_msg t)) = key"
  shows "timers_inv sv' (cancel_future h ctx) now"
proof -
  have "timer_for (cancel_future h ctx) now key' pd"
    if p: "cs_pending_departures sv' key' = Some pd" for key' pd
  proof -
    have "key' \<noteq> key" "cs_pending_departures sv key' = Some pd"
      using p pending by (auto split: if_splits)
    with inv obtain t where t: "t \<in> set (ctx_timers ctx)" "tm_handle t = pds_spawn_handle pd"
      "tm_due t \<le> now + RECONNECT_GRACE_PERIOD" "epd_session (tm_msg t) = pds_old_session pd"
      "(epd_room (tm_msg t), epd_user_id (tm_msg t)) = key'"
      using timers_invD unfolding timer_for_def by metis
    moreover have "tm_handle t \<noteq> h" using handle [OF t(1)] t(5) \<open>key' \<noteq> key\<close> by auto
    ultimately show ?thesis by (auto simp: timer_for_def cancel_future_def)
  qed
  then show ?thesis
    using inv by (auto simp: timers_inv_def cancel_future_def intro: distinct_map_filter)
qed

lemma timers_inv_schedule:
  assumes "timers_inv sv ctx now"
    and "notify_later msg now RECONNECT_GRACE_PERIOD ctx = (h, ctx')"
    and "cs_pending_departures sv' = (cs_pending_departures sv)((epd_room msg, epd_user_id msg) \<mapsto>
           \<lparr>pds_spawn_handle = h, pds_old_session = epd_session msg, pds_was_active = w\<rparr>)"
  shows "timers_inv sv' ctx' now"
  using assms by (fastforce simp: timers_inv_def notify_later_def timer_for_def)

lemma pending_handle_key:
  assumes "timers_inv sv ctx now" and "cs_pending_departures sv key = Some pd"
    and "t \<in> set (ctx_timers ctx)" and "tm_handle t = pds_spawn_handle pd"
  shows "(epd_room (tm_msg t), epd_user_id (tm_msg t)) = key"
proof -
  from assms(1,2) obtain t' where t': "t' \<in> set (ctx_timers ctx)" "tm_handle t' = pds_spawn_handle pd"
    "(epd_room (tm_msg t'), epd_user_id (tm_msg t')) = key"
    using timers_invD unfolding timer_for_def by metis
  with timer_unique [OF assms(1) assms(3), of t'] assms(4) show ?thesis by simp
qed

lemma inv_connect:
  "server_inv sv \<Longrightarrow> server_inv (handle_connect m sv)"
  "timers_inv sv ctx now \<Longrightarrow> timers_inv (handle_connect m sv) ctx now"
  by (auto simp: server_inv_def handle_connect_def timers_inv_def)

lemma inv_leave_rooms:
  "server_inv sv \<Longrightarrow> server_inv (fst (leave_rooms P s (Some room) (Some u) d obs sv))"
  by (auto simp: server_inv_def leave_rooms_state distinct_remove_member)

lemma inv_leave:
  assumes "server_inv sv" and "timers_inv sv ctx now"
  shows "server_inv (fst (handle_leave P m sv)) \<and> timers_inv (fst (handle_leave P m sv)) ctx now"
proof
  show "server_inv (fst (handle_leave P m sv))"
    using assms(1)
    by (auto simp: handle_leave_def leave_rooms_state server_inv_def distinct_remove_member)
  show "timers_inv (fst (handle_leave P m sv)) ctx now"
    by (rule timers_inv_fewer [OF assms(2)]) (simp add: handle_leave_def leave_rooms_state)
qed

lemma inv_activate:
  assumes "server_inv sv" and "timers_inv sv ctx now"
  shows "server_inv (fst (handle_activate P m sv)) \<and> timers_inv (fst (handle_activate P m sv)) ctx now"
proof -
  obtain cst sup where "fst (handle_activate P m sv) =
      sv\<lparr>cs_connection_states := cst, cs_suppress_join_broadcast := sup\<rparr>"
    "\<forall>s. cst s = None \<longrightarrow> cs_connection_states sv s = None"
    using handle_activate_state by blast
  with assms show ?thesis by (simp add: server_inv_def timers_inv_def)
qed

lemma disconnect_state:
  assumes "\<not> di_observer m"
  shows "\<exists>ctx1 h. handle_disconnect P now m sv ctx =
     (sv\<lparr>cs_sessions := (cs_sessions sv)(di_session m := None),
         cs_active_subs := (cs_active_subs sv)(di_session m := None),
         cs_connection_states := (cs_connection_states sv)(di_session m := None),
         cs_pending_departures := (cs_pending_departures sv)((di_room m, di_user_id m) \<mapsto>
           \<lparr>pds_spawn_handle = ctx_next_handle ctx, pds_old_session = di_session m,
            pds_was_active = (cs_connection_states sv (di_session m) = Some Active)\<rparr>),
         cs_suppress_join_broadcast := cs_suppress_join_broadcast sv - {di_session m}\<rparr>,
      snd (notify_later \<lparr>epd_session = di_session m, epd_room = di_room m,
             epd_user_id = di_user_id m, epd_display_name = di_display_name m\<rparr> now
             RECONNECT_GRACE_PERIOD
             (case cs_pending_departures sv (di_room m, di_user_id m) of
                Some old \<Rightarrow> cancel_future (pds_spawn_handle old) ctx | None \<Rightarrow> ctx)),
      case cs_active_subs sv (di_session m) of Some task \<Rightarrow> [AbortTask task] | None \<Rightarrow> [])"
  using assms
  by (cases sv)
    (auto simp: handle_disconnect_def Let_def notify_later_def cancel_future_def split: option.split)

lemma inv_disconnect:
  assumes sinv: "server_inv sv" and tinv: "timers_inv sv ctx now"
    and step: "handle_disconnect P now m sv ctx = (sv', ctx', eff)"
  shows "server_inv sv' \<and> timers_inv sv' ctx' now"
proof (cases "di_observer m")
  case True
  let ?sv1 = "sv\<lparr>cs_sessions := (cs_sessions sv)(di_session m := None),
      cs_connection_states := (cs_connection_states sv)(di_session m := None),
      cs_suppress_join_broadcast := cs_suppress_join_broadcast sv - {di_session m}\<rparr>"
  from True step have sv': "sv' = fst (leave_rooms P (di_session m) (Some (di_room m))
      (Some (di_user_id m)) (Some (di_display_name m)) True ?sv1)" and ctx': "ctx' = ctx"
    by (auto simp: handle_disconnect_def Let_def split: prod.splits)
  show ?thesis
    using sinv tinv unfolding sv' ctx'
    by (auto simp: leave_rooms_state server_inv_def timers_inv_def distinct_remove_member)
next
  case False
  let ?key = "(di_room m, di_user_id m)"
  let ?ctx1 = "case cs_pending_departures sv ?key of
      Some old \<Rightarrow> cancel_future (pds_spawn_handle old) ctx | None \<Rightarrow> ctx"
  let ?sv1 = "sv\<lparr>cs_pending_departures := (cs_pending_departures sv)(?key := None)\<rparr>"
  have t1: "timers_inv ?sv1 ?ctx1 now"
    using timers_inv_cancel [OF tinv, of ?sv1 ?key] pending_handle_key [OF tinv]
      timers_inv_fewer [OF tinv, of ?sv1 ?key]
    by (auto split: option.split)
  have h: "ctx_next_handle ?ctx1 = ctx_next_handle ctx"
    by (simp add: cancel_future_def split: option.split)
  from disconnect_state [OF False, of P now sv ctx] step
  have sv': "cs_pending_departures sv' = (cs_pending_departures ?sv1)(?key \<mapsto>
      \<lparr>pds_spawn_handle = ctx_next_handle ?ctx1, pds_old_session = di_session m,
       pds_was_active = (cs_connection_states sv (di_session m) = Some Active)\<rparr>)"
    and srv: "server_inv sv'"
    using sinv h by (auto simp: server_inv_def)
  from disconnect_state [OF False, of P now sv ctx] step
  have ctx': "notify_later \<lparr>epd_session = di_session m, epd_room = di_room m,
      epd_user_id = di_user_id m, epd_display_name = di_display_name m\<rparr> now
      RECONNECT_GRACE_PERIOD ?ctx1 = (ctx_next_handle ?ctx1, ctx')"
    by (simp add: notify_later_def)
  show ?thesis
    using srv timers_inv_schedule [OF t1 ctx'] sv' by simp
qed

lemma inv_execute:
  assumes "server_inv sv" and "timers_inv sv ctx now" and t: "t \<in> set (ctx_timers ctx)"
  shows "server_inv (fst (handle_execute_pending_departure P (tm_msg t) sv)) \<and>
    timers_inv (fst (handle_execute_pending_departure P (tm_msg t) sv))
      (cancel_future (tm_handle t) ctx) now"
proof
  let ?m = "tm_msg t" and ?h = "tm_handle t"
  let ?key = "(epd_room ?m, epd_user_id ?m)"
  let ?sv' = "fst (handle_execute_pending_departure P ?m sv)"
  show "server_inv ?sv'"
    using assms(1)
    by (auto simp: execute_state server_inv_def distinct_remove_member Let_def split: option.split)
  have uniq: "(epd_room (tm_msg t'), epd_user_id (tm_msg t')) = ?key"
    if "t' \<in> set (ctx_timers ctx)" "tm_handle t' = ?h" for t'
    using timer_unique [OF assms(2) that(1) t that(2)] by simp
  show "timers_inv ?sv' (cancel_future ?h ctx) now"
  proof (cases "\<exists>pd. cs_pending_departures sv ?key = Some pd \<and> pds_old_session pd \<noteq> epd_session ?m")
    case False
    then have "cs_pending_departures ?sv' = (cs_pending_departures sv)(?key := None)"
      by (auto simp: execute_state Let_def split: option.split)
    then show ?thesis by (rule timers_inv_cancel [OF assms(2) _ uniq])
  next
    case True
    then obtain pd where pd: "cs_pending_departures sv ?key = Some pd"
      "pds_old_session pd \<noteq> epd_session ?m" by blast
    let ?sv0 = "sv\<lparr>cs_pending_departures := (cs_pending_departures sv)(?key := None)\<rparr>"
    have inv0: "timers_inv ?sv0 (cancel_future ?h ctx) now"
      by (rule timers_inv_cancel [OF assms(2) _ uniq]) simp_all
    have "timer_for (cancel_future ?h ctx) now ?key pd"
      using timers_invD [OF assms(2) pd(1)] pd(2) timer_unique [OF assms(2) t]
      unfolding timer_for_def cancel_future_def by fastforce
    then have "timers_inv sv (cancel_future ?h ctx) now"
      using pd(1) by (intro timers_inv_key [OF inv0]) simp
    then show ?thesis
      by (rule timers_inv_cong [rotated]) (simp add: execute_state pd)
  qed
qed

text \<open>The two halves of a join that gets past its first checks: cancelling a pending departure, and
  admitting the session.\<close>

definition join_cancel ::
  "join_room_msg \<Rightarrow> pending_departure_state \<Rightarrow> 'r chat_server \<Rightarrow> 'r chat_server" where
  "join_cancel m pd sv =
     sv\<lparr>cs_pending_departures := (cs_pending_departures sv)((jr_room m, jr_user_id m) := None),
        cs_room_members :=
          (case map_of (cs_room_members sv) (jr_room m) of
             Some members \<Rightarrow>
               AList.update (jr_room m) (retain_members (pds_old_session pd) members)
                 (cs_room_members sv)
           | None \<Rightarrow> cs_room_members sv)\<rparr>"

definition join_admit ::
  "proto \<Rightarrow> u64 \<Rightarrow> join_room_msg \<Rightarrow> bool \<Rightarrow> 'r chat_server \<Rightarrow> actor_ctx \<Rightarrow>
   (string + unit) \<times> 'r chat_server \<times> actor_ctx \<times> 'r server_effect list" where
  "join_admit P now_ms m is_reconnection sv ctx =
     (let sup = (if is_reconnection \<or> jr_observer m
                 then insert (jr_session m) (cs_suppress_join_broadcast sv)
                 else cs_suppress_join_broadcast sv)
      in case cs_sessions sv (jr_session m) of
           None \<Rightarrow> (Inl ''Session not found'', sv\<lparr>cs_suppress_join_broadcast := sup\<rparr>, ctx, [])
         | Some recipient \<Rightarrow>
             let existing = (if jr_observer m then [] else members_of sv (jr_room m)) in
             (Inr (),
              sv\<lparr>cs_suppress_join_broadcast := sup,
                 cs_room_members :=
                   (if jr_observer m then cs_room_members sv
                    else AList.update (jr_room m)
                      (existing @ [(jr_session m, jr_user_id m, jr_display_name m)])
                      (cs_room_members sv)),
                 cs_active_subs := (cs_active_subs sv)(jr_session m \<mapsto> ctx_next_task ctx)\<rparr>,
              ctx\<lparr>ctx_next_task := Suc (ctx_next_task ctx)\<rparr>,
              [SpawnTask (ctx_next_task ctx)
                 (join_task P now_ms (jr_room m) (jr_user_id m) (jr_session m)
                    (existing = [] \<and> \<not> jr_observer m) existing recipient)]))"

lemma join_room_eq:
  "handle_join_room P now_ms m sv ctx =
     (if jr_user_id m = SYSTEM_USER_ID
      then (Inl ''Cannot use reserved system user ID'', sv, ctx, [])
      else if cs_active_subs sv (jr_session m) \<noteq> None then (Inr (), sv, ctx, [])
      else (case cs_pending_departures sv (jr_room m, jr_user_id m) of
              Some pd \<Rightarrow> join_admit P now_ms m True (join_cancel m pd sv)
                          (cancel_future (pds_spawn_handle pd) ctx)
            | None \<Rightarrow> join_admit P now_ms m False sv ctx))"
  by (simp add: handle_join_room_def join_admit_def join_cancel_def members_of_def Let_def
      split: option.split)

lemma inv_join_admit:
  assumes "server_inv sv" and "timers_inv sv ctx now"
    and "join_admit P now_ms m b sv ctx = (r, sv', ctx', eff)"
  shows "server_inv sv' \<and> timers_inv sv' ctx' now"
proof -
  have "cs_pending_departures sv' = cs_pending_departures sv \<and> ctx_timers ctx' = ctx_timers ctx \<and>
      ctx_next_handle ctx' = ctx_next_handle ctx"
    using assms(3) by (auto simp: join_admit_def Let_def split: option.splits)
  moreover have "server_inv sv'"
    using assms(1,3)
    by (auto simp: join_admit_def Let_def server_inv_def distinct_keys_update split: option.splits)
  ultimately show ?thesis
    using assms(2) by (simp add: timers_inv_def timer_for_def)
qed

lemma inv_join_room:
  assumes "server_inv sv" and "timers_inv sv ctx now"
    and step: "handle_join_room P now_ms m sv ctx = (r, sv', ctx', eff)"
  shows "server_inv sv' \<and> timers_inv sv' ctx' now"
proof -
  have cancel: "server_inv (join_cancel m pd sv) \<and>
      timers_inv (join_cancel m pd sv) (cancel_future (pds_spawn_handle pd) ctx) now"
    if "cs_pending_departures sv (jr_room m, jr_user_id m) = Some pd" for pd
  proof
    show "server_inv (join_cancel m pd sv)"
      using assms(1)
      by (simp add: server_inv_def join_cancel_def distinct_keys_update split: option.split)
    show "timers_inv (join_cancel m pd sv) (cancel_future (pds_spawn_handle pd) ctx) now"
      by (rule timers_inv_cancel [OF assms(2) _ pending_handle_key [OF assms(2) that]])
        (simp_all add: join_cancel_def)
  qed
  show ?thesis
    using step assms(1,2) cancel inv_join_admit [of _ _ now P now_ms m _ r sv' ctx' eff]
    by (simp add: join_room_eq split: if_splits option.splits) blast
qed

lemma inv_fire_timer:
  assumes "system_inv sys"
  shows "system_inv (fst (fire_timer P h sys))"
proof (cases "find (\<lambda>t. tm_handle t = h \<and> tm_due t \<le> sys_now sys) (ctx_timers (sys_ctx sys))")
  case None
  then show ?thesis using assms by (simp add: fire_timer_def)
next
  case (Some t)
  then have "t \<in> set (ctx_timers (sys_ctx sys))" "tm_handle t = h"
    by (auto simp: find_Some_iff)
  with Some assms show ?thesis
    using inv_execute [of "sys_server sys" "sys_ctx sys" "sys_now sys" t P]
    by (auto simp: fire_timer_def system_inv_def split: prod.split)
qed

lemma inv_sys_step:
  assumes "system_inv sys"
  shows "system_inv (fst (sys_step P sys e))"
proof -
  have sv: "server_inv (sys_server sys)"
    and tm: "timers_inv (sys_server sys) (sys_ctx sys) (sys_now sys)"
    using assms by (simp_all add: system_inv_def)
  show ?thesis
  proof (cases e)
    case (EvDisconnect m)
    then show ?thesis
      using inv_disconnect [OF sv tm, of P m] by (simp add: system_inv_def split: prod.split)
  next
    case (EvJoin now_ms m)
    then show ?thesis
      using inv_join_room [OF sv tm, of P now_ms m] by (simp add: system_inv_def split: prod.split)
  next
    case (EvTick d)
    with sv tm show ?thesis
      by (fastforce simp: system_inv_def timers_inv_def timer_for_def)
  qed (use sv tm inv_leave [OF sv tm] inv_activate [OF sv tm] inv_fire_timer [OF assms] in
      \<open>simp_all add: system_inv_def inv_connect case_prod_beta\<close>)
qed

interpretation chat: invariant_system "\<lambda>s e. fst (sys_step P s e)" system_inv "\<lambda>_. True"
  by standard (rule inv_sys_step)

lemma system_inv_new: "system_inv chat_system_new"
  by (simp add: system_inv_def server_inv_def timers_inv_def chat_system_new_def chat_server_new_def
      actor_ctx_new_def)

end
