(* ===== verification/Chat_Presence.thy ===== *)
theory Chat_Presence
  imports Chat_Server
begin

text \<open>
  What the chat server tells the participants of a room, over whole runs of the actor: packets
  are relayed only for activated sessions, joiners learn the members of the room, a departure
  is announced once its grace period has passed, a quick reconnection is not announced at all,
  and observers are never announced. The last section states three runs on which the
  bookkeeping goes wrong.
\<close>

section \<open>Departures in progress\<close>

text \<open>Events that do not concern the departure of session \<open>s\<close>, user key \<open>key\<close>, timer \<open>h\<close>.\<close>

fun unrelated :: "u64 \<Rightarrow> string \<times> string \<Rightarrow> nat \<Rightarrow> 'r server_event \<Rightarrow> bool" where
  "unrelated s key h (EvConnect m) = (co_id m \<noteq> s)"
| "unrelated s key h (EvDisconnect m) = (di_session m \<noteq> s \<and> (di_room m, di_user_id m) \<noteq> key)"
| "unrelated s key h (EvLeave m) = ((le_room m, le_user_id m) \<noteq> key)"
| "unrelated s key h (EvJoin now_ms m) = ((jr_room m, jr_user_id m) \<noteq> key)"
| "unrelated s key h (EvTimer h') = (h' \<noteq> h)"
| "unrelated s key h e = True"

definition departing :: "'r chat_system \<Rightarrow> pending_departure_state \<Rightarrow> timer \<Rightarrow> bool" where
  "departing sys pd t \<longleftrightarrow>
     cs_pending_departures (sys_server sys) (epd_room (tm_msg t), epd_user_id (tm_msg t)) = Some pd \<and>
     pds_spawn_handle pd = tm_handle t \<and> pds_old_session pd = epd_session (tm_msg t) \<and>
     t \<in> set (ctx_timers (sys_ctx sys)) \<and>
     (\<forall>t'\<in>set (ctx_timers (sys_ctx sys)). epd_session (tm_msg t') = epd_session (tm_msg t) \<longrightarrow> t' = t) \<and>
     cs_sessions (sys_server sys) (epd_session (tm_msg t)) = None \<and>
     cs_connection_states (sys_server sys) (epd_session (tm_msg t)) \<noteq> Some Testing"

abbreviation timer_key :: "timer \<Rightarrow> string \<times> string" where
  "timer_key t \<equiv> (epd_room (tm_msg t), epd_user_id (tm_msg t))"

lemma find_timer:
  assumes "distinct (map tm_handle ts)" and "t \<in> set ts"
  shows "find (\<lambda>t'. tm_handle t' = tm_handle t \<and> tm_due t' \<le> now) ts =
     (if tm_due t \<le> now then Some t else None)"
  using assms by (induction ts) (auto simp: find_None_iff rev_image_eqI)

lemma fire_timer_eq:
  assumes "system_inv sys" and "t \<in> set (ctx_timers (sys_ctx sys))"
  shows "fire_timer P (tm_handle t) sys =
     (if tm_due t \<le> sys_now sys
      then (case handle_execute_pending_departure P (tm_msg t) (sys_server sys) of
              (sv, eff) \<Rightarrow> (sys\<lparr>sys_server := sv,
                 sys_ctx := cancel_future (tm_handle t) (sys_ctx sys)\<rparr>, eff))
      else (sys, []))"
  using find_timer [of "ctx_timers (sys_ctx sys)" t "sys_now sys"] assms
  by (simp add: fire_timer_def system_inv_def timers_inv_def)

lemma fire_timer_absent:
  "\<forall>t\<in>set (ctx_timers (sys_ctx sys)). tm_handle t \<noteq> h \<Longrightarrow> fire_timer P h sys = (sys, [])"
  by (auto simp: fire_timer_def find_None_iff split: option.split dest!: sym [of "Some _"])
    (auto simp: find_Some_iff)

lemma handle_activate_testing:
  "cs_connection_states sv s \<noteq> Some Testing \<Longrightarrow>
     cs_connection_states (fst (handle_activate P m sv)) s \<noteq> Some Testing"
  by (auto simp: handle_activate_def Let_def split: option.split if_splits)

lemma departing_disconnect_other:
  assumes dep: "departing sys pd t" and inv: "system_inv sys"
    and un: "di_session m \<noteq> epd_session (tm_msg t)" "(di_room m, di_user_id m) \<noteq> timer_key t"
  shows "departing (fst (sys_step P sys (EvDisconnect m))) pd t"
proof (cases "di_observer m")
  case True
  then show ?thesis
    using dep un
    by (auto simp: departing_def handle_disconnect_def leave_rooms_def Let_def split: option.splits)
next
  case False
  have "tm_handle t \<noteq> pds_spawn_handle old"
    if "cs_pending_departures (sys_server sys) (di_room m, di_user_id m) = Some old" for old
    using pending_handle_key [OF _ that, of "sys_ctx sys" "sys_now sys" t] inv dep un
    by (auto simp: system_inv_def departing_def)
  then show ?thesis
    using dep un disconnect_state [OF False, of P "sys_now sys" "sys_server sys" "sys_ctx sys"]
    by (auto simp: departing_def notify_later_def cancel_future_def split: option.splits)
qed

lemma departing_join_other:
  assumes dep: "departing sys pd t" and inv: "system_inv sys"
    and un: "(jr_room m, jr_user_id m) \<noteq> timer_key t"
  shows "departing (fst (sys_step P sys (EvJoin now_ms m))) pd t"
proof -
  have "tm_handle t \<noteq> pds_spawn_handle old"
    if "cs_pending_departures (sys_server sys) (jr_room m, jr_user_id m) = Some old" for old
    using pending_handle_key [OF _ that, of "sys_ctx sys" "sys_now sys" t] inv dep un
    by (auto simp: system_inv_def departing_def)
  then show ?thesis
    using dep un
    by (auto simp: departing_def join_room_eq join_admit_def join_cancel_def Let_def
        cancel_future_def split: option.split)
qed

lemma departing_timer_other:
  assumes dep: "departing sys pd t" and inv: "system_inv sys" and un: "h \<noteq> tm_handle t"
  shows "departing (fst (sys_step P sys (EvTimer h))) pd t"
proof (cases "\<exists>t'\<in>set (ctx_timers (sys_ctx sys)). tm_handle t' = h")
  case False
  then show ?thesis using dep by (simp add: fire_timer_absent)
next
  case True
  then obtain t' where t': "t' \<in> set (ctx_timers (sys_ctx sys))" "tm_handle t' = h" by blast
  with dep un have "epd_session (tm_msg t') \<noteq> epd_session (tm_msg t)"
    by (auto simp: departing_def)
  then show ?thesis
    using dep un fire_timer_eq [OF inv t'(1), of P] t'(2)
    by (auto simp: departing_def execute_state cancel_future_def Let_def case_prod_beta
        split: option.split)
qed

lemma departing_step:
  assumes "departing sys pd t" and "system_inv sys"
    and "unrelated (epd_session (tm_msg t)) (timer_key t) (tm_handle t) e"
  shows "departing (fst (sys_step P sys e)) pd t"
proof (cases e)
  case (EvActivate m)
  obtain cst sup where a: "fst (handle_activate P m (sys_server sys)) =
      (sys_server sys)\<lparr>cs_connection_states := cst, cs_suppress_join_broadcast := sup\<rparr>"
    using handle_activate_state by blast
  have "cs_connection_states (fst (handle_activate P m (sys_server sys))) (epd_session (tm_msg t))
      \<noteq> Some Testing"
    using assms(1) by (intro handle_activate_testing) (simp add: departing_def)
  with assms(1) a EvActivate show ?thesis by (simp add: departing_def case_prod_beta)
qed (use assms departing_disconnect_other [OF assms(1,2)] departing_join_other [OF assms(1,2)]
    departing_timer_other [OF assms(1,2)] in
    \<open>auto simp: departing_def handle_connect_def handle_leave_def leave_rooms_state case_prod_beta\<close>)

lemma departing_run:
  assumes "departing sys pd t" and "system_inv sys"
    and "list_all (unrelated (epd_session (tm_msg t)) (timer_key t) (tm_handle t)) es"
  shows "departing (sys_run P sys es) pd t \<and> system_inv (sys_run P sys es)"
  using assms
  by (induction es arbitrary: sys) (auto simp: sys_run_def departing_step inv_sys_step)

text \<open>The timer and the pending entry a disconnect of a participant creates.\<close>

definition departure_timer :: "disconnect_msg \<Rightarrow> 'r chat_system \<Rightarrow> timer" where
  "departure_timer d sys =
     \<lparr>tm_handle = ctx_next_handle (sys_ctx sys), tm_due = sys_now sys + RECONNECT_GRACE_PERIOD,
      tm_msg = \<lparr>epd_session = di_session d, epd_room = di_room d, epd_user_id = di_user_id d,
                epd_display_name = di_display_name d\<rparr>\<rparr>"

definition departure_entry :: "disconnect_msg \<Rightarrow> 'r chat_system \<Rightarrow> pending_departure_state" where
  "departure_entry d sys =
     \<lparr>pds_spawn_handle = ctx_next_handle (sys_ctx sys), pds_old_session = di_session d,
      pds_was_active = (cs_connection_states (sys_server sys) (di_session d) = Some Active)\<rparr>"

definition first_disconnect :: "disconnect_msg \<Rightarrow> 'r chat_system \<Rightarrow> bool" where
  "first_disconnect d sys \<longleftrightarrow>
     \<not> di_observer d \<and>
     (\<forall>t\<in>set (ctx_timers (sys_ctx sys)). epd_session (tm_msg t) \<noteq> di_session d)"

definition quiet_run :: "disconnect_msg \<Rightarrow> 'r chat_system \<Rightarrow> 'r server_event list \<Rightarrow> bool" where
  "quiet_run d sys es \<longleftrightarrow>
     list_all (unrelated (di_session d) (di_room d, di_user_id d) (ctx_next_handle (sys_ctx sys))) es"

lemma departing_start:
  assumes "first_disconnect d sys"
  shows "departing (fst (sys_step P sys (EvDisconnect d))) (departure_entry d sys) (departure_timer d sys)"
  using assms disconnect_state [of d P "sys_now sys" "sys_server sys" "sys_ctx sys"]
  by (auto simp: first_disconnect_def departing_def departure_entry_def departure_timer_def
      notify_later_def cancel_future_def split: option.splits)

lemma departing_after:
  assumes "system_inv sys" and "first_disconnect d sys" and "quiet_run d sys es"
  shows "departing (sys_run P sys (EvDisconnect d # es)) (departure_entry d sys) (departure_timer d sys) \<and>
    system_inv (sys_run P sys (EvDisconnect d # es))"
  using departing_run [OF departing_start [OF assms(2)] inv_sys_step [OF assms(1)], of es P] assms(3)
  by (simp add: sys_run_def quiet_run_def departure_timer_def)

section \<open>Members\<close>

lemma members_of_remove:
  "members_of (sv\<lparr>cs_room_members := remove_member room s (cs_room_members sv)\<rparr>) r =
       (if r = room then retain_members s (members_of sv r) else members_of sv r)"
  by (auto simp: members_of_def remove_member_def Let_def retain_members_def split: option.split)

lemma retain_members_out: "s \<notin> fst ` set (retain_members s ms')"
  by (auto simp: retain_members_def)

lemma execute_active:
  assumes "departing sys pd t" and "system_inv sys" and "pds_was_active pd"
  shows "published (snd (handle_execute_pending_departure P (tm_msg t) (sys_server sys))) =
       [(system_subject (epd_room (tm_msg t)),
         build_peer_left_packet P (epd_room (tm_msg t)) (epd_user_id (tm_msg t))
           (epd_session (tm_msg t)) (epd_display_name (tm_msg t)))]"
proof -
  have "cs_active_subs (sys_server sys) (epd_session (tm_msg t)) = None"
    using assms by (simp add: departing_def system_inv_def server_inv_def)
  then show ?thesis
    using assms
    by (auto simp: departing_def handle_execute_pending_departure_def leave_rooms_def Let_def
        end_session_effects_def end_session_def published_def split: option.split
        connection_state.split) (metis connection_state.exhaust)
qed

lemma execute_inactive:
  assumes "departing sys pd t" and "\<not> pds_was_active pd"
  shows "snd (handle_execute_pending_departure P (tm_msg t) (sys_server sys)) = []"
  using assms by (simp add: departing_def handle_execute_pending_departure_def Let_def)

lemma execute_members:
  assumes "departing sys pd t" and "system_inv sys"
  shows "members_of (fst (handle_execute_pending_departure P (tm_msg t) (sys_server sys)))
      (epd_room (tm_msg t)) =
    retain_members (epd_session (tm_msg t)) (members_of (sys_server sys) (epd_room (tm_msg t)))"
  using assms members_of_remove [of "epd_room (tm_msg t)" "epd_session (tm_msg t)" "sys_server sys"]
  by (auto simp: departing_def execute_state Let_def system_inv_def server_inv_def members_of_def
      cong: option.case_cong)

section \<open>A concrete room\<close>

text \<open>Alice joined and activated session 1 in a room; the later witnesses continue from there.\<close>

lemma run_system_inv: "system_inv (sys_run P chat_system_new es)"
  unfolding sys_run_def by (rule chat.run_inv [OF system_inv_new]) (simp add: list_all_iff)

lemma sys_run_simps [simp]:
  "sys_run P sys [] = sys"
  "sys_run P sys (e # es) = sys_run P (fst (sys_step P sys e)) es"
  by (simp_all add: sys_run_def)

definition join_as :: "u64 \<Rightarrow> string \<Rightarrow> join_room_msg" where
  "join_as s user = \<lparr>jr_session = s, jr_room = ''r'', jr_user_id = user, jr_display_name = user,
     jr_observer = False\<rparr>"

definition disconnect_as :: "u64 \<Rightarrow> string \<Rightarrow> disconnect_msg" where
  "disconnect_as s user = \<lparr>di_session = s, di_room = ''r'', di_user_id = user, di_display_name = user,
     di_observer = False\<rparr>"

definition arrive :: "u64 \<Rightarrow> string \<Rightarrow> nat server_event list" where
  "arrive s user = [EvConnect \<lparr>co_id = s, co_addr = unat s\<rparr>, EvJoin 0 (join_as s user)]"

definition activate :: "u64 \<Rightarrow> nat server_event" where
  "activate s = EvActivate \<lparr>ac_session = s\<rparr>"

definition alice_in :: "nat chat_system" where
  "alice_in = sys_run ref_proto chat_system_new (arrive 1 ''alice'' @ [activate 1])"

lemmas chat_defs =
  handle_connect_def handle_disconnect_def handle_activate_def handle_join_room_def
  handle_execute_pending_departure_def leave_rooms_def remove_member_def retain_members_def
  notify_later_def cancel_future_def fire_timer_def end_session_effects_def end_session_def
  join_task_def send_meeting_info_def members_of_def

lemmas demo_defs =
  join_as_def disconnect_as_def arrive_def activate_def chat_system_new_def chat_server_new_def
  actor_ctx_new_def SYSTEM_USER_ID_def RECONNECT_GRACE_PERIOD_def

lemma alice_in_eq:
  "alice_in = \<lparr>sys_server = \<lparr>cs_sessions = [1 \<mapsto> 1], cs_active_subs = [1 \<mapsto> 0],
       cs_connection_states = [1 \<mapsto> Active], cs_room_members = [(''r'', [(1, ''alice'', ''alice'')])],
       cs_pending_departures = Map.empty, cs_suppress_join_broadcast = {}\<rparr>,
     sys_ctx = \<lparr>ctx_timers = [], ctx_next_handle = 0, ctx_next_task = 1\<rparr>, sys_now = 0\<rparr>"
  by (simp add: alice_in_def chat_defs demo_defs Let_def)

lemma alice_in_inv: "system_inv alice_in"
  unfolding alice_in_def by (rule run_system_inv)

section \<open>Properties\<close>

text \<open>C35: The bookkeeping of the server is consistent in every reachable state, whatever messages
  arrive in whatever order: every pending departure has exactly one live timer, with its
  session, room and user, due within the grace period; timer handles are unique; every
  subscription belongs to a registered session and every registered session has a connection
  state; rooms are stored once.\<close>

theorem chat_server_consistent: "system_inv (sys_run P chat_system_new es)"
  by (rule run_system_inv)



text \<open>A session that never got past the election leaves silently. If the disconnected session
  was not activated, its timer publishes nothing and still removes it from the room.\<close>

theorem inactive_departure_silent:
  assumes "system_inv sys" and "first_disconnect d sys" and "quiet_run d sys es"
    and "cs_connection_states (sys_server sys) (di_session d) \<noteq> Some Active"
  shows "let sys1 = sys_run P sys (EvDisconnect d # es);
             (sys2, effects) = sys_step P sys1 (EvTimer (ctx_next_handle (sys_ctx sys)))
         in effects = [] \<and>
            (sys_now sys + secs 2 \<le> sys_now sys1 \<longrightarrow>
               di_session d \<notin> fst ` set (members_of (sys_server sys2) (di_room d)))"
proof -
  define sys1 where "sys1 = sys_run P sys (EvDisconnect d # es)"
  define h where "h = ctx_next_handle (sys_ctx sys)"
  let ?t = "departure_timer d sys" and ?pd = "departure_entry d sys"
  have dep: "departing sys1 ?pd ?t" and inv: "system_inv sys1"
    using departing_after [OF assms(1-3)] by (simp_all add: sys1_def)
  have t: "?t \<in> set (ctx_timers (sys_ctx sys1))" using dep by (simp add: departing_def)
  have fields: "tm_handle ?t = h" "tm_due ?t = sys_now sys + secs 2" "\<not> pds_was_active ?pd"
    "epd_session (tm_msg ?t) = di_session d" "epd_room (tm_msg ?t) = di_room d"
    using assms(4) by (simp_all add: departure_timer_def departure_entry_def h_def
        RECONNECT_GRACE_PERIOD_def)
  show ?thesis
    using fire_timer_eq [OF inv t, of P] execute_inactive [OF dep fields(3), of P]
      execute_members [OF dep inv, of P] retain_members_out fields
    unfolding sys1_def [symmetric] h_def [symmetric] Let_def
    by (auto simp: case_prod_beta)
qed

theorem inactive_departure_silent_witness:
  "\<exists>sys :: nat chat_system. \<exists>sys2. sys_step ref_proto
       (sys_run ref_proto sys [EvDisconnect (disconnect_as 1 ''alice''), EvTick (secs 2)])
       (EvTimer 0) = (sys2, []) \<and> 1 \<notin> fst ` set (members_of (sys_server sys2) ''r'')"
proof -
  let ?d = "disconnect_as 1 ''alice''"
  define sys :: "nat chat_system" where
    "sys = sys_run ref_proto chat_system_new (arrive 1 ''alice'')"
  have inv: "system_inv sys" unfolding sys_def by (rule run_system_inv)
  have f: "first_disconnect ?d sys" "quiet_run ?d sys [EvTick (secs 2)]"
    "cs_connection_states (sys_server sys) (di_session ?d) \<noteq> Some Active"
    "ctx_next_handle (sys_ctx sys) = 0" "sys_now sys = 0"
    by (simp_all add: first_disconnect_def quiet_run_def sys_def chat_defs demo_defs Let_def)
  obtain sys2 effs where step: "sys_step ref_proto
      (sys_run ref_proto sys [EvDisconnect ?d, EvTick (secs 2)]) (EvTimer 0) = (sys2, effs)"
    by (metis surj_pair)
  have now: "sys_now (sys_run ref_proto sys [EvDisconnect ?d, EvTick (secs 2)]) = secs 2"
    using f(5) by (simp add: case_prod_beta)
  show ?thesis
    using inactive_departure_silent [OF inv f(1-3), of ref_proto] step now f(4,5)
    by (auto simp: Let_def disconnect_as_def simp del: sys_run_simps sys_step.simps)
qed

lemma published_join_task:
  "set (concat (map publications (join_task P now_ms room u s b ex r)))
     \<subseteq> {(system_subject room, build_meeting_started_packet P room now_ms u)}"
  by (auto simp: join_task_def send_meeting_info_def build_subject_and_queue_def split: if_splits)



text \<open>C34: A newcomer learns who is there. The task a join spawns sends the new session one
  PARTICIPANT_JOINED per member of the room, in order, with the member's session, identity and
  display name, subscribes the session to the room, and the newcomer becomes the last member.\<close>

definition told :: "proto \<Rightarrow> 'r \<Rightarrow> 'r server_effect list \<Rightarrow> meeting_packet list" where
  "told P recipient effs =
     List.map_filter (\<lambda>e. case e of
         TrySend r m \<Rightarrow> if r = recipient then read_system_event P (sm_msg m) else None
       | _ \<Rightarrow> None) effs"

lemma told_append [simp]: "told P r (xs @ ys) = told P r xs @ told P r ys"
  by (simp add: told_def List.map_filter_def)

lemma told_members:
  assumes "proto_roundtrip P"
  shows "map (\<lambda>m. (mp_session_id m, mp_target_user_id m, mp_display_name m))
      (told P r (map (\<lambda>(sid, uid, name). TrySend r
         \<lparr>sm_session = sid, sm_msg = build_peer_joined_packet P room uid sid name\<rparr>) members)) =
    map (\<lambda>(sid, uid, name). (sid, to_user_id_bytes uid, as_bytes name)) members"
  using read_system_event_meeting [OF assms]
  by (induction members) (auto simp: told_def List.map_filter_def build_peer_joined_packet_def)

theorem newcomer_learns_members:
  assumes "proto_roundtrip P" and "jr_user_id j \<noteq> SYSTEM_USER_ID" and "\<not> jr_observer j"
    and "cs_sessions sv (jr_session j) = Some recipient" and "cs_active_subs sv (jr_session j) = None"
    and "cs_pending_departures sv (jr_room j, jr_user_id j) = None"
  shows "\<exists>sv' ctx' task body.
     handle_join_room P now_ms j sv ctx = (Inr (), sv', ctx', [SpawnTask task body]) \<and>
     map (\<lambda>m. (mp_session_id m, mp_target_user_id m, mp_display_name m)) (told P recipient body) =
       map (\<lambda>(sid, uid, name). (sid, to_user_id_bytes uid, as_bytes name))
         (members_of sv (jr_room j)) \<and>
     QueueSubscribe (fst (build_subject_and_queue (jr_room j) (show_u64 (jr_session j))))
       (snd (build_subject_and_queue (jr_room j) (show_u64 (jr_session j)))) \<in> set body \<and>
     cs_active_subs sv' (jr_session j) = Some task \<and>
     members_of sv' (jr_room j) =
       members_of sv (jr_room j) @ [(jr_session j, jr_user_id j, jr_display_name j)]"
proof -
  let ?body = "join_task P now_ms (jr_room j) (jr_user_id j) (jr_session j)
    (members_of sv (jr_room j) = []) (members_of sv (jr_room j)) recipient"
  have "told P recipient ?body = told P recipient (map (\<lambda>(sid, uid, name). TrySend recipient
      \<lparr>sm_session = sid, sm_msg = build_peer_joined_packet P (jr_room j) uid sid name\<rparr>)
      (members_of sv (jr_room j)))"
    by (simp add: join_task_def send_meeting_info_def case_prod_beta) (simp add: told_def List.map_filter_def)
  moreover have "handle_join_room P now_ms j sv ctx =
      (Inr (), sv\<lparr>cs_room_members := AList.update (jr_room j)
          (members_of sv (jr_room j) @ [(jr_session j, jr_user_id j, jr_display_name j)])
          (cs_room_members sv),
         cs_active_subs := (cs_active_subs sv)(jr_session j \<mapsto> ctx_next_task ctx)\<rparr>,
       ctx\<lparr>ctx_next_task := Suc (ctx_next_task ctx)\<rparr>, [SpawnTask (ctx_next_task ctx) ?body])"
    using assms by (simp add: join_room_eq join_admit_def Let_def)
  ultimately show ?thesis
    using told_members [OF assms(1), of recipient "jr_room j" "members_of sv (jr_room j)"]
    by (auto simp: members_of_def join_task_def case_prod_beta)
qed

theorem newcomer_learns_members_witness:
  "\<exists>sv' ctx' task body.
     handle_join_room ref_proto 0 (join_as 2 ''bob'')
       ((sys_server alice_in)\<lparr>cs_sessions := [1 \<mapsto> 1, 2 \<mapsto> 2]\<rparr>) (sys_ctx alice_in) =
         (Inr (), sv', ctx', [SpawnTask task body]) \<and>
     map (\<lambda>m. (mp_session_id m, mp_target_user_id m)) (told ref_proto 2 body) =
       [(1, to_user_id_bytes ''alice'')]"
proof -
  let ?sv = "(sys_server alice_in)\<lparr>cs_sessions := [1 \<mapsto> 1, 2 \<mapsto> 2]\<rparr>" and ?j = "join_as 2 ''bob''"
  have "jr_user_id ?j \<noteq> SYSTEM_USER_ID" "\<not> jr_observer ?j"
    "cs_sessions ?sv (jr_session ?j) = Some 2" "cs_active_subs ?sv (jr_session ?j) = None"
    "cs_pending_departures ?sv (jr_room ?j, jr_user_id ?j) = None"
    by (simp_all add: demo_defs alice_in_eq)
  note l = newcomer_learns_members [OF ref_proto_roundtrip this, of 0 "sys_ctx alice_in"]
  have m: "members_of ?sv (jr_room ?j) = [(1, ''alice'', ''alice'')]"
    by (simp add: members_of_def demo_defs alice_in_eq)
  have "map (\<lambda>(s, u, n). (s, u)) xs = map (\<lambda>(s, u, n). (s, u)) ys" if "xs = ys" for xs ys :: "(u64 \<times> bytes \<times> bytes) list"
    using that by simp
  then show ?thesis using l unfolding m by (fastforce simp: comp_def)
qed

section \<open>Who is announced\<close>

text \<open>A session belongs to one room, user and role for its whole life: the messages the session
  logic creates carry these fields unchanged.\<close>

record session_profile =
  pf_room :: string
  pf_user :: string
  pf_name :: string
  pf_observer :: bool

fun conforms :: "(u64 \<Rightarrow> session_profile) \<Rightarrow> 'r server_event \<Rightarrow> bool" where
  "conforms prof (EvDisconnect m) =
     (prof (di_session m) = \<lparr>pf_room = di_room m, pf_user = di_user_id m, pf_name = di_display_name m,
        pf_observer = di_observer m\<rparr>)"
| "conforms prof (EvJoin _ m) =
     (prof (jr_session m) = \<lparr>pf_room = jr_room m, pf_user = jr_user_id m, pf_name = jr_display_name m,
        pf_observer = jr_observer m\<rparr>)"
| "conforms prof (EvLeave m) =
     (pf_room (prof (le_session m)) = le_room m \<and> pf_user (prof (le_session m)) = le_user_id m \<and>
      \<not> pf_observer (prof (le_session m)))"
| "conforms prof e = True"

definition participant :: "(u64 \<Rightarrow> session_profile) \<Rightarrow> string \<Rightarrow> u64 \<Rightarrow> string \<Rightarrow> bool" where
  "participant prof room s user \<longleftrightarrow>
     pf_room (prof s) = room \<and> pf_user (prof s) = user \<and> \<not> pf_observer (prof s)"

definition profile_inv :: "(u64 \<Rightarrow> session_profile) \<Rightarrow> 'r chat_system \<Rightarrow> bool" where
  "profile_inv prof sys \<longleftrightarrow>
     (\<forall>(room, members) \<in> set (cs_room_members (sys_server sys)).
        \<forall>(s, user, name) \<in> set members. participant prof room s user) \<and>
     (\<forall>t\<in>set (ctx_timers (sys_ctx sys)).
        participant prof (epd_room (tm_msg t)) (epd_session (tm_msg t)) (epd_user_id (tm_msg t)))"

definition members_ok :: "(u64 \<Rightarrow> session_profile) \<Rightarrow> (string \<times> member list) list \<Rightarrow> bool" where
  "members_ok prof rm \<longleftrightarrow>
     (\<forall>(room, members) \<in> set rm. \<forall>(s, user, name) \<in> set members. participant prof room s user)"

lemma set_update_subset: "set (AList.update k v al) \<subseteq> insert (k, v) (set al)"
  by (induction al) auto

lemma members_ok_update:
  assumes "members_ok prof rm" and "\<forall>(s, user, name) \<in> set members. participant prof room s user"
  shows "members_ok prof (AList.update room members rm)"
  using assms set_update_subset [of room members rm] unfolding members_ok_def by blast

lemma members_okD:
  "members_ok prof rm \<Longrightarrow> map_of rm room = Some members \<Longrightarrow>
     \<forall>(s, user, name) \<in> set members. participant prof room s user"
  unfolding members_ok_def by (fastforce dest: map_of_SomeD)

lemma members_ok_remove: "members_ok prof rm \<Longrightarrow> members_ok prof (remove_member room s rm)"
proof (cases "map_of rm room")
  case (Some members)
  assume ok: "members_ok prof rm"
  have "members_ok prof (AList.update room (retain_members s members) rm)"
    using members_okD [OF ok Some] by (intro members_ok_update [OF ok]) (auto simp: retain_members_def)
  moreover have "members_ok prof (AList.delete room rm)"
    using ok by (auto simp: members_ok_def AList.delete_eq)
  ultimately show ?thesis using Some by (simp add: remove_member_def Let_def)
qed (simp add: remove_member_def)

lemma profile_inv_alt:
  "profile_inv prof sys \<longleftrightarrow> members_ok prof (cs_room_members (sys_server sys)) \<and>
     (\<forall>t\<in>set (ctx_timers (sys_ctx sys)).
        participant prof (epd_room (tm_msg t)) (epd_session (tm_msg t)) (epd_user_id (tm_msg t)))"
  by (simp add: profile_inv_def members_ok_def)

lemma timers_cancel_subset: "set (ctx_timers (cancel_future h ctx)) \<subseteq> set (ctx_timers ctx)"
  by (auto simp: cancel_future_def)

lemma members_of_ok:
  "members_ok prof (cs_room_members sv) \<Longrightarrow>
     \<forall>(s, user, name) \<in> set (members_of sv room). participant prof room s user"
  using members_okD [of prof "cs_room_members sv" room]
  by (cases "map_of (cs_room_members sv) room") (simp_all add: members_of_def)

lemma members_ok_join:
  assumes "members_ok prof (cs_room_members sv)" and "conforms prof (EvJoin now_ms m)"
    and "join_admit P now_ms m b sv ctx = (r, sv', ctx', eff)"
  shows "members_ok prof (cs_room_members sv') \<and> ctx_timers ctx' = ctx_timers ctx"
proof -
  have "members_ok prof (AList.update (jr_room m)
      (members_of sv (jr_room m) @ [(jr_session m, jr_user_id m, jr_display_name m)])
      (cs_room_members sv))" if "\<not> jr_observer m"
    using assms(2) that members_of_ok [OF assms(1), of "jr_room m"]
    by (intro members_ok_update [OF assms(1)]) (auto simp: participant_def)
  then show ?thesis
    using assms(1,3) by (auto simp: join_admit_def Let_def split: option.splits)
qed

lemma members_ok_join_cancel:
  "members_ok prof (cs_room_members sv) \<Longrightarrow> members_ok prof (cs_room_members (join_cancel m pd sv))"
  using members_okD [of prof "cs_room_members sv" "jr_room m"]
  by (auto simp: join_cancel_def retain_members_def intro!: members_ok_update split: option.split)

lemma profile_inv_step:
  assumes "profile_inv prof sys" and "conforms prof e"
  shows "profile_inv prof (fst (sys_step P sys e))"
proof (cases e)
  case (EvDisconnect m)
  show ?thesis
  proof (cases "di_observer m")
    case True
    then show ?thesis using assms EvDisconnect
      by (auto simp: profile_inv_alt handle_disconnect_def leave_rooms_def Let_def members_ok_remove
          split: option.splits)
  next
    case False
    then show ?thesis
      using assms EvDisconnect disconnect_state [OF False, of P "sys_now sys" "sys_server sys" "sys_ctx sys"]
      by (auto simp: profile_inv_alt notify_later_def participant_def cancel_future_def
          split: option.splits)
  qed
next
  case (EvJoin now_ms m)
  let ?sv = "sys_server sys" and ?ctx = "sys_ctx sys"
  obtain r sv' ctx' eff where step: "handle_join_room P now_ms m ?sv ?ctx = (r, sv', ctx', eff)"
    by (metis prod_cases4)
  have mok: "members_ok prof (cs_room_members ?sv)" using assms(1) by (simp add: profile_inv_alt)
  have "members_ok prof (cs_room_members sv') \<and> set (ctx_timers ctx') \<subseteq> set (ctx_timers ?ctx)"
    using step mok members_ok_join [OF _ assms(2) [unfolded EvJoin], of _ P _ _ r sv' ctx' eff]
      members_ok_join_cancel [OF mok, of m] timers_cancel_subset
    by (fastforce simp: join_room_eq split: if_splits option.splits)
  then show ?thesis
    using assms(1) EvJoin step by (auto simp: profile_inv_alt)
next
  case (EvTimer h)
  then show ?thesis using assms(1)
    by (auto simp: profile_inv_alt fire_timer_def execute_state Let_def members_ok_remove
        case_prod_beta cancel_future_def split: option.split)
next
  case (EvActivate m)
  obtain cst sup where "fst (handle_activate P m (sys_server sys)) =
      (sys_server sys)\<lparr>cs_connection_states := cst, cs_suppress_join_broadcast := sup\<rparr>"
    using handle_activate_state by blast
  with EvActivate assms(1) show ?thesis by (simp add: profile_inv_alt case_prod_beta)
qed (use assms in \<open>auto simp: profile_inv_alt handle_connect_def handle_leave_def leave_rooms_state
    members_ok_remove case_prod_beta\<close>)

interpretation presence: invariant_system "\<lambda>s e. fst (sys_step P s e)" "profile_inv prof" "conforms prof"
  by standard (rule profile_inv_step)

lemma find_member_ok:
  "members_ok prof rm \<Longrightarrow> find_member s rm = Some (room, user, name) \<Longrightarrow> participant prof room s user"
  by (induction s rm rule: find_member.induct)
    (auto simp: members_ok_def split: option.splits dest!: find_SomeD)

text \<open>Every packet the server publishes of its own accord is a room start, a join or a leave, on the
  system subject of the room, and joins and leaves are about participants.\<close>

definition announcement :: "(u64 \<Rightarrow> session_profile) \<Rightarrow> proto \<Rightarrow> string \<times> bytes \<Rightarrow> bool" where
  "announcement prof P p \<longleftrightarrow>
     (\<exists>room s user name. fst p = system_subject room \<and> participant prof room s user \<and>
        (snd p = build_peer_joined_packet P room user s name \<or>
         snd p = build_peer_left_packet P room user s name)) \<or>
     (\<exists>room t user. snd p = build_meeting_started_packet P room t user)"

fun is_client_event :: "'r server_event \<Rightarrow> bool" where
  "is_client_event (EvClient _) = True"
| "is_client_event _ = False"

lemma published_simps [simp]:
  "published [] = []"
  "published (e # es) = publications e @ published es"
  "published (es @ fs) = published es @ published fs"
  by (simp_all add: published_def)

lemma leave_rooms_announcement:
  assumes "p \<in> set (published (snd (leave_rooms P s (Some room) (Some user) d obs sv)))"
    and "participant prof room s user"
  shows "announcement prof P p"
  using assms
  by (auto simp: leave_rooms_def Let_def announcement_def end_session_effects_def end_session_def
      split: option.splits if_splits)

lemma execute_announcement:
  assumes "p \<in> set (published (snd (handle_execute_pending_departure P m sv)))"
    and "participant prof (epd_room m) (epd_session m) (epd_user_id m)"
  shows "announcement prof P p"
  using assms leave_rooms_announcement
  by (fastforce simp: handle_execute_pending_departure_def Let_def split: option.splits if_splits)

lemma join_announcement:
  fixes sv :: "'r chat_server"
  assumes "p \<in> set (published (snd (snd (snd (handle_join_room P now_ms m sv ctx)))))"
  shows "announcement prof P p"
proof -
  have "announcement prof P p"
    if "p \<in> set (concat (map publications (join_task P now_ms room u s b ex r)))" for room u s b ex and r :: 'r
    using subsetD [OF published_join_task that] unfolding announcement_def
    by (metis singletonD snd_conv)
  with assms show ?thesis
    by (auto simp: join_room_eq join_admit_def Let_def split: if_splits option.splits)
qed

lemma step_announcement:
  assumes inv: "profile_inv prof sys" and conf: "conforms prof e" and server: "\<not> is_client_event e"
    and p: "p \<in> set (published (snd (sys_step P sys e)))"
  shows "announcement prof P p"
proof (cases e)
  case (EvDisconnect m)
  then show ?thesis using p
    by (auto simp: handle_disconnect_def leave_rooms_def Let_def notify_later_def split: option.splits if_splits)
next
  case (EvLeave m)
  then show ?thesis using p conf
    by (auto simp: handle_leave_def case_prod_beta participant_def intro!: leave_rooms_announcement)
next
  case (EvActivate m)
  have "members_ok prof (cs_room_members (sys_server sys))" using inv by (simp add: profile_inv_alt)
  with EvActivate p show ?thesis
    by (fastforce simp: handle_activate_def Let_def announcement_def case_prod_beta
        split: option.splits if_splits dest: find_member_ok)
next
  case (EvJoin now_ms m)
  then show ?thesis using p by (auto simp: case_prod_beta intro: join_announcement)
next
  case (EvTimer h)
  then show ?thesis using p inv
    by (auto simp: fire_timer_def case_prod_beta profile_inv_alt find_Some_iff
        split: option.splits intro!: execute_announcement)
qed (use p server in auto)

lemma trace_announcement:
  assumes "profile_inv prof sys" and "list_all (conforms prof) es"
    and "(e, effs) \<in> set (sys_trace P sys es)" and "\<not> is_client_event e" and "p \<in> set (published effs)"
  shows "announcement prof P p"
  using assms
  by (induction es arbitrary: sys) (auto intro: step_announcement profile_inv_step)

text \<open>Only participants are announced. In every run in which each session keeps its room, user and
  role, a PARTICIPANT_JOINED or PARTICIPANT_LEFT event that the server publishes names a session
  that is not an observer, with that session's own room and user, on that room's system
  subject.\<close>

theorem announcements_truthful:
  assumes "proto_roundtrip P" and "list_all (conforms prof) es"
    and "(e, effs) \<in> set (sys_trace P chat_system_new es)" and "\<not> is_client_event e"
    and "(subject, bs) \<in> set (published effs)" and "read_system_event P bs = Some m"
    and "mp_event_type m = meeting_event_type_value PARTICIPANT_JOINED \<or>
         mp_event_type m = meeting_event_type_value PARTICIPANT_LEFT"
  shows "let p = prof (mp_session_id m)
         in \<not> pf_observer p \<and> mp_room_id m = pf_room p \<and>
            mp_target_user_id m = to_user_id_bytes (pf_user p) \<and>
            subject = system_subject (pf_room p)"
proof -
  have "profile_inv prof chat_system_new"
    by (simp add: profile_inv_def chat_system_new_def chat_server_new_def actor_ctx_new_def)
  from trace_announcement [OF this assms(2-5)] have "announcement prof P (subject, bs)" .
  then show ?thesis
    using assms(6,7) read_system_event_meeting [OF assms(1)]
    by (auto simp: announcement_def build_defs Let_def participant_def)
qed

theorem announcements_truthful_witness:
  "\<exists>m. read_system_event ref_proto (build_peer_joined_packet ref_proto ''r'' ''alice'' 1 ''alice'') = Some m \<and>
     (\<exists>effs. (activate 1, effs) \<in> set (sys_trace ref_proto chat_system_new (arrive 1 ''alice'' @ [activate 1])) \<and>
        (system_subject ''r'', build_peer_joined_packet ref_proto ''r'' ''alice'' 1 ''alice'') \<in> set (published effs)) \<and>
     mp_room_id m = ''r'' \<and> mp_target_user_id m = to_user_id_bytes ''alice''"
proof -
  let ?es = "arrive 1 ''alice'' @ [activate 1]"
  let ?bs = "build_peer_joined_packet ref_proto ''r'' ''alice'' 1 ''alice''"
  let ?prof = "\<lambda>_ :: u64. \<lparr>pf_room = ''r'', pf_user = ''alice'', pf_name = ''alice'', pf_observer = False\<rparr>"
  have conf: "list_all (conforms ?prof) ?es" by (simp add: demo_defs)
  have tr: "(activate 1, [Publish (system_subject ''r'') ?bs]) \<in> set (sys_trace ref_proto chat_system_new ?es)"
    by (simp add: chat_defs demo_defs Let_def)
  have nc: "\<not> is_client_event (activate 1)" by (simp add: activate_def)
  have pub: "(system_subject ''r'', ?bs) \<in> set (published [Publish (system_subject ''r'') ?bs :: nat server_effect])" by simp
  obtain m where m: "read_system_event ref_proto ?bs = Some m"
    "mp_event_type m = meeting_event_type_value PARTICIPANT_JOINED" "mp_session_id m = 1"
    using read_system_event_meeting [OF ref_proto_roundtrip]
    by (simp add: build_peer_joined_packet_def Let_def)
  have "mp_room_id m = ''r'' \<and> mp_target_user_id m = to_user_id_bytes ''alice''"
    using announcements_truthful [OF ref_proto_roundtrip conf tr nc pub m(1)] m(2) by (simp add: Let_def)
  then show ?thesis using m(1) tr pub by blast
qed

text \<open>Relaying. A packet of a session that is not activated is not published at all. A packet of
  an activated session is published once, on the session's own subject; a packet that decodes is
  published with the session's id filled in where the sender left it zero and is otherwise
  unchanged, and a packet that does not decode is published byte for byte.\<close>

theorem client_message_relayed:
  assumes "proto_roundtrip P"
  shows "(cs_connection_states sv (cm_session m) \<noteq> Some Active \<longrightarrow> handle_client_message P m sv = []) \<and>
    (cs_connection_states sv (cm_session m) = Some Active \<longrightarrow>
       (\<exists>bs. handle_client_message P m sv = [Publish (session_subject (cm_room m) (cm_session m)) bs] \<and>
         (parse_wrapper P (cm_msg m) = None \<longrightarrow> bs = cm_msg m) \<and>
         (\<forall>w. parse_wrapper P (cm_msg m) = Some w \<longrightarrow>
            parse_wrapper P bs =
              Some (if pw_session_id w = 0 then w\<lparr>pw_session_id := cm_session m\<rparr> else w))))"
proof -
  have rt: "\<exists>b. write_wrapper P w = Some b \<and> parse_wrapper P b = Some w" for w
    using assms by (simp add: proto_roundtrip_def)
  show ?thesis
  proof (cases "parse_wrapper P (cm_msg m)")
    case None
    then show ?thesis
      by (auto simp: handle_client_message_def Let_def split: option.split connection_state.split)
  next
    case (Some w)
    let ?w = "if pw_session_id w = 0 then w\<lparr>pw_session_id := cm_session m\<rparr> else w"
    obtain b where b: "write_wrapper P ?w = Some b" "parse_wrapper P b = Some ?w" using rt by blast
    with Some show ?thesis
      by (cases "cs_connection_states sv (cm_session m)"; cases "pw_session_id w = 0")
        (auto simp: handle_client_message_def Let_def)
  qed
qed

theorem client_message_relayed_witness:
  "\<exists>bs w. handle_client_message ref_proto
       \<lparr>cm_session = 1, cm_user = ''alice'', cm_room = ''r'',
        cm_msg = ref_write_wrapper (default_packet_wrapper \<lparr>pw_data := [7]\<rparr>)\<rparr> (sys_server alice_in) =
       [Publish (session_subject ''r'' 1) bs] \<and>
     parse_wrapper ref_proto bs = Some w \<and> pw_session_id w = 1 \<and> pw_data w = [7]"
proof -
  let ?w = "default_packet_wrapper \<lparr>pw_data := [7]\<rparr>"
  let ?m = "\<lparr>cm_session = 1, cm_user = ''alice'', cm_room = ''r'', cm_msg = ref_write_wrapper ?w\<rparr>"
  have "parse_wrapper ref_proto (ref_write_wrapper ?w) = Some ?w"
    using parse_written_wrapper [OF ref_proto_roundtrip, of ?w] by (simp add: ref_proto_def)
  moreover have "cs_connection_states (sys_server alice_in) (cm_session ?m) = Some Active"
    by (simp add: alice_in_eq)
  ultimately show ?thesis
    using client_message_relayed [OF ref_proto_roundtrip, of "sys_server alice_in" ?m]
    by (auto simp: default_packet_wrapper_def)
qed

text \<open>Delivery. A session receives everything published in its room except its own media: a NATS
  message is withheld exactly when it is on the session's own subject and is no CONGESTION
  signal. Rooms are compared by subject, so for valid room names no other session's packets are
  withheld.\<close>

theorem delivery_skips_only_own_media:
  assumes "list_all is_id_char room" and "list_all is_id_char room'"
  shows "handle_msg P recipient room s (session_subject room' s') payload =
      (if room' = room \<and> s' = s \<and>
          \<not> (\<exists>w. parse_wrapper P payload = Some w \<and> pw_packet_type w = packet_type_value CONGESTION)
       then [] else [TrySend recipient \<lparr>sm_session = s, sm_msg = payload\<rparr>]) \<and>
    handle_msg P recipient room s (system_subject room') payload =
      [TrySend recipient \<lparr>sm_session = s, sm_msg = payload\<rparr>]"
proof -
  have "session_subject room' s' = session_subject room s \<longleftrightarrow> room' = room \<and> s' = s"
    using session_subject_tokens [OF assms(1), of s] session_subject_tokens [OF assms(2), of s']
    by (metis list.inject show_u64_inj)
  moreover have "system_subject room' \<noteq> session_subject room s"
    using session_subject_tokens [OF assms(1), of s] system_subject_tokens [OF assms(2)]
      show_u64_not_system [of s] by (metis list.inject)
  ultimately show ?thesis
    by (auto simp: handle_msg_def Let_def split: option.split)
qed

theorem delivery_skips_only_own_media_witness:
  "handle_msg ref_proto (5 :: nat) ''r'' 1 (session_subject ''r'' 2) [3] =
     [TrySend 5 \<lparr>sm_session = 1, sm_msg = [3]\<rparr>]"
proof -
  have "list_all is_id_char ''r''" by code_simp
  from delivery_skips_only_own_media [OF this this, of ref_proto "5 :: nat" 1 2 "[3]"] show ?thesis by simp
qed

section \<open>Where the bookkeeping goes wrong\<close>

text \<open>A user with two sessions in a room who loses both within the grace period: the second
  departure replaces the first, so the first session stays in the member list for ever. No
  session, timer or pending departure is left that could remove it, and every newcomer is told
  that it is present.\<close>

theorem replaced_departure_leaves_ghost:
  "let sys = sys_run ref_proto chat_system_new
        (arrive 1 ''alice'' @ [activate 1] @ arrive 2 ''alice'' @
         [EvDisconnect (disconnect_as 2 ''alice''), EvDisconnect (disconnect_as 1 ''alice''),
          EvTick (secs 2), EvTimer 0, EvTimer 1])
   in members_of (sys_server sys) ''r'' = [(2, ''alice'', ''alice'')] \<and>
      cs_sessions (sys_server sys) = Map.empty \<and> ctx_timers (sys_ctx sys) = [] \<and>
      cs_pending_departures (sys_server sys) = Map.empty"
  by (simp add: chat_defs demo_defs Let_def)

text \<open>A session that disconnects before it was activated was never announced. A new session of the
  same user within the grace period counts as a reconnection all the same, so the user is
  active in the room and nobody was sent a PARTICIPANT_JOINED.\<close>

theorem unannounced_reconnection:
  "let es = arrive 1 ''alice'' @ [EvDisconnect (disconnect_as 1 ''alice'')] @ arrive 2 ''alice'' @ [activate 2];
       sys = sys_run ref_proto chat_system_new es
   in members_of (sys_server sys) ''r'' = [(2, ''alice'', ''alice'')] \<and>
      cs_connection_states (sys_server sys) 2 = Some Active \<and>
      concat (map (published \<circ> snd) (sys_trace ref_proto chat_system_new es)) =
        [(system_subject ''r'', build_meeting_started_packet ref_proto ''r'' 0 ''alice''),
         (system_subject ''r'', build_meeting_started_packet ref_proto ''r'' 0 ''alice'')]"
  by (simp add: chat_defs demo_defs Let_def build_subject_and_queue_def)

text \<open>System events are not authenticated. A participant can have any meeting event relayed to the
  room under the system identity: the packet is classified as data and published unchanged.\<close>

theorem system_events_forgeable:
  assumes "proto_roundtrip P" and "cs_connection_states sv (sl_id l) = Some Active" and "\<not> sl_observer l"
  shows "\<exists>data bs. fst (handle_inbound P now l data) = Forward data \<and>
     handle_client_message P (create_client_message l data) sv =
       [Publish (session_subject (sl_room l) (sl_id l)) bs] \<and>
     read_system_event P bs = Some m"
proof -
  let ?w = "\<lambda>s. default_packet_wrapper \<lparr>pw_packet_type := packet_type_value MEETING,
      pw_user_id := to_user_id_bytes SYSTEM_USER_ID,
      pw_data := bytes_or_default (write_meeting P m), pw_session_id := s\<rparr>"
  obtain data where d: "write_wrapper P (?w 0) = Some data" "parse_wrapper P data = Some (?w 0)"
    using assms(1) unfolding proto_roundtrip_def by blast
  obtain bs where b: "write_wrapper P (?w (sl_id l)) = Some bs" "parse_wrapper P bs = Some (?w (sl_id l))"
    using assms(1) unfolding proto_roundtrip_def by blast
  have "classify_packet P data = Data" using d(2) by (simp add: classify_packet_def)
  then have "fst (handle_inbound P now l data) = Forward data"
    using assms(3) by (simp add: handle_inbound_forward)
  moreover have "handle_client_message P (create_client_message l data) sv =
      [Publish (session_subject (sl_room l) (sl_id l)) bs]"
    using d b assms(2) by (simp add: handle_client_message_def create_client_message_def Let_def
        default_packet_wrapper_def)
  moreover have "read_system_event P bs = Some m"
    using b(2) parse_written_meeting [OF assms(1)] by (simp add: read_system_event_def is_system_user_iff)
  ultimately show ?thesis by blast
qed

end
