(* ===== verification/Ordered_Map.thy ===== *)
theory Ordered_Map
  imports VC_Prelude
begin

text \<open>
  Maps with ordered keys. The locale \<open>ordered_map\<close> is the interface the media code relies on:
  lookup, insertion and removal, and an enumeration of the keys in increasing order. It is
  interpreted twice: on sorted association lists, which stand for the standard library's
  \<open>BTreeMap\<close> (used by the jitter buffer), and on \<open>HashMapWithOrderedKeys\<close> of
  \<open>videocall-client/src/decode/hash_map_with_ordered_keys.rs\<close>, a hash map with a separately
  maintained key vector (used for the peers of a call).
\<close>

section \<open>The interface\<close>

locale ordered_map =
  fixes wf :: "'m \<Rightarrow> bool"
    and lookup :: "'m \<Rightarrow> 'k::linorder \<rightharpoonup> 'v"
    and keys :: "'m \<Rightarrow> 'k list"
    and empty :: 'm
    and insert :: "'k \<Rightarrow> 'v \<Rightarrow> 'm \<Rightarrow> 'm"
    and remove :: "'k \<Rightarrow> 'm \<Rightarrow> 'm"
  assumes wf_empty: "wf empty"
    and lookup_empty: "lookup empty = Map.empty"
    and wf_insert: "wf m \<Longrightarrow> wf (insert k v m)"
    and lookup_insert: "wf m \<Longrightarrow> lookup (insert k v m) = (lookup m)(k \<mapsto> v)"
    and wf_remove: "wf m \<Longrightarrow> wf (remove k m)"
    and lookup_remove: "wf m \<Longrightarrow> lookup (remove k m) = (lookup m)(k := None)"
    and keys_sorted: "wf m \<Longrightarrow> sorted_wrt (<) (keys m)"
    and keys_dom: "wf m \<Longrightarrow> set (keys m) = dom (lookup m)"
begin

lemma keys_eq: "wf m \<Longrightarrow> keys m = sorted_list_of_set (dom (lookup m))"
  by (metis keys_dom keys_sorted sorted_list_of_set.idem_if_sorted_distinct
      strict_sorted_iff)

lemma keys_insert: "wf m \<Longrightarrow> keys (insert k v m) = sorted_list_of_set (Set.insert k (set (keys m)))"
  by (metis keys_eq wf_insert lookup_insert dom_fun_upd option.distinct(1) keys_dom)

lemma keys_remove: "wf m \<Longrightarrow> keys (remove k m) = filter (\<lambda>x. x \<noteq> k) (keys m)"
proof -
  assume m: "wf m"
  have "sorted_wrt (<) (filter (\<lambda>x. x \<noteq> k) (keys m))"
    using keys_sorted [OF m] by (rule sorted_wrt_filter)
  moreover have "set (filter (\<lambda>x. x \<noteq> k) (keys m)) = set (keys (remove k m))"
    using m by (auto simp: keys_dom wf_remove lookup_remove split: if_splits)
  ultimately show ?thesis
    using keys_sorted [OF wf_remove [OF m]] by (metis strict_sorted_equal)
qed

lemma length_keys_remove: "wf m \<Longrightarrow> lookup m k \<noteq> None \<Longrightarrow> length (keys (remove k m)) < length (keys m)"
  using keys_remove [of m k] keys_dom [of m] length_filter_less [of k "keys m" "\<lambda>x. x \<noteq> k"]
  by (simp add: domIff)

lemma length_keys_insert:
  assumes "wf m"
  shows "length (keys (insert k v m)) \<le> Suc (length (keys m))"
proof -
  have "length (keys (insert k v m)) = card (Set.insert k (set (keys m)))"
    by (metis assms keys_insert sorted_list_of_set.length_sorted_key_list_of_set)
  also have "\<dots> \<le> Suc (card (set (keys m)))" by (simp add: card_insert_if)
  also have "\<dots> \<le> Suc (length (keys m))" by (simp add: card_length)
  finally show ?thesis .
qed

end

section \<open>Sorted association lists\<close>

fun bt_insert :: "'k::linorder \<Rightarrow> 'v \<Rightarrow> ('k \<times> 'v) list \<Rightarrow> ('k \<times> 'v) list" where
  "bt_insert k v [] = [(k, v)]"
| "bt_insert k v ((k', v') # m) =
     (if k < k' then (k, v) # (k', v') # m
      else if k = k' then (k, v) # m
      else (k', v') # bt_insert k v m)"

definition bt_wf :: "('k::linorder \<times> 'v) list \<Rightarrow> bool" where
  "bt_wf m = sorted_wrt (<) (map fst m)"

lemma set_bt_insert: "fst ` set (bt_insert k v m) = Set.insert k (fst ` set m)"
  by (induction k v m rule: bt_insert.induct) auto

lemma bt_wf_insert: "bt_wf m \<Longrightarrow> bt_wf (bt_insert k v m)"
proof (induction k v m rule: bt_insert.induct)
  case (2 k v k' v' m)
  then show ?case
    using set_bt_insert [of k v m] by (auto simp: bt_wf_def image_iff)
qed (simp add: bt_wf_def)

lemma map_of_bt_insert: "bt_wf m \<Longrightarrow> map_of (bt_insert k v m) = (map_of m)(k \<mapsto> v)"
  by (induction k v m rule: bt_insert.induct) (auto simp: bt_wf_def fun_eq_iff)

lemma bt_wf_filter: "bt_wf m \<Longrightarrow> bt_wf (filter P m)"
  by (induction m) (auto simp: bt_wf_def)

lemma bt_wf_delete: "bt_wf m \<Longrightarrow> bt_wf (AList.delete k m)"
  by (simp add: AList.delete_eq bt_wf_filter)

lemma bt_wf_Nil [simp]: "bt_wf []"
  by (simp add: bt_wf_def)

lemma bt_wf_keys: "bt_wf m \<Longrightarrow> sorted_wrt (<) (map fst m)"
  by (simp add: bt_wf_def)

interpretation bt: ordered_map bt_wf map_of "map fst" "[]" bt_insert AList.delete
  by standard
    (simp_all add: bt_wf_insert map_of_bt_insert bt_wf_delete dom_map_of_conv_image_fst bt_wf_keys)

section \<open>Binary search\<close>

text \<open>The search of \<open>slice::binary_search\<close>: an index of the key, if it occurs.\<close>

function binary_search_in :: "'k::linorder list \<Rightarrow> 'k \<Rightarrow> nat \<Rightarrow> nat \<Rightarrow> nat option" where
  "binary_search_in xs k lo hi =
     (if lo < hi
      then let mid = (lo + hi) div 2 in
           if xs ! mid = k then Some mid
           else if xs ! mid < k then binary_search_in xs k (Suc mid) hi
           else binary_search_in xs k lo mid
      else None)"
  by pat_completeness auto
termination by (relation "measure (\<lambda>(xs, k, lo, hi). hi - lo)") auto

declare binary_search_in.simps [simp del]

definition binary_search :: "'k::linorder list \<Rightarrow> 'k \<Rightarrow> nat option" where
  "binary_search xs k = binary_search_in xs k 0 (length xs)"

lemma binary_search_in_Some:
  "binary_search_in xs k lo hi = Some i \<Longrightarrow> lo \<le> i \<and> i < hi \<and> xs ! i = k"
proof (induction xs k lo hi rule: binary_search_in.induct)
  case (1 xs k lo hi)
  then show ?case
    by (subst (asm) (3) binary_search_in.simps) (fastforce simp: Let_def split: if_splits)
qed

lemma binary_search_in_None:
  assumes "sorted xs" "hi \<le> length xs" "binary_search_in xs k lo hi = None" "lo \<le> i" "i < hi"
  shows "xs ! i \<noteq> k"
  using assms
proof (induction xs k lo hi rule: binary_search_in.induct)
  case (1 xs k lo hi)
  let ?mid = "(lo + hi) div 2"
  have lt: "lo < hi" using 1 by simp
  have mid: "?mid < length xs" using lt "1.prems"(2) by linarith
  have ne: "xs ! ?mid \<noteq> k"
    using "1.prems"(3) lt by (subst (asm) binary_search_in.simps) (auto simp: Let_def)
  from ne consider "xs ! ?mid < k" | "k < xs ! ?mid" by force
  then show ?case
  proof cases
    case 1
    then have "binary_search_in xs k (Suc ?mid) hi = None"
      using "1.prems"(3) lt ne by (subst (asm) binary_search_in.simps) (auto simp: Let_def split: if_splits)
    moreover have "xs ! i \<noteq> k" if "i \<le> ?mid"
      using sorted_nth_mono [OF "1.prems"(1) that] mid 1 by auto
    ultimately show ?thesis
      using "1.IH"(1) [OF lt refl] "1.prems" 1 by (cases "i \<le> ?mid") auto
  next
    case 2
    then have "binary_search_in xs k lo ?mid = None"
      using "1.prems"(3) lt ne by (subst (asm) binary_search_in.simps) (auto simp: Let_def split: if_splits)
    moreover have "xs ! i \<noteq> k" if "?mid \<le> i"
      using sorted_nth_mono [OF "1.prems"(1) that] "1.prems" 2 by auto
    ultimately show ?thesis
      using "1.IH"(2) [OF lt refl] "1.prems" 2 by (cases "?mid \<le> i") auto
  qed
qed

lemma binary_search_Some: "binary_search xs k = Some i \<Longrightarrow> i < length xs \<and> xs ! i = k"
  using binary_search_in_Some by (fastforce simp: binary_search_def)

lemma binary_search_None: "sorted xs \<Longrightarrow> binary_search xs k = None \<Longrightarrow> k \<notin> set xs"
  using binary_search_in_None [of xs "length xs" k 0] by (auto simp: binary_search_def in_set_conv_nth)

section \<open>HashMapWithOrderedKeys\<close>

text \<open>The hash map itself is a partial function. \<open>drain_all\<close> returns the entries in the unspecified
  order of the hash table, so the model returns them as a set of pairs. A predicate of
  \<open>remove_if\<close> takes a mutable reference: it returns its verdict and the value it leaves behind.\<close>

record ('k, 'v) hmok =
  hm_map :: "'k \<rightharpoonup> 'v"
  hm_keys :: "'k list"

definition hmok_new :: "('k, 'v) hmok" where
  "hmok_new = \<lparr>hm_map = Map.empty, hm_keys = []\<rparr>"

definition hmok_get :: "('k, 'v) hmok \<Rightarrow> 'k \<Rightarrow> 'v option" where
  "hmok_get m k = hm_map m k"

definition hmok_contains_key :: "('k, 'v) hmok \<Rightarrow> 'k \<Rightarrow> bool" where
  "hmok_contains_key m k = (hm_map m k \<noteq> None)"

definition hmok_insert :: "'k::linorder \<Rightarrow> 'v \<Rightarrow> ('k, 'v) hmok \<Rightarrow> 'v option \<times> ('k, 'v) hmok" where
  "hmok_insert k v m =
     (let m1 = m\<lparr>hm_map := (hm_map m)(k \<mapsto> v)\<rparr>
      in case hm_map m k of
           Some old \<Rightarrow> (Some old, m1)
         | None \<Rightarrow> (None, m1\<lparr>hm_keys := sort (hm_keys m1 @ [k])\<rparr>))"

definition hmok_remove :: "'k::linorder \<Rightarrow> ('k, 'v) hmok \<Rightarrow> 'v option \<times> ('k, 'v) hmok" where
  "hmok_remove k m =
     (let m1 = (case binary_search (hm_keys m) k of
                  Some index \<Rightarrow> m\<lparr>hm_keys := take index (hm_keys m) @ drop (Suc index) (hm_keys m)\<rparr>
                | None \<Rightarrow> m)
      in (hm_map m1 k, m1\<lparr>hm_map := (hm_map m1)(k := None)\<rparr>))"

definition hmok_drain_all :: "('k, 'v) hmok \<Rightarrow> ('k \<times> 'v) set \<times> ('k, 'v) hmok" where
  "hmok_drain_all m =
     ({(k, v). hm_map m k = Some v}, m\<lparr>hm_map := Map.empty, hm_keys := []\<rparr>)"

definition hmok_ordered_keys :: "('k, 'v) hmok \<Rightarrow> 'k list" where
  "hmok_ordered_keys m = hm_keys m"

fun hmok_scan ::
  "('v \<Rightarrow> bool \<times> 'v) \<Rightarrow> 'k list \<Rightarrow> ('k \<rightharpoonup> 'v) \<Rightarrow> 'k list \<times> ('k \<rightharpoonup> 'v)" where
  "hmok_scan predicate [] mp = ([], mp)"
| "hmok_scan predicate (key # ks) mp =
     (case mp key of
        None \<Rightarrow> hmok_scan predicate ks mp
      | Some v \<Rightarrow>
          (case predicate v of
             (keep, v') \<Rightarrow>
               (case hmok_scan predicate ks (mp(key \<mapsto> v')) of
                  (out, mp') \<Rightarrow> (if keep then out else key # out, mp'))))"

definition hmok_drop :: "'k \<Rightarrow> ('k, 'v) hmok \<Rightarrow> ('k, 'v) hmok" where
  "hmok_drop key m =
     m\<lparr>hm_map := (hm_map m)(key := None), hm_keys := filter (\<lambda>k. k \<noteq> key) (hm_keys m)\<rparr>"

definition hmok_remove_if :: "('v \<Rightarrow> bool \<times> 'v) \<Rightarrow> ('k, 'v) hmok \<Rightarrow> ('k, 'v) hmok" where
  "hmok_remove_if predicate m =
     (case hmok_scan predicate (hm_keys m) (hm_map m) of
        (keys_to_remove, mp) \<Rightarrow>
          foldl (\<lambda>m key. hmok_drop key m) (m\<lparr>hm_map := mp\<rparr>) keys_to_remove)"

definition hmok_remove_if_and_return ::
  "('v \<Rightarrow> bool \<times> 'v) \<Rightarrow> ('k, 'v) hmok \<Rightarrow> ('k \<times> 'v) list \<times> ('k, 'v) hmok" where
  "hmok_remove_if_and_return predicate m =
     (case hmok_scan predicate (hm_keys m) (hm_map m) of
        (keys_to_remove, mp) \<Rightarrow>
          foldl (\<lambda>(removed, m) key.
              ((case hm_map m key of Some v \<Rightarrow> removed @ [(key, v)] | None \<Rightarrow> removed),
               hmok_drop key m))
            ([], m\<lparr>hm_map := mp\<rparr>) keys_to_remove)"

definition hmok_wf :: "('k::linorder, 'v) hmok \<Rightarrow> bool" where
  "hmok_wf m \<longleftrightarrow> sorted_wrt (<) (hm_keys m) \<and> set (hm_keys m) = dom (hm_map m)"

lemma hmok_wf_new: "hmok_wf hmok_new"
  by (simp add: hmok_wf_def hmok_new_def)

lemma hmok_wf_insert:
  assumes "hmok_wf m"
  shows "hmok_wf (snd (hmok_insert k v m)) \<and> hm_map (snd (hmok_insert k v m)) = (hm_map m)(k \<mapsto> v)"
proof (cases "hm_map m k")
  case None
  then have "k \<notin> set (hm_keys m)" using assms by (auto simp: hmok_wf_def)
  moreover have "distinct (hm_keys m)" "set (hm_keys m) = dom (hm_map m)"
    using assms by (auto simp: hmok_wf_def strict_sorted_iff)
  ultimately show ?thesis
    using None by (simp add: hmok_insert_def hmok_wf_def strict_sorted_iff Let_def)
next
  case (Some old)
  then show ?thesis
    using assms by (auto simp: hmok_insert_def hmok_wf_def Let_def)
qed

lemma remove_nth_distinct:
  "distinct xs \<Longrightarrow> i < length xs \<Longrightarrow> take i xs @ drop (Suc i) xs = filter (\<lambda>x. x \<noteq> xs ! i) xs"
proof (induction xs arbitrary: i)
  case (Cons x xs)
  then show ?case
    by (cases i) (auto intro!: filter_True [symmetric])
qed simp

lemma hmok_remove_eq:
  assumes "hmok_wf m"
  shows "hmok_remove k m = (hm_map m k,
     m\<lparr>hm_map := (hm_map m)(k := None), hm_keys := filter (\<lambda>x. x \<noteq> k) (hm_keys m)\<rparr>)"
proof -
  have s: "sorted (hm_keys m)" and d: "distinct (hm_keys m)"
    using assms by (auto simp: hmok_wf_def strict_sorted_iff)
  show ?thesis
  proof (cases "binary_search (hm_keys m) k")
    case None
    then have "filter (\<lambda>x. x \<noteq> k) (hm_keys m) = hm_keys m"
      using binary_search_None [OF s] by (auto simp: filter_id_conv)
    with None show ?thesis by (simp add: hmok_remove_def Let_def)
  next
    case (Some i)
    then show ?thesis
      using binary_search_Some [OF Some] remove_nth_distinct [OF d, of i]
      by (simp add: hmok_remove_def Let_def)
  qed
qed

lemma hmok_wf_restrict:
  assumes "hmok_wf m"
  shows "hmok_wf (m\<lparr>hm_map := (hm_map m)(k := None), hm_keys := filter (\<lambda>x. x \<noteq> k) (hm_keys m)\<rparr>)"
  using assms by (auto simp: hmok_wf_def sorted_wrt_filter)

interpretation hmok: ordered_map hmok_wf hm_map hm_keys hmok_new
  "\<lambda>k v m. snd (hmok_insert k v m)" "\<lambda>k m. snd (hmok_remove k m)"
  by standard
    (simp_all add: hmok_wf_new hmok_wf_insert hmok_remove_eq hmok_wf_restrict,
     simp_all add: hmok_new_def hmok_wf_def)

lemma hmok_scan_spec:
  "distinct ks \<Longrightarrow> set ks \<subseteq> dom mp \<Longrightarrow>
     hmok_scan predicate ks mp =
       (filter (\<lambda>k. \<not> fst (predicate (the (mp k)))) ks,
        \<lambda>k. if k \<in> set ks then Some (snd (predicate (the (mp k)))) else mp k)"
proof (induction ks arbitrary: mp)
  case (Cons k ks)
  obtain v where v: "mp k = Some v" using Cons.prems(2) by auto
  have ks: "\<And>k'. k' \<in> set ks \<Longrightarrow> k' \<noteq> k" using Cons.prems(1) by auto
  have "filter (\<lambda>k'. \<not> fst (predicate (the ((mp(k \<mapsto> v')) k')))) ks =
      filter (\<lambda>k'. \<not> fst (predicate (the (mp k')))) ks" for v'
    using ks by (intro filter_cong) auto
  moreover have "hmok_scan predicate ks (mp(k \<mapsto> v')) =
      (filter (\<lambda>k'. \<not> fst (predicate (the ((mp(k \<mapsto> v')) k')))) ks,
       \<lambda>k'. if k' \<in> set ks then Some (snd (predicate (the ((mp(k \<mapsto> v')) k')))) else (mp(k \<mapsto> v')) k')" for v'
    using Cons.prems by (intro Cons.IH) auto
  ultimately show ?case
    using v ks by (auto simp: case_prod_beta fun_eq_iff)
qed (simp add: fun_eq_iff)

lemma hmok_drop_simps [simp]:
  "hm_map (hmok_drop k m) = (hm_map m)(k := None)"
  "hm_keys (hmok_drop k m) = filter (\<lambda>x. x \<noteq> k) (hm_keys m)"
  by (simp_all add: hmok_drop_def)

lemma hmok_drop_keys:
  "hm_map (foldl (\<lambda>m key. hmok_drop key m) m ks) k = (if k \<in> set ks then None else hm_map m k)"
  "hm_keys (foldl (\<lambda>m key. hmok_drop key m) m ks) = filter (\<lambda>k. k \<notin> set ks) (hm_keys m)"
  by (induction ks arbitrary: m) (auto intro: filter_cong)

lemma hmok_drop_keys_return:
  "distinct ks \<Longrightarrow> set ks \<subseteq> dom (hm_map m) \<Longrightarrow>
   foldl (\<lambda>(removed, m) key.
       ((case hm_map m key of Some v \<Rightarrow> removed @ [(key, v)] | None \<Rightarrow> removed),
        hmok_drop key m)) (acc, m) ks =
   (acc @ map (\<lambda>k. (k, the (hm_map m k))) ks, foldl (\<lambda>m key. hmok_drop key m) m ks)"
proof (induction ks arbitrary: m acc)
  case (Cons k ks)
  obtain v where v: "hm_map m k = Some v" using Cons.prems(2) by auto
  have "map (\<lambda>k'. (k', the (hm_map (hmok_drop k m) k'))) ks = map (\<lambda>k'. (k', the (hm_map m k'))) ks"
    using Cons.prems(1) by auto
  moreover have sub: "set ks \<subseteq> dom (hm_map (hmok_drop k m))" using Cons.prems by auto
  ultimately show ?case
    using Cons.IH [OF _ sub, of "acc @ [(k, v)]"] Cons.prems(1) v by simp
qed simp

section \<open>Properties\<close>


datatype ('k, 'v) hmok_op = HInsert 'k 'v | HRemove 'k | HRemoveIf "'v \<Rightarrow> bool \<times> 'v" | HDrain

fun hmok_apply :: "('k::linorder, 'v) hmok \<Rightarrow> ('k, 'v) hmok_op \<Rightarrow> ('k, 'v) hmok" where
  "hmok_apply m (HInsert k v) = snd (hmok_insert k v m)"
| "hmok_apply m (HRemove k) = snd (hmok_remove k m)"
| "hmok_apply m (HRemoveIf p) = hmok_remove_if p m"
| "hmok_apply m HDrain = snd (hmok_drain_all m)"

fun map_apply :: "('k \<rightharpoonup> 'v) \<Rightarrow> ('k, 'v) hmok_op \<Rightarrow> ('k \<rightharpoonup> 'v)" where
  "map_apply f (HInsert k v) = f(k \<mapsto> v)"
| "map_apply f (HRemove k) = f(k := None)"
| "map_apply f (HRemoveIf p) =
     (\<lambda>k. case f k of Some v \<Rightarrow> if fst (p v) then Some (snd (p v)) else None | None \<Rightarrow> None)"
| "map_apply f HDrain = Map.empty"

lemma hmok_remove_if_eq:
  assumes "hmok_wf m"
  shows "hm_map (hmok_remove_if p m) = map_apply (hm_map m) (HRemoveIf p)"
    and "hm_keys (hmok_remove_if p m) = filter (\<lambda>k. fst (p (the (hm_map m k)))) (hm_keys m)"
proof -
  have d: "distinct (hm_keys m)" "set (hm_keys m) \<subseteq> dom (hm_map m)"
    and k: "\<And>k. k \<in> set (hm_keys m) \<longleftrightarrow> hm_map m k \<noteq> None"
    using assms by (auto simp: hmok_wf_def strict_sorted_iff)
  show "hm_map (hmok_remove_if p m) = map_apply (hm_map m) (HRemoveIf p)"
    by (rule ext) (simp add: hmok_remove_if_def hmok_scan_spec [OF d] hmok_drop_keys k split: option.split)
  show "hm_keys (hmok_remove_if p m) = filter (\<lambda>k. fst (p (the (hm_map m k)))) (hm_keys m)"
    by (simp add: hmok_remove_if_def hmok_scan_spec [OF d] hmok_drop_keys cong: filter_cong)
qed

lemma hmok_apply_refines:
  assumes "hmok_wf m"
  shows "hmok_wf (hmok_apply m oper) \<and> hm_map (hmok_apply m oper) = map_apply (hm_map m) oper"
proof (cases oper)
  case (HRemoveIf p)
  have "sorted_wrt (<) (filter (\<lambda>k. fst (p (the (hm_map m k)))) (hm_keys m))"
    using assms by (simp add: hmok_wf_def sorted_wrt_filter)
  moreover have "set (filter (\<lambda>k. fst (p (the (hm_map m k)))) (hm_keys m)) =
      dom (map_apply (hm_map m) (HRemoveIf p))"
    using assms by (auto simp: hmok_wf_def domIff split: option.splits if_splits)
  ultimately show ?thesis
    using HRemoveIf hmok_remove_if_eq [OF assms, of p] by (simp add: hmok_wf_def)
next
  case HDrain
  then show ?thesis by (simp add: hmok_drain_all_def hmok_wf_def)
qed (use hmok_wf_insert [OF assms] hmok_wf_restrict [OF assms] in
    \<open>simp_all add: hmok_remove_eq [OF assms]\<close>)

text \<open>The key vector always matches the map. After any sequence of insertions and removals the
  keys are strictly increasing and are exactly the keys of the map, and lookups see the last
  write; the binary search of \<open>remove\<close> never misses a key.\<close>

theorem hmok_refines_map:
  "hmok_wf (foldl hmok_apply hmok_new ops) \<and>
   hm_map (foldl hmok_apply hmok_new ops) = foldl map_apply Map.empty ops \<and>
   hmok_ordered_keys (foldl hmok_apply hmok_new ops) =
     sorted_list_of_set (dom (foldl map_apply Map.empty ops))"
proof -
  have "hmok_wf (foldl hmok_apply m ops) \<and>
      hm_map (foldl hmok_apply m ops) = foldl map_apply (hm_map m) ops"
    if "hmok_wf m" for m :: "('a, 'b) hmok"
    using that
  proof (induction ops arbitrary: m)
    case (Cons x xs)
    then show ?case using hmok_apply_refines [of m x] by simp
  qed simp
  from this [OF hmok_wf_new] have "hmok_wf (foldl hmok_apply hmok_new ops)"
    "hm_map (foldl hmok_apply hmok_new ops) = foldl map_apply Map.empty ops"
    by (simp_all add: hmok_new_def)
  then show ?thesis
    using hmok.keys_eq [of "foldl hmok_apply hmok_new ops"] by (simp add: hmok_ordered_keys_def)
qed

text \<open>Bulk removal returns what it removes. \<open>remove_if_and_return\<close> leaves the same map as
  \<open>remove_if\<close> and returns exactly the rejected entries, in key order, each with the value the
  predicate left behind.\<close>

theorem hmok_remove_if_and_return_spec:
  assumes "hmok_wf m"
  shows "snd (hmok_remove_if_and_return p m) = hmok_remove_if p m \<and>
    fst (hmok_remove_if_and_return p m) =
      map (\<lambda>k. (k, snd (p (the (hm_map m k)))))
        (filter (\<lambda>k. \<not> fst (p (the (hm_map m k)))) (hm_keys m))"
proof -
  have d: "distinct (hm_keys m)" "set (hm_keys m) \<subseteq> dom (hm_map m)"
    using assms by (auto simp: hmok_wf_def strict_sorted_iff)
  let ?out = "filter (\<lambda>k. \<not> fst (p (the (hm_map m k)))) (hm_keys m)"
  let ?mp = "\<lambda>k. if k \<in> set (hm_keys m) then Some (snd (p (the (hm_map m k)))) else hm_map m k"
  have "distinct ?out" "set ?out \<subseteq> dom (hm_map (m\<lparr>hm_map := ?mp\<rparr>))" using d by auto
  from hmok_drop_keys_return [OF this] show ?thesis
    by (simp add: hmok_remove_if_and_return_def hmok_remove_if_def hmok_scan_spec [OF d] hmok_drop_keys)
qed

theorem hmok_remove_if_and_return_spec_witness:
  "fst (hmok_remove_if_and_return (\<lambda>v. (v < 2, Suc v))
     (snd (hmok_insert (3 :: nat) (5 :: nat) (snd (hmok_insert 1 0 hmok_new))))) = [(3, 6)]"
proof -
  let ?m = "snd (hmok_insert (3 :: nat) (5 :: nat) (snd (hmok_insert 1 0 hmok_new)))"
  have "hmok_wf ?m" by (intro hmok.wf_insert hmok.wf_empty)
  from hmok_remove_if_and_return_spec [OF this, of "\<lambda>v. (v < 2, Suc v)"] show ?thesis
    by (simp add: hmok_insert_def hmok_new_def Let_def)
qed

end
