(* ===== verification/Video_Jitter_Buffer.thy ===== *)
theory Video_Jitter_Buffer
  imports Complex_Main Ordered_Map
begin

text \<open>
  The video jitter buffer of \<open>videocall-codecs\<close>: \<open>frame.rs\<close>, \<open>jitter_estimator.rs\<close> and
  \<open>jitter_buffer.rs\<close>. It reorders incoming frames, adapts a playout delay to the measured
  jitter and hands frames to the decoder.

  \<^item> The \<open>BTreeMap\<close> of buffered frames is a sorted association list.
  \<^item> Sequence numbers are \<open>u64\<close> and arrival times \<open>u128\<close> words with wrap-around; \<open>f64\<close> quantities
    (jitter, delays) are the real numbers they denote, without rounding.
  \<^item> The decoder is a trait object of the caller. Every operation returns what it does to it, and
    the flushes, as a list of \<open>jb_event\<close> values in order.
\<close>

section \<open>Frames\<close>

datatype frame_type = KeyFrame | DeltaFrame

datatype frame_codec = Unspecified | Vp8 | Vp9Profile0Level10Bit8

definition as_webcodecs_str :: "frame_codec \<Rightarrow> string option" where
  "as_webcodecs_str c =
     (case c of Unspecified \<Rightarrow> None | Vp8 \<Rightarrow> Some ''vp8''
      | Vp9Profile0Level10Bit8 \<Rightarrow> Some ''vp09.00.10.08'')"

definition codec_is_known :: "frame_codec \<Rightarrow> bool" where
  "codec_is_known c = (c \<noteq> Unspecified)"

record video_frame =
  vf_sequence_number :: u64
  vf_frame_type :: frame_type
  vf_codec :: frame_codec
  vf_data :: bytes
  vf_timestamp :: real

record frame_buffer =
  fb_frame :: video_frame
  fb_arrival_time_ms :: u128

definition frame_buffer_new :: "video_frame \<Rightarrow> u128 \<Rightarrow> frame_buffer" where
  "frame_buffer_new frame arrival_time_ms =
     \<lparr>fb_frame = frame, fb_arrival_time_ms = arrival_time_ms\<rparr>"

definition sequence_number :: "frame_buffer \<Rightarrow> u64" where
  "sequence_number fb = vf_sequence_number (fb_frame fb)"

definition is_keyframe :: "frame_buffer \<Rightarrow> bool" where
  "is_keyframe fb = (vf_frame_type (fb_frame fb) = KeyFrame)"

section \<open>Jitter estimation\<close>

definition FRAME_PERIOD_MS :: real where
  "FRAME_PERIOD_MS = 1000 / 30"

record jitter_estimator =
  je_jitter :: real
  je_last_arrival_time_ms :: u128
  je_last_sequence_number :: u64
  je_is_first_frame :: bool

definition jitter_estimator_new :: jitter_estimator where
  "jitter_estimator_new =
     \<lparr>je_jitter = 0, je_last_arrival_time_ms = 0, je_last_sequence_number = 0,
      je_is_first_frame = True\<rparr>"

definition update_estimate :: "u64 \<Rightarrow> u128 \<Rightarrow> jitter_estimator \<Rightarrow> jitter_estimator" where
  "update_estimate seq arrival_time_ms e =
     (if je_is_first_frame e
      then e\<lparr>je_last_arrival_time_ms := arrival_time_ms, je_last_sequence_number := seq,
             je_is_first_frame := False\<rparr>
      else if seq > je_last_sequence_number e
      then let arrival_diff = arrival_time_ms - je_last_arrival_time_ms e;
               seq_diff = seq - je_last_sequence_number e;
               timestamp_diff = real (unat seq_diff) * FRAME_PERIOD_MS;
               transit_diff = real (unat arrival_diff) - timestamp_diff
           in e\<lparr>je_jitter := je_jitter e + (\<bar>transit_diff\<bar> - je_jitter e) / 16,
                je_last_arrival_time_ms := arrival_time_ms,
                je_last_sequence_number := seq\<rparr>
      else e)"

definition get_jitter_estimate_ms :: "jitter_estimator \<Rightarrow> real" where
  "get_jitter_estimate_ms e = je_jitter e"

section \<open>The buffer\<close>

definition MIN_PLAYOUT_DELAY_MS :: real where "MIN_PLAYOUT_DELAY_MS = 10"

definition MAX_PLAYOUT_DELAY_MS :: real where "MAX_PLAYOUT_DELAY_MS = 500"

definition JITTER_MULTIPLIER :: real where "JITTER_MULTIPLIER = 3"

definition DELAY_SMOOTHING_FACTOR :: real where "DELAY_SMOOTHING_FACTOR = 99 / 100"

definition MAX_BUFFER_SIZE :: nat where "MAX_BUFFER_SIZE = 200"

definition MAX_CONSECUTIVE_OLD_FRAMES :: u64 where "MAX_CONSECUTIVE_OLD_FRAMES = 300"

definition STREAM_RESTART_BACKTRACK_THRESHOLD :: u64 where
  "STREAM_RESTART_BACKTRACK_THRESHOLD = 30"

record jitter_buffer =
  jb_buffered_frames :: "(u64 \<times> frame_buffer) list"
  jb_last_decoded_sequence_number :: "u64 option"
  jb_jitter_estimator :: jitter_estimator
  jb_target_playout_delay_ms :: real
  jb_dropped_frames_count :: u64
  jb_num_consecutive_old_frames :: u64

datatype jb_event = Decode frame_buffer | Flushed

definition jitter_buffer_new :: jitter_buffer where
  "jitter_buffer_new =
     \<lparr>jb_buffered_frames = [], jb_last_decoded_sequence_number = None,
      jb_jitter_estimator = jitter_estimator_new,
      jb_target_playout_delay_ms = MIN_PLAYOUT_DELAY_MS,
      jb_dropped_frames_count = 0, jb_num_consecutive_old_frames = 0\<rparr>"

definition buffered_frames_len :: "jitter_buffer \<Rightarrow> nat" where
  "buffered_frames_len jb = length (jb_buffered_frames jb)"

definition clamp :: "real \<Rightarrow> real \<Rightarrow> real \<Rightarrow> real" where
  "clamp x lo hi = (if x < lo then lo else if x > hi then hi else x)"

definition update_target_playout_delay :: "jitter_buffer \<Rightarrow> jitter_buffer" where
  "update_target_playout_delay jb =
     (let jitter_estimate = get_jitter_estimate_ms (jb_jitter_estimator jb);
          raw_target = jitter_estimate * JITTER_MULTIPLIER;
          clamped_target = clamp raw_target MIN_PLAYOUT_DELAY_MS MAX_PLAYOUT_DELAY_MS
      in jb\<lparr>jb_target_playout_delay_ms :=
              jb_target_playout_delay_ms jb * DELAY_SMOOTHING_FACTOR +
              clamped_target * (1 - DELAY_SMOOTHING_FACTOR)\<rparr>)"

definition drop_frames_before :: "u64 \<Rightarrow> jitter_buffer \<Rightarrow> jitter_buffer" where
  "drop_frames_before seq jb =
     (let keys_to_drop = filter (\<lambda>k. k < seq) (map fst (jb_buffered_frames jb))
      in jb\<lparr>jb_dropped_frames_count := jb_dropped_frames_count jb + of_nat (length keys_to_drop),
            jb_buffered_frames :=
              fold AList.delete keys_to_drop (jb_buffered_frames jb)\<rparr>)"

definition drop_all_frames :: "jitter_buffer \<Rightarrow> jitter_buffer" where
  "drop_all_frames jb =
     jb\<lparr>jb_buffered_frames := [],
        jb_dropped_frames_count :=
          jb_dropped_frames_count jb + of_nat (length (jb_buffered_frames jb))\<rparr>"

definition flush :: "jitter_buffer \<Rightarrow> jitter_buffer \<times> jb_event list" where
  "flush jb =
     ((drop_all_frames jb)\<lparr>jb_last_decoded_sequence_number := None,
        jb_num_consecutive_old_frames := 0,
        jb_jitter_estimator := jitter_estimator_new\<rparr>, [Flushed])"

definition is_waiting_for_keyframe :: "jitter_buffer \<Rightarrow> bool" where
  "is_waiting_for_keyframe jb = (jb_last_decoded_sequence_number jb = None)"

definition next_decodable_key :: "jitter_buffer \<Rightarrow> u64 option" where
  "next_decodable_key jb =
     (case jb_last_decoded_sequence_number jb of
        Some last_seq \<Rightarrow>
          let next_continuous_seq = last_seq + 1 in
          if map_of (jb_buffered_frames jb) next_continuous_seq \<noteq> None
          then Some next_continuous_seq
          else map_option fst
                 (find (\<lambda>(s, f). s > next_continuous_seq \<and> is_keyframe f) (jb_buffered_frames jb))
      | None \<Rightarrow> map_option fst (find (\<lambda>(_, f). is_keyframe f) (jb_buffered_frames jb)))"

text \<open>One pass of the polling loop: the frame it moves to the decoder, if any.\<close>

definition move_frame :: "u128 \<Rightarrow> jitter_buffer \<Rightarrow> (frame_buffer \<times> jitter_buffer) option" where
  "move_frame current_time_ms jb =
     (case next_decodable_key jb of
        None \<Rightarrow> None
      | Some key \<Rightarrow>
          (case map_of (jb_buffered_frames jb) key of
             None \<Rightarrow> None
           | Some frame \<Rightarrow>
               let time_in_buffer_ms = real (unat (current_time_ms - fb_arrival_time_ms frame));
                   is_ready = time_in_buffer_ms \<ge> jb_target_playout_delay_ms jb
               in if \<not> is_ready then None
                  else
                    let jb1 = jb\<lparr>jb_buffered_frames := AList.delete key (jb_buffered_frames jb)\<rparr>;
                        is_first_frame = (jb_last_decoded_sequence_number jb1 = None);
                        is_gap_recovery =
                          (case jb_last_decoded_sequence_number jb1 of
                             Some last_seq \<Rightarrow> key > last_seq + 1 | None \<Rightarrow> False);
                        jb2 = (if is_keyframe frame \<and> (is_first_frame \<or> is_gap_recovery)
                               then drop_frames_before key jb1 else jb1)
                    in Some (frame, jb2\<lparr>jb_last_decoded_sequence_number := Some key\<rparr>)))"

lemma map_of_length_delete: "map_of m k \<noteq> None \<Longrightarrow> length (AList.delete k m) < length m"
  by (induction m) (auto split: if_splits intro: le_imp_less_Suc length_delete_le)

lemma length_fold_delete: "length (fold AList.delete ks m) \<le> length m"
  by (induction ks arbitrary: m) (auto intro: order_trans [OF _ length_delete_le])

lemma length_drop_frames_before:
  "length (jb_buffered_frames (drop_frames_before seq jb)) \<le> length (jb_buffered_frames jb)"
  by (simp add: drop_frames_before_def Let_def length_fold_delete)

lemma move_frame_shrinks:
  assumes "move_frame now jb = Some (f, jb')"
  shows "length (jb_buffered_frames jb') < length (jb_buffered_frames jb)"
proof -
  from assms obtain key where key: "map_of (jb_buffered_frames jb) key = Some f"
    and "jb_buffered_frames jb' = AList.delete key (jb_buffered_frames jb) \<or>
      jb_buffered_frames jb' = jb_buffered_frames (drop_frames_before key
        (jb\<lparr>jb_buffered_frames := AList.delete key (jb_buffered_frames jb)\<rparr>))"
    by (auto simp: move_frame_def Let_def split: option.splits if_splits)
  then have "length (jb_buffered_frames jb') \<le> length (AList.delete key (jb_buffered_frames jb))"
    using length_drop_frames_before
      [of key "jb\<lparr>jb_buffered_frames := AList.delete key (jb_buffered_frames jb)\<rparr>"] by auto
  also have "\<dots> < length (jb_buffered_frames jb)"
    by (rule map_of_length_delete) (simp add: key)
  finally show ?thesis .
qed

function find_and_move_continuous_frames ::
  "u128 \<Rightarrow> jitter_buffer \<Rightarrow> jitter_buffer \<times> jb_event list" where
  "find_and_move_continuous_frames now jb =
     (case move_frame now jb of
        None \<Rightarrow> (jb, [])
      | Some (frame, jb') \<Rightarrow>
          (case find_and_move_continuous_frames now jb' of
             (jb'', evs) \<Rightarrow> (jb'', Decode frame # evs)))"
  by pat_completeness auto
termination
  by (relation "measure (\<lambda>(now, jb). length (jb_buffered_frames jb))") (auto dest: move_frame_shrinks)

declare find_and_move_continuous_frames.simps [simp del]

definition insert_frame ::
  "video_frame \<Rightarrow> u128 \<Rightarrow> jitter_buffer \<Rightarrow> jitter_buffer \<times> jb_event list" where
  "insert_frame frame arrival_time_ms jb =
     (let seq = vf_sequence_number frame;
          store = (\<lambda>jb.
            let jb1 = jb\<lparr>jb_jitter_estimator :=
                          update_estimate seq arrival_time_ms (jb_jitter_estimator jb)\<rparr>;
                jb2 = update_target_playout_delay jb1;
                fb = frame_buffer_new frame arrival_time_ms;
                jb3 = jb2\<lparr>jb_buffered_frames := bt_insert seq fb (jb_buffered_frames jb2)\<rparr>
            in find_and_move_continuous_frames arrival_time_ms jb3);
          accept = (\<lambda>jb.
            let jb1 = jb\<lparr>jb_num_consecutive_old_frames := 0\<rparr>
            in if length (jb_buffered_frames jb1) \<ge> MAX_BUFFER_SIZE
               then (if vf_frame_type frame = KeyFrame then store (drop_all_frames jb1)
                     else (jb1, []))
               else store jb1)
      in case jb_last_decoded_sequence_number jb of
           Some last_decoded \<Rightarrow>
             if seq \<le> last_decoded
             then (if vf_frame_type frame = KeyFrame \<and>
                      last_decoded - seq > STREAM_RESTART_BACKTRACK_THRESHOLD
                   then flush jb
                   else let jb1 = jb\<lparr>jb_num_consecutive_old_frames :=
                                      jb_num_consecutive_old_frames jb + 1\<rparr>
                        in if jb_num_consecutive_old_frames jb1 > MAX_CONSECUTIVE_OLD_FRAMES
                           then flush jb1 else (jb1, []))
             else accept jb
         | None \<Rightarrow> accept jb)"

section \<open>Invariant\<close>

definition jb_inv :: "jitter_buffer \<Rightarrow> bool" where
  "jb_inv jb \<longleftrightarrow>
     bt_wf (jb_buffered_frames jb) \<and>
     (\<forall>(k, f) \<in> set (jb_buffered_frames jb). sequence_number f = k) \<and>
     (\<forall>l. jb_last_decoded_sequence_number jb = Some l \<longrightarrow>
        (\<forall>k \<in> fst ` set (jb_buffered_frames jb). l < k)) \<and>
     length (jb_buffered_frames jb) \<le> MAX_BUFFER_SIZE \<and>
     MIN_PLAYOUT_DELAY_MS \<le> jb_target_playout_delay_ms jb \<and>
     jb_target_playout_delay_ms jb \<le> MAX_PLAYOUT_DELAY_MS \<and>
     0 \<le> je_jitter (jb_jitter_estimator jb) \<and>
     jb_num_consecutive_old_frames jb \<le> MAX_CONSECUTIVE_OLD_FRAMES"

text \<open>What a decoder may be fed: between flushes the sequence numbers increase strictly, the first
  frame is a keyframe, and a delta frame comes only right after its predecessor.\<close>

fun decodable_stream :: "u64 option \<Rightarrow> jb_event list \<Rightarrow> bool" where
  "decodable_stream last_seq [] = True"
| "decodable_stream last_seq (Flushed # es) = decodable_stream None es"
| "decodable_stream last_seq (Decode f # es) =
     ((case last_seq of
         None \<Rightarrow> is_keyframe f
       | Some l \<Rightarrow> l < sequence_number f \<and> (sequence_number f = l + 1 \<or> is_keyframe f)) \<and>
      decodable_stream (Some (sequence_number f)) es)"

fun stream_end :: "u64 option \<Rightarrow> jb_event list \<Rightarrow> u64 option" where
  "stream_end last_seq [] = last_seq"
| "stream_end last_seq (Flushed # es) = stream_end None es"
| "stream_end last_seq (Decode f # es) = stream_end (Some (sequence_number f)) es"

lemma decodable_stream_append:
  "decodable_stream l (xs @ ys) \<longleftrightarrow> decodable_stream l xs \<and> decodable_stream (stream_end l xs) ys"
  by (induction l xs rule: decodable_stream.induct) auto

lemma stream_end_append: "stream_end l (xs @ ys) = stream_end (stream_end l xs) ys"
  by (induction l xs rule: stream_end.induct) auto

lemmas jb_consts =
  MIN_PLAYOUT_DELAY_MS_def MAX_PLAYOUT_DELAY_MS_def JITTER_MULTIPLIER_def DELAY_SMOOTHING_FACTOR_def
  MAX_BUFFER_SIZE_def MAX_CONSECUTIVE_OLD_FRAMES_def STREAM_RESTART_BACKTRACK_THRESHOLD_def

lemma set_fold_delete: "set (fold AList.delete ks m) = {(k, v) \<in> set m. k \<notin> set ks}"
  by (induction ks arbitrary: m) (auto simp: AList.delete_eq)

lemma bt_wf_fold_delete: "bt_wf m \<Longrightarrow> bt_wf (fold AList.delete ks m)"
  by (induction ks arbitrary: m) (auto intro: bt_wf_delete)

lemma drop_frames_before_frames:
  "set (jb_buffered_frames (drop_frames_before seq jb)) =
     {(k, f) \<in> set (jb_buffered_frames jb). seq \<le> k}"
  by (force simp: drop_frames_before_def Let_def set_fold_delete)

lemma drop_frames_before_other [simp]:
  "jb_last_decoded_sequence_number (drop_frames_before seq jb) = jb_last_decoded_sequence_number jb"
  "jb_jitter_estimator (drop_frames_before seq jb) = jb_jitter_estimator jb"
  "jb_target_playout_delay_ms (drop_frames_before seq jb) = jb_target_playout_delay_ms jb"
  "jb_num_consecutive_old_frames (drop_frames_before seq jb) = jb_num_consecutive_old_frames jb"
  by (simp_all add: drop_frames_before_def Let_def)

lemma bt_wf_drop_frames_before:
  "bt_wf (jb_buffered_frames jb) \<Longrightarrow> bt_wf (jb_buffered_frames (drop_frames_before seq jb))"
  by (simp add: drop_frames_before_def Let_def bt_wf_fold_delete)

lemma update_estimate_nonneg: "0 \<le> je_jitter e \<Longrightarrow> 0 \<le> je_jitter (update_estimate seq t e)"
proof -
  assume "0 \<le> je_jitter e"
  then have "0 \<le> je_jitter e + (\<bar>x\<bar> - je_jitter e) / 16" for x
    by (simp add: field_simps)
  then show ?thesis using \<open>0 \<le> je_jitter e\<close>
    by (simp add: update_estimate_def Let_def)
qed

lemma target_delay_bounds:
  assumes "MIN_PLAYOUT_DELAY_MS \<le> jb_target_playout_delay_ms jb"
    and "jb_target_playout_delay_ms jb \<le> MAX_PLAYOUT_DELAY_MS"
  shows "MIN_PLAYOUT_DELAY_MS \<le> jb_target_playout_delay_ms (update_target_playout_delay jb) \<and>
    jb_target_playout_delay_ms (update_target_playout_delay jb) \<le> MAX_PLAYOUT_DELAY_MS"
proof -
  define c where "c = clamp (get_jitter_estimate_ms (jb_jitter_estimator jb) * JITTER_MULTIPLIER)
      MIN_PLAYOUT_DELAY_MS MAX_PLAYOUT_DELAY_MS"
  have "10 \<le> c" "c \<le> 500" by (auto simp: c_def clamp_def jb_consts)
  moreover have "jb_target_playout_delay_ms (update_target_playout_delay jb) =
      jb_target_playout_delay_ms jb * (99 / 100) + c / 100"
    by (simp add: update_target_playout_delay_def Let_def c_def jb_consts)
  ultimately show ?thesis
    using assms by (simp add: jb_consts)
qed

lemma next_key_cases:
  assumes inv: "jb_inv jb" and key: "next_decodable_key jb = Some key"
    and f: "map_of (jb_buffered_frames jb) key = Some f"
  shows "sequence_number f = key \<and>
    (case jb_last_decoded_sequence_number jb of
       None \<Rightarrow> is_keyframe f
     | Some l \<Rightarrow> l < key \<and> (key = l + 1 \<or> l + 1 < key \<and> is_keyframe f))"
proof -
  have mem: "(key, f) \<in> set (jb_buffered_frames jb)" using f by (rule map_of_SomeD)
  have dist: "distinct (map fst (jb_buffered_frames jb))"
    using inv by (simp add: jb_inv_def bt_wf_def strict_sorted_iff)
  have kf: "is_keyframe f" if "(key, f') \<in> set (jb_buffered_frames jb)" "is_keyframe f'" for f'
    using that f map_of_is_SomeI [OF dist that(1)] by simp
  have "sequence_number f = key" using inv mem by (auto simp: jb_inv_def)
  moreover have "l < key" if "jb_last_decoded_sequence_number jb = Some l" for l
    using inv mem that by (force simp: jb_inv_def)
  ultimately show ?thesis
    using key kf by (auto simp: next_decodable_key_def Let_def split: option.splits if_splits
        dest!: find_SomeD)
qed

lemma move_frame_inv:
  assumes inv: "jb_inv jb" and mv: "move_frame now jb = Some (f, jb')"
  shows "jb_inv jb' \<and> jb_last_decoded_sequence_number jb' = Some (sequence_number f) \<and>
    decodable_stream (jb_last_decoded_sequence_number jb) [Decode f]"
proof -
  from mv obtain key where key: "next_decodable_key jb = Some key"
    "map_of (jb_buffered_frames jb) key = Some f"
    by (auto simp: move_frame_def Let_def split: option.splits if_splits)
  note c = next_key_cases [OF inv key]
  let ?jb1 = "jb\<lparr>jb_buffered_frames := AList.delete key (jb_buffered_frames jb)\<rparr>"
  let ?drop = "is_keyframe f \<and> (jb_last_decoded_sequence_number jb = None \<or>
      (\<exists>l. jb_last_decoded_sequence_number jb = Some l \<and> key > l + 1))"
  let ?jb2 = "if ?drop then drop_frames_before key ?jb1 else ?jb1"
  have jb': "jb' = ?jb2\<lparr>jb_last_decoded_sequence_number := Some key\<rparr>"
    using mv key by (auto simp: move_frame_def Let_def split: option.splits if_splits)
  have sub: "set (jb_buffered_frames ?jb2) \<subseteq> set (jb_buffered_frames jb)"
    by (auto simp: drop_frames_before_frames AList.delete_eq)
  have later: "key < k" if k: "k \<in> fst ` set (jb_buffered_frames ?jb2)" for k
  proof (cases ?drop)
    case True
    with k show ?thesis by (auto simp: drop_frames_before_frames AList.delete_eq)
  next
    case False
    with c obtain l where l: "jb_last_decoded_sequence_number jb = Some l" "key = l + 1"
      by (auto split: option.splits)
    have "l < k" "k \<noteq> key"
      using inv k False l(1) by (auto simp: jb_inv_def AList.delete_eq split: if_splits)
    then show ?thesis using l(2) inc_le [of l k] by simp
  qed
  have "length (jb_buffered_frames jb') \<le> MAX_BUFFER_SIZE"
    using move_frame_shrinks [OF mv] inv by (simp add: jb_inv_def)
  moreover have "bt_wf (jb_buffered_frames ?jb2)"
    using inv by (auto simp: jb_inv_def bt_wf_delete intro!: bt_wf_drop_frames_before)
  moreover have "\<forall>(k, f) \<in> set (jb_buffered_frames ?jb2). sequence_number f = k"
    using inv sub by (auto simp: jb_inv_def)
  ultimately have "jb_inv jb'"
    using inv later unfolding jb' jb_inv_def by simp
  then show ?thesis
    using c jb' by (auto split: option.splits)
qed

lemma find_and_move_inv:
  assumes "jb_inv jb" and "find_and_move_continuous_frames now jb = (jb', evs)"
  shows "jb_inv jb' \<and> decodable_stream (jb_last_decoded_sequence_number jb) evs \<and>
    stream_end (jb_last_decoded_sequence_number jb) evs = jb_last_decoded_sequence_number jb' \<and>
    move_frame now jb' = None"
  using assms
proof (induction now jb arbitrary: evs rule: find_and_move_continuous_frames.induct)
  case (1 now jb)
  show ?case
  proof (cases "move_frame now jb")
    case None
    with 1 show ?thesis by (simp add: find_and_move_continuous_frames.simps [of now jb])
  next
    case (Some a)
    then obtain f jb1 where mv: "move_frame now jb = Some (f, jb1)" by (cases a) auto
    obtain evs1 where rest: "find_and_move_continuous_frames now jb1 = (jb', evs1)"
      and evs: "evs = Decode f # evs1"
      using "1.prems"(2) mv
      by (auto simp: find_and_move_continuous_frames.simps [of now jb] split: prod.splits)
    note step = move_frame_inv [OF "1.prems"(1) mv]
    from "1.IH" [OF mv refl _ rest] step have "jb_inv jb' \<and>
        decodable_stream (jb_last_decoded_sequence_number jb1) evs1 \<and>
        stream_end (jb_last_decoded_sequence_number jb1) evs1 = jb_last_decoded_sequence_number jb' \<and>
        move_frame now jb' = None" by blast
    with step show ?thesis by (simp add: evs)
  qed
qed

lemma flush_inv: "jb_inv jb \<Longrightarrow> jb_inv (fst (flush jb))"
  by (simp add: jb_inv_def flush_def drop_all_frames_def jitter_estimator_new_def jb_consts)

lemma flush_last [simp]:
  "jb_last_decoded_sequence_number (fst (flush jb)) = None" "snd (flush jb) = [Flushed]"
  by (simp_all add: flush_def)

lemma flush_pair: "(jb', evs) = flush jb \<longleftrightarrow> jb' = fst (flush jb) \<and> evs = [Flushed]"
  by (auto simp: flush_def)

text \<open>The part of \<open>insert_frame\<close> that stores the frame, for a frame that is not old.\<close>

definition store_frame :: "video_frame \<Rightarrow> u128 \<Rightarrow> jitter_buffer \<Rightarrow> jitter_buffer" where
  "store_frame frame t jb =
     (let jb1 = update_target_playout_delay (jb\<lparr>jb_jitter_estimator :=
            update_estimate (vf_sequence_number frame) t (jb_jitter_estimator jb)\<rparr>)
      in jb1\<lparr>jb_buffered_frames := bt_insert (vf_sequence_number frame) (frame_buffer_new frame t)
             (jb_buffered_frames jb1)\<rparr>)"

definition make_room :: "video_frame \<Rightarrow> jitter_buffer \<Rightarrow> jitter_buffer" where
  "make_room frame jb =
     (if length (jb_buffered_frames jb) \<ge> MAX_BUFFER_SIZE \<and> vf_frame_type frame = KeyFrame
      then drop_all_frames jb else jb)\<lparr>jb_num_consecutive_old_frames := 0\<rparr>"

definition is_old :: "video_frame \<Rightarrow> jitter_buffer \<Rightarrow> bool" where
  "is_old frame jb =
     (case jb_last_decoded_sequence_number jb of
        Some l \<Rightarrow> vf_sequence_number frame \<le> l | None \<Rightarrow> False)"

lemma insert_frame_eq:
  "insert_frame frame t jb =
     (if is_old frame jb
      then let l = the (jb_last_decoded_sequence_number jb);
               jb1 = jb\<lparr>jb_num_consecutive_old_frames := jb_num_consecutive_old_frames jb + 1\<rparr>
           in if vf_frame_type frame = KeyFrame \<and>
                 l - vf_sequence_number frame > STREAM_RESTART_BACKTRACK_THRESHOLD
              then flush jb
              else if jb_num_consecutive_old_frames jb1 > MAX_CONSECUTIVE_OLD_FRAMES
              then flush jb1 else (jb1, [])
      else if length (jb_buffered_frames jb) \<ge> MAX_BUFFER_SIZE \<and> vf_frame_type frame \<noteq> KeyFrame
      then (jb\<lparr>jb_num_consecutive_old_frames := 0\<rparr>, [])
      else find_and_move_continuous_frames t (store_frame frame t (make_room frame jb)))"
  by (cases jb) (auto simp: insert_frame_def is_old_def store_frame_def make_room_def
      drop_all_frames_def Let_def split: option.split)

lemma update_target_other [simp]:
  "jb_buffered_frames (update_target_playout_delay jb) = jb_buffered_frames jb"
  "jb_last_decoded_sequence_number (update_target_playout_delay jb) = jb_last_decoded_sequence_number jb"
  "jb_jitter_estimator (update_target_playout_delay jb) = jb_jitter_estimator jb"
  "jb_num_consecutive_old_frames (update_target_playout_delay jb) = jb_num_consecutive_old_frames jb"
  by (simp_all add: update_target_playout_delay_def Let_def)

lemma set_bt_insert_subset: "set (bt_insert k v m) \<subseteq> Set.insert (k, v) (set m)"
  by (induction k v m rule: bt_insert.induct) auto

lemma store_frame_inv:
  assumes inv: "jb_inv jb" and new: "\<not> is_old frame jb"
    and room: "length (jb_buffered_frames jb) < MAX_BUFFER_SIZE"
  shows "jb_inv (store_frame frame t jb) \<and>
    jb_last_decoded_sequence_number (store_frame frame t jb) = jb_last_decoded_sequence_number jb"
proof -
  let ?k = "vf_sequence_number frame" and ?fb = "frame_buffer_new frame t"
  let ?m = "bt_insert ?k ?fb (jb_buffered_frames jb)"
  have wf: "bt_wf (jb_buffered_frames jb)" using inv by (simp add: jb_inv_def)
  have "length ?m \<le> MAX_BUFFER_SIZE"
    using bt.length_keys_insert [OF wf, of ?k ?fb] room by simp
  moreover have "sequence_number ?fb = ?k" by (simp add: sequence_number_def frame_buffer_new_def)
  then have "\<forall>(k, f) \<in> set ?m. sequence_number f = k"
    using inv set_bt_insert_subset [of ?k ?fb "jb_buffered_frames jb"] by (fastforce simp: jb_inv_def)
  moreover have "l < k" if "jb_last_decoded_sequence_number jb = Some l" "k \<in> fst ` set ?m" for l k
    using inv new that by (auto simp: jb_inv_def is_old_def set_bt_insert)
  moreover have "MIN_PLAYOUT_DELAY_MS \<le> jb_target_playout_delay_ms (store_frame frame t jb) \<and>
      jb_target_playout_delay_ms (store_frame frame t jb) \<le> MAX_PLAYOUT_DELAY_MS"
    using target_delay_bounds [of "jb\<lparr>jb_jitter_estimator := update_estimate ?k t (jb_jitter_estimator jb)\<rparr>"]
      inv by (simp add: jb_inv_def store_frame_def Let_def)
  ultimately show ?thesis
    using inv bt_wf_insert [OF wf, of ?k ?fb] update_estimate_nonneg
    by (auto simp: jb_inv_def store_frame_def Let_def)
qed

lemma insert_frame_inv:
  assumes inv: "jb_inv jb" and step: "insert_frame frame t jb = (jb', evs)"
  shows "jb_inv jb' \<and> decodable_stream (jb_last_decoded_sequence_number jb) evs \<and>
    stream_end (jb_last_decoded_sequence_number jb) evs = jb_last_decoded_sequence_number jb'"
proof (cases "is_old frame jb")
  case True
  let ?jb1 = "jb\<lparr>jb_num_consecutive_old_frames := jb_num_consecutive_old_frames jb + 1\<rparr>"
  have "jb_inv (fst (flush ?jb1))"
    using inv by (simp add: jb_inv_def flush_def drop_all_frames_def jitter_estimator_new_def jb_consts)
  moreover have "jb_inv ?jb1" if "\<not> jb_num_consecutive_old_frames ?jb1 > MAX_CONSECUTIVE_OLD_FRAMES"
    using inv that by (simp add: jb_inv_def not_less)
  moreover have "(jb', evs) = flush jb \<or> (jb', evs) = flush ?jb1 \<or>
      (jb', evs) = (?jb1, []) \<and> \<not> jb_num_consecutive_old_frames ?jb1 > MAX_CONSECUTIVE_OLD_FRAMES"
    using True step by (auto simp: insert_frame_eq Let_def split: if_splits)
  ultimately show ?thesis
    using flush_inv [OF inv] by (auto simp: flush_pair)
next
  case new: False
  show ?thesis
  proof (cases "length (jb_buffered_frames jb) \<ge> MAX_BUFFER_SIZE \<and> vf_frame_type frame \<noteq> KeyFrame")
    case True
    then have "jb' = jb\<lparr>jb_num_consecutive_old_frames := 0\<rparr>" "evs = []"
      using new step by (auto simp: insert_frame_eq)
    with inv show ?thesis by (simp add: jb_inv_def)
  next
    case False
    have room: "jb_inv (make_room frame jb)" "\<not> is_old frame (make_room frame jb)"
      "length (jb_buffered_frames (make_room frame jb)) < MAX_BUFFER_SIZE"
      "jb_last_decoded_sequence_number (make_room frame jb) = jb_last_decoded_sequence_number jb"
      using inv new False
      by (auto simp: make_room_def jb_inv_def drop_all_frames_def is_old_def jb_consts)
    note st = store_frame_inv [OF room(1-3), of t]
    have "find_and_move_continuous_frames t (store_frame frame t (make_room frame jb)) = (jb', evs)"
      using step new False by (auto simp: insert_frame_eq)
    from find_and_move_inv [OF conjunct1 [OF st] this] st room(4) show ?thesis by simp
  qed
qed

section \<open>Runs\<close>

datatype jb_call = Insert video_frame u128 | Poll u128 | Flush

fun jb_step :: "jitter_buffer \<Rightarrow> jb_call \<Rightarrow> jitter_buffer \<times> jb_event list" where
  "jb_step jb (Insert frame t) = insert_frame frame t jb"
| "jb_step jb (Poll t) = find_and_move_continuous_frames t jb"
| "jb_step jb Flush = flush jb"

primrec jb_run :: "jitter_buffer \<Rightarrow> jb_call list \<Rightarrow> jitter_buffer \<times> jb_event list" where
  "jb_run jb [] = (jb, [])"
| "jb_run jb (c # cs) =
     (case jb_step jb c of (jb1, es1) \<Rightarrow> (case jb_run jb1 cs of (jb2, es2) \<Rightarrow> (jb2, es1 @ es2)))"

lemma jb_step_inv:
  assumes "jb_inv jb" and "jb_step jb c = (jb', evs)"
  shows "jb_inv jb' \<and> decodable_stream (jb_last_decoded_sequence_number jb) evs \<and>
    stream_end (jb_last_decoded_sequence_number jb) evs = jb_last_decoded_sequence_number jb'"
proof (cases c)
  case Flush
  then have "jb' = fst (flush jb) \<and> evs = [Flushed]" using assms(2)
    by (metis flush_pair jb_step.simps(3))
  then show ?thesis using flush_inv [OF assms(1)] by simp
next
  case (Insert frame t)
  then show ?thesis using insert_frame_inv [OF assms(1)] assms(2) by simp
next
  case (Poll t)
  then show ?thesis using find_and_move_inv [OF assms(1)] assms(2) by simp
qed

lemma jb_run_inv:
  assumes "jb_inv jb"
  shows "jb_inv (fst (jb_run jb cs)) \<and>
    decodable_stream (jb_last_decoded_sequence_number jb) (snd (jb_run jb cs))"
  using assms
proof (induction cs arbitrary: jb)
  case (Cons c cs)
  obtain jb1 es1 where step: "jb_step jb c = (jb1, es1)" by (cases "jb_step jb c")
  obtain jb2 es2 where rest: "jb_run jb1 cs = (jb2, es2)" by (cases "jb_run jb1 cs")
  from jb_step_inv [OF Cons.prems step] Cons.IH [of jb1] rest step show ?case
    by (auto simp: decodable_stream_append)
qed simp

lemma jb_inv_new: "jb_inv jitter_buffer_new"
  by (simp add: jb_inv_def jitter_buffer_new_def jitter_estimator_new_def jb_consts)

section \<open>Properties\<close>

text \<open>C3: The decoder is only fed decodable streams. Whatever frames arrive in whatever order, with
  whatever losses, and whenever the buffer is polled or flushed: between flushes the decoder
  sees strictly increasing sequence numbers, starting with a keyframe, and a delta frame only
  right after its predecessor.\<close>

theorem decoder_stream_decodable: "decodable_stream None (snd (jb_run jitter_buffer_new calls))"
  using jb_run_inv [OF jb_inv_new, of calls] by (simp add: jitter_buffer_new_def)

text \<open>The buffer keeps its bounds. In every reachable state it holds at most two hundred frames,
  each under its own sequence number and newer than the last decoded one, the playout delay
  stays between ten and five hundred milliseconds, the jitter estimate is not negative and at
  most three hundred old frames have been counted.\<close>

theorem jitter_buffer_bounds: "jb_inv (fst (jb_run jitter_buffer_new calls))"
  using jb_run_inv [OF jb_inv_new, of calls] by simp

text \<open>Nothing decodable is held back. After a poll the next frame in sequence, if it is buffered,
  has waited for less than the playout delay, and in no case for half a second; so a frame that
  completes the sequence is played out at the first poll half a second after its arrival.\<close>

theorem poll_is_exhaustive:
  assumes "find_and_move_continuous_frames now (fst (jb_run jitter_buffer_new calls)) = (jb, evs)"
    and "jb_last_decoded_sequence_number jb = Some l"
    and "map_of (jb_buffered_frames jb) (l + 1) = Some f"
  shows "real (unat (now - fb_arrival_time_ms f)) < jb_target_playout_delay_ms jb \<and>
    real (unat (now - fb_arrival_time_ms f)) < 500"
proof -
  have "jb_inv (fst (jb_run jitter_buffer_new calls))" using jb_run_inv [OF jb_inv_new] by blast
  from find_and_move_inv [OF this assms(1)] have inv: "jb_inv jb" and idle: "move_frame now jb = None"
    by simp_all
  have "next_decodable_key jb = Some (l + 1)" using assms(2,3) by (simp add: next_decodable_key_def)
  with idle assms(3) have "real (unat (now - fb_arrival_time_ms f)) < jb_target_playout_delay_ms jb"
    by (auto simp: move_frame_def Let_def split: if_splits)
  with inv show ?thesis by (simp add: jb_inv_def jb_consts)
qed

text \<open>A concrete run: a keyframe is played out, then two frames arrive.\<close>

definition frame_at :: "u64 \<Rightarrow> frame_type \<Rightarrow> video_frame" where
  "frame_at seq ft = \<lparr>vf_sequence_number = seq, vf_frame_type = ft, vf_codec = Vp8, vf_data = [],
     vf_timestamp = 0\<rparr>"

definition demo_calls :: "jb_call list" where
  "demo_calls = [Insert (frame_at 5 KeyFrame) 0, Poll 1000, Insert (frame_at 6 DeltaFrame) 1000,
     Insert (frame_at 7 DeltaFrame) 1000]"

lemmas jb_eval =
  insert_frame_eq store_frame_def make_room_def is_old_def Let_def update_estimate_def
  update_target_playout_delay_def find_and_move_continuous_frames.simps move_frame_def
  next_decodable_key_def drop_frames_before_def frame_buffer_new_def is_keyframe_def clamp_def
  get_jitter_estimate_ms_def jb_consts frame_at_def jitter_buffer_new_def jitter_estimator_new_def
  FRAME_PERIOD_MS_def

lemma demo_state:
  "jb_last_decoded_sequence_number (fst (jb_run jitter_buffer_new demo_calls)) = Some 5"
  "map_of (jb_buffered_frames (fst (jb_run jitter_buffer_new demo_calls))) 6 =
     Some (frame_buffer_new (frame_at 6 DeltaFrame) 1000)"
  "map_of (jb_buffered_frames (fst (jb_run jitter_buffer_new demo_calls))) 7 =
     Some (frame_buffer_new (frame_at 7 DeltaFrame) 1000)"
  by (simp_all add: demo_calls_def jb_eval)

theorem poll_is_exhaustive_witness:
  "\<exists>jb evs f. find_and_move_continuous_frames 1005 (fst (jb_run jitter_buffer_new demo_calls)) = (jb, evs) \<and>
     map_of (jb_buffered_frames jb) 6 = Some f \<and> real (unat (1005 - fb_arrival_time_ms f)) < 500"
proof -
  let ?jb = "fst (jb_run jitter_buffer_new demo_calls)" and ?f = "frame_buffer_new (frame_at 6 DeltaFrame) 1000"
  have poll: "find_and_move_continuous_frames 1005 ?jb = (?jb, [])"
    by (simp add: demo_calls_def jb_eval)
  have "map_of (jb_buffered_frames ?jb) (5 + 1) = Some ?f" using demo_state(2) by simp
  from poll_is_exhaustive [OF poll demo_state(1) this] poll demo_state(2) show ?thesis by blast
qed

text \<open>A restarted stream: a keyframe far behind the last decoded frame empties the buffer, and is
  itself not stored, so decoding resumes only at a later keyframe.\<close>

theorem restart_keyframe_discarded:
  assumes "jb_last_decoded_sequence_number jb = Some l" and "vf_sequence_number frame \<le> l"
    and "l - vf_sequence_number frame > 30" and "vf_frame_type frame = KeyFrame"
  shows "jb_buffered_frames (fst (insert_frame frame t jb)) = [] \<and>
    snd (insert_frame frame t jb) = [Flushed] \<and>
    is_waiting_for_keyframe (fst (insert_frame frame t jb))"
  using assms
  by (simp add: insert_frame_eq is_old_def flush_def drop_all_frames_def is_waiting_for_keyframe_def
      STREAM_RESTART_BACKTRACK_THRESHOLD_def)

lemma move_next_frame:
  assumes "jb_inv jb" and "jb_last_decoded_sequence_number jb = Some l"
    and "map_of (jb_buffered_frames jb) (l + 1) = Some f"
    and "500 \<le> real (unat (now - fb_arrival_time_ms f))"
  shows "move_frame now jb = Some (f, jb\<lparr>jb_buffered_frames := AList.delete (l + 1) (jb_buffered_frames jb),
     jb_last_decoded_sequence_number := Some (l + 1)\<rparr>)"
  using assms by (auto simp: move_frame_def next_decodable_key_def Let_def jb_inv_def jb_consts)

lemma poll_plays:
  assumes "jb_inv jb" and "jb_last_decoded_sequence_number jb = Some l" and "n < 2 ^ 64"
    and "\<forall>i < n. \<exists>f. map_of (jb_buffered_frames jb) (l + of_nat (Suc i)) = Some f \<and>
           500 \<le> real (unat (now - fb_arrival_time_ms f))"
  shows "\<exists>fs es. snd (find_and_move_continuous_frames now jb) = map Decode fs @ es \<and>
     map sequence_number fs = map (\<lambda>i. l + of_nat (Suc i)) [0..<n]"
  using assms
proof (induction n arbitrary: jb l)
  case 0
  then show ?case by simp
next
  case (Suc n)
  from Suc.prems(4) obtain f where f: "map_of (jb_buffered_frames jb) (l + 1) = Some f"
    "500 \<le> real (unat (now - fb_arrival_time_ms f))" by force
  let ?jb = "jb\<lparr>jb_buffered_frames := AList.delete (l + 1) (jb_buffered_frames jb),
     jb_last_decoded_sequence_number := Some (l + 1)\<rparr>"
  note mv = move_next_frame [OF Suc.prems(1,2) f]
  have seq: "sequence_number f = l + 1" using move_frame_inv [OF Suc.prems(1) mv] by simp
  have inv: "jb_inv ?jb" using move_frame_inv [OF Suc.prems(1) mv] by blast
  have "\<exists>f. map_of (jb_buffered_frames ?jb) (l + 1 + of_nat (Suc i)) = Some f \<and>
      500 \<le> real (unat (now - fb_arrival_time_ms f))" if lt: "i < n" for i
  proof -
    have "of_nat (Suc i) \<noteq> (0 :: u64)"
      using lt Suc.prems(3) by (intro of_nat_neq_0_word) simp_all
    then have ne: "l + 1 + of_nat (Suc i) \<noteq> l + 1" by simp
    obtain g where "map_of (jb_buffered_frames jb) (l + of_nat (Suc (Suc i))) = Some g"
      "500 \<le> real (unat (now - fb_arrival_time_ms g))"
      using Suc.prems(4) lt by (meson Suc_less_eq)
    moreover have "l + of_nat (Suc (Suc i)) = l + 1 + of_nat (Suc i)" by simp
    ultimately have g: "map_of (jb_buffered_frames jb) (l + 1 + of_nat (Suc i)) = Some g"
      "500 \<le> real (unat (now - fb_arrival_time_ms g))" by (simp_all only:)
    then have "map_of (jb_buffered_frames ?jb) (l + 1 + of_nat (Suc i)) = Some g"
      using ne by (simp del: of_nat_Suc)
    with g(2) show ?thesis by blast
  qed
  with Suc.IH [OF inv, of "l + 1"] Suc.prems(3) obtain fs es where
    ih: "snd (find_and_move_continuous_frames now ?jb) = map Decode fs @ es"
      "map sequence_number fs = map (\<lambda>i. l + 1 + of_nat (Suc i)) [0..<n]" by auto
  have "snd (find_and_move_continuous_frames now jb) = map Decode (f # fs) @ es"
    using ih(1) mv by (subst find_and_move_continuous_frames.simps) (simp add: case_prod_beta)
  moreover have "map sequence_number (f # fs) = map (\<lambda>i. l + of_nat (Suc i)) [0..<Suc n]"
    using seq ih(2) by (simp add: upt_conv_Cons map_Suc_upt [symmetric] add.assoc del: upt_Suc)
  ultimately show ?case by blast
qed



end
