(* ===== verification/Packet_Buffer.thy ===== *)
theory Packet_Buffer
  imports VC_Prelude
begin

text \<open>
  The audio packet buffer of \<open>neteq\<close>: \<open>packet.rs\<close> and \<open>buffer.rs\<close>.

  \<^item> Timestamps, sequence numbers and sample counts are words of their width and wrap.
  \<^item> The clock is an argument; \<open>arrival_time.elapsed()\<close> is a saturating difference.
  \<^item> The \<open>VecDeque\<close> is a list, front first. Calls of the statistics object are returned as a list
    of \<open>stats_event\<close> values in order.
  \<^item> \<open>get_span_duration_ms\<close> divides by the sample rate of a packet; a rate of zero makes the code
    panic, which is the value \<open>None\<close>.
\<close>

section \<open>Packets\<close>

record rtp_header =
  rh_sequence_number :: u16
  rh_timestamp :: u32
  rh_ssrc :: u32
  rh_payload_type :: u8
  rh_marker :: bool

definition rtp_header_new :: "u16 \<Rightarrow> u32 \<Rightarrow> u32 \<Rightarrow> u8 \<Rightarrow> bool \<Rightarrow> rtp_header" where
  "rtp_header_new seq ts ssrc pt marker =
     \<lparr>rh_sequence_number = seq, rh_timestamp = ts, rh_ssrc = ssrc, rh_payload_type = pt,
      rh_marker = marker\<rparr>"

definition is_sequence_newer :: "rtp_header \<Rightarrow> u16 \<Rightarrow> bool" where
  "is_sequence_newer h other_seq = (rh_sequence_number h - other_seq < 0x8000)"

definition is_timestamp_newer :: "rtp_header \<Rightarrow> u32 \<Rightarrow> bool" where
  "is_timestamp_newer h other_timestamp = (rh_timestamp h - other_timestamp < 0x80000000)"

record audio_packet =
  ap_header :: rtp_header
  ap_payload :: bytes
  ap_arrival_time :: instant
  ap_sample_rate :: u32
  ap_channels :: u8
  ap_duration_ms :: u32

definition audio_packet_new ::
  "instant \<Rightarrow> rtp_header \<Rightarrow> bytes \<Rightarrow> u32 \<Rightarrow> u8 \<Rightarrow> u32 \<Rightarrow> audio_packet" where
  "audio_packet_new now header payload sample_rate channels duration_ms =
     \<lparr>ap_header = header, ap_payload = payload, ap_arrival_time = now,
      ap_sample_rate = sample_rate, ap_channels = channels, ap_duration_ms = duration_ms\<rparr>"

definition payload_size :: "audio_packet \<Rightarrow> nat" where
  "payload_size p = length (ap_payload p)"

definition age :: "instant \<Rightarrow> audio_packet \<Rightarrow> nat" where
  "age now p = now - ap_arrival_time p"

definition is_older_than :: "instant \<Rightarrow> audio_packet \<Rightarrow> nat \<Rightarrow> bool" where
  "is_older_than now p max_age = (age now p > max_age)"

definition expected_samples :: "audio_packet \<Rightarrow> u64" where
  "expected_samples p =
     (ucast (ap_sample_rate p) * ucast (ap_duration_ms p)) div 1000 * ucast (ap_channels p)"

section \<open>The buffer\<close>

record smart_flush_config =
  sfc_target_level_threshold_ms :: u32
  sfc_target_level_multiplier :: u32

definition smart_flush_config_default :: smart_flush_config where
  "smart_flush_config_default =
     \<lparr>sfc_target_level_threshold_ms = 500, sfc_target_level_multiplier = 3\<rparr>"

datatype buffer_return_code =
  BrcOk | BrcFlushed | BrcPartialFlush | BrcNotFound | BrcBufferEmpty | BrcInvalidPacket

record packet_buffer =
  pb_max_packets :: nat
  pb_buffer :: "audio_packet list"
  pb_smart_flush_config :: smart_flush_config
  pb_max_packet_age :: nat

datatype stats_event =
    BufferFlush
  | PacketDiscarded bool
  | PacketReordered u16
  | PacketInOrder
  | PacketArrived "32 word"

definition packet_buffer_new :: "nat \<Rightarrow> packet_buffer" where
  "packet_buffer_new max_packets =
     \<lparr>pb_max_packets = max_packets, pb_buffer = [],
      pb_smart_flush_config = smart_flush_config_default, pb_max_packet_age = secs 2\<rparr>"

definition packet_buffer_with_config :: "nat \<Rightarrow> smart_flush_config \<Rightarrow> packet_buffer" where
  "packet_buffer_with_config max_packets cfg =
     \<lparr>pb_max_packets = max_packets, pb_buffer = [], pb_smart_flush_config = cfg,
      pb_max_packet_age = secs 2\<rparr>"

definition set_max_packet_age :: "nat \<Rightarrow> packet_buffer \<Rightarrow> packet_buffer" where
  "set_max_packet_age max_age b = b\<lparr>pb_max_packet_age := max_age\<rparr>"

definition pb_is_empty :: "packet_buffer \<Rightarrow> bool" where
  "pb_is_empty b = (pb_buffer b = [])"

definition pb_len :: "packet_buffer \<Rightarrow> nat" where
  "pb_len b = length (pb_buffer b)"

definition pb_flush :: "packet_buffer \<Rightarrow> packet_buffer \<times> stats_event list" where
  "pb_flush b =
     (let flushed_count = length (pb_buffer b)
      in (b\<lparr>pb_buffer := []\<rparr>, if flushed_count > 0 then [BufferFlush] else []))"

fun keep_count_loop :: "nat \<Rightarrow> nat \<Rightarrow> nat \<Rightarrow> audio_packet list \<Rightarrow> nat" where
  "keep_count_loop target current_duration keep_count [] = keep_count"
| "keep_count_loop target current_duration keep_count (packet # rest) =
     (let current_duration = current_duration + unat (ap_duration_ms packet);
          keep_count = Suc keep_count
      in if current_duration \<ge> target then keep_count
         else keep_count_loop target current_duration keep_count rest)"

definition partial_flush ::
  "instant \<Rightarrow> u32 \<Rightarrow> packet_buffer \<Rightarrow> buffer_return_code \<times> packet_buffer \<times> stats_event list" where
  "partial_flush now target_level_ms b =
     (if pb_buffer b = [] then (BrcBufferEmpty, b, [])
      else
        let keep_count = keep_count_loop (unat target_level_ms) 0 0 (rev (pb_buffer b));
            remove_count = length (pb_buffer b) - keep_count
        in if remove_count > 0
           then (BrcPartialFlush, b\<lparr>pb_buffer := drop remove_count (pb_buffer b)\<rparr>,
                 map (\<lambda>packet. PacketDiscarded (is_older_than now packet (pb_max_packet_age b)))
                   (take remove_count (pb_buffer b)))
           else (BrcOk, b, []))"

definition peek_next_timestamp :: "packet_buffer \<Rightarrow> u32 option" where
  "peek_next_timestamp b =
     (case pb_buffer b of [] \<Rightarrow> None | packet # _ \<Rightarrow> Some (rh_timestamp (ap_header packet)))"

definition peek_next_packet_from_timestamp :: "u32 \<Rightarrow> packet_buffer \<Rightarrow> audio_packet option" where
  "peek_next_packet_from_timestamp timestamp b =
     find (\<lambda>packet. rh_timestamp (ap_header packet) \<ge> timestamp) (pb_buffer b)"

definition get_next_packet :: "packet_buffer \<Rightarrow> audio_packet option \<times> packet_buffer" where
  "get_next_packet b =
     (case pb_buffer b of
        [] \<Rightarrow> (None, b)
      | packet # rest \<Rightarrow> (Some packet, b\<lparr>pb_buffer := rest\<rparr>))"

definition discard_next_packet ::
  "instant \<Rightarrow> packet_buffer \<Rightarrow> buffer_return_code \<times> packet_buffer \<times> stats_event list" where
  "discard_next_packet now b =
     (case pb_buffer b of
        packet # rest \<Rightarrow>
          (BrcOk, b\<lparr>pb_buffer := rest\<rparr>,
           [PacketDiscarded (is_older_than now packet (pb_max_packet_age b))])
      | [] \<Rightarrow> (BrcBufferEmpty, b, []))"

definition discard_old_packets_by_timestamp ::
  "u32 \<Rightarrow> packet_buffer \<Rightarrow> packet_buffer \<times> stats_event list" where
  "discard_old_packets_by_timestamp timestamp_limit b =
     (let keep = (\<lambda>packet. rh_timestamp (ap_header packet) \<ge> timestamp_limit)
      in (b\<lparr>pb_buffer := filter keep (pb_buffer b)\<rparr>,
          map (\<lambda>_. PacketDiscarded True) (filter (\<lambda>p. \<not> keep p) (pb_buffer b))))"

definition get_span_duration_ms :: "packet_buffer \<Rightarrow> u32 option" where
  "get_span_duration_ms b =
     (if pb_buffer b = [] then Some 0
      else
        let oldest_ts = rh_timestamp (ap_header (hd (pb_buffer b)));
            newest_ts = rh_timestamp (ap_header (last (pb_buffer b)));
            span_samples = (if newest_ts \<ge> oldest_ts then newest_ts - oldest_ts
                            else (- 1 - oldest_ts) + newest_ts + 1);
            sample_rate = ap_sample_rate (hd (pb_buffer b))
        in if sample_rate = 0 then None else Some ((span_samples * 1000) div sample_rate))"

definition get_total_content_duration_ms :: "packet_buffer \<Rightarrow> u32" where
  "get_total_content_duration_ms b = sum_list (map ap_duration_ms (pb_buffer b))"

definition num_samples_in_buffer :: "packet_buffer \<Rightarrow> u64" where
  "num_samples_in_buffer b = sum_list (map expected_samples (pb_buffer b))"

function insert_position_loop :: "audio_packet list \<Rightarrow> u32 \<Rightarrow> nat \<Rightarrow> nat \<Rightarrow> nat" where
  "insert_position_loop buf ts low high =
     (if low < high
      then let mid = (low + high) div 2 in
           if rh_timestamp (ap_header (buf ! mid)) \<le> ts
           then insert_position_loop buf ts (mid + 1) high
           else insert_position_loop buf ts low mid
      else low)"
  by pat_completeness auto
termination by (relation "measure (\<lambda>(buf, ts, low, high). high - low)") auto

declare insert_position_loop.simps [simp del]

definition find_insert_position :: "audio_packet \<Rightarrow> packet_buffer \<Rightarrow> nat" where
  "find_insert_position packet b =
     insert_position_loop (pb_buffer b) (rh_timestamp (ap_header packet)) 0 (length (pb_buffer b))"

definition same_packet :: "audio_packet \<Rightarrow> audio_packet \<Rightarrow> bool" where
  "same_packet existing packet \<longleftrightarrow>
     rh_timestamp (ap_header existing) = rh_timestamp (ap_header packet) \<and>
     rh_sequence_number (ap_header existing) = rh_sequence_number (ap_header packet) \<and>
     rh_ssrc (ap_header existing) = rh_ssrc (ap_header packet)"

definition is_duplicate :: "audio_packet \<Rightarrow> nat \<Rightarrow> packet_buffer \<Rightarrow> bool" where
  "is_duplicate packet insert_pos b =
     list_ex (\<lambda>pos. pos < length (pb_buffer b) \<and> same_packet (pb_buffer b ! pos) packet)
       [insert_pos - 1, insert_pos, min (insert_pos + 1) (length (pb_buffer b) - 1)]"

definition calculate_arrival_delay :: "nat \<Rightarrow> 32 word" where
  "calculate_arrival_delay insert_pos =
     (if insert_pos = 0 then 0 else of_nat insert_pos * 10)"

definition should_smart_flush :: "u32 \<Rightarrow> packet_buffer \<Rightarrow> bool option" where
  "should_smart_flush target_level_ms b =
     (if pb_buffer b = [] then Some False
      else
        (case get_span_duration_ms b of
           None \<Rightarrow> None
         | Some current_span_ms \<Rightarrow>
             let cfg = pb_smart_flush_config b;
                 flush_threshold = max (sfc_target_level_threshold_ms cfg) target_level_ms *
                   sfc_target_level_multiplier cfg
             in Some (current_span_ms > flush_threshold)))"

definition discard_old_packets :: "instant \<Rightarrow> packet_buffer \<Rightarrow> packet_buffer \<times> stats_event list" where
  "discard_old_packets now b =
     (let old = (\<lambda>packet. is_older_than now packet (pb_max_packet_age b))
      in (b\<lparr>pb_buffer := filter (\<lambda>p. \<not> old p) (pb_buffer b)\<rparr>,
          map (\<lambda>_. PacketDiscarded True) (filter old (pb_buffer b))))"

definition free_space ::
  "instant \<Rightarrow> u32 \<Rightarrow> bool \<Rightarrow> packet_buffer \<Rightarrow> packet_buffer \<times> stats_event list" where
  "free_space now target_level_ms smart b =
     (let (b1, ev1) = (if smart
             then (case partial_flush now target_level_ms b of (_, b', ev) \<Rightarrow> (b', ev))
             else (b, []))
      in if length (pb_buffer b1) \<ge> pb_max_packets b1
         then (case partial_flush now target_level_ms b1 of
                 (_, b', ev) \<Rightarrow>
                   if length (pb_buffer b') \<ge> pb_max_packets b'
                   then (case pb_flush b' of (b'', ev') \<Rightarrow> (b'', ev1 @ ev @ ev' @ [BufferFlush]))
                   else (b', ev1 @ ev))
         else (b1, ev1))"

definition insert_packet ::
  "instant \<Rightarrow> audio_packet \<Rightarrow> u32 \<Rightarrow> packet_buffer \<Rightarrow>
   (buffer_return_code \<times> packet_buffer \<times> stats_event list) option" where
  "insert_packet now packet target_level_ms b =
     (case discard_old_packets now b of
        (b1, ev1) \<Rightarrow>
          (case should_smart_flush target_level_ms b1 of
             None \<Rightarrow> None
           | Some smart \<Rightarrow>
               (case free_space now target_level_ms smart b1 of
                  (b2, ev2) \<Rightarrow>
                    let insert_pos = find_insert_position packet b2
                    in if is_duplicate packet insert_pos b2
                       then Some (BrcOk, b2, ev1 @ ev2 @ [PacketDiscarded False])
                       else
                         let is_reordered = insert_pos < length (pb_buffer b2);
                             ev3 = (if is_reordered
                                    then [PacketReordered (of_nat (length (pb_buffer b2) - insert_pos))]
                                    else [PacketInOrder]);
                             b3 = b2\<lparr>pb_buffer := take insert_pos (pb_buffer b2) @
                                        packet # drop insert_pos (pb_buffer b2)\<rparr>;
                             arrival_delay = calculate_arrival_delay insert_pos
                         in Some (BrcOk, b3, ev1 @ ev2 @ ev3 @ [PacketArrived arrival_delay]))))"

section \<open>Lemmas\<close>

abbreviation ts :: "audio_packet \<Rightarrow> u32" where
  "ts p \<equiv> rh_timestamp (ap_header p)"

definition pb_sorted :: "packet_buffer \<Rightarrow> bool" where
  "pb_sorted b = sorted (map ts (pb_buffer b))"

lemma insert_position_loop_spec:
  assumes "sorted (map ts buf)" and "low \<le> high" and "high \<le> length buf"
    and "\<forall>i < low. ts (buf ! i) \<le> t" and "\<forall>i. high \<le> i \<and> i < length buf \<longrightarrow> t < ts (buf ! i)"
  shows "insert_position_loop buf t low high \<le> length buf \<and>
    (\<forall>i < insert_position_loop buf t low high. ts (buf ! i) \<le> t) \<and>
    (\<forall>i. insert_position_loop buf t low high \<le> i \<and> i < length buf \<longrightarrow> t < ts (buf ! i))"
  using assms
proof (induction buf t low high rule: insert_position_loop.induct)
  case (1 buf t low high)
  let ?mid = "(low + high) div 2"
  have mono: "ts (buf ! i) \<le> ts (buf ! j)" if "i \<le> j" "j < length buf" for i j
    using sorted_nth_mono [OF "1.prems"(1), of i j] that by simp
  show ?case
  proof (cases "low < high")
    case False
    then show ?thesis using "1.prems" by (simp add: insert_position_loop.simps)
  next
    case lt: True
    then have mid: "?mid < length buf" "low \<le> ?mid" "?mid < high" using "1.prems" by auto
    show ?thesis
    proof (cases "ts (buf ! ?mid) \<le> t")
      case True
      have "ts (buf ! i) \<le> t" if "i < ?mid + 1" for i
        using mono [of i ?mid] that mid(1) True by simp
      then have low: "\<forall>i < ?mid + 1. ts (buf ! i) \<le> t" by blast
      have step: "insert_position_loop buf t low high = insert_position_loop buf t (?mid + 1) high"
        using lt True by (subst insert_position_loop.simps) (simp add: Let_def)
      show ?thesis
        unfolding step using mid by (intro "1.IH"(1) [OF lt refl True "1.prems"(1) _ "1.prems"(3) low "1.prems"(5)]) simp
    next
      case False
      have "t < ts (buf ! i)" if "?mid \<le> i" "i < length buf" for i
        using mono [of ?mid i] that False by simp
      then have high: "\<forall>i. ?mid \<le> i \<and> i < length buf \<longrightarrow> t < ts (buf ! i)" by blast
      have step: "insert_position_loop buf t low high = insert_position_loop buf t low ?mid"
        using lt False by (subst insert_position_loop.simps) (simp add: Let_def)
      show ?thesis
        unfolding step using mid by (intro "1.IH"(2) [OF lt refl False "1.prems"(1) _ _ "1.prems"(4) high]) simp_all
    qed
  qed
qed

lemma takeWhile_split:
  assumes "k \<le> length xs" and "\<forall>i < k. Q (xs ! i)" and "\<forall>i. k \<le> i \<and> i < length xs \<longrightarrow> \<not> Q (xs ! i)"
  shows "length (takeWhile Q xs) = k"
  using assms
proof (induction xs arbitrary: k)
  case (Cons x xs)
  show ?case
  proof (cases k)
    case 0
    then show ?thesis using Cons.prems(3) by force
  next
    case (Suc n)
    have "length (takeWhile Q xs) = n"
      using Cons.prems Suc by (intro Cons.IH) fastforce+
    then show ?thesis using Suc Cons.prems(2) by force
  qed
qed simp

lemma find_insert_position_spec:
  assumes "pb_sorted b"
  shows "find_insert_position p b \<le> length (pb_buffer b)"
    and "\<forall>i < find_insert_position p b. ts (pb_buffer b ! i) \<le> ts p"
    and "\<forall>i. find_insert_position p b \<le> i \<and> i < length (pb_buffer b) \<longrightarrow> ts p < ts (pb_buffer b ! i)"
proof -
  have "sorted (map ts (pb_buffer b))" using assms by (simp add: pb_sorted_def)
  moreover have "\<forall>i. length (pb_buffer b) \<le> i \<and> i < length (pb_buffer b) \<longrightarrow> ts p < ts (pb_buffer b ! i)"
    by (meson not_le)
  ultimately have spec: "find_insert_position p b \<le> length (pb_buffer b) \<and>
      (\<forall>i < find_insert_position p b. ts (pb_buffer b ! i) \<le> ts p) \<and>
      (\<forall>i. find_insert_position p b \<le> i \<and> i < length (pb_buffer b) \<longrightarrow> ts p < ts (pb_buffer b ! i))"
    unfolding find_insert_position_def by (intro insert_position_loop_spec) simp_all
  show "find_insert_position p b \<le> length (pb_buffer b)"
    and "\<forall>i < find_insert_position p b. ts (pb_buffer b ! i) \<le> ts p"
    and "\<forall>i. find_insert_position p b \<le> i \<and> i < length (pb_buffer b) \<longrightarrow> ts p < ts (pb_buffer b ! i)"
    using spec by simp_all
qed

lemma find_insert_position_eq:
  assumes "pb_sorted b"
  shows "find_insert_position p b = length (takeWhile (\<lambda>q. ts q \<le> ts p) (pb_buffer b))"
  by (rule takeWhile_split [symmetric])
    (use find_insert_position_spec [OF assms, of p] in \<open>auto simp: not_le\<close>)

text \<open>Inserting at that position: behind every packet that is not newer.\<close>

definition place :: "audio_packet \<Rightarrow> audio_packet list \<Rightarrow> audio_packet list" where
  "place p buf = takeWhile (\<lambda>q. ts q \<le> ts p) buf @ p # dropWhile (\<lambda>q. ts q \<le> ts p) buf"

lemma place_eq:
  "pb_sorted b \<Longrightarrow>
     take (find_insert_position p b) (pb_buffer b) @ p # drop (find_insert_position p b) (pb_buffer b) =
       place p (pb_buffer b)"
  by (simp add: find_insert_position_eq place_def takeWhile_eq_take [symmetric] dropWhile_eq_drop)

lemma sorted_place: "sorted (map ts buf) \<Longrightarrow> sorted (map ts (place p buf))"
proof (induction buf)
  case (Cons q buf)
  then show ?case
    by (auto simp: place_def dest: set_takeWhileD)
      (metis (no_types, lifting) Un_iff image_eqI set_append takeWhile_dropWhile_id)+
qed (simp add: place_def)

lemma set_place: "set (place p buf) = insert p (set buf)"
  by (simp add: place_def) (metis set_append takeWhile_dropWhile_id)

lemma length_place: "length (place p buf) = Suc (length buf)"
  by (simp add: place_def) (metis length_append takeWhile_dropWhile_id)

lemma dropWhile_newer:
  "sorted (map ts buf) \<Longrightarrow> q \<in> set (dropWhile (\<lambda>q. ts q \<le> ts p) buf) \<Longrightarrow> ts p < ts q"
proof (induction buf)
  case (Cons r buf)
  then show ?case by (auto split: if_splits)
qed simp

lemma partial_flush_suffix:
  "\<exists>n. pb_buffer (fst (snd (partial_flush now target b))) = drop n (pb_buffer b) \<and>
     pb_max_packets (fst (snd (partial_flush now target b))) = pb_max_packets b \<and>
     pb_smart_flush_config (fst (snd (partial_flush now target b))) = pb_smart_flush_config b"
  by (auto simp: partial_flush_def Let_def intro: exI [of _ 0])

text \<open>The packets an insertion starts from: stale ones are gone, and as many of the oldest as it took
  to make room.\<close>

definition fresh :: "instant \<Rightarrow> packet_buffer \<Rightarrow> audio_packet list" where
  "fresh now b = filter (\<lambda>p. \<not> is_older_than now p (pb_max_packet_age b)) (pb_buffer b)"

lemma free_space_drop:
  "\<exists>n. pb_buffer (fst (free_space now target smart b)) = drop n (pb_buffer b) \<and>
     pb_max_packets (fst (free_space now target smart b)) = pb_max_packets b \<and>
     (0 < pb_max_packets b \<longrightarrow> length (drop n (pb_buffer b)) < pb_max_packets b)"
proof -
  define b1 where "b1 = (if smart then fst (snd (partial_flush now target b)) else b)"
  define b2 where "b2 = fst (snd (partial_flush now target b1))"
  obtain n1 where b1: "pb_buffer b1 = drop n1 (pb_buffer b)" "pb_max_packets b1 = pb_max_packets b"
    using partial_flush_suffix [of now target b] unfolding b1_def by (metis drop0)
  obtain n2 where b2: "pb_buffer b2 = drop n2 (pb_buffer b1)" "pb_max_packets b2 = pb_max_packets b1"
    using partial_flush_suffix [of now target b1] unfolding b2_def by blast
  have "fst (free_space now target smart b) =
      (if length (pb_buffer b1) \<ge> pb_max_packets b1
       then if length (pb_buffer b2) \<ge> pb_max_packets b2 then b2\<lparr>pb_buffer := []\<rparr> else b2
       else b1)"
    by (simp add: free_space_def b1_def b2_def pb_flush_def Let_def case_prod_beta)
  then consider "fst (free_space now target smart b) = b2\<lparr>pb_buffer := []\<rparr>"
    | "fst (free_space now target smart b) = b2" "length (pb_buffer b2) < pb_max_packets b2"
    | "fst (free_space now target smart b) = b1" "length (pb_buffer b1) < pb_max_packets b1"
    by (metis not_le)
  then show ?thesis
  proof cases
    case 1
    then show ?thesis using b1 b2 by (intro exI [of _ "length (pb_buffer b)"]) simp
  next
    case 2
    then show ?thesis using b1 b2 by (intro exI [of _ "n2 + n1"]) (auto simp: add.commute)
  next
    case 3
    then show ?thesis using b1 by (intro exI [of _ n1]) auto
  qed
qed

lemma is_duplicate_sound:
  "is_duplicate p i b \<Longrightarrow> \<exists>q \<in> set (pb_buffer b). same_packet q p"
  by (auto simp: is_duplicate_def)

lemma is_duplicate_complete:
  assumes "pb_sorted b" and "distinct (map ts (pb_buffer b))"
    and "q \<in> set (pb_buffer b)" and "same_packet q p"
  shows "is_duplicate p (find_insert_position p b) b"
proof -
  let ?buf = "pb_buffer b" and ?n = "find_insert_position p b"
  obtain i where i: "i < length ?buf" "?buf ! i = q" using assms(3) by (auto simp: in_set_conv_nth)
  have tq: "ts q = ts p" using assms(4) by (simp add: same_packet_def)
  note n = find_insert_position_spec [OF assms(1), of p]
  have "i < ?n" using n(3) i tq by (metis less_irrefl not_le)
  moreover have "?n - 1 \<le> i"
  proof (rule ccontr)
    assume "\<not> ?n - 1 \<le> i"
    then have j: "i < ?n - 1" "?n - 1 < length ?buf" using n(1) by auto
    have "ts (?buf ! i) \<le> ts (?buf ! (?n - 1))"
      using sorted_nth_mono [of "map ts ?buf" i "?n - 1"] assms(1) j by (simp add: pb_sorted_def)
    moreover have "ts (?buf ! (?n - 1)) \<le> ts p" using n(2) j by simp
    ultimately have "map ts ?buf ! i = map ts ?buf ! (?n - 1)" using i j tq by simp
    with assms(2) i(1) j show False by (metis length_map less_irrefl nth_eq_iff_index_eq)
  qed
  ultimately have "i = ?n - 1" by simp
  then show ?thesis using i assms(4) by (auto simp: is_duplicate_def)
qed

definition pb_stored :: "instant \<Rightarrow> audio_packet \<Rightarrow> nat \<Rightarrow> packet_buffer \<Rightarrow> packet_buffer \<Rightarrow> bool" where
  "pb_stored now p n b b' \<longleftrightarrow>
     (let kept = drop n (fresh now b)
      in pb_max_packets b' = pb_max_packets b \<and>
         (0 < pb_max_packets b \<longrightarrow> length kept < pb_max_packets b) \<and>
         (pb_buffer b' = kept \<and> (\<exists>q \<in> set kept. same_packet q p) \<or>
          pb_buffer b' = place p kept \<and>
            (distinct (map ts kept) \<longrightarrow> \<not> (\<exists>q \<in> set kept. same_packet q p))))"

lemma insert_packet_stored:
  assumes "pb_sorted b" and step: "insert_packet now p target b = Some (rc, b', ev)"
  shows "\<exists>n. pb_stored now p n b b'"
proof -
  define b1 where "b1 = fst (discard_old_packets now b)"
  have b1: "pb_buffer b1 = fresh now b" "pb_max_packets b1 = pb_max_packets b"
    by (simp_all add: b1_def discard_old_packets_def fresh_def Let_def)
  from step obtain smart where smart: "should_smart_flush target b1 = Some smart"
    by (auto simp: insert_packet_def b1_def case_prod_beta split: option.splits)
  define b2 where "b2 = fst (free_space now target smart b1)"
  obtain n where n: "pb_buffer b2 = drop n (fresh now b)" "pb_max_packets b2 = pb_max_packets b"
    "0 < pb_max_packets b \<longrightarrow> length (drop n (fresh now b)) < pb_max_packets b"
    using free_space_drop [of now target smart b1] b1 by (auto simp: b2_def)
  have srt: "pb_sorted b2"
    using assms(1) by (simp add: pb_sorted_def n(1) fresh_def drop_map [symmetric] sorted_wrt_drop sorted_filter)
  have "b' = (if is_duplicate p (find_insert_position p b2) b2 then b2
      else b2\<lparr>pb_buffer := place p (pb_buffer b2)\<rparr>)"
    using step smart place_eq [OF srt, of p]
    by (auto simp: insert_packet_def b1_def [symmetric] b2_def [symmetric] Let_def case_prod_beta
        split: if_splits)
  then have "pb_stored now p n b b'"
    using n is_duplicate_sound [of p "find_insert_position p b2" b2] is_duplicate_complete [OF srt]
    by (cases "is_duplicate p (find_insert_position p b2) b2")
      (simp_all add: pb_stored_def Let_def, blast)
  then show ?thesis by blast
qed

section \<open>Runs\<close>

datatype pb_op =
    PInsert instant audio_packet u32
  | PGetNext
  | PDiscardNext instant
  | PDiscardByTimestamp u32
  | PPartialFlush instant u32
  | PFlush
  | PSetMaxAge nat

fun pb_step :: "packet_buffer \<Rightarrow> pb_op \<Rightarrow> packet_buffer option" where
  "pb_step b (PInsert now p target) = map_option (\<lambda>(_, b', _). b') (insert_packet now p target b)"
| "pb_step b PGetNext = Some (snd (get_next_packet b))"
| "pb_step b (PDiscardNext now) = Some (fst (snd (discard_next_packet now b)))"
| "pb_step b (PDiscardByTimestamp limit) = Some (fst (discard_old_packets_by_timestamp limit b))"
| "pb_step b (PPartialFlush now target) = Some (fst (snd (partial_flush now target b)))"
| "pb_step b PFlush = Some (fst (pb_flush b))"
| "pb_step b (PSetMaxAge a) = Some (set_max_packet_age a b)"

primrec pb_run :: "packet_buffer \<Rightarrow> pb_op list \<Rightarrow> packet_buffer option" where
  "pb_run b [] = Some b"
| "pb_run b (x # xs) = (case pb_step b x of None \<Rightarrow> None | Some b' \<Rightarrow> pb_run b' xs)"

text \<open>The packets an operation may store satisfy \<open>Q\<close>.\<close>

fun op_ok :: "(audio_packet \<Rightarrow> bool) \<Rightarrow> pb_op \<Rightarrow> bool" where
  "op_ok Q (PInsert now p target) = Q p"
| "op_ok Q x = True"

text \<open>Every operation that does not insert keeps a part of the buffer, in order.\<close>

definition part_of :: "audio_packet list \<Rightarrow> audio_packet list \<Rightarrow> bool" where
  "part_of ys xs \<longleftrightarrow> (\<exists>n Q. ys = drop n (filter Q xs))"

lemma part_of_drop: "part_of (drop n xs) xs"
  unfolding part_of_def by (rule exI [of _ n], rule exI [of _ "\<lambda>_. True"]) simp

lemma part_of_filter: "part_of (filter Q xs) xs"
  unfolding part_of_def by (rule exI [of _ 0], rule exI [of _ Q]) simp

lemma part_of_facts:
  assumes "part_of ys xs"
  shows "set ys \<subseteq> set xs" and "length ys \<le> length xs"
    and "sorted (map ts xs) \<Longrightarrow> sorted (map ts ys)"
    and "distinct (map ts xs) \<Longrightarrow> distinct (map ts ys)"
proof -
  from assms obtain n Q where ys: "ys = drop n (filter Q xs)" by (auto simp: part_of_def)
  show "set ys \<subseteq> set xs" unfolding ys by (meson filter_is_subset set_drop_subset subset_trans)
  show "length ys \<le> length xs" unfolding ys by (simp add: le_diff_conv le_add_diff trans_le_add1)
  show "sorted (map ts xs) \<Longrightarrow> sorted (map ts ys)"
    unfolding ys drop_map [symmetric] by (intro sorted_wrt_drop sorted_filter)
  show "distinct (map ts xs) \<Longrightarrow> distinct (map ts ys)"
    unfolding ys drop_map [symmetric] by (intro distinct_drop distinct_map_filter)
qed

lemma pb_step_part:
  assumes "pb_step b x = Some b'" and "\<And>now p t. x \<noteq> PInsert now p t"
  shows "part_of (pb_buffer b') (pb_buffer b) \<and> pb_max_packets b' = pb_max_packets b"
proof (cases x)
  case (PPartialFlush now target)
  then show ?thesis
    using assms partial_flush_suffix [of now target b] part_of_drop by auto
next
  case PGetNext
  then show ?thesis
    using assms part_of_drop [of 1 "pb_buffer b"] part_of_drop [of 0 "pb_buffer b"]
    by (auto simp: get_next_packet_def split: list.splits)
next
  case (PDiscardNext now)
  then show ?thesis
    using assms part_of_drop [of 1 "pb_buffer b"] part_of_drop [of 0 "pb_buffer b"]
    by (auto simp: discard_next_packet_def split: list.splits)
next
  case PFlush
  then show ?thesis
    using assms part_of_drop [of "length (pb_buffer b)" "pb_buffer b"] by (auto simp: pb_flush_def)
qed (use assms part_of_filter part_of_drop [of 0 "pb_buffer b"] in
    \<open>auto simp: discard_old_packets_by_timestamp_def set_max_packet_age_def Let_def\<close>)

lemma part_of_fresh: "part_of (drop n (fresh now b)) (pb_buffer b)"
  unfolding part_of_def fresh_def by blast

definition pb_inv :: "packet_buffer \<Rightarrow> bool" where
  "pb_inv b \<longleftrightarrow>
     pb_sorted b \<and> length (pb_buffer b) \<le> pb_max_packets b \<and> 0 < pb_max_packets b \<and>
     (\<forall>p \<in> set (pb_buffer b). ap_sample_rate p \<noteq> 0)"

lemma insert_packet_total:
  assumes "\<forall>q \<in> set (pb_buffer b). ap_sample_rate q \<noteq> 0"
  shows "\<exists>rc b' ev. insert_packet now p target b = Some (rc, b', ev)"
proof -
  let ?b = "fst (discard_old_packets now b)"
  have "set (pb_buffer ?b) \<subseteq> set (pb_buffer b)" by (auto simp: discard_old_packets_def Let_def)
  then have "pb_buffer ?b \<noteq> [] \<Longrightarrow> ap_sample_rate (hd (pb_buffer ?b)) \<noteq> 0"
    using assms hd_in_set by blast
  then have "\<exists>smart. should_smart_flush target ?b = Some smart"
    by (auto simp: should_smart_flush_def get_span_duration_ms_def Let_def)
  then show ?thesis by (auto simp: insert_packet_def Let_def case_prod_beta)
qed

lemma pb_inv_step:
  assumes inv: "pb_inv b" and ok: "op_ok (\<lambda>p. ap_sample_rate p \<noteq> 0) x"
  shows "\<exists>b'. pb_step b x = Some b' \<and> pb_inv b' \<and> pb_max_packets b' = pb_max_packets b"
proof (cases "\<exists>now p target. x = PInsert now p target")
  case True
  then obtain now p target where x: "x = PInsert now p target" by blast
  obtain rc b' ev where step: "insert_packet now p target b = Some (rc, b', ev)"
    using insert_packet_total inv by (fastforce simp: pb_inv_def)
  obtain n where st: "pb_stored now p n b b'"
    using insert_packet_stored [OF _ step] inv by (auto simp: pb_inv_def)
  let ?kept = "drop n (fresh now b)"
  have kept: "sorted (map ts ?kept)" "\<forall>q \<in> set ?kept. ap_sample_rate q \<noteq> 0"
    using part_of_facts [OF part_of_fresh [of n now b]] inv by (auto simp: pb_inv_def pb_sorted_def)
  have "pb_buffer b' = ?kept \<or> pb_buffer b' = place p ?kept" "length ?kept < pb_max_packets b"
    "pb_max_packets b' = pb_max_packets b"
    using st inv by (auto simp: pb_stored_def Let_def pb_inv_def)
  then have "pb_inv b' \<and> pb_max_packets b' = pb_max_packets b"
    using inv kept sorted_place [OF kept(1), of p] ok x
    by (auto simp: pb_inv_def pb_sorted_def set_place length_place)
  then show ?thesis using x step by simp
next
  case False
  then obtain b' where b': "pb_step b x = Some b'" by (cases x) auto
  have "part_of (pb_buffer b') (pb_buffer b) \<and> pb_max_packets b' = pb_max_packets b"
    using pb_step_part [OF b'] False by blast
  with part_of_facts [of "pb_buffer b'" "pb_buffer b"] inv b' show ?thesis
    by (auto simp: pb_inv_def pb_sorted_def)
qed

lemma pb_inv_run:
  "pb_inv b \<Longrightarrow> list_all (op_ok (\<lambda>p. ap_sample_rate p \<noteq> 0)) xs \<Longrightarrow>
     \<exists>b'. pb_run b xs = Some b' \<and> pb_inv b' \<and> pb_max_packets b' = pb_max_packets b"
proof (induction xs arbitrary: b)
  case (Cons x xs)
  then show ?case using pb_inv_step [of b x] by fastforce
qed simp

section \<open>Properties\<close>

text \<open>C37: The buffer is ordered, bounded and total. Over every sequence of operations on a buffer with
  room for at least one packet, with packets that have a sample rate, no operation panics, the
  packets stay in timestamp order and never exceed the configured maximum.\<close>

theorem packet_buffer_run:
  assumes "0 < max_packets" and "list_all (op_ok (\<lambda>p. ap_sample_rate p \<noteq> 0)) ops"
  shows "\<exists>b. pb_run (packet_buffer_new max_packets) ops = Some b \<and>
     sorted (map (\<lambda>p. rh_timestamp (ap_header p)) (pb_buffer b)) \<and> length (pb_buffer b) \<le> max_packets"
proof -
  have "pb_inv (packet_buffer_new max_packets)"
    using assms(1) by (simp add: pb_inv_def packet_buffer_new_def pb_sorted_def)
  from pb_inv_run [OF this assms(2)] show ?thesis
    by (auto simp: pb_inv_def pb_sorted_def packet_buffer_new_def)
qed

definition packet_at :: "u16 \<Rightarrow> u32 \<Rightarrow> audio_packet" where
  "packet_at seq t = audio_packet_new 0 (rtp_header_new seq t 1 96 False) [] 48000 1 20"

theorem packet_buffer_run_witness:
  "\<exists>b. pb_run (packet_buffer_new 3) [PInsert 0 (packet_at 2 960) 100, PInsert 0 (packet_at 1 0) 100] = Some b \<and>
     sorted (map (\<lambda>p. rh_timestamp (ap_header p)) (pb_buffer b)) \<and> length (pb_buffer b) \<le> 3"
  by (rule packet_buffer_run) (simp_all add: packet_at_def audio_packet_new_def)

text \<open>The binary search is an ordered insertion. On a sorted buffer the position it returns is
  behind exactly the packets that are not newer, so equal timestamps keep their arrival order.\<close>

theorem insert_position_correct:
  assumes "sorted (map (\<lambda>q. rh_timestamp (ap_header q)) (pb_buffer b))"
  shows "find_insert_position p b =
    length (takeWhile (\<lambda>q. rh_timestamp (ap_header q) \<le> rh_timestamp (ap_header p)) (pb_buffer b))"
  using find_insert_position_eq [of b p] assms by (simp add: pb_sorted_def)

theorem insert_position_correct_witness:
  "find_insert_position (packet_at 3 960)
     ((packet_buffer_new 9)\<lparr>pb_buffer := [packet_at 1 0, packet_at 2 960, packet_at 4 1920]\<rparr>) = 2"
  by (subst insert_position_correct)
    (simp_all add: packet_at_def audio_packet_new_def rtp_header_new_def)

definition stream_of :: "(u32 \<Rightarrow> u16 \<times> u32) \<Rightarrow> audio_packet \<Rightarrow> bool" where
  "stream_of ident p \<longleftrightarrow> ap_sample_rate p \<noteq> 0 \<and>
     ident (rh_timestamp (ap_header p)) = (rh_sequence_number (ap_header p), rh_ssrc (ap_header p))"

lemma distinct_place:
  "distinct (map ts buf) \<Longrightarrow> ts p \<notin> ts ` set buf \<Longrightarrow> distinct (map ts (place p buf))"
proof (induction buf)
  case (Cons q buf)
  have "ts ` set (place p buf) = insert (ts p) (ts ` set buf)" by (simp add: set_place)
  with Cons show ?case by (auto simp: place_def dest: set_takeWhileD set_dropWhileD)
qed (simp add: place_def)

lemma stream_step:
  assumes inv: "pb_inv b" and uniq: "distinct (map ts (pb_buffer b))"
    and buf: "\<forall>q \<in> set (pb_buffer b). stream_of ident q" and ok: "op_ok (stream_of ident) x"
    and step: "pb_step b x = Some b'"
  shows "distinct (map ts (pb_buffer b')) \<and> (\<forall>q \<in> set (pb_buffer b'). stream_of ident q)"
proof (cases "\<exists>now p target. x = PInsert now p target")
  case True
  then obtain now p target where x: "x = PInsert now p target" by blast
  then obtain rc ev where "insert_packet now p target b = Some (rc, b', ev)" using step by auto
  then obtain n where st: "pb_stored now p n b b'"
    using insert_packet_stored inv unfolding pb_inv_def by blast
  let ?kept = "drop n (fresh now b)"
  have kept: "distinct (map ts ?kept)" "\<forall>q \<in> set ?kept. stream_of ident q"
    using part_of_facts [OF part_of_fresh [of n now b]] uniq buf by auto
  have p: "stream_of ident p" using ok x by simp
  have "\<exists>q \<in> set ?kept. same_packet q p" if "ts p \<in> ts ` set ?kept"
    using that kept(2) p by (auto simp: stream_of_def same_packet_def)
  then have "pb_buffer b' = ?kept \<or> pb_buffer b' = place p ?kept \<and> ts p \<notin> ts ` set ?kept"
    using st kept(1) unfolding pb_stored_def Let_def by blast
  then show ?thesis
    using kept p distinct_place [OF kept(1), of p] by (auto simp: set_place)
next
  case False
  have "part_of (pb_buffer b') (pb_buffer b)" using pb_step_part [OF step] False by blast
  with part_of_facts [of "pb_buffer b'" "pb_buffer b"] uniq buf show ?thesis by auto
qed

lemma op_ok_mono: "op_ok Q x \<Longrightarrow> (\<And>p. Q p \<Longrightarrow> R p) \<Longrightarrow> op_ok R x"
  by (cases x) auto

lemma stream_run:
  "pb_inv b \<Longrightarrow> distinct (map ts (pb_buffer b)) \<Longrightarrow> \<forall>q \<in> set (pb_buffer b). stream_of ident q \<Longrightarrow>
     list_all (op_ok (stream_of ident)) xs \<Longrightarrow> pb_run b xs = Some b' \<Longrightarrow> distinct (map ts (pb_buffer b'))"
proof (induction xs arbitrary: b)
  case (Cons x xs)
  then obtain b1 where b1: "pb_step b x = Some b1" by (auto split: option.splits)
  have "op_ok (\<lambda>p. ap_sample_rate p \<noteq> 0) x"
  proof (rule op_ok_mono)
    show "op_ok (stream_of ident) x" using Cons.prems(4) by simp
  qed (simp add: stream_of_def)
  from pb_inv_step [OF Cons.prems(1) this] b1 have "pb_inv b1" by auto
  with stream_step [OF Cons.prems(1-3) _ b1] Cons.IH [of b1] Cons.prems(4,5) b1 show ?case by simp
qed simp

text \<open>Duplicates are dropped. If the sender never uses a timestamp for two different packets,
  then over every sequence of operations the buffered timestamps are pairwise distinct,
  however often packets are received again.\<close>

theorem no_duplicate_packets:
  assumes "0 < max_packets" and "list_all (op_ok (stream_of ident)) ops"
    and "pb_run (packet_buffer_new max_packets) ops = Some b"
  shows "distinct (map (\<lambda>p. rh_timestamp (ap_header p)) (pb_buffer b))"
  using stream_run [OF _ _ _ assms(2,3)] assms(1)
  by (simp add: pb_inv_def packet_buffer_new_def pb_sorted_def)

theorem no_duplicate_packets_witness:
  "\<exists>b. pb_run (packet_buffer_new 3)
       [PInsert 0 (packet_at 2 960) 100, PInsert 0 (packet_at 1 0) 100, PInsert 0 (packet_at 2 960) 100] = Some b \<and>
     distinct (map (\<lambda>p. rh_timestamp (ap_header p)) (pb_buffer b))"
proof -
  let ?ops = "[PInsert 0 (packet_at 2 960) 100, PInsert 0 (packet_at 1 0) 100, PInsert 0 (packet_at 2 960) 100]"
  have pos: "(0 :: nat) < 3" by simp
  have ok: "list_all (op_ok (stream_of (\<lambda>t. if t = 960 then (2, 1) else (1, 1)))) ?ops"
    by (simp add: stream_of_def packet_at_def audio_packet_new_def rtp_header_new_def)
  have "pb_inv (packet_buffer_new 3)"
    by (simp add: pb_inv_def packet_buffer_new_def pb_sorted_def)
  then obtain b where "pb_run (packet_buffer_new 3) ?ops = Some b"
    using pb_inv_run [of "packet_buffer_new 3" ?ops]
    by (auto simp: packet_at_def audio_packet_new_def simp del: pb_run.simps)
  with no_duplicate_packets [OF pos ok this] show ?thesis by blast
qed

definition duration_of :: "audio_packet list \<Rightarrow> nat" where
  "duration_of ps = sum_list (map (\<lambda>p. unat (ap_duration_ms p)) ps)"

lemma duration_of_simps [simp]:
  "duration_of [] = 0"
  "duration_of (p # ps) = unat (ap_duration_ms p) + duration_of ps"
  "duration_of (ps @ qs) = duration_of ps + duration_of qs"
  "duration_of (rev ps) = duration_of ps"
  by (simp_all add: duration_of_def rev_map [symmetric] add.commute)

lemma keep_count_loop_spec:
  assumes "xs \<noteq> []"
  shows "\<exists>j. keep_count_loop target d c xs = c + Suc j \<and> Suc j \<le> length xs \<and>
    (j = 0 \<or> d + duration_of (take j xs) < target) \<and>
    (Suc j < length xs \<longrightarrow> target \<le> d + duration_of (take (Suc j) xs))"
  using assms
proof (induction xs arbitrary: d c)
  case (Cons x xs)
  let ?d = "d + unat (ap_duration_ms x)"
  show ?case
  proof (cases "?d \<ge> target \<or> xs = []")
    case True
    then show ?thesis by (intro exI [of _ 0]) (auto simp: Let_def)
  next
    case False
    with Cons.IH [of ?d "Suc c"] obtain j where
      "keep_count_loop target ?d (Suc c) xs = Suc c + Suc j" "Suc j \<le> length xs"
      "j = 0 \<or> ?d + duration_of (take j xs) < target"
      "Suc j < length xs \<longrightarrow> target \<le> ?d + duration_of (take (Suc j) xs)" by blast
    with False show ?thesis by (intro exI [of _ "Suc j"]) (auto simp: Let_def add.assoc)
  qed
qed simp

text \<open>A partial flush keeps just enough. It removes the oldest packets only, never all of them;
  if it removes anything, what is left still lasts at least the target level, and keeping one
  packet less would not have.\<close>

theorem partial_flush_keeps_target:
  assumes "pb_buffer b \<noteq> []" and "partial_flush now target b = (rc, b', ev)"
  shows "\<exists>removed kept. pb_buffer b = removed @ kept \<and> pb_buffer b' = kept \<and> kept \<noteq> [] \<and>
    length ev = length removed \<and>
    (removed \<noteq> [] \<longrightarrow> unat target \<le> duration_of kept) \<and>
    (tl kept \<noteq> [] \<longrightarrow> duration_of (tl kept) < unat target)"
proof -
  let ?xs = "rev (pb_buffer b)" and ?len = "length (pb_buffer b)"
  have "?xs \<noteq> []" using assms(1) by simp
  from keep_count_loop_spec [OF this, of "unat target" 0 0] obtain j where
    j: "keep_count_loop (unat target) 0 0 ?xs = Suc j" "Suc j \<le> ?len"
      "j = 0 \<or> duration_of (take j ?xs) < unat target"
      "Suc j < ?len \<longrightarrow> unat target \<le> duration_of (take (Suc j) ?xs)" by auto
  let ?n = "?len - Suc j"
  have buf: "pb_buffer b' = drop ?n (pb_buffer b)" and ev: "length ev = ?n"
    using assms j(1) by (auto simp: partial_flush_def Let_def split: if_splits)
  have sfx: "drop (?len - k) (pb_buffer b) = rev (take k ?xs)" for k by (simp add: rev_take)
  have "tl (drop ?n (pb_buffer b)) = drop (?len - j) (pb_buffer b)"
    using j(2) by (simp add: tl_drop Suc_diff_Suc flip: drop_Suc)
  then have tl: "tl (drop ?n (pb_buffer b)) = rev (take j ?xs)" using sfx [of j] by simp
  show ?thesis
  proof (intro exI conjI)
    show "pb_buffer b = take ?n (pb_buffer b) @ drop ?n (pb_buffer b)" by simp
    show "take ?n (pb_buffer b) \<noteq> [] \<longrightarrow> unat target \<le> duration_of (drop ?n (pb_buffer b))"
      using j(4) by (simp add: sfx)
    show "tl (drop ?n (pb_buffer b)) \<noteq> [] \<longrightarrow> duration_of (tl (drop ?n (pb_buffer b))) < unat target"
      using j(3) unfolding tl by auto
  qed (use buf ev j(2) in auto)
qed

theorem partial_flush_keeps_target_witness:
  "\<exists>rc b' ev. partial_flush 0 30
       ((packet_buffer_new 9)\<lparr>pb_buffer := [packet_at 1 0, packet_at 2 960, packet_at 3 1920]\<rparr>) = (rc, b', ev) \<and>
     pb_buffer b' \<noteq> [] \<and> 30 \<le> duration_of (pb_buffer b') \<and> length ev = 1"
proof -
  define b where "b = (packet_buffer_new 9)\<lparr>pb_buffer := [packet_at 1 0, packet_at 2 960, packet_at 3 1920]\<rparr>"
  obtain rc b' ev where f: "partial_flush 0 30 b = (rc, b', ev)" by (metis prod_cases3)
  have ev: "length ev = 1"
    using f by (auto simp: b_def partial_flush_def Let_def packet_at_def audio_packet_new_def split: if_splits)
  have "pb_buffer b \<noteq> []" by (simp add: b_def)
  from partial_flush_keeps_target [OF this f] obtain removed kept where
    "pb_buffer b = removed @ kept" "pb_buffer b' = kept" "kept \<noteq> []" "length ev = length removed"
    "removed \<noteq> [] \<longrightarrow> unat (30 :: u32) \<le> duration_of kept"
    by (elim exE conjE) (rule that)
  with f ev show ?thesis unfolding b_def by auto
qed

text \<open>Timestamps are compared as plain numbers. Across the wrap of the 32-bit RTP clock the packet
  that follows is sorted in front of its predecessor, although the header's own comparison says
  it is newer; and since the buffer is sorted, the wrap-around branch of the span is never taken.\<close>

theorem wrapped_packet_plays_first:
  "is_timestamp_newer (ap_header (packet_at 2 640)) (rh_timestamp (ap_header (packet_at 1 (- 320)))) \<and>
   pb_run (packet_buffer_new 9) [PInsert 0 (packet_at 1 (- 320)) 100] \<noteq> None \<and>
   place (packet_at 2 640) [packet_at 1 (- 320)] = [packet_at 2 640, packet_at 1 (- 320)]"
proof -
  have inv: "pb_inv (packet_buffer_new 9)"
    by (simp add: pb_inv_def packet_buffer_new_def pb_sorted_def)
  have "list_all (op_ok (\<lambda>p. ap_sample_rate p \<noteq> 0)) [PInsert 0 (packet_at 1 (- 320)) 100]"
    by (simp add: packet_at_def audio_packet_new_def)
  from pb_inv_run [OF inv this] show ?thesis
    by (auto simp: place_def is_timestamp_newer_def packet_at_def audio_packet_new_def
        rtp_header_new_def simp del: pb_run.simps)
qed

theorem span_wraparound_branch_dead:
  assumes "pb_sorted b" and "pb_buffer b \<noteq> []"
  shows "ts (hd (pb_buffer b)) \<le> ts (last (pb_buffer b))"
  using assms by (cases "pb_buffer b") (auto simp: pb_sorted_def)

end
