(* ===== verification/Meeting_Types.thy ===== *)
theory Meeting_Types
  imports VC_Prelude
begin

text \<open>
  The REST vocabulary of the meeting service: the error type of
  \<open>videocall-meeting-types/src/error.rs\<close> and its pairing with HTTP status codes in
  \<open>meeting-api/src/error.rs\<close>, the response envelope, and the request and response bodies of
  \<open>requests.rs\<close> and \<open>responses.rs\<close>. Serialisation to JSON is not modelled: bodies are the
  typed values. A fallible handler that also changes state returns \<open>(error + value) \<times> state\<close>;
  \<open>and_then\<close> is Rust's \<open>?\<close> on such results.
\<close>

section \<open>Errors\<close>

record api_error =
  ae_code :: string
  ae_message :: string
  ae_engineering_error :: "string option"

definition quoted :: "string \<Rightarrow> string" where
  "quoted s = [CHR 0x27] @ s @ [CHR 0x27]"

definition api_unauthorized :: api_error where
  "api_unauthorized =
     \<lparr>ae_code = ''UNAUTHORIZED'', ae_message = ''Authentication required.'',
      ae_engineering_error = None\<rparr>"

definition api_unauthorized_with_detail :: "string \<Rightarrow> api_error" where
  "api_unauthorized_with_detail detail =
     \<lparr>ae_code = ''UNAUTHORIZED'', ae_message = ''Authentication required.'',
      ae_engineering_error = Some detail\<rparr>"

definition api_invalid_meeting_id :: "string \<Rightarrow> api_error" where
  "api_invalid_meeting_id detail =
     \<lparr>ae_code = ''INVALID_MEETING_ID'', ae_message = ''Invalid meeting ID: '' @ detail,
      ae_engineering_error = None\<rparr>"

definition api_too_many_attendees :: "nat \<Rightarrow> nat \<Rightarrow> api_error" where
  "api_too_many_attendees count limit =
     \<lparr>ae_code = ''TOO_MANY_ATTENDEES'',
      ae_message = ''Too many attendees: '' @ show_nat count @ '' provided, maximum is '' @ show_nat limit,
      ae_engineering_error = None\<rparr>"

definition api_meeting_exists :: "string \<Rightarrow> api_error" where
  "api_meeting_exists meeting_id =
     \<lparr>ae_code = ''MEETING_EXISTS'',
      ae_message = ''Meeting with ID '' @ quoted meeting_id @ '' already exists'',
      ae_engineering_error = None\<rparr>"

definition api_meeting_not_found :: "string \<Rightarrow> api_error" where
  "api_meeting_not_found meeting_id =
     \<lparr>ae_code = ''MEETING_NOT_FOUND'',
      ae_message = ''Meeting '' @ quoted meeting_id @ '' not found'',
      ae_engineering_error = None\<rparr>"

definition api_meeting_not_active :: "string \<Rightarrow> api_error" where
  "api_meeting_not_active meeting_id =
     \<lparr>ae_code = ''MEETING_NOT_ACTIVE'',
      ae_message = ''Meeting '' @ quoted meeting_id @ '' is not active. Host must join first.'',
      ae_engineering_error = None\<rparr>"

definition api_not_host :: api_error where
  "api_not_host =
     \<lparr>ae_code = ''NOT_HOST'', ae_message = ''Only the meeting host can perform this action'',
      ae_engineering_error = None\<rparr>"

definition api_not_owner :: api_error where
  "api_not_owner =
     \<lparr>ae_code = ''NOT_OWNER'', ae_message = ''Only the meeting owner can perform this action'',
      ae_engineering_error = None\<rparr>"

definition api_participant_not_found :: "string \<Rightarrow> api_error" where
  "api_participant_not_found email =
     \<lparr>ae_code = ''PARTICIPANT_NOT_FOUND'',
      ae_message = ''Participant '' @ quoted email @ '' not found in waiting room'',
      ae_engineering_error = None\<rparr>"

definition api_not_in_meeting :: api_error where
  "api_not_in_meeting =
     \<lparr>ae_code = ''NOT_IN_MEETING'', ae_message = ''You have not joined this meeting'',
      ae_engineering_error = None\<rparr>"

definition api_internal_error :: "string \<Rightarrow> api_error" where
  "api_internal_error detail =
     \<lparr>ae_code = ''INTERNAL_ERROR'', ae_message = ''Internal server error'',
      ae_engineering_error = Some detail\<rparr>"

definition api_error_display :: "api_error \<Rightarrow> string" where
  "api_error_display e = ''['' @ ae_code e @ ''] '' @ ae_message e"

section \<open>Errors with their HTTP status\<close>

record app_error =
  err_status :: nat
  err_body :: api_error

definition app_error_new :: "nat \<Rightarrow> api_error \<Rightarrow> app_error" where
  "app_error_new code e = \<lparr>err_status = code, err_body = e\<rparr>"

definition app_unauthorized :: app_error where
  "app_unauthorized = app_error_new 401 api_unauthorized"

definition app_unauthorized_msg :: "string \<Rightarrow> app_error" where
  "app_unauthorized_msg detail = app_error_new 401 (api_unauthorized_with_detail detail)"

definition app_invalid_meeting_id :: "string \<Rightarrow> app_error" where
  "app_invalid_meeting_id detail = app_error_new 400 (api_invalid_meeting_id detail)"

definition app_too_many_attendees :: "nat \<Rightarrow> nat \<Rightarrow> app_error" where
  "app_too_many_attendees count limit = app_error_new 400 (api_too_many_attendees count limit)"

definition app_meeting_exists :: "string \<Rightarrow> app_error" where
  "app_meeting_exists meeting_id = app_error_new 409 (api_meeting_exists meeting_id)"

definition app_meeting_not_found :: "string \<Rightarrow> app_error" where
  "app_meeting_not_found meeting_id = app_error_new 404 (api_meeting_not_found meeting_id)"

definition app_meeting_not_active :: "string \<Rightarrow> app_error" where
  "app_meeting_not_active meeting_id = app_error_new 400 (api_meeting_not_active meeting_id)"

definition app_not_host :: app_error where
  "app_not_host = app_error_new 403 api_not_host"

definition app_not_owner :: app_error where
  "app_not_owner = app_error_new 403 api_not_owner"

definition app_participant_not_found :: "string \<Rightarrow> app_error" where
  "app_participant_not_found user_id = app_error_new 404 (api_participant_not_found user_id)"

definition app_not_in_meeting :: app_error where
  "app_not_in_meeting = app_error_new 404 api_not_in_meeting"

definition app_internal :: "string \<Rightarrow> app_error" where
  "app_internal detail = app_error_new 500 (api_internal_error detail)"

section \<open>The response envelope\<close>

record 'a api_response =
  resp_success :: bool
  resp_result :: 'a

definition api_response_ok :: "'a \<Rightarrow> 'a api_response" where
  "api_response_ok r = \<lparr>resp_success = True, resp_result = r\<rparr>"

definition api_response_error :: "api_error \<Rightarrow> api_error api_response" where
  "api_response_error err = \<lparr>resp_success = False, resp_result = err\<rparr>"

definition into_response :: "app_error \<Rightarrow> nat \<times> api_error api_response" where
  "into_response e = (err_status e, api_response_error (err_body e))"

section \<open>Requests\<close>

record create_meeting_request =
  cmr_meeting_id :: "string option"
  cmr_attendees :: "string list"
  cmr_password :: "string option"
  cmr_waiting_room_enabled :: "bool option"

record update_meeting_request =
  umr_waiting_room_enabled :: "bool option"

record join_meeting_request =
  jmr_display_name :: "string option"

record admit_request =
  adr_user_id :: string

record list_meetings_query =
  lmq_limit :: int
  lmq_offset :: int

definition default_limit :: int where
  "default_limit = 20"

definition list_meetings_query_default :: list_meetings_query where
  "list_meetings_query_default = \<lparr>lmq_limit = default_limit, lmq_offset = 0\<rparr>"

section \<open>Responses\<close>

record create_meeting_response =
  cr_meeting_id :: string
  cr_host :: string
  cr_created_at :: int
  cr_state :: string
  cr_attendees :: "string list"
  cr_has_password :: bool
  cr_waiting_room_enabled :: bool

record participant_status_response =
  ps_user_id :: string
  ps_display_name :: "string option"
  ps_status :: string
  ps_is_host :: bool
  ps_joined_at :: int
  ps_admitted_at :: "int option"
  ps_room_token :: "string option"
  ps_observer_token :: "string option"
  ps_waiting_room_enabled :: "bool option"
  ps_host_display_name :: "string option"
  ps_host_user_id :: "string option"

record meeting_info_response =
  mi_meeting_id :: string
  mi_state :: string
  mi_host :: string
  mi_host_display_name :: "string option"
  mi_host_user_id :: "string option"
  mi_has_password :: bool
  mi_waiting_room_enabled :: bool
  mi_participant_count :: int
  mi_waiting_count :: int
  mi_started_at :: int
  mi_ended_at :: "int option"
  mi_your_status :: "participant_status_response option"

record meeting_summary =
  sm_meeting_id :: string
  sm_host :: "string option"
  sm_state :: string
  sm_has_password :: bool
  sm_created_at :: int
  sm_participant_count :: int
  sm_started_at :: int
  sm_ended_at :: "int option"
  sm_waiting_count :: int
  sm_waiting_room_enabled :: bool

record list_meetings_response =
  lr_meetings :: "meeting_summary list"
  lr_total :: int
  lr_limit :: int
  lr_offset :: int

record waiting_room_response =
  wr_meeting_id :: string
  wr_waiting :: "participant_status_response list"

record admit_all_response =
  aa_admitted_count :: nat
  aa_admitted :: "participant_status_response list"

record delete_meeting_response =
  dr_message :: string

section \<open>Fallible steps on a state\<close>

type_synonym ('a, 's) outcome = "(app_error + 'a) \<times> 's"

definition and_then :: "('a, 's) outcome \<Rightarrow> ('a \<Rightarrow> 's \<Rightarrow> ('b, 's) outcome) \<Rightarrow> ('b, 's) outcome" where
  "and_then r k = (case r of (Inl e, s) \<Rightarrow> (Inl e, s) | (Inr a, s) \<Rightarrow> k a s)"

definition ok_or :: "'a option \<Rightarrow> app_error \<Rightarrow> app_error + 'a" where
  "ok_or x e = (case x of None \<Rightarrow> Inl e | Some a \<Rightarrow> Inr a)"

lemma and_then_simps [simp]:
  "and_then (Inl e, s) k = (Inl e, s)"
  "and_then (Inr a, s) k = k a s"
  by (simp_all add: and_then_def)

lemma ok_or_simps [simp]:
  "ok_or None e = Inl e"
  "ok_or (Some a) e = Inr a"
  by (simp_all add: ok_or_def)

lemma ok_or_Inr_iff [simp]: "ok_or x e = Inr a \<longleftrightarrow> x = Some a"
  by (cases x) auto

lemma and_then_Inr_iff:
  "and_then r k = (Inr b, s') \<longleftrightarrow> (\<exists>a s. r = (Inr a, s) \<and> k a s = (Inr b, s'))"
  by (cases r; cases "fst r") (auto simp: and_then_def split: sum.splits)

text \<open>A predicate of the state that every step keeps is kept by the composition.\<close>

lemma and_then_invariant:
  assumes "P (snd r)" and "\<And>a s. r = (Inr a, s) \<Longrightarrow> P s \<Longrightarrow> P (snd (k a s))"
  shows "P (snd (and_then r k))"
proof (cases r)
  case (Pair x s)
  with assms show ?thesis by (cases x) auto
qed

lemmas api_error_defs =
  api_unauthorized_def api_unauthorized_with_detail_def api_invalid_meeting_id_def
  api_too_many_attendees_def api_meeting_exists_def api_meeting_not_found_def
  api_meeting_not_active_def api_not_host_def api_not_owner_def api_participant_not_found_def
  api_not_in_meeting_def api_internal_error_def

lemmas app_error_defs =
  app_error_new_def app_unauthorized_def app_unauthorized_msg_def app_invalid_meeting_id_def
  app_too_many_attendees_def app_meeting_exists_def app_meeting_not_found_def
  app_meeting_not_active_def app_not_host_def app_not_owner_def app_participant_not_found_def
  app_not_in_meeting_def app_internal_def

end
