(* ===== verification/Meeting_Db.thy ===== *)
theory Meeting_Db
  imports Meeting_Types
begin

text \<open>
  The meeting database: the rows and queries of \<open>meeting-api/src/db/meetings.rs\<close> and
  \<open>meeting-api/src/db/participants.rs\<close> over the schema that the migrations under
  \<open>dbmate/db/migrations\<close> build. A table is the list of its rows, in an order that stands for
  PostgreSQL's unspecified one; every query is one function on the database, and the two
  transactions (\<open>join_attendee\<close>, \<open>update_waiting_room_enabled\<close>) are one function each, so a
  run of these functions is a serialisation of any interleaving of requests.

  The schema's constraints are written out: serial keys, the partial unique index on the room
  of a meeting that is not deleted, the unique pair of meeting and user, the foreign key, the
  length of \<open>VARCHAR(255)\<close> columns in characters, the check on the number of attendees, and
  the triggers that stamp \<open>updated_at\<close>. \<open>NOW()\<close> is the argument \<open>now\<close>, in milliseconds. Loss of
  the connection and exhaustion of a sequence are not modelled.
\<close>

section \<open>Rows and tables\<close>

record meeting_row =
  mr_id :: nat
  mr_room_id :: string
  mr_started_at :: int
  mr_ended_at :: "int option"
  mr_created_at :: int
  mr_updated_at :: int
  mr_deleted_at :: "int option"
  mr_creator_id :: "string option"
  mr_password_hash :: "string option"
  mr_state :: "string option"
  mr_attendees :: "string list option"
  mr_host_display_name :: "string option"
  mr_waiting_room_enabled :: bool

record participant_row =
  pr_id :: nat
  pr_meeting_id :: nat
  pr_user_id :: string
  pr_status :: string
  pr_is_host :: bool
  pr_is_required :: bool
  pr_joined_at :: int
  pr_admitted_at :: "int option"
  pr_left_at :: "int option"
  pr_created_at :: int
  pr_updated_at :: int
  pr_display_name :: "string option"

record database =
  db_meetings :: "meeting_row list"
  db_next_meeting :: nat
  db_participants :: "participant_row list"
  db_next_participant :: nat

definition empty_db :: database where
  "empty_db = \<lparr>db_meetings = [], db_next_meeting = 1, db_participants = [], db_next_participant = 1\<rparr>"

datatype sqlx_error = UniqueViolation | ForeignKeyViolation | CheckViolation | StringTooLong | RowNotFound

text \<open>The number of characters of a UTF-8 string: the bytes that do not continue one.\<close>

definition char_count :: "string \<Rightarrow> nat" where
  "char_count s = length (filter (\<lambda>c. \<not> (128 \<le> (of_char c :: nat) \<and> (of_char c :: nat) < 192)) s)"

definition fits_varchar :: "string \<Rightarrow> bool" where
  "fits_varchar s \<longleftrightarrow> char_count s \<le> 255"

definition opt_fits_varchar :: "string option \<Rightarrow> bool" where
  "opt_fits_varchar s = (case s of None \<Rightarrow> True | Some t \<Rightarrow> fits_varchar t)"

definition coalesce :: "'a option \<Rightarrow> 'a option \<Rightarrow> 'a option" where
  "coalesce x y = (case x of None \<Rightarrow> y | Some a \<Rightarrow> Some a)"

definition live :: "meeting_row \<Rightarrow> bool" where
  "live r \<longleftrightarrow> mr_deleted_at r = None"

definition fetch_optional :: "'a list \<Rightarrow> 'a option" where
  "fetch_optional rows = (case rows of [] \<Rightarrow> None | r # rs \<Rightarrow> Some r)"

text \<open>\<open>UPDATE ... SET ... WHERE ... RETURNING\<close>, with the trigger on \<open>updated_at\<close>.\<close>

definition update_meetings ::
  "int \<Rightarrow> (meeting_row \<Rightarrow> bool) \<Rightarrow> (meeting_row \<Rightarrow> meeting_row) \<Rightarrow> database \<Rightarrow> meeting_row list \<times> database" where
  "update_meetings now Q f db =
     (let upd = (\<lambda>r. (f r)\<lparr>mr_updated_at := now\<rparr>)
      in (map upd (filter Q (db_meetings db)),
          db\<lparr>db_meetings := map (\<lambda>r. if Q r then upd r else r) (db_meetings db)\<rparr>))"

definition update_participants ::
  "int \<Rightarrow> (participant_row \<Rightarrow> bool) \<Rightarrow> (participant_row \<Rightarrow> participant_row) \<Rightarrow> database \<Rightarrow>
   participant_row list \<times> database" where
  "update_participants now Q f db =
     (let upd = (\<lambda>r. (f r)\<lparr>pr_updated_at := now\<rparr>)
      in (map upd (filter Q (db_participants db)),
          db\<lparr>db_participants := map (\<lambda>r. if Q r then upd r else r) (db_participants db)\<rparr>))"

section \<open>Meeting queries\<close>

definition create_with_options ::
  "int \<Rightarrow> string \<Rightarrow> string \<Rightarrow> string option \<Rightarrow> string list \<Rightarrow> bool \<Rightarrow> database \<Rightarrow>
   (sqlx_error + meeting_row) \<times> database" where
  "create_with_options now room_id creator_id password_hash attendees waiting_room_enabled db =
     (let row = \<lparr>mr_id = db_next_meeting db, mr_room_id = room_id, mr_started_at = now,
                 mr_ended_at = None, mr_created_at = now, mr_updated_at = now, mr_deleted_at = None,
                 mr_creator_id = Some creator_id, mr_password_hash = password_hash,
                 mr_state = Some ''idle'', mr_attendees = Some attendees,
                 mr_host_display_name = None, mr_waiting_room_enabled = waiting_room_enabled\<rparr>;
          db1 = db\<lparr>db_next_meeting := Suc (db_next_meeting db)\<rparr>
      in if \<not> (fits_varchar room_id \<and> fits_varchar creator_id \<and> opt_fits_varchar password_hash)
         then (Inl StringTooLong, db1)
         else if 100 < length attendees then (Inl CheckViolation, db1)
         else if list_ex (\<lambda>r. mr_room_id r = room_id \<and> live r) (db_meetings db)
         then (Inl UniqueViolation, db1)
         else (Inr row, db1\<lparr>db_meetings := db_meetings db @ [row]\<rparr>))"

definition create_meeting_row ::
  "int \<Rightarrow> string \<Rightarrow> string \<Rightarrow> string option \<Rightarrow> string list \<Rightarrow> database \<Rightarrow>
   (sqlx_error + meeting_row) \<times> database" where
  "create_meeting_row now room_id creator_id password_hash attendees db =
     create_with_options now room_id creator_id password_hash attendees True db"

definition get_by_room_id :: "string \<Rightarrow> database \<Rightarrow> meeting_row option" where
  "get_by_room_id room_id db =
     fetch_optional (filter (\<lambda>r. mr_room_id r = room_id \<and> live r) (db_meetings db))"

definition list_by_owner :: "string \<Rightarrow> int \<Rightarrow> int \<Rightarrow> database \<Rightarrow> meeting_row list" where
  "list_by_owner creator_id limit offset db =
     take (nat limit) (drop (nat offset)
       (sort_key (\<lambda>r. - mr_created_at r)
         (filter (\<lambda>r. live r \<and> mr_creator_id r = Some creator_id) (db_meetings db))))"

definition count_by_owner :: "string \<Rightarrow> database \<Rightarrow> int" where
  "count_by_owner creator_id db =
     int (length (filter (\<lambda>r. live r \<and> mr_creator_id r = Some creator_id) (db_meetings db)))"

definition soft_delete :: "int \<Rightarrow> string \<Rightarrow> string \<Rightarrow> database \<Rightarrow> meeting_row option \<times> database" where
  "soft_delete now room_id creator_id db =
     (let (rows, db') = update_meetings now
            (\<lambda>r. mr_room_id r = room_id \<and> mr_creator_id r = Some creator_id \<and> live r)
            (\<lambda>r. r\<lparr>mr_deleted_at := Some now\<rparr>) db
      in (fetch_optional rows, db'))"

definition activate :: "int \<Rightarrow> nat \<Rightarrow> database \<Rightarrow> database" where
  "activate now meeting_id db =
     snd (update_meetings now (\<lambda>r. mr_id r = meeting_id) (\<lambda>r. r\<lparr>mr_state := Some ''active''\<rparr>) db)"

definition end_meeting :: "int \<Rightarrow> nat \<Rightarrow> database \<Rightarrow> database" where
  "end_meeting now meeting_id db =
     snd (update_meetings now (\<lambda>r. mr_id r = meeting_id)
            (\<lambda>r. r\<lparr>mr_state := Some ''ended'', mr_ended_at := Some now\<rparr>) db)"

definition set_host_display_name ::
  "int \<Rightarrow> nat \<Rightarrow> string \<Rightarrow> database \<Rightarrow> (sqlx_error + unit) \<times> database" where
  "set_host_display_name now meeting_id display_name db =
     (if \<not> fits_varchar display_name \<and> list_ex (\<lambda>r. mr_id r = meeting_id) (db_meetings db)
      then (Inl StringTooLong, db)
      else (Inr (), snd (update_meetings now (\<lambda>r. mr_id r = meeting_id)
                           (\<lambda>r. r\<lparr>mr_host_display_name := Some display_name\<rparr>) db)))"

definition update_waiting_room_enabled ::
  "int \<Rightarrow> string \<Rightarrow> string \<Rightarrow> bool \<Rightarrow> database \<Rightarrow> meeting_row option \<times> database" where
  "update_waiting_room_enabled now room_id creator_id enabled db =
     (let (rows, db') = update_meetings now
            (\<lambda>r. mr_room_id r = room_id \<and> mr_creator_id r = Some creator_id \<and> live r)
            (\<lambda>r. r\<lparr>mr_waiting_room_enabled := enabled\<rparr>) db
      in case fetch_optional rows of
           None \<Rightarrow> (None, db')
         | Some row \<Rightarrow>
             (Some row,
              if \<not> enabled
              then snd (update_participants now
                          (\<lambda>p. pr_meeting_id p = mr_id row \<and> pr_status p = ''waiting'')
                          (\<lambda>p. p\<lparr>pr_status := ''admitted'', pr_admitted_at := Some now\<rparr>) db')
              else db'))"

section \<open>Participant queries\<close>

text \<open>\<open>INSERT ... ON CONFLICT (meeting_id, user_id) DO UPDATE ... RETURNING\<close>.\<close>

definition upsert_participant ::
  "int \<Rightarrow> participant_row \<Rightarrow> (participant_row \<Rightarrow> participant_row) \<Rightarrow> database \<Rightarrow>
   (sqlx_error + participant_row) \<times> database" where
  "upsert_participant now row on_conflict db =
     (let db1 = db\<lparr>db_next_participant := Suc (db_next_participant db)\<rparr>;
          same = (\<lambda>p. pr_meeting_id p = pr_meeting_id row \<and> pr_user_id p = pr_user_id row)
      in if \<not> (fits_varchar (pr_user_id row) \<and> opt_fits_varchar (pr_display_name row))
         then (Inl StringTooLong, db1)
         else case fetch_optional (fst (update_participants now same on_conflict db1)) of
                Some p \<Rightarrow> (Inr p, snd (update_participants now same on_conflict db1))
              | None \<Rightarrow>
                  if \<not> list_ex (\<lambda>r. mr_id r = pr_meeting_id row) (db_meetings db)
                  then (Inl ForeignKeyViolation, db1)
                  else (Inr row, db1\<lparr>db_participants := db_participants db @ [row]\<rparr>))"

definition new_participant ::
  "int \<Rightarrow> nat \<Rightarrow> string \<Rightarrow> string \<Rightarrow> bool \<Rightarrow> string option \<Rightarrow> int option \<Rightarrow> database \<Rightarrow> participant_row" where
  "new_participant now meeting_id user_id status is_host display_name admitted_at db =
     \<lparr>pr_id = db_next_participant db, pr_meeting_id = meeting_id, pr_user_id = user_id,
      pr_status = status, pr_is_host = is_host, pr_is_required = False, pr_joined_at = now,
      pr_admitted_at = admitted_at, pr_left_at = None, pr_created_at = now, pr_updated_at = now,
      pr_display_name = display_name\<rparr>"

definition upsert_host ::
  "int \<Rightarrow> nat \<Rightarrow> string \<Rightarrow> string option \<Rightarrow> database \<Rightarrow> (sqlx_error + participant_row) \<times> database" where
  "upsert_host now meeting_id user_id display_name db =
     upsert_participant now
       (new_participant now meeting_id user_id ''admitted'' True display_name (Some now) db)
       (\<lambda>p. p\<lparr>pr_status := ''admitted'', pr_is_host := True, pr_admitted_at := Some now,
              pr_left_at := None, pr_display_name := coalesce display_name (pr_display_name p)\<rparr>)
       db"

definition join_attendee ::
  "int \<Rightarrow> nat \<Rightarrow> string \<Rightarrow> string option \<Rightarrow> database \<Rightarrow>
   (sqlx_error + bool \<times> participant_row \<times> bool) \<times> database" where
  "join_attendee now meeting_id user_id display_name db =
     (case fetch_optional (filter (\<lambda>r. mr_id r = meeting_id) (db_meetings db)) of
        None \<Rightarrow> (Inl RowNotFound, db)
      | Some m \<Rightarrow>
          let waiting_room_enabled = mr_waiting_room_enabled m;
              inserted =
                (if waiting_room_enabled
                 then upsert_participant now
                        (new_participant now meeting_id user_id ''waiting'' False display_name None db)
                        (\<lambda>p. p\<lparr>pr_status := ''waiting'', pr_left_at := None,
                               pr_display_name := coalesce display_name (pr_display_name p)\<rparr>) db
                 else upsert_participant now
                        (new_participant now meeting_id user_id ''admitted'' False display_name
                           (Some now) db)
                        (\<lambda>p. p\<lparr>pr_status := ''admitted'', pr_admitted_at := Some now,
                               pr_left_at := None,
                               pr_display_name := coalesce display_name (pr_display_name p)\<rparr>) db)
          in case inserted of
               (Inl e, db') \<Rightarrow> (Inl e, db')
             | (Inr row, db') \<Rightarrow> (Inr (\<not> waiting_room_enabled, row, waiting_room_enabled), db'))"

definition get_waiting :: "nat \<Rightarrow> database \<Rightarrow> participant_row list" where
  "get_waiting meeting_id db =
     filter (\<lambda>p. pr_meeting_id p = meeting_id \<and> pr_status p = ''waiting'') (db_participants db)"

definition get_admitted :: "nat \<Rightarrow> database \<Rightarrow> participant_row list" where
  "get_admitted meeting_id db =
     filter (\<lambda>p. pr_meeting_id p = meeting_id \<and> pr_status p = ''admitted'') (db_participants db)"

definition get_status :: "nat \<Rightarrow> string \<Rightarrow> database \<Rightarrow> participant_row option" where
  "get_status meeting_id user_id db =
     fetch_optional
       (filter (\<lambda>p. pr_meeting_id p = meeting_id \<and> pr_user_id p = user_id) (db_participants db))"

definition admit :: "int \<Rightarrow> nat \<Rightarrow> string \<Rightarrow> database \<Rightarrow> participant_row option \<times> database" where
  "admit now meeting_id user_id db =
     (let (rows, db') = update_participants now
            (\<lambda>p. pr_meeting_id p = meeting_id \<and> pr_user_id p = user_id \<and> pr_status p = ''waiting'')
            (\<lambda>p. p\<lparr>pr_status := ''admitted'', pr_admitted_at := Some now\<rparr>) db
      in (fetch_optional rows, db'))"

definition admit_all_rows :: "int \<Rightarrow> nat \<Rightarrow> database \<Rightarrow> participant_row list \<times> database" where
  "admit_all_rows now meeting_id db =
     update_participants now
       (\<lambda>p. pr_meeting_id p = meeting_id \<and> pr_status p = ''waiting'')
       (\<lambda>p. p\<lparr>pr_status := ''admitted'', pr_admitted_at := Some now\<rparr>) db"

definition reject :: "int \<Rightarrow> nat \<Rightarrow> string \<Rightarrow> database \<Rightarrow> participant_row option \<times> database" where
  "reject now meeting_id user_id db =
     (let (rows, db') = update_participants now
            (\<lambda>p. pr_meeting_id p = meeting_id \<and> pr_user_id p = user_id \<and> pr_status p = ''waiting'')
            (\<lambda>p. p\<lparr>pr_status := ''rejected''\<rparr>) db
      in (fetch_optional rows, db'))"

definition leave :: "int \<Rightarrow> nat \<Rightarrow> string \<Rightarrow> database \<Rightarrow> participant_row option \<times> database" where
  "leave now meeting_id user_id db =
     (let (rows, db') = update_participants now
            (\<lambda>p. pr_meeting_id p = meeting_id \<and> pr_user_id p = user_id \<and>
                 pr_status p \<in> {''admitted'', ''waiting''})
            (\<lambda>p. p\<lparr>pr_status := ''left'', pr_left_at := Some now\<rparr>) db
      in (fetch_optional rows, db'))"

definition count_admitted :: "nat \<Rightarrow> database \<Rightarrow> int" where
  "count_admitted meeting_id db =
     int (length (filter (\<lambda>p. pr_meeting_id p = meeting_id \<and> pr_status p = ''admitted'')
                    (db_participants db)))"

definition count_waiting :: "nat \<Rightarrow> database \<Rightarrow> int" where
  "count_waiting meeting_id db =
     int (length (filter (\<lambda>p. pr_meeting_id p = meeting_id \<and> pr_status p = ''waiting'')
                    (db_participants db)))"

text \<open>\<open>DateTime::timestamp\<close>: whole seconds, rounding down.\<close>

definition timestamp :: "int \<Rightarrow> int" where
  "timestamp t = t div 1000"

definition into_participant_status ::
  "participant_row \<Rightarrow> string option \<Rightarrow> participant_status_response" where
  "into_participant_status p room_token =
     \<lparr>ps_user_id = pr_user_id p, ps_display_name = pr_display_name p, ps_status = pr_status p,
      ps_is_host = pr_is_host p, ps_joined_at = timestamp (pr_joined_at p),
      ps_admitted_at = map_option timestamp (pr_admitted_at p), ps_room_token = room_token,
      ps_observer_token = None, ps_waiting_room_enabled = None, ps_host_display_name = None,
      ps_host_user_id = None\<rparr>"

section \<open>The database invariant\<close>

text \<open>
  What the schema does not enforce but the queries maintain, beside what it does: a meeting
  that is ended has an end time, an admitted participant an admission time, exactly the
  participants that left a leave time, and a meeting whose waiting room is off has nobody
  waiting.
\<close>

definition meeting_ok :: "meeting_row \<Rightarrow> bool" where
  "meeting_ok r \<longleftrightarrow>
     mr_state r \<in> {Some ''idle'', Some ''active'', Some ''ended''} \<and>
     (mr_state r = Some ''ended'' \<longrightarrow> mr_ended_at r \<noteq> None)"

definition participant_ok :: "participant_row \<Rightarrow> bool" where
  "participant_ok p \<longleftrightarrow>
     pr_status p \<in> {''waiting'', ''admitted'', ''rejected'', ''left''} \<and>
     (pr_status p = ''admitted'' \<longrightarrow> pr_admitted_at p \<noteq> None) \<and>
     (pr_status p = ''left'' \<longleftrightarrow> pr_left_at p \<noteq> None)"

definition meetings_inv :: "database \<Rightarrow> bool" where
  "meetings_inv db \<longleftrightarrow>
     distinct (map mr_id (db_meetings db)) \<and>
     list_all (\<lambda>r. mr_id r < db_next_meeting db) (db_meetings db) \<and>
     distinct (map mr_room_id (filter live (db_meetings db))) \<and>
     list_all meeting_ok (db_meetings db)"

definition participants_inv :: "database \<Rightarrow> bool" where
  "participants_inv db \<longleftrightarrow>
     distinct (map (\<lambda>p. (pr_meeting_id p, pr_user_id p)) (db_participants db)) \<and>
     list_all (\<lambda>p. pr_meeting_id p \<in> set (map mr_id (db_meetings db))) (db_participants db) \<and>
     list_all participant_ok (db_participants db)"

definition waiting_inv :: "database \<Rightarrow> bool" where
  "waiting_inv db \<longleftrightarrow>
     list_all (\<lambda>r. list_all (\<lambda>p. pr_meeting_id p = mr_id r \<longrightarrow> pr_status p = ''waiting'' \<longrightarrow>
                                  mr_waiting_room_enabled r)
                     (db_participants db))
       (db_meetings db)"

definition hosts_inv :: "database \<Rightarrow> bool" where
  "hosts_inv db \<longleftrightarrow>
     list_all (\<lambda>r. list_all (\<lambda>p. pr_meeting_id p = mr_id r \<longrightarrow> pr_is_host p \<longrightarrow>
                                  mr_creator_id r = Some (pr_user_id p))
                     (db_participants db))
       (db_meetings db)"

definition db_inv :: "database \<Rightarrow> bool" where
  "db_inv db \<longleftrightarrow> meetings_inv db \<and> participants_inv db \<and> waiting_inv db"

lemmas db_inv_defs = db_inv_def meetings_inv_def participants_inv_def waiting_inv_def

lemma db_inv_empty: "db_inv empty_db" "hosts_inv empty_db"
  by (simp_all add: db_inv_defs hosts_inv_def empty_db_def)

subsection \<open>Updating rows\<close>

lemma distinct_map_update:
  "(\<And>x. x \<in> set xs \<Longrightarrow> Q x \<Longrightarrow> h (g x) = h x) \<Longrightarrow>
   distinct (map h (map (\<lambda>x. if Q x then g x else x) xs)) \<longleftrightarrow> distinct (map h xs)"
  by (rule arg_cong [where f = distinct]) (auto simp: comp_def)

lemma distinct_map_filter_update:
  assumes "\<And>x. x \<in> set xs \<Longrightarrow> Q x \<Longrightarrow> h (g x) = h x \<and> (K (g x) \<longrightarrow> K x)"
    and "distinct (map h (filter K xs))"
  shows "distinct (map h (filter K (map (\<lambda>x. if Q x then g x else x) xs)))"
  using assms
proof (induction xs)
  case (Cons x xs)
  have IH: "distinct (map h (filter K (map (\<lambda>x. if Q x then g x else x) xs)))"
    using Cons by (auto split: if_splits)
  have sub: "h ` set (filter K (map (\<lambda>x. if Q x then g x else x) xs)) \<subseteq> h ` set (filter K xs)"
    using Cons.prems(1) by (force split: if_splits)
  show ?case
    using IH sub Cons.prems by (auto split: if_splits simp: image_iff subset_iff) 
qed simp

lemma db_meetings_update_meetings [simp]:
  "db_participants (snd (update_meetings now Q f db)) = db_participants db"
  "db_next_meeting (snd (update_meetings now Q f db)) = db_next_meeting db"
  "db_next_participant (snd (update_meetings now Q f db)) = db_next_participant db"
  by (simp_all add: update_meetings_def Let_def)

lemma db_participants_update_participants [simp]:
  "db_meetings (snd (update_participants now Q f db)) = db_meetings db"
  "db_next_meeting (snd (update_participants now Q f db)) = db_next_meeting db"
  "db_next_participant (snd (update_participants now Q f db)) = db_next_participant db"
  by (simp_all add: update_participants_def Let_def)

lemma update_meetings_inv:
  assumes "meetings_inv db"
    and "\<And>r. Q r \<Longrightarrow> mr_id (f r) = mr_id r \<and> mr_room_id (f r) = mr_room_id r \<and>
                     (live (f r) \<longrightarrow> live r) \<and> (meeting_ok r \<longrightarrow> meeting_ok ((f r)\<lparr>mr_updated_at := now\<rparr>))"
  shows "meetings_inv (snd (update_meetings now Q f db))"
proof -
  let ?g = "\<lambda>r. (f r)\<lparr>mr_updated_at := now\<rparr>"
  have step: "mr_id (?g r) = mr_id r" "mr_room_id (?g r) = mr_room_id r \<and> (live (?g r) \<longrightarrow> live r)"
    if "Q r" for r
    using assms(2) [OF that] by (simp_all add: live_def)
  show ?thesis
    using assms(1) distinct_map_update [of "db_meetings db" Q mr_id ?g]
      distinct_map_filter_update [of "db_meetings db" Q mr_room_id ?g live]
    by (auto simp: meetings_inv_def update_meetings_def Let_def step list_all_iff dest: assms(2))
qed

lemma update_meetings_participants_inv:
  assumes "participants_inv db" and "\<And>r. Q r \<Longrightarrow> mr_id (f r) = mr_id r"
  shows "participants_inv (snd (update_meetings now Q f db))"
proof -
  have "map mr_id (db_meetings (snd (update_meetings now Q f db))) = map mr_id (db_meetings db)"
    using assms(2) by (auto simp: update_meetings_def Let_def)
  then show ?thesis using assms(1) by (simp add: participants_inv_def del: set_map)
qed

lemma update_meetings_waiting_inv:
  assumes "waiting_inv db"
    and "\<And>r. Q r \<Longrightarrow> mr_id (f r) = mr_id r \<and> mr_waiting_room_enabled (f r) = mr_waiting_room_enabled r"
  shows "waiting_inv (snd (update_meetings now Q f db))"
  using assms by (auto simp: waiting_inv_def update_meetings_def Let_def list_all_iff)

lemma update_meetings_hosts_inv:
  assumes "hosts_inv db"
    and "\<And>r. Q r \<Longrightarrow> mr_id (f r) = mr_id r \<and> mr_creator_id (f r) = mr_creator_id r"
  shows "hosts_inv (snd (update_meetings now Q f db))"
  using assms by (auto simp: hosts_inv_def update_meetings_def Let_def list_all_iff)

lemma update_participants_inv:
  assumes "participants_inv db"
    and "\<And>p. Q p \<Longrightarrow> pr_meeting_id (f p) = pr_meeting_id p \<and> pr_user_id (f p) = pr_user_id p \<and>
                     (participant_ok p \<longrightarrow> participant_ok ((f p)\<lparr>pr_updated_at := now\<rparr>))"
  shows "participants_inv (snd (update_participants now Q f db))"
proof -
  let ?g = "\<lambda>p. (f p)\<lparr>pr_updated_at := now\<rparr>"
  have step: "pr_meeting_id (?g p) = pr_meeting_id p" "pr_user_id (?g p) = pr_user_id p" if "Q p" for p
    using assms(2) [OF that] by simp_all
  show ?thesis
    using assms(1)
      distinct_map_update [of "db_participants db" Q "\<lambda>p. (pr_meeting_id p, pr_user_id p)" ?g]
    by (auto simp: participants_inv_def update_participants_def Let_def step list_all_iff
             dest: assms(2))
qed

lemma update_participants_waiting_inv:
  assumes "waiting_inv db"
    and "\<And>p. Q p \<Longrightarrow> pr_meeting_id (f p) = pr_meeting_id p \<and>
            (pr_status (f p) = ''waiting'' \<longrightarrow> pr_status p = ''waiting'')"
  shows "waiting_inv (snd (update_participants now Q f db))"
  using assms by (auto simp: waiting_inv_def update_participants_def Let_def list_all_iff)

lemma update_participants_hosts_inv:
  assumes "hosts_inv db"
    and "\<And>p. Q p \<Longrightarrow> pr_meeting_id (f p) = pr_meeting_id p \<and> pr_user_id (f p) = pr_user_id p \<and>
                     pr_is_host (f p) = pr_is_host p"
  shows "hosts_inv (snd (update_participants now Q f db))"
  using assms by (auto simp: hosts_inv_def update_participants_def Let_def list_all_iff)

lemma update_participants_meetings_inv [simp]:
  "meetings_inv (snd (update_participants now Q f db)) \<longleftrightarrow> meetings_inv db"
  by (simp add: meetings_inv_def)

subsection \<open>Inserting rows\<close>

lemma next_meeting_fresh:
  assumes "db_inv db"
  shows "r \<in> set (db_meetings db) \<Longrightarrow> mr_id r \<noteq> db_next_meeting db"
    and "p \<in> set (db_participants db) \<Longrightarrow> pr_meeting_id p \<noteq> db_next_meeting db"
proof -
  show fresh: "r \<in> set (db_meetings db) \<Longrightarrow> mr_id r \<noteq> db_next_meeting db" for r
    using assms by (auto simp: db_inv_def meetings_inv_def list_all_iff)
  show "p \<in> set (db_participants db) \<Longrightarrow> pr_meeting_id p \<noteq> db_next_meeting db"
    using assms fresh by (auto simp: db_inv_def participants_inv_def list_all_iff)
qed

lemma create_inv:
  assumes "db_inv db"
  shows "db_inv (snd (create_with_options now room creator pwd att wr db))"
  using assms next_meeting_fresh [OF assms]
  by (auto simp: create_with_options_def Let_def db_inv_defs list_all_iff list_ex_iff meeting_ok_def
                 live_def less_Suc_eq)

lemma create_hosts_inv:
  assumes "db_inv db" and "hosts_inv db"
  shows "hosts_inv (snd (create_with_options now room creator pwd att wr db))"
  using assms(2) next_meeting_fresh(2) [OF assms(1)]
  by (auto simp: create_with_options_def Let_def hosts_inv_def list_all_iff)

text \<open>An upsert keeps the invariants when both the inserted row and the update do.\<close>

lemma fetch_optional_eq_None [simp]: "fetch_optional xs = None \<longleftrightarrow> xs = []"
  by (cases xs) (auto simp: fetch_optional_def)

lemma fetch_optional_simps [simp]:
  "fetch_optional [] = None"
  "fetch_optional (x # xs) = Some x"
  by (simp_all add: fetch_optional_def)

lemma fetch_optional_SomeD: "fetch_optional xs = Some x \<Longrightarrow> x \<in> set xs"
  by (cases xs) (auto simp: fetch_optional_def)

definition bump_participant :: "database \<Rightarrow> database" where
  "bump_participant db = db\<lparr>db_next_participant := Suc (db_next_participant db)\<rparr>"

lemma bump_participant_inv [simp]:
  "meetings_inv (bump_participant db) = meetings_inv db"
  "participants_inv (bump_participant db) = participants_inv db"
  "waiting_inv (bump_participant db) = waiting_inv db"
  "hosts_inv (bump_participant db) = hosts_inv db"
  "db_meetings (bump_participant db) = db_meetings db"
  "db_participants (bump_participant db) = db_participants db"
  by (simp_all add: bump_participant_def meetings_inv_def participants_inv_def waiting_inv_def
        hosts_inv_def)

abbreviation same_participant :: "participant_row \<Rightarrow> participant_row \<Rightarrow> bool" where
  "same_participant row p \<equiv> pr_meeting_id p = pr_meeting_id row \<and> pr_user_id p = pr_user_id row"

lemma upsert_participant_cases:
  obtains
    (failed) e where "upsert_participant now row g db = (Inl e, bump_participant db)"
  | (updated) p where "p \<in> set (db_participants db)" "same_participant row p"
      "upsert_participant now row g db =
         (Inr ((g p)\<lparr>pr_updated_at := now\<rparr>),
          snd (update_participants now (same_participant row) g (bump_participant db)))"
  | (inserted) "\<forall>p \<in> set (db_participants db). \<not> same_participant row p"
      "pr_meeting_id row \<in> set (map mr_id (db_meetings db))"
      "upsert_participant now row g db =
         (Inr row, (bump_participant db)\<lparr>db_participants := db_participants db @ [row]\<rparr>)"
proof (cases "fits_varchar (pr_user_id row) \<and> opt_fits_varchar (pr_display_name row)")
  case fits: True
  show thesis
  proof (cases "filter (same_participant row) (db_participants db)")
    case Nil
    then have none: "\<forall>p \<in> set (db_participants db). \<not> same_participant row p"
      by (auto simp: filter_empty_conv)
    show thesis
    proof (cases "list_ex (\<lambda>r. mr_id r = pr_meeting_id row) (db_meetings db)")
      case True
      with none Nil fits show thesis
        by (intro inserted) (auto simp: upsert_participant_def Let_def update_participants_def
              bump_participant_def fetch_optional_def list_ex_iff intro: rev_image_eqI)
    next
      case False
      with Nil fits show thesis
        by (intro failed [of ForeignKeyViolation]) (auto simp: upsert_participant_def Let_def
              update_participants_def bump_participant_def fetch_optional_def)
    qed
  next
    case (Cons p ps)
    then have "p \<in> set (filter (same_participant row) (db_participants db))" by simp
    then have "p \<in> set (db_participants db)" "same_participant row p" by simp_all
    then show thesis
      using fits updated [of p] Cons
      by (auto simp: upsert_participant_def Let_def update_participants_def bump_participant_def
            fetch_optional_def)
  qed
next
  case False
  then show thesis
    using failed by (auto simp: upsert_participant_def bump_participant_def Let_def)
qed

lemma upsert_participant_inv:
  assumes "db_inv db" and "participant_ok row"
    and "\<And>p. pr_meeting_id (g p) = pr_meeting_id p \<and> pr_user_id (g p) = pr_user_id p \<and>
              (participant_ok p \<longrightarrow> participant_ok ((g p)\<lparr>pr_updated_at := now\<rparr>))"
    and "\<And>r. r \<in> set (db_meetings db) \<Longrightarrow> mr_id r = pr_meeting_id row \<Longrightarrow>
              mr_waiting_room_enabled r \<or>
              pr_status row \<noteq> ''waiting'' \<and> (\<forall>p. pr_status (g p) \<noteq> ''waiting'')"
  shows "db_inv (snd (upsert_participant now row g db))"
proof (cases rule: upsert_participant_cases [of now row g db])
  case (failed e)
  then show ?thesis using assms(1) by (simp add: db_inv_def)
next
  case (updated p)
  have "participants_inv (snd (update_participants now (same_participant row) g (bump_participant db)))"
    using assms(1,3) by (intro update_participants_inv) (auto simp: db_inv_def)
  moreover have "waiting_inv (snd (update_participants now (same_participant row) g (bump_participant db)))"
  proof -
    have "mr_waiting_room_enabled r"
      if r: "r \<in> set (db_meetings db)" and q: "q \<in> set (db_participants db)"
        and "pr_meeting_id q = mr_id r"
        and "(if same_participant row q then pr_status (g q) else pr_status q) = ''waiting''" for r q
      using that assms(4) [OF r] assms(1)
      by (auto simp: db_inv_def waiting_inv_def list_all_iff split: if_splits)
    then show ?thesis
      using assms(3) by (auto simp: waiting_inv_def update_participants_def Let_def list_all_iff)
  qed
  ultimately show ?thesis using assms(1) updated by (simp add: db_inv_def)
next
  case inserted
  then show ?thesis
    using assms(1,2,4)
    by (auto simp: db_inv_def meetings_inv_def participants_inv_def waiting_inv_def list_all_iff
          bump_participant_def)
qed

lemma upsert_participant_hosts_inv:
  assumes "hosts_inv db"
    and "\<And>p. pr_meeting_id (g p) = pr_meeting_id p \<and> pr_user_id (g p) = pr_user_id p"
    and "\<And>r p. r \<in> set (db_meetings db) \<Longrightarrow> mr_id r = pr_meeting_id row \<Longrightarrow>
              mr_creator_id r = Some (pr_user_id row) \<or>
              \<not> pr_is_host row \<and> pr_is_host (g p) = pr_is_host p"
  shows "hosts_inv (snd (upsert_participant now row g db))"
proof (cases rule: upsert_participant_cases [of now row g db])
  case (failed e)
  then show ?thesis using assms(1) by simp
next
  case (updated p)
  have "mr_creator_id r = Some (pr_user_id q)"
    if r: "r \<in> set (db_meetings db)" and q: "q \<in> set (db_participants db)"
      and "pr_meeting_id q = mr_id r"
      and "if same_participant row q then pr_is_host (g q) else pr_is_host q" for r q
    using that assms(3) [OF r, of q] assms(1)
    by (auto simp: hosts_inv_def list_all_iff split: if_splits)
  then show ?thesis
    using assms(2) updated by (auto simp: hosts_inv_def update_participants_def Let_def list_all_iff)
next
  case inserted
  then show ?thesis
    using assms by (auto simp: hosts_inv_def list_all_iff bump_participant_def)
qed

section \<open>Every query keeps the invariant\<close>

lemma meeting_update_inv:
  assumes "db_inv db"
    and "\<And>r. Q r \<Longrightarrow> mr_id (f r) = mr_id r \<and> mr_room_id (f r) = mr_room_id r \<and>
                     (live (f r) \<longrightarrow> live r) \<and> (meeting_ok r \<longrightarrow> meeting_ok ((f r)\<lparr>mr_updated_at := now\<rparr>)) \<and>
                     mr_waiting_room_enabled (f r) = mr_waiting_room_enabled r"
  shows "db_inv (snd (update_meetings now Q f db))"
  using assms update_meetings_inv [of db Q f now] update_meetings_participants_inv [of db Q f now]
    update_meetings_waiting_inv [of db Q f now]
  by (auto simp: db_inv_def)

lemma participant_update_inv:
  assumes "db_inv db"
    and "\<And>p. Q p \<Longrightarrow> pr_meeting_id (f p) = pr_meeting_id p \<and> pr_user_id (f p) = pr_user_id p \<and>
                     (participant_ok p \<longrightarrow> participant_ok ((f p)\<lparr>pr_updated_at := now\<rparr>)) \<and>
                     (pr_status (f p) = ''waiting'' \<longrightarrow> pr_status p = ''waiting'')"
  shows "db_inv (snd (update_participants now Q f db))"
  using assms update_participants_inv [of db Q f now] update_participants_waiting_inv [of db Q f now]
  by (auto simp: db_inv_def)

lemma soft_delete_inv: "db_inv db \<Longrightarrow> db_inv (snd (soft_delete now room creator db))"
  by (auto simp: soft_delete_def Let_def case_prod_beta meeting_ok_def live_def
           intro!: meeting_update_inv)

lemma activate_inv: "db_inv db \<Longrightarrow> db_inv (activate now mid db)"
  by (auto simp: activate_def meeting_ok_def live_def intro!: meeting_update_inv)

lemma end_meeting_inv: "db_inv db \<Longrightarrow> db_inv (end_meeting now mid db)"
  by (auto simp: end_meeting_def meeting_ok_def live_def intro!: meeting_update_inv)

lemma set_host_display_name_inv: "db_inv db \<Longrightarrow> db_inv (snd (set_host_display_name now mid dn db))"
  by (auto simp: set_host_display_name_def meeting_ok_def live_def intro!: meeting_update_inv)

lemma admit_inv: "db_inv db \<Longrightarrow> db_inv (snd (admit now mid uid db))"
  by (auto simp: admit_def Let_def case_prod_beta participant_ok_def intro!: participant_update_inv)

lemma admit_all_rows_inv: "db_inv db \<Longrightarrow> db_inv (snd (admit_all_rows now mid db))"
  by (auto simp: admit_all_rows_def participant_ok_def intro!: participant_update_inv)

lemma reject_inv: "db_inv db \<Longrightarrow> db_inv (snd (reject now mid uid db))"
  by (auto simp: reject_def Let_def case_prod_beta participant_ok_def intro!: participant_update_inv)

lemma leave_inv: "db_inv db \<Longrightarrow> db_inv (snd (leave now mid uid db))"
  by (auto simp: leave_def Let_def case_prod_beta participant_ok_def intro!: participant_update_inv)

lemma upsert_host_inv: "db_inv db \<Longrightarrow> db_inv (snd (upsert_host now mid uid dn db))"
  unfolding upsert_host_def
  by (rule upsert_participant_inv) (auto simp: participant_ok_def new_participant_def)

lemma meeting_of_id:
  assumes "meetings_inv db" "r \<in> set (db_meetings db)"
  shows "fetch_optional (filter (\<lambda>m. mr_id m = mr_id r) (db_meetings db)) = Some r"
proof -
  have "distinct (map mr_id (db_meetings db))" using assms(1) by (simp add: meetings_inv_def)
  then have "filter (\<lambda>m. mr_id m = mr_id r) (db_meetings db) = [r]"
    using assms(2)
  proof (induction "db_meetings db" arbitrary: db)
    case (Cons m M)
    from Cons.hyps(1) [of "\<lparr>db_meetings = M, db_next_meeting = 0, db_participants = [], db_next_participant = 0\<rparr>"]
      Cons.hyps(2) [symmetric] Cons.prems
    show ?case by (auto simp: filter_empty_conv intro: rev_image_eqI)
  qed simp
  then show ?thesis by (simp add: fetch_optional_def)
qed

lemma join_attendee_inv:
  assumes "db_inv db"
  shows "db_inv (snd (join_attendee now mid uid dn db))"
proof (cases "fetch_optional (filter (\<lambda>r. mr_id r = mid) (db_meetings db))")
  case None
  then show ?thesis using assms by (simp add: join_attendee_def)
next
  case (Some m)
  then have m: "m \<in> set (db_meetings db)" "mr_id m = mid"
    by (auto dest!: fetch_optional_SomeD)
  have unique: "r = m" if "r \<in> set (db_meetings db)" "mr_id r = mid" for r
    using meeting_of_id [of db r] that assms Some by (simp add: db_inv_def)
  show ?thesis
    using assms unique Some
    by (auto simp: join_attendee_def Let_def case_prod_beta participant_ok_def new_participant_def
             split: sum.splits intro!: upsert_participant_inv)
qed

lemma distinct_map_filter_singleton:
  "distinct (map h (filter K xs)) \<Longrightarrow> x \<in> set xs \<Longrightarrow> K x \<Longrightarrow> filter (\<lambda>y. h y = h x \<and> K y) xs = [x]"
  by (induction xs) (auto simp: filter_empty_conv image_iff split: if_splits)

lemma get_by_room_id_Some_iff:
  assumes "meetings_inv db"
  shows "get_by_room_id room db = Some r \<longleftrightarrow>
           r \<in> set (db_meetings db) \<and> mr_room_id r = room \<and> live r"
proof
  assume "get_by_room_id room db = Some r"
  then show "r \<in> set (db_meetings db) \<and> mr_room_id r = room \<and> live r"
    by (auto simp: get_by_room_id_def dest!: fetch_optional_SomeD)
next
  assume "r \<in> set (db_meetings db) \<and> mr_room_id r = room \<and> live r"
  then show "get_by_room_id room db = Some r"
    using assms distinct_map_filter_singleton [of mr_room_id live "db_meetings db" r]
    by (auto simp: get_by_room_id_def meetings_inv_def)
qed

lemma get_status_Some_iff:
  assumes "participants_inv db"
  shows "get_status mid uid db = Some p \<longleftrightarrow>
           p \<in> set (db_participants db) \<and> pr_meeting_id p = mid \<and> pr_user_id p = uid"
proof
  assume "get_status mid uid db = Some p"
  then show "p \<in> set (db_participants db) \<and> pr_meeting_id p = mid \<and> pr_user_id p = uid"
    by (auto simp: get_status_def dest!: fetch_optional_SomeD)
next
  assume p: "p \<in> set (db_participants db) \<and> pr_meeting_id p = mid \<and> pr_user_id p = uid"
  have "distinct (map (\<lambda>p. (pr_meeting_id p, pr_user_id p)) (filter (\<lambda>_. True) (db_participants db)))"
    using assms by (simp add: participants_inv_def)
  from distinct_map_filter_singleton [OF this, of p] p
  show "get_status mid uid db = Some p" by (simp add: get_status_def)
qed

lemma update_waiting_room_enabled_inv:
  assumes "db_inv db"
  shows "db_inv (snd (update_waiting_room_enabled now room creator enabled db))"
proof -
  let ?Q = "\<lambda>r. mr_room_id r = room \<and> mr_creator_id r = Some creator \<and> live r"
  let ?f = "\<lambda>r. r\<lparr>mr_waiting_room_enabled := enabled\<rparr>"
  let ?db = "snd (update_meetings now ?Q ?f db)"
  let ?W = "\<lambda>i p. pr_meeting_id p = i \<and> pr_status p = ''waiting''"
  let ?g = "\<lambda>p. p\<lparr>pr_status := ''admitted'', pr_admitted_at := Some now\<rparr>"
  have meet: "meetings_inv ?db"
    using assms by (auto simp: db_inv_def meeting_ok_def live_def intro!: update_meetings_inv)
  have parts: "participants_inv ?db"
    using assms by (auto simp: db_inv_def intro!: update_meetings_participants_inv)
  show ?thesis
  proof (cases "filter ?Q (db_meetings db)")
    case Nil
    then have "map (\<lambda>r. if ?Q r then (?f r)\<lparr>mr_updated_at := now\<rparr> else r) (db_meetings db) = db_meetings db"
      by (intro map_idI) (auto simp: filter_empty_conv)
    then have "?db = db" by (simp add: update_meetings_def Let_def)
    then show ?thesis
      using assms Nil by (simp add: update_waiting_room_enabled_def update_meetings_def Let_def)
  next
    case (Cons m M)
    then have "m \<in> set (filter ?Q (db_meetings db))" by simp
    then have m: "m \<in> set (db_meetings db)" "?Q m" by simp_all
    have only: "r = m" if "r \<in> set (db_meetings db)" "?Q r" for r
      using that m get_by_room_id_Some_iff [of db room] assms by (metis db_inv_def option.inject)
    let ?db' = "if enabled then ?db else snd (update_participants now (?W (mr_id m)) ?g ?db)"
    have eq: "snd (update_waiting_room_enabled now room creator enabled db) = ?db'"
      using Cons by (cases enabled) (simp_all add: update_waiting_room_enabled_def update_meetings_def Let_def)
    have rows: "db_meetings ?db = map (\<lambda>r. if ?Q r then (?f r)\<lparr>mr_updated_at := now\<rparr> else r) (db_meetings db)"
      by (simp add: update_meetings_def Let_def)
    have old: "mr_waiting_room_enabled r"
      if "r \<in> set (db_meetings db)" "p \<in> set (db_participants db)" "?W (mr_id r) p" for r p
      using that assms by (auto simp: db_inv_def waiting_inv_def list_all_iff)
    have "waiting_inv ?db'"
    proof (cases enabled)
      case True
      show ?thesis
        using old unfolding if_P [OF True] waiting_inv_def list_all_iff rows by (auto simp: True)
    next
      case False
      show ?thesis
        using old only
        unfolding if_not_P [OF False] waiting_inv_def list_all_iff db_participants_update_participants rows
        by (auto simp: update_participants_def Let_def)
    qed
    moreover have "participants_inv ?db'"
      using parts by (auto simp: participant_ok_def intro!: update_participants_inv)
    moreover have "meetings_inv ?db'"
      using meet
      by (simp only: if_distrib [of meetings_inv] update_participants_meetings_inv if_cancel)
    ultimately show ?thesis unfolding eq db_inv_def by blast
  qed
qed

text \<open>The write queries as one type, so that a run is any serialisation of them.\<close>

datatype db_op =
    OpCreate string string "string option" "string list" bool
  | OpSoftDelete string string
  | OpActivate nat
  | OpEndMeeting nat
  | OpSetHostDisplayName nat string
  | OpUpdateWaitingRoom string string bool
  | OpUpsertHost nat string "string option"
  | OpJoinAttendee nat string "string option"
  | OpAdmit nat string
  | OpAdmitAll nat
  | OpReject nat string
  | OpLeave nat string

fun db_exec :: "database \<Rightarrow> int \<times> db_op \<Rightarrow> database" where
  "db_exec db (now, OpCreate room creator pwd att wr) = snd (create_with_options now room creator pwd att wr db)"
| "db_exec db (now, OpSoftDelete room creator) = snd (soft_delete now room creator db)"
| "db_exec db (now, OpActivate mid) = activate now mid db"
| "db_exec db (now, OpEndMeeting mid) = end_meeting now mid db"
| "db_exec db (now, OpSetHostDisplayName mid dn) = snd (set_host_display_name now mid dn db)"
| "db_exec db (now, OpUpdateWaitingRoom room creator enabled) =
     snd (update_waiting_room_enabled now room creator enabled db)"
| "db_exec db (now, OpUpsertHost mid uid dn) = snd (upsert_host now mid uid dn db)"
| "db_exec db (now, OpJoinAttendee mid uid dn) = snd (join_attendee now mid uid dn db)"
| "db_exec db (now, OpAdmit mid uid) = snd (admit now mid uid db)"
| "db_exec db (now, OpAdmitAll mid) = snd (admit_all_rows now mid db)"
| "db_exec db (now, OpReject mid uid) = snd (reject now mid uid db)"
| "db_exec db (now, OpLeave mid uid) = snd (leave now mid uid db)"

lemmas db_op_inv =
  create_inv soft_delete_inv activate_inv end_meeting_inv set_host_display_name_inv
  update_waiting_room_enabled_inv upsert_host_inv join_attendee_inv admit_inv admit_all_rows_inv
  reject_inv leave_inv

interpretation meeting_db: invariant_system db_exec db_inv "\<lambda>_. True"
proof
  fix db i assume "db_inv db"
  then show "db_inv (db_exec db i)"
    by (cases i; cases "snd i") (auto intro: db_op_inv)
qed


end
