(* ===== verification/Room_Tokens.thy ===== *)
theory Room_Tokens
  imports Meeting_Types
begin

text \<open>
  Access tokens, from issue to connection: \<open>meeting-api/src/token.rs\<close> signs session, room and
  observer tokens with the claims of \<open>videocall-meeting-types/src/token.rs\<close>;
  \<open>actix-api/src/token_validator.rs\<close> checks them, and the connection endpoints of
  \<open>actix-api/src/lobby.rs\<close> and \<open>actix-api/src/webtransport/mod.rs\<close> admit or refuse a client.

  The \<open>jsonwebtoken\<close> crate is not part of the repository. The record \<open>jwt\<close> carries its encode,
  signature check and decode functions as a parameter; \<open>jwt_law\<close> states what the services rely
  on, the documented behaviour of the crate with its default validation: a token that was
  signed verifies under the same secret and yields its claims, and decoding accepts exactly the
  tokens that verify, whose expiry is a timestamp no more than the default leeway of sixty
  seconds in the past and whose issuer is the expected one. Timestamps are integers; the clock, the
  secret from the environment and the feature flag are arguments.
\<close>

section \<open>Claims\<close>

record room_access_token_claims =
  rc_sub :: string
  rc_room :: string
  rc_room_join :: bool
  rc_is_host :: bool
  rc_display_name :: string
  rc_observer :: bool
  rc_exp :: int
  rc_iss :: string

definition ROOM_ISSUER :: string where
  "ROOM_ISSUER = ''videocall-meeting-backend''"

record session_token_claims =
  sc_sub :: string
  sc_name :: string
  sc_exp :: int
  sc_iat :: int
  sc_iss :: string

definition SESSION_ISSUER :: string where
  "SESSION_ISSUER = ''videocall-meeting-backend''"

section \<open>The token library as a parameter\<close>

datatype jwt_error = ExpiredSignature | OtherJwtError string

record 'c jwt =
  jwt_encode :: "bytes \<Rightarrow> 'c \<Rightarrow> string option"
  jwt_verify :: "bytes \<Rightarrow> string \<Rightarrow> 'c option"
  jwt_decode :: "bytes \<Rightarrow> string \<Rightarrow> int \<Rightarrow> string \<Rightarrow> jwt_error + 'c"

definition JWT_LEEWAY :: int where
  "JWT_LEEWAY = 60"

definition jwt_law :: "('c \<Rightarrow> int) \<Rightarrow> ('c \<Rightarrow> string) \<Rightarrow> 'c jwt \<Rightarrow> bool" where
  "jwt_law exp_of iss_of J \<longleftrightarrow>
     (\<forall>secret c token. jwt_encode J secret c = Some token \<longrightarrow> jwt_verify J secret token = Some c) \<and>
     (\<forall>secret iss now token.
        case jwt_verify J secret token of
          None \<Rightarrow> \<exists>msg. jwt_decode J secret iss now token = Inl (OtherJwtError msg)
        | Some c \<Rightarrow>
            if exp_of c < 0 then \<exists>e. jwt_decode J secret iss now token = Inl e
            else if exp_of c < now - JWT_LEEWAY
            then jwt_decode J secret iss now token = Inl ExpiredSignature
            else if iss_of c \<noteq> iss
            then \<exists>msg. jwt_decode J secret iss now token = Inl (OtherJwtError msg)
            else jwt_decode J secret iss now token = Inr c)"

section \<open>Issuing tokens\<close>

definition generate_session_token ::
  "session_token_claims jwt \<Rightarrow> int \<Rightarrow> string \<Rightarrow> string \<Rightarrow> string \<Rightarrow> int \<Rightarrow> app_error + string" where
  "generate_session_token J now secret user_id name ttl_secs =
     (let claims = \<lparr>sc_sub = user_id, sc_name = name, sc_exp = now + ttl_secs, sc_iat = now,
                    sc_iss = SESSION_ISSUER\<rparr>
      in case jwt_encode J (as_bytes secret) claims of
           Some token \<Rightarrow> Inr token
         | None \<Rightarrow> Inl (app_internal ''failed to generate session token''))"

definition decode_session_token ::
  "session_token_claims jwt \<Rightarrow> int \<Rightarrow> string \<Rightarrow> string \<Rightarrow> app_error + session_token_claims" where
  "decode_session_token J now secret token =
     (case jwt_decode J (as_bytes secret) SESSION_ISSUER now token of
        Inr claims \<Rightarrow> Inr claims
      | Inl e \<Rightarrow> Inl (app_unauthorized_msg ''invalid or expired session''))"

definition generate_room_token ::
  "room_access_token_claims jwt \<Rightarrow> int \<Rightarrow> string \<Rightarrow> int \<Rightarrow> string \<Rightarrow> string \<Rightarrow> bool \<Rightarrow> string \<Rightarrow>
   app_error + string" where
  "generate_room_token J now secret ttl_secs user_id room is_host display_name =
     (let claims = \<lparr>rc_sub = user_id, rc_room = room, rc_room_join = True, rc_is_host = is_host,
                    rc_display_name = display_name, rc_observer = False,
                    rc_exp = now + ttl_secs, rc_iss = ROOM_ISSUER\<rparr>
      in case jwt_encode J (as_bytes secret) claims of
           Some token \<Rightarrow> Inr token
         | None \<Rightarrow> Inl (app_internal ''failed to generate room token''))"

definition OBSERVER_TOKEN_TTL_SECS :: int where
  "OBSERVER_TOKEN_TTL_SECS = 1800"

definition generate_observer_token ::
  "room_access_token_claims jwt \<Rightarrow> int \<Rightarrow> string \<Rightarrow> string \<Rightarrow> string \<Rightarrow> string \<Rightarrow>
   app_error + string" where
  "generate_observer_token J now secret user_id room display_name =
     (let claims = \<lparr>rc_sub = user_id, rc_room = room, rc_room_join = False, rc_is_host = False,
                    rc_display_name = display_name, rc_observer = True,
                    rc_exp = now + OBSERVER_TOKEN_TTL_SECS, rc_iss = ROOM_ISSUER\<rparr>
      in case jwt_encode J (as_bytes secret) claims of
           Some token \<Rightarrow> Inr token
         | None \<Rightarrow> Inl (app_internal ''failed to generate observer token''))"

section \<open>Validating tokens\<close>

text \<open>\<open>VALID_ID_PATTERN\<close> is \<open>^[a-zA-Z0-9_-]*$\<close>: every character is an identifier character.\<close>

definition valid_id :: "string \<Rightarrow> bool" where
  "valid_id s = list_all is_id_char s"

datatype token_error =
    Missing
  | Invalid string
  | Expired
  | RoomJoinDenied
  | RoomMismatch string string
  | IdentityMismatch string string
  | UnsafeIdentifier string string

fun token_error_display :: "token_error \<Rightarrow> string" where
  "token_error_display Missing = ''room access token is required''"
| "token_error_display (Invalid msg) = ''invalid token: '' @ msg"
| "token_error_display Expired = ''token has expired''"
| "token_error_display RoomJoinDenied = ''token does not grant room join permission''"
| "token_error_display (RoomMismatch token_room requested_room) =
     ''token room '' @ quoted token_room @ '' does not match requested room '' @
     quoted requested_room"
| "token_error_display (IdentityMismatch token_identity requested_identity) =
     ''token identity '' @ quoted token_identity @ '' does not match '' @
     quoted requested_identity"
| "token_error_display (UnsafeIdentifier field val) =
     ''token '' @ field @ '' '' @ quoted val @
     '' contains characters unsafe for NATS subjects''"

fun is_suspicious :: "token_error \<Rightarrow> bool" where
  "is_suspicious (Invalid _) = True"
| "is_suspicious (UnsafeIdentifier _ _) = True"
| "is_suspicious _ = False"

definition is_retryable :: "token_error \<Rightarrow> bool" where
  "is_retryable e = (e = Expired)"

definition token_client_message :: "token_error \<Rightarrow> string" where
  "token_client_message e =
     (if is_suspicious e
      then ''We detected unusual activity from your browser. This incident has been logged.''
      else if e = Expired then ''token has expired'' else ''access denied'')"

definition decode_room_token ::
  "room_access_token_claims jwt \<Rightarrow> int \<Rightarrow> string \<Rightarrow> string \<Rightarrow> token_error + room_access_token_claims" where
  "decode_room_token J now secret token =
     (case jwt_decode J (as_bytes secret) ROOM_ISSUER now token of
        Inl ExpiredSignature \<Rightarrow> Inl Expired
      | Inl (OtherJwtError msg) \<Rightarrow> Inl (Invalid msg)
      | Inr claims \<Rightarrow>
          if \<not> valid_id (rc_room claims) then Inl (UnsafeIdentifier ''room'' (rc_room claims))
          else if \<not> rc_room_join claims \<and> \<not> rc_observer claims then Inl RoomJoinDenied
          else Inr claims)"

definition validate_room_token ::
  "room_access_token_claims jwt \<Rightarrow> int \<Rightarrow> string \<Rightarrow> string \<Rightarrow> string \<Rightarrow> string \<Rightarrow>
   token_error + room_access_token_claims" where
  "validate_room_token J now secret token expected_room expected_email =
     (case decode_room_token J now secret token of
        Inl e \<Rightarrow> Inl e
      | Inr claims \<Rightarrow>
          if rc_room claims \<noteq> expected_room
          then Inl (RoomMismatch (rc_room claims) expected_room)
          else if rc_sub claims \<noteq> expected_email
          then Inl (IdentityMismatch (rc_sub claims) expected_email)
          else Inr claims)"

section \<open>Connection endpoints\<close>

text \<open>The parameters of the session actor an endpoint starts.\<close>

record admission =
  ad_room :: string
  ad_user_id :: string
  ad_display_name :: string
  ad_observer :: bool

datatype http_refusal =
    InternalServerError string
  | Unauthorized string
  | Forbidden string
  | Gone string
  | BadRequest string

definition admit_claims :: "room_access_token_claims \<Rightarrow> admission" where
  "admit_claims claims =
     \<lparr>ad_room = rc_room claims, ad_user_id = rc_sub claims,
      ad_display_name = rc_display_name claims, ad_observer = rc_observer claims\<rparr>"

definition ws_connect_authenticated ::
  "room_access_token_claims jwt \<Rightarrow> int \<Rightarrow> string \<Rightarrow> string \<Rightarrow> http_refusal + admission" where
  "ws_connect_authenticated J now jwt_secret token =
     (if jwt_secret = [] then Inl (InternalServerError ''Server misconfigured'')
      else case decode_room_token J now jwt_secret token of
             Inr claims \<Rightarrow> Inr (admit_claims claims)
           | Inl e \<Rightarrow>
               if is_retryable e then Inl (Unauthorized (token_client_message e))
               else Inl (Forbidden (token_client_message e)))"

definition ws_connect :: "bool \<Rightarrow> string \<Rightarrow> string \<Rightarrow> http_refusal + admission" where
  "ws_connect meeting_management_enabled user_id room =
     (if meeting_management_enabled
      then Inl (Gone ''This endpoint is deprecated. Use GET /lobby?token=<JWT> instead.'')
      else
        let user_id_clean = spaces_to_underscores user_id;
            room_clean = spaces_to_underscores room
        in if \<not> valid_id user_id_clean \<or> \<not> valid_id room_clean
           then Inl (BadRequest ''Invalid user_id or room format'')
           else Inr \<lparr>ad_room = room_clean, ad_user_id = user_id_clean,
                     ad_display_name = user_id_clean, ad_observer = False\<rparr>)"

fun split_slash :: "string \<Rightarrow> string list" where
  "split_slash [] = [[]]"
| "split_slash (c # s) =
     (if c = CHR ''/'' then [] # split_slash s
      else (case split_slash s of [] \<Rightarrow> [[c]] | t # ts \<Rightarrow> (c # t) # ts))"

definition wt_connect ::
  "room_access_token_claims jwt \<Rightarrow> int \<Rightarrow> string \<Rightarrow> bool \<Rightarrow> string \<Rightarrow> string option \<Rightarrow> string + admission" where
  "wt_connect J now jwt_secret meeting_management_enabled path token =
     (let parts = filter (\<lambda>s. s \<noteq> []) (split_slash path)
      in if parts = [] \<or> parts ! 0 \<noteq> ''lobby'' then Inl ''Invalid path: must start with /lobby''
         else
           (case token of
              Some tok \<Rightarrow>
                if jwt_secret = [] then Inl ''JWT_SECRET not set''
                else (case decode_room_token J now jwt_secret tok of
                        Inl e \<Rightarrow> Inl (''token validation failed: '' @ token_client_message e)
                      | Inr claims \<Rightarrow> Inr (admit_claims claims))
            | None \<Rightarrow>
                if \<not> meeting_management_enabled
                then if length parts \<noteq> 3
                     then Inl ''Invalid path: expected /lobby/{user_id}/{room} (deprecated) or /lobby?token=<JWT>''
                     else
                       let username = spaces_to_underscores (parts ! 1);
                           lobby_id = spaces_to_underscores (parts ! 2)
                       in if \<not> valid_id username \<or> \<not> valid_id lobby_id
                          then Inl ''Invalid path input chars''
                          else Inr \<lparr>ad_room = lobby_id, ad_user_id = username,
                                    ad_display_name = username, ad_observer = False\<rparr>
                else Inl ''room access token is required. Use /lobby?token=<JWT>''))"

section \<open>Decoding under the law of the token library\<close>

lemma jwt_decode_Inr_iff:
  assumes "jwt_law exp_of iss_of J"
  shows "jwt_decode J secret iss now token = Inr c \<longleftrightarrow>
           jwt_verify J secret token = Some c \<and> 0 \<le> exp_of c \<and> now - JWT_LEEWAY \<le> exp_of c \<and>
           iss_of c = iss"
proof -
  have "case jwt_verify J secret token of
          None \<Rightarrow> \<exists>msg. jwt_decode J secret iss now token = Inl (OtherJwtError msg)
        | Some c \<Rightarrow>
            if exp_of c < 0 then \<exists>e. jwt_decode J secret iss now token = Inl e
            else if exp_of c < now - JWT_LEEWAY
            then jwt_decode J secret iss now token = Inl ExpiredSignature
            else if iss_of c \<noteq> iss
            then \<exists>msg. jwt_decode J secret iss now token = Inl (OtherJwtError msg)
            else jwt_decode J secret iss now token = Inr c"
    using assms by (simp add: jwt_law_def)
  then show ?thesis
    by (cases "jwt_verify J secret token") (auto split: if_splits)
qed

lemma jwt_decode_issued:
  assumes "jwt_law exp_of iss_of J" and "jwt_encode J secret c = Some token" and "0 \<le> exp_of c"
  shows "jwt_decode J secret (iss_of c) now token =
           (if exp_of c < now - JWT_LEEWAY then Inl ExpiredSignature else Inr c)"
proof -
  have "jwt_verify J secret token = Some c"
    using assms(1,2) by (simp add: jwt_law_def)
  moreover have "case jwt_verify J secret token of
          None \<Rightarrow> \<exists>msg. jwt_decode J secret (iss_of c) now token = Inl (OtherJwtError msg)
        | Some c' \<Rightarrow>
            if exp_of c' < 0 then \<exists>e. jwt_decode J secret (iss_of c) now token = Inl e
            else if exp_of c' < now - JWT_LEEWAY
            then jwt_decode J secret (iss_of c) now token = Inl ExpiredSignature
            else if iss_of c' \<noteq> iss_of c
            then \<exists>msg. jwt_decode J secret (iss_of c) now token = Inl (OtherJwtError msg)
            else jwt_decode J secret (iss_of c) now token = Inr c'"
    using assms(1) by (simp add: jwt_law_def)
  ultimately show ?thesis using assms(3) by simp
qed

lemma decode_room_token_Inr_iff:
  assumes "jwt_law rc_exp rc_iss J"
  shows "decode_room_token J now secret token = Inr c \<longleftrightarrow>
           jwt_verify J (as_bytes secret) token = Some c \<and> 0 \<le> rc_exp c \<and>
           now - JWT_LEEWAY \<le> rc_exp c \<and> rc_iss c = ROOM_ISSUER \<and> valid_id (rc_room c) \<and>
           (rc_room_join c \<or> rc_observer c)"
proof -
  have "decode_room_token J now secret token = Inr c \<longleftrightarrow>
          jwt_decode J (as_bytes secret) ROOM_ISSUER now token = Inr c \<and> valid_id (rc_room c) \<and>
          (rc_room_join c \<or> rc_observer c)"
    by (auto simp: decode_room_token_def split: sum.splits jwt_error.splits if_splits)
  then show ?thesis by (auto simp: jwt_decode_Inr_iff [OF assms])
qed

lemma decode_room_token_issued:
  assumes "jwt_law rc_exp rc_iss J" and "jwt_encode J (as_bytes secret) c = Some token"
    and "0 \<le> rc_exp c" and "rc_iss c = ROOM_ISSUER" and "rc_room_join c \<or> rc_observer c"
  shows "decode_room_token J now secret token =
           (if rc_exp c < now - JWT_LEEWAY then Inl Expired
            else if valid_id (rc_room c) then Inr c
            else Inl (UnsafeIdentifier ''room'' (rc_room c)))"
  using jwt_decode_issued [OF assms(1-3), of now] assms(4,5)
  by (auto simp: decode_room_token_def)

lemma generate_room_token_Inr_iff:
  "generate_room_token J now secret ttl user_id room is_host dn = Inr token \<longleftrightarrow>
   jwt_encode J (as_bytes secret)
     \<lparr>rc_sub = user_id, rc_room = room, rc_room_join = True, rc_is_host = is_host,
      rc_display_name = dn, rc_observer = False, rc_exp = now + ttl, rc_iss = ROOM_ISSUER\<rparr> =
   Some token"
  by (auto simp: generate_room_token_def split: option.splits)

lemma generate_observer_token_Inr_iff:
  "generate_observer_token J now secret user_id room dn = Inr token \<longleftrightarrow>
   jwt_encode J (as_bytes secret)
     \<lparr>rc_sub = user_id, rc_room = room, rc_room_join = False, rc_is_host = False,
      rc_display_name = dn, rc_observer = True, rc_exp = now + OBSERVER_TOKEN_TTL_SECS,
      rc_iss = ROOM_ISSUER\<rparr> =
   Some token"
  by (auto simp: generate_observer_token_def split: option.splits)

section \<open>A concrete token library\<close>

text \<open>
  One instance of the parameter that satisfies the law, for the witnesses: a token is the
  claims and the secret in a prefix encoding, so only the holder of the secret can make one.
\<close>

fun field_token :: "string \<Rightarrow> string" where
  "field_token [] = [CHR ''.'']"
| "field_token (c # s) = CHR ''c'' # c # field_token s"

fun token_field :: "string \<Rightarrow> (string \<times> string) option" where
  "token_field (d # c # s) =
     (if d = CHR ''c''
      then (case token_field s of None \<Rightarrow> None | Some (f, rest) \<Rightarrow> Some (c # f, rest))
      else if d = CHR ''.'' then Some ([], c # s) else None)"
| "token_field [d] = (if d = CHR ''.'' then Some ([], []) else None)"
| "token_field [] = None"

lemma token_field_token [simp]: "token_field (field_token s @ rest) = Some (s, rest)"
proof (induction s)
  case Nil
  then show ?case by (cases rest) auto
qed auto

definition ref_jwt :: "('c \<Rightarrow> int) \<Rightarrow> ('c \<Rightarrow> string) \<Rightarrow> ('c \<Rightarrow> string) \<Rightarrow> (string \<Rightarrow> 'c option) \<Rightarrow> 'c jwt" where
  "ref_jwt exp_of iss_of show_claims read_claims =
     (let verify = (\<lambda>secret token.
            case token_field token of
              None \<Rightarrow> None
            | Some (key, rest) \<Rightarrow> if as_bytes key = secret then read_claims rest else None)
      in \<lparr>jwt_encode = (\<lambda>secret c.
              Some (field_token (map (\<lambda>b. char_of (unat b)) secret) @ show_claims c)),
          jwt_verify = verify,
          jwt_decode = (\<lambda>secret iss now token.
            case verify secret token of
              None \<Rightarrow> Inl (OtherJwtError ''InvalidSignature'')
            | Some c \<Rightarrow>
                if exp_of c < 0 then Inl (OtherJwtError ''MissingRequiredClaim'')
                else if exp_of c < now - JWT_LEEWAY then Inl ExpiredSignature
                else if iss_of c \<noteq> iss then Inl (OtherJwtError ''InvalidIssuer'')
                else Inr c)\<rparr>)"

lemma as_bytes_char_of: "as_bytes (map (\<lambda>b. char_of (unat b)) bs) = bs"
proof (induction bs)
  case (Cons b bs)
  have "unat b < 2 ^ LENGTH(8)" by (rule unsigned_less)
  then show ?case using Cons by (simp add: as_bytes_def)
qed (simp add: as_bytes_def)

lemma ref_jwt_law:
  assumes "\<And>c. read_claims (show_claims c) = Some c"
  shows "jwt_law exp_of iss_of (ref_jwt exp_of iss_of show_claims read_claims)"
  using assms
  by (auto simp: jwt_law_def ref_jwt_def Let_def as_bytes_char_of split: option.splits if_splits)

definition show_int :: "int \<Rightarrow> string" where
  "show_int i = (if i < 0 then CHR ''-'' else CHR ''+'') # show_nat (nat \<bar>i\<bar>)"

definition read_int :: "string \<Rightarrow> int" where
  "read_int s =
     (case s of
        c # t \<Rightarrow> if c = CHR ''-'' then - int (read_nat t) else int (read_nat t)
      | [] \<Rightarrow> 0)"

lemma read_show_int [simp]: "read_int (show_int i) = i"
  by (simp add: show_int_def read_int_def)

definition show_bool :: "bool \<Rightarrow> string" where
  "show_bool b = (if b then ''1'' else ''0'')"

definition show_room_claims :: "room_access_token_claims \<Rightarrow> string" where
  "show_room_claims c =
     field_token (rc_sub c) @ field_token (rc_room c) @ field_token (show_bool (rc_room_join c)) @
     field_token (show_bool (rc_is_host c)) @ field_token (rc_display_name c) @
     field_token (show_bool (rc_observer c)) @ field_token (show_int (rc_exp c)) @
     field_token (rc_iss c)"

fun token_fields :: "nat \<Rightarrow> string \<Rightarrow> string list option" where
  "token_fields 0 s = (if s = [] then Some [] else None)"
| "token_fields (Suc n) s =
     (case token_field s of
        None \<Rightarrow> None
      | Some (f, rest) \<Rightarrow> (case token_fields n rest of None \<Rightarrow> None | Some fs \<Rightarrow> Some (f # fs)))"

definition read_room_claims :: "string \<Rightarrow> room_access_token_claims option" where
  "read_room_claims s =
     (case token_fields 8 s of
        Some [a, b, c, d, e, f, g, h] \<Rightarrow>
          Some \<lparr>rc_sub = a, rc_room = b, rc_room_join = (c = ''1''), rc_is_host = (d = ''1''),
                rc_display_name = e, rc_observer = (f = ''1''), rc_exp = read_int g, rc_iss = h\<rparr>
      | _ \<Rightarrow> None)"

lemma token_field_token_Nil [simp]: "token_field (field_token s) = Some (s, [])"
  using token_field_token [of s "[]"] by simp

lemma read_show_room_claims: "read_room_claims (show_room_claims c) = Some c"
  by (cases c)
     (simp add: read_room_claims_def show_room_claims_def numeral_eq_Suc show_bool_def)

definition ref_room_jwt :: "room_access_token_claims jwt" where
  "ref_room_jwt = ref_jwt rc_exp rc_iss show_room_claims read_room_claims"

lemma ref_room_jwt_law: "jwt_law rc_exp rc_iss ref_room_jwt"
  unfolding ref_room_jwt_def by (rule ref_jwt_law) (rule read_show_room_claims)

lemma ref_room_jwt_encode: "jwt_encode ref_room_jwt secret c \<noteq> None"
  by (simp add: ref_room_jwt_def ref_jwt_def Let_def)

section \<open>Properties\<close>

text \<open>
  The life of a room token. A token the meeting service issued for a room with a valid
  identifier is accepted by the media server for exactly that room and that user, with the
  claims it was issued with, until sixty seconds after its expiry; any other room or user is
  refused with the mismatch error, and after that moment the refusal is the retryable
  \<open>Expired\<close>.
\<close>
theorem issued_room_token_lifecycle:
  assumes "jwt_law rc_exp rc_iss J"
    and "generate_room_token J issued secret ttl user_id room is_host dn = Inr token"
    and "valid_id room" and "0 \<le> issued + ttl"
  shows "validate_room_token J now secret token requested_room requested_user =
     (if issued + ttl < now - JWT_LEEWAY then Inl Expired
      else if requested_room \<noteq> room then Inl (RoomMismatch room requested_room)
      else if requested_user \<noteq> user_id then Inl (IdentityMismatch user_id requested_user)
      else Inr \<lparr>rc_sub = user_id, rc_room = room, rc_room_join = True, rc_is_host = is_host,
                rc_display_name = dn, rc_observer = False, rc_exp = issued + ttl,
                rc_iss = ROOM_ISSUER\<rparr>)"
  using decode_room_token_issued [OF assms(1) assms(2) [unfolded generate_room_token_Inr_iff], of now]
    assms(3,4)
  by (auto simp: validate_room_token_def)

theorem issued_room_token_lifecycle_witness:
  "\<exists>token.
     generate_room_token ref_room_jwt 1000 ''key'' 600 ''ana'' ''standup'' True ''Ana'' = Inr token \<and>
     validate_room_token ref_room_jwt 1660 ''key'' token ''standup'' ''ana'' =
       Inr \<lparr>rc_sub = ''ana'', rc_room = ''standup'', rc_room_join = True, rc_is_host = True,
            rc_display_name = ''Ana'', rc_observer = False, rc_exp = 1600, rc_iss = ROOM_ISSUER\<rparr> \<and>
     validate_room_token ref_room_jwt 1661 ''key'' token ''standup'' ''ana'' = Inl Expired \<and>
     validate_room_token ref_room_jwt 1000 ''key'' token ''retro'' ''ana'' =
       Inl (RoomMismatch ''standup'' ''retro'')"
proof -
  obtain token where token:
    "generate_room_token ref_room_jwt 1000 ''key'' 600 ''ana'' ''standup'' True ''Ana'' = Inr token"
    unfolding generate_room_token_Inr_iff using ref_room_jwt_encode by blast
  have "valid_id ''standup''" by code_simp
  note life = issued_room_token_lifecycle [OF ref_room_jwt_law token this]
  show ?thesis
    using token life [of 1660 "''standup''" "''ana''"] life [of 1661 "''standup''" "''ana''"]
      life [of 1000 "''retro''" "''ana''"]
    by (simp add: JWT_LEEWAY_def)
qed



lemma split_slash_no_slash: "CHR ''/'' \<notin> set u \<Longrightarrow> split_slash u = [u]"
  by (induction u) auto

lemma split_slash_append:
  "CHR ''/'' \<notin> set u \<Longrightarrow> split_slash (u @ CHR ''/'' # s) = u # split_slash s"
  by (induction u) auto

text \<open>
  The two transports admit the same clients. With a token, the WebTransport endpoint at
  \<open>/lobby\<close> admits exactly the sessions the WebSocket endpoint admits, whatever the feature
  flag; without one, the deprecated path \<open>/lobby/{user}/{room}\<close> admits exactly what the
  deprecated WebSocket route admits, which is nobody once meeting management is enabled.
\<close>
theorem transports_agree:
  assumes "user \<noteq> []" and "room \<noteq> []" and "CHR ''/'' \<notin> set user" and "CHR ''/'' \<notin> set room"
  shows "(wt_connect J now secret mgmt ''/lobby'' (Some token) = Inr a \<longleftrightarrow>
            ws_connect_authenticated J now secret token = Inr a) \<and>
         (wt_connect J now secret mgmt (''/lobby/'' @ user @ ''/'' @ room) None = Inr a \<longleftrightarrow>
            ws_connect mgmt user room = Inr a)"
proof
  have "split_slash ''/lobby'' = [[], ''lobby'']" by code_simp
  then show "wt_connect J now secret mgmt ''/lobby'' (Some token) = Inr a \<longleftrightarrow>
               ws_connect_authenticated J now secret token = Inr a"
    by (auto simp: wt_connect_def ws_connect_authenticated_def Let_def split: sum.splits)
next
  have "split_slash (''/lobby/'' @ user @ ''/'' @ room) = [[], ''lobby'', user, room]"
    using assms(3,4) by (simp add: split_slash_append split_slash_no_slash)
  then have parts: "filter (\<lambda>s. s \<noteq> []) (split_slash (''/lobby/'' @ user @ ''/'' @ room)) =
                      [''lobby'', user, room]"
    using assms(1,2) by simp
  show "wt_connect J now secret mgmt (''/lobby/'' @ user @ ''/'' @ room) None = Inr a \<longleftrightarrow>
          ws_connect mgmt user room = Inr a"
    unfolding wt_connect_def parts by (simp add: ws_connect_def Let_def)
qed

theorem transports_agree_witness:
  "wt_connect ref_room_jwt 0 ''key'' False ''/lobby/ana b/standup'' None =
     Inr \<lparr>ad_room = ''standup'', ad_user_id = ''ana_b'', ad_display_name = ''ana_b'',
          ad_observer = False\<rparr>"
proof -
  have ws: "ws_connect False ''ana b'' ''standup'' =
     Inr \<lparr>ad_room = ''standup'', ad_user_id = ''ana_b'', ad_display_name = ''ana_b'',
          ad_observer = False\<rparr>"
    by code_simp
  have "wt_connect ref_room_jwt 0 ''key'' False (''/lobby/'' @ ''ana b'' @ ''/'' @ ''standup'') None =
     Inr \<lparr>ad_room = ''standup'', ad_user_id = ''ana_b'', ad_display_name = ''ana_b'',
          ad_observer = False\<rparr>"
    using transports_agree [of "''ana b''" "''standup''" ref_room_jwt 0 "''key''" False] ws by simp
  then show ?thesis by simp
qed

text \<open>
  A refusal tells the client only whether to retry. The response to a refused token is
  one of four fixed ones, so no claim, identity or parser message reaches the client, and it
  is the status 401 exactly when the token's only fault is that it expired.
\<close>
theorem refusals_are_opaque:
  "(ws_connect_authenticated J now secret token = Inl (Unauthorized msg) \<longleftrightarrow>
      secret \<noteq> [] \<and> decode_room_token J now secret token = Inl Expired \<and>
      msg = ''token has expired'') \<and>
   (case ws_connect_authenticated J now secret token of
      Inr a \<Rightarrow> True
    | Inl r \<Rightarrow>
        r \<in> {InternalServerError ''Server misconfigured'', Unauthorized ''token has expired'',
             Forbidden ''access denied'',
             Forbidden ''We detected unusual activity from your browser. This incident has been logged.''})"
  by (auto simp: ws_connect_authenticated_def is_retryable_def token_client_message_def
           split: sum.splits)

end
