(* ===== verification/Meeting_Routes.thy ===== *)
theory Meeting_Routes
  imports Meeting_Db Room_Tokens Nats_Subjects Proto_Types
begin

text \<open>
  The request handlers of the meeting service: \<open>meeting-api/src/routes/meetings.rs\<close>,
  \<open>routes/participants.rs\<close> and \<open>routes/waiting_room.rs\<close>, with the event publishers of
  \<open>meeting-api/src/nats_events.rs\<close> they call. A handler takes the authenticated user, the path
  and body of the request and the state of the service (database and packets handed to the
  message broker, in order), and returns the response or the error together with the state
  it leaves behind; an error after a write does not undo the write, as in the code.

  The password hash, the text of a database error, the random numbers behind a generated
  identifier and the token library are parameters. A request sees one time \<open>now\<close>, in
  milliseconds. \<open>sv_sent\<close> lists the packets of \<open>admit-all\<close> in row order; the code hands them
  to the broker concurrently.
\<close>

section \<open>State of the service\<close>

record app_state =
  as_jwt :: "room_access_token_claims jwt"
  as_jwt_secret :: string
  as_token_ttl_secs :: int
  as_nats :: bool
  as_proto :: proto
  as_hash_password :: "string \<Rightarrow> string + string"
  as_sqlx_message :: "sqlx_error \<Rightarrow> string"

record service =
  sv_db :: database
  sv_sent :: "(string \<times> bytes) list"

definition from_sqlx :: "app_state \<Rightarrow> sqlx_error \<Rightarrow> app_error" where
  "from_sqlx A e = app_internal (as_sqlx_message A e)"

definition run_query :: "(sqlx_error \<Rightarrow> app_error) \<Rightarrow> (database \<Rightarrow> (sqlx_error + 'a) \<times> database) \<Rightarrow>
    service \<Rightarrow> ('a, service) outcome" where
  "run_query err q s =
     (case q (sv_db s) of
        (Inl e, d) \<Rightarrow> (Inl (err e), s\<lparr>sv_db := d\<rparr>)
      | (Inr a, d) \<Rightarrow> (Inr a, s\<lparr>sv_db := d\<rparr>))"

definition run_write :: "(database \<Rightarrow> 'a \<times> database) \<Rightarrow> service \<Rightarrow> ('a, service) outcome" where
  "run_write q s = (let (a, d) = q (sv_db s) in (Inr a, s\<lparr>sv_db := d\<rparr>))"

definition modify_db :: "(database \<Rightarrow> database) \<Rightarrow> service \<Rightarrow> service" where
  "modify_db q s = s\<lparr>sv_db := q (sv_db s)\<rparr>"

section \<open>Event publishers\<close>

definition build_meeting_wrapper :: "proto \<Rightarrow> meeting_packet \<Rightarrow> bytes" where
  "build_meeting_wrapper P meeting_packet =
     bytes_or_default (write_wrapper P (default_packet_wrapper
       \<lparr>pw_packet_type := packet_type_value MEETING,
        pw_user_id := as_bytes SYSTEM_USER_ID,
        pw_data := bytes_or_default (write_meeting P meeting_packet)\<rparr>))"

definition publish :: "app_state \<Rightarrow> string \<Rightarrow> meeting_packet \<Rightarrow> service \<Rightarrow> service" where
  "publish A room_id packet s =
     (if as_nats A
      then s\<lparr>sv_sent := sv_sent s @
              [(room_system_subject room_id, build_meeting_wrapper (as_proto A) packet)]\<rparr>
      else s)"

definition meeting_activated_packet :: "string \<Rightarrow> meeting_packet" where
  "meeting_activated_packet room_id = default_meeting_packet
     \<lparr>mp_event_type := meeting_event_type_value MEETING_ACTIVATED, mp_room_id := room_id\<rparr>"

definition participant_admitted_packet :: "string \<Rightarrow> string \<Rightarrow> meeting_packet" where
  "participant_admitted_packet room_id target_user_id = default_meeting_packet
     \<lparr>mp_event_type := meeting_event_type_value PARTICIPANT_ADMITTED, mp_room_id := room_id,
      mp_target_user_id := as_bytes target_user_id\<rparr>"

definition participant_rejected_packet :: "string \<Rightarrow> string \<Rightarrow> meeting_packet" where
  "participant_rejected_packet room_id target_user_id = default_meeting_packet
     \<lparr>mp_event_type := meeting_event_type_value PARTICIPANT_REJECTED, mp_room_id := room_id,
      mp_target_user_id := as_bytes target_user_id\<rparr>"

definition waiting_room_updated_packet :: "string \<Rightarrow> meeting_packet" where
  "waiting_room_updated_packet room_id = default_meeting_packet
     \<lparr>mp_event_type := meeting_event_type_value WAITING_ROOM_UPDATED, mp_room_id := room_id\<rparr>"

definition publish_meeting_activated :: "app_state \<Rightarrow> string \<Rightarrow> service \<Rightarrow> service" where
  "publish_meeting_activated A room_id s = publish A room_id (meeting_activated_packet room_id) s"

definition publish_participant_admitted :: "app_state \<Rightarrow> string \<Rightarrow> string \<Rightarrow> service \<Rightarrow> service" where
  "publish_participant_admitted A room_id target_user_id s =
     publish A room_id (participant_admitted_packet room_id target_user_id) s"

definition publish_participant_rejected :: "app_state \<Rightarrow> string \<Rightarrow> string \<Rightarrow> service \<Rightarrow> service" where
  "publish_participant_rejected A room_id target_user_id s =
     publish A room_id (participant_rejected_packet room_id target_user_id) s"

definition publish_waiting_room_updated :: "app_state \<Rightarrow> string \<Rightarrow> service \<Rightarrow> service" where
  "publish_waiting_room_updated A room_id s = publish A room_id (waiting_room_updated_packet room_id) s"

section \<open>Meetings\<close>

definition MAX_ATTENDEES :: nat where
  "MAX_ATTENDEES = 100"

definition MEETING_ID_PATTERN :: string where
  "MEETING_ID_PATTERN = ''^[a-zA-Z0-9_-]+$''"

definition validate_meeting_id :: "string \<Rightarrow> app_error + unit" where
  "validate_meeting_id meeting_id =
     (if meeting_id = [] then Inl (app_invalid_meeting_id ''cannot be empty'')
      else if 255 < length meeting_id
      then Inl (app_invalid_meeting_id ''cannot exceed 255 characters'')
      else if \<not> list_all is_id_char meeting_id
      then Inl (app_invalid_meeting_id (''must match pattern: '' @ MEETING_ID_PATTERN))
      else Inr ())"

definition CHARSET :: string where
  "CHARSET = ''abcdefghijklmnopqrstuvwxyz0123456789''"

definition generate_meeting_id :: "(nat \<Rightarrow> nat) \<Rightarrow> string" where
  "generate_meeting_id gen_range = map (\<lambda>i. CHARSET ! gen_range i) [0..<12]"

definition create_meeting ::
  "app_state \<Rightarrow> int \<Rightarrow> (nat \<Rightarrow> nat) \<Rightarrow> string \<Rightarrow> create_meeting_request \<Rightarrow> service \<Rightarrow>
   (nat \<times> create_meeting_response api_response, service) outcome" where
  "create_meeting A now gen_range user_id req s =
     and_then ((case cmr_meeting_id req of
                  Some i \<Rightarrow> (case validate_meeting_id i of Inl e \<Rightarrow> Inl e | Inr u \<Rightarrow> Inr i)
                | None \<Rightarrow> Inr (generate_meeting_id gen_range)), s)
       (\<lambda>meeting_id s.
     if MAX_ATTENDEES < length (cmr_attendees req)
     then (Inl (app_too_many_attendees (length (cmr_attendees req)) MAX_ATTENDEES), s)
     else
       and_then ((case cmr_password req of
                    Some pw \<Rightarrow>
                      if pw \<noteq> []
                      then (case as_hash_password A pw of
                              Inl e \<Rightarrow> Inl (app_internal (''password hash error: '' @ e))
                            | Inr h \<Rightarrow> Inr (Some h))
                      else Inr None
                  | None \<Rightarrow> Inr None), s)
         (\<lambda>password_hash s.
       and_then (run_query (\<lambda>e. if e = UniqueViolation then app_meeting_exists meeting_id
                                else from_sqlx A e)
                   (create_with_options now meeting_id user_id password_hash (cmr_attendees req)
                      (case cmr_waiting_room_enabled req of None \<Rightarrow> True | Some b \<Rightarrow> b)) s)
         (\<lambda>row s.
           (Inr (201, api_response_ok
                  \<lparr>cr_meeting_id = mr_room_id row, cr_host = user_id,
                   cr_created_at = timestamp (mr_created_at row),
                   cr_state = (case mr_state row of None \<Rightarrow> ''idle'' | Some st \<Rightarrow> st),
                   cr_attendees = cmr_attendees req, cr_has_password = (password_hash \<noteq> None),
                   cr_waiting_room_enabled = mr_waiting_room_enabled row\<rparr>), s))))"

definition meeting_summary_of :: "database \<Rightarrow> meeting_row \<Rightarrow> meeting_summary" where
  "meeting_summary_of db row =
     \<lparr>sm_meeting_id = mr_room_id row, sm_host = mr_creator_id row,
      sm_state = (case mr_state row of None \<Rightarrow> ''idle'' | Some st \<Rightarrow> st),
      sm_has_password = (mr_password_hash row \<noteq> None),
      sm_created_at = timestamp (mr_created_at row),
      sm_participant_count = count_admitted (mr_id row) db,
      sm_started_at = timestamp (mr_started_at row),
      sm_ended_at = map_option timestamp (mr_ended_at row),
      sm_waiting_count = count_waiting (mr_id row) db,
      sm_waiting_room_enabled = mr_waiting_room_enabled row\<rparr>"

definition list_meetings ::
  "string \<Rightarrow> list_meetings_query \<Rightarrow> service \<Rightarrow> (list_meetings_response api_response, service) outcome" where
  "list_meetings user_id params s =
     (let limit = max 1 (min 100 (lmq_limit params));
          offset = max (lmq_offset params) 0;
          rows = list_by_owner user_id limit offset (sv_db s);
          total = count_by_owner user_id (sv_db s)
      in (Inr (api_response_ok
             \<lparr>lr_meetings = map (meeting_summary_of (sv_db s)) rows, lr_total = total,
              lr_limit = limit, lr_offset = offset\<rparr>), s))"

text \<open>
  The response that \<open>get_meeting\<close>, \<open>end_meeting_handler\<close> and \<open>update_meeting\<close> build from the
  row they hold and fresh counts.
\<close>

definition meeting_info_of :: "database \<Rightarrow> string \<Rightarrow> string \<Rightarrow> meeting_row \<Rightarrow> meeting_info_response" where
  "meeting_info_of db user_id state row =
     \<lparr>mi_meeting_id = mr_room_id row, mi_state = state,
      mi_host = (case mr_creator_id row of None \<Rightarrow> [] | Some c \<Rightarrow> c),
      mi_host_display_name = mr_host_display_name row, mi_host_user_id = mr_creator_id row,
      mi_has_password = (mr_password_hash row \<noteq> None),
      mi_waiting_room_enabled = mr_waiting_room_enabled row,
      mi_participant_count = count_admitted (mr_id row) db,
      mi_waiting_count = count_waiting (mr_id row) db,
      mi_started_at = mr_started_at row, mi_ended_at = mr_ended_at row,
      mi_your_status = map_option (\<lambda>p. into_participant_status p None) (get_status (mr_id row) user_id db)\<rparr>"

definition state_or_idle :: "meeting_row \<Rightarrow> string" where
  "state_or_idle row = (case mr_state row of None \<Rightarrow> ''idle'' | Some st \<Rightarrow> st)"

definition get_meeting ::
  "string \<Rightarrow> string \<Rightarrow> service \<Rightarrow> (meeting_info_response api_response, service) outcome" where
  "get_meeting user_id meeting_id s =
     and_then (ok_or (get_by_room_id meeting_id (sv_db s)) (app_meeting_not_found meeting_id), s)
       (\<lambda>row s. (Inr (api_response_ok (meeting_info_of (sv_db s) user_id (state_or_idle row) row)), s))"

definition delete_meeting ::
  "int \<Rightarrow> string \<Rightarrow> string \<Rightarrow> service \<Rightarrow> (delete_meeting_response api_response, service) outcome" where
  "delete_meeting now user_id meeting_id s =
     and_then (ok_or (get_by_room_id meeting_id (sv_db s)) (app_meeting_not_found meeting_id), s)
       (\<lambda>row s.
     if mr_creator_id row \<noteq> Some user_id then (Inl app_not_owner, s)
     else
       and_then (run_write (soft_delete now meeting_id user_id) s)
         (\<lambda>_ s. (Inr (api_response_ok
                  \<lparr>dr_message = ''Meeting '' @ quoted meeting_id @ '' has been deleted''\<rparr>), s)))"

definition end_meeting_handler ::
  "int \<Rightarrow> string \<Rightarrow> string \<Rightarrow> service \<Rightarrow> (meeting_info_response api_response, service) outcome" where
  "end_meeting_handler now user_id meeting_id s =
     and_then (ok_or (get_by_room_id meeting_id (sv_db s)) (app_meeting_not_found meeting_id), s)
       (\<lambda>meeting s.
     if mr_creator_id meeting \<noteq> Some user_id then (Inl app_not_owner, s)
     else if mr_state meeting = Some ''ended''
     then (Inr (api_response_ok (meeting_info_of (sv_db s) user_id ''ended'' meeting)), s)
     else
       let s = modify_db (end_meeting now (mr_id meeting)) s
       in and_then (ok_or (get_by_room_id meeting_id (sv_db s)) (app_meeting_not_found meeting_id), s)
            (\<lambda>row s.
              (Inr (api_response_ok (meeting_info_of (sv_db s) user_id (state_or_idle row) row)), s)))"

definition update_meeting ::
  "int \<Rightarrow> string \<Rightarrow> string \<Rightarrow> update_meeting_request \<Rightarrow> service \<Rightarrow>
   (meeting_info_response api_response, service) outcome" where
  "update_meeting now user_id meeting_id req s =
     and_then
       (case umr_waiting_room_enabled req of
          Some enabled \<Rightarrow>
            and_then (run_write (update_waiting_room_enabled now meeting_id user_id enabled) s)
              (\<lambda>updated s.
                case updated of
                  Some row \<Rightarrow> (Inr row, s)
                | None \<Rightarrow>
                    (Inl (case get_by_room_id meeting_id (sv_db s) of
                            Some _ \<Rightarrow> app_not_owner
                          | None \<Rightarrow> app_meeting_not_found meeting_id), s))
        | None \<Rightarrow>
            and_then (ok_or (get_by_room_id meeting_id (sv_db s)) (app_meeting_not_found meeting_id), s)
              (\<lambda>row s.
                if mr_creator_id row \<noteq> Some user_id then (Inl app_not_owner, s) else (Inr row, s)))
       (\<lambda>row s. (Inr (api_response_ok (meeting_info_of (sv_db s) user_id (state_or_idle row) row)), s))"

section \<open>Participants\<close>

definition join_as_host ::
  "app_state \<Rightarrow> int \<Rightarrow> string \<Rightarrow> string \<Rightarrow> string option \<Rightarrow> meeting_row \<Rightarrow> service \<Rightarrow>
   (participant_status_response api_response, service) outcome" where
  "join_as_host A now user_id meeting_id display_name meeting s =
     (let s = (if state_or_idle meeting \<noteq> ''active''
               then publish_meeting_activated A meeting_id (modify_db (activate now (mr_id meeting)) s)
               else s)
      in and_then (case display_name of
                     Some dn \<Rightarrow> run_query (from_sqlx A) (set_host_display_name now (mr_id meeting) dn) s
                   | None \<Rightarrow> (Inr (), s))
           (\<lambda>_ s.
         and_then (run_query (from_sqlx A) (upsert_host now (mr_id meeting) user_id display_name) s)
           (\<lambda>row s.
         and_then (generate_room_token (as_jwt A) (timestamp now) (as_jwt_secret A)
                     (as_token_ttl_secs A) user_id meeting_id True
                     (case display_name of None \<Rightarrow> user_id | Some dn \<Rightarrow> dn), s)
           (\<lambda>token s.
             (Inr (api_response_ok
                ((into_participant_status row (Some token))
                   \<lparr>ps_waiting_room_enabled := Some (mr_waiting_room_enabled meeting),
                    ps_host_display_name := coalesce display_name (mr_host_display_name meeting),
                    ps_host_user_id := mr_creator_id meeting\<rparr>)), s)))))"

definition join_as_attendee ::
  "app_state \<Rightarrow> int \<Rightarrow> string \<Rightarrow> string \<Rightarrow> string option \<Rightarrow> meeting_row \<Rightarrow> service \<Rightarrow>
   (participant_status_response api_response, service) outcome" where
  "join_as_attendee A now user_id meeting_id display_name meeting s =
     (let dn = (case display_name of None \<Rightarrow> user_id | Some n \<Rightarrow> n)
      in if state_or_idle meeting \<noteq> ''active''
         then
           and_then (generate_observer_token (as_jwt A) (timestamp now) (as_jwt_secret A) user_id
                       meeting_id dn, s)
             (\<lambda>observer s.
               (Inr (api_response_ok
                  \<lparr>ps_user_id = user_id, ps_display_name = display_name,
                   ps_status = ''waiting_for_meeting'', ps_is_host = False,
                   ps_joined_at = timestamp now, ps_admitted_at = None, ps_room_token = None,
                   ps_observer_token = Some observer,
                   ps_waiting_room_enabled = Some (mr_waiting_room_enabled meeting),
                   ps_host_display_name = mr_host_display_name meeting,
                   ps_host_user_id = mr_creator_id meeting\<rparr>), s))
         else
           and_then (run_query (from_sqlx A) (join_attendee now (mr_id meeting) user_id display_name) s)
             (\<lambda>(auto_admitted, row, waiting_room_enabled) s.
           and_then
             (if auto_admitted
              then (case generate_room_token (as_jwt A) (timestamp now) (as_jwt_secret A)
                           (as_token_ttl_secs A) user_id meeting_id False dn of
                      Inl e \<Rightarrow> Inl e
                    | Inr token \<Rightarrow> Inr (Some token))
              else Inr None, s)
             (\<lambda>token s.
           and_then
             (if \<not> auto_admitted
              then and_then (generate_observer_token (as_jwt A) (timestamp now) (as_jwt_secret A)
                               user_id meeting_id dn, s)
                     (\<lambda>observer s. (Inr (Some observer), publish_waiting_room_updated A meeting_id s))
              else (Inr None, s))
             (\<lambda>observer s.
               (Inr (api_response_ok
                  ((into_participant_status row token)
                     \<lparr>ps_observer_token := observer,
                      ps_waiting_room_enabled := Some waiting_room_enabled,
                      ps_host_display_name := mr_host_display_name meeting,
                      ps_host_user_id := mr_creator_id meeting\<rparr>)), s)))))"

definition join_meeting ::
  "app_state \<Rightarrow> int \<Rightarrow> string \<Rightarrow> string \<Rightarrow> join_meeting_request option \<Rightarrow> service \<Rightarrow>
   (participant_status_response api_response, service) outcome" where
  "join_meeting A now user_id meeting_id req s =
     (let display_name = Option.bind req jmr_display_name
      in and_then
           (case get_by_room_id meeting_id (sv_db s) of
              Some m \<Rightarrow> (Inr m, s)
            | None \<Rightarrow> run_query (from_sqlx A) (create_meeting_row now meeting_id user_id None []) s)
           (\<lambda>meeting s.
             if mr_creator_id meeting = Some user_id
             then join_as_host A now user_id meeting_id display_name meeting s
             else join_as_attendee A now user_id meeting_id display_name meeting s))"

definition get_my_status ::
  "app_state \<Rightarrow> int \<Rightarrow> string \<Rightarrow> string \<Rightarrow> service \<Rightarrow>
   (participant_status_response api_response, service) outcome" where
  "get_my_status A now user_id meeting_id s =
     and_then (ok_or (get_by_room_id meeting_id (sv_db s)) (app_meeting_not_found meeting_id), s)
       (\<lambda>meeting s.
     if mr_state meeting = Some ''ended'' then (Inl (app_meeting_not_active meeting_id), s)
     else
       and_then (ok_or (get_status (mr_id meeting) user_id (sv_db s)) app_not_in_meeting, s)
         (\<lambda>row s.
       and_then
         (if pr_status row = ''admitted''
          then (case generate_room_token (as_jwt A) (timestamp now) (as_jwt_secret A)
                       (as_token_ttl_secs A) user_id meeting_id (pr_is_host row)
                       (case pr_display_name row of None \<Rightarrow> user_id | Some n \<Rightarrow> n) of
                  Inl e \<Rightarrow> Inl e
                | Inr token \<Rightarrow> Inr (Some token))
          else Inr None, s)
         (\<lambda>token s.
           (Inr (api_response_ok
              ((into_participant_status row token)
                 \<lparr>ps_waiting_room_enabled := Some (mr_waiting_room_enabled meeting),
                  ps_host_display_name := mr_host_display_name meeting,
                  ps_host_user_id := mr_creator_id meeting\<rparr>)), s))))"

definition leave_meeting ::
  "int \<Rightarrow> string \<Rightarrow> string \<Rightarrow> service \<Rightarrow> (participant_status_response api_response, service) outcome" where
  "leave_meeting now user_id meeting_id s =
     and_then (ok_or (get_by_room_id meeting_id (sv_db s)) (app_meeting_not_found meeting_id), s)
       (\<lambda>meeting s.
     and_then (run_write (leave now (mr_id meeting) user_id) s)
       (\<lambda>left s.
     and_then (ok_or left app_not_in_meeting, s)
       (\<lambda>row s.
         let s = (if mr_creator_id meeting = Some user_id
                  then modify_db (end_meeting now (mr_id meeting)) s
                  else if count_admitted (mr_id meeting) (sv_db s) = 0
                  then modify_db (end_meeting now (mr_id meeting)) s
                  else s)
         in (Inr (api_response_ok (into_participant_status row None)), s))))"

definition get_participants ::
  "string \<Rightarrow> string \<Rightarrow> service \<Rightarrow> (participant_status_response list api_response, service) outcome" where
  "get_participants user_id meeting_id s =
     and_then (ok_or (get_by_room_id meeting_id (sv_db s)) (app_meeting_not_found meeting_id), s)
       (\<lambda>meeting s.
     and_then (ok_or (get_status (mr_id meeting) user_id (sv_db s)) app_not_in_meeting, s)
       (\<lambda>_ s.
         (Inr (api_response_ok
            (map (\<lambda>r. into_participant_status r None) (get_admitted (mr_id meeting) (sv_db s)))), s)))"

section \<open>Waiting room\<close>

definition require_host :: "nat \<Rightarrow> string \<Rightarrow> database \<Rightarrow> app_error + unit" where
  "require_host meeting_id user_id db =
     (case get_status meeting_id user_id db of
        None \<Rightarrow> Inl app_not_host
      | Some row \<Rightarrow>
          if pr_status row \<noteq> ''admitted'' \<or> \<not> pr_is_host row then Inl app_not_host else Inr ())"

definition get_waiting_room ::
  "string \<Rightarrow> string \<Rightarrow> service \<Rightarrow> (waiting_room_response api_response, service) outcome" where
  "get_waiting_room user_id meeting_id s =
     and_then (ok_or (get_by_room_id meeting_id (sv_db s)) (app_meeting_not_found meeting_id), s)
       (\<lambda>meeting s.
     and_then (require_host (mr_id meeting) user_id (sv_db s), s)
       (\<lambda>_ s.
         (Inr (api_response_ok
            \<lparr>wr_meeting_id = meeting_id,
             wr_waiting = map (\<lambda>r. into_participant_status r None)
                            (get_waiting (mr_id meeting) (sv_db s))\<rparr>), s)))"

definition admit_participant ::
  "app_state \<Rightarrow> int \<Rightarrow> string \<Rightarrow> string \<Rightarrow> admit_request \<Rightarrow> service \<Rightarrow>
   (participant_status_response api_response, service) outcome" where
  "admit_participant A now user_id meeting_id req s =
     and_then (ok_or (get_by_room_id meeting_id (sv_db s)) (app_meeting_not_found meeting_id), s)
       (\<lambda>meeting s.
     and_then (require_host (mr_id meeting) user_id (sv_db s), s)
       (\<lambda>_ s.
     and_then (run_write (admit now (mr_id meeting) (adr_user_id req)) s)
       (\<lambda>admitted s.
     and_then (ok_or admitted (app_participant_not_found (adr_user_id req)), s)
       (\<lambda>row s.
         (Inr (api_response_ok (into_participant_status row None)),
          publish_participant_admitted A meeting_id (adr_user_id req) s)))))"

definition admit_all ::
  "app_state \<Rightarrow> int \<Rightarrow> string \<Rightarrow> string \<Rightarrow> service \<Rightarrow> (admit_all_response api_response, service) outcome" where
  "admit_all A now user_id meeting_id s =
     and_then (ok_or (get_by_room_id meeting_id (sv_db s)) (app_meeting_not_found meeting_id), s)
       (\<lambda>meeting s.
     and_then (require_host (mr_id meeting) user_id (sv_db s), s)
       (\<lambda>_ s.
     and_then (run_write (admit_all_rows now (mr_id meeting)) s)
       (\<lambda>rows s.
         (Inr (api_response_ok
            \<lparr>aa_admitted_count = length rows,
             aa_admitted = map (\<lambda>r. into_participant_status r None) rows\<rparr>),
          foldl (\<lambda>s r. publish_participant_admitted A meeting_id (pr_user_id r) s) s rows))))"

definition reject_participant ::
  "app_state \<Rightarrow> int \<Rightarrow> string \<Rightarrow> string \<Rightarrow> admit_request \<Rightarrow> service \<Rightarrow>
   (participant_status_response api_response, service) outcome" where
  "reject_participant A now user_id meeting_id req s =
     and_then (ok_or (get_by_room_id meeting_id (sv_db s)) (app_meeting_not_found meeting_id), s)
       (\<lambda>meeting s.
     and_then (require_host (mr_id meeting) user_id (sv_db s), s)
       (\<lambda>_ s.
     and_then (run_write (reject now (mr_id meeting) (adr_user_id req)) s)
       (\<lambda>rejected s.
     and_then (ok_or rejected (app_participant_not_found (adr_user_id req)), s)
       (\<lambda>row s.
         (Inr (api_response_ok (into_participant_status row None)),
          publish_participant_rejected A meeting_id (adr_user_id req) s)))))"

end
