(* ===== verification/Meeting_Lifecycle.thy ===== *)
theory Meeting_Lifecycle
  imports Meeting_Routes
begin

text \<open>
  The correctness of the meeting service: the invariant of the database and of host rights
  over every run of requests, who receives a room token, who may change a meeting, what the
  waiting room lets through, and which events the other services are told about.
\<close>

section \<open>Host rights in the database\<close>

definition creator_is :: "nat \<Rightarrow> string \<Rightarrow> database \<Rightarrow> bool" where
  "creator_is mid uid db \<longleftrightarrow>
     list_all (\<lambda>r. mr_id r = mid \<longrightarrow> mr_creator_id r = Some uid) (db_meetings db)"

definition data_inv :: "database \<Rightarrow> bool" where
  "data_inv db \<longleftrightarrow> db_inv db \<and> hosts_inv db"

definition service_inv :: "service \<Rightarrow> bool" where
  "service_inv s \<longleftrightarrow> data_inv (sv_db s)"

named_theorems data_intros "every write query keeps the invariant of the data"

lemma create_data [data_intros]:
  "data_inv db \<Longrightarrow> data_inv (snd (create_with_options now room creator pwd att wr db))"
  by (simp add: data_inv_def create_inv create_hosts_inv)

lemma soft_delete_data [data_intros]: "data_inv db \<Longrightarrow> data_inv (snd (soft_delete now room creator db))"
  by (auto simp: data_inv_def soft_delete_inv)
     (auto simp: soft_delete_def Let_def case_prod_beta intro!: update_meetings_hosts_inv)

lemma activate_data [data_intros]: "data_inv db \<Longrightarrow> data_inv (activate now mid db)"
  by (auto simp: data_inv_def activate_inv)
     (auto simp: activate_def intro!: update_meetings_hosts_inv)

lemma end_meeting_data [data_intros]: "data_inv db \<Longrightarrow> data_inv (end_meeting now mid db)"
  by (auto simp: data_inv_def end_meeting_inv)
     (auto simp: end_meeting_def intro!: update_meetings_hosts_inv)

lemma set_host_display_name_data [data_intros]:
  "data_inv db \<Longrightarrow> data_inv (snd (set_host_display_name now mid dn db))"
  by (auto simp: data_inv_def set_host_display_name_inv)
     (auto simp: set_host_display_name_def intro!: update_meetings_hosts_inv)

lemma update_waiting_room_enabled_data [data_intros]:
  "data_inv db \<Longrightarrow> data_inv (snd (update_waiting_room_enabled now room creator enabled db))"
  by (auto simp: data_inv_def update_waiting_room_enabled_inv)
     (auto simp: update_waiting_room_enabled_def Let_def case_prod_beta split: option.splits
           intro!: update_meetings_hosts_inv update_participants_hosts_inv)

lemma admit_data [data_intros]: "data_inv db \<Longrightarrow> data_inv (snd (admit now mid uid db))"
  by (auto simp: data_inv_def admit_inv)
     (auto simp: admit_def Let_def case_prod_beta intro!: update_participants_hosts_inv)

lemma admit_all_rows_data [data_intros]: "data_inv db \<Longrightarrow> data_inv (snd (admit_all_rows now mid db))"
  by (auto simp: data_inv_def admit_all_rows_inv)
     (auto simp: admit_all_rows_def intro!: update_participants_hosts_inv)

lemma reject_data [data_intros]: "data_inv db \<Longrightarrow> data_inv (snd (reject now mid uid db))"
  by (auto simp: data_inv_def reject_inv)
     (auto simp: reject_def Let_def case_prod_beta intro!: update_participants_hosts_inv)

lemma leave_data [data_intros]: "data_inv db \<Longrightarrow> data_inv (snd (leave now mid uid db))"
  by (auto simp: data_inv_def leave_inv)
     (auto simp: leave_def Let_def case_prod_beta intro!: update_participants_hosts_inv)

lemma join_attendee_data [data_intros]:
  "data_inv db \<Longrightarrow> data_inv (snd (join_attendee now mid uid dn db))"
  by (auto simp: data_inv_def join_attendee_inv)
     (auto simp: join_attendee_def Let_def case_prod_beta new_participant_def
           split: option.splits sum.splits intro!: upsert_participant_hosts_inv)

lemma upsert_host_data [data_intros]:
  "data_inv db \<Longrightarrow> creator_is mid uid db \<Longrightarrow> data_inv (snd (upsert_host now mid uid dn db))"
  by (auto simp: data_inv_def upsert_host_inv)
     (auto simp: upsert_host_def creator_is_def new_participant_def list_all_iff
           intro!: upsert_participant_hosts_inv)

lemma creator_is_activate: "creator_is mid uid db \<Longrightarrow> creator_is mid uid (activate now i db)"
  by (auto simp: creator_is_def activate_def update_meetings_def Let_def list_all_iff)

lemma creator_is_set_host_display_name:
  "creator_is mid uid db \<Longrightarrow> creator_is mid uid (snd (set_host_display_name now i dn db))"
  by (auto simp: creator_is_def set_host_display_name_def update_meetings_def Let_def list_all_iff)

lemma creator_is_row:
  assumes "data_inv db" and "r \<in> set (db_meetings db)" and "mr_creator_id r = Some uid"
  shows "creator_is (mr_id r) uid db"
proof -
  have inv: "meetings_inv db" using assms(1) by (simp add: data_inv_def db_inv_def)
  show ?thesis
    unfolding creator_is_def list_all_iff
    using meeting_of_id [OF inv assms(2)] meeting_of_id [OF inv] assms(3) by (metis option.inject)
qed

section \<open>Every request keeps the invariant\<close>

lemma sv_db_publish [simp]: "sv_db (publish A room p s) = sv_db s"
  by (simp add: publish_def)

lemma sv_db_publishers [simp]:
  "sv_db (publish_meeting_activated A room s) = sv_db s"
  "sv_db (publish_participant_admitted A room uid s) = sv_db s"
  "sv_db (publish_participant_rejected A room uid s) = sv_db s"
  "sv_db (publish_waiting_room_updated A room s) = sv_db s"
  by (simp_all add: publish_meeting_activated_def publish_participant_admitted_def
        publish_participant_rejected_def publish_waiting_room_updated_def)

lemma sv_db_publish_all [simp]:
  "sv_db (foldl (\<lambda>s r. publish_participant_admitted A room (pr_user_id r) s) s rows) = sv_db s"
  by (induction rows arbitrary: s) auto

lemma sv_db_modify_db [simp]: "sv_db (modify_db q s) = q (sv_db s)"
  by (simp add: modify_db_def)

lemma sv_db_run_query [simp]: "sv_db (snd (run_query err q s)) = snd (q (sv_db s))"
  by (auto simp: run_query_def split: prod.splits sum.splits)

lemma sv_db_run_write [simp]: "sv_db (snd (run_write q s)) = snd (q (sv_db s))"
  by (simp add: run_write_def case_prod_beta)

lemmas and_then_data = and_then_invariant [where P = "\<lambda>s. data_inv (sv_db s)"]

lemma create_meeting_keeps: "service_inv s \<Longrightarrow> service_inv (snd (create_meeting A now gen uid req s))"
  unfolding create_meeting_def
  unfolding service_inv_def by (auto intro!: and_then_data data_intros)

lemma delete_meeting_keeps: "service_inv s \<Longrightarrow> service_inv (snd (delete_meeting now uid room s))"
  unfolding delete_meeting_def
  unfolding service_inv_def by (auto intro!: and_then_data data_intros)

lemma end_meeting_handler_keeps:
  "service_inv s \<Longrightarrow> service_inv (snd (end_meeting_handler now uid room s))"
  unfolding end_meeting_handler_def Let_def
  unfolding service_inv_def by (auto intro!: and_then_data data_intros)

lemma update_meeting_keeps: "service_inv s \<Longrightarrow> service_inv (snd (update_meeting now uid room req s))"
  unfolding update_meeting_def
  unfolding service_inv_def by (auto split: option.splits intro!: and_then_data data_intros)

lemma join_as_host_keeps:
  assumes "service_inv s" and "creator_is (mr_id m) uid (sv_db s)"
  shows "service_inv (snd (join_as_host A now uid room dn m s))"
proof -
  let ?P = "\<lambda>s. data_inv (sv_db s) \<and> creator_is (mr_id m) uid (sv_db s)"
  define t where "t = (if state_or_idle m \<noteq> ''active''
                       then publish_meeting_activated A room (modify_db (activate now (mr_id m)) s)
                       else s)"
  have t: "?P t"
    using assms by (simp add: t_def service_inv_def activate_data creator_is_activate)
  define r where "r = (case dn of Some d \<Rightarrow> run_query (from_sqlx A) (set_host_display_name now (mr_id m) d) t
                                | None \<Rightarrow> (Inr (), t))"
  have r: "?P (snd r)"
    using t by (auto simp: r_def set_host_display_name_data creator_is_set_host_display_name
                     split: option.splits)
  have "data_inv (sv_db (snd (join_as_host A now uid room dn m s)))"
    unfolding join_as_host_def Let_def t_def [symmetric] r_def [symmetric]
    using r by (cases r) (auto intro!: and_then_data data_intros)
  then show ?thesis by (simp add: service_inv_def)
qed

lemma join_as_attendee_keeps:
  "service_inv s \<Longrightarrow> service_inv (snd (join_as_attendee A now uid room dn m s))"
  unfolding join_as_attendee_def Let_def service_inv_def
  by (auto split: prod.splits intro!: and_then_data data_intros)

lemma join_meeting_keeps:
  assumes "service_inv s"
  shows "service_inv (snd (join_meeting A now uid room req s))"
proof (cases "get_by_room_id room (sv_db s)")
  case (Some m)
  then have "m \<in> set (db_meetings (sv_db s))"
    by (auto simp: get_by_room_id_def dest!: fetch_optional_SomeD)
  then have "mr_creator_id m = Some uid \<Longrightarrow> creator_is (mr_id m) uid (sv_db s)"
    using assms creator_is_row by (simp add: service_inv_def)
  then show ?thesis
    using Some assms by (simp add: join_meeting_def Let_def join_as_host_keeps join_as_attendee_keeps)
next
  case None
  let ?r = "run_query (from_sqlx A) (create_meeting_row now room uid None []) s"
  have inv: "data_inv (sv_db (snd ?r))"
    using assms by (simp add: service_inv_def create_meeting_row_def create_data)
  show ?thesis
  proof (cases ?r)
    case (Pair x s')
    then have inv': "data_inv (sv_db s')" using inv by simp
    show ?thesis
    proof (cases x)
      case (Inl e)
      then show ?thesis
        using None Pair inv' by (simp add: join_meeting_def Let_def service_inv_def)
    next
      case (Inr m)
      have "m \<in> set (db_meetings (sv_db s'))"
        using Pair Inr
        by (auto simp: run_query_def create_meeting_row_def create_with_options_def Let_def
                 split: if_splits)
      then have "mr_creator_id m = Some uid \<Longrightarrow> creator_is (mr_id m) uid (sv_db s')"
        using inv' creator_is_row by simp
      then show ?thesis
        using None Pair Inr inv'
        by (simp add: join_meeting_def Let_def service_inv_def
              join_as_host_keeps [unfolded service_inv_def] join_as_attendee_keeps [unfolded service_inv_def])
    qed
  qed
qed

lemma get_my_status_keeps: "service_inv s \<Longrightarrow> service_inv (snd (get_my_status A now uid room s))"
  unfolding get_my_status_def service_inv_def by (auto intro!: and_then_data)

lemma leave_meeting_keeps: "service_inv s \<Longrightarrow> service_inv (snd (leave_meeting now uid room s))"
  unfolding leave_meeting_def service_inv_def Let_def by (auto intro!: and_then_data data_intros)

lemma admit_participant_keeps:
  "service_inv s \<Longrightarrow> service_inv (snd (admit_participant A now uid room req s))"
  unfolding admit_participant_def service_inv_def by (auto intro!: and_then_data data_intros)

lemma admit_all_keeps: "service_inv s \<Longrightarrow> service_inv (snd (admit_all A now uid room s))"
  unfolding admit_all_def service_inv_def by (auto intro!: and_then_data data_intros)

lemma reject_participant_keeps:
  "service_inv s \<Longrightarrow> service_inv (snd (reject_participant A now uid room req s))"
  unfolding reject_participant_def service_inv_def by (auto intro!: and_then_data data_intros)

section \<open>Runs of requests\<close>

datatype meeting_request =
    CreateMeeting "nat \<Rightarrow> nat" create_meeting_request
  | DeleteMeeting string
  | EndMeeting string
  | UpdateMeeting string update_meeting_request
  | JoinMeeting string "join_meeting_request option"
  | GetMyStatus string
  | LeaveMeeting string
  | AdmitParticipant string admit_request
  | AdmitAll string
  | RejectParticipant string admit_request

text \<open>One request: its time, its authenticated user, and what it asks for.\<close>

fun serve :: "app_state \<Rightarrow> service \<Rightarrow> int \<times> string \<times> meeting_request \<Rightarrow> service" where
  "serve A s (now, user, CreateMeeting gen req) = snd (create_meeting A now gen user req s)"
| "serve A s (now, user, DeleteMeeting room) = snd (delete_meeting now user room s)"
| "serve A s (now, user, EndMeeting room) = snd (end_meeting_handler now user room s)"
| "serve A s (now, user, UpdateMeeting room req) = snd (update_meeting now user room req s)"
| "serve A s (now, user, JoinMeeting room req) = snd (join_meeting A now user room req s)"
| "serve A s (now, user, GetMyStatus room) = snd (get_my_status A now user room s)"
| "serve A s (now, user, LeaveMeeting room) = snd (leave_meeting now user room s)"
| "serve A s (now, user, AdmitParticipant room req) = snd (admit_participant A now user room req s)"
| "serve A s (now, user, AdmitAll room) = snd (admit_all A now user room s)"
| "serve A s (now, user, RejectParticipant room req) = snd (reject_participant A now user room req s)"

definition new_service :: service where
  "new_service = \<lparr>sv_db = empty_db, sv_sent = []\<rparr>"

lemmas request_keeps =
  create_meeting_keeps delete_meeting_keeps end_meeting_handler_keeps update_meeting_keeps
  join_meeting_keeps get_my_status_keeps leave_meeting_keeps admit_participant_keeps
  admit_all_keeps reject_participant_keeps

interpretation meeting_service: invariant_system "serve A" service_inv "\<lambda>_. True" for A
proof
  fix s i assume "service_inv s"
  then show "service_inv (serve A s i)"
    by (cases i; cases "snd (snd i)") (auto intro: request_keeps)
qed

lemma reachable_data_inv: "s = foldl (serve A) new_service reqs \<Longrightarrow> data_inv (sv_db s)"
  using meeting_service.run_inv [of new_service reqs A]
  by (simp add: service_inv_def new_service_def data_inv_def db_inv_empty list_all_iff)

text \<open>
  Host rights belong to the creator. After any sequence of requests by any users, the
  database invariant holds and every participant row with the host flag is the row of the
  user who created that meeting.
\<close>
theorem meeting_service_consistent:
  "data_inv (sv_db (foldl (serve A) new_service reqs))"
  by (rule reachable_data_inv) simp

section \<open>Statuses under each query\<close>

lemma get_status_update_meetings [simp]:
  "get_status mid uid (snd (update_meetings now Q f db)) = get_status mid uid db"
  by (simp add: get_status_def)

lemma filter_map_update:
  "(\<And>x. Q x \<Longrightarrow> K (g x) = K x) \<Longrightarrow>
   filter K (map (\<lambda>x. if Q x then g x else x) xs) = map (\<lambda>x. if Q x then g x else x) (filter K xs)"
  by (induction xs) auto

lemma get_status_update_participants:
  assumes "\<And>p. Q p \<Longrightarrow> pr_meeting_id (f p) = pr_meeting_id p \<and> pr_user_id (f p) = pr_user_id p"
  shows "get_status mid uid (snd (update_participants now Q f db)) =
           map_option (\<lambda>p. if Q p then (f p)\<lparr>pr_updated_at := now\<rparr> else p) (get_status mid uid db)"
proof -
  let ?K = "\<lambda>p. pr_meeting_id p = mid \<and> pr_user_id p = uid"
  have "filter ?K (db_participants (snd (update_participants now Q f db))) =
          map (\<lambda>p. if Q p then (f p)\<lparr>pr_updated_at := now\<rparr> else p) (filter ?K (db_participants db))"
    unfolding update_participants_def Let_def
    using assms by (simp add: filter_map_update)
  then show ?thesis
    by (cases "filter ?K (db_participants db)") (simp_all add: get_status_def)
qed

lemma get_status_bump [simp]: "get_status mid uid (bump_participant db) = get_status mid uid db"
  by (simp add: get_status_def)

lemma get_status_upsert_other:
  assumes "(mid, uid) \<noteq> (pr_meeting_id row, pr_user_id row)"
    and "\<And>p. pr_meeting_id (g p) = pr_meeting_id p \<and> pr_user_id (g p) = pr_user_id p"
  shows "get_status mid uid (snd (upsert_participant now row g db)) = get_status mid uid db"
proof (cases rule: upsert_participant_cases [of now row g db])
  case (updated p)
  have "map_option (\<lambda>p. if same_participant row p then (g p)\<lparr>pr_updated_at := now\<rparr> else p)
          (get_status mid uid db) = get_status mid uid db"
    using assms(1)
    by (cases "get_status mid uid db")
       (auto simp: get_status_def dest!: fetch_optional_SomeD)
  then show ?thesis using updated assms(2) by (simp add: get_status_update_participants)
next
  case inserted
  then show ?thesis using assms(1) by (auto simp: get_status_def)
qed simp

lemma get_status_upsert_same:
  assumes "participants_inv db" and "upsert_participant now row g db = (Inr p, db')"
    and "\<And>p. pr_meeting_id (g p) = pr_meeting_id p \<and> pr_user_id (g p) = pr_user_id p"
  shows "get_status (pr_meeting_id row) (pr_user_id row) db' = Some p \<and>
         (p = row \<or> (\<exists>q. p = (g q)\<lparr>pr_updated_at := now\<rparr>)) \<and> db_meetings db' = db_meetings db"
proof (cases rule: upsert_participant_cases [of now row g db])
  case (failed e)
  then show ?thesis using assms(2) by simp
next
  case (updated q)
  then have p: "p = (g q)\<lparr>pr_updated_at := now\<rparr>"
    and db': "db' = snd (update_participants now (same_participant row) g (bump_participant db))"
    using assms(2) by simp_all
  have "get_status (pr_meeting_id row) (pr_user_id row) db = Some q"
    using assms(1) updated by (simp add: get_status_Some_iff)
  then have "get_status (pr_meeting_id row) (pr_user_id row) db' = Some p"
    using p db' updated assms(3) by (simp add: get_status_update_participants)
  then show ?thesis using p db' by auto
next
  case inserted
  then show ?thesis using assms(2) by (auto simp: get_status_def bump_participant_def filter_False)
qed

definition status_in :: "nat \<Rightarrow> string \<Rightarrow> database \<Rightarrow> string option" where
  "status_in mid uid db = map_option pr_status (get_status mid uid db)"

lemma status_in_meeting_queries [simp]:
  "status_in mid uid (snd (create_with_options now room creator pwd att wr db)) = status_in mid uid db"
  "status_in mid uid (snd (create_meeting_row now room creator pwd att db)) = status_in mid uid db"
  "status_in mid uid (snd (soft_delete now room creator db)) = status_in mid uid db"
  "status_in mid uid (activate now i db) = status_in mid uid db"
  "status_in mid uid (end_meeting now i db) = status_in mid uid db"
  "status_in mid uid (snd (set_host_display_name now i dn db)) = status_in mid uid db"
  by (simp_all add: status_in_def create_meeting_row_def create_with_options_def soft_delete_def activate_def
        end_meeting_def set_host_display_name_def Let_def case_prod_beta get_status_def)

lemma status_in_participant_updates:
  "status_in mid uid (snd (admit now i u db)) =
     (if (i, u) = (mid, uid) \<and> status_in mid uid db = Some ''waiting'' then Some ''admitted''
      else status_in mid uid db)"
  "status_in mid uid (snd (admit_all_rows now i db)) =
     (if i = mid \<and> status_in mid uid db = Some ''waiting'' then Some ''admitted''
      else status_in mid uid db)"
  "status_in mid uid (snd (reject now i u db)) =
     (if (i, u) = (mid, uid) \<and> status_in mid uid db = Some ''waiting'' then Some ''rejected''
      else status_in mid uid db)"
  "status_in mid uid (snd (leave now i u db)) =
     (if (i, u) = (mid, uid) \<and> status_in mid uid db \<in> {Some ''waiting'', Some ''admitted''} then Some ''left''
      else status_in mid uid db)"
proof -
  have key: "pr_meeting_id p = mid \<and> pr_user_id p = uid" if "get_status mid uid db = Some p" for p
    using that by (auto simp: get_status_def dest!: fetch_optional_SomeD)
  show
    "status_in mid uid (snd (admit now i u db)) =
       (if (i, u) = (mid, uid) \<and> status_in mid uid db = Some ''waiting'' then Some ''admitted''
        else status_in mid uid db)"
    using key by (cases "get_status mid uid db")
      (auto simp: status_in_def admit_def Let_def case_prod_beta get_status_update_participants)
  show
    "status_in mid uid (snd (admit_all_rows now i db)) =
       (if i = mid \<and> status_in mid uid db = Some ''waiting'' then Some ''admitted''
        else status_in mid uid db)"
    using key by (cases "get_status mid uid db")
      (auto simp: status_in_def admit_all_rows_def get_status_update_participants)
  show
    "status_in mid uid (snd (reject now i u db)) =
       (if (i, u) = (mid, uid) \<and> status_in mid uid db = Some ''waiting'' then Some ''rejected''
        else status_in mid uid db)"
    using key by (cases "get_status mid uid db")
      (auto simp: status_in_def reject_def Let_def case_prod_beta get_status_update_participants)
  show
    "status_in mid uid (snd (leave now i u db)) =
       (if (i, u) = (mid, uid) \<and> status_in mid uid db \<in> {Some ''waiting'', Some ''admitted''} then Some ''left''
        else status_in mid uid db)"
    using key by (cases "get_status mid uid db")
      (auto simp: status_in_def leave_def Let_def case_prod_beta get_status_update_participants)
qed

lemma status_in_upsert_host:
  "(i, u) \<noteq> (mid, uid) \<Longrightarrow> status_in mid uid (snd (upsert_host now i u dn db)) = status_in mid uid db"
  unfolding status_in_def upsert_host_def
  by (subst get_status_upsert_other) (auto simp: new_participant_def)

lemma join_attendee_Inr:
  assumes "participants_inv db"
    and "join_attendee now mid uid dn db = (Inr (auto_admitted, p, wr), db')"
  shows "get_status mid uid db' = Some p \<and> db_meetings db' = db_meetings db \<and>
         (\<exists>m \<in> set (db_meetings db). mr_id m = mid \<and> mr_waiting_room_enabled m = wr) \<and>
         auto_admitted = (\<not> wr) \<and> pr_status p = (if wr then ''waiting'' else ''admitted'')"
proof -
  obtain m where m: "fetch_optional (filter (\<lambda>r. mr_id r = mid) (db_meetings db)) = Some m"
    using assms(2) by (cases "fetch_optional (filter (\<lambda>r. mr_id r = mid) (db_meetings db))")
      (auto simp: join_attendee_def)
  then have mem: "m \<in> set (db_meetings db)" "mr_id m = mid" by (auto dest!: fetch_optional_SomeD)
  have up: "get_status mid uid db'' = Some q \<and> (q = row \<or> (\<exists>x. q = (g x)\<lparr>pr_updated_at := now\<rparr>)) \<and>
            db_meetings db'' = db_meetings db"
    if "upsert_participant now row g db = (Inr q, db'')"
      and "\<And>p. pr_meeting_id (g p) = pr_meeting_id p \<and> pr_user_id (g p) = pr_user_id p"
      and "pr_meeting_id row = mid" "pr_user_id row = uid" for row g q db''
    using get_status_upsert_same [OF assms(1) that(1,2)] that(3,4) by simp
  show ?thesis
  proof (cases "mr_waiting_room_enabled m")
    case True
    then have "upsert_participant now (new_participant now mid uid ''waiting'' False dn None db)
                 (\<lambda>p. p\<lparr>pr_status := ''waiting'', pr_left_at := None,
                        pr_display_name := coalesce dn (pr_display_name p)\<rparr>) db = (Inr p, db')"
      and "wr" and "\<not> auto_admitted"
      using assms(2) m by (auto simp: join_attendee_def Let_def split: prod.splits sum.splits)
    from up [OF this(1)] this(2,3) mem True show ?thesis by (auto simp: new_participant_def)
  next
    case False
    then have "upsert_participant now (new_participant now mid uid ''admitted'' False dn (Some now) db)
                 (\<lambda>p. p\<lparr>pr_status := ''admitted'', pr_admitted_at := Some now, pr_left_at := None,
                        pr_display_name := coalesce dn (pr_display_name p)\<rparr>) db = (Inr p, db')"
      and "\<not> wr" and "auto_admitted"
      using assms(2) m by (auto simp: join_attendee_def Let_def split: prod.splits sum.splits)
    from up [OF this(1)] this(2,3) mem False show ?thesis by (auto simp: new_participant_def)
  qed
qed

lemma upsert_participant_InlD:
  "upsert_participant now row g db = (Inl e, db') \<Longrightarrow> db' = bump_participant db"
  by (cases rule: upsert_participant_cases [of now row g db]) auto

lemma waiting_room_on_while_waiting:
  assumes "db_inv db" and "status_in mid uid db = Some ''waiting''"
    and "m \<in> set (db_meetings db)" and "mr_id m = mid"
  shows "mr_waiting_room_enabled m"
proof -
  obtain p where "p \<in> set (db_participants db)" "pr_meeting_id p = mid" "pr_status p = ''waiting''"
    using assms(2) by (auto simp: status_in_def get_status_def dest!: fetch_optional_SomeD)
  then show ?thesis using assms by (auto simp: db_inv_def waiting_inv_def list_all_iff)
qed

lemma join_attendee_keeps_waiting:
  assumes "db_inv db" and "status_in mid uid db = Some ''waiting''"
  shows "status_in mid uid (snd (join_attendee now i u dn db)) = Some ''waiting''"
proof (cases "(i, u) = (mid, uid)")
  case True
  show ?thesis
  proof (cases "join_attendee now i u dn db")
    case (Pair x db')
    show ?thesis
    proof (cases x)
      case (Inl e)
      have "db' = db \<or> db' = bump_participant db"
        using Pair Inl unfolding join_attendee_def Let_def
        by (auto split: option.splits if_splits sum.splits prod.splits
                 dest: upsert_participant_InlD)
      then show ?thesis using assms Pair by (auto simp: status_in_def)
    next
      case (Inr v)
      obtain aa p wr where v: "v = (aa, p, wr)" by (cases v)
      have "participants_inv db" using assms(1) by (simp add: db_inv_def)
      note facts = join_attendee_Inr [OF this Pair [unfolded Inr v]]
      then have wr by (metis True assms waiting_room_on_while_waiting prod.inject)
      with facts True Pair show ?thesis by (simp add: status_in_def)
    qed
  qed
next
  case False
  have "get_status mid uid (snd (join_attendee now i u dn db)) = get_status mid uid db"
  proof (cases "fetch_optional (filter (\<lambda>r. mr_id r = i) (db_meetings db))")
    case None
    then show ?thesis by (simp add: join_attendee_def)
  next
    case (Some m)
    have other: "get_status mid uid (snd (upsert_participant now (new_participant now i u st False dn adm db) g db)) =
                   get_status mid uid db"
      if "\<And>p. pr_meeting_id (g p) = pr_meeting_id p \<and> pr_user_id (g p) = pr_user_id p" for st adm g
      using False that by (intro get_status_upsert_other) (auto simp: new_participant_def)
    have snd_case: "snd (case r of (Inl e, d) \<Rightarrow> (Inl e, d) | (Inr row, d) \<Rightarrow> (Inr (f row), d)) = snd r"
      for r :: "(sqlx_error + participant_row) \<times> database" and f :: "participant_row \<Rightarrow> bool \<times> participant_row \<times> bool"
      by (auto split: prod.splits sum.splits)
    show ?thesis
      using Some by (auto simp: join_attendee_def Let_def snd_case other)
  qed
  then show ?thesis using assms by (simp add: status_in_def)
qed

section \<open>Who lets a waiting participant in\<close>

definition stranger :: "nat \<Rightarrow> string \<Rightarrow> database \<Rightarrow> bool" where
  "stranger mid actor db \<longleftrightarrow>
     list_all (\<lambda>m. mr_id m = mid \<longrightarrow> mr_creator_id m \<noteq> Some actor) (db_meetings db)"

lemma get_by_room_id_mem:
  "get_by_room_id room db = Some m \<Longrightarrow> m \<in> set (db_meetings db) \<and> mr_room_id m = room \<and> live m"
  by (auto simp: get_by_room_id_def dest!: fetch_optional_SomeD)

lemma require_host_stranger:
  assumes "data_inv db" and "m \<in> set (db_meetings db)" and "require_host (mr_id m) actor db = Inr u"
  shows "mr_creator_id m = Some actor"
proof -
  obtain p where "get_status (mr_id m) actor db = Some p" "pr_is_host p"
    using assms(3) by (auto simp: require_host_def split: option.splits if_splits)
  then show ?thesis
    using assms(1,2)
    by (auto simp: get_status_def data_inv_def hosts_inv_def list_all_iff dest!: fetch_optional_SomeD)
qed

lemma update_waiting_room_enabled_stranger:
  assumes "stranger mid actor db"
  shows "status_in mid uid (snd (update_waiting_room_enabled now room actor enabled db)) = status_in mid uid db"
proof -
  let ?Q = "\<lambda>r. mr_room_id r = room \<and> mr_creator_id r = Some actor \<and> live r"
  let ?f = "\<lambda>r. r\<lparr>mr_waiting_room_enabled := enabled\<rparr>"
  have ids: "mr_id row \<noteq> mid" if "fetch_optional (fst (update_meetings now ?Q ?f db)) = Some row" for row
    using fetch_optional_SomeD [OF that] assms
    by (auto simp: update_meetings_def Let_def stranger_def list_all_iff)
  have "get_status mid uid (snd (update_waiting_room_enabled now room actor enabled db)) = get_status mid uid db"
  proof (cases "fetch_optional (fst (update_meetings now ?Q ?f db))")
    case (Some row)
    have "pr_meeting_id p \<noteq> mr_id row" if "get_status mid uid db = Some p" for p
      using that ids [OF Some] by (auto simp: get_status_def dest!: fetch_optional_SomeD)
    then have "map_option (\<lambda>p. if pr_meeting_id p = mr_id row \<and> pr_status p = ''waiting''
                               then p\<lparr>pr_status := ''admitted'', pr_admitted_at := Some now, pr_updated_at := now\<rparr>
                               else p) (get_status mid uid db) = get_status mid uid db"
      by (cases "get_status mid uid db") auto
    then show ?thesis
      using Some
      by (simp add: update_waiting_room_enabled_def Let_def case_prod_beta get_status_update_participants)
  qed (simp add: update_waiting_room_enabled_def Let_def case_prod_beta)
  then show ?thesis by (simp add: status_in_def)
qed

definition kept_out :: "string option \<Rightarrow> bool" where
  "kept_out st \<longleftrightarrow> st \<noteq> Some ''admitted''"

lemma kept_out_simps [simp]:
  "kept_out (Some ''waiting'')" "kept_out (Some ''left'')" "kept_out (Some ''rejected'')"
  by (simp_all add: kept_out_def)

lemmas and_then_status =
  and_then_invariant [where P = "\<lambda>s. kept_out (status_in mid uid (sv_db s))" for mid uid]

lemma join_as_host_other:
  assumes "(mr_id m, actor) \<noteq> (mid, uid)"
  shows "status_in mid uid (sv_db (snd (join_as_host A now actor room dn m s))) = status_in mid uid (sv_db s)"
proof -
  let ?P = "\<lambda>t. status_in mid uid (sv_db t) = status_in mid uid (sv_db s)"
  show ?thesis
    unfolding join_as_host_def Let_def
    using assms
    by (auto split: option.splits simp: status_in_upsert_host intro!: and_then_invariant [where P = ?P])
qed

lemma join_as_attendee_waiting:
  assumes "db_inv (sv_db s)" and "status_in mid uid (sv_db s) = Some ''waiting''"
  shows "status_in mid uid (sv_db (snd (join_as_attendee A now actor room dn m s))) = Some ''waiting''"
proof -
  let ?P = "\<lambda>t. status_in mid uid (sv_db t) = Some ''waiting''"
  show ?thesis
    unfolding join_as_attendee_def Let_def
    using assms
    by (auto split: prod.splits simp: join_attendee_keeps_waiting intro!: and_then_invariant [where P = ?P])
qed

lemma join_meeting_stranger:
  assumes "data_inv (sv_db s)" and "status_in mid uid (sv_db s) = Some ''waiting''"
    and "stranger mid actor (sv_db s)"
  shows "status_in mid uid (sv_db (snd (join_meeting A now actor room req s))) = Some ''waiting''"
proof (cases "get_by_room_id room (sv_db s)")
  case (Some m)
  have "mr_creator_id m = Some actor \<Longrightarrow> (mr_id m, actor) \<noteq> (mid, uid)"
    using get_by_room_id_mem [OF Some] assms(3) by (auto simp: stranger_def list_all_iff)
  then show ?thesis
    using Some assms(1,2) join_as_attendee_waiting
    by (simp add: join_meeting_def Let_def join_as_host_other data_inv_def)
next
  case None
  obtain x s' where r: "run_query (from_sqlx A) (create_meeting_row now room actor None []) s = (x, s')"
    by fastforce
  have inv: "data_inv (sv_db s')"
    using assms(1) sv_db_run_query [of "from_sqlx A" "create_meeting_row now room actor None []" s] r
    by (simp add: create_meeting_row_def create_data)
  have st: "status_in mid uid (sv_db s') = Some ''waiting''"
    using assms(2) sv_db_run_query [of "from_sqlx A" "create_meeting_row now room actor None []" s] r
    by simp
  have fresh: "mid \<noteq> db_next_meeting (sv_db s)"
  proof -
    obtain p where "p \<in> set (db_participants (sv_db s))" "pr_meeting_id p = mid"
      using assms(2) by (auto simp: status_in_def get_status_def dest!: fetch_optional_SomeD)
    then show ?thesis using next_meeting_fresh(2) [of "sv_db s" p] assms(1) by (auto simp: data_inv_def)
  qed
  show ?thesis
  proof (cases x)
    case (Inr m)
    have "mr_id m = db_next_meeting (sv_db s)"
      using r Inr by (auto simp: run_query_def create_meeting_row_def create_with_options_def Let_def
                           split: if_splits)
    then show ?thesis
      using None r Inr st inv fresh join_as_attendee_waiting [of s' mid uid]
      by (simp add: join_meeting_def Let_def join_as_host_other data_inv_def)
  qed (use None r st in \<open>simp add: join_meeting_def Let_def\<close>)
qed

lemma stranger_cannot_admit:
  assumes "service_inv s" and "status_in mid uid (sv_db s) = Some ''waiting''"
    and "stranger mid actor (sv_db s)"
  shows "kept_out (status_in mid uid (sv_db (serve A s (now, actor, req))))"
proof -
  have data: "data_inv (sv_db s)" using assms(1) by (simp add: service_inv_def)
  have host: "mr_id m \<noteq> mid"
    if "get_by_room_id room (sv_db s) = Some m" "require_host (mr_id m) actor (sv_db s) = Inr u" for room m u
    using require_host_stranger [OF data _ that(2)] get_by_room_id_mem [OF that(1)] assms(3)
    by (auto simp: stranger_def list_all_iff)
  show ?thesis
  proof (cases req)
    case (CreateMeeting gen body)
    then show ?thesis
      using assms(2) by (auto simp: create_meeting_def intro!: and_then_status)
  next
    case (DeleteMeeting room)
    then show ?thesis
      using assms(2) by (auto simp: delete_meeting_def intro!: and_then_status)
  next
    case (EndMeeting room)
    then show ?thesis
      using assms(2) by (auto simp: end_meeting_handler_def Let_def intro!: and_then_status)
  next
    case (UpdateMeeting room body)
    then show ?thesis
      using assms(2,3)
      by (auto simp: update_meeting_def update_waiting_room_enabled_stranger split: option.splits
               intro!: and_then_status)
  next
    case (JoinMeeting room body)
    then show ?thesis using join_meeting_stranger [OF data assms(2,3)] by simp
  next
    case (GetMyStatus room)
    then show ?thesis
      using assms(2) by (auto simp: get_my_status_def intro!: and_then_status)
  next
    case (LeaveMeeting room)
    then show ?thesis
      using assms(2)
      by (auto simp: leave_meeting_def Let_def status_in_participant_updates intro!: and_then_status)
  next
    case (AdmitParticipant room body)
    then show ?thesis
      using assms(2) host
      by (auto simp: admit_participant_def status_in_participant_updates intro!: and_then_status)
  next
    case (AdmitAll room)
    then show ?thesis
      using assms(2) host
      by (auto simp: admit_all_def status_in_participant_updates intro!: and_then_status)
  next
    case (RejectParticipant room body)
    then show ?thesis
      using assms(2) by (auto simp: reject_participant_def status_in_participant_updates intro!: and_then_status)
  qed
qed

section \<open>Following a meeting through the queries\<close>

lemma get_by_room_id_update_meetings:
  assumes "\<And>r. Q r \<Longrightarrow> mr_room_id (f r) = mr_room_id r \<and> live (f r) = live r"
  shows "get_by_room_id room (snd (update_meetings now Q f db)) =
           map_option (\<lambda>r. if Q r then (f r)\<lparr>mr_updated_at := now\<rparr> else r) (get_by_room_id room db)"
proof -
  let ?K = "\<lambda>r. mr_room_id r = room \<and> live r"
  have keep: "?K ((f r)\<lparr>mr_updated_at := now\<rparr>) = ?K r" if "Q r" for r
    using assms [OF that] by (simp add: live_def)
  have "filter ?K (db_meetings (snd (update_meetings now Q f db))) =
          map (\<lambda>r. if Q r then (f r)\<lparr>mr_updated_at := now\<rparr> else r) (filter ?K (db_meetings db))"
    unfolding update_meetings_def Let_def using keep by (simp add: filter_map_update)
  then show ?thesis
    by (cases "filter ?K (db_meetings db)") (simp_all add: get_by_room_id_def)
qed

lemma get_by_room_id_same_meetings:
  "db_meetings db' = db_meetings db \<Longrightarrow> get_by_room_id room db' = get_by_room_id room db"
  by (simp add: get_by_room_id_def)

lemma upsert_host_Inr:
  assumes "participants_inv db" and "upsert_host now mid uid dn db = (Inr p, db')"
  shows "get_status mid uid db' = Some p \<and> pr_status p = ''admitted'' \<and> pr_is_host p \<and>
         db_meetings db' = db_meetings db"
  using get_status_upsert_same [OF assms(1) assms(2) [unfolded upsert_host_def]]
  by (auto simp: new_participant_def)

lemma run_query_Inr_iff:
  "run_query err q s = (Inr a, s') \<longleftrightarrow>
   (\<exists>d. q (sv_db s) = (Inr a, d) \<and> s' = s\<lparr>sv_db := d\<rparr>)"
  by (auto simp: run_query_def split: prod.splits sum.splits)

lemma join_as_host_Inr:
  assumes "data_inv (sv_db s)" and "get_by_room_id room (sv_db s) = Some m"
    and "join_as_host A now uid room dn m s = (Inr resp, s')"
  shows "(\<exists>m'. get_by_room_id room (sv_db s') = Some m' \<and> mr_state m' = Some ''active'' \<and>
               mr_id m' = mr_id m \<and> mr_creator_id m' = mr_creator_id m) \<and>
         status_in (mr_id m) uid (sv_db s') = Some ''admitted'' \<and>
         (\<exists>token dn. ps_room_token (resp_result resp) = Some token \<and>
            generate_room_token (as_jwt A) (timestamp now) (as_jwt_secret A) (as_token_ttl_secs A) uid room
              True dn = Inr token)"
proof -
  let ?P = "\<lambda>t. data_inv (sv_db t) \<and> (\<exists>m'. get_by_room_id room (sv_db t) = Some m' \<and>
                mr_state m' = Some ''active'' \<and> mr_id m' = mr_id m \<and> mr_creator_id m' = mr_creator_id m)"
  define t where "t = (if state_or_idle m \<noteq> ''active''
                       then publish_meeting_activated A room (modify_db (activate now (mr_id m)) s)
                       else s)"
  have t: "?P t"
    using assms(1,2)
    by (auto simp: t_def activate_data state_or_idle_def activate_def live_def
          get_by_room_id_update_meetings split: option.splits)
       (simp_all add: activate_data [unfolded activate_def])
  define r where "r = (case dn of Some d \<Rightarrow> run_query (from_sqlx A) (set_host_display_name now (mr_id m) d) t
                                | None \<Rightarrow> (Inr (), t))"
  have r: "?P (snd r)"
    using t
    by (auto simp: r_def set_host_display_name_data split: option.splits)
       (auto simp: set_host_display_name_def live_def get_by_room_id_update_meetings)
  obtain u t2 row t3 token where
    t2: "r = (Inr u, t2)" and
    t3: "run_query (from_sqlx A) (upsert_host now (mr_id m) uid dn) t2 = (Inr row, t3)" and
    token: "generate_room_token (as_jwt A) (timestamp now) (as_jwt_secret A) (as_token_ttl_secs A) uid room
              True (case dn of None \<Rightarrow> uid | Some d \<Rightarrow> d) = Inr token" and
    resp: "s' = t3" "ps_room_token (resp_result resp) = Some token"
    using assms(3)
    unfolding join_as_host_def Let_def t_def [symmetric] r_def [symmetric] and_then_Inr_iff
    by (auto simp: api_response_ok_def into_participant_status_def)
  have P2: "?P t2" using r t2 by simp
  from t3 obtain d where d: "upsert_host now (mr_id m) uid dn (sv_db t2) = (Inr row, d)" "sv_db t3 = d"
    by (auto simp: run_query_Inr_iff)
  have "participants_inv (sv_db t2)" using P2 by (simp add: data_inv_def db_inv_def)
  from upsert_host_Inr [OF this d(1)] P2 d(2) resp token
  show ?thesis by (auto simp: status_in_def get_by_room_id_same_meetings [of d "sv_db t2"])
qed

lemma join_as_attendee_token:
  assumes "data_inv (sv_db s)" and "get_by_room_id room (sv_db s) = Some m"
    and "join_as_attendee A now uid room dn m s = (Inr resp, s')"
    and "ps_room_token (resp_result resp) = Some token"
  shows "get_by_room_id room (sv_db s') = Some m \<and> mr_state m = Some ''active'' \<and>
         \<not> mr_waiting_room_enabled m \<and> status_in (mr_id m) uid (sv_db s') = Some ''admitted'' \<and>
         (\<exists>dn. generate_room_token (as_jwt A) (timestamp now) (as_jwt_secret A) (as_token_ttl_secs A) uid room
                 False dn = Inr token)"
proof -
  have active: "state_or_idle m = ''active''"
    using assms(3,4)
    by (auto simp: join_as_attendee_def Let_def and_then_Inr_iff api_response_ok_def split: if_splits)
  then obtain aa p wr t1 where
    t1: "run_query (from_sqlx A) (join_attendee now (mr_id m) uid dn) s = (Inr (aa, p, wr), t1)" and
    rest: "aa \<and> sv_db s' = sv_db t1 \<and>
      generate_room_token (as_jwt A) (timestamp now) (as_jwt_secret A) (as_token_ttl_secs A) uid room
              False (case dn of None \<Rightarrow> uid | Some d \<Rightarrow> d) = Inr token"
    using assms(3,4)
    by (auto simp: join_as_attendee_def Let_def and_then_Inr_iff api_response_ok_def
          into_participant_status_def split: if_splits sum.splits)
  from t1 obtain d where d: "join_attendee now (mr_id m) uid dn (sv_db s) = (Inr (aa, p, wr), d)" "sv_db t1 = d"
    by (auto simp: run_query_Inr_iff)
  have inv: "participants_inv (sv_db s)" "meetings_inv (sv_db s)"
    using assms(1) by (simp_all add: data_inv_def db_inv_def)
  from join_attendee_Inr [OF inv(1) d(1)] rest
  obtain m' where m': "get_status (mr_id m) uid d = Some p" "db_meetings d = db_meetings (sv_db s)"
      "m' \<in> set (db_meetings (sv_db s))" "mr_id m' = mr_id m" "\<not> mr_waiting_room_enabled m'"
      "pr_status p = ''admitted''"
    by auto
  have "m' = m"
    using meeting_of_id [OF inv(2) m'(3)] meeting_of_id [OF inv(2)] get_by_room_id_mem [OF assms(2)] m'(4)
    by (metis option.inject)
  moreover have "mr_state m = Some ''active''"
    using active by (simp add: state_or_idle_def split: option.splits)
  ultimately show ?thesis
    using m' rest d(2) assms(2)
    by (auto simp: status_in_def get_by_room_id_same_meetings [of d "sv_db s"])
qed

lemma join_token_facts:
  assumes inv: "data_inv (sv_db s)"
    and "join_meeting A now uid room req s = (Inr resp, s')"
    and "ps_room_token (resp_result resp) = Some token"
  shows "\<exists>m. get_by_room_id room (sv_db s') = Some m \<and> mr_state m = Some ''active'' \<and>
             status_in (mr_id m) uid (sv_db s') = Some ''admitted'' \<and>
             (mr_creator_id m = Some uid \<or> \<not> mr_waiting_room_enabled m) \<and>
             (\<exists>dn. generate_room_token (as_jwt A) (timestamp now) (as_jwt_secret A) (as_token_ttl_secs A)
                     uid room (mr_creator_id m = Some uid) dn = Inr token)"
proof -
  obtain m t where m: "get_by_room_id room (sv_db t) = Some m" and t: "data_inv (sv_db t)"
    and step: "(if mr_creator_id m = Some uid
                then join_as_host A now uid room (Option.bind req jmr_display_name) m t
                else join_as_attendee A now uid room (Option.bind req jmr_display_name) m t) = (Inr resp, s')"
  proof (cases "get_by_room_id room (sv_db s)")
    case (Some m)
    then show thesis using that [of s m] inv assms(2) by (simp add: join_meeting_def Let_def)
  next
    case None
    then obtain m t where q: "run_query (from_sqlx A) (create_meeting_row now room uid None []) s = (Inr m, t)"
      and rest: "(if mr_creator_id m = Some uid
                  then join_as_host A now uid room (Option.bind req jmr_display_name) m t
                  else join_as_attendee A now uid room (Option.bind req jmr_display_name) m t) = (Inr resp, s')"
      using assms(2) by (auto simp: join_meeting_def Let_def and_then_Inr_iff)
    have t: "data_inv (sv_db t)"
      using sv_db_run_query [of "from_sqlx A" "create_meeting_row now room uid None []" s] q inv
      by (simp add: create_meeting_row_def create_data)
    have "m \<in> set (db_meetings (sv_db t)) \<and> mr_room_id m = room \<and> live m"
      using q by (auto simp: run_query_def create_meeting_row_def create_with_options_def Let_def live_def
                       split: if_splits)
    then have "get_by_room_id room (sv_db t) = Some m"
      using t by (simp add: get_by_room_id_Some_iff data_inv_def db_inv_def)
    then show thesis using that t rest by blast
  qed
  show ?thesis
  proof (cases "mr_creator_id m = Some uid")
    case True
    with step join_as_host_Inr [OF t m] assms(3) show ?thesis by fastforce
  next
    case False
    with step join_as_attendee_token [OF t m _ assms(3)] show ?thesis by auto
  qed
qed

lemma join_observer_token_facts:
  assumes "join_meeting A now uid room req s = (Inr resp, s')"
    and "ps_observer_token (resp_result resp) = Some token"
  shows "ps_room_token (resp_result resp) = None \<and>
         (\<exists>dn. generate_observer_token (as_jwt A) (timestamp now) (as_jwt_secret A) uid room dn = Inr token)"
  using assms
  by (auto simp: join_meeting_def join_as_host_def join_as_attendee_def Let_def and_then_Inr_iff
        api_response_ok_def into_participant_status_def split: if_splits option.splits sum.splits)

text \<open>A configuration without a message broker, for the witnesses.\<close>

definition demo_app :: app_state where
  "demo_app = \<lparr>as_jwt = ref_room_jwt, as_jwt_secret = ''key'', as_token_ttl_secs = 600,
               as_nats = False, as_proto = ref_proto, as_hash_password = Inr,
               as_sqlx_message = (\<lambda>_. ''database error'')\<rparr>"

definition demo_requests :: "(int \<times> string \<times> meeting_request) list" where
  "demo_requests =
     [(1000, ''ana'', JoinMeeting ''standup'' None), (2000, ''bob'', JoinMeeting ''standup'' None)]"

definition demo_service :: service where
  "demo_service = foldl (serve demo_app) new_service demo_requests"

lemma demo_statuses:
  "status_in 1 ''bob'' (sv_db demo_service) = Some ''waiting'' \<and>
   status_in 1 ''bob'' (sv_db (serve demo_app demo_service
      (3000, ''ana'', AdmitParticipant ''standup'' \<lparr>adr_user_id = ''bob''\<rparr>))) = Some ''admitted''"
  by code_simp

text \<open>
  C5: a room token is only handed to an admitted participant. When joining a meeting returns a
  room token, then in the state the request leaves behind the meeting is active and the user
  is admitted to it, and either is its creator or the waiting room is off; the token is the
  one issued to this user for this room, with host rights exactly for the creator.
\<close>
theorem join_token_requires_admission:
  assumes "s = foldl (serve A) new_service reqs"
    and "join_meeting A now uid room req s = (Inr resp, s')"
    and "ps_room_token (resp_result resp) = Some token"
  shows "\<exists>m. get_by_room_id room (sv_db s') = Some m \<and> mr_state m = Some ''active'' \<and>
             status_in (mr_id m) uid (sv_db s') = Some ''admitted'' \<and>
             (mr_creator_id m = Some uid \<or> \<not> mr_waiting_room_enabled m) \<and>
             (\<exists>dn. generate_room_token (as_jwt A) (timestamp now) (as_jwt_secret A) (as_token_ttl_secs A)
                     uid room (mr_creator_id m = Some uid) dn = Inr token)"
  using join_token_facts [OF reachable_data_inv [OF assms(1)] assms(2,3)] .

theorem join_token_requires_admission_witness:
  "\<exists>resp s' m. join_meeting demo_app 4000 ''ana'' ''standup'' None new_service = (Inr resp, s') \<and>
     get_by_room_id ''standup'' (sv_db s') = Some m \<and>
     status_in (mr_id m) ''ana'' (sv_db s') = Some ''admitted''"
proof -
  have "case join_meeting demo_app 4000 ''ana'' ''standup'' None new_service of
          (Inr resp, s') \<Rightarrow> ps_room_token (resp_result resp) \<noteq> None | _ \<Rightarrow> False"
    by code_simp
  then obtain resp s' token where
    "join_meeting demo_app 4000 ''ana'' ''standup'' None new_service = (Inr resp, s')"
    "ps_room_token (resp_result resp) = Some token"
    by (auto split: prod.splits sum.splits)
  with join_token_requires_admission [of new_service demo_app "[]", OF _ this]
  show ?thesis by fastforce
qed



section \<open>Rights and endings\<close>

lemma require_host_refuses:
  assumes "data_inv db" and "m \<in> set (db_meetings db)" and "mr_creator_id m \<noteq> Some user"
  shows "require_host (mr_id m) user db = Inl app_not_host"
  using require_host_stranger [OF assms(1,2)] assms(3)
  by (auto simp: require_host_def split: option.splits if_splits)

lemma update_waiting_room_not_owner:
  assumes "meetings_inv db" and "get_by_room_id room db = Some m" and "mr_creator_id m \<noteq> Some user"
  shows "update_waiting_room_enabled now room user enabled db = (None, db)"
proof -
  let ?Q = "\<lambda>r. mr_room_id r = room \<and> mr_creator_id r = Some user \<and> live r"
  have none: "\<not> ?Q r" if "r \<in> set (db_meetings db)" for r
    using that assms get_by_room_id_Some_iff [OF assms(1)] by (metis option.inject)
  have "map (\<lambda>r. if ?Q r then r\<lparr>mr_waiting_room_enabled := enabled, mr_updated_at := now\<rparr> else r)
          (db_meetings db) = db_meetings db"
    using none by (intro map_idI) auto
  then show ?thesis
    using none by (auto simp: update_waiting_room_enabled_def update_meetings_def Let_def filter_False)
qed



lemma count_admitted_same_participants:
  "db_participants db' = db_participants db \<Longrightarrow> count_admitted i db' = count_admitted i db"
  by (simp add: count_admitted_def)

text \<open>
  Leaving a meeting. After a successful leave request the user's status is \<open>left\<close>. If the
  creator left, or nobody who is admitted remains, the meeting is ended and from then on the
  status request of every user is refused, so no further room token is issued through it;
  otherwise the state of the meeting is what it was.
\<close>
theorem leave_ends_meeting:
  assumes "s = foldl (serve A) new_service reqs"
    and "get_by_room_id room (sv_db s) = Some m"
    and "leave_meeting now user room s = (Inr resp, s')"
  shows "status_in (mr_id m) user (sv_db s') = Some ''left'' \<and>
         (if mr_creator_id m = Some user \<or> count_admitted (mr_id m) (sv_db s') = 0
          then get_my_status B later anyone room s' = (Inl (app_meeting_not_active room), s')
          else get_by_room_id room (sv_db s') = Some m)"
proof -
  obtain p t where t: "run_write (leave now (mr_id m) user) s = (Inr (Some p), t)"
    and s': "(if mr_creator_id m = Some user then modify_db (end_meeting now (mr_id m)) t
              else if count_admitted (mr_id m) (sv_db t) = 0
              then modify_db (end_meeting now (mr_id m)) t else t) = s'"
    using assms(2,3) by (auto simp: leave_meeting_def Let_def and_then_Inr_iff)
  have left: "fst (leave now (mr_id m) user (sv_db s)) = Some p"
    and db: "sv_db t = snd (leave now (mr_id m) user (sv_db s))"
    using t by (auto simp: run_write_def split: prod.splits)
  have inv: "participants_inv (sv_db s)"
    using reachable_data_inv [OF assms(1)] by (simp add: data_inv_def db_inv_def)
  obtain q where "get_status (mr_id m) user (sv_db s) = Some q" "pr_status q \<in> {''admitted'', ''waiting''}"
    using fetch_optional_SomeD [of _ p] left
    by (auto simp: leave_def Let_def update_participants_def get_status_Some_iff [OF inv]
             dest!: fetch_optional_SomeD)
  then have "status_in (mr_id m) user (sv_db s) \<in> {Some ''waiting'', Some ''admitted''}"
    by (auto simp: status_in_def)
  then have status: "status_in (mr_id m) user (sv_db t) = Some ''left''"
    by (simp add: db status_in_participant_updates)
  have room: "get_by_room_id room (sv_db t) = Some m"
    using assms(2) by (simp add: db leave_def Let_def case_prod_beta get_by_room_id_def)
  have ended: "get_by_room_id room (end_meeting now (mr_id m) (sv_db t)) =
      Some (m\<lparr>mr_state := Some ''ended'', mr_ended_at := Some now, mr_updated_at := now\<rparr>)"
    using room by (simp add: end_meeting_def get_by_room_id_update_meetings live_def)
  have same: "count_admitted (mr_id m) (end_meeting now (mr_id m) (sv_db t)) = count_admitted (mr_id m) (sv_db t)"
    by (rule count_admitted_same_participants) (simp add: end_meeting_def)
  show ?thesis
    using status room ended same s' by (auto simp: get_my_status_def split: if_splits)
qed

theorem leave_ends_meeting_witness:
  "\<exists>resp s'. leave_meeting 3000 ''ana'' ''standup'' demo_service = (Inr resp, s') \<and>
     get_my_status demo_app 4000 ''bob'' ''standup'' s' = (Inl (app_meeting_not_active ''standup''), s')"
proof -
  have "case get_by_room_id ''standup'' (sv_db demo_service) of
          Some m \<Rightarrow> mr_creator_id m = Some ''ana'' | None \<Rightarrow> False"
    by code_simp
  then obtain m where m: "get_by_room_id ''standup'' (sv_db demo_service) = Some m" "mr_creator_id m = Some ''ana''"
    by (auto split: option.splits)
  have "case leave_meeting 3000 ''ana'' ''standup'' demo_service of (Inr resp, s') \<Rightarrow> True | _ \<Rightarrow> False"
    by code_simp
  then obtain resp s' where "leave_meeting 3000 ''ana'' ''standup'' demo_service = (Inr resp, s')"
    by (auto split: prod.splits sum.splits)
  with leave_ends_meeting [OF demo_service_def m(1) this, of demo_app 4000 "''bob''"] m(2) show ?thesis by auto
qed

text \<open>
  The status request hands out a room token exactly to a participant who is admitted to a
  meeting that is not ended, and changes nothing.
\<close>

theorem status_token_iff_admitted:
  assumes "get_my_status A now uid room s = (Inr resp, s')"
  shows "s' = s \<and> (\<exists>m. get_by_room_id room (sv_db s) = Some m \<and> mr_state m \<noteq> Some ''ended'' \<and>
           (ps_room_token (resp_result resp) \<noteq> None \<longleftrightarrow> status_in (mr_id m) uid (sv_db s) = Some ''admitted''))"
proof -
  obtain m row token where
    m: "get_by_room_id room (sv_db s) = Some m" "mr_state m \<noteq> Some ''ended''" and
    row: "get_status (mr_id m) uid (sv_db s) = Some row" and
    token: "(if pr_status row = ''admitted''
             then (case generate_room_token (as_jwt A) (timestamp now) (as_jwt_secret A)
                          (as_token_ttl_secs A) uid room (pr_is_host row)
                          (case pr_display_name row of None \<Rightarrow> uid | Some n \<Rightarrow> n) of
                     Inl e \<Rightarrow> Inl e
                   | Inr token \<Rightarrow> Inr (Some token))
             else Inr None) = Inr token" and
    resp: "s' = s" "ps_room_token (resp_result resp) = token"
    using assms
    by (auto simp: get_my_status_def and_then_Inr_iff api_response_ok_def into_participant_status_def
             simp del: if_split split: if_splits)
  from token have "token \<noteq> None \<longleftrightarrow> pr_status row = ''admitted''"
    by (auto split: if_splits sum.splits)
  then show ?thesis using m row resp by (auto simp: status_in_def)
qed

text \<open>
  Turning the waiting room off admits everybody who waits, but unlike the admit requests it
  publishes nothing: clients that wait for the \<open>PARTICIPANT_ADMITTED\<close> event are not told.
\<close>

theorem disabling_waiting_room_silent:
  "sv_sent (snd (update_meeting now user room change s)) = sv_sent s"
proof -
  have "sv_sent (snd (update_meeting now user room change s)) = sv_sent s \<and> True"
    unfolding update_meeting_def
    by (rule and_then_invariant [where P = "\<lambda>t. sv_sent t = sv_sent s \<and> True"])
       (auto simp: run_write_def split: option.splits prod.splits
             intro!: and_then_invariant [where P = "\<lambda>t. sv_sent t = sv_sent s"])
  then show ?thesis by simp
qed

text \<open>
  Reactivating an ended meeting sets its state but not its end time: the row is active and
  still carries \<open>ended_at\<close>.
\<close>

theorem reactivated_meeting_keeps_end_time:
  assumes "get_by_room_id room db = Some m" and "mr_ended_at m = Some t"
  shows "\<exists>m'. get_by_room_id room (activate now (mr_id m) db) = Some m' \<and>
              mr_state m' = Some ''active'' \<and> mr_ended_at m' = Some t"
  using assms by (simp add: activate_def get_by_room_id_update_meetings live_def)

lemma charset_id_chars: "list_all is_id_char CHARSET" "length CHARSET = 36"
  by code_simp+

text \<open>
  Every identifier the service generates passes its own validation, and its token passes the
  media server's.
\<close>

theorem generated_ids_valid:
  assumes "\<And>i. gen_range i < 36"
  shows "validate_meeting_id (generate_meeting_id gen_range) = Inr () \<and>
         valid_id (generate_meeting_id gen_range) \<and> length (generate_meeting_id gen_range) = 12"
proof -
  have "is_id_char (CHARSET ! gen_range i)" for i
    using charset_id_chars assms [of i] by (metis list_all_length)
  then show ?thesis
    by (simp add: validate_meeting_id_def generate_meeting_id_def valid_id_def list_all_iff)
qed

end
