(* ===== verification/Client_Connection.thy ===== *)
theory Client_Connection
  imports Proto_Types
begin

text \<open>
  One transport connection of the browser client,
  \<open>videocall-client/src/connection/connection.rs\<close>: its status, the media flags it announces,
  and what it hands to the transport.

  A connection object is shared by reference between the manager, its timers and its callbacks;
  the field \<open>cn_serial\<close> is the identity of the object, so two connections to the same server
  stay distinguishable. The transport task, the timers and AES encryption are outside this
  file: sends are returned as effects, the \<open>heartbeat_tick\<close> of the interval timer is an
  operation, and encryption is the parameter \<open>enc\<close>.
\<close>

datatype conn_status = Connecting | ConnectedStatus | Closed

record connection =
  cn_serial :: nat
  cn_url :: string
  cn_webtransport :: bool
  cn_status :: conn_status
  cn_heartbeat :: "string option"
  cn_heartbeat_monitor :: bool
  cn_userid :: "string option"
  cn_session_id :: "u64 option"
  cn_video_enabled :: bool
  cn_audio_enabled :: bool
  cn_screen_enabled :: bool
  cn_is_speaking :: bool

datatype wire_effect =
    SendStream nat packet_wrapper
  | SendDatagram nat packet_wrapper

definition connection_connect :: "nat \<Rightarrow> bool \<Rightarrow> string \<Rightarrow> connection" where
  "connection_connect serial webtransport url =
     \<lparr>cn_serial = serial, cn_url = url, cn_webtransport = webtransport, cn_status = Connecting,
      cn_heartbeat = None, cn_heartbeat_monitor = True, cn_userid = None, cn_session_id = None,
      cn_video_enabled = False, cn_audio_enabled = False, cn_screen_enabled = False,
      cn_is_speaking = False\<rparr>"

definition on_connected_tap :: "connection \<Rightarrow> connection" where
  "on_connected_tap c = c\<lparr>cn_status := ConnectedStatus\<rparr>"

definition on_lost_tap :: "connection \<Rightarrow> connection" where
  "on_lost_tap c = c\<lparr>cn_status := Closed\<rparr>"

definition conn_is_connected :: "connection \<Rightarrow> bool" where
  "conn_is_connected c \<longleftrightarrow> cn_status c = ConnectedStatus"

definition build_heartbeat_packet ::
  "proto \<Rightarrow> (bytes \<Rightarrow> bytes option) \<Rightarrow> real \<Rightarrow> string \<Rightarrow> connection \<Rightarrow> packet_wrapper option" where
  "build_heartbeat_packet P enc date_now userid c =
     (let packet = default_media_packet
            \<lparr>med_media_type := media_type_value HEARTBEAT, med_user_id := as_bytes userid,
             med_timestamp := date_now,
             med_heartbeat_metadata := Some
               \<lparr>hm_video_enabled = cn_video_enabled c, hm_audio_enabled = cn_audio_enabled c,
                hm_screen_enabled = cn_screen_enabled c, hm_is_speaking = cn_is_speaking c\<rparr>\<rparr>
      in case write_media P packet of
           None \<Rightarrow> None
         | Some bytes \<Rightarrow>
             (case enc bytes of
                None \<Rightarrow> None
              | Some data \<Rightarrow>
                  Some (default_packet_wrapper
                    \<lparr>pw_data := data, pw_user_id := as_bytes userid,
                     pw_packet_type := packet_type_value MEDIA,
                     pw_session_id := (case cn_session_id c of None \<Rightarrow> 0 | Some sid \<Rightarrow> sid)\<rparr>)))"

definition start_heartbeat :: "string \<Rightarrow> connection \<Rightarrow> connection" where
  "start_heartbeat userid c = c\<lparr>cn_userid := Some userid, cn_heartbeat := Some userid\<rparr>"

definition heartbeat_tick ::
  "proto \<Rightarrow> (bytes \<Rightarrow> bytes option) \<Rightarrow> real \<Rightarrow> connection \<Rightarrow> wire_effect list" where
  "heartbeat_tick P enc date_now c =
     (case cn_heartbeat c of
        None \<Rightarrow> []
      | Some userid \<Rightarrow>
          (case build_heartbeat_packet P enc date_now userid c of
             None \<Rightarrow> []
           | Some w \<Rightarrow> if conn_is_connected c then [SendDatagram (cn_serial c) w] else []))"

definition stop_heartbeat :: "connection \<Rightarrow> connection" where
  "stop_heartbeat c = c\<lparr>cn_heartbeat := None, cn_heartbeat_monitor := False\<rparr>"

definition conn_send_packet :: "packet_wrapper \<Rightarrow> connection \<Rightarrow> wire_effect list" where
  "conn_send_packet packet c = (if conn_is_connected c then [SendStream (cn_serial c) packet] else [])"

definition conn_send_packet_datagram :: "packet_wrapper \<Rightarrow> connection \<Rightarrow> wire_effect list" where
  "conn_send_packet_datagram packet c =
     (if conn_is_connected c then [SendDatagram (cn_serial c) packet] else [])"

definition send_immediate_heartbeat ::
  "proto \<Rightarrow> (bytes \<Rightarrow> bytes option) \<Rightarrow> real \<Rightarrow> connection \<Rightarrow> wire_effect list" where
  "send_immediate_heartbeat P enc date_now c =
     (case cn_userid c of
        None \<Rightarrow> []
      | Some userid \<Rightarrow>
          if \<not> conn_is_connected c then []
          else (case build_heartbeat_packet P enc date_now userid c of
                  None \<Rightarrow> []
                | Some w \<Rightarrow> [SendDatagram (cn_serial c) w]))"

definition conn_set_video_enabled ::
  "proto \<Rightarrow> (bytes \<Rightarrow> bytes option) \<Rightarrow> real \<Rightarrow> bool \<Rightarrow> connection \<Rightarrow> connection \<times> wire_effect list" where
  "conn_set_video_enabled P enc date_now enabled c =
     (let c' = c\<lparr>cn_video_enabled := enabled\<rparr>
      in (c', if cn_video_enabled c \<noteq> enabled then send_immediate_heartbeat P enc date_now c' else []))"

definition conn_set_audio_enabled ::
  "proto \<Rightarrow> (bytes \<Rightarrow> bytes option) \<Rightarrow> real \<Rightarrow> bool \<Rightarrow> connection \<Rightarrow> connection \<times> wire_effect list" where
  "conn_set_audio_enabled P enc date_now enabled c =
     (let c' = c\<lparr>cn_audio_enabled := enabled\<rparr>
      in (c', if cn_audio_enabled c \<noteq> enabled then send_immediate_heartbeat P enc date_now c' else []))"

definition conn_set_screen_enabled ::
  "proto \<Rightarrow> (bytes \<Rightarrow> bytes option) \<Rightarrow> real \<Rightarrow> bool \<Rightarrow> connection \<Rightarrow> connection \<times> wire_effect list" where
  "conn_set_screen_enabled P enc date_now enabled c =
     (let c' = c\<lparr>cn_screen_enabled := enabled\<rparr>
      in (c', if cn_screen_enabled c \<noteq> enabled then send_immediate_heartbeat P enc date_now c' else []))"

definition conn_set_speaking ::
  "proto \<Rightarrow> (bytes \<Rightarrow> bytes option) \<Rightarrow> real \<Rightarrow> bool \<Rightarrow> connection \<Rightarrow> connection \<times> wire_effect list" where
  "conn_set_speaking P enc date_now speaking c =
     (let c' = c\<lparr>cn_is_speaking := speaking\<rparr>
      in (c', if cn_is_speaking c \<noteq> speaking then send_immediate_heartbeat P enc date_now c' else []))"

definition conn_set_session_id :: "u64 \<Rightarrow> connection \<Rightarrow> connection" where
  "conn_set_session_id session_id c = c\<lparr>cn_session_id := Some session_id\<rparr>"

end
