(* ===== verification/Connection_Manager.thy ===== *)
theory Connection_Manager
  imports Complex_Main Client_Connection
begin

text \<open>
  The connection manager of the browser client,
  \<open>videocall-client/src/connection/connection_manager.rs\<close>, with the timers of
  \<open>connection_controller.rs\<close> that drive it: it opens a connection to every configured server,
  measures round-trip times, elects the best connection, watches its quality, re-elects, and
  reconnects with backoff after a loss.

  \<^item> The manager's fields, shared and owned, are one record. The two hash maps are association
    lists, whose order stands for the iteration order of the code.
  \<^item> \<open>f64\<close> values are the real numbers they denote; the clock \<open>monotonic_now_ms\<close>, the random number
    of the backoff, whether opening a transport succeeds (\<open>opens\<close>), and whether the manager can be
    borrowed (\<open>busy\<close>) are arguments.
  \<^item> Callbacks and timers become operations; what they do to the outside (state notifications,
    packets, starting the reconnection task) is returned as a list of effects in order.
  \<^item> The asynchronous reconnection loop is cut at its awaits into \<open>loop_head\<close>, \<open>loop_after_backoff\<close> and
    \<open>loop_after_election\<close>, with its local variables in \<open>reconnect_loop\<close>.
  \<^item> Diagnostics metrics and logging are not modelled.
\<close>

section \<open>Constants\<close>

definition RTT_SANITY_MAX_MS :: real where "RTT_SANITY_MAX_MS = 10000"
definition ELECTION_MIN_RTT_SAMPLES :: nat where "ELECTION_MIN_RTT_SAMPLES = 2"
definition ELECTION_MAX_EXTENSIONS :: u32 where "ELECTION_MAX_EXTENSIONS = 2"
definition RECONNECT_INITIAL_DELAY_MS :: u64 where "RECONNECT_INITIAL_DELAY_MS = 500"
definition RECONNECT_MAX_DELAY_PHASE1_MS :: u64 where "RECONNECT_MAX_DELAY_PHASE1_MS = 2000"
definition RECONNECT_MAX_DELAY_PHASE2_MS :: u64 where "RECONNECT_MAX_DELAY_PHASE2_MS = 10000"
definition RECONNECT_MAX_DELAY_PHASE3_MS :: u64 where "RECONNECT_MAX_DELAY_PHASE3_MS = 30000"
definition RECONNECT_PHASE1_MAX_ATTEMPTS :: u32 where "RECONNECT_PHASE1_MAX_ATTEMPTS = 5"
definition RECONNECT_PHASE2_MAX_ATTEMPTS :: u32 where "RECONNECT_PHASE2_MAX_ATTEMPTS = 15"
definition RECONNECT_BACKOFF_MULTIPLIER :: real where "RECONNECT_BACKOFF_MULTIPLIER = 2"
definition RECONNECT_CONSECUTIVE_ZERO_LIMIT :: u32 where "RECONNECT_CONSECUTIVE_ZERO_LIMIT = 10"
definition REELECTION_RTT_MULTIPLIER :: real where "REELECTION_RTT_MULTIPLIER = 3"
definition REELECTION_RTT_MIN_THRESHOLD_MS :: real where "REELECTION_RTT_MIN_THRESHOLD_MS = 50"
definition REELECTION_CONSECUTIVE_SAMPLES :: u32 where "REELECTION_CONSECUTIVE_SAMPLES = 5"

section \<open>State\<close>

datatype ui_state =
    UiTesting real nat nat
  | UiConnected string real bool
  | UiReconnecting string u32
  | UiFailed string "string option"

record server_rtt =
  sr_url :: string
  sr_is_webtransport :: bool
  sr_measurements :: "real list"
  sr_average_rtt :: "real option"
  sr_connection_id :: string
  sr_active :: bool
  sr_connected :: bool

datatype election_state =
    ElectionTesting (start_time: real) (duration_ms: u64) (extensions_used: u32)
  | Elected string real
  | ElectionFailed string real

record manager_options =
  mo_websocket_urls :: "string list"
  mo_webtransport_urls :: "string list"
  mo_userid :: string
  mo_election_period_ms :: u64

datatype reconnection_phase =
    Idle
  | Reconnecting u32 u64
  | PhaseFailed

record connection_manager =
  cm_connections :: "(string \<times> connection) list"
  cm_active_connection_id :: "string option"
  cm_rtt_measurements :: "(string \<times> server_rtt) list"
  cm_election_state :: election_state
  cm_rtt_responses :: "(string \<times> media_packet \<times> real) list"
  cm_options :: manager_options
  cm_own_session_id :: "u64 option"
  cm_pending_session_ids :: "(string \<times> u64) list"
  cm_reconnection_phase :: reconnection_phase
  cm_baseline_rtt :: "real option"
  cm_degradation_counter :: u32
  cm_reelection_in_progress :: bool
  cm_old_active_connection :: "(string \<times> connection) option"
  cm_intentionally_disconnected :: bool
  cm_next_serial :: nat

datatype manager_effect =
    Wire wire_effect
  | StateChanged ui_state
  | EmitInbound packet_wrapper
  | SpawnReconnectLoop string

definition total_server_count :: "manager_options \<Rightarrow> nat" where
  "total_server_count opts = length (mo_websocket_urls opts) + length (mo_webtransport_urls opts)"

definition connection_manager_new :: "real \<Rightarrow> manager_options \<Rightarrow> string + connection_manager" where
  "connection_manager_new now opts =
     (if total_server_count opts = 0 then Inl ''No servers provided for connection testing''
      else Inr
        \<lparr>cm_connections = [], cm_active_connection_id = None, cm_rtt_measurements = [],
         cm_election_state = ElectionFailed ''Not started'' now, cm_rtt_responses = [],
         cm_options = opts, cm_own_session_id = None, cm_pending_session_ids = [],
         cm_reconnection_phase = Idle, cm_baseline_rtt = None, cm_degradation_counter = 0,
         cm_reelection_in_progress = False, cm_old_active_connection = None,
         cm_intentionally_disconnected = False, cm_next_serial = 0\<rparr>)"

section \<open>Reporting\<close>

definition get_connection_state :: "real \<Rightarrow> connection_manager \<Rightarrow> ui_state" where
  "get_connection_state now cm =
     (case cm_election_state cm of
        ElectionTesting start dur ext \<Rightarrow>
          UiTesting (min ((now - start) / real (unat dur)) 1) (length (cm_connections cm))
            (total_server_count (cm_options cm))
      | Elected connection_id elected_at \<Rightarrow>
          (case map_of (cm_rtt_measurements cm) connection_id of
             Some m \<Rightarrow>
               UiConnected (sr_url m) (case sr_average_rtt m of None \<Rightarrow> 0 | Some r \<Rightarrow> r)
                 (sr_is_webtransport m)
           | None \<Rightarrow> UiFailed ''Elected connection not found in measurements'' None)
      | ElectionFailed reason failed_at \<Rightarrow>
          UiFailed reason
            (Option.bind (cm_active_connection_id cm)
               (\<lambda>i. map_option sr_url (map_of (cm_rtt_measurements cm) i))))"

definition report_state :: "real \<Rightarrow> connection_manager \<Rightarrow> manager_effect list" where
  "report_state now cm = [StateChanged (get_connection_state now cm)]"

section \<open>Opening connections\<close>

definition new_measurement :: "string \<Rightarrow> bool \<Rightarrow> string \<Rightarrow> server_rtt" where
  "new_measurement url webtransport conn_id =
     \<lparr>sr_url = url, sr_is_webtransport = webtransport, sr_measurements = [], sr_average_rtt = None,
      sr_connection_id = conn_id, sr_active = False, sr_connected = False\<rparr>"

definition open_connection ::
  "(bool \<Rightarrow> string \<Rightarrow> bool) \<Rightarrow> bool \<Rightarrow> connection_manager \<Rightarrow> nat \<times> string \<Rightarrow> connection_manager" where
  "open_connection opens webtransport cm i_url =
     (let (i, url) = i_url;
          conn_id = (if webtransport then ''wt_'' else ''ws_'') @ show_nat i
      in if opens webtransport url
         then cm\<lparr>cm_connections :=
                   AList.update conn_id (connection_connect (cm_next_serial cm) webtransport url)
                     (cm_connections cm),
                 cm_rtt_measurements :=
                   AList.update conn_id (new_measurement url webtransport conn_id)
                     (cm_rtt_measurements cm),
                 cm_next_serial := Suc (cm_next_serial cm)\<rparr>
         else cm)"

definition create_all_connections ::
  "(bool \<Rightarrow> string \<Rightarrow> bool) \<Rightarrow> connection_manager \<Rightarrow> connection_manager" where
  "create_all_connections opens cm =
     (let ws = mo_websocket_urls (cm_options cm);
          wt = mo_webtransport_urls (cm_options cm);
          cm1 = foldl (open_connection opens False) cm (zip [0..<length ws] ws)
      in foldl (open_connection opens True) cm1 (zip [0..<length wt] wt))"

definition start_election ::
  "(bool \<Rightarrow> string \<Rightarrow> bool) \<Rightarrow> real \<Rightarrow> connection_manager \<Rightarrow> connection_manager \<times> manager_effect list" where
  "start_election opens now cm =
     (let cm1 = (create_all_connections opens cm)
            \<lparr>cm_election_state := ElectionTesting now (mo_election_period_ms (cm_options cm)) 0\<rparr>
      in (cm1, report_state now cm1))"

definition initialize_manager ::
  "(bool \<Rightarrow> string \<Rightarrow> bool) \<Rightarrow> real \<Rightarrow> connection_manager \<Rightarrow> connection_manager \<times> manager_effect list" where
  "initialize_manager opens now cm = start_election opens now cm"

definition reset_and_start_election ::
  "(bool \<Rightarrow> string \<Rightarrow> bool) \<Rightarrow> real \<Rightarrow> connection_manager \<Rightarrow> connection_manager \<times> manager_effect list" where
  "reset_and_start_election opens now cm =
     start_election opens now
       (cm\<lparr>cm_old_active_connection := None, cm_connections := [], cm_rtt_measurements := [],
           cm_rtt_responses := [], cm_pending_session_ids := [], cm_active_connection_id := None,
           cm_baseline_rtt := None, cm_degradation_counter := 0,
           cm_reelection_in_progress := False\<rparr>)"

section \<open>Round-trip times\<close>

definition create_rtt_packet ::
  "proto \<Rightarrow> (bytes \<Rightarrow> bytes option) \<Rightarrow> real \<Rightarrow> connection_manager \<Rightarrow> packet_wrapper option" where
  "create_rtt_packet P enc timestamp cm =
     (let userid = as_bytes (mo_userid (cm_options cm));
          media_packet = default_media_packet
            \<lparr>med_media_type := media_type_value RTT, med_user_id := userid, med_timestamp := timestamp\<rparr>
      in case write_media P media_packet of
           None \<Rightarrow> None
         | Some bytes \<Rightarrow>
             (case enc bytes of
                None \<Rightarrow> None
              | Some data \<Rightarrow>
                  Some (default_packet_wrapper
                    \<lparr>pw_packet_type := packet_type_value MEDIA, pw_user_id := userid, pw_data := data\<rparr>)))"

definition update_rtt ::
  "string \<Rightarrow> (server_rtt \<Rightarrow> server_rtt) \<Rightarrow> connection_manager \<Rightarrow> connection_manager" where
  "update_rtt connection_id f cm =
     (case map_of (cm_rtt_measurements cm) connection_id of
        None \<Rightarrow> cm
      | Some m \<Rightarrow> cm\<lparr>cm_rtt_measurements := AList.update connection_id (f m) (cm_rtt_measurements cm)\<rparr>)"

definition send_rtt_probe ::
  "proto \<Rightarrow> (bytes \<Rightarrow> bytes option) \<Rightarrow> real \<Rightarrow> string \<Rightarrow> connection_manager \<Rightarrow>
   connection_manager \<times> manager_effect list" where
  "send_rtt_probe P enc now connection_id cm =
     (case map_of (cm_connections cm) connection_id of
        None \<Rightarrow> (cm, [])
      | Some connection \<Rightarrow>
          if \<not> conn_is_connected connection then (cm, [])
          else
            let cm1 = update_rtt connection_id (\<lambda>m. m\<lparr>sr_connected := True\<rparr>) cm
            in case create_rtt_packet P enc now cm1 of
                 None \<Rightarrow> (cm1, [])
               | Some w \<Rightarrow> (cm1, map Wire (conn_send_packet_datagram w connection)))"

fun send_rtt_probes_to ::
  "proto \<Rightarrow> (bytes \<Rightarrow> bytes option) \<Rightarrow> real \<Rightarrow> string list \<Rightarrow> connection_manager \<Rightarrow>
   connection_manager \<times> manager_effect list" where
  "send_rtt_probes_to P enc now [] cm = (cm, [])"
| "send_rtt_probes_to P enc now (i # is) cm =
     (let (cm1, es) = send_rtt_probe P enc now i cm;
          (cm2, fs) = send_rtt_probes_to P enc now is cm1
      in (cm2, es @ fs))"

definition send_rtt_probes ::
  "proto \<Rightarrow> (bytes \<Rightarrow> bytes option) \<Rightarrow> real \<Rightarrow> connection_manager \<Rightarrow>
   connection_manager \<times> manager_effect list" where
  "send_rtt_probes P enc now cm = send_rtt_probes_to P enc now (map fst (cm_connections cm)) cm"

definition record_rtt :: "real \<Rightarrow> server_rtt \<Rightarrow> server_rtt" where
  "record_rtt rtt m =
     (let ms1 = sr_measurements m @ [rtt];
          ms2 = (if 10 < length ms1 then tl ms1 else ms1)
      in m\<lparr>sr_measurements := ms2, sr_average_rtt := Some (sum_list ms2 / real (length ms2))\<rparr>)"

definition handle_rtt_response ::
  "string \<Rightarrow> media_packet \<Rightarrow> real \<Rightarrow> connection_manager \<Rightarrow> connection_manager" where
  "handle_rtt_response connection_id media_packet reception_time cm =
     (let rtt = reception_time - med_timestamp media_packet
      in if \<not> (0 \<le> rtt \<and> rtt \<le> RTT_SANITY_MAX_MS) then cm
         else update_rtt connection_id (record_rtt rtt) cm)"

definition process_queued_rtt_responses :: "connection_manager \<Rightarrow> connection_manager" where
  "process_queued_rtt_responses cm =
     foldl (\<lambda>cm (i, p, t). handle_rtt_response i p t cm) (cm\<lparr>cm_rtt_responses := []\<rparr>)
       (cm_rtt_responses cm)"

definition trigger_diagnostics_report :: "connection_manager \<Rightarrow> connection_manager" where
  "trigger_diagnostics_report cm = process_queued_rtt_responses cm"

section \<open>Election\<close>

text \<open>
  The four candidates of the scan: the best WebTransport and WebSocket connections with enough
  samples, and the fallbacks with fewer. Each is kept with its average; \<open>None\<close> is infinity.
\<close>

record candidates =
  best_wt :: "(string \<times> server_rtt \<times> real) option"
  best_ws :: "(string \<times> server_rtt \<times> real) option"
  fallback_wt :: "(string \<times> server_rtt \<times> real) option"
  fallback_ws :: "(string \<times> server_rtt \<times> real) option"

definition beats :: "real \<Rightarrow> (string \<times> server_rtt \<times> real) option \<Rightarrow> bool" where
  "beats rtt best = (case best of None \<Rightarrow> True | Some (i, m, r) \<Rightarrow> rtt < r)"

definition consider_candidate ::
  "connection_manager \<Rightarrow> candidates \<Rightarrow> string \<times> server_rtt \<Rightarrow> candidates" where
  "consider_candidate cm cs entry =
     (let (connection_id, m) = entry
      in if (case map_of (cm_connections cm) connection_id of
               Some conn \<Rightarrow> \<not> conn_is_connected conn | None \<Rightarrow> False)
         then cs
         else
           (case sr_average_rtt m of
              None \<Rightarrow> cs
            | Some avg_rtt \<Rightarrow>
                if sr_measurements m = [] then cs
                else
                  let has_enough = ELECTION_MIN_RTT_SAMPLES \<le> length (sr_measurements m)
                  in if sr_is_webtransport m
                     then if has_enough \<and> beats avg_rtt (best_wt cs)
                          then cs\<lparr>best_wt := Some (connection_id, m, avg_rtt)\<rparr>
                          else if \<not> has_enough \<and> beats avg_rtt (fallback_wt cs)
                          then cs\<lparr>fallback_wt := Some (connection_id, m, avg_rtt)\<rparr>
                          else cs
                     else if has_enough \<and> beats avg_rtt (best_ws cs)
                     then cs\<lparr>best_ws := Some (connection_id, m, avg_rtt)\<rparr>
                     else if \<not> has_enough \<and> beats avg_rtt (fallback_ws cs)
                     then cs\<lparr>fallback_ws := Some (connection_id, m, avg_rtt)\<rparr>
                     else cs))"

definition find_best_connection :: "connection_manager \<Rightarrow> string + string \<times> server_rtt" where
  "find_best_connection cm =
     (let cs = foldl (consider_candidate cm)
                 \<lparr>best_wt = None, best_ws = None, fallback_wt = None, fallback_ws = None\<rparr>
                 (cm_rtt_measurements cm)
      in case best_wt cs of
           Some (i, m, r) \<Rightarrow> Inr (i, m)
         | None \<Rightarrow>
       (case best_ws cs of
           Some (i, m, r) \<Rightarrow> Inr (i, m)
         | None \<Rightarrow>
       (case fallback_wt cs of
           Some (i, m, r) \<Rightarrow> Inr (i, m)
         | None \<Rightarrow>
       (case fallback_ws cs of
           Some (i, m, r) \<Rightarrow> Inr (i, m)
         | None \<Rightarrow> Inl ''No valid connections with RTT measurements found''))))"

definition close_unused_connections :: "connection_manager \<Rightarrow> connection_manager" where
  "close_unused_connections cm =
     cm\<lparr>cm_connections := filter (\<lambda>(i, c). Some i = cm_active_connection_id cm) (cm_connections cm)\<rparr>"

definition update_connection ::
  "string \<Rightarrow> (connection \<Rightarrow> connection) \<Rightarrow> connection_manager \<Rightarrow> connection_manager" where
  "update_connection connection_id f cm =
     (case map_of (cm_connections cm) connection_id of
        None \<Rightarrow> cm
      | Some c \<Rightarrow> cm\<lparr>cm_connections := AList.update connection_id (f c) (cm_connections cm)\<rparr>)"

definition apply_pending_session :: "string \<Rightarrow> connection_manager \<Rightarrow> connection_manager" where
  "apply_pending_session connection_id cm =
     (case map_of (cm_pending_session_ids cm) connection_id of
        None \<Rightarrow> cm
      | Some sid \<Rightarrow>
          if cm_own_session_id cm = Some sid then cm
          else update_connection connection_id (conn_set_session_id sid)
                 (cm\<lparr>cm_own_session_id := Some sid\<rparr>))"

definition complete_election ::
  "real \<Rightarrow> connection_manager \<Rightarrow> connection_manager \<times> manager_effect list" where
  "complete_election now cm =
     (case find_best_connection cm of
        Inr (connection_id, measurement) \<Rightarrow>
          let cm1 = update_rtt connection_id (\<lambda>m. m\<lparr>sr_active := True\<rparr>)
                      (cm\<lparr>cm_active_connection_id := Some connection_id\<rparr>);
              cm2 = cm1\<lparr>cm_election_state := Elected connection_id now\<rparr>;
              cm3 = (apply_pending_session connection_id cm2)\<lparr>cm_pending_session_ids := []\<rparr>;
              cm4 = update_connection connection_id (start_heartbeat (mo_userid (cm_options cm))) cm3;
              cm5 = cm4\<lparr>cm_baseline_rtt := sr_average_rtt measurement, cm_degradation_counter := 0,
                         cm_reelection_in_progress := False\<rparr>;
              cm6 = (close_unused_connections cm5)\<lparr>cm_old_active_connection := None\<rparr>
          in (cm6, report_state now cm6)
      | Inl e \<Rightarrow>
          let cm1 = cm\<lparr>cm_election_state := ElectionFailed e now\<rparr>
          in (cm1, report_state now cm1))"

definition check_and_complete_election ::
  "real \<Rightarrow> connection_manager \<Rightarrow> connection_manager \<times> manager_effect list" where
  "check_and_complete_election now cm =
     (case cm_election_state cm of
        ElectionTesting start dur ext \<Rightarrow>
          if now - start < real (unat dur) then (cm, [])
          else
            let has_enough_samples =
                  list_ex (\<lambda>(i, m). ELECTION_MIN_RTT_SAMPLES \<le> length (sr_measurements m) \<and>
                                    sr_average_rtt m \<noteq> None) (cm_rtt_measurements cm)
            in if has_enough_samples \<or> ELECTION_MAX_EXTENSIONS \<le> ext
               then complete_election now cm
               else (cm\<lparr>cm_election_state := ElectionTesting start (dur + 1000) (ext + 1)\<rparr>, [])
      | _ \<Rightarrow> (cm, []))"

section \<open>Quality monitoring and re-election\<close>

definition check_rtt_degradation :: "connection_manager \<Rightarrow> bool \<times> connection_manager" where
  "check_rtt_degradation cm =
     (case cm_baseline_rtt cm of
        None \<Rightarrow> (False, cm)
      | Some baseline \<Rightarrow>
          if \<not> 0 < baseline then (False, cm)
          else if cm_reelection_in_progress cm then (False, cm)
          else
            (case cm_active_connection_id cm of
               None \<Rightarrow> (False, cm)
             | Some active_id \<Rightarrow>
                 (case Option.bind (map_of (cm_rtt_measurements cm) active_id) sr_average_rtt of
                    None \<Rightarrow> (False, cm)
                  | Some current_rtt \<Rightarrow>
                      let threshold = max (baseline * REELECTION_RTT_MULTIPLIER)
                                        REELECTION_RTT_MIN_THRESHOLD_MS
                      in if threshold < current_rtt
                         then
                           let cm1 = cm\<lparr>cm_degradation_counter := cm_degradation_counter cm + 1\<rparr>
                           in if REELECTION_CONSECUTIVE_SAMPLES \<le> cm_degradation_counter cm1
                              then if total_server_count (cm_options cm) \<le> 1
                                   then (False, cm1\<lparr>cm_degradation_counter := 0,
                                                    cm_baseline_rtt := Some current_rtt\<rparr>)
                                   else (True, cm1)
                              else (False, cm1)
                         else (False, cm\<lparr>cm_degradation_counter := 0\<rparr>))))"

definition start_reelection ::
  "(bool \<Rightarrow> string \<Rightarrow> bool) \<Rightarrow> real \<Rightarrow> connection_manager \<Rightarrow> connection_manager" where
  "start_reelection opens now cm =
     (if cm_reelection_in_progress cm then cm
      else
        let cm1 = cm\<lparr>cm_reelection_in_progress := True, cm_degradation_counter := 0,
                     cm_baseline_rtt := None\<rparr>;
            cm2 = (case cm_active_connection_id cm of
                     None \<Rightarrow> cm1
                   | Some i \<Rightarrow>
                       (case map_of (cm_connections cm) i of
                          None \<Rightarrow> cm1
                        | Some old_conn \<Rightarrow> cm1\<lparr>cm_old_active_connection := Some (i, old_conn)\<rparr>));
            cm3 = cm2\<lparr>cm_connections := [], cm_rtt_measurements := [], cm_rtt_responses := [],
                      cm_pending_session_ids := []\<rparr>;
            cm4 = create_all_connections opens cm3
        in cm4\<lparr>cm_election_state := ElectionTesting now (mo_election_period_ms (cm_options cm)) 0\<rparr>)"

section \<open>Packets\<close>

definition get_active_connection :: "connection_manager \<Rightarrow> connection option" where
  "get_active_connection cm =
     (case cm_active_connection_id cm of
        None \<Rightarrow> None
      | Some i \<Rightarrow>
          (case map_of (cm_connections cm) i of
             Some conn \<Rightarrow> Some conn
           | None \<Rightarrow>
               (case cm_old_active_connection cm of
                  Some (old_id, old_conn) \<Rightarrow> if old_id = i then Some old_conn else None
                | None \<Rightarrow> None)))"

definition manager_send_packet ::
  "packet_wrapper \<Rightarrow> connection_manager \<Rightarrow> string + wire_effect list" where
  "manager_send_packet packet cm =
     (case get_active_connection cm of
        Some conn \<Rightarrow> Inr (conn_send_packet packet conn)
      | None \<Rightarrow> Inl ''No active connection available'')"

definition manager_send_packet_datagram ::
  "packet_wrapper \<Rightarrow> connection_manager \<Rightarrow> string + wire_effect list" where
  "manager_send_packet_datagram packet cm =
     (case get_active_connection cm of
        Some conn \<Rightarrow> Inr (conn_send_packet_datagram packet conn)
      | None \<Rightarrow> Inl ''No active connection available'')"

text \<open>An update of the active connection object, wherever the manager holds it.\<close>

definition update_active ::
  "(connection \<Rightarrow> connection \<times> wire_effect list) \<Rightarrow> connection_manager \<Rightarrow>
   (connection_manager \<times> wire_effect list) option" where
  "update_active f cm =
     (case cm_active_connection_id cm of
        None \<Rightarrow> None
      | Some i \<Rightarrow>
          (case map_of (cm_connections cm) i of
             Some conn \<Rightarrow>
               Some (cm\<lparr>cm_connections := AList.update i (fst (f conn)) (cm_connections cm)\<rparr>, snd (f conn))
           | None \<Rightarrow>
               (case cm_old_active_connection cm of
                  Some (old_id, old_conn) \<Rightarrow>
                    if old_id = i
                    then Some (cm\<lparr>cm_old_active_connection := Some (old_id, fst (f old_conn))\<rparr>,
                               snd (f old_conn))
                    else None
                | None \<Rightarrow> None)))"

definition manager_set_video_enabled ::
  "proto \<Rightarrow> (bytes \<Rightarrow> bytes option) \<Rightarrow> real \<Rightarrow> bool \<Rightarrow> connection_manager \<Rightarrow>
   string + connection_manager \<times> wire_effect list" where
  "manager_set_video_enabled P enc date_now enabled cm =
     (case update_active (conn_set_video_enabled P enc date_now enabled) cm of
        Some r \<Rightarrow> Inr r | None \<Rightarrow> Inl ''No active connection available'')"

definition manager_set_audio_enabled ::
  "proto \<Rightarrow> (bytes \<Rightarrow> bytes option) \<Rightarrow> real \<Rightarrow> bool \<Rightarrow> connection_manager \<Rightarrow>
   string + connection_manager \<times> wire_effect list" where
  "manager_set_audio_enabled P enc date_now enabled cm =
     (case update_active (conn_set_audio_enabled P enc date_now enabled) cm of
        Some r \<Rightarrow> Inr r | None \<Rightarrow> Inl ''No active connection available'')"

definition manager_set_screen_enabled ::
  "proto \<Rightarrow> (bytes \<Rightarrow> bytes option) \<Rightarrow> real \<Rightarrow> bool \<Rightarrow> connection_manager \<Rightarrow>
   string + connection_manager \<times> wire_effect list" where
  "manager_set_screen_enabled P enc date_now enabled cm =
     (case update_active (conn_set_screen_enabled P enc date_now enabled) cm of
        Some r \<Rightarrow> Inr r | None \<Rightarrow> Inl ''No active connection available'')"

definition manager_set_speaking ::
  "proto \<Rightarrow> (bytes \<Rightarrow> bytes option) \<Rightarrow> real \<Rightarrow> bool \<Rightarrow> connection_manager \<Rightarrow>
   connection_manager \<times> wire_effect list" where
  "manager_set_speaking P enc date_now speaking cm =
     (case update_active (conn_set_speaking P enc date_now speaking) cm of
        Some r \<Rightarrow> r | None \<Rightarrow> (cm, []))"

definition set_own_session_id :: "u64 \<Rightarrow> connection_manager \<Rightarrow> connection_manager" where
  "set_own_session_id session_id cm =
     (let cm1 = cm\<lparr>cm_own_session_id := Some session_id\<rparr>
      in case update_active (\<lambda>c. (conn_set_session_id session_id c, [])) cm1 of
           Some (cm2, es) \<Rightarrow> cm2 | None \<Rightarrow> cm1)"

definition manager_is_connected :: "connection_manager \<Rightarrow> bool" where
  "manager_is_connected cm \<longleftrightarrow>
     cm_active_connection_id cm \<noteq> None \<and>
     (case cm_election_state cm of Elected i t \<Rightarrow> True | _ \<Rightarrow> False)"

definition manager_disconnect :: "connection_manager \<Rightarrow> connection_manager" where
  "manager_disconnect cm =
     cm\<lparr>cm_intentionally_disconnected := True, cm_reconnection_phase := Idle,
        cm_active_connection_id := None, cm_old_active_connection := None, cm_connections := []\<rparr>"

definition inbound_media_callback ::
  "proto \<Rightarrow> (bytes \<Rightarrow> bytes option) \<Rightarrow> real \<Rightarrow> string \<Rightarrow> packet_wrapper \<Rightarrow> connection_manager \<Rightarrow>
   connection_manager \<times> manager_effect list" where
  "inbound_media_callback P dec now connection_id packet cm =
     (if pw_packet_type packet = packet_type_value SESSION_ASSIGNED
      then
        let sid = pw_session_id packet
        in if cm_active_connection_id cm = Some connection_id
           then (cm\<lparr>cm_own_session_id := Some sid\<rparr>, [EmitInbound packet])
           else (cm\<lparr>cm_pending_session_ids :=
                     AList.update connection_id sid (cm_pending_session_ids cm)\<rparr>, [])
      else
        let rtt_response =
              (if pw_user_id packet = as_bytes (mo_userid (cm_options cm))
               then (case dec (pw_data packet) of
                       None \<Rightarrow> None
                     | Some decrypted \<Rightarrow>
                         (case parse_media P decrypted of
                            None \<Rightarrow> None
                          | Some mp \<Rightarrow>
                              if med_media_type mp = media_type_value RTT then Some mp else None))
               else None)
        in case rtt_response of
             Some mp \<Rightarrow>
               (cm\<lparr>cm_rtt_responses := cm_rtt_responses cm @ [(connection_id, mp, now)]\<rparr>, [])
           | None \<Rightarrow>
               if (case cm_own_session_id cm of
                     Some own_id \<Rightarrow> pw_session_id packet \<noteq> 0 \<and> pw_session_id packet = own_id
                   | None \<Rightarrow> False)
               then (cm, [])
               else if (case cm_active_connection_id cm of
                          Some elected_id \<Rightarrow> elected_id \<noteq> connection_id | None \<Rightarrow> False)
               then (cm, [])
               else (cm, [EmitInbound packet]))"

section \<open>Losing a connection\<close>

definition set_status ::
  "nat \<Rightarrow> (connection \<Rightarrow> connection) \<Rightarrow> connection_manager \<Rightarrow> connection_manager" where
  "set_status serial f cm =
     cm\<lparr>cm_connections := map (\<lambda>(i, c). (i, if cn_serial c = serial then f c else c)) (cm_connections cm),
        cm_old_active_connection :=
          map_option (\<lambda>(i, c). (i, if cn_serial c = serial then f c else c))
            (cm_old_active_connection cm)\<rparr>"

definition transport_connected :: "nat \<Rightarrow> connection_manager \<Rightarrow> connection_manager" where
  "transport_connected serial cm = set_status serial on_connected_tap cm"

definition connection_lost_callback ::
  "string \<Rightarrow> string \<Rightarrow> connection_manager \<Rightarrow> connection_manager \<times> manager_effect list" where
  "connection_lost_callback connection_id server_url cm =
     (if cm_intentionally_disconnected cm then (cm, [])
      else if cm_active_connection_id cm \<noteq> Some connection_id then (cm, [])
      else
        let cm1 = cm\<lparr>cm_active_connection_id := None\<rparr>
        in case cm_reconnection_phase cm of
             Reconnecting attempt delay \<Rightarrow> (cm1, [])
           | _ \<Rightarrow>
               (cm1\<lparr>cm_reconnection_phase := Reconnecting 0 RECONNECT_INITIAL_DELAY_MS\<rparr>,
                [StateChanged (UiReconnecting server_url 1), SpawnReconnectLoop server_url]))"

definition transport_lost ::
  "nat \<Rightarrow> string \<Rightarrow> string \<Rightarrow> connection_manager \<Rightarrow> connection_manager \<times> manager_effect list" where
  "transport_lost serial connection_id server_url cm =
     connection_lost_callback connection_id server_url (set_status serial on_lost_tap cm)"

section \<open>Reconnection\<close>

text \<open>A cast of a non-negative \<open>f64\<close> to \<open>u64\<close> truncates and saturates.\<close>

definition f64_to_u64 :: "real \<Rightarrow> u64" where
  "f64_to_u64 x = (if x < 0 then 0 else if 2 ^ 64 \<le> x then - 1 else of_int \<lfloor>x\<rfloor>)"

definition next_backoff_delay :: "real \<Rightarrow> u64 \<Rightarrow> real \<Rightarrow> u32 \<Rightarrow> u64" where
  "next_backoff_delay random current_delay_ms multiplier attempt =
     (let max_delay_ms =
            (if attempt \<le> RECONNECT_PHASE1_MAX_ATTEMPTS then RECONNECT_MAX_DELAY_PHASE1_MS
             else if attempt \<le> RECONNECT_PHASE2_MAX_ATTEMPTS then RECONNECT_MAX_DELAY_PHASE2_MS
             else RECONNECT_MAX_DELAY_PHASE3_MS);
          base = f64_to_u64 (real (unat current_delay_ms) * multiplier);
          jitter = f64_to_u64 (real (unat base) * (1 / 2) * random)
      in min (base + jitter) max_delay_ms)"

record reconnect_loop =
  rl_attempt :: u32
  rl_delay_ms :: u64
  rl_zero :: u32
  rl_last_server_url :: string

definition reconnect_loop_start :: "string \<Rightarrow> reconnect_loop" where
  "reconnect_loop_start url =
     \<lparr>rl_attempt = 0, rl_delay_ms = RECONNECT_INITIAL_DELAY_MS, rl_zero = 0,
      rl_last_server_url = url\<rparr>"

text \<open>The loop is over (\<open>None\<close>) or goes on with its variables.\<close>

type_synonym loop_result = "reconnect_loop option \<times> connection_manager \<times> manager_effect list"

definition loop_head :: "reconnect_loop \<Rightarrow> connection_manager \<Rightarrow> loop_result" where
  "loop_head l cm =
     (if cm_intentionally_disconnected cm then (None, cm\<lparr>cm_reconnection_phase := Idle\<rparr>, [])
      else
        let l1 = l\<lparr>rl_attempt := rl_attempt l + 1\<rparr>
        in (Some l1, cm\<lparr>cm_reconnection_phase := Reconnecting (rl_attempt l1) (rl_delay_ms l1)\<rparr>,
            [StateChanged (UiReconnecting (rl_last_server_url l) (rl_attempt l1))]))"

datatype backoff_outcome = Retry | WaitForElection

definition loop_after_backoff ::
  "(bool \<Rightarrow> string \<Rightarrow> bool) \<Rightarrow> real \<Rightarrow> bool \<Rightarrow> bool \<Rightarrow> reconnect_loop \<Rightarrow> connection_manager \<Rightarrow>
   (backoff_outcome \<times> reconnect_loop) option \<times> connection_manager \<times> manager_effect list" where
  "loop_after_backoff opens now dropped busy l cm =
     (if cm_intentionally_disconnected cm then (None, cm\<lparr>cm_reconnection_phase := Idle\<rparr>, [])
      else if cm_active_connection_id cm \<noteq> None then (None, cm\<lparr>cm_reconnection_phase := Idle\<rparr>, [])
      else if dropped
      then (None, cm\<lparr>cm_reconnection_phase := PhaseFailed\<rparr>,
            [StateChanged (UiFailed ''Connection manager destroyed during reconnection''
                             (Some (rl_last_server_url l)))])
      else if busy
      then (Some (Retry, l\<lparr>rl_attempt := (if rl_attempt l = 0 then 0 else rl_attempt l - 1)\<rparr>), cm, [])
      else
        let (cm1, es) = reset_and_start_election opens now cm
        in if cm_intentionally_disconnected cm1
           then (None, cm1\<lparr>cm_reconnection_phase := Idle\<rparr>, es)
           else (Some (WaitForElection, l), cm1, es))"

definition loop_after_election ::
  "real \<Rightarrow> real \<Rightarrow> bool \<Rightarrow> reconnect_loop \<Rightarrow> connection_manager \<Rightarrow> loop_result" where
  "loop_after_election random now busy l cm =
     (if \<not> busy \<and> manager_is_connected cm
      then (None, cm\<lparr>cm_reconnection_phase := Idle\<rparr>, [StateChanged (get_connection_state now cm)])
      else
        let zero = (if busy then rl_zero l
                    else if list_ex (\<lambda>(i, c). conn_is_connected c) (cm_connections cm) then 0
                    else rl_zero l + 1)
        in if RECONNECT_CONSECUTIVE_ZERO_LIMIT \<le> zero
           then (None, cm\<lparr>cm_reconnection_phase := PhaseFailed\<rparr>,
                 [StateChanged (UiFailed
                    (''Server rejected connection ('' @ show_nat (unat zero) @
                     '' consecutive failures '' @ [CHR 0xE2, CHR 0x80, CHR 0x94] @ '' possible auth/session error)'')
                    (Some (rl_last_server_url l)))])
           else (Some (l\<lparr>rl_zero := zero,
                         rl_delay_ms := next_backoff_delay random (rl_delay_ms l)
                                          RECONNECT_BACKOFF_MULTIPLIER (rl_attempt l)\<rparr>), cm, []))"

section \<open>Timers of the controller\<close>

definition timer_1hz ::
  "proto \<Rightarrow> (bytes \<Rightarrow> bytes option) \<Rightarrow> (bool \<Rightarrow> string \<Rightarrow> bool) \<Rightarrow> real \<Rightarrow> connection_manager \<Rightarrow>
   connection_manager \<times> manager_effect list" where
  "timer_1hz P enc opens now cm =
     (let cm1 = trigger_diagnostics_report cm
      in case get_connection_state now cm1 of
           UiConnected url rtt wt \<Rightarrow>
             let (cm2, es) = send_rtt_probes P enc now cm1;
                 (degraded, cm3) = check_rtt_degradation cm2
             in (if degraded then start_reelection opens now cm3 else cm3, es)
         | _ \<Rightarrow> (cm1, []))"

definition timer_200ms ::
  "proto \<Rightarrow> (bytes \<Rightarrow> bytes option) \<Rightarrow> real \<Rightarrow> connection_manager \<Rightarrow>
   connection_manager \<times> manager_effect list" where
  "timer_200ms P enc now cm =
     (case get_connection_state now cm of
        UiTesting p i n \<Rightarrow> send_rtt_probes P enc now cm
      | _ \<Rightarrow> (cm, []))"

definition timer_100ms :: "real \<Rightarrow> connection_manager \<Rightarrow> connection_manager \<times> manager_effect list" where
  "timer_100ms now cm = check_and_complete_election now cm"

end
