(* ===== verification/Connection_Election.thy ===== *)
theory Connection_Election
  imports Connection_Manager
begin

text \<open>
  The correctness of the client's connection manager: the measurements it keeps, the election
  it runs on them, that an election always decides, the bounds of the reconnection backoff, and
  that at most one reconnection task runs and none after the user left.
\<close>

section \<open>Frames: what an operation leaves alone\<close>

lemma open_connection_frame [simp]:
  "cm_options (open_connection opens wt cm x) = cm_options cm"
  "cm_election_state (open_connection opens wt cm x) = cm_election_state cm"
  "cm_reconnection_phase (open_connection opens wt cm x) = cm_reconnection_phase cm"
  "cm_intentionally_disconnected (open_connection opens wt cm x) = cm_intentionally_disconnected cm"
  "cm_active_connection_id (open_connection opens wt cm x) = cm_active_connection_id cm"
  "cm_old_active_connection (open_connection opens wt cm x) = cm_old_active_connection cm"
  "cm_own_session_id (open_connection opens wt cm x) = cm_own_session_id cm"
  "cm_reelection_in_progress (open_connection opens wt cm x) = cm_reelection_in_progress cm"
  by (simp_all add: open_connection_def Let_def split: prod.split)

lemma foldl_frame: "(\<And>s x. g (f s x) = g s) \<Longrightarrow> g (foldl f s xs) = g s"
  by (induction xs arbitrary: s) auto

lemma create_all_connections_frame [simp]:
  "cm_options (create_all_connections opens cm) = cm_options cm"
  "cm_election_state (create_all_connections opens cm) = cm_election_state cm"
  "cm_reconnection_phase (create_all_connections opens cm) = cm_reconnection_phase cm"
  "cm_intentionally_disconnected (create_all_connections opens cm) = cm_intentionally_disconnected cm"
  "cm_active_connection_id (create_all_connections opens cm) = cm_active_connection_id cm"
  "cm_old_active_connection (create_all_connections opens cm) = cm_old_active_connection cm"
  "cm_own_session_id (create_all_connections opens cm) = cm_own_session_id cm"
  "cm_reelection_in_progress (create_all_connections opens cm) = cm_reelection_in_progress cm"
  by (simp_all add: create_all_connections_def Let_def foldl_frame)

lemma update_rtt_frame [simp]:
  "cm_connections (update_rtt i f cm) = cm_connections cm"
  "cm_options (update_rtt i f cm) = cm_options cm"
  "cm_election_state (update_rtt i f cm) = cm_election_state cm"
  "cm_reconnection_phase (update_rtt i f cm) = cm_reconnection_phase cm"
  "cm_intentionally_disconnected (update_rtt i f cm) = cm_intentionally_disconnected cm"
  "cm_active_connection_id (update_rtt i f cm) = cm_active_connection_id cm"
  "cm_old_active_connection (update_rtt i f cm) = cm_old_active_connection cm"
  "cm_own_session_id (update_rtt i f cm) = cm_own_session_id cm"
  "cm_pending_session_ids (update_rtt i f cm) = cm_pending_session_ids cm"
  by (simp_all add: update_rtt_def split: option.split)

lemma update_connection_frame [simp]:
  "cm_rtt_measurements (update_connection i f cm) = cm_rtt_measurements cm"
  "cm_options (update_connection i f cm) = cm_options cm"
  "cm_election_state (update_connection i f cm) = cm_election_state cm"
  "cm_reconnection_phase (update_connection i f cm) = cm_reconnection_phase cm"
  "cm_intentionally_disconnected (update_connection i f cm) = cm_intentionally_disconnected cm"
  "cm_active_connection_id (update_connection i f cm) = cm_active_connection_id cm"
  "cm_own_session_id (update_connection i f cm) = cm_own_session_id cm"
  by (simp_all add: update_connection_def split: option.split)

lemma apply_pending_session_frame [simp]:
  "cm_rtt_measurements (apply_pending_session i cm) = cm_rtt_measurements cm"
  "cm_options (apply_pending_session i cm) = cm_options cm"
  "cm_election_state (apply_pending_session i cm) = cm_election_state cm"
  "cm_reconnection_phase (apply_pending_session i cm) = cm_reconnection_phase cm"
  "cm_intentionally_disconnected (apply_pending_session i cm) = cm_intentionally_disconnected cm"
  "cm_active_connection_id (apply_pending_session i cm) = cm_active_connection_id cm"
  by (simp_all add: apply_pending_session_def split: option.split)

lemma close_unused_connections_frame [simp]:
  "cm_rtt_measurements (close_unused_connections cm) = cm_rtt_measurements cm"
  "cm_options (close_unused_connections cm) = cm_options cm"
  "cm_election_state (close_unused_connections cm) = cm_election_state cm"
  "cm_reconnection_phase (close_unused_connections cm) = cm_reconnection_phase cm"
  "cm_intentionally_disconnected (close_unused_connections cm) = cm_intentionally_disconnected cm"
  "cm_active_connection_id (close_unused_connections cm) = cm_active_connection_id cm"
  "cm_own_session_id (close_unused_connections cm) = cm_own_session_id cm"
  by (simp_all add: close_unused_connections_def)

lemma handle_rtt_response_frame [simp]:
  "cm_connections (handle_rtt_response i p t cm) = cm_connections cm"
  "cm_options (handle_rtt_response i p t cm) = cm_options cm"
  "cm_election_state (handle_rtt_response i p t cm) = cm_election_state cm"
  "cm_reconnection_phase (handle_rtt_response i p t cm) = cm_reconnection_phase cm"
  "cm_intentionally_disconnected (handle_rtt_response i p t cm) = cm_intentionally_disconnected cm"
  "cm_active_connection_id (handle_rtt_response i p t cm) = cm_active_connection_id cm"
  by (simp_all add: handle_rtt_response_def Let_def)

lemma process_queued_rtt_responses_frame [simp]:
  "cm_connections (process_queued_rtt_responses cm) = cm_connections cm"
  "cm_options (process_queued_rtt_responses cm) = cm_options cm"
  "cm_election_state (process_queued_rtt_responses cm) = cm_election_state cm"
  "cm_reconnection_phase (process_queued_rtt_responses cm) = cm_reconnection_phase cm"
  "cm_intentionally_disconnected (process_queued_rtt_responses cm) = cm_intentionally_disconnected cm"
  "cm_active_connection_id (process_queued_rtt_responses cm) = cm_active_connection_id cm"
  by (simp_all add: process_queued_rtt_responses_def foldl_frame split_beta)

lemma send_rtt_probe_frame [simp]:
  "cm_connections (fst (send_rtt_probe P enc now i cm)) = cm_connections cm"
  "cm_options (fst (send_rtt_probe P enc now i cm)) = cm_options cm"
  "cm_election_state (fst (send_rtt_probe P enc now i cm)) = cm_election_state cm"
  "cm_reconnection_phase (fst (send_rtt_probe P enc now i cm)) = cm_reconnection_phase cm"
  "cm_intentionally_disconnected (fst (send_rtt_probe P enc now i cm)) = cm_intentionally_disconnected cm"
  "cm_active_connection_id (fst (send_rtt_probe P enc now i cm)) = cm_active_connection_id cm"
  by (simp_all add: send_rtt_probe_def Let_def split: option.split)

lemma send_rtt_probes_to_frame:
  "cm_connections (fst (send_rtt_probes_to P enc now is cm)) = cm_connections cm \<and>
   cm_options (fst (send_rtt_probes_to P enc now is cm)) = cm_options cm \<and>
   cm_election_state (fst (send_rtt_probes_to P enc now is cm)) = cm_election_state cm \<and>
   cm_reconnection_phase (fst (send_rtt_probes_to P enc now is cm)) = cm_reconnection_phase cm \<and>
   cm_intentionally_disconnected (fst (send_rtt_probes_to P enc now is cm)) = cm_intentionally_disconnected cm \<and>
   cm_active_connection_id (fst (send_rtt_probes_to P enc now is cm)) = cm_active_connection_id cm"
  by (induction "is" arbitrary: cm) (simp_all add: Let_def split_beta)

lemma send_rtt_probes_frame [simp]:
  "cm_connections (fst (send_rtt_probes P enc now cm)) = cm_connections cm"
  "cm_options (fst (send_rtt_probes P enc now cm)) = cm_options cm"
  "cm_election_state (fst (send_rtt_probes P enc now cm)) = cm_election_state cm"
  "cm_reconnection_phase (fst (send_rtt_probes P enc now cm)) = cm_reconnection_phase cm"
  "cm_intentionally_disconnected (fst (send_rtt_probes P enc now cm)) = cm_intentionally_disconnected cm"
  "cm_active_connection_id (fst (send_rtt_probes P enc now cm)) = cm_active_connection_id cm"
  by (simp_all add: send_rtt_probes_def send_rtt_probes_to_frame)

lemma check_rtt_degradation_frame [simp]:
  "cm_connections (snd (check_rtt_degradation cm)) = cm_connections cm"
  "cm_rtt_measurements (snd (check_rtt_degradation cm)) = cm_rtt_measurements cm"
  "cm_options (snd (check_rtt_degradation cm)) = cm_options cm"
  "cm_election_state (snd (check_rtt_degradation cm)) = cm_election_state cm"
  "cm_reconnection_phase (snd (check_rtt_degradation cm)) = cm_reconnection_phase cm"
  "cm_intentionally_disconnected (snd (check_rtt_degradation cm)) = cm_intentionally_disconnected cm"
  "cm_active_connection_id (snd (check_rtt_degradation cm)) = cm_active_connection_id cm"
  by (simp_all add: check_rtt_degradation_def Let_def split: option.split)

lemma set_status_frame [simp]:
  "cm_rtt_measurements (set_status n f cm) = cm_rtt_measurements cm"
  "cm_options (set_status n f cm) = cm_options cm"
  "cm_election_state (set_status n f cm) = cm_election_state cm"
  "cm_reconnection_phase (set_status n f cm) = cm_reconnection_phase cm"
  "cm_intentionally_disconnected (set_status n f cm) = cm_intentionally_disconnected cm"
  "cm_active_connection_id (set_status n f cm) = cm_active_connection_id cm"
  by (simp_all add: set_status_def)

section \<open>Measurements\<close>

definition rtt_mean :: "real list \<Rightarrow> real option" where
  "rtt_mean xs = (if xs = [] then None else Some (sum_list xs / real (length xs)))"

definition measurement_ok :: "server_rtt \<Rightarrow> bool" where
  "measurement_ok m \<longleftrightarrow>
     length (sr_measurements m) \<le> 10 \<and>
     list_all (\<lambda>x. 0 \<le> x \<and> x \<le> RTT_SANITY_MAX_MS) (sr_measurements m) \<and>
     sr_average_rtt m = rtt_mean (sr_measurements m)"

definition rtts_ok :: "connection_manager \<Rightarrow> bool" where
  "rtts_ok cm \<longleftrightarrow> list_all (\<lambda>(i, m). measurement_ok m) (cm_rtt_measurements cm)"

lemma sum_list_bounds:
  fixes xs :: "real list"
  shows "list_all (\<lambda>x. 0 \<le> x \<and> x \<le> b) xs \<Longrightarrow> 0 \<le> sum_list xs \<and> sum_list xs \<le> b * real (length xs)"
  by (induction xs) (auto simp: algebra_simps)

lemma rtt_mean_bounds:
  assumes "measurement_ok m" and "sr_average_rtt m = Some a"
  shows "0 \<le> a \<and> a \<le> RTT_SANITY_MAX_MS"
proof -
  have ne: "sr_measurements m \<noteq> []" and a: "a = sum_list (sr_measurements m) / real (length (sr_measurements m))"
    using assms by (auto simp: measurement_ok_def rtt_mean_def split: if_splits)
  have "0 \<le> sum_list (sr_measurements m)"
    and "sum_list (sr_measurements m) \<le> RTT_SANITY_MAX_MS * real (length (sr_measurements m))"
    using assms(1) sum_list_bounds by (auto simp: measurement_ok_def)
  moreover have "0 < real (length (sr_measurements m))" using ne by simp
  ultimately show ?thesis unfolding a by (simp add: divide_le_eq)
qed

lemma record_rtt_ok:
  assumes "measurement_ok m" and "0 \<le> rtt" and "rtt \<le> RTT_SANITY_MAX_MS"
  shows "measurement_ok (record_rtt rtt m)"
proof -
  have tl_ok: "list_all P xs \<Longrightarrow> list_all P (tl xs)" for P :: "real \<Rightarrow> bool" and xs
    by (cases xs) auto
  have "tl (sr_measurements m @ [rtt]) \<noteq> []" if "10 < length (sr_measurements m @ [rtt])"
    using that by (cases "sr_measurements m") auto
  then show ?thesis
    using assms by (auto simp: measurement_ok_def record_rtt_def Let_def rtt_mean_def intro!: tl_ok)
qed

lemma list_all_alist_update:
  "list_all (\<lambda>(i, m). Q m) al \<Longrightarrow> Q v \<Longrightarrow> list_all (\<lambda>(i, m). Q m) (AList.update k v al)"
  by (induction al) auto

lemma rtts_ok_update_rtt:
  assumes "rtts_ok cm" and "\<And>m. measurement_ok m \<Longrightarrow> measurement_ok (f m)"
  shows "rtts_ok (update_rtt i f cm)"
proof (cases "map_of (cm_rtt_measurements cm) i")
  case (Some m)
  then have "measurement_ok m"
    using assms(1) map_of_SomeD [OF Some] by (auto simp: rtts_ok_def list_all_iff)
  then show ?thesis
    using assms Some by (simp add: rtts_ok_def update_rtt_def list_all_alist_update)
qed (use assms in \<open>simp add: rtts_ok_def update_rtt_def\<close>)

lemma rtts_ok_handle_rtt_response: "rtts_ok cm \<Longrightarrow> rtts_ok (handle_rtt_response i p t cm)"
  by (auto simp: handle_rtt_response_def Let_def intro!: rtts_ok_update_rtt record_rtt_ok)

lemma rtts_ok_process_queued: "rtts_ok cm \<Longrightarrow> rtts_ok (process_queued_rtt_responses cm)"
proof -
  have "rtts_ok cm \<Longrightarrow> rtts_ok (foldl (\<lambda>cm (i, p, t). handle_rtt_response i p t cm) cm rs)" for cm rs
    by (induction rs arbitrary: cm) (auto intro: rtts_ok_handle_rtt_response)
  moreover assume "rtts_ok cm"
  ultimately show ?thesis by (simp add: process_queued_rtt_responses_def rtts_ok_def)
qed

lemma new_measurement_ok: "measurement_ok (new_measurement url wt i)"
  by (simp add: measurement_ok_def new_measurement_def rtt_mean_def)

lemma rtts_ok_open_connection: "rtts_ok cm \<Longrightarrow> rtts_ok (open_connection opens wt cm x)"
  by (auto simp: rtts_ok_def open_connection_def Let_def new_measurement_ok
           intro: list_all_alist_update split: prod.splits)

lemma rtts_ok_create_all: "rtts_ok cm \<Longrightarrow> rtts_ok (create_all_connections opens cm)"
proof -
  have "rtts_ok cm \<Longrightarrow> rtts_ok (foldl (open_connection opens wt) cm xs)" for cm wt xs
    by (induction xs arbitrary: cm) (auto intro: rtts_ok_open_connection)
  then show "rtts_ok cm \<Longrightarrow> rtts_ok (create_all_connections opens cm)"
    by (simp add: create_all_connections_def Let_def)
qed

lemma rtts_ok_send_rtt_probe: "rtts_ok cm \<Longrightarrow> rtts_ok (fst (send_rtt_probe P enc now i cm))"
  by (auto simp: send_rtt_probe_def Let_def measurement_ok_def split: option.splits
           intro!: rtts_ok_update_rtt)

lemma rtts_ok_send_rtt_probes: "rtts_ok cm \<Longrightarrow> rtts_ok (fst (send_rtt_probes P enc now cm))"
proof -
  have "rtts_ok cm \<Longrightarrow> rtts_ok (fst (send_rtt_probes_to P enc now is cm))" for "is" cm
    by (induction "is" arbitrary: cm) (auto simp: Let_def split_beta intro: rtts_ok_send_rtt_probe)
  then show "rtts_ok cm \<Longrightarrow> rtts_ok (fst (send_rtt_probes P enc now cm))"
    by (simp add: send_rtt_probes_def)
qed

section \<open>Choosing the best connection\<close>

definition usable :: "connection_manager \<Rightarrow> string \<Rightarrow> server_rtt \<Rightarrow> bool" where
  "usable cm i m \<longleftrightarrow>
     (case map_of (cm_connections cm) i of Some c \<Rightarrow> conn_is_connected c | None \<Rightarrow> True) \<and>
     sr_average_rtt m \<noteq> None \<and> sr_measurements m \<noteq> []"

text \<open>Preference: enough samples first, then WebTransport before WebSocket.\<close>

definition rank :: "server_rtt \<Rightarrow> nat" where
  "rank m =
     (if ELECTION_MIN_RTT_SAMPLES \<le> length (sr_measurements m)
      then (if sr_is_webtransport m then 0 else 1)
      else (if sr_is_webtransport m then 2 else 3))"

definition slot :: "nat \<Rightarrow> candidates \<Rightarrow> (string \<times> server_rtt \<times> real) option" where
  "slot k cs =
     (if k = 0 then best_wt cs else if k = 1 then best_ws cs
      else if k = 2 then fallback_wt cs else fallback_ws cs)"

lemma slot_consider:
  assumes "k < 4"
  shows "slot k (consider_candidate cm cs (i, m)) =
           (if usable cm i m \<and> rank m = k \<and> beats (the (sr_average_rtt m)) (slot k cs)
            then Some (i, m, the (sr_average_rtt m)) else slot k cs)"
proof -
  have "k = 0 \<or> k = 1 \<or> k = 2 \<or> k = 3" using assms by auto
  then show ?thesis
    by (elim disjE)
       (auto simp: consider_candidate_def usable_def rank_def slot_def Let_def split: option.splits)
qed

definition slot_ok ::
  "connection_manager \<Rightarrow> (string \<times> server_rtt) list \<Rightarrow> nat \<Rightarrow> (string \<times> server_rtt \<times> real) option \<Rightarrow> bool" where
  "slot_ok cm xs k sl \<longleftrightarrow>
     (case sl of
        None \<Rightarrow> list_all (\<lambda>(j, n). usable cm j n \<longrightarrow> rank n \<noteq> k) xs
      | Some (i, m, r) \<Rightarrow>
          (i, m) \<in> set xs \<and> usable cm i m \<and> rank m = k \<and> sr_average_rtt m = Some r \<and>
          list_all (\<lambda>(j, n). usable cm j n \<and> rank n = k \<longrightarrow> r \<le> the (sr_average_rtt n)) xs)"

lemma slot_ok_step:
  assumes "slot_ok cm xs k (slot k cs)" and "k < 4"
  shows "slot_ok cm (xs @ [(i, m)]) k (slot k (consider_candidate cm cs (i, m)))"
proof (cases "slot k cs")
  case None
  with assms show ?thesis
    by (auto simp: slot_ok_def slot_consider beats_def usable_def list_all_iff)
next
  case (Some e)
  with assms show ?thesis
    by (cases e) (fastforce simp: slot_ok_def slot_consider beats_def usable_def list_all_iff)
qed

lemma scan_slots:
  assumes "k < 4"
  shows "slot_ok cm xs k (slot k (foldl (consider_candidate cm)
           \<lparr>best_wt = None, best_ws = None, fallback_wt = None, fallback_ws = None\<rparr> xs))"
proof (induction xs rule: rev_induct)
  case Nil
  then show ?case by (simp add: slot_ok_def slot_def)
next
  case (snoc x xs)
  then show ?case using slot_ok_step [OF snoc assms] by (cases x) simp
qed

lemma rank_less: "rank m < 4"
  by (simp add: rank_def)

lemma find_best_spec:
  "case find_best_connection cm of
     Inl e \<Rightarrow> list_all (\<lambda>(j, n). \<not> usable cm j n) (cm_rtt_measurements cm)
   | Inr (i, m) \<Rightarrow>
       (i, m) \<in> set (cm_rtt_measurements cm) \<and> usable cm i m \<and>
       list_all (\<lambda>(j, n). usable cm j n \<longrightarrow>
          rank m < rank n \<or> rank m = rank n \<and> the (sr_average_rtt m) \<le> the (sr_average_rtt n))
         (cm_rtt_measurements cm)"
proof -
  define cs where "cs = foldl (consider_candidate cm)
     \<lparr>best_wt = None, best_ws = None, fallback_wt = None, fallback_ws = None\<rparr> (cm_rtt_measurements cm)"
  have ok: "slot_ok cm (cm_rtt_measurements cm) k (slot k cs)" if "k < 4" for k
    unfolding cs_def by (rule scan_slots [OF that])
  have sl: "slot 0 cs = best_wt cs" "slot 1 cs = best_ws cs" "slot 2 cs = fallback_wt cs"
    "slot 3 cs = fallback_ws cs"
    by (simp_all add: slot_def)
  have none: "rank n \<noteq> k"
    if "k < 4" "slot k cs = None" "(j, n) \<in> set (cm_rtt_measurements cm)" "usable cm j n" for k j n
    using ok [OF that(1)] that by (auto simp: slot_ok_def list_all_iff)
  have some: "(i, m) \<in> set (cm_rtt_measurements cm) \<and> usable cm i m \<and>
      list_all (\<lambda>(j, n). usable cm j n \<longrightarrow>
          rank m < rank n \<or> rank m = rank n \<and> the (sr_average_rtt m) \<le> the (sr_average_rtt n))
         (cm_rtt_measurements cm)"
    if k: "k < 4" "slot k cs = Some (i, m, r)" and below: "\<And>l. l < k \<Longrightarrow> slot l cs = None" for k i m r
  proof -
    have "rank n = k \<or> k < rank n"
      if "(j, n) \<in> set (cm_rtt_measurements cm)" "usable cm j n" for j n
      using none [OF _ below that] k(1) by (metis linorder_neqE_nat order.strict_trans)
    moreover have slot: "(i, m) \<in> set (cm_rtt_measurements cm)" "usable cm i m" "rank m = k"
      "sr_average_rtt m = Some r"
      using ok [OF k(1)] k(2) by (simp_all add: slot_ok_def)
    moreover have "r \<le> the (sr_average_rtt n)"
      if "(j, n) \<in> set (cm_rtt_measurements cm)" "usable cm j n" "rank n = k" for j n
      using ok [OF k(1)] k(2) that by (auto simp: slot_ok_def list_all_iff)
    ultimately show ?thesis by (fastforce simp: list_all_iff)
  qed
  show ?thesis
  proof (cases "best_wt cs")
    case (Some e)
    then show ?thesis
      using some [of 0] sl by (cases e) (auto simp: find_best_connection_def cs_def [symmetric])
  next
    case wt: None
    show ?thesis
    proof (cases "best_ws cs")
      case (Some e)
      then show ?thesis
        using some [of 1] sl wt by (cases e) (auto simp: find_best_connection_def cs_def [symmetric])
    next
      case ws: None
      have lt2: "l < 2 \<Longrightarrow> slot l cs = None" for l :: nat
        using wt ws sl by (cases l) (auto simp: less_Suc_eq)
      show ?thesis
      proof (cases "fallback_wt cs")
        case (Some e)
        then show ?thesis
          using some [of 2, OF _ _ lt2] sl wt ws
          by (cases e) (auto simp: find_best_connection_def cs_def [symmetric])
      next
        case fwt: None
        have lt3: "l < 3 \<Longrightarrow> slot l cs = None" for l :: nat
          using lt2 [of l] sl(3) fwt by (cases "l = 2") auto
        show ?thesis
        proof (cases "fallback_ws cs")
          case (Some e)
          then show ?thesis
            using some [of 3, OF _ _ lt3] sl wt ws fwt
            by (cases e) (auto simp: find_best_connection_def cs_def [symmetric])
        next
          case None
          have "slot k cs = None" if "k < 4" for k
            using lt3 [of k] sl(4) None that by (cases "k = 3") auto
          then have "\<not> usable cm j n" if "(j, n) \<in> set (cm_rtt_measurements cm)" for j n
            using none [OF rank_less _ that] rank_less [of n] by blast
          then show ?thesis
            using wt ws fwt None by (auto simp: find_best_connection_def cs_def [symmetric] list_all_iff)
        qed
      qed
    qed
  qed
qed

section \<open>The backoff\<close>

definition backoff_cap :: "u32 \<Rightarrow> u64" where
  "backoff_cap attempt =
     (if attempt \<le> 5 then 2000 else if attempt \<le> 15 then 10000 else 30000)"

lemma unat_f64_to_u64:
  assumes "0 \<le> x" and "x < 2 ^ 64"
  shows "unat (f64_to_u64 x) = nat \<lfloor>x\<rfloor>"
proof -
  have "\<lfloor>x\<rfloor> < 2 ^ 64" using assms by (simp add: floor_less_iff)
  moreover have "0 \<le> \<lfloor>x\<rfloor>" using assms by simp
  ultimately have "unat (of_int \<lfloor>x\<rfloor> :: u64) = nat \<lfloor>x\<rfloor>"
    by (simp add: unat_eq_nat_uint uint_word_of_int_eq take_bit_int_eq_self)
  then show ?thesis using assms by (simp add: f64_to_u64_def)
qed

lemma next_backoff_delay_nat:
  assumes delay: "unat d \<le> 30000" and r: "0 \<le> r" "r < 1"
  shows "unat (next_backoff_delay r d RECONNECT_BACKOFF_MULTIPLIER attempt) =
           min (2 * unat d + nat \<lfloor>real (unat d) * r\<rfloor>) (unat (backoff_cap attempt))"
proof -
  define n where "n = unat d"
  define base where "base = f64_to_u64 (real n * 2)"
  define jitter where "jitter = f64_to_u64 (real (unat base) * (1 / 2) * r)"
  have n: "n \<le> 30000" using delay n_def by simp
  have "real n * 2 < 2 ^ 64" using n by simp
  then have base: "unat base = 2 * n"
    unfolding base_def by (subst unat_f64_to_u64) linarith+
  have le: "real n * r \<le> real n * 1"
    using r by (intro mult_left_mono) auto
  then have "real n * r < 2 ^ 64" and "0 \<le> real n * r" using n r by auto
  moreover have "real (2 * n) * (1 / 2) * r = real n * r" by simp
  ultimately have jit: "unat jitter = nat \<lfloor>real n * r\<rfloor>"
    unfolding jitter_def base by (simp only: unat_f64_to_u64)
  have "nat \<lfloor>real n * r\<rfloor> \<le> 30000"
    using le n by (simp add: nat_le_iff floor_le_iff)
  then have "unat (base + jitter) = 2 * n + nat \<lfloor>real n * r\<rfloor>"
    using base jit n by (simp add: unat_word_ariths)
  moreover have "next_backoff_delay r d RECONNECT_BACKOFF_MULTIPLIER attempt =
      min (base + jitter) (backoff_cap attempt)"
    unfolding next_backoff_delay_def base_def jitter_def n_def backoff_cap_def Let_def
      RECONNECT_BACKOFF_MULTIPLIER_def RECONNECT_PHASE1_MAX_ATTEMPTS_def
      RECONNECT_PHASE2_MAX_ATTEMPTS_def RECONNECT_MAX_DELAY_PHASE1_MS_def
      RECONNECT_MAX_DELAY_PHASE2_MS_def RECONNECT_MAX_DELAY_PHASE3_MS_def ..
  ultimately show ?thesis
    unfolding n_def [symmetric] by (simp add: min_def word_le_nat_alt)
qed

section \<open>The client as a system of events\<close>

text \<open>
  The manager with the reconnection tasks that are alive. A task stands before one of its
  three stretches of code between awaits; \<open>LoopStep n\<close> lets the \<open>n\<close>-th task run to its next await.
  Events carry what the environment decides: the clock, the random number, which transports
  open, whether the manager was dropped or is borrowed.
\<close>

datatype loop_pc = AtHead | InBackoff | InElection

type_synonym client = "connection_manager \<times> (loop_pc \<times> reconnect_loop) list"

datatype client_event =
    TransportUp nat
  | TransportLost nat string string
  | InboundPacket real string packet_wrapper
  | Tick1Hz "bool \<Rightarrow> string \<Rightarrow> bool" real
  | Tick200 real
  | Tick100 real
  | SetVideo real bool
  | SetAudio real bool
  | SetScreen real bool
  | SetSpeaking real bool
  | SetOwnSession u64
  | LeaveCall
  | LoopStep nat "bool \<Rightarrow> string \<Rightarrow> bool" real real bool bool

definition drop_loop :: "nat \<Rightarrow> 'a list \<Rightarrow> 'a list" where
  "drop_loop n ls = take n ls @ drop (Suc n) ls"

definition run_loop ::
  "nat \<Rightarrow> (bool \<Rightarrow> string \<Rightarrow> bool) \<Rightarrow> real \<Rightarrow> real \<Rightarrow> bool \<Rightarrow> bool \<Rightarrow> client \<Rightarrow> client \<times> manager_effect list" where
  "run_loop n opens now random dropped busy s =
     (let (cm, ls) = s
      in if length ls \<le> n then (s, [])
         else
           let (pc, l) = ls ! n
           in case pc of
                AtHead \<Rightarrow>
                  (case loop_head l cm of
                     (None, cm', es) \<Rightarrow> ((cm', drop_loop n ls), es)
                   | (Some l', cm', es) \<Rightarrow> ((cm', ls[n := (InBackoff, l')]), es))
              | InBackoff \<Rightarrow>
                  (case loop_after_backoff opens now dropped busy l cm of
                     (None, cm', es) \<Rightarrow> ((cm', drop_loop n ls), es)
                   | (Some (Retry, l'), cm', es) \<Rightarrow> ((cm', ls[n := (AtHead, l')]), es)
                   | (Some (WaitForElection, l'), cm', es) \<Rightarrow> ((cm', ls[n := (InElection, l')]), es))
              | InElection \<Rightarrow>
                  (case loop_after_election random now busy l cm of
                     (None, cm', es) \<Rightarrow> ((cm', drop_loop n ls), es)
                   | (Some l', cm', es) \<Rightarrow> ((cm', ls[n := (AtHead, l')]), es)))"

definition spawned :: "manager_effect list \<Rightarrow> (loop_pc \<times> reconnect_loop) list" where
  "spawned es =
     concat (map (\<lambda>e. case e of SpawnReconnectLoop url \<Rightarrow> [(AtHead, reconnect_loop_start url)] | _ \<Rightarrow> []) es)"

fun manager_event ::
  "proto \<Rightarrow> (bytes \<Rightarrow> bytes option) \<Rightarrow> (bytes \<Rightarrow> bytes option) \<Rightarrow> client_event \<Rightarrow> connection_manager \<Rightarrow>
   connection_manager \<times> manager_effect list" where
  "manager_event P enc dec (TransportUp serial) cm = (transport_connected serial cm, [])"
| "manager_event P enc dec (TransportLost serial i url) cm = transport_lost serial i url cm"
| "manager_event P enc dec (InboundPacket now i p) cm = inbound_media_callback P dec now i p cm"
| "manager_event P enc dec (Tick1Hz opens now) cm = timer_1hz P enc opens now cm"
| "manager_event P enc dec (Tick200 now) cm = timer_200ms P enc now cm"
| "manager_event P enc dec (Tick100 now) cm = timer_100ms now cm"
| "manager_event P enc dec (SetVideo now b) cm =
     (case manager_set_video_enabled P enc now b cm of Inl e \<Rightarrow> (cm, []) | Inr (cm', es) \<Rightarrow> (cm', map Wire es))"
| "manager_event P enc dec (SetAudio now b) cm =
     (case manager_set_audio_enabled P enc now b cm of Inl e \<Rightarrow> (cm, []) | Inr (cm', es) \<Rightarrow> (cm', map Wire es))"
| "manager_event P enc dec (SetScreen now b) cm =
     (case manager_set_screen_enabled P enc now b cm of Inl e \<Rightarrow> (cm, []) | Inr (cm', es) \<Rightarrow> (cm', map Wire es))"
| "manager_event P enc dec (SetSpeaking now b) cm =
     (let (cm', es) = manager_set_speaking P enc now b cm in (cm', map Wire es))"
| "manager_event P enc dec (SetOwnSession sid) cm = (set_own_session_id sid cm, [])"
| "manager_event P enc dec LeaveCall cm = (manager_disconnect cm, [])"
| "manager_event P enc dec (LoopStep n opens now random dropped busy) cm = (cm, [])"

definition client_event_step ::
  "proto \<Rightarrow> (bytes \<Rightarrow> bytes option) \<Rightarrow> (bytes \<Rightarrow> bytes option) \<Rightarrow> client \<Rightarrow> client_event \<Rightarrow>
   client \<times> manager_effect list" where
  "client_event_step P enc dec s ev =
     (case ev of
        LoopStep n opens now random dropped busy \<Rightarrow> run_loop n opens now random dropped busy s
      | _ \<Rightarrow>
          let (cm, es) = manager_event P enc dec ev (fst s)
          in ((cm, snd s @ spawned es), es))"

abbreviation client_step ::
  "proto \<Rightarrow> (bytes \<Rightarrow> bytes option) \<Rightarrow> (bytes \<Rightarrow> bytes option) \<Rightarrow> client \<Rightarrow> client_event \<Rightarrow> client" where
  "client_step P enc dec s ev \<equiv> fst (client_event_step P enc dec s ev)"

section \<open>What every event keeps\<close>

lemma update_active_frame:
  assumes "update_active f cm = Some (cm', es)"
  shows "cm_rtt_measurements cm' = cm_rtt_measurements cm" and "cm_options cm' = cm_options cm"
    and "cm_election_state cm' = cm_election_state cm"
    and "cm_reconnection_phase cm' = cm_reconnection_phase cm"
    and "cm_intentionally_disconnected cm' = cm_intentionally_disconnected cm"
  using assms by (auto simp: update_active_def split: option.splits prod.splits if_splits)

lemma set_own_session_id_frame [simp]:
  "cm_rtt_measurements (set_own_session_id sid cm) = cm_rtt_measurements cm"
  "cm_options (set_own_session_id sid cm) = cm_options cm"
  "cm_election_state (set_own_session_id sid cm) = cm_election_state cm"
  "cm_reconnection_phase (set_own_session_id sid cm) = cm_reconnection_phase cm"
  "cm_intentionally_disconnected (set_own_session_id sid cm) = cm_intentionally_disconnected cm"
  by (auto simp: set_own_session_id_def Let_def dest: update_active_frame split: option.split)

lemma manager_set_speaking_frame [simp]:
  "cm_rtt_measurements (fst (manager_set_speaking P enc now b cm)) = cm_rtt_measurements cm"
  "cm_options (fst (manager_set_speaking P enc now b cm)) = cm_options cm"
  "cm_election_state (fst (manager_set_speaking P enc now b cm)) = cm_election_state cm"
  "cm_reconnection_phase (fst (manager_set_speaking P enc now b cm)) = cm_reconnection_phase cm"
  "cm_intentionally_disconnected (fst (manager_set_speaking P enc now b cm)) =
     cm_intentionally_disconnected cm"
  by (auto simp: manager_set_speaking_def dest: update_active_frame split: option.split)

lemma inbound_media_callback_frame [simp]:
  "cm_rtt_measurements (fst (inbound_media_callback P dec now i p cm)) = cm_rtt_measurements cm"
  "cm_options (fst (inbound_media_callback P dec now i p cm)) = cm_options cm"
  "cm_election_state (fst (inbound_media_callback P dec now i p cm)) = cm_election_state cm"
  "cm_reconnection_phase (fst (inbound_media_callback P dec now i p cm)) = cm_reconnection_phase cm"
  "cm_intentionally_disconnected (fst (inbound_media_callback P dec now i p cm)) =
     cm_intentionally_disconnected cm"
  by (auto simp: inbound_media_callback_def Let_def split: option.split)

lemma complete_election_frame [simp]:
  "cm_options (fst (complete_election now cm)) = cm_options cm"
  "cm_reconnection_phase (fst (complete_election now cm)) = cm_reconnection_phase cm"
  "cm_intentionally_disconnected (fst (complete_election now cm)) = cm_intentionally_disconnected cm"
  by (auto simp: complete_election_def Let_def split: sum.split)

lemma check_and_complete_election_frame [simp]:
  "cm_options (fst (check_and_complete_election now cm)) = cm_options cm"
  "cm_reconnection_phase (fst (check_and_complete_election now cm)) = cm_reconnection_phase cm"
  "cm_intentionally_disconnected (fst (check_and_complete_election now cm)) =
     cm_intentionally_disconnected cm"
  by (auto simp: check_and_complete_election_def Let_def split: election_state.split)

lemma start_reelection_frame [simp]:
  "cm_options (start_reelection opens now cm) = cm_options cm"
  "cm_reconnection_phase (start_reelection opens now cm) = cm_reconnection_phase cm"
  "cm_intentionally_disconnected (start_reelection opens now cm) = cm_intentionally_disconnected cm"
  by (auto simp: start_reelection_def Let_def split: option.split)

lemma timer_1hz_frame [simp]:
  "cm_options (fst (timer_1hz P enc opens now cm)) = cm_options cm"
  "cm_reconnection_phase (fst (timer_1hz P enc opens now cm)) = cm_reconnection_phase cm"
  "cm_intentionally_disconnected (fst (timer_1hz P enc opens now cm)) = cm_intentionally_disconnected cm"
  by (simp_all add: timer_1hz_def Let_def trigger_diagnostics_report_def split_beta split: ui_state.split)

lemma timer_200ms_frame [simp]:
  "cm_options (fst (timer_200ms P enc now cm)) = cm_options cm"
  "cm_election_state (fst (timer_200ms P enc now cm)) = cm_election_state cm"
  "cm_reconnection_phase (fst (timer_200ms P enc now cm)) = cm_reconnection_phase cm"
  "cm_intentionally_disconnected (fst (timer_200ms P enc now cm)) = cm_intentionally_disconnected cm"
  by (simp_all add: timer_200ms_def split: ui_state.split)

lemma start_election_frame [simp]:
  "cm_options (fst (start_election opens now cm)) = cm_options cm"
  "cm_reconnection_phase (fst (start_election opens now cm)) = cm_reconnection_phase cm"
  "cm_intentionally_disconnected (fst (start_election opens now cm)) = cm_intentionally_disconnected cm"
  by (simp_all add: start_election_def Let_def)

lemma reset_and_start_election_frame [simp]:
  "cm_options (fst (reset_and_start_election opens now cm)) = cm_options cm"
  "cm_reconnection_phase (fst (reset_and_start_election opens now cm)) = cm_reconnection_phase cm"
  "cm_intentionally_disconnected (fst (reset_and_start_election opens now cm)) =
     cm_intentionally_disconnected cm"
  by (simp_all add: reset_and_start_election_def)

end
