(* ===== verification/Client_Runs.thy ===== *)
theory Client_Runs
  imports Connection_Election
begin

text \<open>
  Runs of the browser client: for every sequence of transport events, timer ticks, user actions
  and steps of the reconnection tasks, the measurements stay sane, at most one reconnection task
  is alive, its delays stay within the backoff bounds, a leave ends it, and an election decides.
\<close>

section \<open>Which events start a reconnection task\<close>

lemma spawned_append [simp]: "spawned (es @ fs) = spawned es @ spawned fs"
  by (simp add: spawned_def)

lemma spawned_wire [simp]: "spawned (map Wire es) = []"
  by (simp add: spawned_def)

lemma spawned_simps [simp]:
  "spawned [] = []"
  "spawned (StateChanged u # es) = spawned es"
  "spawned (EmitInbound p # es) = spawned es"
  "spawned (Wire w # es) = spawned es"
  "spawned (SpawnReconnectLoop url # es) = (AtHead, reconnect_loop_start url) # spawned es"
  by (simp_all add: spawned_def)

lemma spawned_report_state [simp]: "spawned (report_state now cm) = []"
  by (simp add: report_state_def)

lemma spawned_send_rtt_probe [simp]: "spawned (snd (send_rtt_probe P enc now i cm)) = []"
  by (simp add: send_rtt_probe_def Let_def split: option.split)

lemma spawned_send_rtt_probes_to: "spawned (snd (send_rtt_probes_to P enc now is cm)) = []"
  by (induction "is" arbitrary: cm) (simp_all add: Let_def split_beta)

lemma spawned_send_rtt_probes [simp]: "spawned (snd (send_rtt_probes P enc now cm)) = []"
  by (simp add: send_rtt_probes_def spawned_send_rtt_probes_to)

lemma spawned_timers [simp]:
  "spawned (snd (timer_1hz P enc opens now cm)) = []"
  "spawned (snd (timer_200ms P enc now cm)) = []"
  "spawned (snd (timer_100ms now cm)) = []"
  by (auto simp: timer_1hz_def timer_200ms_def timer_100ms_def Let_def split_beta
        check_and_complete_election_def complete_election_def
      split: ui_state.split election_state.split sum.split)

lemma timer_100ms_frame [simp]:
  "cm_options (fst (timer_100ms now cm)) = cm_options cm"
  "cm_reconnection_phase (fst (timer_100ms now cm)) = cm_reconnection_phase cm"
  "cm_intentionally_disconnected (fst (timer_100ms now cm)) = cm_intentionally_disconnected cm"
  by (simp_all add: timer_100ms_def)

lemma spawned_inbound [simp]: "spawned (snd (inbound_media_callback P dec now i p cm)) = []"
  by (auto simp: inbound_media_callback_def Let_def split: option.split)

definition is_reconnecting :: "reconnection_phase \<Rightarrow> bool" where
  "is_reconnecting ph = (case ph of Reconnecting attempt delay \<Rightarrow> True | _ \<Rightarrow> False)"

lemma is_reconnecting_simps [simp]:
  "is_reconnecting (Reconnecting a d)" "\<not> is_reconnecting Idle" "\<not> is_reconnecting PhaseFailed"
  by (simp_all add: is_reconnecting_def)

lemma transport_lost_spawn:
  "spawned (snd (transport_lost n i url cm)) = [] \<and>
     cm_reconnection_phase (fst (transport_lost n i url cm)) = cm_reconnection_phase cm \<or>
   spawned (snd (transport_lost n i url cm)) = [(AtHead, reconnect_loop_start url)] \<and>
     \<not> is_reconnecting (cm_reconnection_phase cm) \<and> \<not> cm_intentionally_disconnected cm \<and>
     is_reconnecting (cm_reconnection_phase (fst (transport_lost n i url cm)))"
  by (auto simp: transport_lost_def connection_lost_callback_def Let_def is_reconnecting_def
      split: reconnection_phase.split)

lemma transport_lost_frame [simp]:
  "cm_intentionally_disconnected (fst (transport_lost n i url cm)) = cm_intentionally_disconnected cm"
  "cm_options (fst (transport_lost n i url cm)) = cm_options cm"
  "cm_election_state (fst (transport_lost n i url cm)) = cm_election_state cm"
  "cm_rtt_measurements (fst (transport_lost n i url cm)) = cm_rtt_measurements cm"
  by (auto simp: transport_lost_def connection_lost_callback_def Let_def
      split: reconnection_phase.split)

lemma manager_set_frame:
  "manager_set_video_enabled P enc now b cm = Inr (cm', es) \<Longrightarrow> \<exists>f. update_active f cm = Some (cm', es)"
  "manager_set_audio_enabled P enc now b cm = Inr (cm', es) \<Longrightarrow> \<exists>f. update_active f cm = Some (cm', es)"
  "manager_set_screen_enabled P enc now b cm = Inr (cm', es) \<Longrightarrow> \<exists>f. update_active f cm = Some (cm', es)"
  by (auto simp: manager_set_video_enabled_def manager_set_audio_enabled_def
      manager_set_screen_enabled_def split: option.splits)

text \<open>Every event but a loss, a leave and a step of a task leaves the reconnection state alone.\<close>

definition quiet :: "client_event \<Rightarrow> bool" where
  "quiet ev = (case ev of TransportLost n i url \<Rightarrow> False | LeaveCall \<Rightarrow> False
     | LoopStep n opens now random dropped busy \<Rightarrow> False | _ \<Rightarrow> True)"

lemma quiet_event:
  assumes "quiet ev"
  shows "spawned (snd (manager_event P enc dec ev cm)) = [] \<and>
    cm_reconnection_phase (fst (manager_event P enc dec ev cm)) = cm_reconnection_phase cm \<and>
    cm_intentionally_disconnected (fst (manager_event P enc dec ev cm)) =
           cm_intentionally_disconnected cm"
  using assms
  by (cases ev; auto simp: quiet_def transport_connected_def split_beta
      split: sum.split dest!: manager_set_frame dest: update_active_frame)

section \<open>One reconnection task\<close>

definition loops_ok :: "client \<Rightarrow> bool" where
  "loops_ok s \<longleftrightarrow>
     length (snd s) \<le> 1 \<and>
     (snd s \<noteq> [] \<longrightarrow>
        cm_intentionally_disconnected (fst s) \<or> is_reconnecting (cm_reconnection_phase (fst s))) \<and>
     list_all (\<lambda>(pc, l). 500 \<le> unat (rl_delay_ms l) \<and> unat (rl_delay_ms l) \<le> 30000) (snd s)"

definition event_ok :: "client_event \<Rightarrow> bool" where
  "event_ok ev = (case ev of
     LoopStep n opens now random dropped busy \<Rightarrow> 0 \<le> random \<and> random < 1 | _ \<Rightarrow> True)"

lemma backoff_delay_range:
  assumes "500 \<le> unat d" "unat d \<le> 30000" "0 \<le> r" "r < 1"
  shows "500 \<le> unat (next_backoff_delay r d RECONNECT_BACKOFF_MULTIPLIER attempt)"
    and "unat (next_backoff_delay r d RECONNECT_BACKOFF_MULTIPLIER attempt) \<le> 30000"
  using assms by (auto simp: next_backoff_delay_nat backoff_cap_def)

lemma loop_head_cases:
  "fst (loop_head l cm) = None \<longleftrightarrow> cm_intentionally_disconnected cm"
  "fst (loop_head l cm) = Some l' \<Longrightarrow>
     rl_delay_ms l' = rl_delay_ms l \<and> is_reconnecting (cm_reconnection_phase (fst (snd (loop_head l cm))))"
  "cm_intentionally_disconnected (fst (snd (loop_head l cm))) = cm_intentionally_disconnected cm"
  by (auto simp: loop_head_def Let_def)

lemma loop_after_backoff_cases:
  "cm_intentionally_disconnected cm \<Longrightarrow> fst (loop_after_backoff opens now dropped busy l cm) = None"
  "fst (loop_after_backoff opens now dropped busy l cm) = Some (b, l') \<Longrightarrow>
     rl_delay_ms l' = rl_delay_ms l \<and>
     cm_reconnection_phase (fst (snd (loop_after_backoff opens now dropped busy l cm))) =
       cm_reconnection_phase cm"
  "cm_intentionally_disconnected (fst (snd (loop_after_backoff opens now dropped busy l cm))) =
     cm_intentionally_disconnected cm"
  by (auto simp: loop_after_backoff_def Let_def split_beta split: if_splits)

lemma loop_after_election_outcomes:
  obtains "loop_after_election random now busy l cm =
      (None, cm\<lparr>cm_reconnection_phase := Idle\<rparr>, [StateChanged (get_connection_state now cm)])"
  | msg where "loop_after_election random now busy l cm =
      (None, cm\<lparr>cm_reconnection_phase := PhaseFailed\<rparr>,
       [StateChanged (UiFailed msg (Some (rl_last_server_url l)))])"
  | zero where "loop_after_election random now busy l cm =
      (Some (l\<lparr>rl_zero := zero,
               rl_delay_ms := next_backoff_delay random (rl_delay_ms l)
                                RECONNECT_BACKOFF_MULTIPLIER (rl_attempt l)\<rparr>), cm, [])"
  unfolding loop_after_election_def Let_def by metis

lemma loop_after_election_cases:
  "fst (loop_after_election random now busy l cm) = Some l' \<Longrightarrow>
     rl_delay_ms l' = next_backoff_delay random (rl_delay_ms l) RECONNECT_BACKOFF_MULTIPLIER (rl_attempt l) \<and>
     fst (snd (loop_after_election random now busy l cm)) = cm"
  "cm_intentionally_disconnected (fst (snd (loop_after_election random now busy l cm))) =
     cm_intentionally_disconnected cm"
  by (rule loop_after_election_outcomes [of random now busy l cm]; auto)+

lemmas loop_cases = loop_head_cases loop_after_backoff_cases loop_after_election_cases

text \<open>The client after an event, by the kind of the event.\<close>

lemma step_quiet:
  assumes "quiet ev"
  shows "client_step P enc dec s ev = (fst (manager_event P enc dec ev (fst s)), snd s)"
  using assms quiet_event [OF assms, of P enc dec "fst s"]
  by (cases ev) (simp_all add: client_event_step_def quiet_def Let_def split_beta)

lemma step_lost:
  "client_step P enc dec s (TransportLost n i url) =
     (fst (transport_lost n i url (fst s)), snd s @ spawned (snd (transport_lost n i url (fst s))))"
  by (simp add: client_event_step_def Let_def split_beta)

lemma step_leave: "client_step P enc dec s LeaveCall = (manager_disconnect (fst s), snd s)"
  by (simp add: client_event_step_def)

lemma run_loop_none: "fst (run_loop n opens now random dropped busy (cm, [])) = (cm, [])"
  by (simp add: run_loop_def)

lemma run_loop_other:
  "fst (run_loop (Suc n) opens now random dropped busy (cm, [pl])) = (cm, [pl])"
  by (simp add: run_loop_def)

lemma run_loop_head:
  "fst (run_loop 0 opens now random dropped busy (cm, [(AtHead, l)])) =
     (fst (snd (loop_head l cm)),
      case fst (loop_head l cm) of None \<Rightarrow> [] | Some l' \<Rightarrow> [(InBackoff, l')])"
  by (simp add: run_loop_def drop_loop_def split: prod.split option.split)

lemma run_loop_backoff:
  "fst (run_loop 0 opens now random dropped busy (cm, [(InBackoff, l)])) =
     (fst (snd (loop_after_backoff opens now dropped busy l cm)),
      case fst (loop_after_backoff opens now dropped busy l cm) of
        None \<Rightarrow> [] | Some (Retry, l') \<Rightarrow> [(AtHead, l')] | Some (WaitForElection, l') \<Rightarrow> [(InElection, l')])"
  by (simp add: run_loop_def drop_loop_def split: prod.split option.split backoff_outcome.split)

lemma run_loop_election:
  "fst (run_loop 0 opens now random dropped busy (cm, [(InElection, l)])) =
     (fst (snd (loop_after_election random now busy l cm)),
      case fst (loop_after_election random now busy l cm) of None \<Rightarrow> [] | Some l' \<Rightarrow> [(AtHead, l')])"
  by (simp add: run_loop_def drop_loop_def split: prod.split option.split)

lemmas run_loop_simps = run_loop_none run_loop_other run_loop_head run_loop_backoff run_loop_election

lemma loops_ok_run_loop:
  assumes ok: "loops_ok (cm, ls)" and r: "0 \<le> random" "random < 1"
  shows "loops_ok (fst (run_loop n opens now random dropped busy (cm, ls)))"
proof (cases ls)
  case Nil
  then show ?thesis using ok by (simp add: run_loop_none)
next
  case (Cons pl tl)
  then have ls: "ls = [pl]" using ok by (simp add: loops_ok_def)
  obtain pc l where pl: "pl = (pc, l)" by force
  have d: "500 \<le> unat (rl_delay_ms l)" "unat (rl_delay_ms l) \<le> 30000"
    and ph: "cm_intentionally_disconnected cm \<or> is_reconnecting (cm_reconnection_phase cm)"
    using ok by (auto simp: loops_ok_def ls pl)
  show ?thesis
  proof (cases n)
    case (Suc k)
    then show ?thesis using ok by (simp add: ls run_loop_other)
  next
    case n0: 0
    show ?thesis
    proof (cases pc)
      case AtHead
      then show ?thesis
        using d ph loop_head_cases(2) [of l cm]
        by (auto simp: ls pl n0 run_loop_head loops_ok_def split: option.split)
    next
      case InBackoff
      then show ?thesis
        using d ph loop_after_backoff_cases(2) [of opens now dropped busy l cm]
        by (auto simp: ls pl n0 run_loop_backoff loops_ok_def loop_after_backoff_cases(3)
            split: option.split backoff_outcome.split)
    next
      case InElection
      then show ?thesis
        using d ph backoff_delay_range [OF d r] loop_after_election_cases(1) [of random now busy l cm]
        by (auto simp: ls pl n0 run_loop_election loops_ok_def split: option.split)
    qed
  qed
qed

lemma loops_ok_lost: "loops_ok s \<Longrightarrow> loops_ok (client_step P enc dec s (TransportLost n i url))"
  using transport_lost_spawn [of n i url "fst s"]
  by (auto simp: step_lost loops_ok_def reconnect_loop_start_def RECONNECT_INITIAL_DELAY_MS_def)

lemma step_loop:
  "client_step P enc dec s (LoopStep n opens now random dropped busy) =
     fst (run_loop n opens now random dropped busy s)"
  by (simp add: client_event_step_def)

lemma loops_ok_leave: "loops_ok s \<Longrightarrow> loops_ok (client_step P enc dec s LeaveCall)"
  by (simp add: step_leave loops_ok_def manager_disconnect_def)

lemma loops_ok_step:
  assumes "loops_ok s" and "event_ok ev"
  shows "loops_ok (client_step P enc dec s ev)"
proof (cases "quiet ev")
  case True
  then show ?thesis
    using assms quiet_event [OF True, of P enc dec "fst s"] by (simp add: step_quiet loops_ok_def)
next
  case False
  then show ?thesis
    using assms
    by (cases ev; cases s)
       (simp_all add: quiet_def loops_ok_leave loops_ok_lost loops_ok_run_loop step_loop event_ok_def)
qed

interpretation reconnection: invariant_system "client_step P enc dec" loops_ok event_ok for P enc dec
  by unfold_locales (rule loops_ok_step)

definition client_start ::
  "(bool \<Rightarrow> string \<Rightarrow> bool) \<Rightarrow> real \<Rightarrow> connection_manager \<Rightarrow> client" where
  "client_start opens now cm = (fst (initialize_manager opens now cm), [])"

lemma loops_ok_start: "loops_ok (client_start opens now cm)"
  by (simp add: client_start_def loops_ok_def)

section \<open>After the user left\<close>

definition loop_work :: "client \<Rightarrow> nat" where
  "loop_work s = sum_list (map (\<lambda>(pc, l). case pc of InElection \<Rightarrow> 2 | _ \<Rightarrow> 1) (snd s))"

definition steps_first_loop :: "client_event \<Rightarrow> bool" where
  "steps_first_loop ev = (case ev of LoopStep n opens now random dropped busy \<Rightarrow> n = 0 | _ \<Rightarrow> False)"

definition left_state :: "client \<Rightarrow> bool" where
  "left_state s \<longleftrightarrow> cm_intentionally_disconnected (fst s) \<and> length (snd s) \<le> 1"

lemma left_run_loop:
  assumes "left_state (cm, ls)"
  shows "left_state (fst (run_loop n opens now random dropped busy (cm, ls)))"
    and "loop_work (fst (run_loop n opens now random dropped busy (cm, ls))) \<le>
           loop_work (cm, ls) - (if n = 0 then 1 else 0)"
proof -
  consider "ls = []" | pc l where "ls = [(pc, l)]"
    using assms by (cases ls) (auto simp: left_state_def)
  then have "left_state (fst (run_loop n opens now random dropped busy (cm, ls))) \<and>
    loop_work (fst (run_loop n opens now random dropped busy (cm, ls))) \<le>
           loop_work (cm, ls) - (if n = 0 then 1 else 0)"
  proof cases
    case 1
    then show ?thesis using assms by (simp add: run_loop_none loop_work_def)
  next
    case 2
    have "cm_intentionally_disconnected cm" using assms by (simp add: left_state_def)
    then have "fst (loop_head l cm) = None"
      and "fst (loop_after_backoff opens now dropped busy l cm) = None"
      using loop_head_cases(1) loop_after_backoff_cases(1) by blast+
    then show ?thesis
      using 2 assms
      by (cases n; cases pc)
         (auto simp: run_loop_simps left_state_def loop_work_def loop_head_cases(3)
            loop_after_backoff_cases(3) loop_after_election_cases(2) split: option.split)
  qed
  then show "left_state (fst (run_loop n opens now random dropped busy (cm, ls)))"
    and "loop_work (fst (run_loop n opens now random dropped busy (cm, ls))) \<le>
           loop_work (cm, ls) - (if n = 0 then 1 else 0)" by auto
qed

lemma left_spawns_nothing:
  assumes "left_state s"
  shows "spawned (snd (manager_event P enc dec ev (fst s))) = []"
proof (cases "quiet ev")
  case True
  then show ?thesis using quiet_event by blast
next
  case False
  then show ?thesis
    using assms transport_lost_spawn by (cases ev) (auto simp: quiet_def left_state_def)
qed

lemma left_step:
  assumes "left_state s"
  shows "left_state (client_step P enc dec s ev)"
    and "loop_work (client_step P enc dec s ev) \<le> loop_work s - (if steps_first_loop ev then 1 else 0)"
proof -
  have "left_state (client_step P enc dec s ev) \<and>
    loop_work (client_step P enc dec s ev) \<le> loop_work s - (if steps_first_loop ev then 1 else 0)"
  proof (cases "quiet ev")
    case True
    then have "\<not> steps_first_loop ev" by (cases ev) (simp_all add: quiet_def steps_first_loop_def)
    then show ?thesis
      using assms quiet_event [OF True, of P enc dec "fst s"]
      by (simp add: step_quiet [OF True] left_state_def loop_work_def)
  next
    case False
    then show ?thesis
      using assms left_run_loop [of "fst s" "snd s"] transport_lost_spawn [of _ _ _ "fst s"]
        left_spawns_nothing [OF assms, of P enc dec ev]
      by (cases ev)
         (simp_all add: quiet_def step_leave step_lost step_loop steps_first_loop_def
            left_state_def loop_work_def manager_disconnect_def)
  qed
  then show "left_state (client_step P enc dec s ev)"
    and "loop_work (client_step P enc dec s ev) \<le> loop_work s - (if steps_first_loop ev then 1 else 0)"
    by auto
qed

lemma left_loop_opens_nothing:
  assumes "left_state s"
  shows "cm_next_serial (fst (fst (run_loop n opens now random dropped busy s))) = cm_next_serial (fst s)"
proof -
  obtain cm ls where s: "s = (cm, ls)" by force
  consider "ls = []" | pc l where "ls = [(pc, l)]"
    using assms by (cases ls) (auto simp: left_state_def s)
  then show ?thesis
  proof cases
    case 2
    have i: "cm_intentionally_disconnected cm" using assms by (simp add: left_state_def s)
    have "cm_next_serial (fst (snd (loop_after_election random now busy l cm))) = cm_next_serial cm" for l
      by (rule loop_after_election_outcomes [of random now busy l cm]) simp_all
    then show ?thesis
      using 2 i by (cases n; cases pc)
        (simp_all add: s run_loop_simps loop_head_def loop_after_backoff_def)
  qed (simp add: s run_loop_none)
qed

lemma left_run:
  assumes "left_state s"
  shows "left_state (foldl (client_step P enc dec) s evs) \<and>
         loop_work (foldl (client_step P enc dec) s evs) \<le> loop_work s - length (filter steps_first_loop evs)"
  using assms
proof (induction evs arbitrary: s)
  case (Cons ev evs)
  let ?s = "client_step P enc dec s ev"
  have "left_state (foldl (client_step P enc dec) ?s evs)"
    and "loop_work (foldl (client_step P enc dec) ?s evs) \<le> loop_work ?s - length (filter steps_first_loop evs)"
    using Cons.IH [OF left_step(1) [OF Cons.prems]] by blast+
  then show ?case
    using left_step(2) [OF Cons.prems, of P enc dec ev] by (simp split: if_splits)
qed simp

lemma loop_work_le: "loops_ok s \<Longrightarrow> loop_work s \<le> 2"
  by (cases "snd s") (auto simp: loops_ok_def loop_work_def split: loop_pc.split)

lemma loop_work_0: "loop_work s = 0 \<Longrightarrow> snd s = []"
  by (cases "snd s") (auto simp: loop_work_def split: loop_pc.splits)

section \<open>Measurements in every run\<close>

lemma rtts_ok_complete_election: "rtts_ok cm \<Longrightarrow> rtts_ok (fst (complete_election now cm))"
proof -
  assume ok: "rtts_ok cm"
  have frame: "rtts_ok (x\<lparr>cm_election_state := e\<rparr>) = rtts_ok x"
    "rtts_ok (x\<lparr>cm_active_connection_id := a\<rparr>) = rtts_ok x" for x e a
    by (simp_all add: rtts_ok_def)
  have "rtts_ok (update_rtt i (\<lambda>m. m\<lparr>sr_active := True\<rparr>) (cm\<lparr>cm_active_connection_id := Some i\<rparr>))" for i
    using ok by (intro rtts_ok_update_rtt) (simp_all add: frame measurement_ok_def)
  then show ?thesis
    using ok by (auto simp: complete_election_def Let_def rtts_ok_def split: sum.split)
qed

lemma rtts_ok_reset: "rtts_ok (fst (reset_and_start_election opens now cm))"
proof -
  have "rtts_ok (create_all_connections opens x)" if "cm_rtt_measurements x = []" for x
    using that by (intro rtts_ok_create_all) (simp add: rtts_ok_def)
  then show ?thesis
    by (simp add: reset_and_start_election_def start_election_def Let_def rtts_ok_def)
qed

lemma rtts_ok_reelection: "rtts_ok cm \<Longrightarrow> rtts_ok (start_reelection opens now cm)"
proof -
  assume ok: "rtts_ok cm"
  have "rtts_ok (create_all_connections opens x)" if "cm_rtt_measurements x = []" for x
    using that by (intro rtts_ok_create_all) (simp add: rtts_ok_def)
  then show ?thesis
    using ok by (simp add: start_reelection_def Let_def rtts_ok_def)
qed

lemma rtts_ok_timer_1hz: "rtts_ok cm \<Longrightarrow> rtts_ok (fst (timer_1hz P enc opens now cm))"
proof -
  assume "rtts_ok cm"
  then have q: "rtts_ok (process_queued_rtt_responses cm)" by (rule rtts_ok_process_queued)
  have "rtts_ok (snd (check_rtt_degradation (fst (send_rtt_probes P enc now (process_queued_rtt_responses cm)))))"
    using rtts_ok_send_rtt_probes [OF q] by (simp add: rtts_ok_def)
  with q show ?thesis
    by (auto simp: timer_1hz_def trigger_diagnostics_report_def Let_def split_beta rtts_ok_reelection
        split: ui_state.split)
qed

lemma rtts_ok_event: "rtts_ok cm \<Longrightarrow> rtts_ok (fst (manager_event P enc dec ev cm))"
proof -
  assume ok: "rtts_ok cm"
  have same: "rtts_ok cm'" if "cm_rtt_measurements cm' = cm_rtt_measurements cm" for cm'
    using that ok by (simp add: rtts_ok_def)
  show ?thesis
  proof (cases ev)
    case (Tick1Hz opens now)
    then show ?thesis using ok by (simp add: rtts_ok_timer_1hz)
  next
    case (Tick200 now)
    then show ?thesis using ok rtts_ok_send_rtt_probes by (simp add: timer_200ms_def split: ui_state.split)
  next
    case (Tick100 now)
    then show ?thesis
      using ok by (auto simp: timer_100ms_def check_and_complete_election_def Let_def
          rtts_ok_complete_election intro: same split: election_state.split)
  qed (use ok in \<open>auto simp: transport_connected_def manager_disconnect_def split_beta split: sum.split
         dest!: manager_set_frame dest: update_active_frame intro!: same\<close>)
qed

lemma rtts_ok_run_loop:
  assumes "rtts_ok (fst s)"
  shows "rtts_ok (fst (fst (run_loop n opens now random dropped busy s)))"
proof -
  have same: "rtts_ok (cm\<lparr>cm_reconnection_phase := ph\<rparr>) = rtts_ok cm" for cm ph
    by (simp add: rtts_ok_def)
  have "rtts_ok (fst (snd (loop_head l (fst s))))" for l
    using assms by (simp add: loop_head_def Let_def same)
  moreover have "rtts_ok (fst (snd (loop_after_backoff opens now dropped busy l (fst s))))" for l
    using assms rtts_ok_reset [of opens now "fst s"]
    by (simp add: loop_after_backoff_def Let_def split_beta same)
  moreover have "rtts_ok (fst (snd (loop_after_election random now busy l (fst s))))" for l
    using assms by (rule_tac loop_after_election_outcomes [of random now busy l "fst s"]) (simp_all add: same)
  ultimately show ?thesis
    using assms by (cases s; cases "snd s ! n")
      (auto simp: run_loop_def split: prod.split option.split loop_pc.split backoff_outcome.split; metis fst_conv snd_conv)
qed

lemma rtts_ok_step: "rtts_ok (fst s) \<Longrightarrow> rtts_ok (fst (client_step P enc dec s ev))"
  using rtts_ok_event [of "fst s" P enc dec ev]
  by (cases ev) (simp_all add: client_event_step_def rtts_ok_run_loop split_beta)

interpretation measurements: invariant_system "client_step P enc dec" "\<lambda>s. rtts_ok (fst s)" "\<lambda>ev. True"
  for P enc dec
  by unfold_locales (rule rtts_ok_step)

section \<open>Elections decide\<close>

text \<open>
  While an election runs, its duration is the configured period plus a second per extension,
  and there are at most two extensions.
\<close>

definition testing_ok :: "connection_manager \<Rightarrow> bool" where
  "testing_ok cm =
     (case cm_election_state cm of
        ElectionTesting start dur ext \<Rightarrow>
          unat ext \<le> 2 \<and> dur = mo_election_period_ms (cm_options cm) + 1000 * ucast ext
      | _ \<Rightarrow> True)"

definition is_testing :: "connection_manager \<Rightarrow> bool" where
  "is_testing cm = (case cm_election_state cm of ElectionTesting start dur ext \<Rightarrow> True | _ \<Rightarrow> False)"

lemma complete_election_decides: "\<not> is_testing (fst (complete_election now cm))"
  by (auto simp: complete_election_def is_testing_def Let_def split: sum.split)

lemma ext_cases: "unat (ext :: u32) \<le> 2 \<Longrightarrow> ext = 0 \<or> ext = 1 \<or> ext = 2"
proof -
  assume "unat ext \<le> 2"
  then have "unat ext = 0 \<or> unat ext = 1 \<or> unat ext = 2" by auto
  then have "ext = of_nat 0 \<or> ext = of_nat 1 \<or> ext = of_nat 2"
    by (metis of_nat_unat ucast_id)
  then show ?thesis by simp
qed

lemma testing_ok_check: "testing_ok cm \<Longrightarrow> testing_ok (fst (check_and_complete_election now cm))"
  using complete_election_decides [of now cm]
  by (auto simp: check_and_complete_election_def testing_ok_def is_testing_def Let_def
      ELECTION_MAX_EXTENSIONS_def algebra_simps split: election_state.splits dest!: ext_cases)

lemma late_check:
  assumes ok: "testing_ok cm" and t: "cm_election_state cm = ElectionTesting start dur ext"
    and period: "unat (mo_election_period_ms (cm_options cm)) + 2000 < 2 ^ 64"
    and late: "start + real (unat (mo_election_period_ms (cm_options cm))) + 2000 \<le> now"
  shows "is_testing (fst (check_and_complete_election now cm)) \<Longrightarrow>
           \<exists>dur'. cm_election_state (fst (check_and_complete_election now cm)) =
              ElectionTesting start dur' (ext + 1) \<and> unat (ext + 1) = Suc (unat ext)"
proof -
  have ext: "ext = 0 \<or> ext = 1 \<or> ext = 2" using ok t ext_cases by (auto simp: testing_ok_def)
  have "unat dur \<le> unat (mo_election_period_ms (cm_options cm)) + 2000"
    using ext ok t period by (auto simp: testing_ok_def unat_word_ariths)
  then have "\<not> now - start < real (unat dur)" using late by linarith
  moreover assume "is_testing (fst (check_and_complete_election now cm))"
  ultimately show ?thesis
    using t ext complete_election_decides [of now cm]
    by (auto simp: check_and_complete_election_def Let_def ELECTION_MAX_EXTENSIONS_def is_testing_def
        split: if_splits)
qed

lemma options_event [simp]: "cm_options (fst (manager_event P enc dec ev cm)) = cm_options cm"
  by (cases ev) (auto simp: transport_connected_def manager_disconnect_def split_beta
      split: sum.split dest!: manager_set_frame dest: update_active_frame)

lemma get_connection_state_testing:
  "is_testing cm \<Longrightarrow> \<exists>p n m. get_connection_state now cm = UiTesting p n m"
  by (auto simp: is_testing_def get_connection_state_def split: election_state.splits)

lemma testing_event:
  assumes "is_testing cm" and "\<forall>now. ev \<noteq> Tick100 now"
  shows "cm_election_state (fst (manager_event P enc dec ev cm)) = cm_election_state cm"
proof (cases ev)
  case (Tick1Hz opens now)
  have "is_testing (process_queued_rtt_responses cm)"
    using assms(1) by (simp add: is_testing_def)
  then show ?thesis
    using Tick1Hz get_connection_state_testing [of "process_queued_rtt_responses cm" now]
    by (auto simp: timer_1hz_def trigger_diagnostics_report_def Let_def)
qed (use assms in \<open>auto simp: transport_connected_def manager_disconnect_def split_beta
      split: sum.split dest!: manager_set_frame dest: update_active_frame\<close>)

lemma testing_ok_cong:
  "cm_election_state cm' = cm_election_state cm \<Longrightarrow> cm_options cm' = cm_options cm \<Longrightarrow>
   testing_ok cm' = testing_ok cm"
  by (simp add: testing_ok_def split: election_state.split)

lemma testing_ok_event:
  assumes "testing_ok cm"
  shows "testing_ok (fst (manager_event P enc dec ev cm))"
proof (cases "is_testing cm")
  case True
  show ?thesis
  proof (cases "\<exists>now. ev = Tick100 now")
    case False
    then show ?thesis
      using assms testing_ok_cong [OF testing_event [OF True, of ev P enc dec] options_event] by blast
  qed (use testing_ok_check [OF assms] in \<open>auto simp: timer_100ms_def\<close>)
next
  case False
  have fresh: "testing_ok (start_reelection opens now cm')"
    if "testing_ok cm'" for opens now cm'
    using that by (simp add: start_reelection_def testing_ok_def Let_def split: option.split)
  have idle: "testing_ok cm'"
    if "cm_election_state cm' = cm_election_state cm" for cm'
    using that False by (auto simp: testing_ok_def is_testing_def split: election_state.split)
  show ?thesis
  proof (cases ev)
    case (Tick1Hz opens now)
    then show ?thesis
      by (simp add: timer_1hz_def trigger_diagnostics_report_def Let_def split_beta fresh idle
          split: ui_state.split)
  next
    case (Tick100 now)
    then show ?thesis using testing_ok_check [OF assms] by (simp add: timer_100ms_def)
  qed (auto simp: transport_connected_def manager_disconnect_def split_beta
      split: sum.split dest!: manager_set_frame dest: update_active_frame intro!: idle)
qed

lemma testing_ok_run_loop:
  assumes "testing_ok (fst s)"
  shows "testing_ok (fst (fst (run_loop n opens now random dropped busy s)))"
proof -
  have same: "testing_ok (cm\<lparr>cm_reconnection_phase := ph\<rparr>) = testing_ok cm" for cm ph
    by (rule testing_ok_cong) simp_all
  have "testing_ok (fst (snd (loop_head l (fst s))))" for l
    using assms by (simp add: loop_head_def Let_def same)
  moreover have "testing_ok (fst (reset_and_start_election opens now (fst s)))"
    by (simp add: reset_and_start_election_def start_election_def Let_def testing_ok_def)
  then have "testing_ok (fst (snd (loop_after_backoff opens now dropped busy l (fst s))))" for l
    using assms by (simp add: loop_after_backoff_def Let_def split_beta same)
  moreover have "testing_ok (fst (snd (loop_after_election random now busy l (fst s))))" for l
    using assms by (rule_tac loop_after_election_outcomes [of random now busy l "fst s"]) (simp_all add: same)
  ultimately show ?thesis
    using assms by (cases s; cases "snd s ! n")
      (auto simp: run_loop_def split: prod.split option.split loop_pc.split backoff_outcome.split; metis fst_conv snd_conv)
qed

lemma testing_ok_step: "testing_ok (fst s) \<Longrightarrow> testing_ok (fst (client_step P enc dec s ev))"
  using testing_ok_event [of "fst s" P enc dec ev]
  by (cases ev) (simp_all add: client_event_step_def testing_ok_run_loop split_beta)

interpretation elections: invariant_system "client_step P enc dec" "\<lambda>s. testing_ok (fst s)" "\<lambda>ev. True"
  for P enc dec
  by unfold_locales (rule testing_ok_step)

lemma testing_ok_start: "testing_ok (fst (client_start opens now cm))"
  by (simp add: client_start_def initialize_manager_def start_election_def Let_def testing_ok_def)

lemma rtts_ok_start: "rtts_ok cm \<Longrightarrow> rtts_ok (fst (client_start opens now cm))"
  using rtts_ok_create_all [of cm opens]
  by (simp add: client_start_def initialize_manager_def start_election_def Let_def rtts_ok_def)

lemma rtts_ok_new: "connection_manager_new t opts = Inr cm \<Longrightarrow> rtts_ok cm"
  by (auto simp: connection_manager_new_def rtts_ok_def split: if_splits)

section \<open>Every election decides\<close>

definition is_loop_step :: "client_event \<Rightarrow> bool" where
  "is_loop_step ev = (case ev of LoopStep n opens now random dropped busy \<Rightarrow> True | _ \<Rightarrow> False)"

definition late_tick :: "real \<Rightarrow> client_event \<Rightarrow> bool" where
  "late_tick deadline ev = (case ev of Tick100 now \<Rightarrow> deadline \<le> now | _ \<Rightarrow> False)"

lemma step_manager:
  "\<not> is_loop_step ev \<Longrightarrow> fst (client_step P enc dec s ev) = fst (manager_event P enc dec ev (fst s))"
  by (cases ev) (simp_all add: client_event_step_def is_loop_step_def split_beta)

lemma election_step:
  assumes ok: "testing_ok (fst s)" and t: "cm_election_state (fst s) = ElectionTesting start dur ext"
    and period: "unat (mo_election_period_ms (cm_options (fst s))) + 2000 < 2 ^ 64"
    and deadline: "deadline = start + real (unat (mo_election_period_ms (cm_options (fst s)))) + 2000"
    and ev: "\<not> is_loop_step ev" and go: "is_testing (fst (client_step P enc dec s ev))"
  shows "\<exists>dur' ext'. cm_election_state (fst (client_step P enc dec s ev)) = ElectionTesting start dur' ext' \<and>
           (if late_tick deadline ev then Suc (unat ext) else unat ext) \<le> unat ext'"
proof (cases "\<exists>now. ev = Tick100 now")
  case True
  then obtain now where [simp]: "ev = Tick100 now" by blast
  have st: "fst (client_step P enc dec s ev) = fst (check_and_complete_election now (fst s))"
    using step_manager [OF ev, of P enc dec s] by (simp add: timer_100ms_def)
  show ?thesis
  proof (cases "deadline \<le> now")
    case True
    then show ?thesis
      using late_check [OF ok t period, of now] go deadline st by (fastforce simp: late_tick_def)
  next
    case False
    then show ?thesis
      using go st t ext_cases [of ext] ok complete_election_decides [of now "fst s"]
      by (auto simp: late_tick_def check_and_complete_election_def Let_def testing_ok_def
          split: if_splits)
  qed
next
  case False
  then show ?thesis
    using testing_event [of "fst s" ev P enc dec] t
      step_manager [OF ev, of P enc dec s]
    by (cases ev) (auto simp: is_testing_def late_tick_def)
qed

lemma election_run:
  assumes "testing_ok (fst s)" and "cm_election_state (fst s) = ElectionTesting start dur ext"
    and "unat (mo_election_period_ms (cm_options (fst s))) + 2000 < 2 ^ 64"
    and "deadline = start + real (unat (mo_election_period_ms (cm_options (fst s)))) + 2000"
    and "list_all (\<lambda>ev. \<not> is_loop_step ev) evs"
    and "3 \<le> unat ext + length (filter (late_tick deadline) evs)"
  shows "\<exists>n \<le> length evs. \<not> is_testing (fst (foldl (client_step P enc dec) s (take n evs)))"
  using assms
proof (induction evs arbitrary: s dur ext)
  case Nil
  then show ?case by (simp add: testing_ok_def)
next
  case (Cons ev evs)
  let ?s = "client_step P enc dec s ev"
  show ?case
  proof (cases "is_testing (fst ?s)")
    case False
    then show ?thesis by (intro exI [of _ 1]) simp
  next
    case True
    have ev: "\<not> is_loop_step ev" using Cons.prems(5) by simp
    have opts: "cm_options (fst ?s) = cm_options (fst s)"
      using step_manager [OF ev, of P enc dec s] by simp
    obtain dur' ext' where t': "cm_election_state (fst ?s) = ElectionTesting start dur' ext'"
      and more: "(if late_tick deadline ev then Suc (unat ext) else unat ext) \<le> unat ext'"
      using election_step [OF Cons.prems(1-4) ev True] by blast
    have "\<exists>n \<le> length evs. \<not> is_testing (fst (foldl (client_step P enc dec) ?s (take n evs)))"
      using Cons.prems more
      by (intro Cons.IH [OF testing_ok_step [OF Cons.prems(1)] t']) (auto simp: opts split: if_splits)
    then show ?thesis by (auto intro: exI [of _ "Suc n" for n])
  qed
qed

section \<open>The outcome of an election\<close>

lemma complete_election_winner:
  assumes "find_best_connection cm = Inr (i, m)"
  shows "cm_election_state (fst (complete_election now cm)) = Elected i now"
    and "cm_active_connection_id (fst (complete_election now cm)) = Some i"
    and "cm_old_active_connection (fst (complete_election now cm)) = None"
    and "cm_baseline_rtt (fst (complete_election now cm)) = sr_average_rtt m"
    and "set (map fst (cm_connections (fst (complete_election now cm)))) \<subseteq> {i}"
    and "map_of (cm_connections cm) i = Some c \<Longrightarrow>
           \<exists>c'. map_of (cm_connections (fst (complete_election now cm))) i = Some c' \<and>
             cn_serial c' = cn_serial c \<and> cn_status c' = cn_status c \<and>
             cn_heartbeat c' = Some (mo_userid (cm_options cm))"
proof -
  have keep: "map_of (filter (\<lambda>(j, c). j = i) al) i = map_of al i" for al :: "(string \<times> connection) list"
    by (induction al) auto
  define cm2 where "cm2 = (update_rtt i (\<lambda>m. m\<lparr>sr_active := True\<rparr>)
      (cm\<lparr>cm_active_connection_id := Some i\<rparr>))\<lparr>cm_election_state := Elected i now\<rparr>"
  assume c: "map_of (cm_connections cm) i = Some c"
  then have "map_of (cm_connections cm2) i = Some c" by (simp add: cm2_def)
  then have "\<exists>c1. map_of (cm_connections (apply_pending_session i cm2)) i = Some c1 \<and>
      cn_serial c1 = cn_serial c \<and> cn_status c1 = cn_status c"
    by (auto simp: apply_pending_session_def update_connection_def conn_set_session_id_def
        split: option.split)
  then obtain c1 where c1: "map_of (cm_connections (apply_pending_session i cm2)) i = Some c1"
      "cn_serial c1 = cn_serial c" "cn_status c1 = cn_status c"
    by blast
  have "map_of (cm_connections (fst (complete_election now cm))) i =
      Some (start_heartbeat (mo_userid (cm_options cm)) c1)"
    using assms c1(1) by (simp add: complete_election_def Let_def close_unused_connections_def keep
        update_connection_def cm2_def)
  then show "\<exists>c'. map_of (cm_connections (fst (complete_election now cm))) i = Some c' \<and>
             cn_serial c' = cn_serial c \<and> cn_status c' = cn_status c \<and>
             cn_heartbeat c' = Some (mo_userid (cm_options cm))"
    using c1 by (simp add: start_heartbeat_def)
qed (use assms in \<open>auto simp: complete_election_def Let_def close_unused_connections_def\<close>)

text \<open>A client with one WebSocket and one WebTransport server, for the witnesses.\<close>

definition demo_options :: manager_options where
  "demo_options = \<lparr>mo_websocket_urls = [''wss://a''], mo_webtransport_urls = [''https://b''],
     mo_userid = ''u'', mo_election_period_ms = 3000\<rparr>"

definition demo_manager :: connection_manager where
  "demo_manager =
     \<lparr>cm_connections = [], cm_active_connection_id = None, cm_rtt_measurements = [],
      cm_election_state = ElectionFailed ''Not started'' 0, cm_rtt_responses = [],
      cm_options = demo_options, cm_own_session_id = None, cm_pending_session_ids = [],
      cm_reconnection_phase = Idle, cm_baseline_rtt = None, cm_degradation_counter = 0,
      cm_reelection_in_progress = False, cm_old_active_connection = None,
      cm_intentionally_disconnected = False, cm_next_serial = 0\<rparr>"

lemma demo_manager_new: "connection_manager_new 0 demo_options = Inr demo_manager"
  by (simp add: connection_manager_new_def demo_manager_def demo_options_def total_server_count_def)

lemma show_nat_0 [simp]: "show_nat 0 = ''0''"
  by (simp add: show_nat.simps)

lemma demo_start:
  "client_start (\<lambda>_ _. True) 0 demo_manager =
     (demo_manager\<lparr>cm_connections := [(''ws_0'', connection_connect 0 False ''wss://a''),
                     (''wt_0'', connection_connect 1 True ''https://b'')],
        cm_rtt_measurements := [(''ws_0'', new_measurement ''wss://a'' False ''ws_0''),
                     (''wt_0'', new_measurement ''https://b'' True ''wt_0'')],
        cm_next_serial := 2, cm_election_state := ElectionTesting 0 3000 0\<rparr>, [])"
  by (simp add: client_start_def initialize_manager_def start_election_def create_all_connections_def
      open_connection_def demo_manager_def demo_options_def Let_def)

definition demo_proto :: proto where
  "demo_proto = ref_proto\<lparr>parse_media :=
     \<lambda>_. Some (default_media_packet\<lparr>med_media_type := media_type_value RTT, med_timestamp := 10\<rparr>)\<rparr>"

definition demo_loss :: "client_event list" where
  "demo_loss =
     [TransportUp 0, InboundPacket 50 ''ws_0'' (default_packet_wrapper\<lparr>pw_user_id := as_bytes ''u''\<rparr>),
      InboundPacket 70 ''ws_0'' (default_packet_wrapper\<lparr>pw_user_id := as_bytes ''u''\<rparr>),
      Tick1Hz (\<lambda>_ _. True) 1000, Tick100 3000,
      TransportLost 0 ''ws_0'' ''wss://a'']"

abbreviation demo_run :: "client_event list \<Rightarrow> client" where
  "demo_run evs \<equiv> foldl (client_step demo_proto Some Some) (client_start (\<lambda>_ _. True) 0 demo_manager) evs"

lemmas demo_simps =
  demo_manager_def demo_options_def demo_proto_def client_event_step_def transport_connected_def
  set_status_def on_connected_tap_def on_lost_tap_def connection_connect_def new_measurement_def
  inbound_media_callback_def timer_1hz_def timer_100ms_def trigger_diagnostics_report_def
  process_queued_rtt_responses_def handle_rtt_response_def record_rtt_def update_rtt_def
  get_connection_state_def check_and_complete_election_def complete_election_def
  find_best_connection_def consider_candidate_def beats_def conn_is_connected_def
  apply_pending_session_def update_connection_def close_unused_connections_def start_heartbeat_def
  report_state_def transport_lost_def connection_lost_callback_def spawned_def Let_def
  RTT_SANITY_MAX_MS_def ELECTION_MIN_RTT_SAMPLES_def ELECTION_MAX_EXTENSIONS_def

definition demo_pong :: media_packet where
  "demo_pong = default_media_packet\<lparr>med_media_type := media_type_value RTT, med_timestamp := 10\<rparr>"

definition demo_testing :: "(string \<times> media_packet \<times> real) list \<Rightarrow> server_rtt \<Rightarrow> connection_manager" where
  "demo_testing responses m = demo_manager\<lparr>
     cm_connections := [(''ws_0'', on_connected_tap (connection_connect 0 False ''wss://a'')),
                        (''wt_0'', connection_connect 1 True ''https://b'')],
     cm_rtt_measurements := [(''ws_0'', m), (''wt_0'', new_measurement ''https://b'' True ''wt_0'')],
     cm_next_serial := 2, cm_election_state := ElectionTesting 0 3000 0, cm_rtt_responses := responses\<rparr>"

definition demo_measured :: server_rtt where
  "demo_measured = (new_measurement ''wss://a'' False ''ws_0'')
     \<lparr>sr_measurements := [40, 60], sr_average_rtt := Some 50\<rparr>"

definition demo_elected :: connection_manager where
  "demo_elected = demo_manager\<lparr>
     cm_connections := [(''ws_0'', start_heartbeat ''u'' (on_connected_tap (connection_connect 0 False ''wss://a'')))],
     cm_rtt_measurements := [(''ws_0'', demo_measured\<lparr>sr_active := True\<rparr>),
                             (''wt_0'', new_measurement ''https://b'' True ''wt_0'')],
     cm_next_serial := 2, cm_election_state := Elected ''ws_0'' 3000,
     cm_active_connection_id := Some ''ws_0'', cm_baseline_rtt := Some 50\<rparr>"

lemma demo_step1:
  "client_step demo_proto Some Some (client_start (\<lambda>_ _. True) 0 demo_manager) (TransportUp 0) =
     (demo_testing [] (new_measurement ''wss://a'' False ''ws_0''), [])"
  unfolding demo_start
  by (simp add: demo_testing_def demo_simps)

lemma demo_step2:
  "client_step demo_proto Some Some (demo_testing rs m, [])
     (InboundPacket t ''ws_0'' (default_packet_wrapper\<lparr>pw_user_id := as_bytes ''u''\<rparr>)) =
     (demo_testing (rs @ [(''ws_0'', demo_pong, t)]) m, [])"
  by (simp add: demo_testing_def demo_pong_def demo_simps default_packet_wrapper_def)

lemma demo_step3:
  "client_step demo_proto Some Some
     (demo_testing [(''ws_0'', demo_pong, 50), (''ws_0'', demo_pong, 70)]
       (new_measurement ''wss://a'' False ''ws_0''), []) (Tick1Hz (\<lambda>_ _. True) 1000) =
     (demo_testing [] demo_measured, [])"
  by (simp add: demo_testing_def demo_measured_def demo_pong_def demo_simps)

lemma demo_step4:
  "client_step demo_proto Some Some (demo_testing [] demo_measured, []) (Tick100 3000) = (demo_elected, [])"
  by (simp add: demo_testing_def demo_measured_def demo_elected_def demo_simps)

lemma demo_step5:
  "client_step demo_proto Some Some (demo_elected, []) (TransportLost 0 ''ws_0'' ''wss://a'') =
     (fst (transport_lost 0 ''ws_0'' ''wss://a'' demo_elected), [(AtHead, reconnect_loop_start ''wss://a'')])"
  by (simp add: demo_elected_def demo_simps)

lemma demo_elects: "demo_run (take 5 demo_loss) = (demo_elected, [])"
  by (simp add: demo_loss_def demo_step1 demo_step2 demo_step3 demo_step4)

lemma demo_reconnects:
  "demo_run demo_loss = (fst (transport_lost 0 ''ws_0'' ''wss://a'' demo_elected), [(AtHead, reconnect_loop_start ''wss://a'')])"
  by (simp add: demo_loss_def demo_step1 demo_step2 demo_step3 demo_step4 demo_step5)

text \<open>
  Two behaviours of the manager that its comments exclude. A re-election opens its candidates under
  the identifiers of the connections they replace, so the active identifier now names a candidate
  that is still connecting and packets are dropped, although the old connection is kept. And a
  disconnect during an election leaves the measurements, from which the next check elects a
  connection that no longer exists.
\<close>

lemma reelection_silences_media:
  "manager_send_packet p demo_elected = Inr [SendStream 0 p]"
  "manager_send_packet p (start_reelection (\<lambda>_ _. True) t demo_elected) = Inr []"
  "cm_old_active_connection (start_reelection (\<lambda>_ _. True) t demo_elected) =
     Some (''ws_0'', the (get_active_connection demo_elected))"
  by (simp_all add: demo_elected_def manager_send_packet_def get_active_connection_def
      conn_send_packet_def start_reelection_def create_all_connections_def open_connection_def demo_simps)

lemma disconnect_during_election_elects:
  "manager_is_connected (fst (timer_100ms 3000 (manager_disconnect (demo_testing [] demo_measured))))"
  "cm_connections (fst (timer_100ms 3000 (manager_disconnect (demo_testing [] demo_measured)))) = []"
  by (simp_all add: manager_disconnect_def manager_is_connected_def demo_testing_def demo_measured_def
      demo_simps)



text \<open>C21: One reconnection at a time, with bounded backoff. Whatever happens to the client from its
  start on, at most one reconnection task is alive, and while it is, the manager is reconnecting
  or the user has left; its delay is always between half a second and thirty seconds.\<close>

theorem one_reconnection_task:
  assumes "connection_manager_new t0 opts = Inr cm0" and "list_all event_ok evs"
  shows "\<exists>cm ls. foldl (client_step P enc dec) (client_start opens t1 cm0) evs = (cm, ls) \<and>
           length ls \<le> 1 \<and>
           (ls \<noteq> [] \<longrightarrow> cm_intentionally_disconnected cm \<or>
              (\<exists>attempt delay. cm_reconnection_phase cm = Reconnecting attempt delay)) \<and>
           list_all (\<lambda>(pc, l). 500 \<le> unat (rl_delay_ms l) \<and> unat (rl_delay_ms l) \<le> 30000) ls"
proof -
  have "loops_ok (foldl (client_step P enc dec) (client_start opens t1 cm0) evs)"
    using reconnection.run_inv [OF loops_ok_start assms(2)] .
  then show ?thesis
    by (cases "foldl (client_step P enc dec) (client_start opens t1 cm0) evs")
       (auto simp: loops_ok_def is_reconnecting_def split: reconnection_phase.splits)
qed

theorem one_reconnection_task_witness:
  "connection_manager_new 0 demo_options = Inr demo_manager \<and> list_all event_ok demo_loss \<and>
   length (snd (demo_run demo_loss)) = 1 \<and>
   (\<exists>attempt delay. cm_reconnection_phase (fst (demo_run demo_loss)) = Reconnecting attempt delay)"
proof -
  have ok: "list_all event_ok demo_loss" by (simp add: demo_loss_def event_ok_def)
  have "\<not> cm_intentionally_disconnected (fst (demo_run demo_loss))"
    by (simp add: demo_reconnects) (simp add: demo_elected_def demo_manager_def)
  then show ?thesis
    using one_reconnection_task [OF demo_manager_new ok, of demo_proto Some Some "\<lambda>_ _. True" 0]
      demo_manager_new ok
    by (auto simp: demo_reconnects)
qed

text \<open>C23: Leaving ends reconnection. After the user has left, no event starts a reconnection task
  and the one that may be alive ends within its next two steps, without opening a connection,
  whatever else happens in between.\<close>

theorem leaving_ends_reconnection:
  assumes "list_all event_ok evs"
    and "left = client_step P enc dec (foldl (client_step P enc dec) (client_start opens t1 cm0) evs) LeaveCall"
  shows "cm_intentionally_disconnected (fst (foldl (client_step P enc dec) left evs')) \<and>
         spawned (snd (manager_event P enc dec ev (fst (foldl (client_step P enc dec) left evs')))) = [] \<and>
         (2 \<le> length (filter steps_first_loop evs') \<longrightarrow> snd (foldl (client_step P enc dec) left evs') = []) \<and>
         (\<forall>n opens now random dropped busy.
            cm_next_serial (fst (client_step P enc dec (foldl (client_step P enc dec) left evs')
                                   (LoopStep n opens now random dropped busy))) =
            cm_next_serial (fst (foldl (client_step P enc dec) left evs')))"
proof -
  have ok: "loops_ok left"
    using reconnection.run_inv [OF loops_ok_start assms(1)] loops_ok_leave assms(2) by blast
  then have l: "left_state left"
    by (simp add: left_state_def loops_ok_def) (simp add: assms(2) step_leave manager_disconnect_def)
  let ?s = "foldl (client_step P enc dec) left evs'"
  have s: "left_state ?s" "loop_work ?s \<le> loop_work left - length (filter steps_first_loop evs')"
    using left_run [OF l] by blast+
  have "snd ?s = []" if "2 \<le> length (filter steps_first_loop evs')"
    using s(2) that loop_work_le [OF ok] by (intro loop_work_0) simp
  then show ?thesis
    using s(1) left_spawns_nothing [OF s(1)] left_loop_opens_nothing [OF s(1)]
    by (simp add: left_state_def step_loop)
qed

theorem leaving_ends_reconnection_witness:
  "length (snd (client_step demo_proto Some Some (demo_run demo_loss) LeaveCall)) = 1 \<and>
   (let step = \<lambda>t. LoopStep 0 (\<lambda>_ _. True) t (1 / 2) False False
    in snd (foldl (client_step demo_proto Some Some)
              (client_step demo_proto Some Some (demo_run demo_loss) LeaveCall) [step 1, Tick200 2, step 3]) = [])"
proof -
  have ok: "list_all event_ok demo_loss" by (simp add: demo_loss_def event_ok_def)
  let ?step = "\<lambda>t. LoopStep 0 (\<lambda>_ _. True) t (1 / 2) False False"
  have "2 \<le> length (filter steps_first_loop [?step 1, Tick200 2, ?step 3])"
    by (simp add: steps_first_loop_def)
  then show ?thesis
    using leaving_ends_reconnection [OF ok refl, where evs' = "[?step 1, Tick200 2, ?step 3]"
        and opens = "\<lambda>_ _. True" and ?t1.0 = 0 and ?cm0.0 = demo_manager and P = demo_proto and enc = Some and dec = Some]
    unfolding Let_def by (simp only: demo_reconnects step_leave) simp
qed

text \<open>C24: Every election decides. From any state the client can reach in which an election runs,
  however the events are interleaved, as long as no reconnection restarts the election: once three
  of the ten-per-second checks have happened later than the election period and its two one-second
  extensions, the election has been decided.\<close>

theorem election_decides:
  assumes "s = foldl (client_step P enc dec) (client_start opens t1 cm0) evs0"
    and "cm_election_state (fst s) = ElectionTesting start dur ext"
    and "period = unat (mo_election_period_ms (cm_options (fst s)))" and "period + 2000 < 2 ^ 64"
    and "list_all (\<lambda>ev. \<not> is_loop_step ev) evs"
    and "3 \<le> length (filter (late_tick (start + real period + 2000)) evs)"
  shows "\<exists>n \<le> length evs. \<not> is_testing (fst (foldl (client_step P enc dec) s (take n evs)))"
proof (rule election_run [OF _ assms(2) _ refl assms(5)])
  show "testing_ok (fst s)"
    unfolding assms(1) by (rule elections.run_inv [OF testing_ok_start]) (simp add: list_all_iff)
qed (use assms in simp_all)

theorem election_decides_witness:
  "\<exists>n \<le> 4. \<not> is_testing (fst (demo_run (take n [Tick100 6000, Tick200 6000, Tick100 6000, Tick100 6000])))"
proof -
  let ?evs = "[Tick100 6000, Tick200 6000, Tick100 6000, Tick100 6000]"
  have "cm_election_state (fst (client_start (\<lambda>_ _. True) 0 demo_manager)) = ElectionTesting 0 3000 0"
    by (simp add: demo_start)
  moreover have "3000 = unat (mo_election_period_ms (cm_options (fst (client_start (\<lambda>_ _. True) 0 demo_manager))))"
    by (simp add: demo_start) (simp add: demo_manager_def demo_options_def)
  ultimately have "\<exists>n \<le> length ?evs. \<not> is_testing (fst (demo_run (take n ?evs)))"
    by (rule election_decides [where ?evs0.0 = "[]" and opens = "\<lambda>_ _. True" and ?t1.0 = 0 and ?cm0.0 = demo_manager, rotated])
       (simp_all add: late_tick_def is_loop_step_def)
  moreover have "length ?evs = 4" by simp
  ultimately show ?thesis by (simp only:)
qed

text \<open>Round-trip statistics stay sane. In every state the client can reach, each server has at most
  ten samples, all between zero and ten seconds, its average exists exactly when there is a sample,
  is their mean, and lies in the same range.\<close>

theorem rtt_statistics:
  assumes "connection_manager_new t0 opts = Inr cm0"
    and "(i, m) \<in> set (cm_rtt_measurements (fst (foldl (client_step P enc dec) (client_start opens t1 cm0) evs)))"
  shows "length (sr_measurements m) \<le> 10 \<and>
         list_all (\<lambda>x. 0 \<le> x \<and> x \<le> RTT_SANITY_MAX_MS) (sr_measurements m) \<and>
         (case sr_average_rtt m of
            None \<Rightarrow> sr_measurements m = []
          | Some a \<Rightarrow> sr_measurements m \<noteq> [] \<and> a * real (length (sr_measurements m)) = sum_list (sr_measurements m) \<and>
                      0 \<le> a \<and> a \<le> RTT_SANITY_MAX_MS)"
proof -
  have "rtts_ok (fst (foldl (client_step P enc dec) (client_start opens t1 cm0) evs))"
    using measurements.run_inv [OF rtts_ok_start [OF rtts_ok_new [OF assms(1)]]] by (simp add: list_all_iff)
  with assms(2) have m: "measurement_ok m" by (auto simp: rtts_ok_def list_all_iff)
  then show ?thesis
    using rtt_mean_bounds [OF m] by (auto simp: measurement_ok_def rtt_mean_def split: option.split if_splits)
qed

theorem rtt_statistics_witness:
  "(''ws_0'', demo_measured\<lparr>sr_active := True\<rparr>) \<in> set (cm_rtt_measurements (fst (demo_run (take 5 demo_loss)))) \<and>
   (case sr_average_rtt (demo_measured\<lparr>sr_active := True\<rparr>) of None \<Rightarrow> False | Some a \<Rightarrow> 0 \<le> a \<and> a \<le> RTT_SANITY_MAX_MS)"
proof -
  have mem: "(''ws_0'', demo_measured\<lparr>sr_active := True\<rparr>) \<in> set (cm_rtt_measurements (fst (demo_run (take 5 demo_loss))))"
    unfolding demo_elects by (simp add: demo_elected_def)
  show ?thesis
    using rtt_statistics [OF demo_manager_new mem] mem by (simp add: demo_measured_def)
qed

end
