(* ===== verification/Adaptive_Quality.thy ===== *)
theory Adaptive_Quality
  imports Complex_Main VC_Prelude
begin

text \<open>
  The quality tiers of the browser client and the state machine that chooses them:
  \<open>videocall-client/src/adaptive_quality_constants.rs\<close> and
  \<open>videocall-client/src/diagnostics/adaptive_quality_manager.rs\<close>.

  \<^item> \<open>f64\<close> values are the real numbers they denote; the clock is an argument.
  \<^item> A tier array is a list, highest quality first. Indexing it panics out of range: \<open>None\<close>.
  \<^item> Logging is not modelled, but the log line of a video transition indexes the array, so it
    can panic.

  The lemmas show what the module promises: no transition during the warm-up, transitions at
  least three seconds apart, a step down only after the conditions were bad for a second and a
  half, audio only degraded once video is at its lowest tier, and no index out of range.
\<close>

section \<open>Tiers and thresholds\<close>

record video_quality_tier =
  vt_label :: string
  vt_max_width :: u32
  vt_max_height :: u32
  vt_target_fps :: u32
  vt_ideal_bitrate_kbps :: u32
  vt_min_bitrate_kbps :: u32
  vt_max_bitrate_kbps :: u32
  vt_keyframe_interval_frames :: u32

definition VIDEO_QUALITY_TIERS :: "video_quality_tier list" where
  "VIDEO_QUALITY_TIERS =
    [\<lparr>vt_label = ''high'', vt_max_width = 1280, vt_max_height = 720, vt_target_fps = 30,
      vt_ideal_bitrate_kbps = 1500, vt_min_bitrate_kbps = 800, vt_max_bitrate_kbps = 2500,
      vt_keyframe_interval_frames = 150\<rparr>,
     \<lparr>vt_label = ''medium'', vt_max_width = 854, vt_max_height = 480, vt_target_fps = 25,
      vt_ideal_bitrate_kbps = 600, vt_min_bitrate_kbps = 300, vt_max_bitrate_kbps = 1000,
      vt_keyframe_interval_frames = 125\<rparr>,
     \<lparr>vt_label = ''low'', vt_max_width = 640, vt_max_height = 360, vt_target_fps = 15,
      vt_ideal_bitrate_kbps = 300, vt_min_bitrate_kbps = 150, vt_max_bitrate_kbps = 500,
      vt_keyframe_interval_frames = 75\<rparr>,
     \<lparr>vt_label = ''minimal'', vt_max_width = 426, vt_max_height = 240, vt_target_fps = 10,
      vt_ideal_bitrate_kbps = 150, vt_min_bitrate_kbps = 50, vt_max_bitrate_kbps = 250,
      vt_keyframe_interval_frames = 50\<rparr>]"

definition DEFAULT_VIDEO_TIER_INDEX :: nat where "DEFAULT_VIDEO_TIER_INDEX = 3"
definition DEFAULT_SCREEN_TIER_INDEX :: nat where "DEFAULT_SCREEN_TIER_INDEX = 2"

definition SCREEN_QUALITY_TIERS :: "video_quality_tier list" where
  "SCREEN_QUALITY_TIERS =
    [\<lparr>vt_label = ''high'', vt_max_width = 1920, vt_max_height = 1080, vt_target_fps = 15,
      vt_ideal_bitrate_kbps = 1500, vt_min_bitrate_kbps = 800, vt_max_bitrate_kbps = 2500,
      vt_keyframe_interval_frames = 75\<rparr>,
     \<lparr>vt_label = ''medium'', vt_max_width = 1280, vt_max_height = 720, vt_target_fps = 10,
      vt_ideal_bitrate_kbps = 600, vt_min_bitrate_kbps = 300, vt_max_bitrate_kbps = 1000,
      vt_keyframe_interval_frames = 50\<rparr>,
     \<lparr>vt_label = ''low'', vt_max_width = 854, vt_max_height = 480, vt_target_fps = 5,
      vt_ideal_bitrate_kbps = 250, vt_min_bitrate_kbps = 100, vt_max_bitrate_kbps = 400,
      vt_keyframe_interval_frames = 25\<rparr>]"

record audio_quality_tier =
  at_label :: string
  at_bitrate_kbps :: u32
  at_enable_dtx :: bool
  at_enable_fec :: bool

definition AUDIO_QUALITY_TIERS :: "audio_quality_tier list" where
  "AUDIO_QUALITY_TIERS =
    [\<lparr>at_label = ''high'', at_bitrate_kbps = 50, at_enable_dtx = True, at_enable_fec = False\<rparr>,
     \<lparr>at_label = ''medium'', at_bitrate_kbps = 32, at_enable_dtx = True, at_enable_fec = True\<rparr>,
     \<lparr>at_label = ''low'', at_bitrate_kbps = 24, at_enable_dtx = True, at_enable_fec = True\<rparr>,
     \<lparr>at_label = ''emergency'', at_bitrate_kbps = 16, at_enable_dtx = True, at_enable_fec = True\<rparr>]"

definition VIDEO_TIER_DEGRADE_FPS_RATIO :: real where "VIDEO_TIER_DEGRADE_FPS_RATIO = 50 / 100"
definition VIDEO_TIER_RECOVER_FPS_RATIO :: real where "VIDEO_TIER_RECOVER_FPS_RATIO = 85 / 100"
definition VIDEO_TIER_DEGRADE_BITRATE_RATIO :: real where "VIDEO_TIER_DEGRADE_BITRATE_RATIO = 40 / 100"
definition VIDEO_TIER_RECOVER_BITRATE_RATIO :: real where "VIDEO_TIER_RECOVER_BITRATE_RATIO = 75 / 100"
definition AUDIO_TIER_DEGRADE_FPS_RATIO :: real where "AUDIO_TIER_DEGRADE_FPS_RATIO = 30 / 100"
definition AUDIO_TIER_RECOVER_FPS_RATIO :: real where "AUDIO_TIER_RECOVER_FPS_RATIO = 60 / 100"
definition STEP_UP_STABILIZATION_WINDOW_MS :: real where "STEP_UP_STABILIZATION_WINDOW_MS = 5000"
definition STEP_DOWN_REACTION_TIME_MS :: real where "STEP_DOWN_REACTION_TIME_MS = 1500"
definition MIN_TIER_TRANSITION_INTERVAL_MS :: real where "MIN_TIER_TRANSITION_INTERVAL_MS = 3000"
definition QUALITY_WARMUP_MS :: real where "QUALITY_WARMUP_MS = 5000"

lemmas tier_consts =
  VIDEO_TIER_DEGRADE_FPS_RATIO_def VIDEO_TIER_RECOVER_FPS_RATIO_def
  VIDEO_TIER_DEGRADE_BITRATE_RATIO_def VIDEO_TIER_RECOVER_BITRATE_RATIO_def
  AUDIO_TIER_DEGRADE_FPS_RATIO_def AUDIO_TIER_RECOVER_FPS_RATIO_def
  STEP_UP_STABILIZATION_WINDOW_MS_def STEP_DOWN_REACTION_TIME_MS_def
  MIN_TIER_TRANSITION_INTERVAL_MS_def QUALITY_WARMUP_MS_def

section \<open>The quality manager\<close>

record adaptive_quality_manager =
  qm_video_tiers :: "video_quality_tier list"
  qm_video_tier_index :: nat
  qm_audio_tier_index :: nat
  qm_last_transition_time_ms :: real
  qm_degrade_start_ms :: "real option"
  qm_recover_start_ms :: "real option"
  qm_audio_degrade_start_ms :: "real option"
  qm_audio_recover_start_ms :: "real option"
  qm_created_at_ms :: real

definition quality_manager_new :: "real \<Rightarrow> video_quality_tier list \<Rightarrow> adaptive_quality_manager" where
  "quality_manager_new now video_tiers =
     \<lparr>qm_video_tiers = video_tiers, qm_video_tier_index = DEFAULT_VIDEO_TIER_INDEX,
      qm_audio_tier_index = 0, qm_last_transition_time_ms = now, qm_degrade_start_ms = None,
      qm_recover_start_ms = None, qm_audio_degrade_start_ms = None,
      qm_audio_recover_start_ms = None, qm_created_at_ms = now\<rparr>"

definition quality_manager_new_for_screen ::
  "real \<Rightarrow> video_quality_tier list \<Rightarrow> adaptive_quality_manager" where
  "quality_manager_new_for_screen now video_tiers =
     \<lparr>qm_video_tiers = video_tiers, qm_video_tier_index = DEFAULT_SCREEN_TIER_INDEX,
      qm_audio_tier_index = 0, qm_last_transition_time_ms = now, qm_degrade_start_ms = None,
      qm_recover_start_ms = None, qm_audio_degrade_start_ms = None,
      qm_audio_recover_start_ms = None, qm_created_at_ms = now\<rparr>"

definition current_video_tier :: "adaptive_quality_manager \<Rightarrow> video_quality_tier option" where
  "current_video_tier qm =
     (if qm_video_tier_index qm < length (qm_video_tiers qm)
      then Some (qm_video_tiers qm ! qm_video_tier_index qm) else None)"

definition current_audio_tier :: "adaptive_quality_manager \<Rightarrow> audio_quality_tier option" where
  "current_audio_tier qm =
     (if qm_audio_tier_index qm < length AUDIO_QUALITY_TIERS
      then Some (AUDIO_QUALITY_TIERS ! qm_audio_tier_index qm) else None)"

definition video_degraded :: "real \<Rightarrow> real \<Rightarrow> bool" where
  "video_degraded fps_ratio bitrate_ratio \<longleftrightarrow>
     fps_ratio < VIDEO_TIER_DEGRADE_FPS_RATIO \<or> bitrate_ratio < VIDEO_TIER_DEGRADE_BITRATE_RATIO"

definition video_recovered :: "real \<Rightarrow> real \<Rightarrow> bool" where
  "video_recovered fps_ratio bitrate_ratio \<longleftrightarrow>
     fps_ratio > VIDEO_TIER_RECOVER_FPS_RATIO \<and> bitrate_ratio > VIDEO_TIER_RECOVER_BITRATE_RATIO"

definition get_or_insert :: "real option \<Rightarrow> real \<Rightarrow> real" where
  "get_or_insert r now = (case r of None \<Rightarrow> now | Some t \<Rightarrow> t)"

text \<open>The second half of \<open>update_video_tier\<close>, after the step down.\<close>

definition video_step_up ::
  "real \<Rightarrow> real \<Rightarrow> real \<Rightarrow> bool \<Rightarrow> adaptive_quality_manager \<Rightarrow> bool \<times> adaptive_quality_manager" where
  "video_step_up fps_ratio bitrate_ratio now can_transition qm =
     (if video_recovered fps_ratio bitrate_ratio \<and> 0 < qm_video_tier_index qm
      then
        let recover_start = get_or_insert (qm_recover_start_ms qm) now;
            qm1 = qm\<lparr>qm_recover_start_ms := Some recover_start\<rparr>
        in if STEP_UP_STABILIZATION_WINDOW_MS \<le> now - recover_start \<and> can_transition
           then (True, qm1\<lparr>qm_video_tier_index := qm_video_tier_index qm - 1,
                           qm_last_transition_time_ms := now, qm_recover_start_ms := None,
                           qm_degrade_start_ms := None\<rparr>)
           else (False, qm1)
      else (False, qm\<lparr>qm_recover_start_ms := None\<rparr>))"

text \<open>\<open>None\<close> is the panic of the log line that indexes the tiers.\<close>

definition update_video_tier ::
  "real \<Rightarrow> real \<Rightarrow> real \<Rightarrow> bool \<Rightarrow> adaptive_quality_manager \<Rightarrow> (bool \<times> adaptive_quality_manager) option" where
  "update_video_tier fps_ratio bitrate_ratio now can_transition qm =
     (let max_video_index = length (qm_video_tiers qm) - 1;
          logged = (\<lambda>(changed, qm). if changed \<and> current_video_tier qm = None then None
                                    else Some (changed, qm))
      in if video_degraded fps_ratio bitrate_ratio \<and> qm_video_tier_index qm < max_video_index
         then
           let degrade_start = get_or_insert (qm_degrade_start_ms qm) now;
               qm1 = qm\<lparr>qm_degrade_start_ms := Some degrade_start\<rparr>
           in if STEP_DOWN_REACTION_TIME_MS \<le> now - degrade_start \<and> can_transition
              then logged (True, qm1\<lparr>qm_video_tier_index := qm_video_tier_index qm + 1,
                                     qm_last_transition_time_ms := now, qm_degrade_start_ms := None,
                                     qm_recover_start_ms := None\<rparr>)
              else logged (video_step_up fps_ratio bitrate_ratio now can_transition qm1)
         else logged (video_step_up fps_ratio bitrate_ratio now can_transition
                        (qm\<lparr>qm_degrade_start_ms := None\<rparr>)))"

definition audio_step_up ::
  "real \<Rightarrow> real \<Rightarrow> bool \<Rightarrow> adaptive_quality_manager \<Rightarrow> bool \<times> adaptive_quality_manager" where
  "audio_step_up fps_ratio now can_transition qm =
     (if fps_ratio > AUDIO_TIER_RECOVER_FPS_RATIO \<and> 0 < qm_audio_tier_index qm
      then
        let recover_start = get_or_insert (qm_audio_recover_start_ms qm) now;
            qm1 = qm\<lparr>qm_audio_recover_start_ms := Some recover_start\<rparr>
        in if STEP_UP_STABILIZATION_WINDOW_MS \<le> now - recover_start \<and> can_transition
           then (True, qm1\<lparr>qm_audio_tier_index := qm_audio_tier_index qm - 1,
                           qm_last_transition_time_ms := now, qm_audio_recover_start_ms := None,
                           qm_audio_degrade_start_ms := None\<rparr>)
           else (False, qm1)
      else (False, qm\<lparr>qm_audio_recover_start_ms := None\<rparr>))"

definition update_audio_tier ::
  "real \<Rightarrow> real \<Rightarrow> bool \<Rightarrow> adaptive_quality_manager \<Rightarrow> bool \<times> adaptive_quality_manager" where
  "update_audio_tier fps_ratio now can_transition qm =
     (let max_video_index = length (qm_video_tiers qm) - 1;
          max_audio_index = length AUDIO_QUALITY_TIERS - 1;
          video_at_lowest = (max_video_index \<le> qm_video_tier_index qm)
      in if video_at_lowest \<and> fps_ratio < AUDIO_TIER_DEGRADE_FPS_RATIO \<and>
            qm_audio_tier_index qm < max_audio_index
         then
           let degrade_start = get_or_insert (qm_audio_degrade_start_ms qm) now;
               qm1 = qm\<lparr>qm_audio_degrade_start_ms := Some degrade_start\<rparr>
           in if STEP_DOWN_REACTION_TIME_MS \<le> now - degrade_start \<and> can_transition
              then (True, qm1\<lparr>qm_audio_tier_index := qm_audio_tier_index qm + 1,
                              qm_last_transition_time_ms := now, qm_audio_degrade_start_ms := None,
                              qm_audio_recover_start_ms := None\<rparr>)
              else audio_step_up fps_ratio now can_transition qm1
         else audio_step_up fps_ratio now can_transition (qm\<lparr>qm_audio_degrade_start_ms := None\<rparr>))"

definition quality_update ::
  "real \<Rightarrow> real \<Rightarrow> real \<Rightarrow> real \<Rightarrow> real \<Rightarrow> adaptive_quality_manager \<Rightarrow>
   (bool \<times> adaptive_quality_manager) option" where
  "quality_update received_fps target_fps current_bitrate ideal_bitrate now qm =
     (if now - qm_created_at_ms qm < QUALITY_WARMUP_MS then Some (False, qm)
      else if target_fps \<le> 0 \<or> ideal_bitrate \<le> 0 then Some (False, qm)
      else
        let fps_ratio = received_fps / target_fps;
            bitrate_ratio = current_bitrate / ideal_bitrate;
            can_transition =
              (MIN_TIER_TRANSITION_INTERVAL_MS \<le> now - qm_last_transition_time_ms qm)
        in case update_video_tier fps_ratio bitrate_ratio now can_transition qm of
             None \<Rightarrow> None
           | Some (video_changed, qm1) \<Rightarrow>
               (case update_audio_tier fps_ratio now can_transition qm1 of
                  (audio_changed, qm2) \<Rightarrow> Some (video_changed \<or> audio_changed, qm2)))"

definition force_video_step_down ::
  "real \<Rightarrow> adaptive_quality_manager \<Rightarrow> bool \<times> adaptive_quality_manager" where
  "force_video_step_down now qm =
     (if now - qm_created_at_ms qm < QUALITY_WARMUP_MS then (False, qm)
      else if length (qm_video_tiers qm) - 1 \<le> qm_video_tier_index qm then (False, qm)
      else if now - qm_last_transition_time_ms qm < MIN_TIER_TRANSITION_INTERVAL_MS then (False, qm)
      else (True, qm\<lparr>qm_video_tier_index := qm_video_tier_index qm + 1,
                     qm_last_transition_time_ms := now, qm_degrade_start_ms := None,
                     qm_recover_start_ms := None\<rparr>))"

section \<open>Runs\<close>

text \<open>What drives the manager: measured samples and CONGESTION signals of the server.\<close>

datatype quality_input =
    Sample (received_fps: real) (sample_target_fps: real) (current_bitrate: real) (ideal_bitrate: real)
      (input_time: real)
  | CongestionSignal (input_time: real)

fun quality_step ::
  "quality_input \<Rightarrow> adaptive_quality_manager \<Rightarrow> (bool \<times> adaptive_quality_manager) option" where
  "quality_step (Sample fps tfps br ibr now) qm = quality_update fps tfps br ibr now qm"
| "quality_step (CongestionSignal now) qm = Some (force_video_step_down now qm)"

text \<open>A run, with the inputs that changed a tier; \<open>None\<close> is a panic.\<close>

fun quality_run ::
  "adaptive_quality_manager \<Rightarrow> quality_input list \<Rightarrow> (quality_input list \<times> adaptive_quality_manager) option" where
  "quality_run qm [] = Some ([], qm)"
| "quality_run qm (x # xs) =
     (case quality_step x qm of
        None \<Rightarrow> None
      | Some (changed, qm1) \<Rightarrow>
          (case quality_run qm1 xs of
             None \<Rightarrow> None
           | Some (ys, qm2) \<Rightarrow> Some (if changed then x # ys else ys, qm2)))"

definition tiers_ok :: "adaptive_quality_manager \<Rightarrow> bool" where
  "tiers_ok qm \<longleftrightarrow>
     qm_video_tier_index qm < length (qm_video_tiers qm) \<and>
     qm_audio_tier_index qm < length AUDIO_QUALITY_TIERS"

text \<open>What one step may do to the manager.\<close>

definition step_frame :: "real \<Rightarrow> bool \<Rightarrow> adaptive_quality_manager \<Rightarrow> adaptive_quality_manager \<Rightarrow> bool" where
  "step_frame now changed qm qm' \<longleftrightarrow>
     qm_video_tiers qm' = qm_video_tiers qm \<and> qm_created_at_ms qm' = qm_created_at_ms qm \<and>
     (if changed
      then qm_last_transition_time_ms qm' = now \<and>
           MIN_TIER_TRANSITION_INTERVAL_MS \<le> now - qm_last_transition_time_ms qm \<and>
           QUALITY_WARMUP_MS \<le> now - qm_created_at_ms qm
      else qm_last_transition_time_ms qm' = qm_last_transition_time_ms qm \<and>
           qm_video_tier_index qm' = qm_video_tier_index qm \<and>
           qm_audio_tier_index qm' = qm_audio_tier_index qm)"

lemma video_step_up_frame:
  assumes "video_step_up f b now can qm = (changed, qm')"
  shows "qm_video_tiers qm' = qm_video_tiers qm" "qm_created_at_ms qm' = qm_created_at_ms qm"
    "qm_audio_tier_index qm' = qm_audio_tier_index qm"
    "changed \<Longrightarrow> can \<and> qm_last_transition_time_ms qm' = now \<and> 0 < qm_video_tier_index qm \<and>
       qm_video_tier_index qm' = qm_video_tier_index qm - 1 \<and> qm_degrade_start_ms qm' = None"
    "\<not> changed \<Longrightarrow> qm_last_transition_time_ms qm' = qm_last_transition_time_ms qm \<and>
       qm_video_tier_index qm' = qm_video_tier_index qm \<and>
       qm_degrade_start_ms qm' = qm_degrade_start_ms qm"
  using assms by (auto simp: video_step_up_def Let_def split: if_splits)

lemma audio_step_up_frame:
  assumes "audio_step_up f now can qm = (changed, qm')"
  shows "qm_video_tiers qm' = qm_video_tiers qm" "qm_created_at_ms qm' = qm_created_at_ms qm"
    "qm_video_tier_index qm' = qm_video_tier_index qm" "qm_degrade_start_ms qm' = qm_degrade_start_ms qm"
    "changed \<Longrightarrow> can \<and> qm_last_transition_time_ms qm' = now \<and> 0 < qm_audio_tier_index qm \<and>
       qm_audio_tier_index qm' = qm_audio_tier_index qm - 1"
    "\<not> changed \<Longrightarrow> qm_last_transition_time_ms qm' = qm_last_transition_time_ms qm \<and>
       qm_audio_tier_index qm' = qm_audio_tier_index qm"
  using assms by (auto simp: audio_step_up_def Let_def split: if_splits)

text \<open>The three outcomes of the video half of an update.\<close>

lemma update_video_tier_cases:
  assumes "update_video_tier f b now can qm = Some (changed, qm')"
  shows "qm_video_tiers qm' = qm_video_tiers qm \<and> qm_created_at_ms qm' = qm_created_at_ms qm \<and>
     qm_audio_tier_index qm' = qm_audio_tier_index qm \<and>
     (changed \<and> can \<and> qm_last_transition_time_ms qm' = now \<and> qm_degrade_start_ms qm' = None \<and>
        (qm_video_tier_index qm' = Suc (qm_video_tier_index qm) \<and>
           qm_video_tier_index qm < length (qm_video_tiers qm) - 1 \<and> video_degraded f b \<and>
           STEP_DOWN_REACTION_TIME_MS \<le> now - get_or_insert (qm_degrade_start_ms qm) now \<or>
         0 < qm_video_tier_index qm \<and> qm_video_tier_index qm' = qm_video_tier_index qm - 1) \<or>
      \<not> changed \<and> qm_last_transition_time_ms qm' = qm_last_transition_time_ms qm \<and>
        qm_video_tier_index qm' = qm_video_tier_index qm \<and>
        (qm_degrade_start_ms qm' = None \<or>
           video_degraded f b \<and> qm_degrade_start_ms qm' = Some (get_or_insert (qm_degrade_start_ms qm) now)))"
proof -
  let ?down = "video_degraded f b \<and> qm_video_tier_index qm < length (qm_video_tiers qm) - 1"
  let ?start = "get_or_insert (qm_degrade_start_ms qm) now"
  let ?qm1 = "if ?down then qm\<lparr>qm_degrade_start_ms := Some ?start\<rparr> else qm\<lparr>qm_degrade_start_ms := None\<rparr>"
  show ?thesis
  proof (cases "?down \<and> STEP_DOWN_REACTION_TIME_MS \<le> now - ?start \<and> can")
    case True
    then show ?thesis
      using assms by (auto simp: update_video_tier_def Let_def split: if_splits)
  next
    case False
    then have "video_step_up f b now can ?qm1 = (changed, qm')"
      using assms by (auto simp: update_video_tier_def Let_def split: if_splits prod.splits)
    from video_step_up_frame [OF this] show ?thesis
      by (cases changed) (auto split: if_splits)
  qed
qed

lemma update_audio_tier_cases:
  assumes "update_audio_tier f now can qm = (changed, qm')"
  shows "qm_video_tiers qm' = qm_video_tiers qm \<and> qm_created_at_ms qm' = qm_created_at_ms qm \<and>
     qm_video_tier_index qm' = qm_video_tier_index qm \<and> qm_degrade_start_ms qm' = qm_degrade_start_ms qm \<and>
     (changed \<and> can \<and> qm_last_transition_time_ms qm' = now \<and>
        (qm_audio_tier_index qm' = Suc (qm_audio_tier_index qm) \<and>
           qm_audio_tier_index qm < length AUDIO_QUALITY_TIERS - 1 \<and>
           length (qm_video_tiers qm) - 1 \<le> qm_video_tier_index qm \<and> f < AUDIO_TIER_DEGRADE_FPS_RATIO \<or>
         0 < qm_audio_tier_index qm \<and> qm_audio_tier_index qm' = qm_audio_tier_index qm - 1) \<or>
      \<not> changed \<and> qm_last_transition_time_ms qm' = qm_last_transition_time_ms qm \<and>
        qm_audio_tier_index qm' = qm_audio_tier_index qm)"
proof -
  let ?down = "length (qm_video_tiers qm) - 1 \<le> qm_video_tier_index qm \<and>
      f < AUDIO_TIER_DEGRADE_FPS_RATIO \<and> qm_audio_tier_index qm < length AUDIO_QUALITY_TIERS - 1"
  let ?start = "get_or_insert (qm_audio_degrade_start_ms qm) now"
  let ?qm1 = "if ?down then qm\<lparr>qm_audio_degrade_start_ms := Some ?start\<rparr>
              else qm\<lparr>qm_audio_degrade_start_ms := None\<rparr>"
  show ?thesis
  proof (cases "?down \<and> STEP_DOWN_REACTION_TIME_MS \<le> now - ?start \<and> can")
    case True
    then show ?thesis
      using assms by (auto simp: update_audio_tier_def Let_def split: if_splits)
  next
    case False
    then have "audio_step_up f now can ?qm1 = (changed, qm')"
      using assms by (auto simp: update_audio_tier_def Let_def split: if_splits)
    from audio_step_up_frame [OF this] show ?thesis
      by (cases changed) (auto split: if_splits)
  qed
qed

text \<open>An update that counts: after the warm-up, with positive targets.\<close>

definition counts :: "real \<Rightarrow> quality_input \<Rightarrow> bool" where
  "counts created x =
     (case x of Sample fps tfps br ibr now \<Rightarrow> QUALITY_WARMUP_MS \<le> now - created \<and> 0 < tfps \<and> 0 < ibr
      | CongestionSignal now \<Rightarrow> False)"

definition degrading :: "quality_input \<Rightarrow> bool" where
  "degrading x =
     (case x of Sample fps tfps br ibr now \<Rightarrow> video_degraded (fps / tfps) (br / ibr)
      | CongestionSignal now \<Rightarrow> False)"

lemma quality_update_cases:
  assumes "quality_update fps tfps br ibr now qm = Some (changed, qm')"
  obtains "\<not> counts (qm_created_at_ms qm) (Sample fps tfps br ibr now)" "\<not> changed" "qm' = qm"
  | vc qm1 ac where "counts (qm_created_at_ms qm) (Sample fps tfps br ibr now)"
      "update_video_tier (fps / tfps) (br / ibr) now
         (MIN_TIER_TRANSITION_INTERVAL_MS \<le> now - qm_last_transition_time_ms qm) qm = Some (vc, qm1)"
      "update_audio_tier (fps / tfps) now
         (MIN_TIER_TRANSITION_INTERVAL_MS \<le> now - qm_last_transition_time_ms qm) qm1 = (ac, qm')"
      "changed = (vc \<or> ac)"
  using assms
  by (auto simp: quality_update_def counts_def Let_def not_less not_le split: if_splits option.splits prod.splits)

lemma quality_update_frame:
  assumes "quality_update fps tfps br ibr now qm = Some (changed, qm')"
  shows "step_frame now changed qm qm'"
  using assms
proof (cases rule: quality_update_cases)
  case 1
  then show ?thesis by (simp add: step_frame_def)
next
  case (2 vc qm1 ac)
  then have "QUALITY_WARMUP_MS \<le> now - qm_created_at_ms qm" by (simp add: counts_def)
  then show ?thesis
    using update_video_tier_cases [OF 2(2)] update_audio_tier_cases [OF 2(3)] 2(4)
    by (cases vc; cases ac) (simp_all add: step_frame_def)
qed

lemma quality_step_frame:
  assumes "quality_step x qm = Some (changed, qm')"
  shows "step_frame (input_time x) changed qm qm'"
proof (cases x)
  case (Sample fps tfps br ibr now)
  then show ?thesis using assms quality_update_frame by simp
next
  case (CongestionSignal now)
  then show ?thesis
    using assms by (auto simp: step_frame_def force_video_step_down_def split: if_splits)
qed

lemma update_video_tier_total:
  assumes "tiers_ok qm"
  shows "update_video_tier f b now can qm \<noteq> None"
  using assms
  by (auto simp: update_video_tier_def video_step_up_def current_video_tier_def tiers_ok_def Let_def)

lemma quality_step_total: "tiers_ok qm \<Longrightarrow> quality_step x qm \<noteq> None"
  by (cases x) (auto simp: quality_update_def Let_def update_video_tier_total simp del: not_None_eq split: option.split prod.split)

lemma quality_step_ok:
  assumes ok: "tiers_ok qm" and step: "quality_step x qm = Some (changed, qm')"
  shows "tiers_ok qm'"
proof (cases x)
  case (Sample fps tfps br ibr now)
  then have "quality_update fps tfps br ibr now qm = Some (changed, qm')" using step by simp
  then show ?thesis
  proof (cases rule: quality_update_cases)
    case (2 vc qm1 ac)
    have "tiers_ok qm1" using update_video_tier_cases [OF 2(2)] ok by (auto simp: tiers_ok_def)
    then show ?thesis using update_audio_tier_cases [OF 2(3)] by (auto simp: tiers_ok_def)
  qed (use ok in simp)
next
  case (CongestionSignal now)
  then show ?thesis
    using assms by (auto simp: force_video_step_down_def tiers_ok_def split: if_splits)
qed

lemma quality_run_ok: "tiers_ok qm \<Longrightarrow> \<exists>ys qm'. quality_run qm xs = Some (ys, qm') \<and> tiers_ok qm'"
proof (induction xs arbitrary: qm)
  case (Cons x xs)
  obtain changed qm1 where step: "quality_step x qm = Some (changed, qm1)"
    using quality_step_total [OF Cons.prems, of x] by auto
  obtain ys qm2 where "quality_run qm1 xs = Some (ys, qm2)" "tiers_ok qm2"
    using Cons.IH [OF quality_step_ok [OF Cons.prems step]] by blast
  then show ?case using step by simp
qed simp

lemma quality_run_append:
  "quality_run qm (xs @ zs) =
     (case quality_run qm xs of
        None \<Rightarrow> None
      | Some (ys, qm1) \<Rightarrow>
          (case quality_run qm1 zs of None \<Rightarrow> None | Some (ws, qm2) \<Rightarrow> Some (ys @ ws, qm2)))"
  by (induction xs arbitrary: qm) (auto split: option.split)

lemma quality_run_created: "quality_run qm xs = Some (ys, qm') \<Longrightarrow> qm_created_at_ms qm' = qm_created_at_ms qm"
proof (induction xs arbitrary: qm ys)
  case (Cons x xs)
  then show ?case
    by (force simp: step_frame_def split: option.splits prod.splits dest!: quality_step_frame)
qed simp

lemma quality_run_spaced:
  assumes "quality_run qm xs = Some (ys, qm')"
  shows "successively (\<lambda>x y. MIN_TIER_TRANSITION_INTERVAL_MS \<le> input_time y - input_time x) ys"
    and "list_all (\<lambda>y. QUALITY_WARMUP_MS \<le> input_time y - qm_created_at_ms qm) ys"
    and "ys \<noteq> [] \<Longrightarrow> MIN_TIER_TRANSITION_INTERVAL_MS \<le> input_time (hd ys) - qm_last_transition_time_ms qm"
proof -
  have "successively (\<lambda>x y. MIN_TIER_TRANSITION_INTERVAL_MS \<le> input_time y - input_time x) ys \<and>
    list_all (\<lambda>y. QUALITY_WARMUP_MS \<le> input_time y - qm_created_at_ms qm) ys \<and>
    (ys \<noteq> [] \<longrightarrow> MIN_TIER_TRANSITION_INTERVAL_MS \<le> input_time (hd ys) - qm_last_transition_time_ms qm)"
    using assms
  proof (induction xs arbitrary: qm ys)
    case (Cons x xs)
    then obtain changed qm1 zs where step: "quality_step x qm = Some (changed, qm1)"
      and run: "quality_run qm1 xs = Some (zs, qm')" and ys: "ys = (if changed then x # zs else zs)"
      by (auto split: option.splits prod.splits)
    then show ?case
      using Cons.IH [OF run] quality_step_frame [OF step]
      by (cases zs; cases changed) (auto simp: step_frame_def)
  qed simp
  then show "successively (\<lambda>x y. MIN_TIER_TRANSITION_INTERVAL_MS \<le> input_time y - input_time x) ys"
    and "list_all (\<lambda>y. QUALITY_WARMUP_MS \<le> input_time y - qm_created_at_ms qm) ys"
    and "ys \<noteq> [] \<Longrightarrow> MIN_TIER_TRANSITION_INTERVAL_MS \<le> input_time (hd ys) - qm_last_transition_time_ms qm"
    by blast+
qed

section \<open>Why video was stepped down\<close>

text \<open>
  The timer of the manager stands for a stretch of the inputs: it was started by a bad sample,
  and since then no sample that counts was good.
\<close>

definition bad_since :: "real \<Rightarrow> quality_input list \<Rightarrow> real \<Rightarrow> bool" where
  "bad_since created xs t \<longleftrightarrow>
     (\<exists>pre x suf. xs = pre @ x # suf \<and> counts created x \<and> degrading x \<and> input_time x = t \<and>
        list_all (\<lambda>y. counts created y \<longrightarrow> degrading y) suf)"

lemma bad_since_start: "counts created x \<Longrightarrow> degrading x \<Longrightarrow> bad_since created (xs @ [x]) (input_time x)"
  unfolding bad_since_def by (rule exI [of _ xs]) auto

lemma bad_since_extend:
  assumes "bad_since created xs t" and "counts created x \<longrightarrow> degrading x"
  shows "bad_since created (xs @ [x]) t"
proof -
  obtain pre y suf where "xs = pre @ y # suf" "counts created y" "degrading y" "input_time y = t"
    "list_all (\<lambda>y. counts created y \<longrightarrow> degrading y) suf"
    using assms(1) by (auto simp: bad_since_def)
  then show ?thesis
    unfolding bad_since_def using assms(2)
    by (intro exI [of _ pre] exI [of _ y] exI [of _ "suf @ [x]"]) simp
qed

lemma timer_meaning:
  assumes "quality_run qm0 xs = Some (ys, qm)" and "qm_degrade_start_ms qm0 = None"
    and "qm_degrade_start_ms qm = Some t"
  shows "bad_since (qm_created_at_ms qm0) xs t"
  using assms
proof (induction xs arbitrary: ys qm t rule: rev_induct)
  case (snoc x xs)
  obtain zs qm1 changed where run: "quality_run qm0 xs = Some (zs, qm1)"
    and step: "quality_step x qm1 = Some (changed, qm)"
    using snoc.prems(1) by (auto simp: quality_run_append split: option.splits prod.splits)
  note IH = snoc.IH [OF run snoc.prems(2)]
  have created: "qm_created_at_ms qm1 = qm_created_at_ms qm0" by (rule quality_run_created [OF run])
  show ?case
  proof (cases x)
    case (Sample fps tfps br ibr now)
    then have "quality_update fps tfps br ibr now qm1 = Some (changed, qm)" using step by simp
    then show ?thesis
    proof (cases rule: quality_update_cases)
      case 1
      then show ?thesis using IH snoc.prems(3) Sample created by (auto intro: bad_since_extend)
    next
      case (2 vc qm2 ac)
      have deg: "degrading x" and t: "t = get_or_insert (qm_degrade_start_ms qm1) now"
        using update_video_tier_cases [OF 2(2)] update_audio_tier_cases [OF 2(3)] snoc.prems(3) Sample
        by (auto simp: degrading_def)
      show ?thesis
      proof (cases "qm_degrade_start_ms qm1")
        case None
        then show ?thesis
          using bad_since_start [of "qm_created_at_ms qm0" x xs] 2(1) deg t Sample created
          by (simp add: get_or_insert_def)
      next
        case (Some t')
        then show ?thesis
          using IH [of t'] deg t by (auto simp: get_or_insert_def intro: bad_since_extend)
      qed
    qed
  next
    case (CongestionSignal now)
    then have "qm_degrade_start_ms qm1 = Some t"
      using step snoc.prems(3) by (auto simp: force_video_step_down_def split: if_splits)
    then show ?thesis using IH CongestionSignal by (auto simp: counts_def intro: bad_since_extend)
  qed
qed simp

text \<open>Tier changes are spaced and never premature. Over every sequence of samples and congestion
  signals, the first change comes at least five seconds after the manager was created, and any two
  changes are at least three seconds apart, whatever the clock does.\<close>

theorem tier_changes_spaced:
  assumes "quality_run qm xs = Some (ys, qm')"
  shows "successively (\<lambda>x y. 3000 \<le> input_time y - input_time x) ys \<and>
         list_all (\<lambda>y. qm_created_at_ms qm + 5000 \<le> input_time y) ys"
  using quality_run_spaced [OF assms] by (simp add: tier_consts list_all_iff algebra_simps)

theorem tier_changes_spaced_witness:
  "\<exists>qm'. quality_run (quality_manager_new 0 VIDEO_QUALITY_TIERS)
       [Sample 10 10 150 150 4000, Sample 10 10 150 150 5000, Sample 10 10 150 150 10000,
        CongestionSignal 11000, CongestionSignal 13000] =
       Some ([Sample 10 10 150 150 10000, CongestionSignal 13000], qm') \<and>
     successively (\<lambda>x y. 3000 \<le> input_time y - input_time x)
       [Sample 10 10 150 150 10000, CongestionSignal 13000]"
proof -
  have "\<exists>qm'. quality_run (quality_manager_new 0 VIDEO_QUALITY_TIERS)
       [Sample 10 10 150 150 4000, Sample 10 10 150 150 5000, Sample 10 10 150 150 10000,
        CongestionSignal 11000, CongestionSignal 13000] =
       Some ([Sample 10 10 150 150 10000, CongestionSignal 13000], qm')"
    by (simp add: quality_manager_new_def quality_update_def update_video_tier_def video_step_up_def
        update_audio_tier_def audio_step_up_def force_video_step_down_def video_degraded_def
        video_recovered_def get_or_insert_def current_video_tier_def tier_consts
        DEFAULT_VIDEO_TIER_INDEX_def VIDEO_QUALITY_TIERS_def AUDIO_QUALITY_TIERS_def Let_def)
  then show ?thesis using tier_changes_spaced by blast
qed

text \<open>C33: A sample lowers the video tier only after bad conditions persisted. When, after any run from a
  fresh manager, a sample steps the video tier down, it is itself a bad sample (less than half the
  target frame rate or less than two fifths of the ideal bitrate), and some sample at least one and a
  half seconds older was bad, with no good sample that counts in between.\<close>

theorem step_down_needs_persistence:
  assumes "quality_run (quality_manager_new t0 tiers) xs = Some (ys, qm)"
    and "quality_update fps tfps br ibr now qm = Some (changed, qm')"
    and "qm_video_tier_index qm < qm_video_tier_index qm'"
  shows "(fps / tfps < 1 / 2 \<or> br / ibr < 2 / 5) \<and>
         (\<exists>pre x suf. xs = pre @ x # suf \<and> counts t0 x \<and> degrading x \<and> 1500 \<le> now - input_time x \<and>
            list_all (\<lambda>y. counts t0 y \<longrightarrow> degrading y) suf)"
proof -
  have created: "qm_created_at_ms qm = t0"
    using quality_run_created [OF assms(1)] by (simp add: quality_manager_new_def)
  from assms(2) obtain bad: "video_degraded (fps / tfps) (br / ibr)"
    and late: "1500 \<le> now - get_or_insert (qm_degrade_start_ms qm) now"
  proof (cases rule: quality_update_cases)
    case 1
    then show ?thesis using assms(3) by simp
  next
    case (2 vc qm1 ac)
    then show ?thesis
      using update_video_tier_cases [OF 2(2)] update_audio_tier_cases [OF 2(3)] assms(3) that
      by (auto simp: tier_consts)
  qed
  then obtain t where t: "qm_degrade_start_ms qm = Some t" and d: "1500 \<le> now - t"
    by (cases "qm_degrade_start_ms qm") (auto simp: get_or_insert_def)
  have "bad_since t0 xs t"
    using timer_meaning [OF assms(1) _ t] by (simp add: quality_manager_new_def)
  then show ?thesis
    using bad d unfolding bad_since_def video_degraded_def by (fastforce simp: tier_consts)
qed

lemmas quality_run_simps =
  quality_manager_new_def quality_manager_new_for_screen_def quality_update_def update_video_tier_def
  video_step_up_def update_audio_tier_def audio_step_up_def force_video_step_down_def video_degraded_def
  video_recovered_def get_or_insert_def current_video_tier_def current_audio_tier_def tier_consts
  DEFAULT_VIDEO_TIER_INDEX_def DEFAULT_SCREEN_TIER_INDEX_def VIDEO_QUALITY_TIERS_def
  SCREEN_QUALITY_TIERS_def AUDIO_QUALITY_TIERS_def Let_def

theorem step_down_needs_persistence_witness:
  "\<exists>ys qm changed qm' x.
     quality_run (quality_manager_new 0 VIDEO_QUALITY_TIERS)
       [Sample 10 10 150 150 5000, Sample 10 10 150 150 10000, Sample 2 10 150 150 10500] = Some (ys, qm) \<and>
     quality_update 2 10 150 150 13000 qm = Some (changed, qm') \<and>
     qm_video_tier_index qm = 2 \<and> qm_video_tier_index qm' = 3 \<and> degrading x \<and> 1500 \<le> 13000 - input_time x"
proof -
  let ?xs = "[Sample 10 10 150 150 5000, Sample 10 10 150 150 10000, Sample 2 10 150 150 10500]"
  have "\<exists>ys qm changed qm'. quality_run (quality_manager_new 0 VIDEO_QUALITY_TIERS) ?xs = Some (ys, qm) \<and>
     quality_update 2 10 150 150 13000 qm = Some (changed, qm') \<and>
     qm_video_tier_index qm = 2 \<and> qm_video_tier_index qm' = 3"
    by (auto simp: quality_run_simps)
  then obtain ys qm changed qm' where run: "quality_run (quality_manager_new 0 VIDEO_QUALITY_TIERS) ?xs = Some (ys, qm)"
    and up: "quality_update 2 10 150 150 13000 qm = Some (changed, qm')"
    and i: "qm_video_tier_index qm = 2" "qm_video_tier_index qm' = 3"
    by blast
  then obtain x where "degrading x" "1500 \<le> 13000 - input_time x"
    using step_down_needs_persistence [OF run up] by auto
  with run up i show ?thesis by blast
qed

text \<open>Steps are single, and audio gives way last.\<close>

lemma quality_step_moves:
  assumes "quality_step x qm = Some (changed, qm')" and "tiers_ok qm"
  shows "qm_video_tier_index qm' \<le> Suc (qm_video_tier_index qm) \<and>
         qm_video_tier_index qm \<le> Suc (qm_video_tier_index qm') \<and>
         qm_audio_tier_index qm' \<le> Suc (qm_audio_tier_index qm) \<and>
         qm_audio_tier_index qm \<le> Suc (qm_audio_tier_index qm') \<and>
         (qm_audio_tier_index qm < qm_audio_tier_index qm' \<longrightarrow>
            qm_video_tier_index qm' = length (qm_video_tiers qm') - 1)"
proof (cases x)
  case (Sample fps tfps br ibr now)
  then have "quality_update fps tfps br ibr now qm = Some (changed, qm')" using assms(1) by simp
  then show ?thesis
  proof (cases rule: quality_update_cases)
    case (2 vc qm1 ac)
    then show ?thesis
      using update_video_tier_cases [OF 2(2)] update_audio_tier_cases [OF 2(3)]
        quality_step_ok [OF assms(2,1)]
      by (auto simp: tiers_ok_def)
  qed simp
next
  case (CongestionSignal now)
  then show ?thesis
    using assms(1) by (auto simp: force_video_step_down_def split: if_splits)
qed

lemma shipped_managers_ok:
  "tiers_ok (quality_manager_new t VIDEO_QUALITY_TIERS)"
  "tiers_ok (quality_manager_new_for_screen t SCREEN_QUALITY_TIERS)"
  by (simp_all add: tiers_ok_def quality_run_simps)

lemma tiers_ok_current: "tiers_ok qm \<Longrightarrow> current_video_tier qm \<noteq> None \<and> current_audio_tier qm \<noteq> None"
  by (simp add: tiers_ok_def current_video_tier_def current_audio_tier_def)

text \<open>The tiers are always valid. A manager made for the camera or, with its own constructor, for the
  screen never panics, whatever samples and signals arrive: both current tiers exist, a step moves
  each of them by at most one place, and audio is lowered only while video is at its lowest tier.\<close>

theorem quality_tiers_valid:
  assumes "qm0 \<in> {quality_manager_new t VIDEO_QUALITY_TIERS,
                   quality_manager_new_for_screen t SCREEN_QUALITY_TIERS}"
  shows "\<exists>ys qm changed qm'.
           quality_run qm0 xs = Some (ys, qm) \<and> quality_step x qm = Some (changed, qm') \<and>
           current_video_tier qm \<noteq> None \<and> current_audio_tier qm \<noteq> None \<and>
           qm_video_tier_index qm' \<le> Suc (qm_video_tier_index qm) \<and>
           qm_video_tier_index qm \<le> Suc (qm_video_tier_index qm') \<and>
           qm_audio_tier_index qm' \<le> Suc (qm_audio_tier_index qm) \<and>
           qm_audio_tier_index qm \<le> Suc (qm_audio_tier_index qm') \<and>
           (qm_audio_tier_index qm < qm_audio_tier_index qm' \<longrightarrow>
              qm_video_tier_index qm' = length (qm_video_tiers qm') - 1)"
proof -
  have "tiers_ok qm0" using assms shipped_managers_ok by blast
  then obtain ys qm where run: "quality_run qm0 xs = Some (ys, qm)" and ok: "tiers_ok qm"
    using quality_run_ok by blast
  obtain changed qm' where step: "quality_step x qm = Some (changed, qm')"
    using quality_step_total [OF ok, of x] by auto
  show ?thesis
    using run step quality_step_moves [OF step ok] tiers_ok_current [OF ok] by blast
qed

theorem quality_tiers_valid_witness:
  "\<exists>ys qm. quality_run (quality_manager_new_for_screen 0 SCREEN_QUALITY_TIERS)
        [Sample 1 10 10 100 6000, Sample 1 10 10 100 9000] = Some (ys, qm) \<and>
     current_video_tier qm \<noteq> None \<and> current_audio_tier qm \<noteq> None"
  using quality_tiers_valid [of "quality_manager_new_for_screen 0 SCREEN_QUALITY_TIERS" 0
      "[Sample 1 10 10 100 6000, Sample 1 10 10 100 9000]" "CongestionSignal 0"]
  by blast

text \<open>
  Two divergences. The general constructor starts at index three, past the end of the three
  screen tiers, so the current tier of such a manager is an index out of range. And video may step
  up while audio is still degraded: both timers run at the same time.
\<close>

lemma screen_tiers_out_of_range: "current_video_tier (quality_manager_new t SCREEN_QUALITY_TIERS) = None"
  by (simp add: quality_run_simps)

lemma video_recovers_before_audio:
  "\<exists>ys qm. quality_run (quality_manager_new 0 VIDEO_QUALITY_TIERS)
       [Sample 1 10 150 150 5000, Sample 1 10 150 150 6500, Sample 1 10 150 150 8000, Sample 1 10 150 150 9500,
        Sample 10 10 150 150 10000, Sample 10 10 150 150 15000] = Some (ys, qm) \<and>
     qm_video_tier_index qm = 2 \<and> qm_audio_tier_index qm = 1"
  by (simp add: quality_run_simps)

end
