(* ===== verification/Bitrate_Controller.thy ===== *)
theory Bitrate_Controller
  imports Adaptive_Quality Proto_Types
begin

text \<open>
  The bitrate controller of the encoders,
  \<open>videocall-client/src/diagnostics/encoder_bitrate_controller.rs\<close>, with the control tasks of
  \<open>encode/camera_encoder.rs\<close> and \<open>encode/screen_encoder.rs\<close> that feed it with the diagnostics of
  the peers and apply what it decides.

  \<^item> The PID controller is the crate \<open>pidgeon\<close>; its operations are the parameter \<open>D\<close>, and its state
    is a type variable. \<open>pid_limited\<close> states the output limits it is configured with.
  \<^item> \<open>f64\<close> values are the real numbers they denote, so the branch for NaN is not modelled; a division
    by zero, where the code can reach one, is written out. \<open>f64::clamp\<close> panics if its bounds are
    crossed.
  \<^item> The atomics the tasks share with the encoders are the record \<open>encoder_settings\<close>. The settings
    callback of the user interface and logging are not modelled.
  \<^item> \<open>None\<close> as a result of an operation is a panic.
\<close>

section \<open>Diagnostics of the peers\<close>

definition PID_DEADBAND_FPS :: real where "PID_DEADBAND_FPS = 1 / 2"
definition PID_OUTPUT_MIN :: real where "PID_OUTPUT_MIN = 0"
definition PID_OUTPUT_MAX :: real where "PID_OUTPUT_MAX = 50"
definition PID_KP :: real where "PID_KP = 2 / 10"
definition PID_KI :: real where "PID_KI = 5 / 100"
definition PID_KD :: real where "PID_KD = 2 / 100"
definition PID_MAX_JITTER_PENALTY :: real where "PID_MAX_JITTER_PENALTY = 30 / 100"
definition PID_CORRECTION_THROTTLE_MS :: real where "PID_CORRECTION_THROTTLE_MS = 1000"
definition PID_FPS_HISTORY_SIZE :: nat where "PID_FPS_HISTORY_SIZE = 10"
definition BITRATE_CHANGE_THRESHOLD :: real where "BITRATE_CHANGE_THRESHOLD = 20 / 100"
definition WINDOW_DURATION_SEC :: u32 where "WINDOW_DURATION_SEC = 10"
definition INACTIVE_TIMEOUT_SEC :: u32 where "INACTIVE_TIMEOUT_SEC = 20"

record stream_metrics =
  sm_fps_received :: real
  sm_bitrate_kbps :: u32

record diagnostics_packet =
  dp_stream_id :: string
  dp_sender_id :: string
  dp_target_id :: string
  dp_timestamp_ms :: u64
  dp_media_type :: enum_or_unknown
  dp_video_metrics :: "stream_metrics option"
  dp_audio_metrics :: "stream_metrics option"

record diagnostic_packet_window =
  dw_packets :: "(real \<times> diagnostics_packet) list"
  dw_window_duration_ms :: real
  dw_last_cleanup :: real

definition window_new :: "u32 \<Rightarrow> diagnostic_packet_window" where
  "window_new window_duration_sec =
     \<lparr>dw_packets = [], dw_window_duration_ms = real (unat window_duration_sec) * 1000, dw_last_cleanup = 0\<rparr>"

definition window_cleanup :: "real \<Rightarrow> diagnostic_packet_window \<Rightarrow> diagnostic_packet_window" where
  "window_cleanup current_time w =
     (let cutoff = current_time - dw_window_duration_ms w
      in w\<lparr>dw_packets := filter (\<lambda>(ts, p). cutoff \<le> ts) (dw_packets w), dw_last_cleanup := current_time\<rparr>)"

definition window_add_packet ::
  "real \<Rightarrow> diagnostics_packet \<Rightarrow> diagnostic_packet_window \<Rightarrow> diagnostic_packet_window" where
  "window_add_packet timestamp packet w =
     (let w1 = w\<lparr>dw_packets := dw_packets w @ [(timestamp, packet)]\<rparr>
      in if 1000 < timestamp - dw_last_cleanup w1 then window_cleanup timestamp w1 else w1)"

definition packet_fps :: "diagnostics_packet \<Rightarrow> real option" where
  "packet_fps p =
     (if dp_media_type p = media_type_value VIDEO then map_option sm_fps_received (dp_video_metrics p)
      else if dp_media_type p = media_type_value AUDIO then map_option sm_fps_received (dp_audio_metrics p)
      else if dp_media_type p = media_type_value SCREEN then map_option sm_fps_received (dp_video_metrics p)
      else None)"

definition latest_fps :: "diagnostic_packet_window \<Rightarrow> real option" where
  "latest_fps w = (if dw_packets w = [] then None else packet_fps (snd (last (dw_packets w))))"

definition min_fps_step :: "real option \<Rightarrow> real \<times> diagnostics_packet \<Rightarrow> real option" where
  "min_fps_step m entry =
     (case packet_fps (snd entry) of
        None \<Rightarrow> m
      | Some fps \<Rightarrow> Some (case m of None \<Rightarrow> fps | Some x \<Rightarrow> min x fps))"

definition min_fps :: "diagnostic_packet_window \<Rightarrow> real option" where
  "min_fps w = foldl min_fps_step None (dw_packets w)"

definition latest_timestamp :: "diagnostic_packet_window \<Rightarrow> real option" where
  "latest_timestamp w = (if dw_packets w = [] then None else Some (fst (last (dw_packets w))))"

record diagnostic_packets =
  ds_peer_windows :: "(string \<times> diagnostic_packet_window) list"
  ds_window_duration_sec :: u32
  ds_inactive_timeout_sec :: u32

definition diagnostic_packets_new :: "u32 \<Rightarrow> u32 \<Rightarrow> diagnostic_packets" where
  "diagnostic_packets_new window_duration_sec inactive_timeout_sec =
     \<lparr>ds_peer_windows = [], ds_window_duration_sec = window_duration_sec,
      ds_inactive_timeout_sec = inactive_timeout_sec\<rparr>"

definition remove_inactive_peers :: "real \<Rightarrow> diagnostic_packets \<Rightarrow> diagnostic_packets" where
  "remove_inactive_peers now ds =
     (let inactive_cutoff = now - real (unat (ds_inactive_timeout_sec ds)) * 1000
      in ds\<lparr>ds_peer_windows :=
              filter (\<lambda>(i, w). case latest_timestamp w of Some t \<Rightarrow> inactive_cutoff \<le> t | None \<Rightarrow> False)
                (ds_peer_windows ds)\<rparr>)"

definition process_packet :: "diagnostics_packet \<Rightarrow> real \<Rightarrow> diagnostic_packets \<Rightarrow> diagnostic_packets" where
  "process_packet packet now ds =
     (let w = (case map_of (ds_peer_windows ds) (dp_target_id packet) of
                 Some w \<Rightarrow> w | None \<Rightarrow> window_new (ds_window_duration_sec ds))
      in remove_inactive_peers now
           (ds\<lparr>ds_peer_windows :=
                 AList.update (dp_target_id packet) (window_add_packet now packet w) (ds_peer_windows ds)\<rparr>))"

definition worst_step ::
  "(string \<times> real) option \<Rightarrow> string \<times> diagnostic_packet_window \<Rightarrow> (string \<times> real) option" where
  "worst_step worst entry =
     (case min_fps (snd entry) of
        None \<Rightarrow> worst
      | Some fps \<Rightarrow>
          if (case worst of None \<Rightarrow> True | Some (i, m) \<Rightarrow> fps < m) then Some (fst entry, fps) else worst)"

definition get_worst_fps_peer :: "diagnostic_packets \<Rightarrow> (string \<times> real) option" where
  "get_worst_fps_peer ds = foldl worst_step None (ds_peer_windows ds)"

definition get_peer_ids :: "diagnostic_packets \<Rightarrow> string list" where
  "get_peer_ids ds = map fst (ds_peer_windows ds)"

definition peer_count :: "diagnostic_packets \<Rightarrow> nat" where
  "peer_count ds = length (ds_peer_windows ds)"

section \<open>The controller\<close>

record pid_config =
  pc_kp :: real
  pc_ki :: real
  pc_kd :: real
  pc_setpoint :: real
  pc_deadband :: real
  pc_output_limits :: "real \<times> real"
  pc_anti_windup :: bool

text \<open>
  The operations of a PID controller: building one from a configuration, which may be refused,
  changing the setpoint, computing an output for a measurement and a time step, and resetting.
\<close>

record 'p pid =
  pid_build :: "pid_config \<Rightarrow> 'p option"
  pid_set_setpoint :: "real \<Rightarrow> 'p \<Rightarrow> 'p"
  pid_compute :: "real \<Rightarrow> real \<Rightarrow> 'p \<Rightarrow> real option \<times> 'p"
  pid_reset :: "'p \<Rightarrow> 'p"

definition pid_limited :: "'p pid \<Rightarrow> bool" where
  "pid_limited D \<longleftrightarrow>
     (\<forall>x dt p out. fst (pid_compute D x dt p) = Some out \<longrightarrow> PID_OUTPUT_MIN \<le> out \<and> out \<le> PID_OUTPUT_MAX)"

record 'p bitrate_controller =
  bc_pid :: 'p
  bc_last_update :: real
  bc_ideal_bitrate_kbps :: u32
  bc_fps_history :: "real list"
  bc_max_history_size :: nat
  bc_initialization_complete :: bool
  bc_diagnostic_packets :: diagnostic_packets
  bc_last_correction_time :: real
  bc_correction_throttle_ms :: real
  bc_quality_manager :: adaptive_quality_manager
  bc_tier_changed :: bool

definition controller_build ::
  "'p pid \<Rightarrow> real \<Rightarrow> u32 \<Rightarrow> u32 \<Rightarrow> adaptive_quality_manager \<Rightarrow> 'p bitrate_controller option" where
  "controller_build D now ideal_bitrate_kbps target_fps quality_manager =
     (case pid_build D
             \<lparr>pc_kp = PID_KP, pc_ki = PID_KI, pc_kd = PID_KD, pc_setpoint = real (unat target_fps),
              pc_deadband = PID_DEADBAND_FPS, pc_output_limits = (PID_OUTPUT_MIN, PID_OUTPUT_MAX),
              pc_anti_windup = True\<rparr> of
        None \<Rightarrow> None
      | Some pid \<Rightarrow>
          Some \<lparr>bc_pid = pid, bc_last_update = now, bc_ideal_bitrate_kbps = ideal_bitrate_kbps,
                bc_fps_history = [], bc_max_history_size = PID_FPS_HISTORY_SIZE,
                bc_initialization_complete = False,
                bc_diagnostic_packets = diagnostic_packets_new WINDOW_DURATION_SEC INACTIVE_TIMEOUT_SEC,
                bc_last_correction_time = 0, bc_correction_throttle_ms = PID_CORRECTION_THROTTLE_MS,
                bc_quality_manager = quality_manager, bc_tier_changed = False\<rparr>)"

definition controller_new :: "'p pid \<Rightarrow> real \<Rightarrow> u32 \<Rightarrow> u32 \<Rightarrow> 'p bitrate_controller option" where
  "controller_new D now ideal_bitrate_kbps target_fps =
     controller_build D now ideal_bitrate_kbps target_fps (quality_manager_new now VIDEO_QUALITY_TIERS)"

definition controller_new_for_screen ::
  "'p pid \<Rightarrow> real \<Rightarrow> u32 \<Rightarrow> video_quality_tier list \<Rightarrow> 'p bitrate_controller option" where
  "controller_new_for_screen D now target_fps video_tiers =
     (let quality_manager = quality_manager_new_for_screen now video_tiers
      in case current_video_tier quality_manager of
           None \<Rightarrow> None
         | Some tier \<Rightarrow> controller_build D now (vt_ideal_bitrate_kbps tier) target_fps quality_manager)"

definition controller_new_with_tiers ::
  "'p pid \<Rightarrow> real \<Rightarrow> u32 \<Rightarrow> u32 \<Rightarrow> video_quality_tier list \<Rightarrow> 'p bitrate_controller option" where
  "controller_new_with_tiers D now ideal_bitrate_kbps target_fps video_tiers =
     controller_build D now ideal_bitrate_kbps target_fps (quality_manager_new now video_tiers)"

definition calculate_jitter :: "real list \<Rightarrow> real" where
  "calculate_jitter fps_history =
     (if length fps_history < 2 then 0
      else let differences = map (\<lambda>(a, b). \<bar>b - a\<bar>) (zip fps_history (tl fps_history))
           in sum_list differences / real (length differences))"

definition clamp_f64 :: "real \<Rightarrow> real \<Rightarrow> real \<Rightarrow> real option" where
  "clamp_f64 x lo hi = (if hi < lo then None else Some (max lo (min x hi)))"

text \<open>The bitrate the measurements ask for, before the limits of the tier.\<close>

definition corrected_bitrate :: "real \<Rightarrow> real \<Rightarrow> real \<Rightarrow> real \<Rightarrow> real" where
  "corrected_bitrate base_bitrate pid_output jitter target_fps =
     (let reduction_pct = pid_output / PID_OUTPUT_MAX * (9 / 10);
          after_pid = base_bitrate * (1 - reduction_pct);
          jitter_factor = min (jitter / target_fps * 5) 1
      in after_pid - after_pid * (jitter_factor * PID_MAX_JITTER_PENALTY))"

text \<open>The rest of the method once the history is long enough: PID, jitter, tiers, limits.\<close>

definition correct_bitrate ::
  "'p pid \<Rightarrow> real \<Rightarrow> real \<Rightarrow> real \<Rightarrow> real \<Rightarrow> 'p bitrate_controller \<Rightarrow>
   (real option \<times> 'p bitrate_controller) option" where
  "correct_bitrate D target_fps fps_received dt now bc =
     (let (out, pid1) = pid_compute D fps_received dt (bc_pid bc);
          pid_output = (case out of Some x \<Rightarrow> x | None \<Rightarrow> 0);
          pid2 = (if \<bar>target_fps - fps_received\<bar> \<le> PID_DEADBAND_FPS \<and> 0 < pid_output
                  then pid_reset D pid1 else pid1);
          base_bitrate = real (unat (bc_ideal_bitrate_kbps bc));
          corrected = corrected_bitrate base_bitrate pid_output
                        (calculate_jitter (bc_fps_history bc)) target_fps;
          bc1 = bc\<lparr>bc_pid := pid2\<rparr>
      in case clamp_f64 corrected (base_bitrate * (1 / 10)) (base_bitrate * (15 / 10)) of
           None \<Rightarrow> None
         | Some final_bitrate \<Rightarrow>
             (case current_video_tier (bc_quality_manager bc1) of
                None \<Rightarrow> None
              | Some tier \<Rightarrow>
                  (case quality_update fps_received target_fps final_bitrate
                          (real (unat (vt_ideal_bitrate_kbps tier))) now (bc_quality_manager bc1) of
                     None \<Rightarrow> None
                   | Some (tier_changed, qm) \<Rightarrow>
                       (case current_video_tier qm of
                          None \<Rightarrow> None
                        | Some new_tier \<Rightarrow>
                            let bc2 = bc1\<lparr>bc_quality_manager := qm\<rparr>;
                                bc3 = (if tier_changed
                                       then bc2\<lparr>bc_tier_changed := True,
                                                bc_ideal_bitrate_kbps := vt_ideal_bitrate_kbps new_tier\<rparr>
                                       else bc2)
                            in case clamp_f64 final_bitrate (real (unat (vt_min_bitrate_kbps new_tier)))
                                      (real (unat (vt_max_bitrate_kbps new_tier))) of
                                 None \<Rightarrow> None
                               | Some tier_clamped \<Rightarrow>
                                   Some (Some tier_clamped, bc3\<lparr>bc_last_correction_time := now\<rparr>)))))"

definition process_diagnostics_packet_with_time ::
  "'p pid \<Rightarrow> u32 \<Rightarrow> diagnostics_packet \<Rightarrow> real \<Rightarrow> 'p bitrate_controller \<Rightarrow>
   (real option \<times> 'p bitrate_controller) option" where
  "process_diagnostics_packet_with_time D target_fps_atomic packet now bc =
     (let bc1 = bc\<lparr>bc_diagnostic_packets := process_packet packet now (bc_diagnostic_packets bc)\<rparr>
      in if now - bc_last_correction_time bc1 < bc_correction_throttle_ms bc1 then Some (None, bc1)
         else
           (case get_worst_fps_peer (bc_diagnostic_packets bc1) of
              None \<Rightarrow> Some (None, bc1)
            | Some (i, worst_fps) \<Rightarrow>
                let target_fps = real (unat target_fps_atomic);
                    fps_received = min worst_fps target_fps
                in if target_fps \<le> 0
                   then Some (Some (real (unat (bc_ideal_bitrate_kbps bc1))),
                              bc1\<lparr>bc_last_correction_time := now\<rparr>)
                   else
                     let history = bc_fps_history bc1 @ [fps_received];
                         bc2 = bc1\<lparr>bc_pid := pid_set_setpoint D target_fps (bc_pid bc1),
                                   bc_fps_history := drop (length history - bc_max_history_size bc1) history\<rparr>;
                         dt = (now - bc_last_update bc2) / 1000;
                         bc3 = bc2\<lparr>bc_last_update := now\<rparr>
                     in if \<not> bc_initialization_complete bc3 \<and> length (bc_fps_history bc3) < 3
                        then Some (Some (real (unat (bc_ideal_bitrate_kbps bc3))),
                                   bc3\<lparr>bc_last_correction_time := now\<rparr>)
                        else correct_bitrate D target_fps fps_received dt now
                               (bc3\<lparr>bc_initialization_complete := True\<rparr>)))"

definition take_tier_changed :: "'p bitrate_controller \<Rightarrow> bool \<times> 'p bitrate_controller" where
  "take_tier_changed bc = (bc_tier_changed bc, bc\<lparr>bc_tier_changed := False\<rparr>)"

definition controller_force_video_step_down ::
  "real \<Rightarrow> 'p bitrate_controller \<Rightarrow> (bool \<times> 'p bitrate_controller) option" where
  "controller_force_video_step_down now bc =
     (case force_video_step_down now (bc_quality_manager bc) of
        (changed, qm) \<Rightarrow>
          let bc1 = bc\<lparr>bc_quality_manager := qm\<rparr>
          in if changed
             then (case current_video_tier qm of
                     None \<Rightarrow> None
                   | Some new_tier \<Rightarrow>
                       Some (True, bc1\<lparr>bc_tier_changed := True,
                                       bc_ideal_bitrate_kbps := vt_ideal_bitrate_kbps new_tier\<rparr>))
             else Some (False, bc1))"

section \<open>The control tasks of the encoders\<close>

record encoder_settings =
  es_current_bitrate :: u32
  es_enabled :: bool
  es_tier_max_width :: u32
  es_tier_max_height :: u32
  es_tier_keyframe_interval :: u32
  es_congestion_step_down :: bool
  es_audio_tier_bitrate :: u32
  es_audio_tier_fec :: bool

text \<open>The settings of a new encoder: those of the highest tiers.\<close>

definition camera_encoder_new :: "u32 \<Rightarrow> encoder_settings" where
  "camera_encoder_new initial_bitrate =
     (let default_tier = VIDEO_QUALITY_TIERS ! 0; default_audio_tier = AUDIO_QUALITY_TIERS ! 0
      in \<lparr>es_current_bitrate = initial_bitrate, es_enabled = False,
          es_tier_max_width = vt_max_width default_tier, es_tier_max_height = vt_max_height default_tier,
          es_tier_keyframe_interval = vt_keyframe_interval_frames default_tier,
          es_congestion_step_down = False,
          es_audio_tier_bitrate = at_bitrate_kbps default_audio_tier * 1000,
          es_audio_tier_fec = at_enable_fec default_audio_tier\<rparr>)"

definition screen_encoder_new :: "u32 \<Rightarrow> encoder_settings" where
  "screen_encoder_new bitrate_kbps =
     (let default_tier = SCREEN_QUALITY_TIERS ! 0
      in \<lparr>es_current_bitrate = bitrate_kbps, es_enabled = False,
          es_tier_max_width = vt_max_width default_tier, es_tier_max_height = vt_max_height default_tier,
          es_tier_keyframe_interval = vt_keyframe_interval_frames default_tier,
          es_congestion_step_down = False, es_audio_tier_bitrate = 0, es_audio_tier_fec = False\<rparr>)"

text \<open>A cast of an \<open>f64\<close> to \<open>u32\<close> truncates and saturates.\<close>

definition f64_to_u32 :: "real \<Rightarrow> u32" where
  "f64_to_u32 x = (if x < 0 then 0 else if 2 ^ 32 \<le> x then - 1 else of_int \<lfloor>x\<rfloor>)"

text \<open>The relative change; dividing by zero gives infinity, or NaN for no change.\<close>

definition exceeds_threshold :: "real \<Rightarrow> real \<Rightarrow> bool" where
  "exceeds_threshold new current \<longleftrightarrow>
     (if current = 0 then new \<noteq> 0 else BITRATE_CHANGE_THRESHOLD < \<bar>new - current\<bar> / current)"

definition apply_bitrate :: "real option \<Rightarrow> encoder_settings \<Rightarrow> encoder_settings" where
  "apply_bitrate output es =
     (case output of
        Some bitrate \<Rightarrow>
          if es_enabled es \<and> exceeds_threshold bitrate (real (unat (es_current_bitrate es)))
          then es\<lparr>es_current_bitrate := f64_to_u32 bitrate\<rparr> else es
      | None \<Rightarrow> es)"

definition apply_video_tier :: "video_quality_tier \<Rightarrow> encoder_settings \<Rightarrow> encoder_settings" where
  "apply_video_tier tier es =
     es\<lparr>es_tier_max_width := vt_max_width tier, es_tier_max_height := vt_max_height tier,
        es_tier_keyframe_interval := vt_keyframe_interval_frames tier\<rparr>"

definition camera_control_step ::
  "'p pid \<Rightarrow> u32 \<Rightarrow> real \<Rightarrow> diagnostics_packet \<Rightarrow> encoder_settings \<Rightarrow> 'p bitrate_controller \<Rightarrow>
   (encoder_settings \<times> 'p bitrate_controller) option" where
  "camera_control_step D target_fps now event es bc =
     (case (if es_congestion_step_down es then map_option snd (controller_force_video_step_down now bc)
            else Some bc) of
        None \<Rightarrow> None
      | Some bc1 \<Rightarrow>
          (case process_diagnostics_packet_with_time D target_fps event now bc1 of
             None \<Rightarrow> None
           | Some (output, bc2) \<Rightarrow>
               let es1 = apply_bitrate output (es\<lparr>es_congestion_step_down := False\<rparr>);
                   (changed, bc3) = take_tier_changed bc2
               in if changed
                  then (case (current_video_tier (bc_quality_manager bc3),
                              current_audio_tier (bc_quality_manager bc3)) of
                          (Some tier, Some audio_tier) \<Rightarrow>
                            Some ((apply_video_tier tier es1)
                                    \<lparr>es_audio_tier_bitrate := at_bitrate_kbps audio_tier * 1000,
                                     es_audio_tier_fec := at_enable_fec audio_tier\<rparr>, bc3)
                        | _ \<Rightarrow> None)
                  else Some (es1, bc3)))"

definition screen_control_step ::
  "'p pid \<Rightarrow> u32 \<Rightarrow> real \<Rightarrow> diagnostics_packet \<Rightarrow> encoder_settings \<Rightarrow> 'p bitrate_controller \<Rightarrow>
   (encoder_settings \<times> 'p bitrate_controller) option" where
  "screen_control_step D target_fps now event es bc =
     (case process_diagnostics_packet_with_time D target_fps event now bc of
        None \<Rightarrow> None
      | Some (output, bc1) \<Rightarrow>
          let es1 = apply_bitrate output es;
              (changed, bc2) = take_tier_changed bc1
          in if changed
             then (case current_video_tier (bc_quality_manager bc2) of
                     None \<Rightarrow> None
                   | Some tier \<Rightarrow> Some (apply_video_tier tier es1, bc2))
             else Some (es1, bc2))"

section \<open>The worst peer\<close>

lemma min_fps_snoc: "foldl min_fps_step m (xs @ [x]) = min_fps_step (foldl min_fps_step m xs) x"
  by simp

definition is_min_of :: "real option \<Rightarrow> real set \<Rightarrow> bool" where
  "is_min_of m A = (case m of None \<Rightarrow> A = {} | Some x \<Rightarrow> x \<in> A \<and> (\<forall>y \<in> A. x \<le> y))"

definition fps_of :: "(real \<times> diagnostics_packet) list \<Rightarrow> real set" where
  "fps_of ps = {f. \<exists>p \<in> snd ` set ps. packet_fps p = Some f}"

lemma fps_of_snoc:
  "fps_of (ps @ [x]) = (case packet_fps (snd x) of None \<Rightarrow> fps_of ps | Some f \<Rightarrow> insert f (fps_of ps))"
  by (auto simp: fps_of_def split: option.split)

lemma min_fps_spec: "is_min_of (min_fps w) (fps_of (dw_packets w))"
proof -
  have "is_min_of (foldl min_fps_step None ps) (fps_of ps)" for ps
  proof (induction ps rule: rev_induct)
    case Nil
    then show ?case by (simp add: is_min_of_def fps_of_def)
  next
    case (snoc x ps)
    then show ?case
      by (auto simp: min_fps_step_def fps_of_snoc is_min_of_def min_def split: option.splits)
  qed
  then show ?thesis by (simp add: min_fps_def)
qed

definition all_fps :: "(string \<times> diagnostic_packet_window) list \<Rightarrow> real set" where
  "all_fps ws = (\<Union>(i, w) \<in> set ws. fps_of (dw_packets w))"

lemma worst_peer_spec:
  "case foldl worst_step None ws of
     None \<Rightarrow> all_fps ws = {}
   | Some (i, f) \<Rightarrow> (\<exists>w. (i, w) \<in> set ws \<and> f \<in> fps_of (dw_packets w)) \<and> (\<forall>g \<in> all_fps ws. f \<le> g)"
proof (induction ws rule: rev_induct)
  case Nil
  then show ?case by (simp add: all_fps_def)
next
  case (snoc x ws)
  obtain i w where x: "x = (i, w)" by force
  have all: "all_fps (ws @ [x]) = all_fps ws \<union> fps_of (dw_packets w)" by (auto simp: all_fps_def x)
  show ?case
  proof (cases "min_fps w")
    case None
    then have "fps_of (dw_packets w) = {}" using min_fps_spec [of w] by (simp add: is_min_of_def)
    with None show ?thesis using snoc.IH all by (auto simp: worst_step_def x split: option.splits)
  next
    case (Some f)
    then have "f \<in> fps_of (dw_packets w)" "\<forall>y \<in> fps_of (dw_packets w). f \<le> y"
      using min_fps_spec [of w] by (auto simp: is_min_of_def)
    with Some show ?thesis
      using snoc.IH all by (fastforce simp: worst_step_def x split: option.splits if_splits)
  qed
qed

section \<open>The controller keeps its promises\<close>

definition controller_ok :: "'p bitrate_controller \<Rightarrow> bool" where
  "controller_ok bc \<longleftrightarrow>
     tiers_ok (bc_quality_manager bc) \<and> bc_correction_throttle_ms bc = 1000 \<and>
     list_all (\<lambda>t. vt_min_bitrate_kbps t \<le> vt_max_bitrate_kbps t) (qm_video_tiers (bc_quality_manager bc))"

lemma quality_step_tiers: "quality_step x qm = Some (changed, qm') \<Longrightarrow> qm_video_tiers qm' = qm_video_tiers qm"
  using quality_step_frame by (auto simp: step_frame_def)

lemma current_video_tier_in: "current_video_tier qm = Some t \<Longrightarrow> t \<in> set (qm_video_tiers qm)"
  by (auto simp: current_video_tier_def split: if_splits)

lemma real_unat_le: "(a :: 'a::len word) \<le> b \<Longrightarrow> real (unat a) \<le> real (unat b)"
  by (simp only: word_le_nat_alt of_nat_le_iff)

lemma calculate_jitter_nonneg: "0 \<le> calculate_jitter h"
proof -
  have "0 \<le> sum_list (map (\<lambda>(a, b). \<bar>b - a\<bar>) xs)" for xs :: "(real \<times> real) list"
    by (induction xs) auto
  then show ?thesis by (simp add: calculate_jitter_def Let_def)
qed

lemma corrected_bitrate_le:
  assumes "0 \<le> base" "0 \<le> out" "out \<le> 50" "0 \<le> jitter" "0 < tfps"
  shows "corrected_bitrate base out jitter tfps \<le> base"
proof -
  define r where "r = out / 50 * (9 / 10)"
  define j where "j = min (jitter / tfps * 5) 1 * (30 / 100)"
  have r: "0 \<le> r" "r \<le> 1" and j: "0 \<le> j" using assms by (auto simp: r_def j_def)
  have "base * (1 - r) \<le> base * 1" using assms(1) r by (intro mult_left_mono) auto
  moreover have "0 \<le> base * (1 - r) * j" using assms(1) r j by auto
  moreover have "corrected_bitrate base out jitter tfps = base * (1 - r) - base * (1 - r) * j"
    unfolding corrected_bitrate_def Let_def PID_OUTPUT_MAX_def PID_MAX_JITTER_PENALTY_def r_def j_def ..
  ultimately show ?thesis by linarith
qed

text \<open>What a correction does: it never panics, keeps the controller well formed, and yields a bitrate
  within the limits of the tier that is current afterwards.\<close>

lemma correct_bitrate_spec:
  assumes ok: "controller_ok bc"
  obtains b changed qm tier bc' where
    "correct_bitrate D tfps fps dt now bc = Some (Some b, bc')"
    "controller_ok bc'" "bc_last_correction_time bc' = now" "bc_quality_manager bc' = qm"
    "bc_tier_changed bc' = (bc_tier_changed bc \<or> changed)"
    "\<exists>x. quality_step x (bc_quality_manager bc) = Some (changed, qm)"
    "current_video_tier qm = Some tier"
    "real (unat (vt_min_bitrate_kbps tier)) \<le> b" "b \<le> real (unat (vt_max_bitrate_kbps tier))"
    "pid_limited D \<Longrightarrow> 0 < tfps \<Longrightarrow>
       b \<le> max (real (unat (bc_ideal_bitrate_kbps bc))) (real (unat (vt_min_bitrate_kbps tier)))"
proof -
  obtain out pid1 where pid: "pid_compute D fps dt (bc_pid bc) = (out, pid1)" by force
  define base where "base = real (unat (bc_ideal_bitrate_kbps bc))"
  define po where "po = (case out of Some x \<Rightarrow> x | None \<Rightarrow> 0)"
  define co where "co = corrected_bitrate base po (calculate_jitter (bc_fps_history bc)) tfps"
  define fin where "fin = max (base * (1 / 10)) (min co (base * (15 / 10)))"
  have base0: "0 \<le> base" by (simp only: base_def of_nat_0_le_iff)
  have fin: "clamp_f64 co (base * (1 / 10)) (base * (15 / 10)) = Some fin"
    using base0 by (simp add: clamp_f64_def fin_def)
  obtain t0 where t0: "current_video_tier (bc_quality_manager bc) = Some t0"
    using ok tiers_ok_current by (auto simp: controller_ok_def)
  obtain changed qm where step: "quality_step (Sample fps tfps fin (real (unat (vt_ideal_bitrate_kbps t0))) now)
      (bc_quality_manager bc) = Some (changed, qm)"
    using quality_step_total ok by (fastforce simp: controller_ok_def simp del: quality_step.simps)
  have okq: "tiers_ok qm" using quality_step_ok [OF _ step] ok by (simp add: controller_ok_def)
  then obtain tier where tier: "current_video_tier qm = Some tier" using tiers_ok_current by blast
  have lim: "real (unat (vt_min_bitrate_kbps tier)) \<le> real (unat (vt_max_bitrate_kbps tier))"
    using current_video_tier_in [OF tier] quality_step_tiers [OF step] ok
    by (intro real_unat_le) (auto simp: controller_ok_def list_all_iff)
  define b where "b = max (real (unat (vt_min_bitrate_kbps tier))) (min fin (real (unat (vt_max_bitrate_kbps tier))))"
  have b: "clamp_f64 fin (real (unat (vt_min_bitrate_kbps tier))) (real (unat (vt_max_bitrate_kbps tier))) = Some b"
    using lim by (simp add: clamp_f64_def b_def)
  define bc' where "bc' = snd (the (correct_bitrate D tfps fps dt now bc))"
  have res: "correct_bitrate D tfps fps dt now bc = Some (Some b, bc')"
    and frame: "bc_last_correction_time bc' = now" "bc_quality_manager bc' = qm"
      "bc_tier_changed bc' = (bc_tier_changed bc \<or> changed)"
      "bc_correction_throttle_ms bc' = bc_correction_throttle_ms bc"
    using step t0 fin b tier unfolding bc'_def correct_bitrate_def
    by (simp_all add: pid Let_def base_def po_def co_def)
  have okb: "controller_ok bc'"
    using ok okq frame quality_step_tiers [OF step] by (simp add: controller_ok_def)
  have lo: "real (unat (vt_min_bitrate_kbps tier)) \<le> b" and hi: "b \<le> real (unat (vt_max_bitrate_kbps tier))"
    using lim by (auto simp: b_def)
  have ideal: "b \<le> max (real (unat (bc_ideal_bitrate_kbps bc))) (real (unat (vt_min_bitrate_kbps tier)))"
    if "pid_limited D" "0 < tfps"
  proof -
    have "PID_OUTPUT_MIN \<le> x \<and> x \<le> PID_OUTPUT_MAX" if "out = Some x" for x
      using \<open>pid_limited D\<close> pid that unfolding pid_limited_def by (metis fst_conv)
    then have "0 \<le> po \<and> po \<le> 50"
      by (auto simp: po_def PID_OUTPUT_MIN_def PID_OUTPUT_MAX_def split: option.split)
    then have "co \<le> base"
      unfolding co_def using base0 that(2) by (intro corrected_bitrate_le) (auto simp: calculate_jitter_nonneg)
    then have "fin \<le> base" using base0 by (auto simp: fin_def)
    then show ?thesis unfolding b_def base_def by (simp only: max.coboundedI1 max.coboundedI2 min.coboundedI1 max.bounded_iff simp_thms)
  qed
  show thesis
    by (rule that [OF res okb frame(1-3) _ tier lo hi ideal]) (use step in blast)
qed

text \<open>One diagnostics packet: either nothing is corrected and only the packet is recorded, or at least a
  second after the last correction the controller answers.\<close>

lemma process_spec:
  assumes ok: "controller_ok bc"
  obtains r bc' changed where
    "process_diagnostics_packet_with_time D tf packet now bc = Some (r, bc')" "controller_ok bc'"
    "bc_tier_changed bc' = (bc_tier_changed bc \<or> changed)"
    "\<exists>x. quality_step x (bc_quality_manager bc) = Some (changed, bc_quality_manager bc') \<or>
         \<not> changed \<and> bc_quality_manager bc' = bc_quality_manager bc"
    "r = None \<Longrightarrow> bc_last_correction_time bc' = bc_last_correction_time bc"
    "\<And>b. r = Some b \<Longrightarrow> bc_last_correction_time bc' = now \<and>
       1000 \<le> now - bc_last_correction_time bc \<and>
       (b = real (unat (bc_ideal_bitrate_kbps bc)) \<or>
        (\<exists>tier. current_video_tier (bc_quality_manager bc') = Some tier \<and>
           real (unat (vt_min_bitrate_kbps tier)) \<le> b \<and> b \<le> real (unat (vt_max_bitrate_kbps tier)) \<and>
           (pid_limited D \<longrightarrow>
              b \<le> max (real (unat (bc_ideal_bitrate_kbps bc))) (real (unat (vt_min_bitrate_kbps tier))))))"
proof -
  define ds where "ds = process_packet packet now (bc_diagnostic_packets bc)"
  let ?bc1 = "bc\<lparr>bc_diagnostic_packets := ds\<rparr>"
  have thr: "bc_correction_throttle_ms bc = 1000" using ok by (simp add: controller_ok_def)
  consider (quiet) "now - bc_last_correction_time bc < 1000 \<or> get_worst_fps_peer ds = None"
    | (answer) i fps where "1000 \<le> now - bc_last_correction_time bc" "get_worst_fps_peer ds = Some (i, fps)"
    by (cases "get_worst_fps_peer ds") force+
  then show thesis
  proof cases
    case quiet
    then have "process_diagnostics_packet_with_time D tf packet now bc = Some (None, ?bc1)"
      by (auto simp: process_diagnostics_packet_with_time_def Let_def ds_def thr)
    moreover have "controller_ok ?bc1" using ok by (simp add: controller_ok_def)
    ultimately show ?thesis using that [of None ?bc1 False] by simp
  next
    case answer
    define history where "history = bc_fps_history bc @ [min fps (real (unat tf))]"
    let ?bc3 = "?bc1\<lparr>bc_pid := pid_set_setpoint D (real (unat tf)) (bc_pid bc),
       bc_fps_history := drop (length history - bc_max_history_size bc) history, bc_last_update := now\<rparr>"
    let ?bc4 = "?bc3\<lparr>bc_initialization_complete := True\<rparr>"
    have ok4: "controller_ok ?bc4" using ok by (simp add: controller_ok_def)
    have eq: "process_diagnostics_packet_with_time D tf packet now bc =
      (if real (unat tf) \<le> 0
       then Some (Some (real (unat (bc_ideal_bitrate_kbps bc))), ?bc1\<lparr>bc_last_correction_time := now\<rparr>)
       else if \<not> bc_initialization_complete bc \<and> length (bc_fps_history ?bc3) < 3
       then Some (Some (real (unat (bc_ideal_bitrate_kbps bc))), ?bc3\<lparr>bc_last_correction_time := now\<rparr>)
       else correct_bitrate D (real (unat tf)) (min fps (real (unat tf))) ((now - bc_last_update bc) / 1000) now ?bc4)"
      using answer thr by (simp add: process_diagnostics_packet_with_time_def Let_def ds_def history_def del: drop_append)
    show ?thesis
    proof (cases "real (unat tf) \<le> 0 \<or> \<not> bc_initialization_complete bc \<and> length (bc_fps_history ?bc3) < 3")
      case True
      then obtain bc' where "process_diagnostics_packet_with_time D tf packet now bc =
          Some (Some (real (unat (bc_ideal_bitrate_kbps bc))), bc')"
        "controller_ok bc'" "bc_tier_changed bc' = bc_tier_changed bc"
        "bc_quality_manager bc' = bc_quality_manager bc" "bc_last_correction_time bc' = now"
        using eq ok by (cases "real (unat tf) \<le> 0") (auto simp: controller_ok_def simp del: of_nat_unat)
      then show ?thesis using that [of _ bc' False] answer(1) by auto
    next
      case False
      obtain b changed qm tier bc' where
        "correct_bitrate D (real (unat tf)) (min fps (real (unat tf))) ((now - bc_last_update bc) / 1000) now ?bc4 =
           Some (Some b, bc')"
        and rest: "controller_ok bc'" "bc_last_correction_time bc' = now" "bc_quality_manager bc' = qm"
        "bc_tier_changed bc' = (bc_tier_changed ?bc4 \<or> changed)"
        "\<exists>x. quality_step x (bc_quality_manager ?bc4) = Some (changed, qm)"
        "current_video_tier qm = Some tier"
        "real (unat (vt_min_bitrate_kbps tier)) \<le> b" "b \<le> real (unat (vt_max_bitrate_kbps tier))"
        "pid_limited D \<Longrightarrow> 0 < real (unat tf) \<Longrightarrow>
          b \<le> max (real (unat (bc_ideal_bitrate_kbps ?bc4))) (real (unat (vt_min_bitrate_kbps tier)))"
        by (rule correct_bitrate_spec [OF ok4]) (rule that)
      then have "process_diagnostics_packet_with_time D tf packet now bc = Some (Some b, bc')"
        using eq False by (simp only: if_False de_Morgan_disj)
      moreover have "pid_limited D \<longrightarrow>
          b \<le> max (real (unat (bc_ideal_bitrate_kbps bc))) (real (unat (vt_min_bitrate_kbps tier)))"
        using rest(9) False by (simp del: of_nat_unat)
      moreover have "\<exists>x. quality_step x (bc_quality_manager bc) = Some (changed, bc_quality_manager bc')"
        using rest(3,5) by simp
      ultimately show ?thesis
        using rest answer(1) by (intro that [of "Some b" bc' changed]) auto
    qed
  qed
qed

section \<open>Runs of the camera's control task\<close>

text \<open>
  Between two diagnostics packets the environment may enable or disable the encoder and raise the
  congestion flag, and the encoder reports its frame rate.
\<close>

record camera_input =
  ci_target_fps :: u32
  ci_now :: real
  ci_event :: diagnostics_packet
  ci_congested :: bool
  ci_enabled :: bool

definition camera_step ::
  "'p pid \<Rightarrow> camera_input \<Rightarrow> encoder_settings \<times> 'p bitrate_controller \<Rightarrow>
   (encoder_settings \<times> 'p bitrate_controller) option" where
  "camera_step D x s =
     camera_control_step D (ci_target_fps x) (ci_now x) (ci_event x)
       ((fst s)\<lparr>es_enabled := ci_enabled x,
                es_congestion_step_down := es_congestion_step_down (fst s) \<or> ci_congested x\<rparr>) (snd s)"

fun camera_run ::
  "'p pid \<Rightarrow> encoder_settings \<times> 'p bitrate_controller \<Rightarrow> camera_input list \<Rightarrow>
   (encoder_settings \<times> 'p bitrate_controller) option" where
  "camera_run D s [] = Some s"
| "camera_run D s (x # xs) = (case camera_step D x s of None \<Rightarrow> None | Some s1 \<Rightarrow> camera_run D s1 xs)"

definition mirrors :: "encoder_settings \<Rightarrow> adaptive_quality_manager \<Rightarrow> bool" where
  "mirrors es qm =
     (case (current_video_tier qm, current_audio_tier qm) of
        (Some vit, Some aut) \<Rightarrow>
          es_tier_max_width es = vt_max_width vit \<and> es_tier_max_height es = vt_max_height vit \<and>
          es_tier_keyframe_interval es = vt_keyframe_interval_frames vit \<and>
          es_audio_tier_bitrate es = at_bitrate_kbps aut * 1000 \<and> es_audio_tier_fec es = at_enable_fec aut
      | _ \<Rightarrow> False)"

definition untouched :: "encoder_settings \<Rightarrow> adaptive_quality_manager \<Rightarrow> bool" where
  "untouched es qm \<longleftrightarrow>
     qm_video_tier_index qm = DEFAULT_VIDEO_TIER_INDEX \<and> qm_audio_tier_index qm = 0 \<and>
     (\<exists>br. es_tier_max_width es = es_tier_max_width (camera_encoder_new br) \<and>
           es_tier_max_height es = es_tier_max_height (camera_encoder_new br) \<and>
           es_tier_keyframe_interval es = es_tier_keyframe_interval (camera_encoder_new br) \<and>
           es_audio_tier_bitrate es = es_audio_tier_bitrate (camera_encoder_new br) \<and>
           es_audio_tier_fec es = es_audio_tier_fec (camera_encoder_new br))"

definition camera_ok :: "encoder_settings \<times> 'p bitrate_controller \<Rightarrow> bool" where
  "camera_ok s \<longleftrightarrow>
     controller_ok (snd s) \<and> \<not> bc_tier_changed (snd s) \<and>
     (mirrors (fst s) (bc_quality_manager (snd s)) \<or> untouched (fst s) (bc_quality_manager (snd s)))"

lemma same_tiers:
  assumes "step_frame now False qm qm'"
  shows "current_video_tier qm' = current_video_tier qm" "current_audio_tier qm' = current_audio_tier qm"
    "mirrors es qm' = mirrors es qm" "untouched es qm' = untouched es qm"
  using assms
  by (auto simp: step_frame_def current_video_tier_def current_audio_tier_def mirrors_def untouched_def)

lemma apply_bitrate_frame [simp]:
  "es_tier_max_width (apply_bitrate r es) = es_tier_max_width es"
  "es_tier_max_height (apply_bitrate r es) = es_tier_max_height es"
  "es_tier_keyframe_interval (apply_bitrate r es) = es_tier_keyframe_interval es"
  "es_audio_tier_bitrate (apply_bitrate r es) = es_audio_tier_bitrate es"
  "es_audio_tier_fec (apply_bitrate r es) = es_audio_tier_fec es"
  by (simp_all add: apply_bitrate_def split: option.split)

lemma apply_bitrate_mirrors:
  "mirrors (apply_bitrate r es) qm = mirrors es qm" "untouched (apply_bitrate r es) qm = untouched es qm"
  by (simp_all add: mirrors_def untouched_def split: option.split)

lemma force_spec:
  assumes "controller_ok bc"
  obtains changed bc' where "controller_force_video_step_down now bc = Some (changed, bc')"
    "controller_ok bc'" "bc_tier_changed bc' = (bc_tier_changed bc \<or> changed)"
    "quality_step (CongestionSignal now) (bc_quality_manager bc) = Some (changed, bc_quality_manager bc')"
proof -
  obtain changed qm where f: "force_video_step_down now (bc_quality_manager bc) = (changed, qm)" by force
  then have step: "quality_step (CongestionSignal now) (bc_quality_manager bc) = Some (changed, qm)" by simp
  have ok: "tiers_ok qm" using quality_step_ok [OF _ step] assms by (simp add: controller_ok_def)
  then obtain t where "current_video_tier qm = Some t" using tiers_ok_current by blast
  then show thesis
    using assms f step ok quality_step_tiers [OF step]
    by (intro that [of changed "snd (the (controller_force_video_step_down now bc))"])
       (auto simp: controller_force_video_step_down_def controller_ok_def Let_def simp del: quality_step.simps)
qed

lemma camera_step_ok:
  assumes "camera_ok s"
  obtains s' where "camera_step D x s = Some s'" "camera_ok s'"
proof -
  let ?es = "(fst s)\<lparr>es_enabled := ci_enabled x,
                es_congestion_step_down := es_congestion_step_down (fst s) \<or> ci_congested x\<rparr>"
  let ?es' = "?es\<lparr>es_congestion_step_down := False\<rparr>"
  have c0: "controller_ok (snd s)" "\<not> bc_tier_changed (snd s)"
    and m0: "mirrors ?es' (bc_quality_manager (snd s)) \<or> untouched ?es' (bc_quality_manager (snd s))"
    using assms by (auto simp: camera_ok_def mirrors_def untouched_def split: option.splits)
  obtain c1 bc1 where first: "(if es_congestion_step_down ?es
        then map_option snd (controller_force_video_step_down (ci_now x) (snd s)) else Some (snd s)) = Some bc1"
    and c1: "controller_ok bc1" "bc_tier_changed bc1 = c1"
    and same1: "\<not> c1 \<Longrightarrow> mirrors ?es' (bc_quality_manager bc1) \<or> untouched ?es' (bc_quality_manager bc1)"
  proof (cases "es_congestion_step_down ?es")
    case True
    obtain ch bc' where f: "controller_force_video_step_down (ci_now x) (snd s) = Some (ch, bc')"
      "controller_ok bc'" "bc_tier_changed bc' = (bc_tier_changed (snd s) \<or> ch)"
      and st: "quality_step (CongestionSignal (ci_now x)) (bc_quality_manager (snd s)) = Some (ch, bc_quality_manager bc')"
      by (rule force_spec [OF c0(1)])
    have "mirrors ?es' (bc_quality_manager bc') \<or> untouched ?es' (bc_quality_manager bc')" if "\<not> ch"
      using m0 same_tiers(3,4) [of _ "bc_quality_manager (snd s)" "bc_quality_manager bc'"]
        quality_step_frame [OF st] that by fastforce
    then show ?thesis using that [of bc' ch] f c0 True by simp
  next
    case False
    then show ?thesis using that [of "snd s" False] c0 m0 by simp
  qed
  obtain r bc2 c2 where pr: "process_diagnostics_packet_with_time D (ci_target_fps x) (ci_event x) (ci_now x) bc1 = Some (r, bc2)"
    and c2: "controller_ok bc2" "bc_tier_changed bc2 = (bc_tier_changed bc1 \<or> c2)"
    and qs: "\<exists>y. quality_step y (bc_quality_manager bc1) = Some (c2, bc_quality_manager bc2) \<or>
               \<not> c2 \<and> bc_quality_manager bc2 = bc_quality_manager bc1"
    by (rule process_spec [OF c1(1)])
  let ?es1 = "apply_bitrate r ?es'"
  have same2: "mirrors ?es1 (bc_quality_manager bc2) \<or> untouched ?es1 (bc_quality_manager bc2)" if "\<not> c1" "\<not> c2"
  proof -
    have "mirrors ?es' (bc_quality_manager bc2) \<or> untouched ?es' (bc_quality_manager bc2)"
      using same1 that qs same_tiers(3,4) [of _ "bc_quality_manager bc1" "bc_quality_manager bc2"]
        quality_step_frame by fastforce
    then show ?thesis by (simp add: apply_bitrate_mirrors)
  qed
  obtain vit where vit: "current_video_tier (bc_quality_manager bc2) = Some vit"
    using c2(1) tiers_ok_current by (auto simp: controller_ok_def)
  obtain aut where aut: "current_audio_tier (bc_quality_manager bc2) = Some aut"
    using c2(1) tiers_ok_current by (auto simp: controller_ok_def)
  let ?bc3 = "bc2\<lparr>bc_tier_changed := False\<rparr>"
  let ?es2 = "(apply_video_tier vit ?es1)\<lparr>es_audio_tier_bitrate := at_bitrate_kbps aut * 1000,
                es_audio_tier_fec := at_enable_fec aut\<rparr>"
  have res: "camera_step D x s = Some (if c1 \<or> c2 then (?es2, ?bc3) else (?es1, ?bc3))"
    using first pr c1(2) c2(2) vit aut
    by (simp add: camera_step_def camera_control_step_def take_tier_changed_def Let_def)
  have "controller_ok ?bc3" using c2(1) by (simp add: controller_ok_def)
  moreover have "mirrors ?es2 (bc_quality_manager bc2)"
    using vit aut by (simp add: mirrors_def apply_video_tier_def)
  ultimately show thesis
    using same2 by (intro that [OF res]) (simp add: camera_ok_def)
qed

lemma camera_run_ok: "camera_ok s \<Longrightarrow> \<exists>s'. camera_run D s xs = Some s' \<and> camera_ok s'"
proof (induction xs arbitrary: s)
  case (Cons x xs)
  obtain s1 where "camera_step D x s = Some s1" "camera_ok s1" by (rule camera_step_ok [OF Cons.prems])
  then show ?case using Cons.IH by simp
qed simp

lemma controller_new_ok:
  assumes "controller_new D now ideal tf = Some bc"
  shows "camera_ok (camera_encoder_new br, bc)"
proof -
  have qm: "bc_quality_manager bc = quality_manager_new now VIDEO_QUALITY_TIERS"
    and "bc_correction_throttle_ms bc = 1000" and "\<not> bc_tier_changed bc"
    using assms by (auto simp: controller_new_def controller_build_def PID_CORRECTION_THROTTLE_MS_def split: option.splits)
  moreover have "list_all (\<lambda>t. vt_min_bitrate_kbps t \<le> vt_max_bitrate_kbps t) VIDEO_QUALITY_TIERS"
    by (simp add: VIDEO_QUALITY_TIERS_def word_le_nat_alt)
  moreover have "untouched (camera_encoder_new br) (quality_manager_new now VIDEO_QUALITY_TIERS)"
    by (auto simp: untouched_def quality_manager_new_def)
  ultimately show ?thesis
    using shipped_managers_ok(1) [of now]
    by (simp add: camera_ok_def controller_ok_def) (simp add: quality_manager_new_def)
qed

text \<open>C32: The camera's settings follow the chosen tiers. From its start on, whatever diagnostics and
  congestion signals arrive, the control task never panics, and after every packet the resolution,
  keyframe interval, audio bitrate and error correction the encoders read are those of the current
  tiers, unless no tier has changed since the start.\<close>

theorem camera_follows_tiers:
  assumes "controller_new D t0 ideal tf = Some bc0"
  shows "\<exists>es bc vit aut.
           camera_run D (camera_encoder_new br, bc0) xs = Some (es, bc) \<and>
           current_video_tier (bc_quality_manager bc) = Some vit \<and>
           current_audio_tier (bc_quality_manager bc) = Some aut \<and>
           (es_tier_max_width es = vt_max_width vit \<and> es_tier_max_height es = vt_max_height vit \<and>
            es_tier_keyframe_interval es = vt_keyframe_interval_frames vit \<and>
            es_audio_tier_bitrate es = at_bitrate_kbps aut * 1000 \<and> es_audio_tier_fec es = at_enable_fec aut \<or>
            qm_video_tier_index (bc_quality_manager bc) = 3 \<and> qm_audio_tier_index (bc_quality_manager bc) = 0 \<and>
            es_tier_max_width es = 1280 \<and> es_tier_max_height es = 720)"
proof -
  obtain s where run: "camera_run D (camera_encoder_new br, bc0) xs = Some s" and ok: "camera_ok s"
    using camera_run_ok [OF controller_new_ok [OF assms]] by blast
  obtain es bc where s: "s = (es, bc)" by force
  have "tiers_ok (bc_quality_manager bc)" using ok by (simp add: camera_ok_def controller_ok_def s)
  then obtain vit aut where t: "current_video_tier (bc_quality_manager bc) = Some vit"
      "current_audio_tier (bc_quality_manager bc) = Some aut"
    using tiers_ok_current by blast
  have "mirrors es (bc_quality_manager bc) \<or> untouched es (bc_quality_manager bc)"
    using ok by (simp add: camera_ok_def s)
  then show ?thesis
    using run s t
    by (auto simp: mirrors_def untouched_def camera_encoder_new_def Let_def VIDEO_QUALITY_TIERS_def
        DEFAULT_VIDEO_TIER_INDEX_def)
qed

text \<open>A controller whose PID is silent, for the witnesses.\<close>

definition silent_pid :: "unit pid" where
  "silent_pid = \<lparr>pid_build = \<lambda>_. Some (), pid_set_setpoint = \<lambda>_ p. p, pid_compute = \<lambda>_ _ p. (Some 0, p),
     pid_reset = \<lambda>p. p\<rparr>"

definition demo_report :: "real \<Rightarrow> diagnostics_packet" where
  "demo_report fps = \<lparr>dp_stream_id = ''s'', dp_sender_id = ''a'', dp_target_id = ''b'', dp_timestamp_ms = 0,
     dp_media_type = media_type_value VIDEO,
     dp_video_metrics = Some \<lparr>sm_fps_received = fps, sm_bitrate_kbps = 100\<rparr>, dp_audio_metrics = None\<rparr>"

definition demo_input :: "real \<Rightarrow> real \<Rightarrow> camera_input" where
  "demo_input fps now = \<lparr>ci_target_fps = 10, ci_now = now, ci_event = demo_report fps, ci_congested = False,
     ci_enabled = True\<rparr>"

theorem camera_follows_tiers_witness:
  "\<exists>bc0 es bc vit. controller_new silent_pid 0 150 10 = Some bc0 \<and>
     camera_run silent_pid (camera_encoder_new 150, bc0) (map (demo_input 10) [1000, 2000, 3000]) = Some (es, bc) \<and>
     current_video_tier (bc_quality_manager bc) = Some vit \<and>
     (es_tier_max_width es = vt_max_width vit \<or> es_tier_max_width es = 1280)"
proof -
  obtain bc0 where bc0: "controller_new silent_pid 0 150 10 = Some bc0"
    by (simp add: controller_new_def controller_build_def silent_pid_def)
  show ?thesis
    using camera_follows_tiers [OF bc0, of 150 "map (demo_input 10) [1000, 2000, 3000]"] bc0 by blast
qed

text \<open>Corrections are rare and stay within the tier. In every state the camera's control task can
  reach, a packet yields a bitrate only a second or more after the previous one; except for the
  plain ideal bitrate of the first samples it lies within the limits of the tier that is current
  afterwards, and never above the ideal bitrate unless the tier's minimum is.\<close>

theorem bitrate_corrections:
  assumes "controller_new D t0 ideal tf0 = Some bc0" and "pid_limited D"
    and "camera_run D (camera_encoder_new br, bc0) xs = Some (es, bc)"
    and "process_diagnostics_packet_with_time D tf packet now bc = Some (Some b, bc')"
  shows "bc_last_correction_time bc + 1000 \<le> now \<and> bc_last_correction_time bc' = now \<and>
         (b = real (unat (bc_ideal_bitrate_kbps bc)) \<or>
          (\<exists>tier. current_video_tier (bc_quality_manager bc') = Some tier \<and>
             real (unat (vt_min_bitrate_kbps tier)) \<le> b \<and> b \<le> real (unat (vt_max_bitrate_kbps tier)) \<and>
             b \<le> max (real (unat (bc_ideal_bitrate_kbps bc))) (real (unat (vt_min_bitrate_kbps tier)))))"
proof -
  have "camera_ok (es, bc)"
    using camera_run_ok [OF controller_new_ok [OF assms(1)], of D br xs] assms(3) by auto
  then have ok: "controller_ok bc" by (simp add: camera_ok_def)
  show ?thesis
  proof (rule process_spec [OF ok, of D tf packet now])
    fix r bc'' assume "process_diagnostics_packet_with_time D tf packet now bc = Some (r, bc'')"
    then have eq: "r = Some b" "bc'' = bc'" using assms(4) by auto
    assume spec: "\<And>b. r = Some b \<Longrightarrow> bc_last_correction_time bc'' = now \<and>
       1000 \<le> now - bc_last_correction_time bc \<and>
       (b = real (unat (bc_ideal_bitrate_kbps bc)) \<or>
        (\<exists>tier. current_video_tier (bc_quality_manager bc'') = Some tier \<and>
           real (unat (vt_min_bitrate_kbps tier)) \<le> b \<and> b \<le> real (unat (vt_max_bitrate_kbps tier)) \<and>
           (pid_limited D \<longrightarrow>
              b \<le> max (real (unat (bc_ideal_bitrate_kbps bc))) (real (unat (vt_min_bitrate_kbps tier))))))"
    show ?thesis using spec [OF eq(1)] assms(2) unfolding eq(2) by (simp only: le_diff_eq add.commute) blast
  qed
qed

lemma silent_pid_limited: "pid_limited silent_pid"
  by (simp add: pid_limited_def silent_pid_def PID_OUTPUT_MIN_def PID_OUTPUT_MAX_def)

theorem bitrate_corrections_witness:
  "\<exists>bc0 bc'. controller_new silent_pid 0 150 10 = Some bc0 \<and>
     process_diagnostics_packet_with_time silent_pid 10 (demo_report 10) 1000 bc0 = Some (Some 150, bc') \<and>
     bc_last_correction_time bc0 + 1000 \<le> 1000 \<and> bc_last_correction_time bc' = 1000"
proof -
  obtain bc0 where bc0: "controller_new silent_pid 0 150 10 = Some bc0"
    by (simp add: controller_new_def controller_build_def silent_pid_def)
  have "\<exists>bc'. process_diagnostics_packet_with_time silent_pid 10 (demo_report 10) 1000 bc0 = Some (Some 150, bc')"
    using bc0 by (auto simp: controller_new_def controller_build_def silent_pid_def demo_report_def
        process_diagnostics_packet_with_time_def process_packet_def remove_inactive_peers_def window_new_def
        window_add_packet_def window_cleanup_def latest_timestamp_def get_worst_fps_peer_def worst_step_def
        min_fps_def min_fps_step_def packet_fps_def diagnostic_packets_new_def PID_CORRECTION_THROTTLE_MS_def
        PID_FPS_HISTORY_SIZE_def INACTIVE_TIMEOUT_SEC_def WINDOW_DURATION_SEC_def Let_def)
  then obtain bc' where pr: "process_diagnostics_packet_with_time silent_pid 10 (demo_report 10) 1000 bc0 = Some (Some 150, bc')"
    by blast
  show ?thesis
    using bitrate_corrections [OF bc0 silent_pid_limited, of 150 "[]", OF _ pr] bc0 pr by auto
qed

text \<open>
  The screen encoder builds its controller with the general constructor, whose quality manager starts
  at index three of the three screen tiers: as soon as three samples are in, the next correction
  indexes the tiers out of range. And the camera encoder starts with the settings of the highest
  tier although the manager starts at the lowest, so the first step up lowers the resolution.
\<close>

lemma screen_correction_panics:
  assumes "bc_quality_manager bc = quality_manager_new t SCREEN_QUALITY_TIERS"
  shows "correct_bitrate D target_fps fps dt now bc = None"
  using assms screen_tiers_out_of_range [of t]
  by (simp add: correct_bitrate_def Let_def split: prod.split option.split)

lemma screen_controller_uses_general_constructor:
  "controller_new_with_tiers D t br tf SCREEN_QUALITY_TIERS = Some bc \<Longrightarrow>
   bc_quality_manager bc = quality_manager_new t SCREEN_QUALITY_TIERS"
  by (auto simp: controller_new_with_tiers_def controller_build_def split: option.splits)

lemma first_step_up_lowers_resolution:
  "es_tier_max_width (camera_encoder_new br) = 1280"
  "current_video_tier (quality_manager_new t VIDEO_QUALITY_TIERS) = Some (VIDEO_QUALITY_TIERS ! 3)"
  "es_tier_max_width (apply_video_tier (VIDEO_QUALITY_TIERS ! 2) (camera_encoder_new br)) = 640"
  by (simp_all add: camera_encoder_new_def apply_video_tier_def quality_run_simps)

end
