(* ===== verification/Peer_Decoding.thy ===== *)
theory Peer_Decoding
  imports Complex_Main Proto_Types Ordered_Map
begin

text \<open>
  The remote peers of a call in the browser client,
  \<open>videocall-client/src/decode/peer_decode_manager.rs\<close>: what a received packet does to the peer it
  comes from, when a keyframe is requested, how silent peers are removed, and the table of peers.

  \<^item> The browser's decoders are outside: what they answer to a packet, and whether new ones can be
    created, is the argument \<open>decoder_answers\<close>; what they are told is returned as effects. Of the audio
    decoder's state the model keeps whether it is muted.
  \<^item> AES decryption is the parameter \<open>dec\<close>, with the type of its keys left open; the clock is an
    argument; the canvas callbacks of the user interface are fields.
  \<^item> A failed packet makes the manager rebuild the peer's decoders; the error is returned only if
    that fails too.
  \<^item> Speaker selection, canvases and the diagnostics bus are not modelled, except that the status
    broadcast is an effect.
\<close>

section \<open>Types\<close>

definition media_type_from_i32 :: "enum_or_unknown \<Rightarrow> media_type option" where
  "media_type_from_i32 v =
     (if v = 0 then Some MEDIA_TYPE_UNKNOWN else if v = 1 then Some VIDEO else if v = 2 then Some AUDIO
      else if v = 3 then Some SCREEN else if v = 4 then Some HEARTBEAT else if v = 5 then Some RTT
      else if v = 6 then Some KEYFRAME_REQUEST else None)"

definition KEYFRAME_REQUEST_TIMEOUT_MS :: u64 where "KEYFRAME_REQUEST_TIMEOUT_MS = 1000"
definition KEYFRAME_REQUEST_MIN_INTERVAL_MS :: u64 where "KEYFRAME_REQUEST_MIN_INTERVAL_MS = 500"

datatype peer_decode_error =
    AesDecryptError | IncorrectPacketType | AudioDecodeError | ScreenDecodeError | VideoDecodeError
  | NoSuchPeer u64 | NoMediaType | NoPacketType | PacketParseError | SameUserPacket u64
  | UnknownMediaType | UnknownPacketType

definition peer_decode_error_display :: "peer_decode_error \<Rightarrow> string" where
  "peer_decode_error_display e =
     (case e of
        AesDecryptError \<Rightarrow> ''AesDecryptError''
      | IncorrectPacketType \<Rightarrow> ''IncorrectPacketType''
      | AudioDecodeError \<Rightarrow> ''AudioDecodeError''
      | ScreenDecodeError \<Rightarrow> ''ScreenDecodeError''
      | VideoDecodeError \<Rightarrow> ''VideoDecodeError''
      | NoSuchPeer s \<Rightarrow> ''Peer Not Found: '' @ show_u64 s
      | NoMediaType \<Rightarrow> ''No media_type''
      | NoPacketType \<Rightarrow> ''No packet_type''
      | PacketParseError \<Rightarrow> ''Failed to parse to protobuf MediaPacket''
      | SameUserPacket s \<Rightarrow> ''SameUserPacket: '' @ show_u64 s
      | UnknownMediaType \<Rightarrow> ''UnknownMediaType''
      | UnknownPacketType \<Rightarrow> ''UnknownPacketType'')"

datatype peer_status = Added u64 | NoChange

record decode_status =
  dst_rendered :: bool
  dst_first_frame :: bool

definition SKIPPED :: decode_status where
  "SKIPPED = \<lparr>dst_rendered = False, dst_first_frame = False\<rparr>"

record decoder_answers =
  da_video :: "decode_status option"
  da_audio :: "decode_status option"
  da_screen :: "decode_status option"
  da_screen_waiting :: bool
  da_new_decoders :: bool

datatype peer_effect =
    SetMuted bool
  | PushVideo media_packet
  | PushAudio media_packet
  | PushScreen media_packet
  | FlushVideo
  | FlushAudio
  | FlushScreen
  | RebuildDecoders
  | BroadcastStatus string bool bool bool bool real

record 'k peer =
  pe_audio_muted :: bool
  pe_session_id :: u64
  pe_sid_str :: string
  pe_user_id :: string
  pe_video_canvas_id :: string
  pe_screen_canvas_id :: string
  pe_aes :: "'k option"
  pe_activity_count :: u8
  pe_missed_heartbeat_checks :: u32
  pe_video_enabled :: bool
  pe_audio_enabled :: bool
  pe_screen_enabled :: bool
  pe_is_speaking :: bool
  pe_audio_level :: real
  pe_display_name :: "string option"
  pe_visible :: bool
  pe_context_initialized :: bool
  pe_vad_threshold :: "real option"
  pe_has_received_heartbeat :: bool
  pe_last_video_seq :: "u64 option"
  pe_last_screen_seq :: "u64 option"
  pe_video_gap_detected_at_ms :: "u64 option"
  pe_screen_gap_detected_at_ms :: "u64 option"
  pe_last_video_keyframe_request_ms :: u64
  pe_last_screen_keyframe_request_ms :: u64

section \<open>One peer\<close>

definition peer_new ::
  "string \<Rightarrow> string \<Rightarrow> u64 \<Rightarrow> string \<Rightarrow> 'k option \<Rightarrow> real option \<Rightarrow> 'k peer" where
  "peer_new video_canvas_id screen_canvas_id session_id user_id aes vad_threshold =
     \<lparr>pe_audio_muted = True, pe_session_id = session_id, pe_sid_str = show_u64 session_id,
      pe_user_id = user_id, pe_video_canvas_id = video_canvas_id,
      pe_screen_canvas_id = screen_canvas_id, pe_aes = aes, pe_activity_count = 1,
      pe_missed_heartbeat_checks = 0, pe_video_enabled = False, pe_audio_enabled = False,
      pe_screen_enabled = False, pe_is_speaking = False, pe_audio_level = 0, pe_display_name = None,
      pe_visible = True, pe_context_initialized = False, pe_vad_threshold = vad_threshold,
      pe_has_received_heartbeat = False, pe_last_video_seq = None, pe_last_screen_seq = None,
      pe_video_gap_detected_at_ms = None, pe_screen_gap_detected_at_ms = None,
      pe_last_video_keyframe_request_ms = 0, pe_last_screen_keyframe_request_ms = 0\<rparr>"

text \<open>The peer with fresh decoders, or no change if they cannot be created.\<close>

definition peer_reset :: "decoder_answers \<Rightarrow> 'k peer \<Rightarrow> bool \<times> 'k peer \<times> peer_effect list" where
  "peer_reset A pe =
     (if da_new_decoders A
      then (True, pe\<lparr>pe_audio_muted := \<not> pe_audio_enabled pe\<rparr>,
            [RebuildDecoders, SetMuted (\<not> pe_audio_enabled pe)])
      else (False, pe, []))"

definition broadcast_peer_status :: "'k peer \<Rightarrow> peer_effect list" where
  "broadcast_peer_status pe =
     [BroadcastStatus (pe_sid_str pe) (pe_audio_enabled pe) (pe_video_enabled pe)
        (pe_screen_enabled pe) (pe_is_speaking pe) (pe_audio_level pe)]"

definition saturating_sub :: "'a::len word \<Rightarrow> 'a word \<Rightarrow> 'a word" where
  "saturating_sub a b = (if a < b then 0 else a - b)"

text \<open>The last sequence number, the time a gap was found and the time of the last request of one stream.\<close>

type_synonym stream_track = "u64 option \<times> u64 option \<times> u64"

definition track_stream :: "u64 \<Rightarrow> u64 \<Rightarrow> string \<Rightarrow> stream_track \<Rightarrow> bool \<times> stream_track" where
  "track_stream now seq frame_type tr =
     (let (last_seq, gap_at, last_req) = tr;
          gap1 = (if frame_type = ''key'' then None else gap_at);
          gap2 = (case last_seq of
                    Some prev \<Rightarrow> if prev + 1 < seq \<and> gap1 = None then Some now else gap1
                  | None \<Rightarrow> gap1)
      in case gap2 of
           Some gap_time \<Rightarrow>
             if KEYFRAME_REQUEST_TIMEOUT_MS \<le> saturating_sub now gap_time \<and>
                KEYFRAME_REQUEST_MIN_INTERVAL_MS \<le> saturating_sub now last_req
             then (True, (Some seq, gap2, now))
             else (False, (Some seq, gap2, last_req))
         | None \<Rightarrow> (False, (Some seq, gap2, last_req)))"

definition video_track :: "'k peer \<Rightarrow> stream_track" where
  "video_track pe =
     (pe_last_video_seq pe, pe_video_gap_detected_at_ms pe, pe_last_video_keyframe_request_ms pe)"

definition screen_track :: "'k peer \<Rightarrow> stream_track" where
  "screen_track pe =
     (pe_last_screen_seq pe, pe_screen_gap_detected_at_ms pe, pe_last_screen_keyframe_request_ms pe)"

definition track_sequence ::
  "u64 \<Rightarrow> media_type \<Rightarrow> media_packet \<Rightarrow> 'k peer \<Rightarrow> media_type option \<times> 'k peer" where
  "track_sequence now media_type packet pe =
     (case med_video_metadata packet of
        None \<Rightarrow> (None, pe)
      | Some vm \<Rightarrow>
          if media_type = VIDEO
          then (case track_stream now (vm_sequence vm) (med_frame_type packet) (video_track pe) of
                  (req, (s, g, r)) \<Rightarrow>
                    (if req then Some VIDEO else None,
                     pe\<lparr>pe_last_video_seq := s, pe_video_gap_detected_at_ms := g,
                        pe_last_video_keyframe_request_ms := r\<rparr>))
          else if media_type = SCREEN
          then (case track_stream now (vm_sequence vm) (med_frame_type packet) (screen_track pe) of
                  (req, (s, g, r)) \<Rightarrow>
                    (if req then Some SCREEN else None,
                     pe\<lparr>pe_last_screen_seq := s, pe_screen_gap_detected_at_ms := g,
                        pe_last_screen_keyframe_request_ms := r\<rparr>))
          else (None, pe))"

text \<open>The result of decoding: an error, or the media type, the status and the stream of which a keyframe
  is to be requested; with the peer and the effects.\<close>

type_synonym decode_ok = "media_type \<times> decode_status \<times> media_type option"

type_synonym 'k decode_result = "(peer_decode_error + decode_ok) \<times> 'k peer \<times> peer_effect list"

definition decode_video ::
  "u64 \<Rightarrow> decoder_answers \<Rightarrow> media_packet \<Rightarrow> 'k peer \<Rightarrow> 'k decode_result" where
  "decode_video now A packet pe =
     (let (kf_request, pe1) = track_sequence now VIDEO packet pe;
          infer = \<not> pe_video_enabled pe1 \<and> \<not> pe_has_received_heartbeat pe1;
          pe2 = (if infer then pe1\<lparr>pe_video_enabled := True\<rparr> else pe1);
          es = (if infer then broadcast_peer_status pe2 else [])
      in if \<not> pe_video_enabled pe2 then (Inr (VIDEO, SKIPPED, None), pe1, [])
         else if \<not> pe_visible pe2 then (Inr (VIDEO, SKIPPED, None), pe2, es)
         else (case da_video A of
                 None \<Rightarrow> (Inl VideoDecodeError, pe2, es @ [PushVideo packet])
               | Some st \<Rightarrow> (Inr (VIDEO, st, kf_request), pe2, es @ [PushVideo packet])))"

definition decode_audio :: "decoder_answers \<Rightarrow> media_packet \<Rightarrow> 'k peer \<Rightarrow> 'k decode_result" where
  "decode_audio A packet pe =
     (let infer = \<not> pe_audio_enabled pe \<and> \<not> pe_has_received_heartbeat pe;
          pe1 = (if infer then pe\<lparr>pe_audio_enabled := True, pe_audio_muted := False\<rparr> else pe);
          es = (if infer then SetMuted False # broadcast_peer_status pe1 else [])
      in if \<not> pe_audio_enabled pe1 then (Inr (AUDIO, SKIPPED, None), pe1, [])
         else (case da_audio A of
                 None \<Rightarrow> (Inl AudioDecodeError, pe1, es @ [PushAudio packet])
               | Some st \<Rightarrow> (Inr (AUDIO, st, None), pe1, es @ [PushAudio packet])))"

definition decode_screen ::
  "u64 \<Rightarrow> decoder_answers \<Rightarrow> media_packet \<Rightarrow> 'k peer \<Rightarrow> 'k decode_result" where
  "decode_screen now A packet pe =
     (let (kf_request, pe1) = track_sequence now SCREEN packet pe;
          pe2 = pe1\<lparr>pe_screen_enabled := True\<rparr>;
          es = (if pe_screen_enabled pe1 then [] else broadcast_peer_status pe2)
      in if \<not> pe_visible pe2 then (Inr (SCREEN, SKIPPED, kf_request), pe2, es)
         else (case da_screen A of
                 None \<Rightarrow> (Inl ScreenDecodeError, pe2, es @ [PushScreen packet])
               | Some st \<Rightarrow>
                   if kf_request \<noteq> None then (Inr (SCREEN, st, kf_request), pe2, es @ [PushScreen packet])
                   else if da_screen_waiting A \<and>
                           KEYFRAME_REQUEST_MIN_INTERVAL_MS \<le>
                             saturating_sub now (pe_last_screen_keyframe_request_ms pe2)
                   then (Inr (SCREEN, st, Some SCREEN),
                         pe2\<lparr>pe_last_screen_keyframe_request_ms := now\<rparr>, es @ [PushScreen packet])
                   else (Inr (SCREEN, st, None), pe2, es @ [PushScreen packet])))"

definition decode_heartbeat :: "media_packet \<Rightarrow> 'k peer \<Rightarrow> 'k decode_result" where
  "decode_heartbeat packet pe =
     (let pe1 = pe\<lparr>pe_has_received_heartbeat := True\<rparr>
      in case med_heartbeat_metadata packet of
           None \<Rightarrow> (Inr (HEARTBEAT, SKIPPED, None), pe1, [])
         | Some md \<Rightarrow>
             let changed = (pe_audio_enabled pe1 \<noteq> hm_audio_enabled md);
                 pe2 = pe1\<lparr>pe_audio_muted := (if changed then \<not> hm_audio_enabled md else pe_audio_muted pe1),
                           pe_video_enabled := hm_video_enabled md,
                           pe_audio_enabled := hm_audio_enabled md,
                           pe_screen_enabled := hm_screen_enabled md,
                           pe_is_speaking := hm_is_speaking md,
                           pe_audio_level := (if hm_is_speaking md then pe_audio_level pe1 else 0)\<rparr>
             in (Inr (HEARTBEAT, SKIPPED, None), pe2,
                 (if changed then [SetMuted (\<not> hm_audio_enabled md)] else []) @
                 (if pe_video_enabled pe1 \<and> \<not> hm_video_enabled md then [FlushVideo] else []) @
                 (if pe_audio_enabled pe1 \<and> \<not> hm_audio_enabled md then [FlushAudio] else []) @
                 (if pe_screen_enabled pe1 \<and> \<not> hm_screen_enabled md then [FlushScreen] else []) @
                 broadcast_peer_status pe2))"

definition decode_media ::
  "u64 \<Rightarrow> decoder_answers \<Rightarrow> media_packet \<Rightarrow> 'k peer \<Rightarrow> 'k decode_result" where
  "decode_media now A packet pe =
     (case media_type_from_i32 (med_media_type packet) of
        None \<Rightarrow> (Inl NoMediaType, pe, [])
      | Some VIDEO \<Rightarrow> decode_video now A packet pe
      | Some AUDIO \<Rightarrow> decode_audio A packet pe
      | Some SCREEN \<Rightarrow> decode_screen now A packet pe
      | Some HEARTBEAT \<Rightarrow> decode_heartbeat packet pe
      | Some RTT \<Rightarrow> (Inr (RTT, SKIPPED, None), pe, [])
      | Some KEYFRAME_REQUEST \<Rightarrow> (Inr (KEYFRAME_REQUEST, SKIPPED, None), pe, [])
      | Some MEDIA_TYPE_UNKNOWN \<Rightarrow> (Inl UnknownMediaType, pe, []))"

definition parse_media_packet :: "proto \<Rightarrow> bytes \<Rightarrow> peer_decode_error + media_packet" where
  "parse_media_packet P data =
     (case parse_media P data of None \<Rightarrow> Inl PacketParseError | Some mp \<Rightarrow> Inr mp)"

definition open_packet ::
  "proto \<Rightarrow> ('k \<Rightarrow> bytes \<Rightarrow> bytes option) \<Rightarrow> packet_wrapper \<Rightarrow> 'k peer \<Rightarrow> peer_decode_error + media_packet" where
  "open_packet P dec packet pe =
     (case packet_type_from_i32 (pw_packet_type packet) of
        None \<Rightarrow> Inl NoPacketType
      | Some pt \<Rightarrow>
          if pt \<noteq> MEDIA then Inl IncorrectPacketType
          else (case pe_aes pe of
                  Some aes \<Rightarrow>
                    (case dec aes (pw_data packet) of
                       None \<Rightarrow> Inl AesDecryptError
                     | Some data \<Rightarrow> parse_media_packet P data)
                | None \<Rightarrow> parse_media_packet P (pw_data packet)))"

definition peer_decode ::
  "proto \<Rightarrow> ('k \<Rightarrow> bytes \<Rightarrow> bytes option) \<Rightarrow> u64 \<Rightarrow> decoder_answers \<Rightarrow> packet_wrapper \<Rightarrow> 'k peer \<Rightarrow>
   'k decode_result" where
  "peer_decode P dec now A packet pe =
     (case open_packet P dec packet pe of
        Inl e \<Rightarrow> (Inl e, pe, [])
      | Inr mp \<Rightarrow> decode_media now A mp pe)"

definition on_activity :: "'k peer \<Rightarrow> 'k peer" where
  "on_activity pe =
     pe\<lparr>pe_activity_count := (if pe_activity_count pe = - 1 then - 1 else pe_activity_count pe + 1)\<rparr>"

definition check_heartbeat :: "'k peer \<Rightarrow> bool \<times> 'k peer" where
  "check_heartbeat pe =
     (if 0 < pe_activity_count pe
      then (True, pe\<lparr>pe_activity_count := 0, pe_missed_heartbeat_checks := 0\<rparr>)
      else
        let pe1 = pe\<lparr>pe_missed_heartbeat_checks := pe_missed_heartbeat_checks pe + 1\<rparr>
        in (\<not> 3 \<le> pe_missed_heartbeat_checks pe1, pe1))"

section \<open>The manager\<close>

record 'k peer_manager =
  pm_connected_peers :: "(u64, 'k peer) hmok"
  pm_display_name_cache :: "string \<rightharpoonup> string"
  pm_get_video_canvas_id :: "string \<Rightarrow> string"
  pm_get_screen_canvas_id :: "string \<Rightarrow> string"
  pm_diagnostics :: bool
  pm_vad_threshold :: "real option"
  pm_send_packet :: bool
  pm_local_user_id :: string

datatype pm_effect =
    PeerFx u64 peer_effect
  | SetStreamContext u64 string
  | TrackFrame string media_type nat
  | FirstFrame string media_type
  | SendPacket packet_wrapper
  | PeerRemoved string

definition peer_manager_new :: "bool \<Rightarrow> 'k peer_manager" where
  "peer_manager_new diagnostics =
     \<lparr>pm_connected_peers = hmok_new, pm_display_name_cache = Map.empty,
      pm_get_video_canvas_id = (\<lambda>key. ''video-'' @ key),
      pm_get_screen_canvas_id = (\<lambda>key. ''screen-'' @ key),
      pm_diagnostics = diagnostics, pm_vad_threshold = None, pm_send_packet = False,
      pm_local_user_id = []\<rparr>"

definition set_send_packet_callback :: "string \<Rightarrow> 'k peer_manager \<Rightarrow> 'k peer_manager" where
  "set_send_packet_callback user_id pm = pm\<lparr>pm_send_packet := True, pm_local_user_id := user_id\<rparr>"

definition set_vad_threshold :: "real option \<Rightarrow> 'k peer_manager \<Rightarrow> 'k peer_manager" where
  "set_vad_threshold threshold pm = pm\<lparr>pm_vad_threshold := threshold\<rparr>"

text \<open>A write through the reference \<open>get_mut\<close> returns: nothing happens for an unknown key.\<close>

definition hmok_modify :: "'k \<Rightarrow> ('v \<Rightarrow> 'v) \<Rightarrow> ('k, 'v) hmok \<Rightarrow> ('k, 'v) hmok" where
  "hmok_modify k f m =
     (case hm_map m k of None \<Rightarrow> m | Some v \<Rightarrow> m\<lparr>hm_map := (hm_map m)(k \<mapsto> f v)\<rparr>)"

definition modify_peer :: "u64 \<Rightarrow> ('k peer \<Rightarrow> 'k peer) \<Rightarrow> 'k peer_manager \<Rightarrow> 'k peer_manager" where
  "modify_peer session_id f pm =
     pm\<lparr>pm_connected_peers := hmok_modify session_id f (pm_connected_peers pm)\<rparr>"

definition set_peer_visibility :: "u64 \<Rightarrow> bool \<Rightarrow> 'k peer_manager \<Rightarrow> 'k peer_manager" where
  "set_peer_visibility session_id visible pm = modify_peer session_id (\<lambda>pe. pe\<lparr>pe_visible := visible\<rparr>) pm"

definition sorted_keys :: "'k peer_manager \<Rightarrow> u64 list" where
  "sorted_keys pm = hmok_ordered_keys (pm_connected_peers pm)"

definition get_peer :: "u64 \<Rightarrow> 'k peer_manager \<Rightarrow> 'k peer option" where
  "get_peer key pm = hmok_get (pm_connected_peers pm) key"

definition send_keyframe_request ::
  "proto \<Rightarrow> string \<Rightarrow> media_type \<Rightarrow> 'k peer_manager \<Rightarrow> pm_effect list" where
  "send_keyframe_request P peer_user_id requested_media_type pm =
     (if \<not> pm_send_packet pm then []
      else if requested_media_type \<noteq> VIDEO \<and> requested_media_type \<noteq> SCREEN then []
      else
        let media_type_byte = as_bytes (if requested_media_type = VIDEO then ''VIDEO'' else ''SCREEN'')
        in case write_media P (default_media_packet
                  \<lparr>med_media_type := media_type_value KEYFRAME_REQUEST,
                   med_user_id := as_bytes peer_user_id, med_data := media_type_byte\<rparr>) of
             None \<Rightarrow> []
           | Some media_data \<Rightarrow>
               [SendPacket (default_packet_wrapper
                  \<lparr>pw_packet_type := packet_type_value MEDIA,
                   pw_user_id := as_bytes (pm_local_user_id pm), pw_data := media_data\<rparr>)])"

definition set_peer_screen_canvas ::
  "proto \<Rightarrow> string + unit \<Rightarrow> u64 \<Rightarrow> 'k peer_manager \<Rightarrow> (string + unit) \<times> pm_effect list" where
  "set_peer_screen_canvas P set_canvas peer_id pm =
     (case hmok_get (pm_connected_peers pm) peer_id of
        Some peer \<Rightarrow>
          (case set_canvas of
             Inl e \<Rightarrow> (Inl e, [])
           | Inr u \<Rightarrow>
               (Inr (), if pe_screen_enabled peer then send_keyframe_request P (pe_user_id peer) SCREEN pm else []))
      | None \<Rightarrow> (Inl (''Peer '' @ show_u64 peer_id @ '' not found''), []))"

definition run_peer_monitor :: "'k peer_manager \<Rightarrow> 'k peer_manager \<times> pm_effect list" where
  "run_peer_monitor pm =
     (case hmok_remove_if_and_return check_heartbeat (pm_connected_peers pm) of
        (removed, peers) \<Rightarrow>
          (pm\<lparr>pm_connected_peers := peers\<rparr>, map (\<lambda>(session_id, peer). PeerRemoved (pe_sid_str peer)) removed))"

definition manager_decode ::
  "proto \<Rightarrow> ('k \<Rightarrow> bytes \<Rightarrow> bytes option) \<Rightarrow> u64 \<Rightarrow> decoder_answers \<Rightarrow> packet_wrapper \<Rightarrow> string \<Rightarrow>
   'k peer_manager \<Rightarrow> (peer_decode_error + unit) \<times> 'k peer_manager \<times> pm_effect list" where
  "manager_decode P dec now A packet userid pm =
     (let sid = pw_session_id packet
      in case hm_map (pm_connected_peers pm) sid of
           None \<Rightarrow> (Inl (NoSuchPeer sid), pm, [])
         | Some peer \<Rightarrow>
             let context = (if pe_context_initialized peer then [] else [SetStreamContext sid userid]);
                 peer0 = peer\<lparr>pe_context_initialized := True\<rparr>
             in case peer_decode P dec now A packet peer0 of
                  (Inl e, peer1, es) \<Rightarrow>
                    (case peer_reset A peer1 of
                       (ok, peer2, fs) \<Rightarrow>
                         (if ok then Inr () else Inl e, modify_peer sid (\<lambda>_. peer2) pm,
                          context @ map (PeerFx sid) (es @ fs)))
                | (Inr (media_type, status, kf), peer1, es) \<Rightarrow>
                    let peer2 = on_activity peer1;
                        pm1 = modify_peer sid (\<lambda>_. peer2) pm
                    in (Inr (), pm1,
                        context @ map (PeerFx sid) es @
                        (if media_type = HEARTBEAT then []
                         else (if pm_diagnostics pm
                               then [TrackFrame (pe_sid_str peer2) media_type (length (pw_data packet))] else []) @
                              (if dst_first_frame status then [FirstFrame (pe_sid_str peer2) media_type] else []) @
                              (case kf of
                                 Some mt \<Rightarrow> send_keyframe_request P (pe_user_id peer2) mt pm1
                               | None \<Rightarrow> []))))"

definition add_peer ::
  "bool \<Rightarrow> string \<Rightarrow> u64 \<Rightarrow> 'k option \<Rightarrow> 'k peer_manager \<Rightarrow> 'k peer_manager option" where
  "add_peer decoders_ok user_id session_id aes pm =
     (if \<not> decoders_ok then None
      else
        let sid_str = show_u64 session_id;
            peer = peer_new (pm_get_video_canvas_id pm sid_str) (pm_get_screen_canvas_id pm sid_str)
                     session_id user_id aes (pm_vad_threshold pm);
            peer1 = (case pm_display_name_cache pm user_id of
                       Some cached_name \<Rightarrow> peer\<lparr>pe_display_name := Some cached_name\<rparr>
                     | None \<Rightarrow> peer)
        in Some (pm\<lparr>pm_connected_peers := snd (hmok_insert session_id peer1 (pm_connected_peers pm))\<rparr>))"

definition delete_peer :: "u64 \<Rightarrow> 'k peer_manager \<Rightarrow> 'k peer_manager \<times> pm_effect list" where
  "delete_peer session_id pm =
     (case hmok_remove session_id (pm_connected_peers pm) of
        (r, peers) \<Rightarrow>
          (pm\<lparr>pm_connected_peers := peers\<rparr>,
           case r of Some peer \<Rightarrow> [PeerRemoved (pe_sid_str peer)] | None \<Rightarrow> []))"

text \<open>The removed peers are reported in the order of the hash table, so the reports form a set.\<close>

definition clear_all_peers :: "'k peer_manager \<Rightarrow> 'k peer_manager \<times> pm_effect set" where
  "clear_all_peers pm =
     (case hmok_drain_all (pm_connected_peers pm) of
        (removed, peers) \<Rightarrow>
          (pm\<lparr>pm_connected_peers := peers, pm_display_name_cache := Map.empty\<rparr>,
           (\<lambda>(session_id, peer). PeerRemoved (pe_sid_str peer)) ` removed))"

definition ensure_peer :: "bool \<Rightarrow> u64 \<Rightarrow> string \<Rightarrow> 'k peer_manager \<Rightarrow> peer_status \<times> 'k peer_manager" where
  "ensure_peer decoders_ok session_id user_id pm =
     (if hmok_contains_key (pm_connected_peers pm) session_id then (NoChange, pm)
      else (case add_peer decoders_ok user_id session_id None pm of
              None \<Rightarrow> (NoChange, pm)
            | Some pm1 \<Rightarrow> (Added session_id, pm1)))"

definition set_peer_aes ::
  "u64 \<Rightarrow> 'k \<Rightarrow> 'k peer_manager \<Rightarrow> (peer_decode_error + unit) \<times> 'k peer_manager" where
  "set_peer_aes session_id aes pm =
     (case hm_map (pm_connected_peers pm) session_id of
        Some peer \<Rightarrow> (Inr (), modify_peer session_id (\<lambda>pe. pe\<lparr>pe_aes := Some aes\<rparr>) pm)
      | None \<Rightarrow> (Inl (NoSuchPeer session_id), pm))"

definition set_peer_display_name_by_user_id ::
  "string \<Rightarrow> string \<Rightarrow> 'k peer_manager \<Rightarrow> 'k peer_manager" where
  "set_peer_display_name_by_user_id user_id display_name pm =
     (let pm1 = pm\<lparr>pm_display_name_cache := (pm_display_name_cache pm)(user_id \<mapsto> display_name)\<rparr>
      in foldl (\<lambda>pm key. modify_peer key
                  (\<lambda>pe. if pe_user_id pe = user_id then pe\<lparr>pe_display_name := Some display_name\<rparr> else pe) pm)
           pm1 (hmok_ordered_keys (pm_connected_peers pm1)))"

definition parse_u64 :: "string \<Rightarrow> u64 option" where
  "parse_u64 s =
     (let ds = (if s \<noteq> [] \<and> hd s = CHR ''+'' then tl s else s)
      in if ds \<noteq> [] \<and> list_all (\<lambda>c. 48 \<le> (of_char c :: nat) \<and> of_char c \<le> (57 :: nat)) ds \<and>
            read_nat ds < 2 ^ 64
         then Some (of_nat (read_nat ds)) else None)"

definition get_peer_display_name :: "string \<Rightarrow> 'k peer_manager \<Rightarrow> string option" where
  "get_peer_display_name session_id_str pm =
     Option.bind (parse_u64 session_id_str)
       (\<lambda>sid. Option.bind (hm_map (pm_connected_peers pm) sid) pe_display_name)"

definition is_peer_speaking :: "string \<Rightarrow> 'k peer_manager \<Rightarrow> bool" where
  "is_peer_speaking key pm =
     (case parse_u64 key of
        None \<Rightarrow> False
      | Some sid \<Rightarrow>
          (case hm_map (pm_connected_peers pm) sid of Some peer \<Rightarrow> pe_is_speaking peer | None \<Rightarrow> False))"

definition peer_audio_level :: "string \<Rightarrow> 'k peer_manager \<Rightarrow> real" where
  "peer_audio_level key pm =
     (case parse_u64 key of
        None \<Rightarrow> 0
      | Some sid \<Rightarrow>
          (case hm_map (pm_connected_peers pm) sid of Some peer \<Rightarrow> pe_audio_level peer | None \<Rightarrow> 0))"

end
