(* ===== verification/Peer_Runs.thy ===== *)
theory Peer_Runs
  imports Peer_Decoding
begin

text \<open>
  The correctness of the peer bookkeeping: over every run the table of peers is consistent (a peer is
  audible exactly while its audio is on, and shows the name last announced for its user), audio
  and video of a peer are decoded only while its last heartbeat says they are on, keyframes are
  requested sparingly, and a peer that falls silent is removed.
\<close>

section \<open>What decoding leaves alone\<close>

definition same_identity :: "'k peer \<Rightarrow> 'k peer \<Rightarrow> bool" where
  "same_identity pe pe' \<longleftrightarrow>
     pe_session_id pe' = pe_session_id pe \<and> pe_sid_str pe' = pe_sid_str pe \<and>
     pe_user_id pe' = pe_user_id pe \<and> pe_display_name pe' = pe_display_name pe \<and>
     pe_missed_heartbeat_checks pe' = pe_missed_heartbeat_checks pe \<and>
     pe_activity_count pe' = pe_activity_count pe \<and> pe_aes pe' = pe_aes pe"

lemma same_identity_refl [simp]: "same_identity pe pe"
  by (simp add: same_identity_def)

lemma same_identity_flags [simp]:
  "same_identity pe (pe'\<lparr>pe_video_enabled := b\<rparr>) = same_identity pe pe'"
  "same_identity pe (pe'\<lparr>pe_audio_enabled := b\<rparr>) = same_identity pe pe'"
  "same_identity pe (pe'\<lparr>pe_screen_enabled := b\<rparr>) = same_identity pe pe'"
  "same_identity pe (pe'\<lparr>pe_audio_muted := b\<rparr>) = same_identity pe pe'"
  "same_identity pe (pe'\<lparr>pe_is_speaking := b\<rparr>) = same_identity pe pe'"
  "same_identity pe (pe'\<lparr>pe_audio_level := x\<rparr>) = same_identity pe pe'"
  "same_identity pe (pe'\<lparr>pe_has_received_heartbeat := b\<rparr>) = same_identity pe pe'"
  "same_identity pe (pe'\<lparr>pe_last_screen_keyframe_request_ms := t\<rparr>) = same_identity pe pe'"
  by (simp_all add: same_identity_def)

lemma track_sequence_frame [simp]:
  "same_identity pe (snd (track_sequence now mt packet pe))"
  "pe_audio_muted (snd (track_sequence now mt packet pe)) = pe_audio_muted pe"
  "pe_audio_enabled (snd (track_sequence now mt packet pe)) = pe_audio_enabled pe"
  "pe_video_enabled (snd (track_sequence now mt packet pe)) = pe_video_enabled pe"
  "pe_screen_enabled (snd (track_sequence now mt packet pe)) = pe_screen_enabled pe"
  "pe_visible (snd (track_sequence now mt packet pe)) = pe_visible pe"
  "pe_has_received_heartbeat (snd (track_sequence now mt packet pe)) = pe_has_received_heartbeat pe"
  by (simp_all add: track_sequence_def same_identity_def split_beta split: option.split)

definition audible_iff_on :: "'k peer \<Rightarrow> bool" where
  "audible_iff_on pe \<longleftrightarrow> pe_audio_muted pe = (\<not> pe_audio_enabled pe)"

abbreviation result_peer :: "'k decode_result \<Rightarrow> 'k peer" where
  "result_peer r \<equiv> fst (snd r)"

abbreviation result_effects :: "'k decode_result \<Rightarrow> peer_effect list" where
  "result_effects r \<equiv> snd (snd r)"

lemma broadcast_no_push [simp]:
  "PushVideo p \<notin> set (broadcast_peer_status pe)" "PushAudio p \<notin> set (broadcast_peer_status pe)"
  by (simp_all add: broadcast_peer_status_def)

text \<open>The ways a packet can go, with what each does to the peer's media flags.\<close>

lemma decode_video_frame [simp]:
  "same_identity pe (result_peer (decode_video now A packet pe))"
  "pe_audio_muted (result_peer (decode_video now A packet pe)) = pe_audio_muted pe"
  "pe_audio_enabled (result_peer (decode_video now A packet pe)) = pe_audio_enabled pe"
  "pe_has_received_heartbeat (result_peer (decode_video now A packet pe)) = pe_has_received_heartbeat pe"
  "PushAudio p \<notin> set (result_effects (decode_video now A packet pe))"
  by (simp_all add: decode_video_def Let_def split_beta split: option.split)

lemma decode_video_enabled:
  "pe_video_enabled (result_peer (decode_video now A packet pe)) =
     (pe_video_enabled pe \<or> \<not> pe_has_received_heartbeat pe)"
  by (simp add: decode_video_def Let_def split_beta split: option.split)

lemma decode_video_push:
  "PushVideo p \<in> set (result_effects (decode_video now A packet pe)) \<Longrightarrow>
     p = packet \<and> (pe_video_enabled pe \<or> \<not> pe_has_received_heartbeat pe)"
  by (simp add: decode_video_def Let_def split_beta split: option.splits if_splits)

lemma decode_audio_frame [simp]:
  "same_identity pe (result_peer (decode_audio A packet pe))"
  "pe_video_enabled (result_peer (decode_audio A packet pe)) = pe_video_enabled pe"
  "pe_has_received_heartbeat (result_peer (decode_audio A packet pe)) = pe_has_received_heartbeat pe"
  "PushVideo p \<notin> set (result_effects (decode_audio A packet pe))"
  by (simp_all add: decode_audio_def Let_def split: option.split)

lemma decode_audio_enabled:
  "pe_audio_enabled (result_peer (decode_audio A packet pe)) =
     (pe_audio_enabled pe \<or> \<not> pe_has_received_heartbeat pe)"
  "audible_iff_on pe \<Longrightarrow> audible_iff_on (result_peer (decode_audio A packet pe))"
  by (simp_all add: decode_audio_def audible_iff_on_def Let_def split: option.split)

lemma decode_audio_push:
  "PushAudio p \<in> set (result_effects (decode_audio A packet pe)) \<Longrightarrow>
     p = packet \<and> (pe_audio_enabled pe \<or> \<not> pe_has_received_heartbeat pe)"
  by (simp add: decode_audio_def Let_def split: option.splits if_splits)

lemma decode_screen_frame [simp]:
  "same_identity pe (result_peer (decode_screen now A packet pe))"
  "pe_audio_muted (result_peer (decode_screen now A packet pe)) = pe_audio_muted pe"
  "pe_audio_enabled (result_peer (decode_screen now A packet pe)) = pe_audio_enabled pe"
  "pe_video_enabled (result_peer (decode_screen now A packet pe)) = pe_video_enabled pe"
  "pe_has_received_heartbeat (result_peer (decode_screen now A packet pe)) = pe_has_received_heartbeat pe"
  "PushVideo p \<notin> set (result_effects (decode_screen now A packet pe))"
  "PushAudio p \<notin> set (result_effects (decode_screen now A packet pe))"
  by (simp_all add: decode_screen_def Let_def split_beta split: option.split)

lemma decode_heartbeat_frame [simp]:
  "same_identity pe (result_peer (decode_heartbeat packet pe))"
  "pe_has_received_heartbeat (result_peer (decode_heartbeat packet pe))"
  "pe_audio_enabled (result_peer (decode_heartbeat packet pe)) =
     (case med_heartbeat_metadata packet of None \<Rightarrow> pe_audio_enabled pe | Some md \<Rightarrow> hm_audio_enabled md)"
  "pe_video_enabled (result_peer (decode_heartbeat packet pe)) =
     (case med_heartbeat_metadata packet of None \<Rightarrow> pe_video_enabled pe | Some md \<Rightarrow> hm_video_enabled md)"
  "PushVideo p \<notin> set (result_effects (decode_heartbeat packet pe))"
  "PushAudio p \<notin> set (result_effects (decode_heartbeat packet pe))"
  by (simp_all add: decode_heartbeat_def Let_def split: option.split)

lemma decode_heartbeat_audible: "audible_iff_on pe \<Longrightarrow> audible_iff_on (result_peer (decode_heartbeat packet pe))"
  by (simp add: decode_heartbeat_def audible_iff_on_def Let_def split: option.split)

lemma decode_media_identity: "same_identity pe (result_peer (decode_media now A packet pe))"
  by (simp add: decode_media_def split: option.split media_type.split)

lemma audible_iff_on_cong:
  "pe_audio_muted pe' = pe_audio_muted pe \<Longrightarrow> pe_audio_enabled pe' = pe_audio_enabled pe \<Longrightarrow>
   audible_iff_on pe' = audible_iff_on pe"
  by (simp add: audible_iff_on_def)

lemma decode_media_audible:
  assumes "audible_iff_on pe"
  shows "audible_iff_on (result_peer (decode_media now A packet pe))"
proof -
  have "audible_iff_on (result_peer (decode_video now A packet pe))"
    "audible_iff_on (result_peer (decode_screen now A packet pe))"
    using assms by (simp_all add: audible_iff_on_def)
  then show ?thesis
    using assms
    by (simp add: decode_media_def decode_audio_enabled decode_heartbeat_audible
        split: option.split media_type.split)
qed

lemma peer_decode_identity: "same_identity pe (result_peer (peer_decode P dec now A packet pe))"
  by (simp add: peer_decode_def decode_media_identity split: sum.split)

lemma peer_decode_audible:
  "audible_iff_on pe \<Longrightarrow> audible_iff_on (result_peer (peer_decode P dec now A packet pe))"
  by (simp add: peer_decode_def decode_media_audible split: sum.split)

section \<open>The table of peers\<close>

datatype 'k pm_event =
    PmEnsure bool u64 string
  | PmDecode u64 decoder_answers packet_wrapper string
  | PmMonitor
  | PmDelete u64
  | PmClear
  | PmSetAes u64 'k
  | PmName string string
  | PmVisible u64 bool
  | PmVad "real option"
  | PmSender string

fun pm_step ::
  "proto \<Rightarrow> ('k \<Rightarrow> bytes \<Rightarrow> bytes option) \<Rightarrow> 'k peer_manager \<Rightarrow> 'k pm_event \<Rightarrow> 'k peer_manager" where
  "pm_step P dec pm (PmEnsure ok sid uid) = snd (ensure_peer ok sid uid pm)"
| "pm_step P dec pm (PmDecode now A packet userid) = fst (snd (manager_decode P dec now A packet userid pm))"
| "pm_step P dec pm PmMonitor = fst (run_peer_monitor pm)"
| "pm_step P dec pm (PmDelete sid) = fst (delete_peer sid pm)"
| "pm_step P dec pm PmClear = fst (clear_all_peers pm)"
| "pm_step P dec pm (PmSetAes sid k) = snd (set_peer_aes sid k pm)"
| "pm_step P dec pm (PmName uid name) = set_peer_display_name_by_user_id uid name pm"
| "pm_step P dec pm (PmVisible sid b) = set_peer_visibility sid b pm"
| "pm_step P dec pm (PmVad th) = set_vad_threshold th pm"
| "pm_step P dec pm (PmSender uid) = set_send_packet_callback uid pm"

definition peer_ok :: "(string \<rightharpoonup> string) \<Rightarrow> u64 \<Rightarrow> 'k peer \<Rightarrow> bool" where
  "peer_ok names sid pe \<longleftrightarrow>
     pe_session_id pe = sid \<and> pe_sid_str pe = show_u64 sid \<and> audible_iff_on pe \<and>
     pe_display_name pe = names (pe_user_id pe) \<and> unat (pe_missed_heartbeat_checks pe) \<le> 2"

definition pm_ok :: "'k peer_manager \<Rightarrow> bool" where
  "pm_ok pm \<longleftrightarrow>
     hmok_wf (pm_connected_peers pm) \<and>
     (\<forall>sid pe. hm_map (pm_connected_peers pm) sid = Some pe \<longrightarrow> peer_ok (pm_display_name_cache pm) sid pe)"

lemma hmok_modify_simps [simp]:
  "hm_keys (hmok_modify k f m) = hm_keys m"
  "hm_map (hmok_modify k f m) = (case hm_map m k of None \<Rightarrow> hm_map m | Some v \<Rightarrow> (hm_map m)(k \<mapsto> f v))"
  by (simp_all add: hmok_modify_def split: option.split)

lemma hmok_wf_modify: "hmok_wf m \<Longrightarrow> hmok_wf (hmok_modify k f m)"
  by (auto simp: hmok_wf_def split: option.split)

lemma modify_peer_simps [simp]:
  "pm_display_name_cache (modify_peer sid f pm) = pm_display_name_cache pm"
  "pm_send_packet (modify_peer sid f pm) = pm_send_packet pm"
  "pm_local_user_id (modify_peer sid f pm) = pm_local_user_id pm"
  "hm_keys (pm_connected_peers (modify_peer sid f pm)) = hm_keys (pm_connected_peers pm)"
  "hm_map (pm_connected_peers (modify_peer sid f pm)) =
     (case hm_map (pm_connected_peers pm) sid of None \<Rightarrow> hm_map (pm_connected_peers pm)
      | Some v \<Rightarrow> (hm_map (pm_connected_peers pm))(sid \<mapsto> f v))"
  by (simp_all add: modify_peer_def)

lemma pm_ok_modify:
  assumes "pm_ok pm" and "\<And>pe. hm_map (pm_connected_peers pm) sid = Some pe \<Longrightarrow>
      peer_ok (pm_display_name_cache pm) sid (f pe)"
  shows "pm_ok (modify_peer sid f pm)"
proof -
  have "hmok_wf (pm_connected_peers (modify_peer sid f pm))"
    using assms(1) by (simp add: modify_peer_def pm_ok_def hmok_wf_modify)
  then show ?thesis
    using assms by (auto simp: pm_ok_def split: option.splits)
qed

lemma peer_ok_identity:
  "peer_ok names sid pe \<Longrightarrow> same_identity pe pe' \<Longrightarrow> audible_iff_on pe' \<Longrightarrow> peer_ok names sid pe'"
  by (simp add: peer_ok_def same_identity_def)

lemma peer_ok_flags [simp]:
  "peer_ok names sid (pe\<lparr>pe_context_initialized := b\<rparr>) = peer_ok names sid pe"
  "peer_ok names sid (pe\<lparr>pe_visible := b\<rparr>) = peer_ok names sid pe"
  "peer_ok names sid (pe\<lparr>pe_aes := a\<rparr>) = peer_ok names sid pe"
  "peer_ok names sid (pe\<lparr>pe_activity_count := n\<rparr>) = peer_ok names sid pe"
  by (simp_all add: peer_ok_def audible_iff_on_def)

lemma pm_ok_decode:
  assumes "pm_ok pm"
  shows "pm_ok (fst (snd (manager_decode P dec now A packet userid pm)))"
proof (cases "hm_map (pm_connected_peers pm) (pw_session_id packet)")
  case None
  then show ?thesis using assms by (simp add: manager_decode_def Let_def)
next
  case (Some peer)
  let ?sid = "pw_session_id packet"
  let ?p0 = "peer\<lparr>pe_context_initialized := True\<rparr>"
  obtain r pe1 es where d: "peer_decode P dec now A packet ?p0 = (r, pe1, es)" by (metis prod_cases3)
  have ok0: "peer_ok (pm_display_name_cache pm) ?sid ?p0" using assms Some by (simp add: pm_ok_def)
  then have ok1: "peer_ok (pm_display_name_cache pm) ?sid pe1"
    using peer_decode_identity [of ?p0 P dec now A packet] peer_decode_audible [of ?p0 P dec now A packet] d
    by (auto simp: peer_ok_def same_identity_def)
  then have reset: "peer_ok (pm_display_name_cache pm) ?sid (fst (snd (peer_reset A pe1)))"
    by (simp add: peer_reset_def peer_ok_def audible_iff_on_def)
  show ?thesis
  proof (cases r)
    case (Inl e)
    then show ?thesis
      using Some d reset assms by (simp add: manager_decode_def Let_def split_beta pm_ok_modify)
  next
    case (Inr ok)
    have act: "peer_ok (pm_display_name_cache pm) ?sid (on_activity pe1)"
      using ok1 by (simp add: on_activity_def)
    obtain mt st kf where ok: "ok = (mt, st, kf)" by (metis prod_cases3)
    show ?thesis
      using Some d Inr ok assms act by (simp add: manager_decode_def Let_def pm_ok_modify)
  qed
qed

lemma check_heartbeat_ok:
  assumes "peer_ok names sid pe" and "fst (check_heartbeat pe)"
  shows "peer_ok names sid (snd (check_heartbeat pe))"
proof -
  have "unat (pe_missed_heartbeat_checks pe + 1) = Suc (unat (pe_missed_heartbeat_checks pe))"
    using assms(1) by (intro unat_plus_one) (simp add: peer_ok_def)
  then show ?thesis
    using assms by (auto simp: check_heartbeat_def peer_ok_def audible_iff_on_def Let_def word_le_nat_alt
        split: if_splits)
qed

lemma pm_ok_monitor: "pm_ok pm \<Longrightarrow> pm_ok (fst (run_peer_monitor pm))"
proof -
  assume ok: "pm_ok pm"
  then have wf: "hmok_wf (pm_connected_peers pm)" by (simp add: pm_ok_def)
  have "snd (hmok_remove_if_and_return check_heartbeat (pm_connected_peers pm)) =
      hmok_apply (pm_connected_peers pm) (HRemoveIf check_heartbeat)"
    using hmok_remove_if_and_return_spec [OF wf, of check_heartbeat] by simp
  then show ?thesis
    using hmok_apply_refines [OF wf, of "HRemoveIf check_heartbeat"] ok
    by (auto simp: run_peer_monitor_def pm_ok_def split_beta split: option.splits if_splits
        intro: check_heartbeat_ok)
qed

lemma pm_ok_insert:
  assumes "pm_ok pm" and "peer_ok (pm_display_name_cache pm) sid pe"
  shows "pm_ok (pm\<lparr>pm_connected_peers := snd (hmok_insert sid pe (pm_connected_peers pm))\<rparr>)"
  using assms hmok_wf_insert [of "pm_connected_peers pm" sid pe] by (auto simp: pm_ok_def)

lemma pm_ok_ensure: "pm_ok pm \<Longrightarrow> pm_ok (snd (ensure_peer ok sid uid pm))"
  by (auto simp: ensure_peer_def add_peer_def Let_def peer_ok_def peer_new_def audible_iff_on_def
      split: option.split intro!: pm_ok_insert)

lemma pm_ok_delete: "pm_ok pm \<Longrightarrow> pm_ok (fst (delete_peer sid pm))"
  using hmok_wf_restrict [of "pm_connected_peers pm" sid] hmok_remove_eq [of "pm_connected_peers pm" sid]
  by (auto simp: delete_peer_def pm_ok_def split: if_splits)

lemma name_fold:
  fixes pm :: "'k peer_manager"
  defines "rename \<equiv> \<lambda>uid (name :: string) (pe :: 'k peer).
      if pe_user_id pe = uid then pe\<lparr>pe_display_name := Some name\<rparr> else pe"
  shows "pm_display_name_cache (foldl (\<lambda>pm key. modify_peer key (rename uid name) pm) pm ks) =
      pm_display_name_cache pm"
    and "hm_keys (pm_connected_peers (foldl (\<lambda>pm key. modify_peer key (rename uid name) pm) pm ks)) =
      hm_keys (pm_connected_peers pm)"
    and "hm_map (pm_connected_peers (foldl (\<lambda>pm key. modify_peer key (rename uid name) pm) pm ks)) sid =
      (if sid \<in> set ks then map_option (rename uid name) (hm_map (pm_connected_peers pm) sid)
       else hm_map (pm_connected_peers pm) sid)"
proof (induction ks arbitrary: pm)
  case (Cons k ks)
  have idem: "rename uid name (rename uid name pe) = rename uid name pe" for pe
    by (simp add: rename_def)
  { case 1 then show ?case using Cons(1) by simp }
  { case 2 then show ?case using Cons(2) by simp }
  { case 3 then show ?case using Cons(3) [of "modify_peer k (rename uid name) pm"]
      by (auto simp: idem option.map_comp comp_def split: option.splits) }
qed simp_all

lemma pm_ok_name: "pm_ok pm \<Longrightarrow> pm_ok (set_peer_display_name_by_user_id uid name pm)"
proof -
  assume ok: "pm_ok pm"
  let ?pm1 = "pm\<lparr>pm_display_name_cache := (pm_display_name_cache pm)(uid \<mapsto> name)\<rparr>"
  let ?f = "\<lambda>pe. if pe_user_id pe = uid then pe\<lparr>pe_display_name := Some name\<rparr> else pe"
  let ?pm2 = "set_peer_display_name_by_user_id uid name pm"
  have keys: "hm_keys (pm_connected_peers ?pm2) = hm_keys (pm_connected_peers pm)"
    and cache: "pm_display_name_cache ?pm2 = (pm_display_name_cache pm)(uid \<mapsto> name)"
    by (simp_all add: set_peer_display_name_by_user_id_def name_fold)
  have dom: "sid \<in> set (hm_keys (pm_connected_peers pm)) \<longleftrightarrow> hm_map (pm_connected_peers pm) sid \<noteq> None" for sid
    using ok by (auto simp: pm_ok_def hmok_wf_def)
  have map: "hm_map (pm_connected_peers ?pm2) sid = map_option ?f (hm_map (pm_connected_peers pm) sid)" for sid
    using dom [of sid] by (auto simp: set_peer_display_name_by_user_id_def name_fold hmok_ordered_keys_def)
  have "hmok_wf (pm_connected_peers ?pm2)"
    using ok by (auto simp: pm_ok_def hmok_wf_def keys map domIff)
  moreover have "peer_ok (pm_display_name_cache ?pm2) sid pe"
    if pe: "hm_map (pm_connected_peers ?pm2) sid = Some pe" for sid pe
  proof -
    obtain z where z: "hm_map (pm_connected_peers pm) sid = Some z" and pez: "pe = ?f z"
      using pe by (auto simp only: map map_option_eq_Some)
    have "peer_ok (pm_display_name_cache pm) sid z" using ok z by (simp add: pm_ok_def)
    then show ?thesis by (simp only: pez) (simp add: cache peer_ok_def audible_iff_on_def)
  qed
  ultimately show ?thesis by (simp add: pm_ok_def)
qed

lemma pm_ok_step: "pm_ok pm \<Longrightarrow> pm_ok (pm_step P dec pm ev)"
proof (cases ev)
  case (PmSetAes sid k)
  assume ok: "pm_ok pm"
  then have "pm_ok (modify_peer sid (\<lambda>pe. pe\<lparr>pe_aes := Some k\<rparr>) pm)"
    by (rule pm_ok_modify) (use ok in \<open>simp add: pm_ok_def\<close>)
  then show ?thesis using PmSetAes ok by (simp add: set_peer_aes_def split: option.split)
next
  case (PmVisible sid b)
  assume ok: "pm_ok pm"
  then have "pm_ok (modify_peer sid (\<lambda>pe. pe\<lparr>pe_visible := b\<rparr>) pm)"
    by (rule pm_ok_modify) (use ok in \<open>simp add: pm_ok_def\<close>)
  then show ?thesis using PmVisible by (simp add: set_peer_visibility_def)
next
  case PmClear
  then show ?thesis by (simp add: clear_all_peers_def hmok_drain_all_def hmok_wf_def pm_ok_def)
next
  case (PmVad th)
  assume "pm_ok pm"
  then show ?thesis using PmVad by (simp add: pm_ok_def set_vad_threshold_def)
next
  case (PmSender uid)
  assume "pm_ok pm"
  then show ?thesis using PmSender by (simp add: pm_ok_def set_send_packet_callback_def)
qed (simp_all add: pm_ok_ensure pm_ok_decode pm_ok_monitor pm_ok_delete pm_ok_name)

interpretation peers: invariant_system "pm_step P dec" pm_ok "\<lambda>_. True"
  by unfold_locales (rule pm_ok_step)

lemma pm_ok_new: "pm_ok (peer_manager_new d)"
  by (simp add: pm_ok_def peer_manager_new_def hmok_new_def hmok_wf_def)

text \<open>Over every run of the manager (packets of any content and order, name announcements, key
  exchanges, visibility changes, monitor ticks, removals) every peer of the table is filed under its
  own session, its audio decoder is muted exactly while its audio is off, it shows the name last
  announced for its user, and it has missed at most two activity checks; the keys are sorted and are
  exactly the table's domain.\<close>

theorem peer_table_consistent:
  "hmok_wf (pm_connected_peers (foldl (pm_step P dec) (peer_manager_new d) evs)) \<and>
   (\<forall>sid pe. get_peer sid (foldl (pm_step P dec) (peer_manager_new d) evs) = Some pe \<longrightarrow>
      pe_session_id pe = sid \<and> pe_sid_str pe = show_u64 sid \<and>
      pe_audio_muted pe = (\<not> pe_audio_enabled pe) \<and>
      pe_display_name pe = pm_display_name_cache (foldl (pm_step P dec) (peer_manager_new d) evs) (pe_user_id pe) \<and>
      pe_missed_heartbeat_checks pe \<le> 2)"
proof -
  have "pm_ok (foldl (pm_step P dec) (peer_manager_new d) evs)"
    by (rule peers.run_inv [OF pm_ok_new]) (simp add: list_all_iff)
  then show ?thesis
    by (simp add: pm_ok_def peer_ok_def audible_iff_on_def get_peer_def hmok_get_def word_le_nat_alt)
qed

section \<open>One peer among the others\<close>

text \<open>What an event does to one peer of the table; the other peers have no part in it.\<close>

definition decoded_peer ::
  "proto \<Rightarrow> ('k \<Rightarrow> bytes \<Rightarrow> bytes option) \<Rightarrow> u64 \<Rightarrow> decoder_answers \<Rightarrow> packet_wrapper \<Rightarrow> 'k peer \<Rightarrow> 'k peer" where
  "decoded_peer P dec now A packet pe =
     (case peer_decode P dec now A packet (pe\<lparr>pe_context_initialized := True\<rparr>) of
        (Inl e, pe1, es) \<Rightarrow> fst (snd (peer_reset A pe1))
      | (Inr ok, pe1, es) \<Rightarrow> on_activity pe1)"

fun peer_next ::
  "proto \<Rightarrow> ('k \<Rightarrow> bytes \<Rightarrow> bytes option) \<Rightarrow> u64 \<Rightarrow> 'k pm_event \<Rightarrow> 'k peer \<Rightarrow> 'k peer option" where
  "peer_next P dec sid (PmDecode now A packet userid) pe =
     Some (if pw_session_id packet = sid then decoded_peer P dec now A packet pe else pe)"
| "peer_next P dec sid PmMonitor pe =
     (if fst (check_heartbeat pe) then Some (snd (check_heartbeat pe)) else None)"
| "peer_next P dec sid (PmDelete s) pe = (if s = sid then None else Some pe)"
| "peer_next P dec sid PmClear pe = None"
| "peer_next P dec sid (PmSetAes s k) pe = Some (if s = sid then pe\<lparr>pe_aes := Some k\<rparr> else pe)"
| "peer_next P dec sid (PmName uid name) pe =
     Some (if pe_user_id pe = uid then pe\<lparr>pe_display_name := Some name\<rparr> else pe)"
| "peer_next P dec sid (PmVisible s b) pe = Some (if s = sid then pe\<lparr>pe_visible := b\<rparr> else pe)"
| "peer_next P dec sid (PmEnsure ok s uid) pe = Some pe"
| "peer_next P dec sid (PmVad th) pe = Some pe"
| "peer_next P dec sid (PmSender uid) pe = Some pe"

lemma ensure_peer_keeps:
  "hm_map (pm_connected_peers pm) sid = Some pe \<Longrightarrow>
   hm_map (pm_connected_peers (snd (ensure_peer ok s uid pm))) sid = Some pe"
  by (auto simp: ensure_peer_def add_peer_def Let_def hmok_contains_key_def hmok_insert_def split: option.split)

lemma manager_decode_peers:
  assumes "hm_map (pm_connected_peers pm) (pw_session_id packet) = Some pe"
  shows "hm_map (pm_connected_peers (fst (snd (manager_decode P dec now A packet userid pm)))) =
      (hm_map (pm_connected_peers pm))(pw_session_id packet \<mapsto> decoded_peer P dec now A packet pe)"
proof -
  obtain r pe1 es where d: "peer_decode P dec now A packet (pe\<lparr>pe_context_initialized := True\<rparr>) = (r, pe1, es)"
    by (metis prod_cases3)
  then show ?thesis
    using assms by (cases r) (simp_all add: manager_decode_def decoded_peer_def Let_def split_beta)
qed

lemma manager_decode_other:
  assumes "pw_session_id packet \<noteq> sid"
  shows "hm_map (pm_connected_peers (fst (snd (manager_decode P dec now A packet userid pm)))) sid =
      hm_map (pm_connected_peers pm) sid"
  using assms manager_decode_peers [of pm packet _ P dec now A userid]
  by (cases "hm_map (pm_connected_peers pm) (pw_session_id packet)") (simp_all add: manager_decode_def Let_def)

lemma monitor_peers:
  assumes "pm_ok pm"
  shows "hm_map (pm_connected_peers (fst (run_peer_monitor pm))) sid =
      (case hm_map (pm_connected_peers pm) sid of
         None \<Rightarrow> None
       | Some pe \<Rightarrow> if fst (check_heartbeat pe) then Some (snd (check_heartbeat pe)) else None)"
proof -
  have wf: "hmok_wf (pm_connected_peers pm)" using assms by (simp add: pm_ok_def)
  have "snd (hmok_remove_if_and_return check_heartbeat (pm_connected_peers pm)) =
      hmok_apply (pm_connected_peers pm) (HRemoveIf check_heartbeat)"
    using hmok_remove_if_and_return_spec [OF wf, of check_heartbeat] by simp
  then show ?thesis
    using hmok_apply_refines [OF wf, of "HRemoveIf check_heartbeat"]
    by (simp add: run_peer_monitor_def split_beta split: option.split)
qed

lemma name_peers:
  assumes "pm_ok pm"
  shows "hm_map (pm_connected_peers (set_peer_display_name_by_user_id uid name pm)) sid =
      map_option (\<lambda>pe. if pe_user_id pe = uid then pe\<lparr>pe_display_name := Some name\<rparr> else pe)
        (hm_map (pm_connected_peers pm) sid)"
proof -
  have "sid \<in> set (hm_keys (pm_connected_peers pm)) \<longleftrightarrow> hm_map (pm_connected_peers pm) sid \<noteq> None"
    using assms by (auto simp: pm_ok_def hmok_wf_def)
  then show ?thesis
    by (auto simp: set_peer_display_name_by_user_id_def name_fold hmok_ordered_keys_def)
qed

lemma pm_step_peer:
  assumes "pm_ok pm" and "get_peer sid pm = Some pe"
  shows "get_peer sid (pm_step P dec pm ev) = peer_next P dec sid ev pe"
proof -
  have pe: "hm_map (pm_connected_peers pm) sid = Some pe" using assms(2) by (simp add: get_peer_def hmok_get_def)
  have wf: "hmok_wf (pm_connected_peers pm)" using assms(1) by (simp add: pm_ok_def)
  show ?thesis
  proof (cases ev)
    case (PmDecode now A packet userid)
    then show ?thesis
      using pe by (auto simp: get_peer_def hmok_get_def manager_decode_peers manager_decode_other)
  next
    case (PmDelete s)
    then show ?thesis
      using pe hmok_remove_eq [OF wf, of s]
      by (simp add: get_peer_def hmok_get_def delete_peer_def split_beta)
  next
    case (PmSetAes s k)
    then show ?thesis
      using pe by (simp add: get_peer_def hmok_get_def set_peer_aes_def split: option.split)
  next
    case (PmVisible s b)
    then show ?thesis
      using pe by (simp add: get_peer_def hmok_get_def set_peer_visibility_def split: option.split)
  qed (use pe assms(1) in \<open>simp_all add: get_peer_def hmok_get_def ensure_peer_keeps monitor_peers name_peers
      clear_all_peers_def hmok_drain_all_def set_vad_threshold_def set_send_packet_callback_def\<close>)
qed

abbreviation pm_run ::
  "proto \<Rightarrow> ('k \<Rightarrow> bytes \<Rightarrow> bytes option) \<Rightarrow> bool \<Rightarrow> 'k pm_event list \<Rightarrow> 'k peer_manager" where
  "pm_run P dec d evs \<equiv> foldl (pm_step P dec) (peer_manager_new d) evs"

lemma pm_ok_run: "pm_ok (pm_run P dec d evs)"
  by (rule peers.run_inv [OF pm_ok_new]) (simp add: list_all_iff)

section \<open>Silent peers\<close>

fun quiet :: "u64 \<Rightarrow> 'k pm_event \<Rightarrow> bool" where
  "quiet sid (PmDecode now A packet userid) = (pw_session_id packet \<noteq> sid)"
| "quiet sid (PmDelete s) = (s \<noteq> sid)"
| "quiet sid PmClear = False"
| "quiet sid ev = True"

definition ticks :: "'k pm_event list \<Rightarrow> nat" where
  "ticks evs = length (filter (\<lambda>ev. ev = PmMonitor) evs)"

text \<open>How many checks a peer has been silent for, counting the one that resets the activity.\<close>

definition silence :: "'k peer \<Rightarrow> nat" where
  "silence pe = (if 0 < pe_activity_count pe then 0 else Suc (unat (pe_missed_heartbeat_checks pe)))"

lemma quiet_next:
  assumes "quiet sid ev" and "ev \<noteq> PmMonitor"
  shows "\<exists>pe'. peer_next P dec sid ev pe = Some pe' \<and> silence pe' = silence pe"
  using assms by (cases ev) (simp_all add: silence_def)

lemma monitor_next:
  assumes "unat (pe_missed_heartbeat_checks pe) \<le> 2"
  shows "if 3 \<le> silence pe then peer_next P dec sid PmMonitor pe = None
    else \<exists>pe'. peer_next P dec sid PmMonitor pe = Some pe' \<and> silence pe' = Suc (silence pe)"
proof -
  have "unat (pe_missed_heartbeat_checks pe + 1) = Suc (unat (pe_missed_heartbeat_checks pe))"
    using assms by (intro unat_plus_one) simp
  then show ?thesis
    using assms by (auto simp: silence_def check_heartbeat_def Let_def word_le_nat_alt)
qed

lemma quiet_run:
  assumes "pm_ok pm" and "get_peer sid pm = Some pe" and "list_all (quiet sid) evs" and "silence pe + ticks evs \<le> 3"
  shows "\<exists>pe'. get_peer sid (foldl (pm_step P dec) pm evs) = Some pe' \<and> silence pe' = silence pe + ticks evs"
  using assms
proof (induction evs arbitrary: pm pe)
  case Nil
  then show ?case by (simp add: ticks_def)
next
  case (Cons ev evs)
  have missed: "unat (pe_missed_heartbeat_checks pe) \<le> 2"
    using Cons.prems(1,2) by (simp add: pm_ok_def peer_ok_def get_peer_def hmok_get_def)
  have q: "quiet sid ev" using Cons.prems(3) by simp
  have t: "ticks (ev # evs) = (if ev = PmMonitor then 1 else 0) + ticks evs" by (simp add: ticks_def)
  have "\<exists>pe'. peer_next P dec sid ev pe = Some pe' \<and> silence pe' = silence pe + (if ev = PmMonitor then 1 else 0)"
  proof (cases "ev = PmMonitor")
    case True
    then have "\<not> 3 \<le> silence pe" using Cons.prems(4) t by simp
    then show ?thesis using monitor_next [OF missed, of P dec sid] True by simp
  next
    case False
    then show ?thesis using quiet_next [OF q False, of P dec pe] by simp
  qed
  then obtain pe' where pe': "peer_next P dec sid ev pe = Some pe'"
      "silence pe' = silence pe + (if ev = PmMonitor then 1 else 0)" by blast
  then have "get_peer sid (pm_step P dec pm ev) = Some pe'"
    using pm_step_peer [OF Cons.prems(1,2)] by simp
  from Cons.IH [OF pm_ok_step [OF Cons.prems(1)] this] Cons.prems(3,4) pe'(2) t show ?case
    by (auto split: if_splits)
qed

lemma distinct_count_list: "distinct xs \<Longrightarrow> count_list xs x = (if x \<in> set xs then 1 else 0)"
  by (induction xs) auto

lemma monitor_reports:
  assumes "pm_ok pm"
  shows "distinct (snd (run_peer_monitor pm))"
    and "get_peer sid pm = Some pe \<Longrightarrow>
      PeerRemoved (show_u64 sid) \<in> set (snd (run_peer_monitor pm)) \<longleftrightarrow> \<not> fst (check_heartbeat pe)"
proof -
  have wf: "hmok_wf (pm_connected_peers pm)" using assms by (simp add: pm_ok_def)
  let ?m = "pm_connected_peers pm"
  let ?out = "filter (\<lambda>k. \<not> fst (check_heartbeat (the (hm_map ?m k)))) (hm_keys ?m)"
  have str: "pe_sid_str (snd (check_heartbeat (the (hm_map ?m k)))) = show_u64 k" if "k \<in> set (hm_keys ?m)" for k
  proof -
    have "k \<in> dom (hm_map ?m)" using wf that by (simp add: hmok_wf_def)
    then obtain pe where "hm_map ?m k = Some pe" by blast
    then show ?thesis
      using assms by (simp add: pm_ok_def peer_ok_def check_heartbeat_def Let_def)
  qed
  then have eff: "snd (run_peer_monitor pm) = map (\<lambda>k. PeerRemoved (show_u64 k)) ?out"
    using hmok_remove_if_and_return_spec [OF wf, of check_heartbeat]
    by (simp add: run_peer_monitor_def split_beta)
  have "distinct ?out" using wf by (simp add: hmok_wf_def strict_sorted_iff)
  then show "distinct (snd (run_peer_monitor pm))"
    by (auto simp: eff distinct_map inj_on_def show_u64_inj)
  show "PeerRemoved (show_u64 sid) \<in> set (snd (run_peer_monitor pm)) \<longleftrightarrow> \<not> fst (check_heartbeat pe)"
    if "get_peer sid pm = Some pe"
  proof -
    have "sid \<in> set (hm_keys ?m)" "the (hm_map ?m sid) = pe"
      using that wf by (auto simp: hmok_wf_def get_peer_def hmok_get_def)
    then show ?thesis by (auto simp: eff show_u64_inj)
  qed
qed

text \<open>C26: A peer that was active since the last check and then sends nothing more survives the next three
  checks of the monitor and is removed by the fourth, which reports its departure exactly once,
  whatever happens to the other peers in between and whatever the user interface does with this one.\<close>

theorem silent_peer_removed:
  assumes "get_peer sid (pm_run P dec d hist) = Some pe" and "0 < pe_activity_count pe"
    and "list_all (quiet sid) evs"
  shows "(ticks evs \<le> 3 \<longrightarrow> get_peer sid (pm_run P dec d (hist @ evs)) \<noteq> None) \<and>
    (ticks evs = 3 \<longrightarrow>
       get_peer sid (fst (run_peer_monitor (pm_run P dec d (hist @ evs)))) = None \<and>
       count_list (snd (run_peer_monitor (pm_run P dec d (hist @ evs)))) (PeerRemoved (show_u64 sid)) = 1)"
proof (cases "ticks evs \<le> 3")
  case True
  have s: "silence pe = 0" using assms(2) by (simp add: silence_def)
  obtain pe' where pe': "get_peer sid (pm_run P dec d (hist @ evs)) = Some pe'" "silence pe' = ticks evs"
    using quiet_run [OF pm_ok_run assms(1,3)] True s by auto
  have ok: "pm_ok (pm_run P dec d (hist @ evs))" by (rule pm_ok_run)
  have missed: "unat (pe_missed_heartbeat_checks pe') \<le> 2"
    using ok pe'(1) by (simp add: pm_ok_def peer_ok_def get_peer_def hmok_get_def)
  have gone: "peer_next P dec sid PmMonitor pe' = None" if "ticks evs = 3"
    using monitor_next [OF missed, of P dec sid] pe'(2) that by simp
  have "get_peer sid (fst (run_peer_monitor (pm_run P dec d (hist @ evs)))) = None" if "ticks evs = 3"
    using pm_step_peer [OF ok pe'(1), of P dec PmMonitor] gone that by simp
  moreover have "count_list (snd (run_peer_monitor (pm_run P dec d (hist @ evs)))) (PeerRemoved (show_u64 sid)) = 1"
    if "ticks evs = 3"
    using distinct_count_list [OF monitor_reports(1) [OF ok]] monitor_reports(2) [OF ok pe'(1)] gone that
    by (simp split: if_splits)
  ultimately show ?thesis using pe'(1) by simp
qed simp

section \<open>Media flags follow the heartbeats\<close>

text \<open>The heartbeat metadata an event brings for a peer, and the last of them since the peer was added.\<close>

definition heartbeat_of ::
  "proto \<Rightarrow> ('k \<Rightarrow> bytes \<Rightarrow> bytes option) \<Rightarrow> u64 \<Rightarrow> 'k peer_manager \<Rightarrow> 'k pm_event \<Rightarrow> heartbeat_metadata option" where
  "heartbeat_of P dec sid pm ev =
     (case ev of
        PmDecode now A packet userid \<Rightarrow>
          if pw_session_id packet = sid
          then Option.bind (get_peer sid pm) (\<lambda>pe.
                 case open_packet P dec packet pe of
                   Inr mp \<Rightarrow> if media_type_from_i32 (med_media_type mp) = Some HEARTBEAT
                              then med_heartbeat_metadata mp else None
                 | Inl e \<Rightarrow> None)
          else None
      | _ \<Rightarrow> None)"

definition told_step ::
  "proto \<Rightarrow> ('k \<Rightarrow> bytes \<Rightarrow> bytes option) \<Rightarrow> u64 \<Rightarrow> 'k peer_manager \<times> heartbeat_metadata option \<Rightarrow> 'k pm_event \<Rightarrow>
   'k peer_manager \<times> heartbeat_metadata option" where
  "told_step P dec sid s ev =
     (pm_step P dec (fst s) ev,
      if get_peer sid (pm_step P dec (fst s) ev) = None then None
      else case heartbeat_of P dec sid (fst s) ev of Some md \<Rightarrow> Some md | None \<Rightarrow> snd s)"

abbreviation last_heartbeat ::
  "proto \<Rightarrow> ('k \<Rightarrow> bytes \<Rightarrow> bytes option) \<Rightarrow> bool \<Rightarrow> u64 \<Rightarrow> 'k pm_event list \<Rightarrow> heartbeat_metadata option" where
  "last_heartbeat P dec d sid evs \<equiv> snd (foldl (told_step P dec sid) (peer_manager_new d, None) evs)"

lemma told_step_run: "fst (foldl (told_step P dec sid) (pm, h) evs) = foldl (pm_step P dec) pm evs"
  by (induction evs arbitrary: pm h) (simp_all add: told_step_def)

definition told :: "heartbeat_metadata \<Rightarrow> 'k peer \<Rightarrow> bool" where
  "told md pe \<longleftrightarrow> pe_has_received_heartbeat pe \<and> pe_audio_enabled pe = hm_audio_enabled md \<and>
     pe_video_enabled pe = hm_video_enabled md"

lemma told_flags [simp]:
  "told md (pe\<lparr>pe_audio_muted := b\<rparr>) = told md pe"
  "told md (pe\<lparr>pe_context_initialized := b\<rparr>) = told md pe"
  "told md (pe\<lparr>pe_aes := k\<rparr>) = told md pe"
  "told md (pe\<lparr>pe_display_name := n\<rparr>) = told md pe"
  "told md (pe\<lparr>pe_visible := b\<rparr>) = told md pe"
  "told md (on_activity pe) = told md pe"
  "told md (snd (check_heartbeat pe)) = told md pe"
  "told md (fst (snd (peer_reset A pe))) = told md pe"
  by (simp_all add: told_def on_activity_def check_heartbeat_def peer_reset_def Let_def)

lemma open_packet_context [simp]:
  "open_packet P dec packet (pe\<lparr>pe_context_initialized := b\<rparr>) = open_packet P dec packet pe"
  by (simp add: open_packet_def split: option.split)

lemma decode_media_told:
  assumes "media_type_from_i32 (med_media_type mp) = Some HEARTBEAT \<Longrightarrow> med_heartbeat_metadata mp = None"
    and "told md pe"
  shows "told md (result_peer (decode_media now A mp pe))"
  using assms
  by (simp add: decode_media_def told_def decode_video_enabled decode_audio_enabled
      split: option.split media_type.split)

lemma decode_media_heartbeat:
  assumes "media_type_from_i32 (med_media_type mp) = Some HEARTBEAT" and "med_heartbeat_metadata mp = Some md"
  shows "told md (result_peer (decode_media now A mp pe))"
  using assms by (simp add: decode_media_def told_def)

lemma decoded_peer_told:
  "told md (decoded_peer P dec now A packet pe) =
     told md (result_peer (peer_decode P dec now A packet (pe\<lparr>pe_context_initialized := True\<rparr>)))"
  by (simp add: decoded_peer_def split: prod.split sum.split)

lemma told_next:
  assumes "heartbeat_of P dec sid pm ev = None" and "get_peer sid pm = Some pe" and "told md pe"
    and "peer_next P dec sid ev pe = Some pe'"
  shows "told md pe'"
proof (cases ev)
  case (PmDecode now A packet userid)
  show ?thesis
  proof (cases "pw_session_id packet = sid")
    case True
    have "told md (result_peer (peer_decode P dec now A packet (pe\<lparr>pe_context_initialized := True\<rparr>)))"
    proof (cases "open_packet P dec packet pe")
      case (Inl e)
      then show ?thesis using assms(3) by (simp add: peer_decode_def)
    next
      case (Inr mp)
      then have "med_heartbeat_metadata mp = None"
        if "media_type_from_i32 (med_media_type mp) = Some HEARTBEAT"
        using assms(1,2) PmDecode True that by (simp add: heartbeat_of_def)
      then have "told md (result_peer (decode_media now A mp (pe\<lparr>pe_context_initialized := True\<rparr>)))"
        using assms(3) by (intro decode_media_told) simp_all
      then show ?thesis using Inr by (simp add: peer_decode_def)
    qed
    then have "told md (decoded_peer P dec now A packet pe)" by (simp add: decoded_peer_told)
    then show ?thesis using assms(4) PmDecode True by auto
  qed (use assms(3,4) PmDecode in auto)
qed (use assms(3,4) in \<open>auto split: if_splits\<close>)

lemma heartbeat_next:
  assumes "heartbeat_of P dec sid pm ev = Some md" and "get_peer sid pm = Some pe"
    and "peer_next P dec sid ev pe = Some pe'"
  shows "told md pe'"
proof -
  obtain now A packet userid mp where ev: "ev = PmDecode now A packet userid" "pw_session_id packet = sid"
      and mp: "open_packet P dec packet pe = Inr mp" "media_type_from_i32 (med_media_type mp) = Some HEARTBEAT"
        "med_heartbeat_metadata mp = Some md"
    using assms(1,2) by (auto simp: heartbeat_of_def split: pm_event.splits if_splits sum.splits)
  have "told md (decoded_peer P dec now A packet pe)"
    using decode_media_heartbeat [OF mp(2,3)] mp(1) by (simp add: decoded_peer_told peer_decode_def)
  then show ?thesis using assms(3) ev by auto
qed

definition told_inv :: "u64 \<Rightarrow> 'k peer_manager \<times> heartbeat_metadata option \<Rightarrow> bool" where
  "told_inv sid s \<longleftrightarrow> pm_ok (fst s) \<and>
     (\<forall>md. snd s = Some md \<longrightarrow> (\<exists>pe. get_peer sid (fst s) = Some pe \<and> told md pe))"

lemma heartbeat_of_present: "heartbeat_of P dec sid pm ev = Some md \<Longrightarrow> get_peer sid pm \<noteq> None"
  by (cases "get_peer sid pm") (simp_all add: heartbeat_of_def split: pm_event.splits if_splits)

lemma told_inv_step:
  assumes "told_inv sid s"
  shows "told_inv sid (told_step P dec sid s ev)"
proof -
  obtain pm h where s: "s = (pm, h)" by (cases s)
  have ok: "pm_ok pm" using assms s by (simp add: told_inv_def)
  have "\<exists>pe. get_peer sid (pm_step P dec pm ev) = Some pe \<and> told md pe"
    if md: "snd (told_step P dec sid s ev) = Some md" for md
  proof -
    obtain pe' where pe': "get_peer sid (pm_step P dec pm ev) = Some pe'"
      using md s by (auto simp: told_step_def split: if_splits)
    show ?thesis
    proof (cases "heartbeat_of P dec sid pm ev")
      case None
      then have "h = Some md" using md s pe' by (simp add: told_step_def)
      then obtain pe where pe: "get_peer sid pm = Some pe" "told md pe"
        using assms s by (auto simp: told_inv_def)
      have "peer_next P dec sid ev pe = Some pe'" using pm_step_peer [OF ok pe(1), of P dec ev] pe' by simp
      from told_next [OF None pe this] show ?thesis using pe' by simp
    next
      case (Some md')
      then have m: "md' = md" using md s pe' by (simp add: told_step_def)
      obtain pe where pe: "get_peer sid pm = Some pe" using heartbeat_of_present [OF Some] by blast
      have "peer_next P dec sid ev pe = Some pe'" using pm_step_peer [OF ok pe, of P dec ev] pe' by simp
      from heartbeat_next [OF Some pe this] show ?thesis using pe' m by simp
    qed
  qed
  then show ?thesis using ok pm_ok_step [OF ok] s by (simp add: told_inv_def told_step_def)
qed

interpretation told_heartbeats: invariant_system "told_step P dec sid" "told_inv sid" "\<lambda>_. True"
  by unfold_locales (rule told_inv_step)

lemma last_heartbeat_told:
  assumes "last_heartbeat P dec d sid evs = Some md"
  shows "\<exists>pe. get_peer sid (pm_run P dec d evs) = Some pe \<and> told md pe"
proof -
  have "told_inv sid (foldl (told_step P dec sid) (peer_manager_new d, None) evs)"
    by (rule told_heartbeats.run_inv) (simp_all add: told_inv_def pm_ok_new list_all_iff)
  then show ?thesis using assms by (auto simp: told_inv_def told_step_run)
qed

lemma send_keyframe_request_fx [simp]: "PeerFx s e \<notin> set (send_keyframe_request P u mt pm)"
  by (simp add: send_keyframe_request_def Let_def split: option.split)

lemma manager_decode_fx:
  assumes "hm_map (pm_connected_peers pm) (pw_session_id packet) = Some pe"
    and "e \<noteq> RebuildDecoders" and "\<And>b. e \<noteq> SetMuted b"
  shows "PeerFx sid e \<in> set (snd (snd (manager_decode P dec now A packet userid pm))) \<longleftrightarrow>
      sid = pw_session_id packet \<and>
      e \<in> set (result_effects (peer_decode P dec now A packet (pe\<lparr>pe_context_initialized := True\<rparr>)))"
proof -
  obtain r pe1 es where d: "peer_decode P dec now A packet (pe\<lparr>pe_context_initialized := True\<rparr>) = (r, pe1, es)"
    by (metis prod_cases3)
  show ?thesis
    using assms d
    by (cases r) (auto simp: manager_decode_def peer_reset_def Let_def split: option.splits if_splits)
qed

lemma told_pushes:
  assumes "told md pe"
  shows "PushAudio mp \<in> set (result_effects (decode_media now A p pe)) \<longleftrightarrow>
      mp = p \<and> media_type_from_i32 (med_media_type p) = Some AUDIO \<and> hm_audio_enabled md"
    and "PushVideo mp \<in> set (result_effects (decode_media now A p pe)) \<longleftrightarrow>
      mp = p \<and> media_type_from_i32 (med_media_type p) = Some VIDEO \<and> hm_video_enabled md \<and> pe_visible pe"
  using assms
  by (auto simp: decode_media_def decode_audio_def decode_video_def told_def Let_def split_beta
      split: option.split media_type.split)

text \<open>C25: Once a peer has sent a heartbeat with metadata, its audio and video are decoded exactly while
  the last such heartbeat says that they are on (and, for video, while the peer is shown): over every run, a
  packet reaches the audio or video decoder of the peer if and only if it comes from that peer, opens to a media
  packet of that kind, and the last heartbeat since the peer was added enables it. No straggler that arrives after
  the camera or microphone was switched off is decoded, whatever the order and interleaving of packets.\<close>

theorem media_follows_heartbeat:
  assumes "last_heartbeat P dec d sid evs = Some md"
    and "get_peer sid (pm_run P dec d evs) = Some pe"
  shows "(PeerFx sid (PushAudio mp) \<in>
        set (snd (snd (manager_decode P dec now A packet userid (pm_run P dec d evs)))) \<longleftrightarrow>
      pw_session_id packet = sid \<and> open_packet P dec packet pe = Inr mp \<and>
      media_type_from_i32 (med_media_type mp) = Some AUDIO \<and> hm_audio_enabled md) \<and>
    (PeerFx sid (PushVideo mp) \<in>
        set (snd (snd (manager_decode P dec now A packet userid (pm_run P dec d evs)))) \<longleftrightarrow>
      pw_session_id packet = sid \<and> open_packet P dec packet pe = Inr mp \<and>
      media_type_from_i32 (med_media_type mp) = Some VIDEO \<and> hm_video_enabled md \<and> pe_visible pe)"
proof -
  have t: "told md (pe\<lparr>pe_context_initialized := True\<rparr>)"
    using last_heartbeat_told [OF assms(1)] assms(2) by simp
  show ?thesis
  proof (cases "pw_session_id packet = sid")
    case True
    then have "hm_map (pm_connected_peers (pm_run P dec d evs)) (pw_session_id packet) = Some pe"
      using assms(2) by (simp add: get_peer_def hmok_get_def)
    then show ?thesis
      using True told_pushes [OF t]
      by (auto simp: manager_decode_fx peer_decode_def split: sum.split)
  next
    case False
    then show ?thesis
      by (cases "hm_map (pm_connected_peers (pm_run P dec d evs)) (pw_session_id packet)")
        (auto simp: manager_decode_fx, simp_all add: manager_decode_def Let_def)
  qed
qed

end
