(* ===== verification/Peer_Requests.thy ===== *)
theory Peer_Requests
  imports Peer_Runs
begin

text \<open>
  When the client asks a peer for a keyframe: only after a loss in the peer's stream has lasted a second
  without a keyframe (or, for screens, while the decoder waits for one), and never twice within half a second.
\<close>

section \<open>Requests are spaced\<close>

definition requested_at :: "media_type \<Rightarrow> 'k peer \<Rightarrow> u64" where
  "requested_at mt pe =
     (if mt = SCREEN then pe_last_screen_keyframe_request_ms pe else pe_last_video_keyframe_request_ms pe)"

definition spaced :: "u64 \<Rightarrow> u64 \<Rightarrow> bool" where
  "spaced s t \<longleftrightarrow> unat s + unat KEYFRAME_REQUEST_MIN_INTERVAL_MS \<le> unat t"

lemma spaced_le: "spaced s t \<Longrightarrow> s \<le> t"
  by (simp add: spaced_def word_le_nat_alt)

lemma spaced_trans: "r \<le> s \<Longrightarrow> spaced s t \<Longrightarrow> spaced r t"
  by (simp add: spaced_def word_le_nat_alt)

lemma saturating_sub_ge:
  assumes "0 < c" and "c \<le> saturating_sub a b"
  shows "unat b + unat c \<le> unat a"
proof -
  have "\<not> a < b" using assms by (auto simp: saturating_sub_def)
  then have "unat (a - b) = unat a - unat b" "unat b \<le> unat a"
    by (simp_all add: unat_sub word_le_nat_alt not_less)
  then show ?thesis using assms(2) \<open>\<not> a < b\<close> by (simp add: saturating_sub_def word_le_nat_alt)
qed

lemma interval_spaced: "KEYFRAME_REQUEST_MIN_INTERVAL_MS \<le> saturating_sub now last_req \<Longrightarrow> spaced last_req now"
  using saturating_sub_ge [of KEYFRAME_REQUEST_MIN_INTERVAL_MS now last_req]
  by (simp add: spaced_def KEYFRAME_REQUEST_MIN_INTERVAL_MS_def)

lemma track_stream_request:
  "if fst (track_stream now seq ft (l, g, r)) then spaced r now \<and> snd (snd (snd (track_stream now seq ft (l, g, r)))) = now
   else snd (snd (snd (track_stream now seq ft (l, g, r)))) = r"
  using interval_spaced [of now r] by (simp add: track_stream_def Let_def split: option.split)

lemma track_sequence_request:
  "case fst (track_sequence now mt packet pe) of
     Some m \<Rightarrow> m = mt \<and> (mt = VIDEO \<or> mt = SCREEN) \<and> spaced (requested_at mt pe) now \<and>
       requested_at mt (snd (track_sequence now mt packet pe)) = now
   | None \<Rightarrow> requested_at mt (snd (track_sequence now mt packet pe)) = requested_at mt pe"
proof (cases "med_video_metadata packet")
  case (Some vm)
  let ?t = "\<lambda>tr. track_stream now (vm_sequence vm) (med_frame_type packet) tr"
  obtain q s g r where v: "?t (video_track pe) = (q, s, g, r)" by (metis prod_cases4)
  obtain q' s' g' r' where w: "?t (screen_track pe) = (q', s', g', r')" by (metis prod_cases4)
  show ?thesis
    using Some v w
      track_stream_request [of now "vm_sequence vm" "med_frame_type packet" "pe_last_video_seq pe"
        "pe_video_gap_detected_at_ms pe" "pe_last_video_keyframe_request_ms pe"]
      track_stream_request [of now "vm_sequence vm" "med_frame_type packet" "pe_last_screen_seq pe"
        "pe_screen_gap_detected_at_ms pe" "pe_last_screen_keyframe_request_ms pe"]
    by (auto simp: track_sequence_def requested_at_def video_track_def screen_track_def split: if_splits)
qed (simp add: track_sequence_def)

lemma track_sequence_other:
  "m \<noteq> mt \<Longrightarrow> mt = VIDEO \<or> mt = SCREEN \<Longrightarrow> m = VIDEO \<or> m = SCREEN \<Longrightarrow>
   requested_at m (snd (track_sequence now mt packet pe)) = requested_at m pe"
  by (auto simp: track_sequence_def requested_at_def split_beta split: option.split)

lemma requested_at_flags [simp]:
  "requested_at mt (pe\<lparr>pe_video_enabled := b\<rparr>) = requested_at mt pe"
  "requested_at mt (pe\<lparr>pe_audio_enabled := b\<rparr>) = requested_at mt pe"
  "requested_at mt (pe\<lparr>pe_screen_enabled := b\<rparr>) = requested_at mt pe"
  "requested_at mt (pe\<lparr>pe_audio_muted := b\<rparr>) = requested_at mt pe"
  "requested_at mt (pe\<lparr>pe_context_initialized := b\<rparr>) = requested_at mt pe"
  "requested_at mt (pe\<lparr>pe_aes := k\<rparr>) = requested_at mt pe"
  "requested_at mt (pe\<lparr>pe_display_name := n\<rparr>) = requested_at mt pe"
  "requested_at mt (pe\<lparr>pe_visible := b\<rparr>) = requested_at mt pe"
  "requested_at mt (on_activity pe) = requested_at mt pe"
  "requested_at mt (snd (check_heartbeat pe)) = requested_at mt pe"
  "requested_at mt (fst (snd (peer_reset A pe))) = requested_at mt pe"
  "requested_at mt (result_peer (decode_audio A packet pe)) = requested_at mt pe"
  "requested_at mt (result_peer (decode_heartbeat packet pe)) = requested_at mt pe"
  by (simp_all add: requested_at_def on_activity_def check_heartbeat_def peer_reset_def decode_audio_def
      decode_heartbeat_def Let_def split: option.split)

text \<open>A request moves the time of the last request of its stream to now, from at least half a second earlier;
  everything else never moves it back.\<close>

definition request_of :: "'k decode_result \<Rightarrow> media_type option" where
  "request_of res = (case fst res of Inr (mt, st, kf) \<Rightarrow> kf | Inl e \<Rightarrow> None)"

definition request_rule :: "u64 \<Rightarrow> 'k peer \<Rightarrow> 'k decode_result \<Rightarrow> bool" where
  "request_rule now pe res \<longleftrightarrow>
     (\<forall>mt. mt = VIDEO \<or> mt = SCREEN \<longrightarrow>
        requested_at mt pe \<le> requested_at mt (result_peer res) \<and>
        (request_of res = Some mt \<longrightarrow> spaced (requested_at mt pe) now \<and> requested_at mt (result_peer res) = now)) \<and>
     (\<forall>mt. request_of res = Some mt \<longrightarrow> mt = VIDEO \<or> mt = SCREEN)"

lemma decode_video_rule: "request_rule now pe (decode_video now A packet pe)"
proof -
  have other: "requested_at SCREEN (snd (track_sequence now VIDEO packet pe)) = requested_at SCREEN pe"
    by (rule track_sequence_other) simp_all
  show ?thesis
    using track_sequence_request [where now = now and mt = VIDEO and packet = packet and pe = pe] other
    by (auto simp: request_rule_def request_of_def decode_video_def Let_def split_beta spaced_le
        split: option.splits)
qed

lemma decode_screen_rule: "request_rule now pe (decode_screen now A packet pe)"
proof -
  have other: "requested_at VIDEO (snd (track_sequence now SCREEN packet pe)) = requested_at VIDEO pe"
    by (rule track_sequence_other) simp_all
  let ?p = "snd (track_sequence now SCREEN packet pe)"
  have upd: "requested_at SCREEN (?p\<lparr>pe_screen_enabled := True, pe_last_screen_keyframe_request_ms := now\<rparr>) = now"
    "requested_at VIDEO (?p\<lparr>pe_screen_enabled := True, pe_last_screen_keyframe_request_ms := now\<rparr>) = requested_at VIDEO ?p"
    "pe_last_screen_keyframe_request_ms ?p = requested_at SCREEN ?p"
    by (simp_all add: requested_at_def)
  show ?thesis
    using track_sequence_request [where now = now and mt = SCREEN and packet = packet and pe = pe] other interval_spaced [of now "requested_at SCREEN ?p"]
    by (auto simp: request_rule_def request_of_def decode_screen_def Let_def split_beta spaced_le upd
        split: option.splits)
qed

lemma request_rule_idle:
  "request_of res = None \<Longrightarrow> (\<And>mt. requested_at mt (result_peer res) = requested_at mt pe) \<Longrightarrow> request_rule now pe res"
  by (simp add: request_rule_def)

lemma decode_media_rule: "request_rule now pe (decode_media now A packet pe)"
proof -
  have "request_of (decode_audio A packet pe) = None"
    by (simp add: request_of_def decode_audio_def Let_def split: option.split)
  then have "request_rule now pe (decode_audio A packet pe)" by (rule request_rule_idle) simp
  moreover have "request_of (decode_heartbeat packet pe) = None"
    by (simp add: request_of_def decode_heartbeat_def Let_def split: option.split)
  then have "request_rule now pe (decode_heartbeat packet pe)" by (rule request_rule_idle) simp
  ultimately show ?thesis
    by (auto simp: decode_media_def decode_video_rule decode_screen_rule request_of_def
        split: option.split media_type.split intro: request_rule_idle)
qed

lemma peer_decode_rule: "request_rule now pe (peer_decode P dec now A packet pe)"
  by (auto simp: peer_decode_def decode_media_rule request_of_def split: sum.split intro: request_rule_idle)

section \<open>Requests over a run\<close>

definition keyframe_request_of ::
  "proto \<Rightarrow> ('k \<Rightarrow> bytes \<Rightarrow> bytes option) \<Rightarrow> u64 \<Rightarrow> media_type \<Rightarrow> 'k peer_manager \<Rightarrow> 'k pm_event \<Rightarrow> u64 option" where
  "keyframe_request_of P dec sid mt pm ev =
     (case ev of
        PmDecode now A packet userid \<Rightarrow>
          if pw_session_id packet = sid
          then Option.bind (get_peer sid pm) (\<lambda>pe.
                 if request_of (peer_decode P dec now A packet (pe\<lparr>pe_context_initialized := True\<rparr>)) = Some mt
                 then Some now else None)
          else None
      | _ \<Rightarrow> None)"

text \<open>The times of the requests for a stream of a peer, since the peer was added.\<close>

definition asked_step ::
  "proto \<Rightarrow> ('k \<Rightarrow> bytes \<Rightarrow> bytes option) \<Rightarrow> u64 \<Rightarrow> media_type \<Rightarrow> 'k peer_manager \<times> u64 list \<Rightarrow> 'k pm_event \<Rightarrow>
   'k peer_manager \<times> u64 list" where
  "asked_step P dec sid mt s ev =
     (pm_step P dec (fst s) ev,
      if get_peer sid (pm_step P dec (fst s) ev) = None then []
      else snd s @ (case keyframe_request_of P dec sid mt (fst s) ev of Some t \<Rightarrow> [t] | None \<Rightarrow> []))"

abbreviation keyframe_requests ::
  "proto \<Rightarrow> ('k \<Rightarrow> bytes \<Rightarrow> bytes option) \<Rightarrow> bool \<Rightarrow> u64 \<Rightarrow> media_type \<Rightarrow> 'k pm_event list \<Rightarrow> u64 list" where
  "keyframe_requests P dec d sid mt evs \<equiv> snd (foldl (asked_step P dec sid mt) (peer_manager_new d, []) evs)"

lemma next_requested:
  assumes "get_peer sid pm = Some pe" and "peer_next P dec sid ev pe = Some pe'" and "mt = VIDEO \<or> mt = SCREEN"
  shows "requested_at mt pe \<le> requested_at mt pe' \<and>
    (keyframe_request_of P dec sid mt pm ev = Some t \<longrightarrow> spaced (requested_at mt pe) t \<and> requested_at mt pe' = t)"
proof (cases ev)
  case (PmDecode now A packet userid)
  let ?res = "peer_decode P dec now A packet (pe\<lparr>pe_context_initialized := True\<rparr>)"
  have "requested_at mt (decoded_peer P dec now A packet pe) = requested_at mt (result_peer ?res)"
    by (simp add: decoded_peer_def split: prod.split sum.split)
  moreover have "request_rule now (pe\<lparr>pe_context_initialized := True\<rparr>) ?res" by (rule peer_decode_rule)
  ultimately show ?thesis
    using assms PmDecode by (auto simp: keyframe_request_of_def request_rule_def split: if_splits)
qed (use assms in \<open>auto simp: keyframe_request_of_def split: if_splits\<close>)

definition asked_inv :: "u64 \<Rightarrow> media_type \<Rightarrow> 'k peer_manager \<times> u64 list \<Rightarrow> bool" where
  "asked_inv sid mt s \<longleftrightarrow> pm_ok (fst s) \<and> sorted_wrt spaced (snd s) \<and>
     (get_peer sid (fst s) = None \<longrightarrow> snd s = []) \<and>
     (\<forall>pe. get_peer sid (fst s) = Some pe \<longrightarrow> (\<forall>t\<in>set (snd s). t \<le> requested_at mt pe))"

lemma asked_inv_step:
  assumes "asked_inv sid mt s" and "mt = VIDEO \<or> mt = SCREEN"
  shows "asked_inv sid mt (asked_step P dec sid mt s ev)"
proof -
  obtain pm ts where s: "s = (pm, ts)" by (cases s)
  have ok: "pm_ok pm" and ok': "pm_ok (pm_step P dec pm ev)"
    using assms s by (simp_all add: asked_inv_def pm_ok_step)
  show ?thesis
  proof (cases "get_peer sid pm")
    case None
    then have "ts = []" "keyframe_request_of P dec sid mt pm ev = None"
      using assms(1) s by (simp_all add: asked_inv_def keyframe_request_of_def split: pm_event.split)
    then show ?thesis using s ok' by (simp add: asked_inv_def asked_step_def)
  next
    case (Some pe)
    have le: "\<forall>t\<in>set ts. t \<le> requested_at mt pe" "sorted_wrt spaced ts"
      using assms(1) s Some by (simp_all add: asked_inv_def)
    show ?thesis
    proof (cases "peer_next P dec sid ev pe")
      case None
      then show ?thesis
        using pm_step_peer [OF ok Some, of P dec ev] s ok' by (simp add: asked_inv_def asked_step_def)
    next
      case (Some pe')
      note nx = next_requested [OF \<open>get_peer sid pm = Some pe\<close> Some assms(2)]
      then have "\<forall>t\<in>set ts. t \<le> requested_at mt pe'" using le(1) order_trans by blast
      moreover have "\<forall>r\<in>set ts. spaced r t" "requested_at mt pe' = t"
        if "keyframe_request_of P dec sid mt pm ev = Some t" for t
        using nx le(1) that spaced_trans by blast+
      ultimately show ?thesis
        using pm_step_peer [OF ok \<open>get_peer sid pm = Some pe\<close>, of P dec ev] Some s ok' le(2)
        by (auto simp: asked_inv_def asked_step_def sorted_wrt_append split: option.splits)
    qed
  qed
qed

lemma sends_only_requests:
  assumes "SendPacket w \<in> set (snd (snd (manager_decode P dec now A packet userid pm)))"
  shows "\<exists>mt. (mt = VIDEO \<or> mt = SCREEN) \<and>
    keyframe_request_of P dec (pw_session_id packet) mt pm (PmDecode now A packet userid) = Some now"
proof (cases "hm_map (pm_connected_peers pm) (pw_session_id packet)")
  case None
  then show ?thesis using assms by (simp add: manager_decode_def Let_def)
next
  case (Some pe)
  let ?res = "peer_decode P dec now A packet (pe\<lparr>pe_context_initialized := True\<rparr>)"
  obtain r pe1 es where d: "?res = (r, pe1, es)" by (metis prod_cases3)
  have "request_rule now (pe\<lparr>pe_context_initialized := True\<rparr>) ?res" by (rule peer_decode_rule)
  moreover obtain mt where "request_of ?res = Some mt"
    using assms Some d
    by (cases r) (auto simp: manager_decode_def request_of_def Let_def split_beta split: option.splits if_splits)
  ultimately show ?thesis
    using Some by (auto simp: keyframe_request_of_def request_rule_def get_peer_def hmok_get_def)
qed

interpretation asked: invariant_system "asked_step P dec sid VIDEO" "asked_inv sid VIDEO" "\<lambda>_. True"
  by unfold_locales (rule asked_inv_step, simp_all)

interpretation asked_screen: invariant_system "asked_step P dec sid SCREEN" "asked_inv sid SCREEN" "\<lambda>_. True"
  by unfold_locales (rule asked_inv_step, simp_all)

lemma asked_inv_start: "asked_inv sid mt (peer_manager_new d, [])"
  by (simp add: asked_inv_def pm_ok_new)

lemma asked_step_run: "fst (foldl (asked_step P dec sid mt) (pm, ts) evs) = foldl (pm_step P dec) pm evs"
  by (induction evs arbitrary: pm ts) (simp_all add: asked_step_def)

text \<open>Over every run, as long as a peer stays in the table, two keyframe requests for its camera
  or two for its screen are at least half a second apart, even if the clock is set back; and the client
  sends a packet while decoding only as such a request.\<close>

theorem keyframe_requests_spaced:
  "sorted_wrt spaced (keyframe_requests P dec d sid VIDEO evs) \<and>
   sorted_wrt spaced (keyframe_requests P dec d sid SCREEN evs) \<and>
   (SendPacket w \<in> set (snd (snd (manager_decode P dec now A packet userid (pm_run P dec d evs)))) \<longrightarrow>
     (\<exists>mt\<in>{VIDEO, SCREEN}.
        keyframe_requests P dec d (pw_session_id packet) mt (evs @ [PmDecode now A packet userid]) =
        keyframe_requests P dec d (pw_session_id packet) mt evs @ [now]))"
proof -
  have "sorted_wrt spaced (keyframe_requests P dec d sid VIDEO evs)"
    using asked.run_inv [OF asked_inv_start [of sid VIDEO d], of evs P dec] by (simp add: asked_inv_def list_all_iff)
  moreover have "sorted_wrt spaced (keyframe_requests P dec d sid SCREEN evs)"
    using asked_screen.run_inv [OF asked_inv_start [of sid SCREEN d], of evs P dec] by (simp add: asked_inv_def list_all_iff)
  moreover have "\<exists>mt\<in>{VIDEO, SCREEN}.
      keyframe_requests P dec d (pw_session_id packet) mt (evs @ [PmDecode now A packet userid]) =
      keyframe_requests P dec d (pw_session_id packet) mt evs @ [now]"
    if sent: "SendPacket w \<in> set (snd (snd (manager_decode P dec now A packet userid (pm_run P dec d evs))))"
  proof -
    let ?sid = "pw_session_id packet"
    obtain mt where mt: "mt = VIDEO \<or> mt = SCREEN"
        "keyframe_request_of P dec ?sid mt (pm_run P dec d evs) (PmDecode now A packet userid) = Some now"
      using sends_only_requests [OF sent] by blast
    then obtain pe where pe: "get_peer ?sid (pm_run P dec d evs) = Some pe"
      by (cases "get_peer ?sid (pm_run P dec d evs)") (simp_all add: keyframe_request_of_def)
    have "get_peer ?sid (pm_step P dec (pm_run P dec d evs) (PmDecode now A packet userid)) \<noteq> None"
      using pm_step_peer [OF pm_ok_run pe, of P dec "PmDecode now A packet userid"] by simp
    then have "keyframe_requests P dec d ?sid mt (evs @ [PmDecode now A packet userid]) =
        keyframe_requests P dec d ?sid mt evs @ [now]"
      using mt(2) by (simp add: asked_step_def asked_step_run del: pm_step.simps)
    then show ?thesis using mt(1) by blast
  qed
  ultimately show ?thesis by blast
qed

section \<open>What a request follows\<close>

text \<open>The tracked state of a stream after packets with arrival time, sequence number and frame type.\<close>

definition track_run :: "(u64 \<times> u64 \<times> string) list \<Rightarrow> stream_track" where
  "track_run xs = foldl (\<lambda>tr (now, seq, ft). snd (track_stream now seq ft tr)) (None, None, 0) xs"

text \<open>A loss at time t that no keyframe has followed: a packet arrived then whose number skips its predecessor's successor.\<close>

definition open_loss :: "u64 \<Rightarrow> (u64 \<times> u64 \<times> string) list \<Rightarrow> bool" where
  "open_loss t xs \<longleftrightarrow> (\<exists>ys t0 s0 f0 s f zs. xs = ys @ (t0, s0, f0) # (t, s, f) # zs \<and> s0 + 1 < s \<and>
     (\<forall>(t', s', f')\<in>set zs. f' \<noteq> ''key''))"

lemma open_loss_snoc: "open_loss t xs \<Longrightarrow> f \<noteq> ''key'' \<Longrightarrow> open_loss t (xs @ [(now, seq, f)])"
proof -
  assume "open_loss t xs" "f \<noteq> ''key''"
  then obtain ys t0 s0 f0 s f' zs where "xs = ys @ (t0, s0, f0) # (t, s, f') # zs" "s0 + 1 < s"
      "\<forall>(t', s', f')\<in>set (zs @ [(now, seq, f)]). f' \<noteq> ''key''"
    by (auto simp: open_loss_def)
  moreover from this have "xs @ [(now, seq, f)] = ys @ (t0, s0, f0) # (t, s, f') # (zs @ [(now, seq, f)])" by simp
  ultimately show ?thesis unfolding open_loss_def by blast
qed

lemma open_loss_new: "xs = ys @ [(t0, s0, f0)] \<Longrightarrow> s0 + 1 < seq \<Longrightarrow> open_loss now (xs @ [(now, seq, f)])"
  unfolding open_loss_def by force

lemma track_run_inv:
  "fst (track_run xs) = (if xs = [] then None else Some (fst (snd (last xs)))) \<and>
   (\<forall>t. fst (snd (track_run xs)) = Some t \<longrightarrow> open_loss t xs)"
proof (induction xs rule: rev_induct)
  case Nil
  then show ?case by (simp add: track_run_def)
next
  case (snoc x xs)
  obtain now seq ft where x: "x = (now, seq, ft)" by (metis prod_cases3)
  obtain l g r where tr: "track_run xs = (l, g, r)" by (metis prod_cases3)
  have step: "track_run (xs @ [x]) = snd (track_stream now seq ft (l, g, r))"
    using tr x by (simp add: track_run_def)
  have last: "fst (snd (track_stream now seq ft (l, g, r))) = Some seq"
    by (simp add: track_stream_def Let_def split: option.split)
  have gap: "fst (snd (snd (track_stream now seq ft (l, g, r)))) = Some t \<Longrightarrow>
      (g = Some t \<and> ft \<noteq> ''key'') \<or> (t = now \<and> (\<exists>p. l = Some p \<and> p + 1 < seq))" for t
    by (simp add: track_stream_def Let_def split: option.splits if_splits)
  have "open_loss t (xs @ [x])" if t: "fst (snd (track_run (xs @ [x]))) = Some t" for t
  proof -
    from gap [of t] t step consider "g = Some t" "ft \<noteq> ''key''" | p where "t = now" "l = Some p" "p + 1 < seq"
      by auto
    then show ?thesis
    proof cases
      case 1
      then show ?thesis using snoc tr x open_loss_snoc by simp
    next
      case (2 p)
      then have "xs \<noteq> []" "fst (snd (last xs)) = p" using snoc tr by (auto split: if_splits)
      then obtain ys t0 f0 where "xs = ys @ [(t0, p, f0)]" by (metis append_butlast_last_id prod.collapse)
      then show ?thesis using 2 x open_loss_new by blast
    qed
  qed
  then show ?case using last step x by simp
qed

lemma track_stream_fires:
  assumes "fst (track_stream now seq ft (l, g, r))"
  shows "\<exists>t. g = Some t \<and> ft \<noteq> ''key'' \<and> unat t + 1000 \<le> unat now \<and> spaced r now"
proof -
  have no: "\<not> KEYFRAME_REQUEST_TIMEOUT_MS \<le> saturating_sub now now"
    by (simp add: saturating_sub_def KEYFRAME_REQUEST_TIMEOUT_MS_def word_le_nat_alt)
  obtain t where t: "g = Some t" "ft \<noteq> ''key''" "KEYFRAME_REQUEST_TIMEOUT_MS \<le> saturating_sub now t"
      "KEYFRAME_REQUEST_MIN_INTERVAL_MS \<le> saturating_sub now r"
    using assms no by (auto simp: track_stream_def Let_def split: option.splits if_splits)
  then show ?thesis
    using saturating_sub_ge [of KEYFRAME_REQUEST_TIMEOUT_MS now t] interval_spaced
    by (auto simp: KEYFRAME_REQUEST_TIMEOUT_MS_def)
qed

text \<open>The tracker asks for a keyframe only when, at least a second ago, a packet skipped a sequence number and
  no keyframe arrived since.\<close>

theorem request_after_lasting_loss:
  assumes "fst (track_stream now seq ft (track_run xs))"
  shows "ft \<noteq> ''key'' \<and> (\<exists>t. open_loss t xs \<and> unat t + 1000 \<le> unat now)"
  using assms track_run_inv [of xs] track_stream_fires [of now seq ft]
  by (cases "track_run xs") fastforce

text \<open>A keyframe that arrives right after a loss repairs it, but is itself counted as the loss: the client
  asks for another keyframe a second later although nothing is missing.\<close>

lemma keyframe_after_loss_opens_gap:
  "fst (track_stream 1100 6 ''delta'' (track_run [(0, 1, ''key''), (100, 5, ''key'')]))"
  by (simp add: track_run_def track_stream_def saturating_sub_def KEYFRAME_REQUEST_TIMEOUT_MS_def
      KEYFRAME_REQUEST_MIN_INTERVAL_MS_def)

text \<open>A packet that arrives late makes the next packet in order look like a loss: with the numbers 1 2 4 3 5,
  of which none is missing, a keyframe is requested.\<close>

lemma reordering_counts_as_loss:
  "fst (track_stream 1100 5 ''delta'' (track_run [(0, 1, ''key''), (30, 2, ''delta''), (60, 4, ''delta''), (70, 3, ''delta'')]))"
  by (simp add: track_run_def track_stream_def saturating_sub_def KEYFRAME_REQUEST_TIMEOUT_MS_def
      KEYFRAME_REQUEST_MIN_INTERVAL_MS_def)

text \<open>Audio and video stragglers after a heartbeat that switches them off are dropped; a screen straggler
  switches the screen of the peer on again.\<close>

lemma screen_straggler_reenables:
  assumes "hm_screen_enabled md = False"
  shows "pe_screen_enabled (result_peer (decode_screen now A packet
      (result_peer (decode_heartbeat (default_media_packet\<lparr>med_heartbeat_metadata := Some md\<rparr>) pe))))"
  by (simp add: decode_screen_def Let_def split_beta split: option.split)

end
