(* ===== verification/Peer_Witnesses.thy ===== *)
theory Peer_Witnesses
  imports Peer_Requests
begin

text \<open>
  One peer on a concrete wire format: it joins, talks, switches its camera and microphone off, loses packets and
  falls silent. The properties of the peers are applied to it.
\<close>

definition beat :: "bool \<Rightarrow> heartbeat_metadata" where
  "beat b = \<lparr>hm_video_enabled = b, hm_audio_enabled = b, hm_screen_enabled = False, hm_is_speaking = False\<rparr>"

definition heart :: "bool \<Rightarrow> media_packet" where
  "heart b = default_media_packet\<lparr>med_media_type := media_type_value HEARTBEAT, med_heartbeat_metadata := Some (beat b)\<rparr>"

definition voice :: media_packet where
  "voice = default_media_packet\<lparr>med_media_type := media_type_value AUDIO\<rparr>"

definition camera :: "u8 \<Rightarrow> media_packet" where
  "camera x = default_media_packet\<lparr>med_media_type := media_type_value VIDEO,
     med_video_metadata := Some \<lparr>vm_sequence = ucast x, vm_codec = 0\<rparr>\<rparr>"

definition peer_proto :: proto where
  "peer_proto = ref_proto\<lparr>
     parse_media := \<lambda>b. (case b of
         [x] \<Rightarrow> Some (if x = 0 then heart False else if x = 1 then heart True else if x = 2 then voice else camera x)
       | _ \<Rightarrow> None),
     write_media := \<lambda>m. Some (med_data m)\<rparr>"

definition peer_answers :: decoder_answers where
  "peer_answers = \<lparr>da_video = Some SKIPPED, da_audio = Some SKIPPED, da_screen = Some SKIPPED,
     da_screen_waiting = False, da_new_decoders = True\<rparr>"

definition from_seven :: "u8 \<Rightarrow> packet_wrapper" where
  "from_seven x = default_packet_wrapper
     \<lparr>pw_packet_type := packet_type_value MEDIA, pw_session_id := 7, pw_data := [x]\<rparr>"

abbreviation seven :: "u64 \<Rightarrow> u8 \<Rightarrow> nat pm_event" where
  "seven now x \<equiv> PmDecode now peer_answers (from_seven x) ''bob''"

abbreviation demo_dec :: "nat \<Rightarrow> bytes \<Rightarrow> bytes option" where
  "demo_dec \<equiv> \<lambda>k. Some"

abbreviation demo :: "nat pm_event list \<Rightarrow> nat peer_manager" where
  "demo evs \<equiv> pm_run peer_proto demo_dec False evs"

lemma open_seven:
  "pe_aes pe = None \<Longrightarrow> open_packet peer_proto demo_dec (from_seven x) pe =
     Inr (if x = 0 then heart False else if x = 1 then heart True else if x = 2 then voice else camera x)"
  by (simp add: open_packet_def parse_media_packet_def from_seven_def peer_proto_def)

lemma demo_types [simp]:
  "media_type_from_i32 (med_media_type (heart b)) = Some HEARTBEAT" "med_heartbeat_metadata (heart b) = Some (beat b)"
  "media_type_from_i32 (med_media_type voice) = Some AUDIO"
  "media_type_from_i32 (med_media_type (camera x)) = Some VIDEO"
  "med_video_metadata (camera x) = Some \<lparr>vm_sequence = ucast x, vm_codec = 0\<rparr>" "med_frame_type (camera x) = []"
  by (simp_all add: heart_def voice_def camera_def media_type_from_i32_def default_media_packet_def media_type_value.simps)

definition bob :: "nat peer" where
  "bob = peer_new (''video-'' @ show_u64 7) (''screen-'' @ show_u64 7) 7 ''bob'' None None"

abbreviation bob_joins :: "nat pm_event" where
  "bob_joins \<equiv> PmEnsure True 7 ''bob''"

lemma demo_joins: "get_peer 7 (demo [bob_joins]) = Some bob"
  by (simp add: ensure_peer_def add_peer_def peer_manager_new_def Let_def hmok_contains_key_def hmok_new_def
      hmok_insert_def get_peer_def hmok_get_def bob_def)

lemma bob_simps [simp]: "pe_aes bob = None" "pe_activity_count bob = 1" "pe_visible bob"
  by (simp_all add: bob_def peer_new_def)

lemma demo_snoc:
  "get_peer 7 (demo evs) = Some pe \<Longrightarrow> get_peer 7 (demo (evs @ [ev])) = peer_next peer_proto demo_dec 7 ev pe"
  using pm_step_peer [OF pm_ok_run] by simp

theorem silent_peer_removed_witness:
  "get_peer 7 (demo ([bob_joins] @ [PmMonitor, PmMonitor, PmMonitor])) \<noteq> None \<and>
   get_peer 7 (fst (run_peer_monitor (demo ([bob_joins] @ [PmMonitor, PmMonitor, PmMonitor])))) = None"
  using silent_peer_removed [OF demo_joins, of "[PmMonitor, PmMonitor, PmMonitor]"]
  by (simp add: ticks_def del: pm_step.simps)

theorem peer_table_consistent_witness:
  "pe_sid_str bob = show_u64 7 \<and> pe_audio_muted bob = (\<not> pe_audio_enabled bob)"
  using peer_table_consistent [of peer_proto demo_dec False "[bob_joins]"] demo_joins by blast

lemma seven_from [simp]: "pw_session_id (from_seven x) = 7"
  by (simp add: from_seven_def)

lemma demo_beat:
  "last_heartbeat peer_proto demo_dec False 7 [bob_joins, seven 0 0] = Some (beat False)"
proof -
  have "fst (foldl (told_step peer_proto demo_dec 7) (peer_manager_new False, None) [bob_joins]) = demo [bob_joins]"
    by (rule told_step_run)
  moreover have "heartbeat_of peer_proto demo_dec 7 (demo [bob_joins]) (seven 0 0) = Some (beat False)"
    using demo_joins by (simp add: heartbeat_of_def open_seven del: foldl.simps)
  moreover have "get_peer 7 (pm_step peer_proto demo_dec (demo [bob_joins]) (seven 0 0)) \<noteq> None"
    using demo_snoc [OF demo_joins, of "seven 0 0"] by simp
  ultimately show ?thesis by (simp add: told_step_def del: pm_step.simps)
qed

theorem media_follows_heartbeat_witness:
  "PeerFx 7 (PushAudio voice) \<notin>
     set (snd (snd (manager_decode peer_proto demo_dec 20 peer_answers (from_seven 2) ''bob'' (demo [bob_joins, seven 0 0]))))"
proof -
  obtain pe where pe: "get_peer 7 (demo [bob_joins, seven 0 0]) = Some pe"
    using demo_snoc [OF demo_joins, of "seven 0 0"] by auto
  have "\<not> hm_audio_enabled (beat False)" by (simp add: beat_def)
  then show ?thesis using media_follows_heartbeat [OF demo_beat pe] by blast
qed

lemma camera_step:
  assumes pe: "get_peer 7 (demo evs) = Some pe" "pe_aes pe = None" "pe_visible pe" "\<not> pe_has_received_heartbeat pe"
    and x: "x \<noteq> 0" "x \<noteq> 1" "x \<noteq> 2"
  shows "\<exists>pe'. get_peer 7 (demo (evs @ [seven now x])) = Some pe' \<and> pe_aes pe' = None \<and> pe_visible pe' \<and>
      \<not> pe_has_received_heartbeat pe' \<and>
      video_track pe' = snd (track_stream now (ucast x) [] (video_track pe)) \<and>
      keyframe_requests peer_proto demo_dec False 7 VIDEO (evs @ [seven now x]) =
        keyframe_requests peer_proto demo_dec False 7 VIDEO evs @
          (if fst (track_stream now (ucast x) [] (video_track pe)) then [now] else [])"
proof -
  let ?p0 = "pe\<lparr>pe_context_initialized := True\<rparr>"
  let ?res = "peer_decode peer_proto demo_dec now peer_answers (from_seven x) ?p0"
  have v0: "video_track ?p0 = video_track pe" by (simp add: video_track_def)
  obtain q s g r where t: "track_stream now (ucast x) [] (video_track pe) = (q, s, g, r)" by (metis prod_cases4)
  have res: "?res = decode_video now peer_answers (camera x) ?p0"
    using assms by (simp add: peer_decode_def open_seven decode_media_def)
  have "request_of ?res = (if q then Some VIDEO else None) \<and>
      video_track (result_peer ?res) = (s, g, r) \<and> pe_aes (result_peer ?res) = None \<and> pe_visible (result_peer ?res) \<and>
      \<not> pe_has_received_heartbeat (result_peer ?res) \<and> (\<exists>ok. fst ?res = Inr ok)"
    using pe(2-4) t
    by (simp only: res) (simp add: decode_video_def track_sequence_def Let_def request_of_def peer_answers_def
        video_track_def)
  note r = this
  obtain ok where ok: "fst ?res = Inr ok" using r by blast
  have dp: "decoded_peer peer_proto demo_dec now peer_answers (from_seven x) pe = on_activity (result_peer ?res)"
    using ok by (simp add: decoded_peer_def split_beta)
  have nx: "get_peer 7 (pm_step peer_proto demo_dec (demo evs) (seven now x)) =
      Some (on_activity (result_peer ?res))"
    using pm_step_peer [OF pm_ok_run pe(1), of peer_proto demo_dec "seven now x"] dp by simp
  have "keyframe_request_of peer_proto demo_dec 7 VIDEO (demo evs) (seven now x) = (if q then Some now else None)"
    using pe(1) r by (simp add: keyframe_request_of_def)
  then have "keyframe_requests peer_proto demo_dec False 7 VIDEO (evs @ [seven now x]) =
      keyframe_requests peer_proto demo_dec False 7 VIDEO evs @ (if q then [now] else [])"
    using nx by (simp add: asked_step_def asked_step_run del: pm_step.simps)
  then show ?thesis
    using nx r t by (simp add: on_activity_def video_track_def del: pm_step.simps)
qed

lemma demo_loss:
  "keyframe_requests peer_proto demo_dec False 7 VIDEO [bob_joins, seven 600 3, seven 700 9, seven 1700 10, seven 2300 11] =
     [1700, 2300]"
proof -
  have b: "\<not> pe_has_received_heartbeat bob" "video_track bob = (None, None, 0)"
    by (simp_all add: bob_def peer_new_def video_track_def)
  have none: "keyframe_requests peer_proto demo_dec False 7 VIDEO [bob_joins] = []"
    by (simp add: asked_step_def keyframe_request_of_def)
  note ts = track_stream_def saturating_sub_def KEYFRAME_REQUEST_TIMEOUT_MS_def KEYFRAME_REQUEST_MIN_INTERVAL_MS_def
  from camera_step [OF demo_joins bob_simps(1,3) b(1), of 3 600] obtain p1 where
    p1: "get_peer 7 (demo [bob_joins, seven 600 3]) = Some p1" "pe_aes p1 = None" "pe_visible p1"
      "\<not> pe_has_received_heartbeat p1" "video_track p1 = (Some 3, None, 0)"
      "keyframe_requests peer_proto demo_dec False 7 VIDEO [bob_joins, seven 600 3] = []"
    using none by (simp add: b(2) ts) blast
  from camera_step [OF p1(1-4), of 9 700] obtain p2 where
    p2: "get_peer 7 (demo [bob_joins, seven 600 3, seven 700 9]) = Some p2" "pe_aes p2 = None" "pe_visible p2"
      "\<not> pe_has_received_heartbeat p2" "video_track p2 = (Some 9, Some 700, 0)"
      "keyframe_requests peer_proto demo_dec False 7 VIDEO [bob_joins, seven 600 3, seven 700 9] = []"
    using p1(6) by (simp add: p1(5) ts) blast
  from camera_step [OF p2(1-4), of 10 1700] obtain p3 where
    p3: "get_peer 7 (demo [bob_joins, seven 600 3, seven 700 9, seven 1700 10]) = Some p3" "pe_aes p3 = None" "pe_visible p3"
      "\<not> pe_has_received_heartbeat p3" "video_track p3 = (Some 10, Some 700, 1700)"
      "keyframe_requests peer_proto demo_dec False 7 VIDEO [bob_joins, seven 600 3, seven 700 9, seven 1700 10] = [1700]"
    using p2(6) by (simp add: p2(5) ts) blast
  from camera_step [OF p3(1-4), of 11 2300] show ?thesis
    using p3(6) by (simp add: p3(5) ts del: pm_step.simps) blast
qed

theorem keyframe_requests_spaced_witness:
  "sorted_wrt spaced [1700, 2300]"
  using keyframe_requests_spaced [where P = peer_proto and dec = demo_dec and d = False and sid = 7 and
      evs = "[bob_joins, seven 600 3, seven 700 9, seven 1700 10, seven 2300 11]"] demo_loss by (metis (no_types))

theorem request_after_lasting_loss_witness:
  "\<exists>t. open_loss t [(0, 1, ''key''), (100, 5, ''delta'')] \<and> unat t + 1000 \<le> 1100"
  using request_after_lasting_loss [of 1100 6 "''delta''" "[(0, 1, ''key''), (100, 5, ''delta'')]"]
  by (simp add: track_run_def track_stream_def saturating_sub_def KEYFRAME_REQUEST_TIMEOUT_MS_def
      KEYFRAME_REQUEST_MIN_INTERVAL_MS_def)

end
