(* ===== verification/Neteq_Delay.thy ===== *)
theory Neteq_Delay
  imports Complex_Main VC_Prelude
begin

text \<open>
  How much audio \<open>neteq\<close> keeps in reserve: the histogram of arrival delays (\<open>histogram.rs\<close>), the delay
  manager that turns a quantile of it into a target level (\<open>delay_manager.rs\<close>) and the filter that smooths the
  measured level (\<open>buffer_level_filter.rs\<close>).

  \<^item> Signed integers are \<open>int\<close>. A cast to \<open>i32\<close> is written out as \<open>as_i32\<close>; the 64-bit intermediate values
    of the histogram stay far below their limits and need no cast.
  \<^item> \<open>f64\<close> is \<open>real\<close>; \<open>round\<close> rounds halves away from zero; a cast to an integer truncates and saturates.
  \<^item> Indexing out of range and division by zero panic: the value \<open>None\<close>. Debug assertions are not part
    of the model; what they claim is proved.
  \<^item> An update reads the clock once, the argument \<open>now\<close>.
\<close>

section \<open>Casts\<close>

definition as_i32 :: "int \<Rightarrow> int" where
  "as_i32 x = (x + 2 ^ 31) mod 2 ^ 32 - 2 ^ 31"

definition rust_round :: "real \<Rightarrow> int" where
  "rust_round x = (if 0 \<le> x then \<lfloor>x + 1 / 2\<rfloor> else - \<lfloor>1 / 2 - x\<rfloor>)"

definition sat_i32 :: "int \<Rightarrow> int" where
  "sat_i32 x = max (- (2 ^ 31)) (min (2 ^ 31 - 1) x)"

definition f64_to_q :: "real \<Rightarrow> nat \<Rightarrow> int" where
  "f64_to_q v q = rust_round (v * 2 ^ q)"

lemma as_i32_id: "- (2 ^ 31) \<le> x \<Longrightarrow> x < 2 ^ 31 \<Longrightarrow> as_i32 x = x"
  by (simp add: as_i32_def)

section \<open>The histogram\<close>

record histogram =
  hi_buckets :: "int list"
  hi_forget_factor :: int
  hi_base_forget_factor :: int
  hi_add_count :: u32
  hi_start_forget_weight :: "real option"

definition histogram_new :: "nat \<Rightarrow> real \<Rightarrow> real option \<Rightarrow> histogram" where
  "histogram_new num_buckets base_forget_factor start_forget_weight =
     \<lparr>hi_buckets = replicate num_buckets 0, hi_forget_factor = 0,
      hi_base_forget_factor = as_i32 (f64_to_q base_forget_factor 15), hi_add_count = 0,
      hi_start_forget_weight = start_forget_weight\<rparr>"

text \<open>The loop that spreads a rounding error over the first buckets.\<close>

fun correct_loop :: "int \<Rightarrow> int \<Rightarrow> int list \<Rightarrow> int list \<times> int" where
  "correct_loop flip_sign vector_sum [] = ([], vector_sum)"
| "correct_loop flip_sign vector_sum (b # bs) =
     (let correction = flip_sign * max (min \<bar>vector_sum\<bar> (b div 16)) 0;
          b' = as_i32 (b + correction);
          vector_sum' = vector_sum + correction
      in if vector_sum' = 0 then (b' # bs, 0)
         else case correct_loop flip_sign vector_sum' bs of (bs', v) \<Rightarrow> (b' # bs', v))"

definition next_forget_factor :: "u32 \<Rightarrow> histogram \<Rightarrow> int" where
  "next_forget_factor add_count h =
     (case hi_start_forget_weight h of
        Some start_weight \<Rightarrow>
          if hi_forget_factor h \<noteq> hi_base_forget_factor h
          then let forget_f = rust_round (2 ^ 15 * (1 - start_weight / (real (unat add_count) + 1)))
               in max 0 (min (hi_base_forget_factor h) (sat_i32 forget_f))
          else hi_forget_factor h
      | None \<Rightarrow> hi_forget_factor h + (hi_base_forget_factor h - hi_forget_factor h + 3) div 4)"

definition histogram_add :: "nat \<Rightarrow> histogram \<Rightarrow> histogram option" where
  "histogram_add value h =
     (if length (hi_buckets h) \<le> value then None
      else
        let decayed = map (\<lambda>b. b * hi_forget_factor h div 2 ^ 15) (hi_buckets h);
            add_amount = (2 ^ 15 - hi_forget_factor h) * 2 ^ 15;
            buckets1 = map as_i32 decayed;
            buckets2 = buckets1[value := as_i32 (buckets1 ! value + add_amount)];
            vector_sum = sum_list decayed + add_amount - 2 ^ 30;
            buckets3 = (if vector_sum = 0 then buckets2
                        else fst (correct_loop (if 0 < vector_sum then - 1 else 1) vector_sum buckets2));
            add_count = (if hi_add_count h = - 1 then - 1 else hi_add_count h + 1)
        in Some (h\<lparr>hi_buckets := buckets3, hi_add_count := add_count,
                   hi_forget_factor := next_forget_factor add_count h\<rparr>))"

text \<open>The scan of \<open>quantile\<close>: the index and the mass that lies above it.\<close>

fun quantile_loop :: "int \<Rightarrow> nat \<Rightarrow> int \<Rightarrow> int list \<Rightarrow> nat" where
  "quantile_loop inverse_probability index s [] = index"
| "quantile_loop inverse_probability index s (b # bs) =
     (if inverse_probability < s then quantile_loop inverse_probability (Suc index) (s - b) bs else index)"

definition histogram_quantile :: "real \<Rightarrow> histogram \<Rightarrow> nat option" where
  "histogram_quantile probability h =
     (case hi_buckets h of
        [] \<Rightarrow> None
      | b # bs \<Rightarrow>
          let total_q30 = 2 ^ 30;
              inverse_probability = total_q30 - f64_to_q probability 30
          in Some (quantile_loop inverse_probability 0 (total_q30 - b) bs))"

fun reset_loop :: "u32 \<Rightarrow> 'a list \<Rightarrow> int list" where
  "reset_loop temp_prob [] = []"
| "reset_loop temp_prob (b # bs) =
     (let temp_prob' = drop_bit 1 temp_prob
      in as_i32 (uint (push_bit 16 temp_prob')) # reset_loop temp_prob' bs)"

definition histogram_reset :: "histogram \<Rightarrow> histogram" where
  "histogram_reset h =
     h\<lparr>hi_buckets := reset_loop 0x4002 (hi_buckets h), hi_forget_factor := 0, hi_add_count := 0\<rparr>"

definition num_buckets :: "histogram \<Rightarrow> nat" where
  "num_buckets h = length (hi_buckets h)"

section \<open>Arrival delays\<close>

definition K_START_DELAY_MS :: u32 where "K_START_DELAY_MS = 80"
definition K_DELAY_BUCKETS :: nat where "K_DELAY_BUCKETS = 100"
definition K_BUCKET_SIZE_MS :: int where "K_BUCKET_SIZE_MS = 20"

record delay_config =
  dc_quantile :: real
  dc_forget_factor :: real
  dc_start_forget_weight :: "real option"
  dc_resample_interval_ms :: "u32 option"
  dc_max_history_ms :: u32
  dc_base_minimum_delay_ms :: u32
  dc_base_maximum_delay_ms :: u32
  dc_additional_delay_ms :: u32
  dc_use_reorder_optimizer :: bool
  dc_reorder_forget_factor :: real
  dc_ms_per_loss_percent :: u32

definition delay_config_default :: delay_config where
  "delay_config_default =
     \<lparr>dc_quantile = 97 / 100, dc_forget_factor = 9993 / 10000, dc_start_forget_weight = Some 2,
      dc_resample_interval_ms = Some 500, dc_max_history_ms = 2000, dc_base_minimum_delay_ms = 0,
      dc_base_maximum_delay_ms = 2000, dc_additional_delay_ms = 0, dc_use_reorder_optimizer = True,
      dc_reorder_forget_factor = 9993 / 10000, dc_ms_per_loss_percent = 20\<rparr>"

record packet_delay =
  pd_iat_delay_ms :: int
  pd_timestamp :: u32
  pd_arrival_time :: instant

record arrival_delay_tracker =
  at_config :: delay_config
  at_delay_history :: "packet_delay list"
  at_newest_timestamp :: "u32 option"
  at_last_timestamp :: "u32 option"
  at_last_packet_time :: "instant option"

definition tracker_new :: "delay_config \<Rightarrow> arrival_delay_tracker" where
  "tracker_new config =
     \<lparr>at_config = config, at_delay_history = [], at_newest_timestamp = None, at_last_timestamp = None,
      at_last_packet_time = None\<rparr>"

definition update_delay_history ::
  "instant \<Rightarrow> int \<Rightarrow> u32 \<Rightarrow> arrival_delay_tracker \<Rightarrow> arrival_delay_tracker" where
  "update_delay_history now iat_delay_ms timestamp tr =
     tr\<lparr>at_delay_history :=
          filter (\<lambda>delay. now - pd_arrival_time delay \<le> ms (unat (dc_max_history_ms (at_config tr))))
            (at_delay_history tr @
             [\<lparr>pd_iat_delay_ms = iat_delay_ms, pd_timestamp = timestamp, pd_arrival_time = now\<rparr>])\<rparr>"

definition calculate_relative_packet_arrival_delay :: "arrival_delay_tracker \<Rightarrow> int option" where
  "calculate_relative_packet_arrival_delay tr =
     (if at_delay_history tr = [] then Some 0
      else
        let positive_delays = sort (map (\<lambda>d. max (pd_iat_delay_ms d) 0) (at_delay_history tr));
            index = nat \<lfloor>real (length positive_delays - 1) * dc_quantile (at_config tr)\<rfloor>
        in if index < length positive_delays then Some (positive_delays ! index) else None)"

definition tracker_update ::
  "instant \<Rightarrow> u32 \<Rightarrow> u32 \<Rightarrow> arrival_delay_tracker \<Rightarrow> (int \<times> arrival_delay_tracker) option" where
  "tracker_update now timestamp sample_rate tr =
     (let expected_iat_ms = (case at_last_timestamp tr of
             Some last_timestamp \<Rightarrow>
               if sample_rate = 0 then None
               else Some ((if timestamp < last_timestamp then 0 else timestamp - last_timestamp) * 1000 div sample_rate)
           | None \<Rightarrow> Some 0);
          actual_iat_ms = (case at_last_packet_time tr of
             Some last_time \<Rightarrow> as_i32 (int ((now - last_time) div 1000000))
           | None \<Rightarrow> 0)
      in case expected_iat_ms of
           None \<Rightarrow> None
         | Some expected \<Rightarrow>
             let iat_delay_ms = as_i32 (actual_iat_ms - as_i32 (uint expected));
                 tr1 = update_delay_history now iat_delay_ms timestamp (tr\<lparr>at_last_packet_time := Some now\<rparr>)
             in case calculate_relative_packet_arrival_delay tr1 of
                  None \<Rightarrow> None
                | Some relative_delay \<Rightarrow>
                    Some (relative_delay,
                          tr1\<lparr>at_newest_timestamp := Some timestamp, at_last_timestamp := Some timestamp\<rparr>))"

definition tracker_reset :: "arrival_delay_tracker \<Rightarrow> arrival_delay_tracker" where
  "tracker_reset tr =
     tr\<lparr>at_delay_history := [], at_newest_timestamp := None, at_last_timestamp := None, at_last_packet_time := None\<rparr>"

section \<open>The delay manager\<close>

record delay_manager =
  dm_config :: delay_config
  dm_arrival_delay_tracker :: arrival_delay_tracker
  dm_target_level_ms :: u32
  dm_minimum_delay_ms :: u32
  dm_effective_minimum_delay_ms :: u32
  dm_maximum_delay_ms :: u32
  dm_effective_maximum_delay_ms :: u32
  dm_resampled_relative_delay :: int
  dm_last_resample_time :: "instant option"
  dm_histogram :: histogram

definition delay_manager_new :: "delay_config \<Rightarrow> delay_manager" where
  "delay_manager_new config =
     \<lparr>dm_config = config, dm_arrival_delay_tracker = tracker_new config,
      dm_target_level_ms = max K_START_DELAY_MS (dc_base_minimum_delay_ms config),
      dm_minimum_delay_ms = 0, dm_effective_minimum_delay_ms = dc_base_minimum_delay_ms config,
      dm_maximum_delay_ms = 0, dm_effective_maximum_delay_ms = dc_base_maximum_delay_ms config,
      dm_resampled_relative_delay = 0, dm_last_resample_time = None,
      dm_histogram = histogram_new K_DELAY_BUCKETS (dc_forget_factor config) (dc_start_forget_weight config)\<rparr>"

definition delay_manager_reset :: "delay_manager \<Rightarrow> delay_manager" where
  "delay_manager_reset dm =
     dm\<lparr>dm_arrival_delay_tracker := tracker_reset (dm_arrival_delay_tracker dm),
        dm_target_level_ms := max K_START_DELAY_MS (dc_base_minimum_delay_ms (dm_config dm)),
        dm_resampled_relative_delay := 0, dm_last_resample_time := None\<rparr>"

text \<open>The cast of the bucket number to \<open>usize\<close> is that of a quotient that is truncated towards zero; a negative
  one becomes a huge number and is not registered.\<close>

definition register_relative_delay :: "int \<Rightarrow> delay_manager \<Rightarrow> delay_manager option" where
  "register_relative_delay relative_delay dm =
     (let q = (if 0 \<le> relative_delay then relative_delay div K_BUCKET_SIZE_MS
               else - ((- relative_delay) div K_BUCKET_SIZE_MS))
      in if 0 \<le> q \<and> nat q < num_buckets (dm_histogram dm)
         then map_option (\<lambda>h. dm\<lparr>dm_histogram := h\<rparr>) (histogram_add (nat q) (dm_histogram dm))
         else Some dm)"

definition update_target_delay :: "delay_manager \<Rightarrow> delay_manager option" where
  "update_target_delay dm =
     (case histogram_quantile (dc_quantile (dm_config dm)) (dm_histogram dm) of
        None \<Rightarrow> None
      | Some bucket_index \<Rightarrow>
          let level = (1 + of_nat bucket_index) * of_int K_BUCKET_SIZE_MS
          in Some (dm\<lparr>dm_target_level_ms :=
                min (max level (dm_effective_minimum_delay_ms dm)) (dm_effective_maximum_delay_ms dm)\<rparr>))"

text \<open>The part of \<open>update\<close> that resamples: the largest delay of an interval is registered at its end.\<close>

definition resample :: "instant \<Rightarrow> u32 \<Rightarrow> int \<Rightarrow> delay_manager \<Rightarrow> delay_manager option" where
  "resample now resample_interval_ms relative_delay dm =
     (case dm_last_resample_time dm of
        Some last_resample_time \<Rightarrow>
          let elapsed_ms = (of_nat ((now - last_resample_time) div 1000000) :: u32)
          in if resample_interval_ms \<le> elapsed_ms
             then if resample_interval_ms = 0 then None
             else (case register_relative_delay (dm_resampled_relative_delay dm) dm of
                     None \<Rightarrow> None
                   | Some dm1 \<Rightarrow>
                       let elapsed_multiples = elapsed_ms div resample_interval_ms * resample_interval_ms
                       in Some (dm1\<lparr>dm_resampled_relative_delay := max 0 relative_delay,
                                    dm_last_resample_time := Some (last_resample_time + ms (unat elapsed_multiples))\<rparr>))
             else Some (dm\<lparr>dm_resampled_relative_delay := max (dm_resampled_relative_delay dm) relative_delay\<rparr>)
      | None \<Rightarrow>
          Some (dm\<lparr>dm_last_resample_time := Some now,
                   dm_resampled_relative_delay := max (dm_resampled_relative_delay dm) relative_delay\<rparr>))"

definition delay_manager_update ::
  "instant \<Rightarrow> u32 \<Rightarrow> u32 \<Rightarrow> bool \<Rightarrow> delay_manager \<Rightarrow> delay_manager option" where
  "delay_manager_update now timestamp sample_rate reset dm =
     (let dm0 = (if reset then delay_manager_reset dm else dm)
      in case tracker_update now timestamp sample_rate (dm_arrival_delay_tracker dm0) of
           None \<Rightarrow> None
         | Some (relative_delay, tr) \<Rightarrow>
             let dm1 = dm0\<lparr>dm_arrival_delay_tracker := tr\<rparr>
             in Option.bind
                  (case dc_resample_interval_ms (dm_config dm1) of
                     Some interval \<Rightarrow> resample now interval relative_delay dm1
                   | None \<Rightarrow> register_relative_delay relative_delay dm1)
                  update_target_delay)"

definition target_delay_ms :: "delay_manager \<Rightarrow> u32" where
  "target_delay_ms dm =
     min (max (dm_target_level_ms dm + dc_additional_delay_ms (dm_config dm)) (dm_effective_minimum_delay_ms dm))
       (dm_effective_maximum_delay_ms dm)"

definition update_effective_delay_bounds :: "delay_manager \<Rightarrow> delay_manager" where
  "update_effective_delay_bounds dm =
     (let upper_bound = dc_base_maximum_delay_ms (dm_config dm);
          lower_bound = min (dc_base_minimum_delay_ms (dm_config dm)) upper_bound;
          dm1 = dm\<lparr>dm_effective_minimum_delay_ms :=
                    (if 0 < dm_minimum_delay_ms dm then min (max (dm_minimum_delay_ms dm) lower_bound) upper_bound
                     else lower_bound)\<rparr>
      in dm1\<lparr>dm_effective_maximum_delay_ms :=
               (if 0 < dm_maximum_delay_ms dm1
                then min (max (dm_maximum_delay_ms dm1) (dm_effective_minimum_delay_ms dm1)) upper_bound
                else upper_bound)\<rparr>)"

definition set_minimum_delay :: "u32 \<Rightarrow> delay_manager \<Rightarrow> u32 \<times> delay_manager" where
  "set_minimum_delay delay_ms dm =
     (let dm1 = update_effective_delay_bounds (dm\<lparr>dm_minimum_delay_ms := delay_ms\<rparr>)
      in (dm_effective_minimum_delay_ms dm1, dm1))"

definition set_maximum_delay :: "u32 \<Rightarrow> delay_manager \<Rightarrow> u32 \<times> delay_manager" where
  "set_maximum_delay delay_ms dm =
     (let dm1 = update_effective_delay_bounds (dm\<lparr>dm_maximum_delay_ms := delay_ms\<rparr>)
      in (dm_effective_maximum_delay_ms dm1, dm1))"

definition set_base_minimum_delay :: "u32 \<Rightarrow> delay_manager \<Rightarrow> delay_manager" where
  "set_base_minimum_delay delay_ms dm =
     update_effective_delay_bounds (dm\<lparr>dm_config := (dm_config dm)\<lparr>dc_base_minimum_delay_ms := delay_ms\<rparr>\<rparr>)"

definition set_base_maximum_delay :: "u32 \<Rightarrow> delay_manager \<Rightarrow> delay_manager" where
  "set_base_maximum_delay delay_ms dm =
     update_effective_delay_bounds (dm\<lparr>dm_config := (dm_config dm)\<lparr>dc_base_maximum_delay_ms := delay_ms\<rparr>\<rparr>)"

section \<open>The filtered buffer level\<close>

record buffer_level_filter =
  bf_filtered_level_samples :: real
  bf_level_factor :: real
  bf_sample_rate_hz :: u32

definition level_filter_new :: "u32 \<Rightarrow> buffer_level_filter" where
  "level_filter_new sample_rate_hz =
     \<lparr>bf_filtered_level_samples = 0, bf_level_factor = 253 / 256, bf_sample_rate_hz = sample_rate_hz\<rparr>"

definition level_filter_update :: "nat \<Rightarrow> int \<Rightarrow> buffer_level_filter \<Rightarrow> buffer_level_filter" where
  "level_filter_update buffer_size_samples time_stretched_samples f =
     (let buffer_jump = \<bar>real buffer_size_samples - bf_filtered_level_samples f\<bar>;
          buffer_jump_threshold =
            (if bf_filtered_level_samples f < 100 then max (real buffer_size_samples * (75 / 100)) 3000
             else max (bf_filtered_level_samples f * 3) 1500);
          effective_factor = (if buffer_jump_threshold < buffer_jump then 7 / 10 else bf_level_factor f);
          filtered_level = effective_factor * bf_filtered_level_samples f +
            (1 - effective_factor) * real buffer_size_samples
      in f\<lparr>bf_filtered_level_samples := max (filtered_level - of_int time_stretched_samples) 0\<rparr>)"

definition set_filtered_buffer_level :: "nat \<Rightarrow> buffer_level_filter \<Rightarrow> buffer_level_filter" where
  "set_filtered_buffer_level buffer_size_samples f = f\<lparr>bf_filtered_level_samples := real buffer_size_samples\<rparr>"

definition filtered_current_level :: "buffer_level_filter \<Rightarrow> nat" where
  "filtered_current_level f = nat \<lfloor>max (bf_filtered_level_samples f) 0\<rfloor>"

definition filtered_current_level_ms :: "buffer_level_filter \<Rightarrow> u32" where
  "filtered_current_level_ms f =
     (if bf_sample_rate_hz f = 0 then 0
      else of_nat (filtered_current_level f * 1000 div unat (bf_sample_rate_hz f)))"

definition set_target_buffer_level :: "u32 \<Rightarrow> buffer_level_filter \<Rightarrow> buffer_level_filter" where
  "set_target_buffer_level target_level_ms f =
     f\<lparr>bf_level_factor :=
         (if target_level_ms \<le> 20 then 251 / 256
          else if target_level_ms \<le> 60 then 252 / 256
          else if target_level_ms \<le> 140 then 253 / 256
          else 254 / 256)\<rparr>"

definition target_level_samples :: "u32 \<Rightarrow> buffer_level_filter \<Rightarrow> nat" where
  "target_level_samples target_level_ms f =
     (if bf_sample_rate_hz f = 0 then 0 else unat target_level_ms * unat (bf_sample_rate_hz f) div 1000)"

definition level_filter_reset :: "buffer_level_filter \<Rightarrow> buffer_level_filter" where
  "level_filter_reset f = f\<lparr>bf_filtered_level_samples := 0, bf_level_factor := 253 / 256\<rparr>"

definition set_sample_rate :: "u32 \<Rightarrow> buffer_level_filter \<Rightarrow> buffer_level_filter" where
  "set_sample_rate sample_rate_hz f = f\<lparr>bf_sample_rate_hz := sample_rate_hz\<rparr>"

section \<open>The histogram is a distribution\<close>

lemma sum_list_update_int: "k < length (xs :: int list) \<Longrightarrow> sum_list (xs[k := x]) = sum_list xs + x - xs ! k"
  by (induction xs arbitrary: k) (auto split: nat.split)

lemma sum_list_div_bounds:
  fixes xs :: "int list"
  assumes "0 < c"
  shows "c * sum_list (map (\<lambda>x. x div c) xs) \<le> sum_list xs \<and>
    sum_list xs \<le> c * sum_list (map (\<lambda>x. x div c) xs) + int (length xs) * (c - 1)"
proof (induction xs)
  case (Cons x xs)
  have "c * (x div c) \<le> x" "x \<le> c * (x div c) + (c - 1)"
    using assms by (simp_all add: minus_mod_eq_mult_div [symmetric])
  then show ?case using Cons by (simp add: algebra_simps)
qed simp

lemma sum_list_div_nonneg: "0 < c \<Longrightarrow> \<forall>x\<in>set xs. 0 \<le> x \<Longrightarrow> 0 \<le> sum_list (map (\<lambda>x. x div c) (xs :: int list))"
  by (induction xs) (simp_all add: pos_imp_zdiv_nonneg_iff)

lemma sum_list_ge_elem: "\<forall>x\<in>set xs. 0 \<le> x \<Longrightarrow> y \<in> set xs \<Longrightarrow> y \<le> sum_list (xs :: int list)"
  by (induction xs) (auto simp: sum_list_nonneg add_increasing add_increasing2)

lemma correct_loop_deficit:
  assumes "vs < 0" and "\<forall>b\<in>set bs. 0 \<le> b \<and> b \<le> 2 ^ 30" and "- vs \<le> sum_list (map (\<lambda>b. b div 16) bs)"
  shows "let bs' = fst (correct_loop 1 vs bs)
    in snd (correct_loop 1 vs bs) = 0 \<and> length bs' = length bs \<and> (\<forall>b\<in>set bs'. 0 \<le> b) \<and>
       sum_list bs' = sum_list bs - vs"
  using assms
proof (induction bs arbitrary: vs)
  case (Cons b bs)
  define c where "c = min (- vs) (b div 16)"
  have b: "0 \<le> b" "b \<le> 2 ^ 30" using Cons.prems(2) by simp_all
  then have d: "0 \<le> b div 16" "b div 16 \<le> 2 ^ 26" by (simp_all add: pos_imp_zdiv_nonneg_iff)
  have c0: "max (min \<bar>vs\<bar> (b div 16)) 0 = c"
    using Cons.prems(1) d by (simp add: max_def min_def c_def)
  have cb: "0 \<le> c" "c \<le> 2 ^ 26" using Cons.prems(1) d by (auto simp: min_def c_def)
  have i: "as_i32 (b + c) = b + c"
  proof (rule as_i32_id)
    show "- (2 ^ 31) \<le> b + c" using b cb by simp
    show "b + c < 2 ^ 31" using b cb by simp
  qed
  define r where "r = correct_loop 1 (vs + c) bs"
  have step: "correct_loop 1 vs (b # bs) = (if vs + c = 0 then ((b + c) # bs, 0) else ((b + c) # fst r, snd r))"
    by (simp only: correct_loop.simps Let_def mult_1 c0 i r_def split_beta)
  show ?case
  proof (cases "vs + c = 0")
    case True
    then have "c = - vs" by linarith
    then show ?thesis using Cons.prems(2) b cb(1) True by (simp add: step Let_def del: correct_loop.simps)
  next
    case False
    have v: "vs + c < 0" "c = b div 16" using False by (auto simp: c_def min_def split: if_splits)
    have rest: "\<forall>x\<in>set bs. 0 \<le> x \<and> x \<le> 2 ^ 30" "- (vs + c) \<le> sum_list (map (\<lambda>b. b div 16) bs)"
      using Cons.prems(2,3) by (simp_all add: v(2))
    have "snd r = 0 \<and> length (fst r) = length bs \<and> (\<forall>b\<in>set (fst r). 0 \<le> b) \<and> sum_list (fst r) = sum_list bs - (vs + c)"
      using Cons.IH [OF v(1) rest] unfolding r_def Let_def by blast
    then show ?thesis using False b cb(1) by (simp add: step Let_def del: correct_loop.simps)
  qed
qed simp

text \<open>The shape every histogram has: a fresh one, or one whose buckets are non-negative and sum to one.\<close>

definition hist_ok :: "histogram \<Rightarrow> bool" where
  "hist_ok h \<longleftrightarrow>
     0 < length (hi_buckets h) \<and> length (hi_buckets h) \<le> 2 ^ 25 \<and> (\<forall>b\<in>set (hi_buckets h). 0 \<le> b) \<and>
     0 \<le> hi_forget_factor h \<and> hi_forget_factor h \<le> hi_base_forget_factor h \<and> hi_base_forget_factor h < 2 ^ 15 \<and>
     (sum_list (hi_buckets h) = 2 ^ 30 \<or> sum_list (hi_buckets h) = 0 \<and> hi_forget_factor h = 0)"

lemma next_forget_factor_bounds:
  assumes "0 \<le> hi_forget_factor h" and "hi_forget_factor h \<le> hi_base_forget_factor h"
  shows "0 \<le> next_forget_factor n h \<and> next_forget_factor n h \<le> hi_base_forget_factor h"
proof (cases "hi_start_forget_weight h")
  case None
  let ?d = "hi_base_forget_factor h - hi_forget_factor h"
  have "0 \<le> (?d + 3) div 4" "(?d + 3) div 4 \<le> ?d" using assms by linarith+
  then show ?thesis using assms None by (simp add: next_forget_factor_def)
next
  case (Some w)
  then show ?thesis using assms by (auto simp: next_forget_factor_def Let_def)
qed

lemma decay_sum:
  assumes "hist_ok h"
  shows "sum_list (hi_buckets h) * hi_forget_factor h = 2 ^ 30 * hi_forget_factor h"
  using assms by (auto simp: hist_ok_def)

lemma histogram_add_ok:
  assumes ok: "hist_ok h" and v: "value < length (hi_buckets h)"
  shows "\<exists>h'. histogram_add value h = Some h' \<and> hist_ok h' \<and> sum_list (hi_buckets h') = 2 ^ 30 \<and>
    length (hi_buckets h') = length (hi_buckets h)"
proof -
  define n where "n = int (length (hi_buckets h))"
  define ff where "ff = hi_forget_factor h"
  define dec where "dec = map (\<lambda>b. b * ff div 2 ^ 15) (hi_buckets h)"
  define amount where "amount = (2 ^ 15 - ff) * 2 ^ 15"
  define vs where "vs = sum_list dec + amount - 2 ^ 30"
  have ff: "0 \<le> ff" "ff < 2 ^ 15" and nb: "0 < n" "n \<le> 2 ^ 25" and nn: "\<forall>b\<in>set (hi_buckets h). 0 \<le> b"
    using ok by (auto simp: hist_ok_def ff_def n_def)
  have "sum_list (map (\<lambda>b. b * ff) (hi_buckets h)) = 2 ^ 30 * ff"
    using decay_sum [OF ok] by (simp add: sum_list_mult_const ff_def)
  then have bounds: "2 ^ 15 * sum_list dec \<le> 2 ^ 30 * ff" "2 ^ 30 * ff \<le> 2 ^ 15 * sum_list dec + n * (2 ^ 15 - 1)"
    using sum_list_div_bounds [of "2 ^ 15" "map (\<lambda>b. b * ff) (hi_buckets h)"]
    by (simp_all add: dec_def comp_def n_def)
  have vs: "vs \<le> 0" "- vs \<le> n" using bounds nb by (auto simp: vs_def amount_def)
  have dec0: "\<forall>b\<in>set dec. 0 \<le> b" using nn ff by (auto simp: dec_def pos_imp_zdiv_nonneg_iff)
  have decs: "sum_list dec = 2 ^ 30 - amount + vs" "0 \<le> sum_list dec"
    using dec0 by (simp_all add: vs_def sum_list_nonneg)
  have amt: "0 < amount" "amount \<le> 2 ^ 30" using ff by (simp_all add: amount_def)
  have dec30: "\<forall>b\<in>set dec. b \<le> 2 ^ 30 - amount"
    using sum_list_ge_elem [OF dec0] decs(1) vs(1) by fastforce
  have cast: "map as_i32 dec = dec"
    using dec0 dec30 amt by (intro map_idI as_i32_id) (auto dest!: bspec)
  define b2 where "b2 = dec[value := dec ! value + amount]"
  have len: "length dec = length (hi_buckets h)" by (simp add: dec_def)
  have dv: "0 \<le> dec ! value" "dec ! value \<le> 2 ^ 30 - amount" using dec0 dec30 v len by simp_all
  then have cast2: "as_i32 (dec ! value + amount) = dec ! value + amount"
    using amt by (intro as_i32_id) auto
  have b2: "\<forall>b\<in>set b2. 0 \<le> b \<and> b \<le> 2 ^ 30" "sum_list b2 = 2 ^ 30 + vs" "length b2 = length (hi_buckets h)"
  proof -
    show "\<forall>b\<in>set b2. 0 \<le> b \<and> b \<le> 2 ^ 30"
      using dec0 dec30 dv amt set_update_subset_insert [of dec "value" "dec ! value + amount"]
      by (fastforce simp: b2_def)
    show "sum_list b2 = 2 ^ 30 + vs" using v len decs by (simp add: b2_def sum_list_update_int)
    show "length b2 = length (hi_buckets h)" by (simp add: b2_def len)
  qed
  define b3 where "b3 = (if vs = 0 then b2 else fst (correct_loop (if 0 < vs then - 1 else 1) vs b2))"
  have b3: "(\<forall>b\<in>set b3. 0 \<le> b) \<and> sum_list b3 = 2 ^ 30 \<and> length b3 = length (hi_buckets h)"
  proof (cases "vs = 0")
    case False
    then have neg: "vs < 0" using vs by simp
    have "sum_list b2 \<le> 16 * sum_list (map (\<lambda>b. b div 16) b2) + n * 15"
      using sum_list_div_bounds [of 16 b2] b2(3) by (simp add: n_def)
    then have "- vs \<le> sum_list (map (\<lambda>b. b div 16) b2)" using b2(2) vs nb by simp
    from correct_loop_deficit [OF neg b2(1) this] show ?thesis
      using neg b2(2,3) by (simp add: b3_def Let_def)
  qed (use b2 in \<open>simp add: b3_def\<close>)
  define cnt where "cnt = (if hi_add_count h = - 1 then - 1 else hi_add_count h + 1)"
  have add: "histogram_add value h =
      Some (h\<lparr>hi_buckets := b3, hi_add_count := cnt, hi_forget_factor := next_forget_factor cnt h\<rparr>)"
    unfolding histogram_add_def Let_def ff_def [symmetric] dec_def [symmetric] amount_def [symmetric] cast cast2
      vs_def [symmetric] b2_def [symmetric] b3_def [symmetric] cnt_def [symmetric]
    using v by simp
  have "hist_ok (h\<lparr>hi_buckets := b3, hi_add_count := cnt, hi_forget_factor := next_forget_factor cnt h\<rparr>)"
    using ok b3 next_forget_factor_bounds [of h cnt] by (simp add: hist_ok_def)
  then show ?thesis using add b3 by simp
qed

section \<open>Runs of the histogram\<close>

definition hist_add_all :: "histogram \<Rightarrow> nat list \<Rightarrow> histogram option" where
  "hist_add_all h vs = foldl (\<lambda>r v. Option.bind r (histogram_add v)) (Some h) vs"

lemma hist_add_all_ok:
  assumes "hist_ok h" and "\<forall>v\<in>set vs. v < length (hi_buckets h)"
  shows "\<exists>h'. hist_add_all h vs = Some h' \<and> hist_ok h' \<and> length (hi_buckets h') = length (hi_buckets h) \<and>
    (vs \<noteq> [] \<longrightarrow> sum_list (hi_buckets h') = 2 ^ 30)"
  using assms(2)
proof (induction vs rule: rev_induct)
  case Nil
  then show ?case using assms(1) by (simp add: hist_add_all_def)
next
  case (snoc v vs)
  then obtain h1 where h1: "hist_add_all h vs = Some h1" "hist_ok h1" "length (hi_buckets h1) = length (hi_buckets h)"
    by auto
  then show ?case using histogram_add_ok [of h1 v] snoc.prems by (auto simp: hist_add_all_def)
qed

lemma base_factor_bounds:
  assumes "0 \<le> v" and "v \<le> 32766 / 32768"
  shows "0 \<le> as_i32 (f64_to_q v 15) \<and> as_i32 (f64_to_q v 15) < 2 ^ 15"
proof -
  have "0 \<le> \<lfloor>v * 32768 + 1 / 2\<rfloor>" "\<lfloor>v * 32768 + 1 / 2\<rfloor> < 32768"
    using assms by (simp_all add: floor_less_iff)
  then show ?thesis using assms by (simp add: f64_to_q_def rust_round_def as_i32_id)
qed

lemma hist_ok_new:
  assumes "0 < n" and "n \<le> 2 ^ 25" and "0 \<le> v" and "v \<le> 32766 / 32768"
  shows "hist_ok (histogram_new n v w)"
  using assms base_factor_bounds [OF assms(3,4)] by (simp add: hist_ok_def histogram_new_def sum_list_replicate)

text \<open>Whatever delays are registered, in any number and order, the histogram never fails and stays a
  probability distribution in fixed point: the buckets are non-negative and sum to exactly one, so the
  correction of rounding errors always finds enough mass to take them from and no 32-bit cast truncates.\<close>

theorem histogram_distribution:
  assumes "0 < n" and "n \<le> 2 ^ 25" and "0 \<le> factor" and "factor \<le> 32766 / 32768"
    and "\<forall>v\<in>set vs. v < n" and "vs \<noteq> []"
  shows "\<exists>h. hist_add_all (histogram_new n factor weight) vs = Some h \<and> length (hi_buckets h) = n \<and>
    (\<forall>b\<in>set (hi_buckets h). 0 \<le> b) \<and> sum_list (hi_buckets h) = 2 ^ 30"
proof -
  have "length (hi_buckets (histogram_new n factor weight)) = n" by (simp add: histogram_new_def)
  then show ?thesis
    using hist_add_all_ok [OF hist_ok_new [OF assms(1-4), of weight], of vs] assms(5,6)
    by (auto simp: hist_ok_def)
qed

theorem histogram_distribution_witness:
  "\<exists>h. hist_add_all (histogram_new 100 (9993 / 10000) (Some 2)) [3, 0, 99, 3] = Some h \<and>
     sum_list (hi_buckets h) = 2 ^ 30"
  using histogram_distribution [of 100 "9993 / 10000" "[3, 0, 99, 3]" "Some 2"] by auto

lemma reset_loop_length: "reset_loop t bs = reset_loop t (replicate (length bs) ())"
  by (induction bs arbitrary: t) (simp_all add: Let_def)

text \<open>A reset histogram is a distribution too: the mass of bucket \<open>i\<close> is half that of the one before.\<close>

lemma reset_loop_sum: "sum_list (reset_loop 0x4002 (replicate 100 ())) = 2 ^ 30"
  by code_simp

lemma histogram_reset_sum:
  "length (hi_buckets h) = 100 \<Longrightarrow> sum_list (hi_buckets (histogram_reset h)) = 2 ^ 30"
  using reset_loop_sum reset_loop_length [of "0x4002" "hi_buckets h"] by (simp add: histogram_reset_def)

section \<open>The quantile\<close>

lemma quantile_loop_spec:
  assumes "i = quantile_loop p k s bs"
  shows "k \<le> i \<and> i \<le> k + length bs \<and> (\<forall>j. k \<le> j \<and> j < i \<longrightarrow> p < s - sum_list (take (j - k) bs)) \<and>
    (i < k + length bs \<longrightarrow> s - sum_list (take (i - k) bs) \<le> p)"
  using assms
proof (induction bs arbitrary: k s)
  case (Cons b bs)
  show ?case
  proof (cases "p < s")
    case True
    then have i: "i = quantile_loop p (Suc k) (s - b) bs" using Cons.prems by simp
    note ih = Cons.IH [OF i]
    have "p < s - sum_list (take (j - k) (b # bs))" if "k \<le> j" "j < i" for j
      using ih that True by (cases "j = k") (auto simp: take_Cons' Suc_le_eq diff_diff_eq)
    moreover have "s - sum_list (take (i - k) (b # bs)) \<le> p" if "i < k + length (b # bs)"
      using ih that by (auto simp: take_Cons' Suc_le_eq diff_diff_eq)
    ultimately show ?thesis using ih by simp
  next
    case False
    then show ?thesis using Cons.prems by simp
  qed
qed simp

lemma quantile_least:
  assumes "hist_ok h" and "sum_list (hi_buckets h) = 2 ^ 30" and "0 \<le> q" and "q \<le> 1"
  shows "histogram_quantile q h =
      Some (LEAST i. f64_to_q q 30 \<le> sum_list (take (Suc i) (hi_buckets h)))" (is ?least)
    and "histogram_quantile q h = Some i \<Longrightarrow> f64_to_q q 30 \<le> sum_list (take (Suc i) (hi_buckets h))" (is "_ \<Longrightarrow> ?reached i")
proof -
  obtain b bs where bs: "hi_buckets h = b # bs" using assms(1) by (cases "hi_buckets h") (auto simp: hist_ok_def)
  let ?p = "f64_to_q q 30"
  define i where "i = quantile_loop (2 ^ 30 - ?p) 0 (2 ^ 30 - b) bs"
  note spec = quantile_loop_spec [OF i_def]
  have p: "?p \<le> 2 ^ 30"
    using assms(3,4) by (simp add: f64_to_q_def rust_round_def floor_le_iff)
  have reach: "?p \<le> sum_list (take (Suc i) (hi_buckets h))"
  proof (cases "i < length bs")
    case True
    then show ?thesis using spec bs by simp
  next
    case False
    then have "take (Suc i) (hi_buckets h) = hi_buckets h" using bs by simp
    then show ?thesis using assms(2) p by simp
  qed
  have "\<not> ?p \<le> sum_list (take (Suc j) (hi_buckets h))" if "j < i" for j
    using spec that bs by auto
  then have "(LEAST i. ?p \<le> sum_list (take (Suc i) (hi_buckets h))) = i"
    using reach by (intro Least_equality) (auto simp: not_less [symmetric])
  then show ?least by (simp add: histogram_quantile_def bs i_def Let_def)
  show "?reached j" if "histogram_quantile q h = Some j" for j
    using that reach by (simp add: histogram_quantile_def bs i_def Let_def)
qed

lemmas quantile_reached = quantile_least(2)

text \<open>The quantile of the histogram is the reference definition: the least bucket such that it and the
  buckets below it hold at least the asked probability, once something was registered.\<close>

theorem quantile_is_least:
  assumes "hist_ok h" and "sum_list (hi_buckets h) = 2 ^ 30" and "0 \<le> q" and "q \<le> 1"
  shows "histogram_quantile q h =
    Some (LEAST i. f64_to_q q 30 \<le> sum_list (take (Suc i) (hi_buckets h)))"
  by (rule quantile_least(1) [OF assms])

section \<open>The target delay\<close>

datatype delay_event =
    DmPacket instant u32 u32 bool
  | DmReset
  | DmSetMin u32
  | DmSetMax u32
  | DmSetBaseMin u32
  | DmSetBaseMax u32

fun delay_step :: "delay_manager option \<Rightarrow> delay_event \<Rightarrow> delay_manager option" where
  "delay_step None ev = None"
| "delay_step (Some dm) (DmPacket now timestamp sample_rate reset) =
     delay_manager_update now timestamp sample_rate reset dm"
| "delay_step (Some dm) DmReset = Some (delay_manager_reset dm)"
| "delay_step (Some dm) (DmSetMin d) = Some (snd (set_minimum_delay d dm))"
| "delay_step (Some dm) (DmSetMax d) = Some (snd (set_maximum_delay d dm))"
| "delay_step (Some dm) (DmSetBaseMin d) = Some (set_base_minimum_delay d dm)"
| "delay_step (Some dm) (DmSetBaseMax d) = Some (set_base_maximum_delay d dm)"

fun rate_known :: "delay_event \<Rightarrow> bool" where
  "rate_known (DmPacket now timestamp sample_rate reset) = (sample_rate \<noteq> 0)"
| "rate_known ev = True"

definition config_ok :: "delay_config \<Rightarrow> bool" where
  "config_ok c \<longleftrightarrow> 0 \<le> dc_quantile c \<and> dc_quantile c \<le> 1 \<and> dc_resample_interval_ms c \<noteq> Some 0 \<and>
     0 \<le> dc_forget_factor c \<and> dc_forget_factor c \<le> 32766 / 32768"

definition delay_ok :: "delay_manager \<Rightarrow> bool" where
  "delay_ok dm \<longleftrightarrow> config_ok (dm_config dm) \<and>
     dc_quantile (at_config (dm_arrival_delay_tracker dm)) = dc_quantile (dm_config dm) \<and>
     hist_ok (dm_histogram dm) \<and> length (hi_buckets (dm_histogram dm)) = 100 \<and>
     dm_effective_minimum_delay_ms dm \<le> dm_effective_maximum_delay_ms dm \<and>
     dm_effective_maximum_delay_ms dm \<le> dc_base_maximum_delay_ms (dm_config dm)"

lemma calculate_delay_total:
  assumes "0 \<le> dc_quantile (at_config tr)" and "dc_quantile (at_config tr) \<le> 1"
  shows "\<exists>d. calculate_relative_packet_arrival_delay tr = Some d"
proof (cases "at_delay_history tr = []")
  case False
  define n where "n = length (at_delay_history tr) - 1"
  have "real n * dc_quantile (at_config tr) \<le> real n" using assms by (simp add: mult_left_le)
  then have "\<lfloor>real n * dc_quantile (at_config tr)\<rfloor> \<le> int n" by linarith
  then have "nat \<lfloor>real n * dc_quantile (at_config tr)\<rfloor> \<le> n" by (simp only: nat_le_iff)
  moreover have "n < length (at_delay_history tr)" using False by (simp add: n_def)
  ultimately have "nat \<lfloor>real n * dc_quantile (at_config tr)\<rfloor> < length (at_delay_history tr)" by (rule le_less_trans)
  then show ?thesis
    using False unfolding calculate_relative_packet_arrival_delay_def Let_def length_sort length_map n_def [symmetric]
    by simp
qed (simp add: calculate_relative_packet_arrival_delay_def)

lemma tracker_update_total:
  assumes "0 \<le> dc_quantile (at_config tr)" and "dc_quantile (at_config tr) \<le> 1" and "sample_rate \<noteq> 0"
  shows "\<exists>d tr'. tracker_update now timestamp sample_rate tr = Some (d, tr') \<and> at_config tr' = at_config tr"
proof -
  define x where "x = (case at_last_timestamp tr of
      Some t \<Rightarrow> (if timestamp < t then 0 else timestamp - t) * 1000 div sample_rate | None \<Rightarrow> 0)"
  define a where "a = (case at_last_packet_time tr of
      Some last_time \<Rightarrow> as_i32 (int ((now - last_time) div 1000000)) | None \<Rightarrow> 0)"
  let ?tr1 = "update_delay_history now (as_i32 (a - as_i32 (uint x))) timestamp (tr\<lparr>at_last_packet_time := Some now\<rparr>)"
  obtain d where d: "calculate_relative_packet_arrival_delay ?tr1 = Some d"
    using calculate_delay_total [of ?tr1] assms by (auto simp: update_delay_history_def)
  have "(case at_last_timestamp tr of
      Some last_timestamp \<Rightarrow> if sample_rate = 0 then None
        else Some ((if timestamp < last_timestamp then 0 else timestamp - last_timestamp) * 1000 div sample_rate)
    | None \<Rightarrow> Some 0) = Some x"
    using assms(3) by (simp add: x_def split: option.split)
  then have "tracker_update now timestamp sample_rate tr =
      Some (d, ?tr1\<lparr>at_newest_timestamp := Some timestamp, at_last_timestamp := Some timestamp\<rparr>)"
    using d unfolding tracker_update_def Let_def a_def [symmetric] by simp
  then show ?thesis by (simp add: update_delay_history_def)
qed

lemma register_delay_ok:
  assumes "delay_ok dm"
  shows "\<exists>h. register_relative_delay d dm = Some (dm\<lparr>dm_histogram := h\<rparr>) \<and> delay_ok (dm\<lparr>dm_histogram := h\<rparr>)"
proof -
  define q where "q = (if 0 \<le> d then d div K_BUCKET_SIZE_MS else - ((- d) div K_BUCKET_SIZE_MS))"
  show ?thesis
  proof (cases "0 \<le> q \<and> nat q < num_buckets (dm_histogram dm)")
    case True
    obtain h where "histogram_add (nat q) (dm_histogram dm) = Some h" "hist_ok h" "length (hi_buckets h) = 100"
      using histogram_add_ok [of "dm_histogram dm" "nat q"] assms True
      by (auto simp: delay_ok_def num_buckets_def)
    then show ?thesis
      using True assms by (intro exI [of _ h]) (simp add: register_relative_delay_def q_def Let_def delay_ok_def)
  next
    case False
    then show ?thesis
      using assms unfolding register_relative_delay_def Let_def q_def [symmetric]
      by (intro exI [of _ "dm_histogram dm"]) auto
  qed
qed

lemma delay_ok_times [simp]:
  "delay_ok (dm\<lparr>dm_resampled_relative_delay := d\<rparr>) = delay_ok dm"
  "delay_ok (dm\<lparr>dm_last_resample_time := t\<rparr>) = delay_ok dm"
  "delay_ok (dm\<lparr>dm_target_level_ms := l\<rparr>) = delay_ok dm"
  by (simp_all add: delay_ok_def)

lemma resample_ok:
  assumes "delay_ok dm" and "interval \<noteq> 0"
  shows "\<exists>dm'. resample now interval d dm = Some dm' \<and> delay_ok dm'"
proof (cases "dm_last_resample_time dm")
  case (Some t)
  obtain h where "register_relative_delay (dm_resampled_relative_delay dm) dm = Some (dm\<lparr>dm_histogram := h\<rparr>)"
      "delay_ok (dm\<lparr>dm_histogram := h\<rparr>)"
    using register_delay_ok [OF assms(1)] by blast
  then show ?thesis using Some assms by (simp add: resample_def Let_def)
qed (use assms in \<open>simp add: resample_def\<close>)

lemma quantile_bound:
  assumes "hist_ok h"
  shows "\<exists>i. histogram_quantile q h = Some i \<and> i < length (hi_buckets h)"
proof -
  obtain b bs where bs: "hi_buckets h = b # bs" using assms by (cases "hi_buckets h") (auto simp: hist_ok_def)
  have "quantile_loop (2 ^ 30 - f64_to_q q 30) 0 (2 ^ 30 - b) bs \<le> length bs"
    using quantile_loop_spec [OF refl, where p = "2 ^ 30 - f64_to_q q 30" and k = 0 and s = "2 ^ 30 - b" and bs = bs] by simp
  then show ?thesis by (simp add: histogram_quantile_def bs Let_def less_Suc_eq_le)
qed

lemma update_target_ok:
  assumes "delay_ok dm"
  shows "\<exists>l. update_target_delay dm = Some (dm\<lparr>dm_target_level_ms := l\<rparr>)"
  using quantile_bound [of "dm_histogram dm" "dc_quantile (dm_config dm)"] assms
  by (auto simp: update_target_delay_def delay_ok_def Let_def)

lemma effective_bounds_ok:
  assumes "delay_ok dm" and "dm' = update_effective_delay_bounds (dm\<lparr>dm_minimum_delay_ms := a, dm_maximum_delay_ms := b,
      dm_config := (dm_config dm)\<lparr>dc_base_minimum_delay_ms := c, dc_base_maximum_delay_ms := e\<rparr>\<rparr>)"
  shows "delay_ok dm'"
  using assms by (auto simp: update_effective_delay_bounds_def delay_ok_def config_ok_def Let_def min_def max_def)

lemma config_interval: "delay_ok dm \<Longrightarrow> dc_resample_interval_ms (dm_config dm) = Some interval \<Longrightarrow> interval \<noteq> 0"
  by (auto simp: delay_ok_def config_ok_def)

lemma measure_ok:
  assumes "delay_ok dm"
  shows "\<exists>dm'. (case dc_resample_interval_ms (dm_config dm) of
        Some interval \<Rightarrow> resample now interval d dm | None \<Rightarrow> register_relative_delay d dm) = Some dm' \<and> delay_ok dm'"
  using resample_ok [OF assms] register_delay_ok [OF assms, of d] config_interval [OF assms]
  by (cases "dc_resample_interval_ms (dm_config dm)") auto

lemma delay_manager_update_ok:
  assumes "delay_ok dm" and "sample_rate \<noteq> 0"
  shows "\<exists>dm1 l. delay_manager_update now timestamp sample_rate reset dm = Some (dm1\<lparr>dm_target_level_ms := l\<rparr>) \<and>
    update_target_delay dm1 = Some (dm1\<lparr>dm_target_level_ms := l\<rparr>) \<and> delay_ok dm1"
proof -
  define dm0 where "dm0 = (if reset then delay_manager_reset dm else dm)"
  have ok0: "delay_ok dm0" using assms(1) by (simp add: dm0_def delay_ok_def delay_manager_reset_def tracker_reset_def)
  obtain d tr where tr: "tracker_update now timestamp sample_rate (dm_arrival_delay_tracker dm0) = Some (d, tr)"
      "at_config tr = at_config (dm_arrival_delay_tracker dm0)"
    using tracker_update_total [of "dm_arrival_delay_tracker dm0" sample_rate now timestamp] ok0 assms(2)
    by (auto simp: delay_ok_def config_ok_def)
  have "delay_ok (dm0\<lparr>dm_arrival_delay_tracker := tr\<rparr>)" using ok0 tr(2) by (simp add: delay_ok_def)
  from measure_ok [OF this, where now = now and d = d] obtain dm2 where dm2: "delay_ok dm2"
      "(case dc_resample_interval_ms (dm_config (dm0\<lparr>dm_arrival_delay_tracker := tr\<rparr>)) of
        Some interval \<Rightarrow> resample now interval d (dm0\<lparr>dm_arrival_delay_tracker := tr\<rparr>)
      | None \<Rightarrow> register_relative_delay d (dm0\<lparr>dm_arrival_delay_tracker := tr\<rparr>)) = Some dm2" by blast
  obtain l where l: "update_target_delay dm2 = Some (dm2\<lparr>dm_target_level_ms := l\<rparr>)"
    using update_target_ok [OF dm2(1)] by blast
  have "delay_manager_update now timestamp sample_rate reset dm = Some (dm2\<lparr>dm_target_level_ms := l\<rparr>)"
    unfolding delay_manager_update_def Let_def dm0_def [symmetric] using tr(1) dm2(2) l by simp
  then show ?thesis using l dm2(1) by blast
qed

definition delay_inv :: "delay_manager option \<Rightarrow> bool" where
  "delay_inv s \<longleftrightarrow> (\<exists>dm. s = Some dm \<and> delay_ok dm)"

lemma delay_inv_step:
  assumes "delay_inv s" and "rate_known ev"
  shows "delay_inv (delay_step s ev)"
proof -
  obtain dm where dm: "s = Some dm" "delay_ok dm" using assms(1) by (auto simp: delay_inv_def)
  show ?thesis
  proof (cases ev)
    case (DmPacket now timestamp sample_rate reset)
    then show ?thesis
      using delay_manager_update_ok [OF dm(2), of sample_rate now timestamp reset] assms(2) dm
      by (auto simp: delay_inv_def)
  next
    case DmReset
    then show ?thesis
      using dm by (simp add: delay_inv_def delay_ok_def delay_manager_reset_def tracker_reset_def)
  qed (use dm in \<open>auto simp: delay_inv_def delay_ok_def config_ok_def update_effective_delay_bounds_def
        set_minimum_delay_def set_maximum_delay_def set_base_minimum_delay_def set_base_maximum_delay_def
        Let_def min_def max_def\<close>)
qed

interpretation delays: invariant_system delay_step delay_inv rate_known
  by unfold_locales (rule delay_inv_step)

lemma delay_ok_new:
  "config_ok c \<Longrightarrow> dc_base_minimum_delay_ms c \<le> dc_base_maximum_delay_ms c \<Longrightarrow> delay_ok (delay_manager_new c)"
  using hist_ok_new [of 100 "dc_forget_factor c" "dc_start_forget_weight c"]
  by (simp add: delay_ok_def delay_manager_new_def tracker_new_def config_ok_def K_DELAY_BUCKETS_def histogram_new_def)

lemma sum_take_mono:
  "\<forall>b\<in>set xs. 0 \<le> b \<Longrightarrow> i \<le> j \<Longrightarrow> sum_list (take i xs) \<le> sum_list (take j (xs :: int list))"
proof -
  assume nn: "\<forall>b\<in>set xs. 0 \<le> b" and "i \<le> j"
  then have "take j xs = take i xs @ take (j - i) (drop i xs)" by (metis le_add_diff_inverse take_add)
  moreover have "0 \<le> sum_list (take (j - i) (drop i xs))"
    using nn by (intro sum_list_nonneg) (meson in_set_dropD in_set_takeD)
  ultimately show ?thesis by simp
qed

lemma target_covers:
  assumes ok: "delay_ok dm1" and up: "update_target_delay dm1 = Some (dm1\<lparr>dm_target_level_ms := l\<rparr>)"
    and full: "sum_list (hi_buckets (dm_histogram dm1)) = 2 ^ 30" and below: "l < dm_effective_maximum_delay_ms dm1"
  shows "f64_to_q (dc_quantile (dm_config dm1)) 30 \<le>
    sum_list (take (unat l div 20) (hi_buckets (dm_histogram dm1)))"
proof -
  let ?h = "dm_histogram dm1" and ?q = "dc_quantile (dm_config dm1)"
  define i where "i = (LEAST i. f64_to_q ?q 30 \<le> sum_list (take (Suc i) (hi_buckets ?h)))"
  have q: "histogram_quantile ?q ?h = Some i"
    unfolding i_def by (rule quantile_least(1)) (use ok full in \<open>simp_all add: delay_ok_def config_ok_def\<close>)
  then have i: "i < 100" using quantile_bound [of ?h ?q] ok by (auto simp: delay_ok_def)
  define x where "x = min (max ((1 + of_nat i) * 20) (dm_effective_minimum_delay_ms dm1)) (dm_effective_maximum_delay_ms dm1)"
  have "update_target_delay dm1 = Some (dm1\<lparr>dm_target_level_ms := x\<rparr>)"
    using q by (simp add: update_target_delay_def Let_def K_BUCKET_SIZE_MS_def x_def)
  then have "dm_target_level_ms (dm1\<lparr>dm_target_level_ms := x\<rparr>) = dm_target_level_ms (dm1\<lparr>dm_target_level_ms := l\<rparr>)"
    using up by simp
  then have "l = x" by simp
  then have "(1 + of_nat i) * 20 \<le> l" using below by (auto simp: x_def min_def max_def split: if_splits)
  then have "unat ((1 + of_nat i) * 20 :: u32) \<le> unat l" by (simp add: word_le_nat_alt)
  moreover have "unat ((1 + of_nat i) * 20 :: u32) = (1 + i) * 20"
  proof -
    have "((1 + of_nat i) * 20 :: u32) = of_nat ((1 + i) * 20)" by simp
    then show ?thesis using i by (simp only: unat_of_nat) (simp add: take_bit_eq_mod)
  qed
  ultimately have "Suc i \<le> unat l div 20" by simp
  moreover have "f64_to_q ?q 30 \<le> sum_list (take (Suc i) (hi_buckets ?h))"
    by (rule quantile_reached [OF _ full _ _ q]) (use ok in \<open>simp_all add: delay_ok_def config_ok_def\<close>)
  ultimately show ?thesis using sum_take_mono [of "hi_buckets ?h" "Suc i" "unat l div 20"] ok
    by (auto simp: delay_ok_def hist_ok_def)
qed



theorem quantile_is_least_witness:
  "\<exists>h. hist_add_all (histogram_new 100 (9993 / 10000) (Some 2)) [3, 0, 3] = Some h \<and>
     histogram_quantile (97 / 100) h = Some (LEAST i. f64_to_q (97 / 100) 30 \<le> sum_list (take (Suc i) (hi_buckets h)))"
proof -
  have "hist_ok (histogram_new 100 (9993 / 10000) (Some 2))" by (rule hist_ok_new) simp_all
  from hist_add_all_ok [OF this, of "[3, 0, 3]"] obtain h
    where h: "hist_add_all (histogram_new 100 (9993 / 10000) (Some 2)) [3, 0, 3] = Some h" "hist_ok h"
      "sum_list (hi_buckets h) = 2 ^ 30" by (auto simp: histogram_new_def)
  then show ?thesis using quantile_is_least [OF h(2,3), of "97 / 100"] by auto
qed

text \<open>The comment at \<open>K_START_DELAY_MS\<close> says operation starts with a delay of 80 ms. The histogram starts empty, not with
  the distribution of \<open>reset\<close>, and the target is recomputed from it at every packet: from the first packet
  on and until the first delay is registered half a second later, the target is the last bucket, two seconds.\<close>

lemma quantile_loop_empty: "p < s \<Longrightarrow> quantile_loop p k s (replicate n 0) = k + n"
  by (induction n arbitrary: k) simp_all

lemma first_packet_targets_maximum:
  "map_option target_delay_ms (delay_manager_update now timestamp 48000 False (delay_manager_new delay_config_default)) =
     Some 2000"
proof -
  have q: "f64_to_q (97 / 100) 30 = 1041529569"
    by (simp add: f64_to_q_def rust_round_def)
  have b: "replicate 100 (0 :: int) = 0 # replicate 99 0" by (simp add: numeral_eq_Suc)
  have "histogram_quantile (97 / 100) (histogram_new 100 (9993 / 10000) (Some 2)) = Some 99"
    by (simp add: histogram_quantile_def histogram_new_def b q quantile_loop_empty Let_def)
  then show ?thesis
    by (simp add: delay_manager_update_def delay_manager_new_def delay_config_default_def tracker_update_def tracker_new_def
        update_delay_history_def calculate_relative_packet_arrival_delay_def resample_def update_target_delay_def
        target_delay_ms_def K_DELAY_BUCKETS_def K_BUCKET_SIZE_MS_def K_START_DELAY_MS_def Let_def)
qed

section \<open>The level filter\<close>

text \<open>While the buffer holds a constant number of samples and nothing is stretched, the filtered level moves
  towards it by a fixed share in every frame and never past it, and it is never negative.\<close>

theorem level_filter_converges:
  assumes "0 \<le> bf_level_factor f" and "bf_level_factor f \<le> 254 / 256" and "0 \<le> bf_filtered_level_samples f"
  shows "\<bar>bf_filtered_level_samples ((level_filter_update n 0 ^^ k) f) - real n\<bar> \<le>
      (254 / 256) ^ k * \<bar>bf_filtered_level_samples f - real n\<bar> \<and>
    0 \<le> bf_filtered_level_samples ((level_filter_update n s ^^ k) f)"
proof -
  have step: "\<bar>bf_filtered_level_samples (level_filter_update n 0 g) - real n\<bar> \<le> 254 / 256 * \<bar>bf_filtered_level_samples g - real n\<bar>"
    if g: "0 \<le> bf_level_factor g" "bf_level_factor g \<le> 254 / 256" "0 \<le> bf_filtered_level_samples g" for g
  proof -
    let ?x = "bf_filtered_level_samples g"
    define a where "a = (if (if ?x < 100 then max (real n * (75 / 100)) 3000 else max (?x * 3) 1500) < \<bar>real n - ?x\<bar>
        then 7 / 10 else bf_level_factor g)"
    have a: "0 \<le> a" "a \<le> 254 / 256"
        "bf_filtered_level_samples (level_filter_update n 0 g) = max (a * ?x + (1 - a) * real n) 0"
      using g unfolding level_filter_update_def Let_def a_def [symmetric] by (simp_all add: a_def)
    have "0 \<le> a * ?x + (1 - a) * real n" using a g by (intro add_nonneg_nonneg mult_nonneg_nonneg) simp_all
    then have "bf_filtered_level_samples (level_filter_update n 0 g) - real n = a * (?x - real n)"
      using a(3) by (simp add: algebra_simps)
    then have "\<bar>bf_filtered_level_samples (level_filter_update n 0 g) - real n\<bar> = a * \<bar>?x - real n\<bar>"
      using a(1) by (simp add: abs_mult)
    also have "\<dots> \<le> 254 / 256 * \<bar>?x - real n\<bar>" using a(2) by (intro mult_right_mono) simp_all
    finally show ?thesis .
  qed
  have keep: "bf_level_factor ((level_filter_update n t ^^ k) f) = bf_level_factor f \<and>
      0 \<le> bf_filtered_level_samples ((level_filter_update n t ^^ k) f)" for t
    using assms(3) by (induction k) (simp_all add: level_filter_update_def Let_def)
  have "\<bar>bf_filtered_level_samples ((level_filter_update n 0 ^^ k) f) - real n\<bar> \<le>
      (254 / 256) ^ k * \<bar>bf_filtered_level_samples f - real n\<bar>"
  proof (induction k)
    case (Suc k)
    let ?g = "(level_filter_update n 0 ^^ k) f"
    have "bf_level_factor ?g = bf_level_factor f \<and> 0 \<le> bf_filtered_level_samples ?g"
      using assms(3) by (induction k) (simp_all add: level_filter_update_def Let_def)
    then show ?case using step [of ?g] assms(1,2) Suc by simp
  qed simp
  then show ?thesis using keep by simp
qed

theorem level_filter_converges_witness:
  "\<bar>bf_filtered_level_samples ((level_filter_update 960 0 ^^ 3) (level_filter_new 48000)) - 960\<bar> \<le> (254 / 256) ^ 3 * 960"
  using level_filter_converges [where f = "level_filter_new 48000" and n = 960 and k = 3 and s = 0] by (simp add: level_filter_new_def)

end
