(* ===== verification/Neteq_Statistics.thy ===== *)
theory Neteq_Statistics
  imports Neteq_Delay Packet_Buffer "HOL-Library.Signed_Division" "HOL-Library.Multiset"
begin

text \<open>
  The statistics of \<open>neteq\<close>: \<open>statistics.rs\<close>, with the \<open>Operation\<close> type of \<open>neteq.rs\<close> that it counts.

  \<^item> Counters are words of their width and wrap; rates per second (\<open>f32\<close>) are reals; the signed waiting times
    are integers and their sum wraps at 32 bits.
  \<^item> \<open>record_decode_operation\<close> indexes an array of nine counters with the number of the operation; an index
    out of range panics: the value \<open>None\<close>.
  \<^item> \<open>apply_stats\<close> performs the calls that the packet buffer returns as \<open>stats_event\<close> values.
\<close>

section \<open>Q14 numbers\<close>

definition SCALE :: real where "SCALE = 16384"

definition q14_to_float :: "u16 \<Rightarrow> real" where
  "q14_to_float v = real (unat v) / SCALE"

definition to_per_mille :: "u16 \<Rightarrow> real" where
  "to_per_mille v = real (unat v) / (SCALE / 1000)"

definition q14_from_float :: "real \<Rightarrow> u16" where
  "q14_from_float ratio = of_int \<lfloor>min (max (ratio * SCALE) 0) SCALE\<rfloor>"

definition from_per_mille :: "real \<Rightarrow> u16" where
  "from_per_mille per_mille = q14_from_float (per_mille / 1000)"

section \<open>Operations and counters\<close>

datatype operation =
    OpNormal | OpMerge | OpExpand | OpExpandStart | OpExpandEnd | OpAccelerate | OpFastAccelerate
  | OpPreemptiveExpand | OpTimeStretchBuffer | OpComfortNoise | OpDtmf | OpUndefined

record operation_counters =
  oc_normal_per_sec :: real
  oc_expand_per_sec :: real
  oc_accelerate_per_sec :: real
  oc_fast_accelerate_per_sec :: real
  oc_preemptive_expand_per_sec :: real
  oc_merge_per_sec :: real
  oc_comfort_noise_per_sec :: real
  oc_dtmf_per_sec :: real
  oc_undefined_per_sec :: real

definition operation_counters_default :: operation_counters where
  "operation_counters_default =
     \<lparr>oc_normal_per_sec = 0, oc_expand_per_sec = 0, oc_accelerate_per_sec = 0,
      oc_fast_accelerate_per_sec = 0, oc_preemptive_expand_per_sec = 0, oc_merge_per_sec = 0,
      oc_comfort_noise_per_sec = 0, oc_dtmf_per_sec = 0, oc_undefined_per_sec = 0\<rparr>"

record network_statistics =
  ns_current_buffer_size_ms :: u16
  ns_preferred_buffer_size_ms :: u16
  ns_jitter_peaks_found :: u16
  ns_expand_rate :: u16
  ns_speech_expand_rate :: u16
  ns_preemptive_rate :: u16
  ns_accelerate_rate :: u16
  ns_mean_waiting_time_ms :: int
  ns_median_waiting_time_ms :: int
  ns_min_waiting_time_ms :: int
  ns_max_waiting_time_ms :: int
  ns_reordered_packets :: u32
  ns_total_packets_received :: u32
  ns_reorder_rate_permyriad :: u16
  ns_max_reorder_distance :: u16
  ns_operation_counters :: operation_counters

definition network_statistics_default :: network_statistics where
  "network_statistics_default =
     \<lparr>ns_current_buffer_size_ms = 0, ns_preferred_buffer_size_ms = 0, ns_jitter_peaks_found = 0,
      ns_expand_rate = 0, ns_speech_expand_rate = 0, ns_preemptive_rate = 0, ns_accelerate_rate = 0,
      ns_mean_waiting_time_ms = 0, ns_median_waiting_time_ms = 0, ns_min_waiting_time_ms = 0,
      ns_max_waiting_time_ms = 0, ns_reordered_packets = 0, ns_total_packets_received = 0,
      ns_reorder_rate_permyriad = 0, ns_max_reorder_distance = 0,
      ns_operation_counters = operation_counters_default\<rparr>"

record lifetime_statistics =
  ls_total_samples_received :: u64
  ls_concealed_samples :: u64
  ls_concealment_events :: u64
  ls_jitter_buffer_delay_ms :: u64
  ls_jitter_buffer_emitted_count :: u64
  ls_jitter_buffer_target_delay_ms :: u64
  ls_inserted_samples_for_deceleration :: u64
  ls_removed_samples_for_acceleration :: u64
  ls_silent_concealed_samples :: u64
  ls_relative_packet_arrival_delay_ms :: u64
  ls_jitter_buffer_packets_received :: u64
  ls_buffer_flushes :: u64
  ls_late_packets_discarded :: u64

definition lifetime_statistics_default :: lifetime_statistics where
  "lifetime_statistics_default =
     \<lparr>ls_total_samples_received = 0, ls_concealed_samples = 0, ls_concealment_events = 0,
      ls_jitter_buffer_delay_ms = 0, ls_jitter_buffer_emitted_count = 0,
      ls_jitter_buffer_target_delay_ms = 0, ls_inserted_samples_for_deceleration = 0,
      ls_removed_samples_for_acceleration = 0, ls_silent_concealed_samples = 0,
      ls_relative_packet_arrival_delay_ms = 0, ls_jitter_buffer_packets_received = 0,
      ls_buffer_flushes = 0, ls_late_packets_discarded = 0\<rparr>"

record operation_statistics =
  os_preemptive_samples :: u64
  os_accelerate_samples :: u64
  os_packet_buffer_flushes :: u64
  os_discarded_primary_packets :: u64
  os_last_waiting_time_ms :: u64
  os_current_buffer_size_ms :: u64
  os_current_frame_size_ms :: u64
  os_next_packet_available :: bool

definition operation_statistics_default :: operation_statistics where
  "operation_statistics_default =
     \<lparr>os_preemptive_samples = 0, os_accelerate_samples = 0, os_packet_buffer_flushes = 0,
      os_discarded_primary_packets = 0, os_last_waiting_time_ms = 0, os_current_buffer_size_ms = 0,
      os_current_frame_size_ms = 0, os_next_packet_available = False\<rparr>"

record statistics_calculator =
  sc_network_stats :: network_statistics
  sc_lifetime_stats :: lifetime_statistics
  sc_operation_stats :: operation_statistics
  sc_start_time :: instant
  sc_waiting_times :: "int list"
  sc_total_output_samples :: u64
  sc_total_expanded_samples :: u64
  sc_operation_counts :: "u32 list"
  sc_last_operation_update :: instant
  sc_operation_window_duration :: nat

definition statistics_new :: "instant \<Rightarrow> statistics_calculator" where
  "statistics_new now =
     \<lparr>sc_network_stats = network_statistics_default, sc_lifetime_stats = lifetime_statistics_default,
      sc_operation_stats = operation_statistics_default, sc_start_time = now, sc_waiting_times = [],
      sc_total_output_samples = 0, sc_total_expanded_samples = 0, sc_operation_counts = replicate 9 0,
      sc_last_operation_update = now, sc_operation_window_duration = secs 1\<rparr>"

section \<open>Recording\<close>

abbreviation upd_network :: "(network_statistics \<Rightarrow> network_statistics) \<Rightarrow> statistics_calculator \<Rightarrow> statistics_calculator" where
  "upd_network f sc \<equiv> sc\<lparr>sc_network_stats := f (sc_network_stats sc)\<rparr>"

abbreviation upd_lifetime :: "(lifetime_statistics \<Rightarrow> lifetime_statistics) \<Rightarrow> statistics_calculator \<Rightarrow> statistics_calculator" where
  "upd_lifetime f sc \<equiv> sc\<lparr>sc_lifetime_stats := f (sc_lifetime_stats sc)\<rparr>"

abbreviation upd_operations :: "(operation_statistics \<Rightarrow> operation_statistics) \<Rightarrow> statistics_calculator \<Rightarrow> statistics_calculator" where
  "upd_operations f sc \<equiv> sc\<lparr>sc_operation_stats := f (sc_operation_stats sc)\<rparr>"

definition update_buffer_size :: "u16 \<Rightarrow> u16 \<Rightarrow> statistics_calculator \<Rightarrow> statistics_calculator" where
  "update_buffer_size current_ms preferred_ms sc =
     upd_operations (\<lambda>s. s\<lparr>os_current_buffer_size_ms := ucast current_ms\<rparr>)
       (upd_network (\<lambda>s. s\<lparr>ns_current_buffer_size_ms := current_ms, ns_preferred_buffer_size_ms := preferred_ms\<rparr>) sc)"

definition update_waiting_time_stats :: "statistics_calculator \<Rightarrow> statistics_calculator" where
  "update_waiting_time_stats sc =
     (if sc_waiting_times sc = [] then sc
      else
        let sorted_times = sort (sc_waiting_times sc);
            total = as_i32 (sum_list sorted_times);
            n = length sorted_times
        in upd_operations (\<lambda>s. s\<lparr>os_last_waiting_time_ms := of_int (last (sc_waiting_times sc))\<rparr>)
             (upd_network (\<lambda>s. s\<lparr>ns_min_waiting_time_ms := hd sorted_times,
                ns_max_waiting_time_ms := last sorted_times,
                ns_mean_waiting_time_ms := total sdiv int n,
                ns_median_waiting_time_ms := sorted_times ! (n div 2)\<rparr>) sc))"

definition packet_arrived :: "int \<Rightarrow> statistics_calculator \<Rightarrow> statistics_calculator" where
  "packet_arrived arrival_delay_ms sc =
     (let sc1 = upd_lifetime (\<lambda>s. s\<lparr>ls_jitter_buffer_packets_received := ls_jitter_buffer_packets_received s + 1\<rparr>) sc;
          waiting_times = sc_waiting_times sc1 @ [arrival_delay_ms];
          sc2 = sc1\<lparr>sc_waiting_times :=
            (if length waiting_times > 100 then tl waiting_times else waiting_times)\<rparr>
      in update_waiting_time_stats sc2)"

definition jitter_buffer_delay :: "u64 \<Rightarrow> u64 \<Rightarrow> statistics_calculator \<Rightarrow> statistics_calculator" where
  "jitter_buffer_delay delay_ms emitted_samples =
     upd_lifetime (\<lambda>s. s\<lparr>ls_jitter_buffer_delay_ms := ls_jitter_buffer_delay_ms s + delay_ms,
       ls_jitter_buffer_emitted_count := ls_jitter_buffer_emitted_count s + emitted_samples\<rparr>)"

definition concealment_event :: "u64 \<Rightarrow> bool \<Rightarrow> statistics_calculator \<Rightarrow> statistics_calculator" where
  "concealment_event samples is_silent =
     upd_lifetime (\<lambda>s.
       (let s1 = s\<lparr>ls_concealment_events := ls_concealment_events s + 1,
                   ls_concealed_samples := ls_concealed_samples s + samples\<rparr>
        in if is_silent then s1\<lparr>ls_silent_concealed_samples := ls_silent_concealed_samples s1 + samples\<rparr> else s1))"

datatype stretch_kind = StretchAccelerate | StretchPreemptiveExpand | StretchExpand

definition u64_ratio :: "u64 \<Rightarrow> u64 \<Rightarrow> real" where
  "u64_ratio a b = real (unat a) / real (unat b)"

definition time_stretch_operation :: "stretch_kind \<Rightarrow> u64 \<Rightarrow> statistics_calculator \<Rightarrow> statistics_calculator" where
  "time_stretch_operation op samples sc =
     (let sc0 = sc\<lparr>sc_total_output_samples := sc_total_output_samples sc + samples\<rparr>;
          total = sc_total_output_samples sc0
      in case op of
           StretchAccelerate \<Rightarrow>
             (let sc1 = upd_operations (\<lambda>s. s\<lparr>os_accelerate_samples := os_accelerate_samples s + samples\<rparr>)
                    (upd_lifetime (\<lambda>s. s\<lparr>ls_removed_samples_for_acceleration :=
                       ls_removed_samples_for_acceleration s + samples\<rparr>) sc0)
              in if total > 0
                 then upd_network (\<lambda>s. s\<lparr>ns_accelerate_rate :=
                   q14_from_float (u64_ratio (ls_removed_samples_for_acceleration (sc_lifetime_stats sc1)) total)\<rparr>) sc1
                 else sc1)
         | StretchPreemptiveExpand \<Rightarrow>
             (let sc1 = upd_operations (\<lambda>s. s\<lparr>os_preemptive_samples := os_preemptive_samples s + samples\<rparr>)
                    (upd_lifetime (\<lambda>s. s\<lparr>ls_inserted_samples_for_deceleration :=
                       ls_inserted_samples_for_deceleration s + samples\<rparr>) sc0)
              in if total > 0
                 then upd_network (\<lambda>s. s\<lparr>ns_preemptive_rate :=
                   q14_from_float (u64_ratio (ls_inserted_samples_for_deceleration (sc_lifetime_stats sc1)) total)\<rparr>) sc1
                 else sc1)
         | StretchExpand \<Rightarrow>
             (let sc1 = sc0\<lparr>sc_total_expanded_samples := sc_total_expanded_samples sc0 + samples\<rparr>
              in if total > 0
                 then upd_network (\<lambda>s. s\<lparr>ns_expand_rate :=
                   q14_from_float (u64_ratio (sc_total_expanded_samples sc1) total)\<rparr>) sc1
                 else sc1))"

definition update_operation_rates :: "instant \<Rightarrow> statistics_calculator \<Rightarrow> statistics_calculator" where
  "update_operation_rates now sc =
     (let elapsed_secs = real (now - sc_last_operation_update sc) / 10 ^ 9;
          per_sec = (\<lambda>k. real (unat (sc_operation_counts sc ! k)) / elapsed_secs)
      in if elapsed_secs > 0
         then upd_network (\<lambda>s. s\<lparr>ns_operation_counters :=
                \<lparr>oc_normal_per_sec = per_sec 0, oc_expand_per_sec = per_sec 2,
                 oc_accelerate_per_sec = per_sec 3, oc_fast_accelerate_per_sec = per_sec 4,
                 oc_preemptive_expand_per_sec = per_sec 5, oc_merge_per_sec = per_sec 1,
                 oc_comfort_noise_per_sec = per_sec 6, oc_dtmf_per_sec = per_sec 7,
                 oc_undefined_per_sec = per_sec 8\<rparr>\<rparr>)
                (sc\<lparr>sc_operation_counts := replicate (length (sc_operation_counts sc)) 0,
                    sc_last_operation_update := now\<rparr>)
         else sc)"

fun operation_index :: "operation \<Rightarrow> nat" where
  "operation_index OpNormal = 0"
| "operation_index OpMerge = 1"
| "operation_index OpExpand = 2"
| "operation_index OpExpandStart = 3"
| "operation_index OpExpandEnd = 4"
| "operation_index OpAccelerate = 5"
| "operation_index OpFastAccelerate = 6"
| "operation_index OpPreemptiveExpand = 7"
| "operation_index OpTimeStretchBuffer = 8"
| "operation_index OpComfortNoise = 9"
| "operation_index OpDtmf = 10"
| "operation_index OpUndefined = 11"

definition record_decode_operation :: "instant \<Rightarrow> operation \<Rightarrow> statistics_calculator \<Rightarrow> statistics_calculator option" where
  "record_decode_operation now op sc =
     (let index = operation_index op; counts = sc_operation_counts sc
      in if index < length counts
         then let sc1 = sc\<lparr>sc_operation_counts := counts[index := counts ! index + 1]\<rparr>
              in Some (if now - sc_last_operation_update sc1 \<ge> sc_operation_window_duration sc1
                       then update_operation_rates now sc1 else sc1)
         else None)"

definition buffer_flush :: "statistics_calculator \<Rightarrow> statistics_calculator" where
  "buffer_flush sc =
     upd_operations (\<lambda>s. s\<lparr>os_packet_buffer_flushes := os_packet_buffer_flushes s + 1\<rparr>)
       (upd_lifetime (\<lambda>s. s\<lparr>ls_buffer_flushes := ls_buffer_flushes s + 1\<rparr>) sc)"

definition packet_discarded :: "bool \<Rightarrow> statistics_calculator \<Rightarrow> statistics_calculator" where
  "packet_discarded is_late sc =
     (let sc1 = (if is_late then upd_lifetime (\<lambda>s. s\<lparr>ls_late_packets_discarded := ls_late_packets_discarded s + 1\<rparr>) sc
                 else sc)
      in upd_operations (\<lambda>s. s\<lparr>os_discarded_primary_packets := os_discarded_primary_packets s + 1\<rparr>) sc1)"

definition reorder_rate :: "network_statistics \<Rightarrow> u16" where
  "reorder_rate s =
     (if ns_total_packets_received s = 0 then if ns_reordered_packets s = 0 then 0 else 65535
      else
        let rate = real (unat (ns_reordered_packets s)) / real (unat (ns_total_packets_received s)) * 10000
        in of_int (min \<lfloor>rate\<rfloor> 65535))"

definition packet_reordered :: "u16 \<Rightarrow> statistics_calculator \<Rightarrow> statistics_calculator" where
  "packet_reordered sequence_distance =
     upd_network (\<lambda>s.
       (let s1 = s\<lparr>ns_reordered_packets := ns_reordered_packets s + 1,
                   ns_total_packets_received := ns_total_packets_received s + 1\<rparr>;
            s2 = (if sequence_distance > ns_max_reorder_distance s1
                  then s1\<lparr>ns_max_reorder_distance := sequence_distance\<rparr> else s1)
        in s2\<lparr>ns_reorder_rate_permyriad := reorder_rate s2\<rparr>))"

definition packet_in_order :: "statistics_calculator \<Rightarrow> statistics_calculator" where
  "packet_in_order =
     upd_network (\<lambda>s.
       (let s1 = s\<lparr>ns_total_packets_received := ns_total_packets_received s + 1\<rparr>
        in s1\<lparr>ns_reorder_rate_permyriad := reorder_rate s1\<rparr>))"

definition uptime :: "instant \<Rightarrow> statistics_calculator \<Rightarrow> nat" where
  "uptime now sc = now - sc_start_time sc"

definition statistics_reset :: "instant \<Rightarrow> statistics_calculator \<Rightarrow> statistics_calculator" where
  "statistics_reset now sc = statistics_new now"

fun apply_stats_event :: "stats_event \<Rightarrow> statistics_calculator \<Rightarrow> statistics_calculator" where
  "apply_stats_event BufferFlush = buffer_flush"
| "apply_stats_event (PacketDiscarded is_late) = packet_discarded is_late"
| "apply_stats_event (PacketReordered distance) = packet_reordered distance"
| "apply_stats_event PacketInOrder = packet_in_order"
| "apply_stats_event (PacketArrived delay) = packet_arrived (sint delay)"

definition apply_stats :: "stats_event list \<Rightarrow> statistics_calculator \<Rightarrow> statistics_calculator" where
  "apply_stats evs sc = fold apply_stats_event evs sc"

section \<open>What the numbers mean\<close>

text \<open>
  The Q14 rates lose less than one step. A ratio between zero and one that is stored as a Q14 number and read
  back is never larger and is smaller by less than 1/16384; a Q14 number that stands for such a ratio survives the
  trip exactly, in both scales; and whatever ratio is stored, the number never exceeds 16384.
\<close>
theorem q14_roundtrip:
  "(0 \<le> r \<and> r \<le> 1 \<longrightarrow>
     q14_to_float (q14_from_float r) \<le> r \<and> r < q14_to_float (q14_from_float r) + 1 / SCALE) \<and>
   (v \<le> 16384 \<longrightarrow> q14_from_float (q14_to_float v) = v \<and> from_per_mille (to_per_mille v) = v) \<and>
   q14_from_float x \<le> 16384"
proof (intro conjI impI)
  have value_of: "unat (q14_from_float y) = nat \<lfloor>min (max (y * SCALE) 0) SCALE\<rfloor>" for y
  proof -
    have "0 \<le> \<lfloor>min (max (y * SCALE) 0) SCALE\<rfloor>" "\<lfloor>min (max (y * SCALE) 0) SCALE\<rfloor> \<le> 16384"
      by (simp_all add: SCALE_def le_floor_iff floor_le_iff min_def)
    then show ?thesis by (simp add: q14_from_float_def unat_eq_nat_uint uint_word_of_int)
  qed
  show "q14_from_float x \<le> 16384"
    by (simp add: word_le_nat_alt value_of SCALE_def nat_le_iff floor_le_iff min_def)
  {
    assume "0 \<le> r \<and> r \<le> 1"
    then have clamp: "min (max (r * SCALE) 0) SCALE = r * SCALE" "0 \<le> r * SCALE" by (auto simp: SCALE_def)
    then have "real (unat (q14_from_float r)) = of_int \<lfloor>r * SCALE\<rfloor>" by (simp add: value_of)
    moreover have "of_int \<lfloor>r * SCALE\<rfloor> \<le> r * SCALE" "r * SCALE < of_int \<lfloor>r * SCALE\<rfloor> + 1" by linarith+
    ultimately show "q14_to_float (q14_from_float r) \<le> r" "r < q14_to_float (q14_from_float r) + 1 / SCALE"
      by (simp_all add: q14_to_float_def SCALE_def field_simps)
  }
  assume "v \<le> 16384"
  then have "unat v \<le> 16384" by (simp add: word_le_nat_alt)
  moreover have "unat (q14_from_float (real n / SCALE)) = n" if "n \<le> 16384" for n
    using that by (simp add: value_of SCALE_def)
  ultimately have exact: "q14_from_float (real (unat v) / SCALE) = v" by (metis word_unat_eq_iff)
  then show "q14_from_float (q14_to_float v) = v" by (simp only: q14_to_float_def)
  have "to_per_mille v / 1000 = real (unat v) / SCALE" by (simp add: to_per_mille_def)
  then show "from_per_mille (to_per_mille v) = v" using exact by (simp only: from_per_mille_def)
qed

definition record_all :: "(instant \<times> operation) list \<Rightarrow> statistics_calculator \<Rightarrow> statistics_calculator option" where
  "record_all evs sc = fold (\<lambda>(t, op) s. Option.bind s (record_decode_operation t op)) evs (Some sc)"

lemma record_in_window:
  assumes "\<forall>(t, op)\<in>set evs. operation_index op < 9 \<and> t < sc_last_operation_update sc + sc_operation_window_duration sc"
    and "length (sc_operation_counts sc) = 9" and "0 < sc_operation_window_duration sc"
  shows "record_all evs sc = Some (sc\<lparr>sc_operation_counts :=
    map (\<lambda>k. sc_operation_counts sc ! k + of_nat (count_list (map (operation_index \<circ> snd) evs) k)) [0..<9]\<rparr>)"
  using assms
proof (induction evs rule: rev_induct)
  case Nil
  have "map ((!) (sc_operation_counts sc)) [0..<9] = sc_operation_counts sc"
    by (rule nth_equalityI) (use Nil in simp_all)
  then show ?case by (simp add: record_all_def)
next
  case (snoc e evs)
  obtain t op where e: "e = (t, op)" by fastforce
  let ?c = "map (\<lambda>k. sc_operation_counts sc ! k + of_nat (count_list (map (operation_index \<circ> snd) evs) k)) [0..<9]"
  have op: "operation_index op < 9" "t < sc_last_operation_update sc + sc_operation_window_duration sc"
    using snoc.prems(1) e by auto
  then have late: "\<not> sc_operation_window_duration sc \<le> t - sc_last_operation_update sc" using snoc.prems(3) by linarith
  have "record_all evs sc = Some (sc\<lparr>sc_operation_counts := ?c\<rparr>)" by (rule snoc.IH) (use snoc.prems in auto)
  then have "record_all (evs @ [e]) sc = record_decode_operation t op (sc\<lparr>sc_operation_counts := ?c\<rparr>)"
    by (simp add: record_all_def e)
  also have "\<dots> = Some (sc\<lparr>sc_operation_counts := ?c[operation_index op := ?c ! operation_index op + 1]\<rparr>)"
    using op(1) late by (simp add: record_decode_operation_def Let_def)
  also have "?c[operation_index op := ?c ! operation_index op + 1] =
    map (\<lambda>k. sc_operation_counts sc ! k + of_nat (count_list (map (operation_index \<circ> snd) (evs @ [e])) k)) [0..<9]"
    by (rule nth_equalityI) (use op in \<open>auto simp: nth_list_update e\<close>)
  finally show ?case .
qed

definition operation_tally :: "operation list \<Rightarrow> u32 list" where
  "operation_tally ops = map (\<lambda>k. of_nat (count_list (map operation_index ops) k)) [0..<9]"

lemma length_operation_tally [simp]: "length (operation_tally ops) = 9"
  by (simp add: operation_tally_def)

lemma operation_index_inj: "operation_index a = operation_index b \<longleftrightarrow> a = b"
  by (cases a; cases b) simp_all

lemma operation_tally_snoc:
  "operation_index op < 9 \<Longrightarrow>
   operation_tally (ops @ [op]) = (operation_tally ops)[operation_index op := operation_tally ops ! operation_index op + 1]"
  by (rule nth_equalityI) (auto simp: operation_tally_def nth_list_update)

lemma operation_tally_count:
  assumes "operation_index op < 9" and "length ops < 2 ^ 32"
  shows "unat (operation_tally ops ! operation_index op) = count_list ops op"
proof -
  have "count_list (map operation_index ops) (operation_index op) = count_list ops op"
    by (induction ops) (simp_all add: operation_index_inj)
  moreover have "count_list ops op < 2 ^ 32" using count_le_length [of ops op] assms(2) by linarith
  ultimately show ?thesis using assms(1) by (simp add: operation_tally_def unat_of_nat)
qed

text \<open>
  The rates per second are published under the wrong names. After the operations of one window of a second
  have been recorded, the operation that closes the window publishes the number of each of the first three
  operations per second under its own name. The other names carry the counts of the operations with the same
  index: the number of expansions that started is published as the acceleration rate, the accelerations as the
  rate of preemptive expansion, the preemptive expansions as dialled tones, and so on. Then the counting
  starts again from zero.
\<close>
theorem operation_rates_published:
  assumes "sc_operation_counts sc = replicate 9 0" and "0 < sc_operation_window_duration sc"
    and "\<forall>(t, op)\<in>set evs. operation_index op < 9 \<and> t < sc_last_operation_update sc + sc_operation_window_duration sc"
    and "operation_index op < 9" and "sc_last_operation_update sc + sc_operation_window_duration sc \<le> now"
    and "length evs < 2 ^ 32 - 1"
    and "rate = (\<lambda>op'. real (count_list (map snd evs @ [op]) op') / (real (now - sc_last_operation_update sc) / 10 ^ 9))"
  shows "\<exists>sc'. record_all (evs @ [(now, op)]) sc = Some sc' \<and>
    ns_operation_counters (sc_network_stats sc') =
      \<lparr>oc_normal_per_sec = rate OpNormal, oc_expand_per_sec = rate OpExpand, oc_accelerate_per_sec = rate OpExpandStart,
       oc_fast_accelerate_per_sec = rate OpExpandEnd, oc_preemptive_expand_per_sec = rate OpAccelerate,
       oc_merge_per_sec = rate OpMerge, oc_comfort_noise_per_sec = rate OpFastAccelerate,
       oc_dtmf_per_sec = rate OpPreemptiveExpand, oc_undefined_per_sec = rate OpTimeStretchBuffer\<rparr> \<and>
    sc_operation_counts sc' = replicate 9 0 \<and> sc_last_operation_update sc' = now"
proof -
  let ?ops = "map snd evs @ [op]" and ?dt = "real (now - sc_last_operation_update sc) / 10 ^ 9"
  let ?sc = "sc\<lparr>sc_operation_counts := operation_tally ?ops\<rparr>"
  have "record_all evs sc = Some (sc\<lparr>sc_operation_counts := operation_tally (map snd evs)\<rparr>)"
    using record_in_window [OF assms(3) _ assms(2)] assms(1) by (simp add: operation_tally_def)
  moreover have "sc_operation_window_duration sc \<le> now - sc_last_operation_update sc" using assms(5) by linarith
  ultimately have run: "record_all (evs @ [(now, op)]) sc = Some (update_operation_rates now ?sc)"
    using assms(4) by (simp add: record_all_def record_decode_operation_def operation_tally_snoc Let_def)
  have "real (unat (operation_tally ?ops ! operation_index op')) = real (count_list ?ops op')" if "operation_index op' < 9" for op'
    using operation_tally_count [of op' ?ops] that assms(6) by simp
  note rates = this [of OpNormal] this [of OpMerge] this [of OpExpand] this [of OpExpandStart] this [of OpExpandEnd]
    this [of OpAccelerate] this [of OpFastAccelerate] this [of OpPreemptiveExpand] this [of OpTimeStretchBuffer]
  have "0 < ?dt" using assms(2,5) by simp
  then show ?thesis
    unfolding run update_operation_rates_def Let_def assms(7) using rates by (simp add: operation_tally_def)
qed

theorem operation_rates_published_witness:
  "\<exists>sc'. record_all [(5, OpNormal), (6, OpAccelerate), (2 * 10 ^ 9, OpAccelerate)] (statistics_new 0) = Some sc' \<and>
     oc_accelerate_per_sec (ns_operation_counters (sc_network_stats sc')) = 0 \<and>
     oc_preemptive_expand_per_sec (ns_operation_counters (sc_network_stats sc')) = 1"
  using operation_rates_published [of "statistics_new 0" "[(5, OpNormal), (6, OpAccelerate)]" OpAccelerate "2 * 10 ^ 9", OF _ _ _ _ _ _ refl]
  by (auto simp: statistics_new_def)

section \<open>Waiting times\<close>

definition recent :: "'a list \<Rightarrow> 'a list" where
  "recent xs = drop (length xs - 100) xs"

lemma length_recent: "length (recent xs) = min (length xs) 100"
  by (simp add: recent_def)

lemma recent_snoc: "recent (xs @ [x]) = (if length (recent xs) \<ge> 100 then tl (recent xs) @ [x] else recent xs @ [x])"
proof -
  have "tl (drop (length xs - 100) xs) = drop (Suc (length xs) - 100) xs" if "100 \<le> length xs"
  proof -
    have "Suc (length xs) - 100 = Suc (length xs - 100)" using that by simp
    then show ?thesis by (simp only: drop_Suc tl_drop)
  qed
  then show ?thesis by (auto simp: recent_def)
qed

lemma waiting_times_stats:
  "sc_waiting_times (update_waiting_time_stats sc) = sc_waiting_times sc"
  "sc_lifetime_stats (update_waiting_time_stats sc) = sc_lifetime_stats sc"
  by (simp_all add: update_waiting_time_stats_def Let_def)

lemma arrivals_kept:
  "sc_waiting_times (fold packet_arrived ds (statistics_new t)) = recent ds \<and>
   ls_jitter_buffer_packets_received (sc_lifetime_stats (fold packet_arrived ds (statistics_new t))) = of_nat (length ds)"
proof (induction ds rule: rev_induct)
  case Nil
  then show ?case by (simp add: statistics_new_def recent_def lifetime_statistics_default_def)
next
  case (snoc d ds)
  then show ?case
    by (cases "recent ds") (auto simp: packet_arrived_def waiting_times_stats Let_def recent_snoc length_recent)
qed

lemma sorted_ends:
  assumes "sorted xs" and "xs \<noteq> []"
  shows "Min (set xs) = hd xs" and "Max (set xs) = (last xs :: int)"
proof -
  obtain y ys where ys: "xs = y # ys" using assms(2) by (cases xs) auto
  show "Min (set xs) = hd xs" by (rule Min_eqI) (use assms(1) ys in auto)
  have "z \<le> last xs" if "z \<in> set xs" for z
    using assms(1) that by (induction xs) (auto split: if_splits)
  then show "Max (set xs) = last xs" using assms(2) by (intro Max_eqI) simp_all
qed

lemma sort_ends:
  assumes "xs \<noteq> []"
  shows "hd (sort xs) = Min (set xs)" and "last (sort xs) = Max (set (xs :: int list))"
proof -
  have "sort xs \<noteq> []" using assms by (metis length_sort length_0_conv)
  then show "hd (sort xs) = Min (set xs)" "last (sort xs) = Max (set xs)"
    using sorted_ends [of "sort xs"] by simp_all
qed

lemma sum_list_abs_le: "\<forall>d\<in>set ds. \<bar>d\<bar> \<le> c \<Longrightarrow> \<bar>sum_list ds\<bar> \<le> int (length ds) * (c :: int)"
  by (induction ds) (auto simp: algebra_simps)

lemma waiting_summary:
  assumes "sc_waiting_times sc = w" and "w \<noteq> []"
  shows "sc_network_stats (update_waiting_time_stats sc) = (sc_network_stats sc)
     \<lparr>ns_min_waiting_time_ms := Min (set w), ns_max_waiting_time_ms := Max (set w),
      ns_mean_waiting_time_ms := as_i32 (sum_list w) sdiv int (length w),
      ns_median_waiting_time_ms := sort w ! (length w div 2)\<rparr>"
    and "os_last_waiting_time_ms (sc_operation_stats (update_waiting_time_stats sc)) = of_int (last w)"
proof -
  have "sum_list (sort w) = sum_list w" by (metis mset_sort sum_mset_sum_list)
  then show "sc_network_stats (update_waiting_time_stats sc) = (sc_network_stats sc)
     \<lparr>ns_min_waiting_time_ms := Min (set w), ns_max_waiting_time_ms := Max (set w),
      ns_mean_waiting_time_ms := as_i32 (sum_list w) sdiv int (length w),
      ns_median_waiting_time_ms := sort w ! (length w div 2)\<rparr>"
    using assms by (simp add: update_waiting_time_stats_def Let_def sort_ends)
  show "os_last_waiting_time_ms (sc_operation_stats (update_waiting_time_stats sc)) = of_int (last w)"
    using assms by (simp add: update_waiting_time_stats_def Let_def)
qed

text \<open>
  The waiting times that are published describe the last hundred arrivals. After any number of arrivals whose
  delays stay below a quarter of an hour the published minimum, maximum and median are those of the most recent
  hundred delays, the mean is their average cut to whole milliseconds, and the number of arrivals is counted.
\<close>
theorem waiting_times_summary:
  assumes "ds \<noteq> []" and "\<forall>d\<in>set ds. \<bar>d\<bar> \<le> 900000"
    and "w = drop (length ds - 100) ds" and "sc = fold packet_arrived ds (statistics_new t)"
  shows "ns_min_waiting_time_ms (sc_network_stats sc) = Min (set w) \<and>
    ns_max_waiting_time_ms (sc_network_stats sc) = Max (set w) \<and>
    ns_median_waiting_time_ms (sc_network_stats sc) = sort w ! (length w div 2) \<and>
    ns_mean_waiting_time_ms (sc_network_stats sc) = sum_list w sdiv int (length w) \<and>
    os_last_waiting_time_ms (sc_operation_stats sc) = of_int (last ds) \<and>
    ls_jitter_buffer_packets_received (sc_lifetime_stats sc) = of_nat (length ds)"
proof -
  obtain xs d where ds: "ds = xs @ [d]" using assms(1) rev_exhaust by blast
  have w: "w = recent ds" using assms(3) by (simp add: recent_def)
  have lw: "length w = min (length ds) 100" using w by (simp add: length_recent)
  then have ne: "w \<noteq> []" using assms(1) by (cases ds) auto
  then have lst: "last w = last ds" using assms(3) by (cases "length ds - 100 < length ds") (auto simp: last_drop)
  have "\<bar>sum_list w\<bar> \<le> int (length w) * 900000"
    by (rule sum_list_abs_le) (use assms(2,3) in \<open>auto dest: in_set_dropD\<close>)
  also have "\<dots> \<le> 90000000" using lw by simp
  finally have "as_i32 (sum_list w) = sum_list w" by (intro as_i32_id) auto
  moreover obtain sc0 where "sc = update_waiting_time_stats sc0"
    using ds by (simp add: assms(4) packet_arrived_def Let_def)
  moreover have "sc_waiting_times sc0 = w" using arrivals_kept [of ds t] calculation(2) w assms(4) by (simp add: waiting_times_stats)
  ultimately show ?thesis
    using waiting_summary [of sc0 w] ne lst arrivals_kept [of ds t] assms(4) by simp
qed

theorem waiting_times_summary_witness:
  "ns_mean_waiting_time_ms (sc_network_stats (fold packet_arrived [10, 20, 30, 15, 25] (statistics_new 0))) = 20"
  using waiting_times_summary [of "[10, 20, 30, 15, 25]" "[10, 20, 30, 15, 25]" _ 0, OF _ _ _ refl]
  by (simp add: signed_divide_int_def)

theorem q14_roundtrip_witness:
  "q14_to_float (q14_from_float (1 / 3)) \<le> 1 / 3 \<and> q14_from_float (q14_to_float 4096) = 4096"
  using q14_roundtrip [of "1 / 3" 4096 0] by simp

end
