(* ===== verification/Neteq_Stretch.thy ===== *)
theory Neteq_Stretch
  imports Complex_Main VC_Prelude "HOL-Library.Monad_Syntax"
begin

text \<open>
  The sample operations of \<open>neteq\<close>: cross-fading and correlation (\<open>signal.rs\<close>), removing and repeating samples
  to play faster or slower (\<open>time_stretch.rs\<close>), and concealment noise (\<open>expand.rs\<close>).

  \<^item> Samples (\<open>f32\<close>) are reals. A slice out of range, a copy between slices of different lengths and an
    underflow of an index panic: the value \<open>None\<close>.
  \<^item> The output buffer is an argument and part of the result, since some branches write only part of it.
\<close>

section \<open>Slices\<close>

definition subslice :: "nat \<Rightarrow> nat \<Rightarrow> 'a list \<Rightarrow> 'a list option" where
  "subslice a b xs = (if a \<le> b \<and> b \<le> length xs then Some (take (b - a) (drop a xs)) else None)"

text \<open>\<open>out[a..a + src.len()].copy_from_slice(src)\<close>.\<close>

definition write_at :: "nat \<Rightarrow> 'a list \<Rightarrow> 'a list \<Rightarrow> 'a list option" where
  "write_at a src out =
     (if a + length src \<le> length out then Some (take a out @ src @ drop (a + length src) out) else None)"

lemma subslice_some [simp]: "a \<le> b \<Longrightarrow> b \<le> length xs \<Longrightarrow> subslice a b xs = Some (take (b - a) (drop a xs))"
  by (simp add: subslice_def)

lemma write_at_some [simp]:
  "a + length src \<le> length out \<Longrightarrow> write_at a src out = Some (take a out @ src @ drop (a + length src) out)"
  by (simp add: write_at_def)

section \<open>Signals\<close>

definition fade :: "real list \<Rightarrow> real list \<Rightarrow> nat \<Rightarrow> nat \<Rightarrow> real list" where
  "fade prev next_samples fade_start fade_len =
     map (\<lambda>i. let fade_out = 1 - real i / real fade_len; fade_in = 1 - fade_out
              in prev ! (fade_start + i) * fade_out + next_samples ! i * fade_in) [0..<fade_len]"

definition crossfade :: "real list \<Rightarrow> real list \<Rightarrow> nat \<Rightarrow> real list \<Rightarrow> real list option" where
  "crossfade prev next_samples fade_len out =
     (if length prev < fade_len \<or> length next_samples < fade_len \<or> length out < length prev then None
      else let fade_start = length prev - fade_len
           in Some (take fade_start prev @ fade prev next_samples fade_start fade_len @ drop (length prev) out))"

function correlation_loop ::
  "real list \<Rightarrow> real list \<Rightarrow> nat \<Rightarrow> nat \<Rightarrow> real \<Rightarrow> real \<Rightarrow> nat \<Rightarrow> real \<Rightarrow> (nat \<times> real) option" where
  "correlation_loop a b len i corr energy best_pos best_corr =
     (if length a \<le> i then Some (best_pos, best_corr)
      else if length b \<le> i then None
      else
        let x = a ! i; y = b ! i;
            corr1 = corr + x * y;
            energy1 = energy + max (x * x) (y * y)
        in if len \<le> i + 1
           then
             let normalized_corr = (if energy1 = 0 then 1 else corr1 / energy1);
                 i_start = i + 1 - len
             in if 1 \<le> normalized_corr then Some (i_start, 1)
                else if length a \<le> i_start then None
                else
                  let (best_pos1, best_corr1) =
                        (if best_corr < normalized_corr then (i_start, normalized_corr) else (best_pos, best_corr));
                      old_x = a ! i_start; old_y = b ! i_start
                  in correlation_loop a b len (Suc i) (corr1 - old_x * old_y)
                       (energy1 - max (old_x * old_x) (old_y * old_y)) best_pos1 best_corr1
           else correlation_loop a b len (Suc i) corr1 energy1 best_pos best_corr)"
  by pat_completeness auto
termination by (relation "measure (\<lambda>(a, b, len, i, c, e, p, q). length a - i)") auto

declare correlation_loop.simps [simp del]

definition best_normalized_correlation :: "real list \<Rightarrow> real list \<Rightarrow> nat \<Rightarrow> (nat \<times> real) option" where
  "best_normalized_correlation a b len = correlation_loop a b len 0 0 0 0 (- 1)"

definition calculate_energy :: "real list \<Rightarrow> real" where
  "calculate_energy samples = sum_list (map (\<lambda>x. x * x) samples) / real (length samples)"

section \<open>Removing samples\<close>

definition ENERGY_THRESHOLD_DECREASE_FACTOR :: real where "ENERGY_THRESHOLD_DECREASE_FACTOR = 995 / 1000"
definition ENERGY_THRESHOLD_INCREASE_FACTOR :: real where "ENERGY_THRESHOLD_INCREASE_FACTOR = 1002 / 1000"

datatype time_stretch_result = StretchSuccess | SuccessLowEnergy | NoStretch | StretchError

record accelerate =
  ac_sample_rate :: u32
  ac_channels :: u8
  ac_used_input_samples :: nat
  ac_overlap_length :: nat
  ac_max_change_rate :: real
  ac_low_energy_threshold :: real

definition calculate_overlap_length :: "u32 \<Rightarrow> nat" where
  "calculate_overlap_length sample_rate = max (nat \<lfloor>real (unat sample_rate) * (3 / 1000)\<rfloor>) 32"

definition accelerate_new :: "u32 \<Rightarrow> u8 \<Rightarrow> accelerate" where
  "accelerate_new sample_rate channels =
     \<lparr>ac_sample_rate = sample_rate, ac_channels = channels, ac_used_input_samples = 0,
      ac_overlap_length = calculate_overlap_length sample_rate, ac_max_change_rate = 1 / 4,
      ac_low_energy_threshold = 1 / 10000\<rparr>"

definition max_samples_to_remove :: "nat \<Rightarrow> nat \<Rightarrow> real \<Rightarrow> accelerate \<Rightarrow> nat" where
  "max_samples_to_remove input_len output_len acceleration_factor ac =
     (let max_remove = nat \<lfloor>real output_len * acceleration_factor\<rfloor>;
          max_remove = min max_remove (output_len div 2);
          max_remove = min max_remove (input_len - output_len)
      in max max_remove (ac_overlap_length ac))"

text \<open>Prefix sums of the deviation of the energy from the threshold, with the leading zero.\<close>

fun deviation_sums :: "real \<Rightarrow> real \<Rightarrow> real list \<Rightarrow> real list" where
  "deviation_sums threshold acc [] = [acc]"
| "deviation_sums threshold acc (x # xs) = acc # deviation_sums threshold (acc + x * x - threshold) xs"

text \<open>The stack of increasing peaks, last element on top.\<close>

definition push_peak :: "real list \<Rightarrow> nat list \<Rightarrow> nat \<Rightarrow> nat list" where
  "push_peak ps stack i = (if stack = [] \<or> ps ! last stack < ps ! i then stack @ [i] else stack)"

definition peak_stack :: "real list \<Rightarrow> nat list" where
  "peak_stack ps = foldl (push_peak ps) [] [0..<length ps]"

type_synonym region_search = "nat list \<times> nat \<times> nat"

fun scan_stack :: "real list \<Rightarrow> (nat \<Rightarrow> nat \<Rightarrow> bool) \<Rightarrow> nat \<Rightarrow> nat \<Rightarrow> region_search \<Rightarrow> region_search" where
  "scan_stack ps valid j 0 (stack, max_len, best_i) = (stack, max_len, best_i)"
| "scan_stack ps valid j (Suc si) (stack, max_len, best_i) =
     (let i = stack ! si
      in if ps ! j \<le> ps ! i
         then (if max_len < j - i \<and> valid i (j - i)
               then scan_stack ps valid j si (take si stack, j - i, i)
               else scan_stack ps valid j si (stack, max_len, best_i))
         else (stack, max_len, best_i))"

fun scan_ends :: "real list \<Rightarrow> (nat \<Rightarrow> nat \<Rightarrow> bool) \<Rightarrow> nat list \<Rightarrow> region_search \<Rightarrow> nat \<times> nat" where
  "scan_ends ps valid [] (stack, max_len, best_i) = (best_i, max_len)"
| "scan_ends ps valid (j # js) (stack, max_len, best_i) =
     (let stack1 = rev (dropWhile (\<lambda>i. j \<le> i) (rev stack))
      in if stack1 = [] then (best_i, max_len)
         else scan_ends ps valid js (scan_stack ps valid j (length stack1) (stack1, max_len, best_i)))"

definition longest_low_energy_region ::
  "real list \<Rightarrow> real \<Rightarrow> (nat \<Rightarrow> nat \<Rightarrow> bool) \<Rightarrow> nat \<times> nat" where
  "longest_low_energy_region input threshold validate_candidate =
     (let ps = deviation_sums threshold 0 input
      in scan_ends ps validate_candidate (rev [0..<length ps]) (peak_stack ps, 0, 0))"

definition valid_removal :: "nat \<Rightarrow> nat \<Rightarrow> nat \<Rightarrow> nat \<Rightarrow> nat \<Rightarrow> bool" where
  "valid_removal overlap_length max_remove output_len i len \<longleftrightarrow> i + min (len - overlap_length) max_remove \<le> output_len"

definition find_low_energy_to_remove ::
  "real list \<Rightarrow> nat \<Rightarrow> nat \<Rightarrow> accelerate \<Rightarrow> ((nat \<times> nat) \<times> accelerate) option" where
  "find_low_energy_to_remove input output_len max_remove ac =
     (case subslice 0 (output_len + max_remove) input of
        None \<Rightarrow> None
      | Some usable_input \<Rightarrow>
          let (best_pos, best_len) = longest_low_energy_region usable_input (ac_low_energy_threshold ac)
                (valid_removal (ac_overlap_length ac) max_remove output_len);
              ac1 = (if max_remove < best_len
                     then ac\<lparr>ac_low_energy_threshold := ac_low_energy_threshold ac * ENERGY_THRESHOLD_DECREASE_FACTOR\<rparr>
                     else if best_len < max_remove div 2
                     then ac\<lparr>ac_low_energy_threshold := ac_low_energy_threshold ac * ENERGY_THRESHOLD_INCREASE_FACTOR\<rparr>
                     else ac);
              samples_to_remove = min (best_len - ac_overlap_length ac) max_remove
          in Some (if samples_to_remove < ac_overlap_length ac then (0, 0) else (best_pos, samples_to_remove), ac1))"

function removal_loop ::
  "real list \<Rightarrow> nat \<Rightarrow> nat \<Rightarrow> nat \<Rightarrow> nat \<Rightarrow> nat \<Rightarrow> real option \<Rightarrow> nat option" where
  "removal_loop input removal_length search_end step pos best_position lowest_energy =
     (if search_end \<le> pos then Some best_position
      else if step = 0 then None
      else
        (case subslice pos (min (pos + removal_length) (length input)) input of
           None \<Rightarrow> None
         | Some region \<Rightarrow>
             let region_energy = calculate_energy region;
                 better = (case lowest_energy of None \<Rightarrow> True | Some e \<Rightarrow> region_energy < e)
             in removal_loop input removal_length search_end step (pos + step)
                  (if better then pos else best_position) (if better then Some region_energy else lowest_energy)))"
  by pat_completeness auto
termination
  by (relation "measure (\<lambda>(input, len, e, step, pos, best, low). e - pos)") auto

declare removal_loop.simps [simp del]

text \<open>\<open>None\<close> for the lowest energy is \<open>f32::MAX\<close>, which every energy of finite samples is below.\<close>

definition find_best_removal_point :: "real list \<Rightarrow> nat \<Rightarrow> accelerate \<Rightarrow> nat option" where
  "find_best_removal_point input removal_length ac =
     removal_loop input removal_length (length input - (removal_length + ac_overlap_length ac))
       (ac_overlap_length ac div 2) (ac_overlap_length ac) (length input div 3) None"

text \<open>The end of \<open>accelerate_internal\<close>: cut the samples out and fade over the cut.\<close>

definition remove_samples ::
  "real list \<Rightarrow> real list \<Rightarrow> nat \<Rightarrow> nat \<Rightarrow> nat \<Rightarrow> real list option" where
  "remove_samples usable_input out best_pos samples_to_remove overlap =
     do {
       part1 \<leftarrow> subslice 0 best_pos usable_input;
       out1 \<leftarrow> write_at 0 part1 out;
       before \<leftarrow> subslice best_pos (best_pos + overlap) usable_input;
       behind \<leftarrow> subslice (best_pos + samples_to_remove) (best_pos + samples_to_remove + overlap) usable_input;
       window \<leftarrow> subslice best_pos (best_pos + overlap) out1;
       faded \<leftarrow> crossfade before behind overlap window;
       out2 \<leftarrow> write_at best_pos faded out1;
       part2 \<leftarrow> subslice (best_pos + samples_to_remove + overlap) (length usable_input) usable_input;
       if length part2 = length out - (best_pos + overlap) then write_at (best_pos + overlap) part2 out2 else None
     }"

definition accelerate_internal ::
  "real list \<Rightarrow> real list \<Rightarrow> bool \<Rightarrow> accelerate \<Rightarrow> (time_stretch_result \<times> real list \<times> accelerate) option" where
  "accelerate_internal input out fast_mode ac =
     (let n = length out; overlap = ac_overlap_length ac
      in if length input \<le> n
         then Some (NoStretch, input @ drop (length input) out, ac\<lparr>ac_used_input_samples := length input\<rparr>)
         else if n < overlap * 2
         then Some (NoStretch, take n input, ac\<lparr>ac_used_input_samples := n\<rparr>)
         else
           let max_remove_low_energy = max_samples_to_remove (length input) n (if fast_mode then 2 / 5 else 1 / 5) ac;
               max_remove_high_energy =
                 (if fast_mode then max_samples_to_remove (length input) n (1 / 4) ac else 0)
           in case find_low_energy_to_remove input n max_remove_low_energy ac of
                None \<Rightarrow> None
              | Some ((best_pos, samples_to_remove), ac1) \<Rightarrow>
                  if \<not> fast_mode \<and> samples_to_remove = 0
                  then Some (NoStretch, take n input, ac1\<lparr>ac_used_input_samples := n\<rparr>)
                  else
                    let forced = fast_mode \<and> samples_to_remove < max_remove_high_energy;
                        removed = (if forced then max_remove_high_energy else samples_to_remove)
                    in do {
                         usable_input \<leftarrow> subslice 0 (n + removed) input;
                         pos \<leftarrow> (if forced then find_best_removal_point usable_input removed ac1 else Some best_pos);
                         out' \<leftarrow> remove_samples usable_input out pos removed overlap;
                         Some (if forced then StretchSuccess else SuccessLowEnergy, out',
                               ac1\<lparr>ac_used_input_samples := length usable_input\<rparr>)
                       })"

definition accelerate_reset :: "accelerate \<Rightarrow> accelerate" where
  "accelerate_reset ac = ac\<lparr>ac_used_input_samples := 0\<rparr>"

section \<open>Repeating samples\<close>

record preemptive_expand =
  px_sample_rate :: u32
  px_channels :: u8
  px_used_input_samples :: nat
  px_overlap_length :: nat
  px_corr_threshold :: real

definition preemptive_expand_new :: "u32 \<Rightarrow> u8 \<Rightarrow> preemptive_expand" where
  "preemptive_expand_new sample_rate channels =
     \<lparr>px_sample_rate = sample_rate, px_channels = channels, px_used_input_samples = 0,
      px_overlap_length = calculate_overlap_length sample_rate, px_corr_threshold = 99 / 100\<rparr>"

text \<open>The search for the best repetition: correlation, position and length of the repeated part.\<close>

fun repetition_loop ::
  "real list \<Rightarrow> nat \<Rightarrow> nat \<Rightarrow> nat list \<Rightarrow> real \<times> nat \<times> nat \<Rightarrow> (real \<times> nat \<times> nat) option" where
  "repetition_loop input output_len overlap [] best = Some best"
| "repetition_loop input output_len overlap (add_len # rest) (best_corr, best_pos, best_add_len) =
     do {
       correlation_len \<leftarrow> (if add_len * 2 \<le> output_len then Some (output_len - add_len * 2) else None);
       a \<leftarrow> subslice add_len (correlation_len + add_len) input;
       b \<leftarrow> subslice 0 correlation_len input;
       (pos, corr) \<leftarrow> best_normalized_correlation a b overlap;
       repetition_loop input output_len overlap rest
         (if best_corr < corr then (corr, pos, add_len) else (best_corr, best_pos, best_add_len))
     }"

definition repeat_samples ::
  "real list \<Rightarrow> real list \<Rightarrow> nat \<Rightarrow> nat \<Rightarrow> nat \<Rightarrow> real list option" where
  "repeat_samples usable_input out best_pos best_add_len overlap =
     do {
       part1 \<leftarrow> subslice 0 (best_add_len + best_pos) usable_input;
       out1 \<leftarrow> write_at 0 part1 out;
       before \<leftarrow> subslice (best_add_len + best_pos) (best_add_len + best_pos + overlap) usable_input;
       behind \<leftarrow> subslice best_pos (best_pos + overlap) usable_input;
       window \<leftarrow> subslice (best_add_len + best_pos) (best_add_len + best_pos + overlap) out1;
       faded \<leftarrow> crossfade before behind overlap window;
       out2 \<leftarrow> write_at (best_add_len + best_pos) faded out1;
       part2 \<leftarrow> subslice (best_pos + overlap) (length usable_input) usable_input;
       if length part2 = length out - (best_add_len + best_pos + overlap)
       then write_at (best_add_len + best_pos + overlap) part2 out2 else None
     }"

definition expand_internal ::
  "real list \<Rightarrow> real list \<Rightarrow> preemptive_expand \<Rightarrow> (time_stretch_result \<times> real list \<times> preemptive_expand) option" where
  "expand_internal input out px =
     (let n = length out; overlap = px_overlap_length px
      in if length input < n
         then Some (NoStretch, input @ drop (length input) out, px\<lparr>px_used_input_samples := length input\<rparr>)
         else if n < overlap then None
         else
           let is_low_energy = (calculate_energy input < 1 / 100);
               max_add = (n - overlap) div 2
           in if max_add < overlap
              then Some (NoStretch, take n input, px\<lparr>px_used_input_samples := n\<rparr>)
              else
                (case repetition_loop input n overlap [overlap..<max_add] (- 1, 0, 0) of
                   None \<Rightarrow> None
                 | Some (best_corr, best_pos, best_add_len) \<Rightarrow>
                     if best_corr < px_corr_threshold px
                     then Some (NoStretch, take n input,
                                px\<lparr>px_corr_threshold := px_corr_threshold px * (98 / 100), px_used_input_samples := n\<rparr>)
                     else do {
                       usable_input \<leftarrow> subslice 0 (n - best_add_len) input;
                       out' \<leftarrow> repeat_samples usable_input out best_pos best_add_len overlap;
                       Some (if is_low_energy then SuccessLowEnergy else StretchSuccess, out',
                             px\<lparr>px_corr_threshold := max (px_corr_threshold px) (best_corr * (95 / 100)),
                                px_used_input_samples := length usable_input\<rparr>)
                     }))"

definition preemptive_expand_reset :: "preemptive_expand \<Rightarrow> preemptive_expand" where
  "preemptive_expand_reset px = px\<lparr>px_used_input_samples := 0\<rparr>"

section \<open>Concealment\<close>

datatype expand_phase = PhaseExpand | PhaseExpandStart | PhaseExpandEnd

datatype expand_result = ExpandSuccess | NoExpand

record expand =
  ex_used_input_samples :: nat
  ex_overlap_length :: nat
  ex_rng_state :: u64

definition expand_new :: "u32 \<Rightarrow> expand" where
  "expand_new sample_rate =
     \<lparr>ex_used_input_samples = 0, ex_overlap_length = calculate_overlap_length sample_rate, ex_rng_state = 1\<rparr>"

definition samples_required :: "expand_phase \<Rightarrow> expand \<Rightarrow> nat" where
  "samples_required phase ex = (if phase = PhaseExpand then 0 else ex_overlap_length ex)"

definition xorshift :: "u64 \<Rightarrow> u64" where
  "xorshift x =
     (let x1 = Bit_Operations.xor x (push_bit 13 x);
          x2 = Bit_Operations.xor x1 (drop_bit 7 x1)
      in Bit_Operations.xor x2 (push_bit 17 x2))"

definition simple_random :: "u64 \<Rightarrow> real \<times> u64" where
  "simple_random state =
     (let x = xorshift state
      in (real (unat (drop_bit 16 (ucast x :: u32))) / 65536, x))"

fun noise :: "nat \<Rightarrow> u64 \<Rightarrow> real list \<times> u64" where
  "noise 0 state = ([], state)"
| "noise (Suc n) state =
     (let (r, state1) = simple_random state; (rest, state2) = noise n state1
      in ((r - 1 / 2) * (1 / 10000) # rest, state2))"

definition expand_process ::
  "real list \<Rightarrow> real list \<Rightarrow> expand_phase \<Rightarrow> expand \<Rightarrow> (expand_result \<times> real list \<times> expand) option" where
  "expand_process input out phase ex =
     (let required = samples_required phase ex; overlap = ex_overlap_length ex
      in if length input < required \<or> length out < required
         then let samples = min (length input) (length out)
              in Some (NoExpand, take samples input @ drop samples out, ex\<lparr>ex_used_input_samples := samples\<rparr>)
         else
           let (noise_samples, state) = noise (length out) (ex_rng_state ex);
               ex1 = ex\<lparr>ex_rng_state := state, ex_used_input_samples := required\<rparr>
           in case phase of
                PhaseExpandStart \<Rightarrow>
                  do {
                    before \<leftarrow> subslice 0 overlap input;
                    window \<leftarrow> subslice 0 overlap noise_samples;
                    faded \<leftarrow> crossfade before window overlap window;
                    out' \<leftarrow> write_at 0 faded noise_samples;
                    Some (ExpandSuccess, out', ex1)
                  }
              | PhaseExpandEnd \<Rightarrow>
                  do {
                    behind \<leftarrow> subslice 0 overlap input;
                    window \<leftarrow> subslice (length noise_samples - overlap) (length noise_samples) noise_samples;
                    faded \<leftarrow> crossfade window behind overlap window;
                    out' \<leftarrow> write_at (length noise_samples - overlap) faded noise_samples;
                    Some (ExpandSuccess, out', ex1)
                  }
              | PhaseExpand \<Rightarrow> Some (ExpandSuccess, noise_samples, ex1))"

section \<open>The longest region of low energy\<close>

lemma deviation_sums_nth:
  "k \<le> length xs \<Longrightarrow> deviation_sums t acc xs ! k = acc + sum_list (map (\<lambda>x. x * x - t) (take k xs))"
  by (induction xs arbitrary: acc k) (auto simp: nth_Cons' take_Cons')

lemma length_deviation_sums [simp]: "length (deviation_sums t acc xs) = Suc (length xs)"
  by (induction xs arbitrary: acc) simp_all

text \<open>Indices on the stack increase, and so do the sums at them; every index has one on the stack that is not later
  and not lower.\<close>

definition peaks :: "real list \<Rightarrow> nat \<Rightarrow> nat list \<Rightarrow> bool" where
  "peaks ps n st \<longleftrightarrow> sorted_wrt (<) st \<and> sorted_wrt (\<lambda>i j. ps ! i < ps ! j) st \<and> (\<forall>s\<in>set st. s < n) \<and>
     (\<forall>i<n. \<exists>s\<in>set st. s \<le> i \<and> ps ! i \<le> ps ! s)"

lemma peaks_push: "peaks ps n st \<Longrightarrow> peaks ps (Suc n) (push_peak ps st n)"
proof -
  assume p: "peaks ps n st"
  show ?thesis
  proof (cases "st = [] \<or> ps ! last st < ps ! n")
    case True
    have "ps ! s < ps ! n" if "s \<in> set st" for s
    proof -
      have "st \<noteq> []" using that by auto
      then have l: "ps ! last st < ps ! n" using True by simp
      have "s = last st \<or> ps ! s < ps ! last st"
      proof -
        obtain ys where ys: "st = ys @ [last st]" using \<open>st \<noteq> []\<close> by (metis append_butlast_last_id)
        have "sorted_wrt (\<lambda>i j. ps ! i < ps ! j) (ys @ [last st])" using p ys by (simp add: peaks_def)
        moreover have "s \<in> set ys \<or> s = last st" using that ys by (metis Un_iff set_append set_ConsD empty_iff list.set(1))
        ultimately show ?thesis by (auto simp: sorted_wrt_append)
      qed
      then show ?thesis using l by auto
    qed
    then show ?thesis
      using p True by (auto simp: peaks_def push_peak_def sorted_wrt_append less_Suc_eq)
  next
    case False
    then have "last st \<in> set st" "ps ! n \<le> ps ! last st" by auto
    moreover have "last st \<le> n" using p calculation by (auto simp: peaks_def)
    ultimately show ?thesis using p False by (auto simp: peaks_def push_peak_def less_Suc_eq)
  qed
qed

lemma peak_stack_peaks: "peaks ps (length ps) (peak_stack ps)"
proof -
  have "peaks ps n (foldl (push_peak ps) [] [0..<n])" for n
  proof (induction n)
    case 0
    then show ?case by (simp add: peaks_def)
  next
    case (Suc n)
    then show ?case using peaks_push by simp
  qed
  then show ?thesis by (simp add: peak_stack_def)
qed

definition region_ok :: "real list \<Rightarrow> (nat \<Rightarrow> nat \<Rightarrow> bool) \<Rightarrow> nat \<Rightarrow> nat \<Rightarrow> bool" where
  "region_ok ps valid ml bi \<longleftrightarrow> 0 < ml \<longrightarrow> valid bi ml \<and> bi + ml < length ps \<and> ps ! (bi + ml) \<le> ps ! bi"

lemma scan_stack_spec:
  assumes "sorted_wrt (<) st" and "sorted_wrt (\<lambda>i j. ps ! i < ps ! j) st" and "\<forall>s\<in>set st. s < j" and "j < length ps"
    and "n \<le> length st" and "region_ok ps valid ml bi" and "scan_stack ps valid j n (st, ml, bi) = (st', ml', bi')"
  shows "ml \<le> ml' \<and> region_ok ps valid ml' bi' \<and>
    (\<exists>k \<le> length st. st' = take k st \<and> (\<forall>s\<in>set (drop k st). j - s \<le> ml')) \<and>
    (\<forall>m < n. ps ! j \<le> ps ! (st ! m) \<and> valid (st ! m) (j - st ! m) \<longrightarrow> j - st ! m \<le> ml')"
  using assms
proof (induction n arbitrary: st ml bi)
  case 0
  then show ?case by (auto intro!: exI [of _ "length st"])
next
  case (Suc n)
  let ?i = "st ! n"
  have n: "n < length st" using Suc.prems(5) by simp
  show ?case
  proof (cases "ps ! j \<le> ps ! ?i")
    case False
    have "ps ! (st ! m) \<le> ps ! ?i" if "m < Suc n" for m
      using Suc.prems(2) n that by (cases "m = n") (auto simp: sorted_wrt_iff_nth_less less_Suc_eq intro: less_imp_le)
    then have "\<not> ps ! j \<le> ps ! (st ! m)" if "m < Suc n" for m using that False by fastforce
    moreover have "st' = st" "ml' = ml" "bi' = bi" using Suc.prems(7) False by (simp_all add: Let_def)
    ultimately show ?thesis using Suc.prems(6) by (auto intro!: exI [of _ "length st"])
  next
    case low: True
    show ?thesis
    proof (cases "ml < j - ?i \<and> valid ?i (j - ?i)")
      case True
      have lt: "?i < j" using True by linarith
      have run: "scan_stack ps valid j n (take n st, j - ?i, ?i) = (st', ml', bi')"
        using Suc.prems(7) low True by (simp add: Let_def)
      have ok: "region_ok ps valid (j - ?i) ?i" using True lt low Suc.prems(4) by (simp add: region_ok_def)
      have pre: "sorted_wrt (<) (take n st)" "sorted_wrt (\<lambda>i j. ps ! i < ps ! j) (take n st)"
        "\<forall>s\<in>set (take n st). s < j" "n \<le> length (take n st)"
        using Suc.prems(1,2,3) n by (auto simp: sorted_wrt_take dest: in_set_takeD)
      note ih = Suc.IH [OF pre(1-3) Suc.prems(4) pre(4) ok run]
      then obtain k where k: "k \<le> n" "st' = take k (take n st)" "\<forall>s\<in>set (drop k (take n st)). j - s \<le> ml'"
        using n by auto
      have top: "j - s \<le> j - ?i" if s: "s \<in> set (drop n st)" for s
      proof -
        obtain m where m: "m < length (drop n st)" "drop n st ! m = s" using s unfolding in_set_conv_nth by blast
        then have "m < length st - n" "s = st ! (n + m)" using n by simp_all
        then have "?i \<le> s"
          using Suc.prems(1) by (cases "m = 0") (auto simp: sorted_wrt_iff_nth_less intro: less_imp_le)
        then show ?thesis by simp
      qed
      have "drop k (take n st @ drop n st) = drop k (take n st) @ drop n st"
        using k(1) n by (simp only: drop_append) simp
      then have "drop k st = drop k (take n st) @ drop n st" by simp
      moreover have "j - s \<le> ml'" if "s \<in> set (drop n st)" for s using top [OF that] ih by linarith
      ultimately have "\<forall>s\<in>set (drop k st). j - s \<le> ml'" using k(3) by auto
      moreover have "st' = take k st" using k(1,2) by (simp add: min_absorb1)
      moreover have "j - st ! m \<le> ml'" if "m < Suc n" "ps ! j \<le> ps ! (st ! m) \<and> valid (st ! m) (j - st ! m)" for m
        using ih that by (cases "m = n") auto
      moreover have "ml \<le> ml'" "region_ok ps valid ml' bi'" using ih True by auto
      moreover have "k \<le> length st" using k(1) n by simp
      ultimately show ?thesis by blast
    next
      case False
      have run: "scan_stack ps valid j n (st, ml, bi) = (st', ml', bi')"
        using Suc.prems(7) low False by (simp add: Let_def)
      note ih = Suc.IH [OF Suc.prems(1-4) _ Suc.prems(6) run]
      then show ?thesis using False n by (auto simp: less_Suc_eq)
    qed
  qed
qed

text \<open>What the scan knows when the ends from \<open>j\<close> on are done.\<close>

definition scan_inv :: "real list \<Rightarrow> (nat \<Rightarrow> nat \<Rightarrow> bool) \<Rightarrow> nat list \<Rightarrow> nat \<Rightarrow> region_search \<Rightarrow> bool" where
  "scan_inv ps valid S j r \<longleftrightarrow> (case r of (st, ml, bi) \<Rightarrow>
     (\<exists>k \<le> length S. st = take k S \<and> (\<forall>s\<in>set (drop k S). \<forall>j'. j' < j \<longrightarrow> j' - s \<le> ml)) \<and>
     (\<forall>s\<in>set S. \<forall>j'. j \<le> j' \<and> j' < length ps \<and> ps ! j' \<le> ps ! s \<and> valid s (j' - s) \<longrightarrow> j' - s \<le> ml) \<and>
     region_ok ps valid ml bi)"

lemma pop_prefix:
  assumes "sorted_wrt (<) (S :: nat list)" and "k \<le> length S"
  shows "\<exists>k' \<le> k. rev (dropWhile (\<lambda>i. j \<le> i) (rev (take k S))) = take k' S \<and>
    (\<forall>s\<in>set (take k' S). s < j) \<and> (\<forall>s\<in>set (drop k' (take k S)). j \<le> s)"
  using assms(2)
proof (induction k)
  case (Suc k)
  have t: "take (Suc k) S = take k S @ [S ! k]" using Suc.prems by (simp add: take_Suc_conv_app_nth)
  show ?case
  proof (cases "j \<le> S ! k")
    case True
    obtain k' where k': "k' \<le> k" "rev (dropWhile (\<lambda>i. j \<le> i) (rev (take k S))) = take k' S"
        "\<forall>s\<in>set (take k' S). s < j" "\<forall>s\<in>set (drop k' (take k S)). j \<le> s"
      using Suc by auto
    have "drop k' (take (Suc k) S) = drop k' (take k S) @ [S ! k]" using t k'(1) Suc.prems by simp
    then show ?thesis using k' True t by (intro exI [of _ k']) auto
  next
    case False
    have "s < j" if s: "s \<in> set (take (Suc k) S)" for s
    proof -
      obtain m where "m < Suc k" "s = S ! m" using s Suc.prems by (auto simp: in_set_conv_nth)
      then have "s \<le> S ! k"
        using assms(1) Suc.prems by (cases "m = k") (auto simp: sorted_wrt_iff_nth_less intro: less_imp_le)
      then show ?thesis using False by simp
    qed
    then show ?thesis using False t by (intro exI [of _ "Suc k"]) auto
  qed
qed (auto intro: exI [of _ 0])

lemma scan_ends_spec:
  assumes S: "sorted_wrt (<) S" "sorted_wrt (\<lambda>i j. ps ! i < ps ! j) S"
    and "n \<le> length ps" and "scan_inv ps valid S n r" and "scan_ends ps valid (rev [0..<n]) r = (bi, ml)"
  shows "region_ok ps valid ml bi \<and>
    (\<forall>s\<in>set S. \<forall>j'. j' < length ps \<and> ps ! j' \<le> ps ! s \<and> valid s (j' - s) \<longrightarrow> j' - s \<le> ml)"
  using assms(3-5)
proof (induction n arbitrary: r)
  case 0
  obtain st l b where r: "r = (st, l, b)" by (metis prod_cases3)
  then show ?case using 0 by (auto simp: scan_inv_def)
next
  case (Suc n)
  obtain st l b where r: "r = (st, l, b)" by (metis prod_cases3)
  obtain k where k: "k \<le> length S" "st = take k S" "\<And>s j'. s \<in> set (drop k S) \<Longrightarrow> j' < Suc n \<Longrightarrow> j' - s \<le> l"
    using Suc.prems(2) r by (auto simp: scan_inv_def)
  have done_: "\<And>s j'. s \<in> set S \<Longrightarrow> Suc n \<le> j' \<Longrightarrow> j' < length ps \<Longrightarrow> ps ! j' \<le> ps ! s \<Longrightarrow> valid s (j' - s) \<Longrightarrow> j' - s \<le> l"
    and ok: "region_ok ps valid l b"
    using Suc.prems(2) r by (auto simp: scan_inv_def)
  obtain k' where k': "k' \<le> k" "rev (dropWhile (\<lambda>i. n \<le> i) (rev st)) = take k' S"
      "\<forall>s\<in>set (take k' S). s < n" "\<forall>s\<in>set (drop k' (take k S)). n \<le> s"
    using pop_prefix [OF S(1) k(1), of n] k(2) by auto
  have split: "drop k' S = drop k' (take k S) @ drop k S"
  proof -
    have "drop k' (take k S @ drop k S) = drop k' (take k S) @ drop k S"
      using k'(1) k(1) by (simp only: drop_append) simp
    then show ?thesis by simp
  qed
  have popped: "j' - s \<le> l" if "s \<in> set (drop k' S)" "j' \<le> n" for s j'
    using that k(3) [of s j'] k'(4) split by auto
  show ?case
  proof (cases "take k' S = []")
    case True
    then have res: "bi = b" "ml = l" using Suc.prems(3) r k'(2) by (simp_all add: Let_def)
    have "drop k' S = S" using True by (metis append_Nil append_take_drop_id)
    then have "j' - s \<le> l" if "s \<in> set S" "j' < length ps \<and> ps ! j' \<le> ps ! s \<and> valid s (j' - s)" for s j'
      using popped [of s j'] done_ [of s j'] that by (cases "j' \<le> n") auto
    then show ?thesis using res ok by blast
  next
    case False
    obtain st2 l2 b2 where scan: "scan_stack ps valid n (length (take k' S)) (take k' S, l, b) = (st2, l2, b2)"
      by (metis prod_cases3)
    have sS: "sorted_wrt (<) (take k' S)" "sorted_wrt (\<lambda>i j. ps ! i < ps ! j) (take k' S)"
      using S by (simp_all add: sorted_wrt_take)
    have nps: "n < length ps" using Suc.prems(1) by simp
    note spec = scan_stack_spec [OF sS k'(3) nps order.refl ok scan]
    then obtain k2 where k2: "k2 \<le> length (take k' S)" "st2 = take k2 (take k' S)"
        "\<forall>s\<in>set (drop k2 (take k' S)). n - s \<le> l2" by blast
    have k'S: "k' \<le> length S" using k'(1) k(1) by simp
    have here: "n - s \<le> l2" if s: "s \<in> set S" "ps ! n \<le> ps ! s" "valid s (n - s)" for s
    proof (cases "s \<in> set (take k' S)")
      case True
      then obtain m where "m < length (take k' S)" "s = take k' S ! m" by (auto simp: in_set_conv_nth)
      then show ?thesis using spec s by blast
    next
      case False
      then have "s \<in> set (drop k' S)" using s(1) by (metis Un_iff append_take_drop_id set_append)
      then show ?thesis using popped [of s n] spec by (meson le_refl order_trans)
    qed
    have dropped: "j' - s \<le> l2" if "s \<in> set (drop k2 S)" "j' < n" for s j'
    proof (cases "s \<in> set (drop k' S)")
      case True
      then show ?thesis using popped [of s j'] that(2) spec by (meson less_imp_le order_trans)
    next
      case False
      have "drop k2 (take k' S @ drop k' S) = drop k2 (take k' S) @ drop k' S"
        using k2(1) k'S by (simp only: drop_append) simp
      then have "s \<in> set (drop k2 (take k' S))" using that(1) False by simp
      then have "n - s \<le> l2" using k2(3) by blast
      then show ?thesis using that(2) by simp
    qed
    have "scan_inv ps valid S n (st2, l2, b2)"
    proof -
      have "k2 \<le> k'" using k2(1) k'S by simp
      then have "st2 = take k2 S" "k2 \<le> length S" using k2(2) k'S by (simp_all add: min_absorb1)
      moreover have "j' - s \<le> l2" if "s \<in> set S" "n \<le> j'" "j' < length ps" "ps ! j' \<le> ps ! s" "valid s (j' - s)" for s j'
        using here [of s] done_ [of s j'] that spec by (cases "j' = n") (auto simp: Suc_le_eq)
      ultimately show ?thesis using dropped spec by (auto simp: scan_inv_def)
    qed
    then show ?thesis
      using Suc.IH [of "(st2, l2, b2)"] Suc.prems(1,3) r k'(2) False scan by (simp add: Let_def)
  qed
qed

lemma scan_inv_start: "scan_inv ps valid (peak_stack ps) (length ps) (peak_stack ps, 0, 0)"
  by (auto simp: scan_inv_def region_ok_def)

lemma low_energy_search:
  fixes input :: "real list" and threshold :: real
  defines "dev \<equiv> \<lambda>i j. sum_list (map (\<lambda>x. x * x - threshold) (take (j - i) (drop i input)))"
  assumes "longest_low_energy_region input threshold valid = (i, len)"
    and mono: "\<And>i i' l. valid i l \<Longrightarrow> i' \<le> i \<Longrightarrow> valid i' (l + (i - i'))"
  shows "(0 < len \<longrightarrow> valid i len \<and> i + len \<le> length input \<and> dev i (i + len) \<le> 0) \<and>
    (\<forall>i' j'. i' < j' \<and> j' \<le> length input \<and> valid i' (j' - i') \<and> dev i' j' \<le> 0 \<longrightarrow> j' - i' \<le> len)"
proof -
  define ps where "ps = deviation_sums threshold 0 input"
  have ps: "length ps = Suc (length input)" by (simp add: ps_def)
  have dev: "ps ! j - ps ! i = dev i j" if "i \<le> j" "j \<le> length input" for i j
  proof -
    have "take j input = take i input @ take (j - i) (drop i input)" using that by (metis le_add_diff_inverse take_add)
    then show ?thesis using that by (simp add: ps_def deviation_sums_nth dev_def)
  qed
  have pk: "peaks ps (length ps) (peak_stack ps)" by (rule peak_stack_peaks)
  then have S: "sorted_wrt (<) (peak_stack ps)" "sorted_wrt (\<lambda>i j. ps ! i < ps ! j) (peak_stack ps)"
    by (simp_all add: peaks_def)
  have "scan_ends ps valid (rev [0..<length ps]) (peak_stack ps, 0, 0) = (i, len)"
    using assms(2) by (simp add: longest_low_energy_region_def ps_def Let_def)
  note spec = scan_ends_spec [OF S order.refl scan_inv_start this]
  have "valid i len \<and> i + len \<le> length input \<and> dev i (i + len) \<le> 0" if "0 < len"
    using spec that dev [of i "i + len"] ps by (auto simp: region_ok_def)
  moreover have "j' - i' \<le> len" if c: "i' < j'" "j' \<le> length input" "valid i' (j' - i')" "dev i' j' \<le> 0" for i' j'
  proof -
    obtain s where s: "s \<in> set (peak_stack ps)" "s \<le> i'" "ps ! i' \<le> ps ! s"
      using pk c(1,2) ps unfolding peaks_def by (metis le_imp_less_Suc less_imp_le order_less_le_trans)
    have "ps ! j' \<le> ps ! s" using dev [of i' j'] c s(3) by simp
    moreover have "valid s (j' - s)" using mono [OF c(3) s(2)] c(1) s(2) by simp
    ultimately have "j' - s \<le> len" using spec s(1) c(2) ps by auto
    then show ?thesis using s(2) by simp
  qed
  ultimately show ?thesis by blast
qed

lemma valid_removal_mono: "valid_removal ov mr n i l \<Longrightarrow> i' \<le> i \<Longrightarrow> valid_removal ov mr n i' (l + (i - i'))"
  by (auto simp: valid_removal_def min_def split: if_splits)

text \<open>C31: The search for a quiet region, done with one stack in linear time, is optimal: its answer has average
  energy at most the threshold and can be cut out, and no longer region of the input has both properties.\<close>

theorem low_energy_region_longest:
  fixes input :: "real list" and threshold :: real
  assumes "longest_low_energy_region input threshold (valid_removal overlap max_remove out_len) = (i, len)"
  shows "(0 < len \<longrightarrow> valid_removal overlap max_remove out_len i len \<and> i + len \<le> length input \<and>
      sum_list (map (\<lambda>x. x * x - threshold) (take len (drop i input))) \<le> 0) \<and>
    (\<forall>i' j'. i' < j' \<and> j' \<le> length input \<and> valid_removal overlap max_remove out_len i' (j' - i') \<and>
       sum_list (map (\<lambda>x. x * x - threshold) (take (j' - i') (drop i' input))) \<le> 0 \<longrightarrow> j' - i' \<le> len)"
  using low_energy_search [OF assms valid_removal_mono] by simp

theorem low_energy_region_longest_witness:
  "longest_low_energy_region [5, 0, 0] 1 (valid_removal 0 5 5) = (1, 2) \<and>
   sum_list (map (\<lambda>x. x * x - 1) (take 2 (drop 1 [5, 0, 0 :: real]))) \<le> 0"
proof -
  have u: "[0..<4] = [0, 1, 2, 3 :: nat]" by code_simp
  have d: "deviation_sums 1 0 [5, 0, 0] = [0, 24, 23, 22]" by simp
  have p: "peak_stack [0, 24, 23, 22] = [0, 1]"
    by (simp add: peak_stack_def push_peak_def u nth_Cons')
  have "length [0, 24, 23, 22 :: real] = 4" by simp
  then have r: "rev [0..<length [0, 24, 23, 22 :: real]] = [3, 2, 1, 0]" by (simp only: u) simp
  have "scan_ends [0, 24, 23, 22] (valid_removal 0 5 5) [3, 2, 1, 0] ([0, 1], 0, 0) = (1, 2)"
    by (simp add: valid_removal_def nth_Cons' Let_def)
  then have "longest_low_energy_region [5, 0, 0] 1 (valid_removal 0 5 5) = (1, 2)"
    unfolding longest_low_energy_region_def Let_def d p r .
  from low_energy_region_longest [OF this] this show ?thesis by simp
qed

section \<open>Stretching stays in range\<close>

lemma crossfade_ok:
  "length a = n \<Longrightarrow> n \<le> length b \<Longrightarrow> length w = n \<Longrightarrow> crossfade a b n w = Some (fade a b 0 n)"
  by (simp add: crossfade_def)

lemma length_fade [simp]: "length (fade a b k n) = n"
  by (simp add: fade_def)

lemma remove_samples_ok:
  assumes "length usable = length out + removed" and "pos + overlap \<le> length out"
  shows "\<exists>out'. remove_samples usable out pos removed overlap = Some out' \<and> length out' = length out"
  using assms by (simp add: remove_samples_def crossfade_ok)

lemma repeat_samples_ok:
  assumes "length usable = length out - add_len" and "add_len + pos + overlap \<le> length usable" and "add_len \<le> length out"
  shows "\<exists>out'. repeat_samples usable out pos add_len overlap = Some out' \<and> length out' = length out"
  using assms by (simp add: repeat_samples_def crossfade_ok)

lemma max_samples_to_remove_bounds:
  assumes "2 * ac_overlap_length ac \<le> n" and "n + ac_overlap_length ac \<le> m"
  shows "ac_overlap_length ac \<le> max_samples_to_remove m n q ac \<and> n + max_samples_to_remove m n q ac \<le> m \<and>
    max_samples_to_remove m n q ac \<le> n div 2"
proof -
  have "ac_overlap_length ac \<le> n div 2" using assms(1) by simp
  then show ?thesis using assms(2) by (auto simp: max_samples_to_remove_def Let_def max_def min_def)
qed

lemma find_low_energy_ok:
  assumes "n + max_remove \<le> length input" and "0 < ac_overlap_length ac"
  shows "\<exists>pos removed ac'. find_low_energy_to_remove input n max_remove ac = Some ((pos, removed), ac') \<and>
    ac_overlap_length ac' = ac_overlap_length ac \<and>
    (removed = 0 \<or> ac_overlap_length ac \<le> removed \<and> removed \<le> max_remove \<and> pos + removed \<le> n)"
proof -
  let ?u = "take (n + max_remove) input"
  obtain i len where r: "longest_low_energy_region ?u (ac_low_energy_threshold ac)
      (valid_removal (ac_overlap_length ac) max_remove n) = (i, len)" by fastforce
  have "valid_removal (ac_overlap_length ac) max_remove n i len" if "0 < len"
    using low_energy_search [OF r valid_removal_mono] that by blast
  then have "i + min (len - ac_overlap_length ac) max_remove \<le> n"
    if "ac_overlap_length ac \<le> min (len - ac_overlap_length ac) max_remove"
    using that assms(2) by (cases "len = 0") (simp_all add: valid_removal_def)
  then show ?thesis using assms r by (auto simp: find_low_energy_to_remove_def Let_def not_less)
qed

lemma removal_loop_ok:
  assumes "0 < step" and "search_end \<le> length input"
  shows "\<exists>p. removal_loop input len search_end step pos best low = Some p \<and>
    (p = best \<and> (search_end \<le> pos \<or> low \<noteq> None) \<or> p < search_end)"
  using assms
proof (induction input len search_end step pos best low rule: removal_loop.induct)
  case (1 input len search_end step pos best low)
  show ?case
  proof (cases "search_end \<le> pos")
    case False
    let ?r = "take (min (pos + len) (length input) - pos) (drop pos input)"
    have r: "subslice pos (min (pos + len) (length input)) input = Some ?r"
      using False 1(3) by (simp add: subslice_def)
    let ?better = "case low of None \<Rightarrow> True | Some e \<Rightarrow> calculate_energy ?r < e"
    have "\<exists>p. removal_loop input len search_end step (pos + step) (if ?better then pos else best)
        (if ?better then Some (calculate_energy ?r) else low) = Some p \<and>
      (p = (if ?better then pos else best) \<and> (search_end \<le> pos + step \<or>
         (if ?better then Some (calculate_energy ?r) else low) \<noteq> None) \<or> p < search_end)"
      using 1(1) [OF False _ r refl refl 1(2,3)] 1(2) by simp
    then show ?thesis
      using False r 1(2)
      by (subst removal_loop.simps) (auto simp: Let_def split: option.splits if_splits)
  qed (subst removal_loop.simps, simp)
qed

lemma find_best_removal_point_ok:
  assumes "2 \<le> ac_overlap_length ac" and "2 * ac_overlap_length ac \<le> n" and "removed \<le> n div 2"
    and "length u = n + removed"
  shows "\<exists>p. find_best_removal_point u removed ac = Some p \<and> p + ac_overlap_length ac \<le> n"
proof -
  let ?ov = "ac_overlap_length ac"
  have e: "length u - (removed + ?ov) = n - ?ov" using assms(4) by simp
  have "0 < ?ov div 2" "n - ?ov \<le> length u" using assms by simp_all
  from removal_loop_ok [OF this, of removed ?ov "length u div 3" None] obtain p
    where p: "find_best_removal_point u removed ac = Some p"
      "p = length u div 3 \<and> n - ?ov \<le> ?ov \<or> p < n - ?ov"
    using e by (auto simp: find_best_removal_point_def)
  moreover have "p + ?ov \<le> n" if "p = length u div 3" "n - ?ov \<le> ?ov"
    using that assms by simp
  ultimately show ?thesis by auto
qed

text \<open>Room for a removal: more input than output by at least one cross-fade, if the output can hold two of them.\<close>

definition room_to_remove :: "nat \<Rightarrow> nat \<Rightarrow> nat \<Rightarrow> bool" where
  "room_to_remove overlap input_len output_len \<longleftrightarrow>
     2 \<le> overlap \<and> (output_len < input_len \<and> 2 * overlap \<le> output_len \<longrightarrow> output_len + overlap \<le> input_len)"

lemma accelerate_ok:
  assumes "room_to_remove (ac_overlap_length ac) (length input) (length out)"
  shows "\<exists>r out' ac'. accelerate_internal input out fast ac = Some (r, out', ac') \<and> length out' = length out \<and>
    ac_overlap_length ac' = ac_overlap_length ac \<and> ac_used_input_samples ac' \<le> length input \<and>
    (r = NoStretch \<and> ac_used_input_samples ac' = min (length input) (length out) \<or>
     length out + ac_overlap_length ac \<le> ac_used_input_samples ac')"
proof -
  let ?n = "length out" and ?m = "length input" and ?ov = "ac_overlap_length ac"
  consider "?m \<le> ?n" | "?n < ?m" "?n < ?ov * 2" | "?n < ?m" "2 * ?ov \<le> ?n" by linarith
  then show ?thesis
  proof cases
    case 3
    have room: "2 \<le> ?ov" "?n + ?ov \<le> ?m" using assms 3 by (simp_all add: room_to_remove_def)
    let ?lo = "max_samples_to_remove ?m ?n (if fast then 2 / 5 else 1 / 5) ac"
    let ?hi = "if fast then max_samples_to_remove ?m ?n (1 / 4) ac else 0"
    note lo = max_samples_to_remove_bounds [OF 3(2) room(2), of "if fast then 2 / 5 else 1 / 5"]
    note hi = max_samples_to_remove_bounds [OF 3(2) room(2), of "1 / 4"]
    obtain pos removed ac1 where f: "find_low_energy_to_remove input ?n ?lo ac = Some ((pos, removed), ac1)"
        "ac_overlap_length ac1 = ?ov" "removed = 0 \<or> ?ov \<le> removed \<and> removed \<le> ?lo \<and> pos + removed \<le> ?n"
      using find_low_energy_ok [of ?n ?lo input ac] lo room by auto
    define forced where "forced = (fast \<and> removed < ?hi)"
    define rem where "rem = (if forced then ?hi else removed)"
    show ?thesis
    proof (cases "\<not> fast \<and> removed = 0")
      case True
      then show ?thesis using 3 f by (simp add: accelerate_internal_def Let_def)
    next
      case False
      have rem: "?ov \<le> rem" "?n + rem \<le> ?m" "forced \<Longrightarrow> rem \<le> ?n div 2"
        using False f(3) lo hi room(1) by (auto simp: rem_def forced_def split: if_splits)
      let ?u = "take (?n + rem) input"
      have len: "length ?u = ?n + rem" using rem by simp
      obtain p where p: "(if forced then find_best_removal_point ?u rem ac1 else Some pos) = Some p" "p + ?ov \<le> ?n"
      proof (cases forced)
        case True
        then show ?thesis
          using find_best_removal_point_ok [of ac1 ?n rem ?u] room(1) 3(2) rem(3) len f(2) that by auto
      next
        case False
        then show ?thesis using f(3) rem(1) room(1) that by (auto simp: rem_def)
      qed
      obtain out' where out': "remove_samples ?u out p rem ?ov = Some out'" "length out' = ?n"
        using remove_samples_ok [OF len p(2)] by blast
      have "accelerate_internal input out fast ac = Some (if forced then StretchSuccess else SuccessLowEnergy, out',
          ac1\<lparr>ac_used_input_samples := length ?u\<rparr>)"
        using 3 False f(1) p(1) out'(1) rem(2)
        unfolding accelerate_internal_def Let_def rem_def forced_def
        by (cases "fast \<and> removed < ?hi") (auto split: if_splits)
      then show ?thesis using out'(2) f(2) len rem by simp
    qed
  qed (simp_all add: accelerate_internal_def Let_def)
qed

lemma correlation_loop_ok:
  assumes "length a \<le> length b" and "0 < len" and "len \<le> length a" and "pos + len \<le> length a"
  shows "\<exists>p c. correlation_loop a b len i corr energy pos q = Some (p, c) \<and> p + len \<le> length a"
  using assms
proof (induction a b len i corr energy pos q rule: correlation_loop.induct)
  case (1 a b len i corr energy pos q)
  show ?case
  proof (cases "length a \<le> i")
    case False
    define corr1 where "corr1 = corr + a ! i * b ! i"
    define energy1 where "energy1 = energy + max (a ! i * a ! i) (b ! i * b ! i)"
    define nc where "nc = (if energy1 = 0 then 1 else corr1 / energy1)"
    define k where "k = i + 1 - len"
    define best where "best = (if q < nc then (k, nc) else (pos, q))"
    have b: "\<not> length b \<le> i" using False 1(3) by simp
    consider "\<not> len \<le> i + 1" | "len \<le> i + 1" "1 \<le> nc" | "len \<le> i + 1" "\<not> 1 \<le> nc" by blast
    then show ?thesis
    proof cases
      case 1
      have "\<exists>p c. correlation_loop a b len (Suc i) corr1 energy1 pos q = Some (p, c) \<and> p + len \<le> length a"
        using "1.IH"(2) [OF False b refl refl corr1_def energy1_def 1] "1.prems" by blast
      then show ?thesis
        using False b 1 by (subst correlation_loop.simps) (simp add: corr1_def energy1_def Let_def)
    next
      case 2
      then have "correlation_loop a b len i corr energy pos q = Some (k, 1)"
        using False b
        unfolding correlation_loop.simps [of a b len i] Let_def corr1_def [symmetric] energy1_def [symmetric]
          nc_def [symmetric] k_def [symmetric]
        by simp
      then show ?thesis using False 2 by (simp add: k_def)
    next
      case 3
      have ka: "\<not> length a \<le> k" "k + len \<le> length a" using False 3(1) "1.prems"(2) by (simp_all add: k_def)
      have "fst best + len \<le> length a" using ka(2) "1.prems"(4) by (simp add: best_def)
      then have "\<exists>p c. correlation_loop a b len (Suc i) (corr1 - a ! k * b ! k)
          (energy1 - max (a ! k * a ! k) (b ! k * b ! k)) (fst best) (snd best) = Some (p, c) \<and> p + len \<le> length a"
        using "1.IH"(1) [OF False b refl refl corr1_def energy1_def 3(1) nc_def k_def 3(2) ka(1), of best "fst best" "snd best"
            "a ! k" "b ! k"] "1.prems" best_def by simp
      then show ?thesis
        using False b 3 ka(1)
        unfolding correlation_loop.simps [of a b len i] Let_def corr1_def [symmetric] energy1_def [symmetric]
          nc_def [symmetric] k_def [symmetric] best_def [symmetric]
        by (simp add: split_beta)
    qed
  next
    case True
    then show ?thesis using "1.prems" by (subst correlation_loop.simps) simp
  qed
qed

lemma best_correlation_ok:
  assumes "length a \<le> length b" and "0 < len" and "len \<le> length a"
  shows "\<exists>p c. best_normalized_correlation a b len = Some (p, c) \<and> p + len \<le> length a"
  using correlation_loop_ok [OF assms, of 0 0 0 0 "- 1"] assms by (simp add: best_normalized_correlation_def)

lemma repetition_loop_ok:
  assumes "0 < overlap" and "n \<le> length input" and "\<forall>d\<in>set ds. 2 * d + overlap \<le> n"
    and "best_pos + 2 * best_add + overlap \<le> n"
  shows "\<exists>c p d. repetition_loop input n overlap ds (best_corr, best_pos, best_add) = Some (c, p, d) \<and>
    p + 2 * d + overlap \<le> n"
  using assms(3,4)
proof (induction ds arbitrary: best_corr best_pos best_add)
  case (Cons d ds)
  have "2 * d + overlap \<le> n" using Cons.prems(1) by simp
  then have d: "d * 2 \<le> n" "n - d * 2 + d \<le> length input" "overlap \<le> n - d * 2" using assms(2) by linarith+
  let ?a = "take (n - d * 2) (drop d input)" and ?b = "take (n - d * 2) input"
  have len: "length ?a = n - d * 2" "length ?b = n - d * 2" using d by simp_all
  obtain p c where pc: "best_normalized_correlation ?a ?b overlap = Some (p, c)" "p + overlap \<le> n - d * 2"
  proof -
    have "\<exists>p c. best_normalized_correlation ?a ?b overlap = Some (p, c) \<and> p + overlap \<le> length ?a"
      by (rule best_correlation_ok) (use len d(3) assms(1) in simp_all)
    then have "\<exists>p c. best_normalized_correlation ?a ?b overlap = Some (p, c) \<and> p + overlap \<le> n - d * 2"
      by (simp only: len(1))
    then show ?thesis using that by blast
  qed
  have "subslice d (n - d * 2 + d) input = Some ?a" "subslice 0 (n - d * 2) input = Some ?b"
    using d by (simp_all add: mult_2_right)
  moreover have "p + 2 * d + overlap \<le> n" using pc(2) d(1) by linarith
  ultimately show ?case
    using Cons.IH [of p d c] Cons.IH [of best_pos best_add best_corr] Cons.prems pc(1) by auto
qed simp

lemma expand_internal_ok:
  assumes "2 \<le> px_overlap_length px" and "px_overlap_length px \<le> length out"
  shows "\<exists>r out' px'. expand_internal input out px = Some (r, out', px') \<and> length out' = length out \<and>
    px_overlap_length px' = px_overlap_length px \<and> px_used_input_samples px' \<le> length input \<and>
    px_used_input_samples px' \<le> length out"
proof -
  let ?n = "length out" and ?ov = "px_overlap_length px"
  consider "length input < ?n" | "?n \<le> length input" "(?n - ?ov) div 2 < ?ov" | "?n \<le> length input" "?ov \<le> (?n - ?ov) div 2"
    by linarith
  then show ?thesis
  proof cases
    case 3
    have "2 * d + ?ov \<le> ?n" if "d \<in> set [?ov..<(?n - ?ov) div 2]" for d using that by auto
    then obtain c p d where r: "repetition_loop input ?n ?ov [?ov..<(?n - ?ov) div 2] (- 1, 0, 0) = Some (c, p, d)"
        "p + 2 * d + ?ov \<le> ?n"
      using repetition_loop_ok [of ?ov ?n input "[?ov..<(?n - ?ov) div 2]" 0 0 "- 1"] 3 assms by auto
    let ?u = "take (?n - d) input"
    have u: "length ?u = ?n - d" using 3 by simp
    obtain out' where "repeat_samples ?u out p d ?ov = Some out'" "length out' = ?n"
    proof -
      have "d + p + ?ov \<le> length ?u" "d \<le> ?n" using r(2) u by linarith+
      then show ?thesis using repeat_samples_ok [OF u] that by blast
    qed
    moreover have "?n - d \<le> length input" using 3(1) by linarith
    ultimately show ?thesis using 3 assms(2) r(1) u by (simp add: expand_internal_def Let_def)
  qed (use assms in \<open>simp_all add: expand_internal_def Let_def\<close>)
qed

lemma length_noise [simp]: "length (fst (noise n s)) = n"
  by (induction n arbitrary: s) (simp_all add: split_beta)

lemma expand_process_ok:
  "\<exists>r out' ex'. expand_process input out phase ex = Some (r, out', ex') \<and> length out' = length out \<and>
    ex_overlap_length ex' = ex_overlap_length ex \<and> ex_used_input_samples ex' \<le> length input \<and>
    (samples_required phase ex \<le> length input \<and> samples_required phase ex \<le> length out \<longrightarrow>
       ex_used_input_samples ex' = samples_required phase ex)"
proof -
  obtain ns st where n: "noise (length out) (ex_rng_state ex) = (ns, st)" by fastforce
  then have "length ns = length out" using length_noise [of "length out" "ex_rng_state ex"] by simp
  then show ?thesis
    using n by (cases phase) (simp_all add: expand_process_def samples_required_def crossfade_ok Let_def)
qed

end
