(* ===== verification/Neteq_Engine.thy ===== *)
theory Neteq_Engine
  imports Neteq_Statistics Neteq_Stretch
begin

text \<open>
  The audio engine of \<open>neteq\<close>: \<open>neteq.rs\<close>. It ties the packet buffer, the delay manager, the level filter, the
  time stretchers and the statistics together: packets go in at the pace of the network, ten-millisecond frames
  come out at the pace of the sound card.

  \<^item> A decoder (\<open>Box<dyn AudioDecoder>\<close>) is a value of a type parameter, with a function \<open>dec\<close> that takes a
    decoder and a payload to the samples, or \<open>None\<close> for an error, and the decoder afterwards. Nothing is assumed of it.
  \<^item> Samples are reals. A raw payload is read as little-endian single-precision numbers; an exponent of all ones
    (infinity, not-a-number) is read like any other.
  \<^item> Sample counts are natural numbers, limits and timestamps words of 32 bits, the correction for time stretching
    an integer that wraps at 32 bits. A panic in any part is the value \<open>None\<close>.
  \<^item> One call reads the clock once: the time is its argument.
\<close>

section \<open>Configuration and state\<close>

datatype neteq_error = InvalidSampleRate u32 | InvalidChannelCount u8

definition K_DECELERATION_TARGET_LEVEL_OFFSET_MS :: u32 where "K_DECELERATION_TARGET_LEVEL_OFFSET_MS = 85"
definition K_BASE_MIN_DELAY_MS :: u32 where "K_BASE_MIN_DELAY_MS = 20"

record neteq_config =
  nc_sample_rate :: u32
  nc_channels :: u8
  nc_max_packets_in_buffer :: nat
  nc_max_delay_ms :: u32
  nc_min_delay_ms :: u32
  nc_additional_delay_ms :: u32
  nc_for_test_no_time_stretching :: bool
  nc_bypass_mode :: bool
  nc_delay_config :: delay_config
  nc_smart_flush_config :: smart_flush_config

definition neteq_config_default :: neteq_config where
  "neteq_config_default =
     \<lparr>nc_sample_rate = 16000, nc_channels = 1, nc_max_packets_in_buffer = 200, nc_max_delay_ms = 0,
      nc_min_delay_ms = 0, nc_additional_delay_ms = 0, nc_for_test_no_time_stretching = False,
      nc_bypass_mode = False, nc_delay_config = delay_config_default,
      nc_smart_flush_config = smart_flush_config_default\<rparr>"

datatype speech_type = SpeechNormal | SpeechCng | SpeechExpand | SpeechMusic

record audio_frame =
  af_samples :: "real list"
  af_sample_rate :: u32
  af_channels :: u8
  af_samples_per_channel :: nat
  af_speech_type :: speech_type
  af_vad_activity :: bool

definition audio_frame_new :: "u32 \<Rightarrow> u8 \<Rightarrow> nat \<Rightarrow> audio_frame" where
  "audio_frame_new sample_rate channels samples_per_channel =
     \<lparr>af_samples = replicate (samples_per_channel * unat channels) 0, af_sample_rate = sample_rate,
      af_channels = channels, af_samples_per_channel = samples_per_channel, af_speech_type = SpeechNormal,
      af_vad_activity = False\<rparr>"

definition duration_ms :: "audio_frame \<Rightarrow> u32" where
  "duration_ms frame = (of_nat (af_samples_per_channel frame) * 1000) div af_sample_rate frame"

record 'd neteq =
  nq_config :: neteq_config
  nq_packet_buffer :: packet_buffer
  nq_delay_manager :: delay_manager
  nq_buffer_level_filter :: buffer_level_filter
  nq_statistics :: statistics_calculator
  nq_accelerate :: accelerate
  nq_preemptive_expand :: preemptive_expand
  nq_expand :: expand
  nq_last_decode_timestamp :: "u32 option"
  nq_output_frame_size_samples :: nat
  nq_last_operation :: operation
  nq_consecutive_expands :: u32
  nq_frame_timestamp :: u32
  nq_leftover_samples :: "real list"
  nq_decoders :: "u8 \<Rightarrow> 'd option"
  nq_bypass_audio_queue :: "real list"
  nq_packets_received_this_second :: u32
  nq_last_packets_second_instant :: instant
  nq_packets_per_sec_snapshot :: u32
  nq_leftover_time_stretched_samples :: "real list"
  nq_timestretch_added_samples :: int
  nq_rng_state :: u64

definition initial_delay_manager :: "neteq_config \<Rightarrow> delay_manager" where
  "initial_delay_manager config =
     (let delay_config = (nc_delay_config config)
            \<lparr>dc_base_minimum_delay_ms := K_BASE_MIN_DELAY_MS,
             dc_base_maximum_delay_ms := of_nat (nc_max_packets_in_buffer config * 20 * 3 div 4),
             dc_additional_delay_ms := nc_additional_delay_ms config\<rparr>;
          dm = delay_manager_new delay_config;
          dm1 = (if nc_min_delay_ms config > 0 then snd (set_minimum_delay (nc_min_delay_ms config) dm) else dm)
      in if nc_max_delay_ms config > 0 then snd (set_maximum_delay (nc_max_delay_ms config) dm1) else dm1)"

text \<open>\<open>NetEq::new\<close>. The generator for comfort noise is a static of the program; \<open>rng\<close> is its state.\<close>

definition neteq_new :: "instant \<Rightarrow> u64 \<Rightarrow> neteq_config \<Rightarrow> neteq_error + 'd neteq" where
  "neteq_new now rng config =
     (if nc_sample_rate config = 0 then Inl (InvalidSampleRate (nc_sample_rate config))
      else if nc_channels config = 0 then Inl (InvalidChannelCount (nc_channels config))
      else Inr
        \<lparr>nq_config = config,
         nq_packet_buffer = packet_buffer_with_config (nc_max_packets_in_buffer config) (nc_smart_flush_config config),
         nq_delay_manager = initial_delay_manager config,
         nq_buffer_level_filter = level_filter_new (nc_sample_rate config),
         nq_statistics = statistics_new now,
         nq_accelerate = accelerate_new (nc_sample_rate config) (nc_channels config),
         nq_preemptive_expand = preemptive_expand_new (nc_sample_rate config) (nc_channels config),
         nq_expand = expand_new (nc_sample_rate config),
         nq_last_decode_timestamp = None,
         nq_output_frame_size_samples = unat (nc_sample_rate config div 100) * unat (nc_channels config),
         nq_last_operation = OpNormal, nq_consecutive_expands = 0, nq_frame_timestamp = 0,
         nq_leftover_samples = [], nq_decoders = (\<lambda>_. None), nq_bypass_audio_queue = [],
         nq_packets_received_this_second = 0, nq_last_packets_second_instant = now,
         nq_packets_per_sec_snapshot = 0, nq_leftover_time_stretched_samples = [],
         nq_timestretch_added_samples = 0, nq_rng_state = rng\<rparr>)"

section \<open>Decoding one packet\<close>

fun chunks_exact4 :: "bytes \<Rightarrow> bytes list" where
  "chunks_exact4 (a # b # c # d # rest) = [a, b, c, d] # chunks_exact4 rest"
| "chunks_exact4 _ = []"

definition f32_from_le_bytes :: "bytes \<Rightarrow> real" where
  "f32_from_le_bytes chunk =
     (let bits = fold (\<lambda>b n. 256 * n + unat b) (rev chunk) 0;
          fraction = bits mod 2 ^ 23; expo = bits div 2 ^ 23 mod 256
      in (if bits div 2 ^ 31 = 1 then - 1 else 1) *
         (if expo = 0 then real fraction / 2 ^ 149 else real (2 ^ 23 + fraction) * 2 ^ expo / 2 ^ 150))"

type_synonym 'd decode_fn = "'d \<Rightarrow> bytes \<Rightarrow> real list option \<times> 'd"

definition packet_samples :: "'d decode_fn \<Rightarrow> audio_packet \<Rightarrow> (u8 \<Rightarrow> 'd option) \<Rightarrow> real list \<times> (u8 \<Rightarrow> 'd option)" where
  "packet_samples dec packet decoders =
     (let pt = rh_payload_type (ap_header packet)
      in case decoders pt of
           Some d \<Rightarrow>
             (case dec d (ap_payload packet) of
                (Some pcm, d') \<Rightarrow> (pcm, decoders(pt \<mapsto> d'))
              | (None, d') \<Rightarrow> ([], decoders(pt \<mapsto> d')))
         | None \<Rightarrow> (map f32_from_le_bytes (chunks_exact4 (ap_payload packet)), decoders))"

section \<open>Buffer levels\<close>

definition current_buffer_size_samples :: "'d neteq \<Rightarrow> nat" where
  "current_buffer_size_samples nq =
     unat (num_samples_in_buffer (nq_packet_buffer nq)) + length (nq_leftover_samples nq) +
     length (nq_leftover_time_stretched_samples nq)"

definition current_buffer_size_ms :: "'d neteq \<Rightarrow> u32" where
  "current_buffer_size_ms nq =
     of_nat (current_buffer_size_samples nq) * 1000 div nc_sample_rate (nq_config nq)"

definition maybe_roll_packet_rate :: "instant \<Rightarrow> 'd neteq \<Rightarrow> 'd neteq" where
  "maybe_roll_packet_rate now nq =
     (if now - nq_last_packets_second_instant nq \<ge> secs 1
      then nq\<lparr>nq_packets_per_sec_snapshot := nq_packets_received_this_second nq,
              nq_packets_received_this_second := 0, nq_last_packets_second_instant := now\<rparr>
      else nq)"

definition sat_incr :: "u32 \<Rightarrow> u32" where
  "sat_incr n = (if n = - 1 then n else n + 1)"

section \<open>Inserting packets\<close>

definition bypass_insert :: "'d decode_fn \<Rightarrow> audio_packet \<Rightarrow> 'd neteq \<Rightarrow> 'd neteq" where
  "bypass_insert dec packet nq =
     (let pt = rh_payload_type (ap_header packet)
      in case nq_decoders nq pt of
           Some d \<Rightarrow>
             (case dec d (ap_payload packet) of
                (Some pcm, d') \<Rightarrow>
                  nq\<lparr>nq_decoders := (nq_decoders nq)(pt \<mapsto> d'), nq_bypass_audio_queue := nq_bypass_audio_queue nq @ pcm\<rparr>
              | (None, d') \<Rightarrow> nq\<lparr>nq_decoders := (nq_decoders nq)(pt \<mapsto> d')\<rparr>)
         | None \<Rightarrow> nq)"

definition neteq_insert_packet :: "'d decode_fn \<Rightarrow> instant \<Rightarrow> audio_packet \<Rightarrow> 'd neteq \<Rightarrow> 'd neteq option" where
  "neteq_insert_packet dec now packet nq =
     (let nq1 = maybe_roll_packet_rate now
            (nq\<lparr>nq_packets_received_this_second := sat_incr (nq_packets_received_this_second nq)\<rparr>)
      in if nc_bypass_mode (nq_config nq1) then Some (bypass_insert dec packet nq1)
         else do {
           dm \<leftarrow> delay_manager_update now (rh_timestamp (ap_header packet)) (ap_sample_rate packet) False (nq_delay_manager nq1);
           let target_delay = target_delay_ms dm;
           (result, pb, evs) \<leftarrow> insert_packet now packet target_delay (nq_packet_buffer nq1);
           let nq2 = nq1\<lparr>nq_delay_manager := dm, nq_packet_buffer := pb,
                         nq_statistics := apply_stats evs (nq_statistics nq1)\<rparr>;
           Some (nq2\<lparr>nq_statistics := update_buffer_size (ucast (current_buffer_size_ms nq2)) (ucast target_delay)
                       (nq_statistics nq2)\<rparr>)
         })"

section \<open>Resetting\<close>

definition neteq_reset :: "instant \<Rightarrow> 'd neteq \<Rightarrow> 'd neteq" where
  "neteq_reset now nq =
     nq\<lparr>nq_delay_manager := delay_manager_reset (nq_delay_manager nq),
        nq_buffer_level_filter := set_filtered_buffer_level (current_buffer_size_samples nq)
          (level_filter_reset (nq_buffer_level_filter nq)),
        nq_last_decode_timestamp := None, nq_consecutive_expands := 0, nq_packets_received_this_second := 0,
        nq_packets_per_sec_snapshot := 0, nq_last_packets_second_instant := now,
        nq_leftover_time_stretched_samples := [], nq_timestretch_added_samples := 0\<rparr>"

definition neteq_flush :: "instant \<Rightarrow> 'd neteq \<Rightarrow> 'd neteq" where
  "neteq_flush now nq =
     (case pb_flush (nq_packet_buffer nq) of
        (pb, evs) \<Rightarrow>
          neteq_reset now (nq\<lparr>nq_packet_buffer := pb, nq_statistics := apply_stats evs (nq_statistics nq),
                              nq_leftover_samples := []\<rparr>))"

section \<open>The decision\<close>

definition low_limit :: "u32 \<Rightarrow> u32 \<Rightarrow> u32" where
  "low_limit target_level samples_per_ms =
     max (target_level * 3 div 4)
       (if target_level < K_DECELERATION_TARGET_LEVEL_OFFSET_MS * samples_per_ms then 0
        else target_level - K_DECELERATION_TARGET_LEVEL_OFFSET_MS * samples_per_ms)"

definition high_limit :: "u32 \<Rightarrow> u32 \<Rightarrow> u32" where
  "high_limit target_level samples_per_ms =
     max target_level (low_limit target_level samples_per_ms + 20 * samples_per_ms)"

definition get_decision :: "instant \<Rightarrow> 'd neteq \<Rightarrow> operation \<times> 'd neteq" where
  "get_decision now nq =
     (let buffered = current_buffer_size_samples nq;
          target_ms = target_delay_ms (nq_delay_manager nq);
          filt = level_filter_update buffered (- nq_timestretch_added_samples nq)
            (set_target_buffer_level target_ms (nq_buffer_level_filter nq));
          nq1 = nq\<lparr>nq_buffer_level_filter := filt, nq_timestretch_added_samples := 0\<rparr>;
          samples_per_ms = nc_sample_rate (nq_config nq1) div 1000;
          target_level = target_ms * samples_per_ms;
          low = low_limit target_level samples_per_ms;
          high = high_limit target_level samples_per_ms;
          frame_size = nq_output_frame_size_samples nq1;
          count_expand = nq1\<lparr>nq_consecutive_expands := sat_incr (nq_consecutive_expands nq1)\<rparr>
      in if nq_leftover_time_stretched_samples nq1 \<noteq> [] then (OpTimeStretchBuffer, nq1)
         else if nq_consecutive_expands nq1 > 0 \<and> buffered < unat low then (OpExpand, count_expand)
         else if buffered < frame_size * 3 div 2 \<and> frame_size div 2 \<le> buffered \<and> nq_consecutive_expands nq1 = 0
         then (OpExpandStart, count_expand)
         else if buffered < frame_size then (OpExpand, count_expand)
         else if nq_consecutive_expands nq1 > 0
         then let nq2 = (if nq_consecutive_expands nq1 > 600 then neteq_reset now nq1 else nq1)
              in (OpExpandEnd, nq2\<lparr>nq_consecutive_expands := 0\<rparr>)
         else
           let level = filtered_current_level (nq_buffer_level_filter nq1)
           in if unat (push_bit 2 high) \<le> level then (OpFastAccelerate, nq1)
              else if unat high \<le> level then (OpAccelerate, nq1)
              else if level < unat low \<and> frame_size * 3 \<le> buffered then (OpPreemptiveExpand, nq1)
              else (OpNormal, nq1))"

section \<open>Filling frames\<close>

function decode_loop :: "'d decode_fn \<Rightarrow> nat \<Rightarrow> nat \<Rightarrow> audio_frame \<Rightarrow> 'd neteq \<Rightarrow> audio_frame \<times> 'd neteq" where
  "decode_loop dec samples_needed filled frame nq =
     (if filled < samples_needed
      then
        case pb_buffer (nq_packet_buffer nq) of
          packet # rest \<Rightarrow>
            let (samples, decoders) = packet_samples dec packet (nq_decoders nq);
                to_copy = min (samples_needed - filled) (length samples)
            in decode_loop dec samples_needed (filled + to_copy)
                 (frame\<lparr>af_samples := take filled (af_samples frame) @ take to_copy samples @
                                       drop (filled + to_copy) (af_samples frame),
                        af_speech_type := SpeechNormal, af_vad_activity := True\<rparr>)
                 (nq\<lparr>nq_packet_buffer := (nq_packet_buffer nq)\<lparr>pb_buffer := rest\<rparr>, nq_decoders := decoders,
                     nq_leftover_samples := nq_leftover_samples nq @ drop to_copy samples,
                     nq_last_decode_timestamp := Some (rh_timestamp (ap_header packet))\<rparr>)
        | [] \<Rightarrow>
            (frame\<lparr>af_samples := take filled (af_samples frame) @ replicate (length (af_samples frame) - filled) 0,
                   af_speech_type := SpeechExpand\<rparr>, nq)
      else (frame, nq))"
  by pat_completeness auto
termination
  by (relation "measure (\<lambda>(dec, samples_needed, filled, frame, nq). length (pb_buffer (nq_packet_buffer nq)))") auto

declare decode_loop.simps [simp del]

definition decode_normal :: "'d decode_fn \<Rightarrow> audio_frame \<Rightarrow> 'd neteq \<Rightarrow> audio_frame \<times> 'd neteq" where
  "decode_normal dec frame nq =
     (let samples_needed = length (af_samples frame);
          to_copy = min samples_needed (length (nq_leftover_samples nq))
      in decode_loop dec samples_needed to_copy
           (frame\<lparr>af_samples := take to_copy (nq_leftover_samples nq) @ drop to_copy (af_samples frame)\<rparr>)
           (nq\<lparr>nq_leftover_samples := drop to_copy (nq_leftover_samples nq)\<rparr>))"

text \<open>\<open>leftover_samples.splice(0..0, input[used..])\<close>, done only if there are unused samples.\<close>

definition put_back :: "nat \<Rightarrow> real list \<Rightarrow> 'd neteq \<Rightarrow> 'd neteq" where
  "put_back used input nq =
     (if used < length input then nq\<lparr>nq_leftover_samples := drop used input @ nq_leftover_samples nq\<rparr> else nq)"

text \<open>The lengths that \<open>decode_accelerate\<close> chooses: 30 ms of output if there is enough input, else 20 ms, else 10 ms.\<close>

definition accelerate_required :: "bool \<Rightarrow> nat \<Rightarrow> nat" where
  "accelerate_required fast_mode output_len =
     nat \<lceil>real output_len * (if fast_mode then 2 else 3 / 2)\<rceil>"

definition accelerate_lengths :: "bool \<Rightarrow> nat \<Rightarrow> nat \<Rightarrow> nat \<times> nat" where
  "accelerate_lengths fast_mode frame_size available =
     (let candidate = (\<lambda>i. (frame_size * i, accelerate_required fast_mode (frame_size * i)))
      in if snd (candidate 3) \<le> available then candidate 3
         else if snd (candidate 2) \<le> available then candidate 2
         else candidate 1)"

definition deliver :: "audio_frame \<Rightarrow> real list \<Rightarrow> 'd neteq \<Rightarrow> (audio_frame \<times> 'd neteq) option" where
  "deliver frame out nq =
     (let frame_len = length (af_samples frame)
      in if frame_len \<le> length out
         then Some (frame\<lparr>af_samples := take frame_len out\<rparr>,
                    nq\<lparr>nq_leftover_time_stretched_samples := nq_leftover_time_stretched_samples nq @ drop frame_len out\<rparr>)
         else None)"

definition i32_div :: "int \<Rightarrow> u8 \<Rightarrow> int" where
  "i32_div a channels = a sdiv uint channels"

definition decode_accelerate ::
  "'d decode_fn \<Rightarrow> audio_frame \<Rightarrow> bool \<Rightarrow> 'd neteq \<Rightarrow> (audio_frame \<times> 'd neteq) option" where
  "decode_accelerate dec frame fast_mode nq =
     (if \<not> nc_for_test_no_time_stretching (nq_config nq)
      then
        let config = nq_config nq;
            (output_len, required) = accelerate_lengths fast_mode (nq_output_frame_size_samples nq) (current_buffer_size_samples nq);
            (extended, nq1) = decode_normal dec (audio_frame_new (nc_sample_rate config) (nc_channels config) required) nq
        in do {
             (_, out, ac) \<leftarrow> accelerate_internal (af_samples extended)
               (af_samples (audio_frame_new (nc_sample_rate config) (nc_channels config) output_len)) fast_mode (nq_accelerate nq1);
             let used = ac_used_input_samples ac;
             let nq2 = put_back used (af_samples extended) (nq1\<lparr>nq_accelerate := ac\<rparr>);
             (frame1, nq3) \<leftarrow> deliver frame out nq2;
             let samples_removed = as_i32 (as_i32 (int used) - as_i32 (int (length out)));
             Some (frame1\<lparr>af_speech_type := SpeechNormal, af_vad_activity := af_vad_activity extended\<rparr>,
                   nq3\<lparr>nq_timestretch_added_samples :=
                         as_i32 (nq_timestretch_added_samples nq3 - i32_div samples_removed (nc_channels config)),
                       nq_statistics := time_stretch_operation StretchAccelerate (of_int samples_removed) (nq_statistics nq3)\<rparr>)
           }
      else Some (decode_normal dec frame nq))"

definition decode_preemptive_expand ::
  "'d decode_fn \<Rightarrow> audio_frame \<Rightarrow> 'd neteq \<Rightarrow> (audio_frame \<times> 'd neteq) option" where
  "decode_preemptive_expand dec frame nq =
     (if \<not> nc_for_test_no_time_stretching (nq_config nq)
      then
        let config = nq_config nq; spc = af_samples_per_channel frame * 3;
            (extended, nq1) = decode_normal dec (audio_frame_new (nc_sample_rate config) (nc_channels config) spc) nq
        in do {
             (_, out, px) \<leftarrow> expand_internal (af_samples extended)
               (af_samples (audio_frame_new (nc_sample_rate config) (nc_channels config) spc)) (nq_preemptive_expand nq1);
             let used = px_used_input_samples px;
             let nq2 = put_back used (af_samples extended) (nq1\<lparr>nq_preemptive_expand := px\<rparr>);
             (frame1, nq3) \<leftarrow> deliver frame out nq2;
             let samples_added = as_i32 (as_i32 (int (length out)) - as_i32 (int used));
             Some (frame1\<lparr>af_speech_type := SpeechNormal, af_vad_activity := af_vad_activity extended\<rparr>,
                   nq3\<lparr>nq_timestretch_added_samples :=
                         as_i32 (nq_timestretch_added_samples nq3 + i32_div samples_added (nc_channels config)),
                       nq_statistics := time_stretch_operation StretchPreemptiveExpand (of_int samples_added) (nq_statistics nq3)\<rparr>)
           }
      else Some (decode_normal dec frame nq))"

definition return_time_stretch_buffer :: "audio_frame \<Rightarrow> 'd neteq \<Rightarrow> (audio_frame \<times> 'd neteq) option" where
  "return_time_stretch_buffer frame nq =
     (if nq_leftover_time_stretched_samples nq \<noteq> []
      then
        let to_copy = length (af_samples frame)
        in if to_copy \<le> length (nq_leftover_time_stretched_samples nq)
           then Some (frame\<lparr>af_samples := take to_copy (nq_leftover_time_stretched_samples nq),
                            af_speech_type := SpeechNormal, af_vad_activity := True\<rparr>,
                      nq\<lparr>nq_leftover_time_stretched_samples := drop to_copy (nq_leftover_time_stretched_samples nq)\<rparr>)
           else None
      else Some (frame, nq))"

definition decode_expand :: "'d decode_fn \<Rightarrow> audio_frame \<Rightarrow> expand_phase \<Rightarrow> 'd neteq \<Rightarrow> (audio_frame \<times> 'd neteq) option" where
  "decode_expand dec frame phase nq =
     (let config = nq_config nq;
          (input, nq1) = decode_normal dec
            (audio_frame_new (nc_sample_rate config) (nc_channels config) (samples_required phase (nq_expand nq))) nq
      in do {
           (_, out, ex) \<leftarrow> expand_process (af_samples input) (af_samples frame) phase (nq_expand nq1);
           let nq2 = put_back (ex_used_input_samples ex) (af_samples input) (nq1\<lparr>nq_expand := ex\<rparr>);
           let n = (of_nat (af_samples_per_channel frame) :: u64);
           Some (frame\<lparr>af_samples := out, af_speech_type := SpeechExpand, af_vad_activity := False\<rparr>,
                 nq2\<lparr>nq_statistics := time_stretch_operation StretchExpand n
                                          (concealment_event n True (nq_statistics nq2))\<rparr>)
         })"

fun comfort_noise :: "nat \<Rightarrow> u64 \<Rightarrow> real list \<times> u64" where
  "comfort_noise 0 state = ([], state)"
| "comfort_noise (Suc n) state =
     (let (r, state1) = simple_random state; (rest, state2) = comfort_noise n state1
      in ((r - 1 / 2) * (5 / 1000000) # rest, state2))"

definition generate_comfort_noise :: "audio_frame \<Rightarrow> 'd neteq \<Rightarrow> audio_frame \<times> 'd neteq" where
  "generate_comfort_noise frame nq =
     (let (samples, state) = comfort_noise (length (af_samples frame)) (nq_rng_state nq)
      in (frame\<lparr>af_samples := samples, af_speech_type := SpeechCng, af_vad_activity := False\<rparr>, nq\<lparr>nq_rng_state := state\<rparr>))"

section \<open>Getting audio\<close>

definition new_output_frame :: "'d neteq \<Rightarrow> audio_frame" where
  "new_output_frame nq =
     audio_frame_new (nc_sample_rate (nq_config nq)) (nc_channels (nq_config nq))
       (nq_output_frame_size_samples nq div unat (nc_channels (nq_config nq)))"

definition bypass_audio :: "'d neteq \<Rightarrow> audio_frame \<times> 'd neteq" where
  "bypass_audio nq =
     (let samples_needed = nq_output_frame_size_samples nq;
          queued = take samples_needed (nq_bypass_audio_queue nq);
          silence = replicate (samples_needed - length queued) 0;
          filled = length queued + length silence
      in ((new_output_frame nq)
            \<lparr>af_samples := queued @ silence,
             af_speech_type := (if filled = samples_needed then SpeechNormal else SpeechExpand),
             af_vad_activity := (filled > 0)\<rparr>,
          nq\<lparr>nq_bypass_audio_queue := drop samples_needed (nq_bypass_audio_queue nq)\<rparr>))"

fun perform :: "'d decode_fn \<Rightarrow> operation \<Rightarrow> audio_frame \<Rightarrow> 'd neteq \<Rightarrow> (audio_frame \<times> 'd neteq) option" where
  "perform dec OpNormal frame nq = Some (decode_normal dec frame nq)"
| "perform dec OpAccelerate frame nq = decode_accelerate dec frame False nq"
| "perform dec OpFastAccelerate frame nq = decode_accelerate dec frame True nq"
| "perform dec OpPreemptiveExpand frame nq = decode_preemptive_expand dec frame nq"
| "perform dec OpTimeStretchBuffer frame nq = return_time_stretch_buffer frame nq"
| "perform dec OpExpand frame nq = decode_expand dec frame PhaseExpand nq"
| "perform dec OpExpandStart frame nq = decode_expand dec frame PhaseExpandStart nq"
| "perform dec OpExpandEnd frame nq = decode_expand dec frame PhaseExpandEnd nq"
| "perform dec OpMerge frame nq = Some (decode_normal dec frame nq)"
| "perform dec OpComfortNoise frame nq = Some (generate_comfort_noise frame nq)"
| "perform dec OpDtmf frame nq =
     Some (frame\<lparr>af_samples := replicate (length (af_samples frame)) 0, af_speech_type := SpeechExpand\<rparr>, nq)"
| "perform dec OpUndefined frame nq =
     Some (frame\<lparr>af_samples := replicate (length (af_samples frame)) 0, af_speech_type := SpeechExpand\<rparr>, nq)"

definition get_audio :: "'d decode_fn \<Rightarrow> instant \<Rightarrow> 'd neteq \<Rightarrow> (audio_frame \<times> 'd neteq) option" where
  "get_audio dec now nq =
     (let nq1 = maybe_roll_packet_rate now nq
      in if nc_bypass_mode (nq_config nq1) then Some (bypass_audio nq1)
         else
           let (op, nq2) = get_decision now nq1
           in do {
                (frame, nq3) \<leftarrow> perform dec op (new_output_frame nq1) (nq2\<lparr>nq_last_operation := op\<rparr>);
                stats \<leftarrow> record_decode_operation now op (nq_statistics nq3);
                Some (frame,
                      nq3\<lparr>nq_frame_timestamp := nq_frame_timestamp nq3 +
                            of_nat (af_samples_per_channel frame * unat (nc_channels (nq_config nq3))),
                          nq_statistics := jitter_buffer_delay (ucast (duration_ms frame))
                            (of_nat (af_samples_per_channel frame)) stats\<rparr>)
              })"

section \<open>Reading and adjusting\<close>

record neteq_stats =
  st_network :: network_statistics
  st_lifetime :: lifetime_statistics
  st_current_buffer_size_ms :: u32
  st_target_delay_ms :: u32
  st_packets_awaiting_decode :: nat
  st_packets_per_sec :: u32

definition get_statistics :: "'d neteq \<Rightarrow> neteq_stats" where
  "get_statistics nq =
     \<lparr>st_network = sc_network_stats (nq_statistics nq), st_lifetime = sc_lifetime_stats (nq_statistics nq),
      st_current_buffer_size_ms = current_buffer_size_ms nq, st_target_delay_ms = target_delay_ms (nq_delay_manager nq),
      st_packets_awaiting_decode = pb_len (nq_packet_buffer nq), st_packets_per_sec = nq_packets_per_sec_snapshot nq\<rparr>"

definition neteq_is_empty :: "'d neteq \<Rightarrow> bool" where
  "neteq_is_empty nq = pb_is_empty (nq_packet_buffer nq)"

definition neteq_set_minimum_delay :: "u32 \<Rightarrow> 'd neteq \<Rightarrow> u32 \<times> 'd neteq" where
  "neteq_set_minimum_delay delay_ms nq =
     (case set_minimum_delay delay_ms (nq_delay_manager nq) of (effective, dm) \<Rightarrow> (effective, nq\<lparr>nq_delay_manager := dm\<rparr>))"

definition neteq_set_maximum_delay :: "u32 \<Rightarrow> 'd neteq \<Rightarrow> u32 \<times> 'd neteq" where
  "neteq_set_maximum_delay delay_ms nq =
     (case set_maximum_delay delay_ms (nq_delay_manager nq) of (effective, dm) \<Rightarrow> (effective, nq\<lparr>nq_delay_manager := dm\<rparr>))"

definition register_decoder :: "u8 \<Rightarrow> 'd \<Rightarrow> 'd neteq \<Rightarrow> 'd neteq" where
  "register_decoder payload_type decoder nq = nq\<lparr>nq_decoders := (nq_decoders nq)(payload_type \<mapsto> decoder)\<rparr>"

end
