(* ===== verification/Neteq_Runs.thy ===== *)
theory Neteq_Runs
  imports Neteq_Engine
begin

text \<open>
  What the audio engine guarantees over whole runs: decoding takes samples from a queue in order, every call
  delivers one full frame without a panic, and the audio that waits to be played only ever loses a prefix.
\<close>

section \<open>The queue of samples\<close>

text \<open>The samples that the waiting packets will decode to, with the decoders in their present states.\<close>

fun decode_all :: "'d decode_fn \<Rightarrow> (u8 \<Rightarrow> 'd option) \<Rightarrow> audio_packet list \<Rightarrow> real list" where
  "decode_all dec decoders [] = []"
| "decode_all dec decoders (packet # rest) =
     (let (samples, decoders') = packet_samples dec packet decoders in samples @ decode_all dec decoders' rest)"

definition pending :: "'d decode_fn \<Rightarrow> 'd neteq \<Rightarrow> real list" where
  "pending dec nq = nq_leftover_samples nq @ decode_all dec (nq_decoders nq) (pb_buffer (nq_packet_buffer nq))"

text \<open>The abstract queue: take \<open>n\<close> samples, silence where there are none.\<close>

definition take_padded :: "nat \<Rightarrow> real list \<Rightarrow> real list" where
  "take_padded n q = take n q @ replicate (n - length q) 0"

lemma length_take_padded [simp]: "length (take_padded n q) = n"
  by (simp add: take_padded_def)

lemma take_padded_append:
  "length s \<le> n \<Longrightarrow> take_padded n (s @ q) = s @ take_padded (n - length s) q"
  by (simp add: take_padded_def)

lemma take_padded_short: "n \<le> length s \<Longrightarrow> take_padded n (s @ q) = take n s"
  by (simp add: take_padded_def)

text \<open>Decoding touches nothing but the packets, the decoders, the leftover samples and the last timestamp.\<close>

definition decoded_from :: "'d neteq \<Rightarrow> 'd neteq \<Rightarrow> bool" where
  "decoded_from nq nq' \<longleftrightarrow> (\<exists>k decoders leftover t. nq' =
     nq\<lparr>nq_packet_buffer := (nq_packet_buffer nq)\<lparr>pb_buffer := drop k (pb_buffer (nq_packet_buffer nq))\<rparr>,
        nq_decoders := decoders, nq_leftover_samples := leftover, nq_last_decode_timestamp := t\<rparr>)"

lemma decoded_from_refl: "decoded_from nq (nq\<lparr>nq_leftover_samples := l\<rparr>)"
  unfolding decoded_from_def
  by (intro exI [of _ 0] exI [of _ "nq_decoders nq"] exI [of _ l] exI [of _ "nq_last_decode_timestamp nq"]) simp

lemma decoded_from_same: "decoded_from nq nq"
  using decoded_from_refl [of nq "nq_leftover_samples nq"] by simp

lemma decoded_from_step:
  assumes "pb_buffer (nq_packet_buffer nq) = p # rest"
    and "decoded_from (nq\<lparr>nq_packet_buffer := (nq_packet_buffer nq)\<lparr>pb_buffer := rest\<rparr>, nq_decoders := d,
       nq_leftover_samples := l, nq_last_decode_timestamp := t\<rparr>) nq'"
  shows "decoded_from nq nq'"
proof -
  obtain k d' l' t' where "nq' = nq\<lparr>nq_packet_buffer := (nq_packet_buffer nq)\<lparr>pb_buffer := drop k rest\<rparr>,
      nq_decoders := d', nq_leftover_samples := l', nq_last_decode_timestamp := t'\<rparr>"
    using assms(2) by (auto simp: decoded_from_def)
  then show ?thesis
    unfolding decoded_from_def using assms(1)
    by (intro exI [of _ "Suc k"] exI [of _ d'] exI [of _ l'] exI [of _ t']) simp
qed

definition same_shape :: "audio_frame \<Rightarrow> audio_frame \<Rightarrow> bool" where
  "same_shape frame frame' \<longleftrightarrow> af_sample_rate frame' = af_sample_rate frame \<and> af_channels frame' = af_channels frame \<and>
     af_samples_per_channel frame' = af_samples_per_channel frame"

lemma decode_loop_spec:
  assumes "decode_loop dec m filled frame nq = (frame', nq')"
    and "length (af_samples frame) = m" and "filled \<le> m" and "filled < m \<longrightarrow> nq_leftover_samples nq = []"
  shows "af_samples frame' = take filled (af_samples frame) @ take_padded (m - filled) (pending dec nq) \<and>
    pending dec nq' = drop (m - filled) (pending dec nq) \<and> same_shape frame frame' \<and>
    decoded_from nq nq'"
  using assms
proof (induction dec m filled frame nq arbitrary: frame' nq' rule: decode_loop.induct)
  case (1 dec m filled frame nq)
  show ?case
  proof (cases "filled < m")
    case False
    then show ?thesis
      using "1.prems" decoded_from_same [of nq]
      by (simp add: decode_loop.simps take_padded_def same_shape_def)
  next
    case filled: True
    then have left: "nq_leftover_samples nq = []" using "1.prems"(4) by simp
    show ?thesis
    proof (cases "pb_buffer (nq_packet_buffer nq)")
      case Nil
      then show ?thesis
        using "1.prems" filled left decoded_from_same [of nq]
        by (auto simp: decode_loop.simps [of dec m filled] pending_def take_padded_def same_shape_def)
    next
      case (Cons packet rest)
      obtain samples decoders where ps: "packet_samples dec packet (nq_decoders nq) = (samples, decoders)" by fastforce
      define c where "c = min (m - filled) (length samples)"
      define frame1 where "frame1 = frame\<lparr>af_samples := take filled (af_samples frame) @ take c samples @
          drop (filled + c) (af_samples frame), af_speech_type := SpeechNormal, af_vad_activity := True\<rparr>"
      define nq1 where "nq1 = nq\<lparr>nq_packet_buffer := (nq_packet_buffer nq)\<lparr>pb_buffer := rest\<rparr>, nq_decoders := decoders,
          nq_leftover_samples := nq_leftover_samples nq @ drop c samples,
          nq_last_decode_timestamp := Some (rh_timestamp (ap_header packet))\<rparr>"
      have run: "decode_loop dec m (filled + c) frame1 nq1 = (frame', nq')"
        using "1.prems"(1) filled Cons ps
        by (simp add: decode_loop.simps [of dec m filled] frame1_def nq1_def c_def Let_def)
      have c: "c \<le> m - filled" "c \<le> length samples" "filled + c < m \<longrightarrow> c = length samples" by (auto simp: c_def)
      have IH: "af_samples frame' = take (filled + c) (af_samples frame1) @ take_padded (m - (filled + c)) (pending dec nq1) \<and>
          pending dec nq' = drop (m - (filled + c)) (pending dec nq1) \<and> same_shape frame1 frame' \<and> decoded_from nq1 nq'"
        by (rule "1.IH" [OF filled Cons ps [symmetric] refl c_def run [unfolded frame1_def nq1_def], folded frame1_def nq1_def])
          (use "1.prems"(2) filled c left in \<open>auto simp: frame1_def nq1_def\<close>)
      have pend: "pending dec nq = samples @ decode_all dec decoders rest"
          "pending dec nq1 = drop c samples @ decode_all dec decoders rest"
        using left Cons ps by (simp_all add: pending_def nq1_def)
      have prefix: "take (filled + c) (af_samples frame1) = take filled (af_samples frame) @ take c samples"
        using "1.prems"(2) c filled by (simp add: frame1_def)
      have "take c samples @ take_padded (m - (filled + c)) (pending dec nq1) = take_padded (m - filled) (pending dec nq)"
        using c take_padded_append [of "take c samples" "m - filled" "drop c samples @ decode_all dec decoders rest"]
        by (simp add: pend) (metis append.assoc append_take_drop_id diff_diff_left)
      moreover have "drop (m - (filled + c)) (pending dec nq1) = drop (m - filled) (pending dec nq)"
      proof -
        have "m - (filled + c) + c = m - filled" using c(1) filled by linarith
        moreover have "drop c (pending dec nq) = pending dec nq1" using c(2) by (simp add: pend)
        ultimately show ?thesis by (metis drop_drop)
      qed
      moreover have "decoded_from nq nq'" using decoded_from_step [OF Cons] IH unfolding nq1_def by blast
      moreover have "same_shape frame frame'" using IH by (simp add: same_shape_def frame1_def)
      ultimately show ?thesis using IH prefix by simp
    qed
  qed
qed

lemma decode_normal_spec:
  assumes "decode_normal dec frame nq = (frame', nq')"
  shows "af_samples frame' = take_padded (length (af_samples frame)) (pending dec nq) \<and>
    pending dec nq' = drop (length (af_samples frame)) (pending dec nq) \<and> same_shape frame frame' \<and>
    decoded_from nq nq'"
proof -
  define m where "m = length (af_samples frame)"
  define c where "c = min m (length (nq_leftover_samples nq))"
  define frame1 where "frame1 = frame\<lparr>af_samples := take c (nq_leftover_samples nq) @ drop c (af_samples frame)\<rparr>"
  define nq1 where "nq1 = nq\<lparr>nq_leftover_samples := drop c (nq_leftover_samples nq)\<rparr>"
  let ?l = "nq_leftover_samples nq" and ?rest = "decode_all dec (nq_decoders nq) (pb_buffer (nq_packet_buffer nq))"
  have c: "c \<le> m" "c \<le> length ?l" "c < m \<longrightarrow> c = length ?l" by (auto simp: c_def)
  have run: "decode_loop dec m c frame1 nq1 = (frame', nq')"
    using assms by (simp add: decode_normal_def m_def c_def frame1_def nq1_def Let_def)
  have spec: "af_samples frame' = take c (af_samples frame1) @ take_padded (m - c) (pending dec nq1) \<and>
      pending dec nq' = drop (m - c) (pending dec nq1) \<and> same_shape frame1 frame' \<and> decoded_from nq1 nq'"
    by (rule decode_loop_spec [OF run]) (use c in \<open>auto simp: frame1_def nq1_def m_def\<close>)
  have pend: "pending dec nq = ?l @ ?rest" "pending dec nq1 = drop c ?l @ ?rest" by (simp_all add: pending_def nq1_def)
  have "take c (af_samples frame1) = take c ?l" using c(2) by (simp add: frame1_def min_absorb2)
  moreover have "take c ?l @ take_padded (m - c) (pending dec nq1) = take_padded m (pending dec nq)"
    using c take_padded_append [of "take c ?l" m "drop c ?l @ ?rest"]
    by (simp add: pend) (metis append.assoc append_take_drop_id)
  moreover have "drop (m - c) (pending dec nq1) = drop m (pending dec nq)"
    using c drop_drop [of "m - c" c "pending dec nq"] by (simp add: pend)
  moreover have "decoded_from nq nq'"
    using spec unfolding decoded_from_def nq1_def by simp
  moreover have "same_shape frame frame'" using spec by (simp add: same_shape_def frame1_def)
  ultimately show ?thesis using spec unfolding m_def [symmetric] by simp
qed

section \<open>What an operation may rely on\<close>

lemma stats_counts [simp]:
  "sc_operation_counts (time_stretch_operation op n sc) = sc_operation_counts sc"
  "sc_operation_counts (concealment_event n b sc) = sc_operation_counts sc"
  "sc_operation_counts (jitter_buffer_delay a e sc) = sc_operation_counts sc"
  "sc_operation_counts (update_buffer_size c d sc) = sc_operation_counts sc"
  by (auto simp: time_stretch_operation_def concealment_event_def jitter_buffer_delay_def update_buffer_size_def
      Let_def split: stretch_kind.split)

lemma apply_stats_counts [simp]: "sc_operation_counts (apply_stats evs sc) = sc_operation_counts sc"
proof -
  have "sc_operation_counts (apply_stats_event ev s) = sc_operation_counts s" for ev s
    by (cases ev) (simp_all add: buffer_flush_def packet_discarded_def packet_reordered_def packet_in_order_def
        packet_arrived_def update_waiting_time_stats_def Let_def)
  then show ?thesis unfolding apply_stats_def by (induction evs arbitrary: sc) simp_all
qed

definition engine_ok :: "'d neteq \<Rightarrow> bool" where
  "engine_ok nq \<longleftrightarrow>
     1100 \<le> nc_sample_rate (nq_config nq) \<and> nc_channels (nq_config nq) \<noteq> 0 \<and>
     unat (nc_sample_rate (nq_config nq) div 100) * unat (nc_channels (nq_config nq)) =
       nq_output_frame_size_samples nq \<and>
     ac_overlap_length (nq_accelerate nq) = calculate_overlap_length (nc_sample_rate (nq_config nq)) \<and>
     px_overlap_length (nq_preemptive_expand nq) = calculate_overlap_length (nc_sample_rate (nq_config nq)) \<and>
     ex_overlap_length (nq_expand nq) = calculate_overlap_length (nc_sample_rate (nq_config nq)) \<and>
     nq_output_frame_size_samples nq dvd length (nq_leftover_time_stretched_samples nq) \<and>
     delay_ok (nq_delay_manager nq) \<and> length (sc_operation_counts (nq_statistics nq)) = 9 \<and>
     pb_inv (nq_packet_buffer nq)"

lemma pb_inv_drop: "pb_inv b \<Longrightarrow> pb_inv (b\<lparr>pb_buffer := drop k (pb_buffer b)\<rparr>)"
  using part_of_facts [OF part_of_drop [of k "pb_buffer b"]] by (auto simp: pb_inv_def pb_sorted_def)

lemma engine_ok_decoded:
  assumes "engine_ok nq" and "decoded_from nq nq'"
  shows "engine_ok nq'" and "nq_config nq' = nq_config nq" and "nq_accelerate nq' = nq_accelerate nq"
    and "nq_preemptive_expand nq' = nq_preemptive_expand nq" and "nq_expand nq' = nq_expand nq"
    and "nq_output_frame_size_samples nq' = nq_output_frame_size_samples nq"
    and "nq_leftover_time_stretched_samples nq' = nq_leftover_time_stretched_samples nq"
proof -
  obtain k d l t where "nq' = nq\<lparr>nq_packet_buffer := (nq_packet_buffer nq)\<lparr>pb_buffer := drop k (pb_buffer (nq_packet_buffer nq))\<rparr>,
      nq_decoders := d, nq_leftover_samples := l, nq_last_decode_timestamp := t\<rparr>"
    using assms(2) by (auto simp: decoded_from_def)
  then show "engine_ok nq'" "nq_config nq' = nq_config nq" "nq_accelerate nq' = nq_accelerate nq"
    "nq_preemptive_expand nq' = nq_preemptive_expand nq" "nq_expand nq' = nq_expand nq"
    "nq_output_frame_size_samples nq' = nq_output_frame_size_samples nq"
    "nq_leftover_time_stretched_samples nq' = nq_leftover_time_stretched_samples nq"
    using assms(1) pb_inv_drop [of "nq_packet_buffer nq" k] by (auto simp: engine_ok_def)
qed

text \<open>The waiting audio loses a prefix and may gain silence at its end.\<close>

definition consumes :: "real list \<Rightarrow> real list \<Rightarrow> bool" where
  "consumes before behind \<longleftrightarrow> (\<exists>k z. behind = drop k (before @ replicate z 0))"

lemma consumes_drop: "consumes q (drop k q)"
  unfolding consumes_def by (rule exI [of _ k], rule exI [of _ 0]) simp

lemma consumes_refl: "consumes q q"
  using consumes_drop [of q 0] by simp

lemma pending_put_back:
  assumes "input = take_padded r (pending dec nq)" and "pending dec nq1 = drop r (pending dec nq)" and "used \<le> r"
  shows "consumes (pending dec nq) (pending dec (put_back used input nq1))"
proof -
  let ?q = "pending dec nq"
  have all: "take_padded r ?q @ drop r ?q = ?q @ replicate (r - length ?q) 0"
    by (cases "length ?q \<le> r") (simp_all add: take_padded_def)
  have "pending dec (put_back used input nq1) = drop used input @ pending dec nq1"
    by (simp add: put_back_def pending_def)
  also have "\<dots> = drop used (input @ pending dec nq1)" using assms(1,3) by simp
  finally show ?thesis unfolding consumes_def using assms(1,2) all by metis
qed

lemma put_back_fields [simp]:
  "nq_config (put_back k xs nq) = nq_config nq"
  "nq_output_frame_size_samples (put_back k xs nq) = nq_output_frame_size_samples nq"
  "nq_leftover_time_stretched_samples (put_back k xs nq) = nq_leftover_time_stretched_samples nq"
  "engine_ok (put_back k xs nq) = engine_ok nq"
  "nq_statistics (put_back k xs nq) = nq_statistics nq"
  by (simp_all add: put_back_def engine_ok_def)

lemma pending_fields [simp]:
  "pending dec (nq\<lparr>nq_accelerate := ac\<rparr>) = pending dec nq"
  "pending dec (nq\<lparr>nq_preemptive_expand := px\<rparr>) = pending dec nq"
  "pending dec (nq\<lparr>nq_expand := ex\<rparr>) = pending dec nq"
  "pending dec (nq\<lparr>nq_statistics := sc\<rparr>) = pending dec nq"
  "pending dec (nq\<lparr>nq_timestretch_added_samples := n\<rparr>) = pending dec nq"
  "pending dec (nq\<lparr>nq_leftover_time_stretched_samples := l\<rparr>) = pending dec nq"
  "pending dec (nq\<lparr>nq_frame_timestamp := ft\<rparr>) = pending dec nq"
  "pending dec (nq\<lparr>nq_last_operation := op\<rparr>) = pending dec nq"
  "pending dec (nq\<lparr>nq_consecutive_expands := e\<rparr>) = pending dec nq"
  by (simp_all add: pending_def)

lemma engine_ok_fields [simp]:
  "engine_ok (nq\<lparr>nq_timestretch_added_samples := n\<rparr>) = engine_ok nq"
  "engine_ok (nq\<lparr>nq_frame_timestamp := ft\<rparr>) = engine_ok nq"
  "engine_ok (nq\<lparr>nq_last_operation := op\<rparr>) = engine_ok nq"
  "engine_ok (nq\<lparr>nq_consecutive_expands := e\<rparr>) = engine_ok nq"
  "engine_ok (nq\<lparr>nq_buffer_level_filter := f\<rparr>) = engine_ok nq"
  "engine_ok (nq\<lparr>nq_bypass_audio_queue := bq\<rparr>) = engine_ok nq"
  "engine_ok (nq\<lparr>nq_decoders := ds\<rparr>) = engine_ok nq"
  "engine_ok (nq\<lparr>nq_leftover_samples := ls\<rparr>) = engine_ok nq"
  "engine_ok (nq\<lparr>nq_packets_received_this_second := ps\<rparr>) = engine_ok nq"
  by (simp_all add: engine_ok_def)

lemma engine_ok_parts:
  "engine_ok nq \<Longrightarrow> nq_output_frame_size_samples nq dvd length l \<Longrightarrow>
     engine_ok (nq\<lparr>nq_leftover_time_stretched_samples := l\<rparr>)"
  "engine_ok nq \<Longrightarrow> ac_overlap_length ac = ac_overlap_length (nq_accelerate nq) \<Longrightarrow> engine_ok (nq\<lparr>nq_accelerate := ac\<rparr>)"
  "engine_ok nq \<Longrightarrow> px_overlap_length px = px_overlap_length (nq_preemptive_expand nq) \<Longrightarrow>
     engine_ok (nq\<lparr>nq_preemptive_expand := px\<rparr>)"
  "engine_ok nq \<Longrightarrow> ex_overlap_length ex = ex_overlap_length (nq_expand nq) \<Longrightarrow> engine_ok (nq\<lparr>nq_expand := ex\<rparr>)"
  "engine_ok nq \<Longrightarrow> length (sc_operation_counts sc) = 9 \<Longrightarrow> engine_ok (nq\<lparr>nq_statistics := sc\<rparr>)"
  "engine_ok nq \<Longrightarrow> delay_ok dm \<Longrightarrow> engine_ok (nq\<lparr>nq_delay_manager := dm\<rparr>)"
  "engine_ok nq \<Longrightarrow> pb_inv pb \<Longrightarrow> engine_ok (nq\<lparr>nq_packet_buffer := pb\<rparr>)"
  by (simp_all add: engine_ok_def)

lemma engine_ok_counts: "engine_ok nq \<Longrightarrow> length (sc_operation_counts (nq_statistics nq)) = 9"
  by (simp add: engine_ok_def)

text \<open>The result of an operation on a frame of the right size.\<close>

definition delivers :: "'d decode_fn \<Rightarrow> audio_frame \<Rightarrow> 'd neteq \<Rightarrow> (audio_frame \<times> 'd neteq) option \<Rightarrow> bool" where
  "delivers dec frame nq r \<longleftrightarrow> (\<exists>frame' nq'. r = Some (frame', nq') \<and>
     length (af_samples frame') = length (af_samples frame) \<and> same_shape frame frame' \<and> engine_ok nq' \<and>
     nq_config nq' = nq_config nq \<and> nq_output_frame_size_samples nq' = nq_output_frame_size_samples nq \<and>
     consumes (pending dec nq) (pending dec nq'))"

lemma deliversI:
  assumes "r = Some (frame1\<lparr>af_speech_type := st, af_vad_activity := v\<rparr>,
      nq3\<lparr>nq_timestretch_added_samples := d, nq_statistics := sc\<rparr>)"
    and "length (af_samples frame1) = length (af_samples frame)" and "same_shape frame frame1"
    and "engine_ok nq3" and "nq_config nq3 = nq_config nq"
    and "nq_output_frame_size_samples nq3 = nq_output_frame_size_samples nq"
    and "sc_operation_counts sc = sc_operation_counts (nq_statistics nq3)"
    and "consumes (pending dec nq) (pending dec nq3)"
  shows "delivers dec frame nq r"
proof -
  have "engine_ok (nq3\<lparr>nq_timestretch_added_samples := d, nq_statistics := sc\<rparr>)"
    by (rule engine_ok_parts(5)) (use assms(4,7) engine_ok_counts [OF assms(4)] in simp_all)
  then show ?thesis using assms by (simp add: delivers_def same_shape_def)
qed

lemma decode_normal_delivers:
  assumes "engine_ok nq"
  shows "delivers dec frame nq (Some (decode_normal dec frame nq))"
proof -
  obtain frame' nq' where run: "decode_normal dec frame nq = (frame', nq')" by fastforce
  note spec = decode_normal_spec [OF run]
  show ?thesis
    using run spec engine_ok_decoded [OF assms, of nq'] consumes_drop [of "pending dec nq"]
    by (simp add: delivers_def)
qed

lemma deliver_ok:
  assumes "engine_ok nq" and "length (af_samples frame) = nq_output_frame_size_samples nq"
    and "length out = nq_output_frame_size_samples nq * i" and "0 < i"
  shows "\<exists>frame' nq'. deliver frame out nq = Some (frame', nq') \<and> length (af_samples frame') = length (af_samples frame) \<and>
    same_shape frame frame' \<and> engine_ok nq' \<and> nq_config nq' = nq_config nq \<and>
    nq_output_frame_size_samples nq' = nq_output_frame_size_samples nq \<and> pending dec nq' = pending dec nq \<and>
    nq_statistics nq' = nq_statistics nq"
proof -
  let ?n = "nq_output_frame_size_samples nq"
  obtain j where "i = Suc j" using assms(4) by (cases i) auto
  then have len: "?n \<le> length out" "?n dvd length out - ?n" using assms(3) by simp_all
  have "?n dvd length (nq_leftover_time_stretched_samples nq) + (length out - ?n)"
    by (rule dvd_add [OF _ len(2)]) (use assms(1) in \<open>simp add: engine_ok_def\<close>)
  then have "?n dvd length (nq_leftover_time_stretched_samples nq @ drop ?n out)" by (simp only: length_append length_drop)
  from engine_ok_parts(1) [OF assms(1) this] show ?thesis using len(1) assms(2) by (simp add: deliver_def Let_def same_shape_def)
qed

section \<open>Every operation delivers\<close>

lemma overlap_bounds:
  assumes "1100 \<le> rate" and "channels \<noteq> 0"
  shows "32 \<le> calculate_overlap_length rate"
    and "calculate_overlap_length rate \<le> unat (rate div 100) * unat (channels :: u8) * 3"
proof -
  define r where "r = unat rate"
  have "unat (1100 :: u32) \<le> r" using assms(1) by (simp only: r_def word_le_nat_alt)
  then have r: "1100 \<le> r" by simp
  have "1 \<le> unat channels" using assms(2) by (simp add: Suc_leI unat_gt_0)
  define k where "k = r div 100 * unat channels"
  have k: "r div 100 \<le> k" using \<open>1 \<le> unat channels\<close> by (simp add: k_def)
  have "\<lfloor>real r * (3 / 1000)\<rfloor> = int (r * 3 div 1000)" using floor_divide_of_nat_eq [of "r * 3" 1000] by simp
  moreover have "11 \<le> r div 100" using div_le_mono [OF r, of 100] by simp
  moreover from this have "r * 3 div 1000 \<le> k * 3" "32 \<le> k * 3" using k by linarith+
  ultimately show "calculate_overlap_length rate \<le> unat (rate div 100) * unat channels * 3"
    by (simp add: calculate_overlap_length_def unat_div r_def [symmetric] k_def [symmetric])
qed (simp add: calculate_overlap_length_def)

lemma accelerate_room:
  assumes "2 \<le> overlap"
  shows "room_to_remove overlap (accelerate_required fast len * ch) (len * ch)"
proof -
  have "real len * (3 / 2) \<le> real (accelerate_required fast len)"
    unfolding accelerate_required_def by (simp; linarith)
  then have "3 * len \<le> 2 * accelerate_required fast len" by linarith
  then have "3 * (len * ch) \<le> 2 * (accelerate_required fast len * ch)" by (metis mult.assoc mult_le_mono1)
  then show ?thesis unfolding room_to_remove_def using assms by (intro conjI impI) linarith+
qed

lemma accelerate_lengths_cases:
  obtains i where "0 < i" "accelerate_lengths fast n available = (n * i, accelerate_required fast (n * i))"
proof -
  have "accelerate_lengths fast n available \<in> (\<lambda>i. (n * i, accelerate_required fast (n * i))) ` {1, 2, 3}"
    by (simp add: accelerate_lengths_def Let_def)
  then obtain i where "i \<in> {1, 2, 3}" "accelerate_lengths fast n available = (n * i, accelerate_required fast (n * i))"
    by (rule imageE)
  then show ?thesis using that [of i] by auto
qed

lemma frame_new_samples [simp]: "af_samples (audio_frame_new r ch k) = replicate (k * unat ch) 0"
  by (simp add: audio_frame_new_def)

lemma decode_accelerate_delivers:
  assumes "engine_ok nq" and "length (af_samples frame) = nq_output_frame_size_samples nq"
  shows "delivers dec frame nq (decode_accelerate dec frame fast nq)"
proof (cases "nc_for_test_no_time_stretching (nq_config nq)")
  case True
  then show ?thesis using decode_normal_delivers [OF assms(1)] by (simp add: decode_accelerate_def)
next
  case False
  let ?c = "nq_config nq" and ?n = "nq_output_frame_size_samples nq"
  obtain i where i: "0 < i" "accelerate_lengths fast ?n (current_buffer_size_samples nq) = (?n * i, accelerate_required fast (?n * i))"
    by (rule accelerate_lengths_cases)
  define r where "r = accelerate_required fast (?n * i)"
  obtain ext nq1 where dn: "decode_normal dec (audio_frame_new (nc_sample_rate ?c) (nc_channels ?c) r) nq = (ext, nq1)" by fastforce
  note spec = decode_normal_spec [OF dn, simplified]
  note same = engine_ok_decoded [OF assms(1), of nq1]
  from spec have dec: "decoded_from nq nq1" by blast
  have ok1: "engine_ok nq1" "nq_config nq1 = ?c" "nq_output_frame_size_samples nq1 = ?n"
    using same dec by blast+
  have ov: "2 \<le> ac_overlap_length (nq_accelerate nq1)" "ac_overlap_length (nq_accelerate nq1) = calculate_overlap_length (nc_sample_rate ?c)"
    using overlap_bounds(1) [of "nc_sample_rate ?c" "nc_channels ?c"] assms(1) same spec by (auto simp: engine_ok_def)
  obtain res out ac where acc: "accelerate_internal (af_samples ext) (replicate (?n * i * unat (nc_channels ?c)) 0) fast (nq_accelerate nq1) = Some (res, out, ac)"
      "length out = ?n * i * unat (nc_channels ?c)" "ac_overlap_length ac = ac_overlap_length (nq_accelerate nq1)"
      "ac_used_input_samples ac \<le> length (af_samples ext)"
    using accelerate_ok [of "nq_accelerate nq1" "af_samples ext" "replicate (?n * i * unat (nc_channels ?c)) 0" fast]
      accelerate_room [OF ov(1), of fast "?n * i" "unat (nc_channels ?c)"] spec by (auto simp: r_def)
  let ?nq2 = "put_back (ac_used_input_samples ac) (af_samples ext) (nq1\<lparr>nq_accelerate := ac\<rparr>)"
  have "engine_ok ?nq2" using engine_ok_parts(2) [OF ok1(1) acc(3)] by simp
  moreover have "0 < i * unat (nc_channels ?c)" using i(1) assms(1) by (simp add: engine_ok_def unat_gt_0)
  ultimately obtain frame1 nq3 where del: "deliver frame out ?nq2 = Some (frame1, nq3)" "length (af_samples frame1) = length (af_samples frame)"
      "same_shape frame frame1" "engine_ok nq3" "nq_config nq3 = ?c" "nq_output_frame_size_samples nq3 = ?n"
      "pending dec nq3 = pending dec ?nq2"
    using deliver_ok [of ?nq2 frame out "i * unat (nc_channels ?c)" dec] assms(2) acc(2) ok1 by (auto simp: mult.assoc)
  define removed where "removed = as_i32 (as_i32 (int (ac_used_input_samples ac)) - as_i32 (int (length out)))"
  have run: "decode_accelerate dec frame fast nq = Some (frame1\<lparr>af_speech_type := SpeechNormal, af_vad_activity := af_vad_activity ext\<rparr>,
      nq3\<lparr>nq_timestretch_added_samples := as_i32 (nq_timestretch_added_samples nq3 - i32_div removed (nc_channels ?c)),
        nq_statistics := time_stretch_operation StretchAccelerate (of_int removed) (nq_statistics nq3)\<rparr>)"
    by (simp add: decode_accelerate_def False removed_def i(2) dn [unfolded r_def] acc(1) del(1) Let_def)
  have cons: "consumes (pending dec nq) (pending dec ?nq2)"
    by (rule pending_put_back [where r = "r * unat (nc_channels ?c)"]) (use spec acc(4) in simp_all)
  show ?thesis by (rule deliversI [OF run del(2-6)]) (simp_all add: del(7) cons)
qed

lemma decode_preemptive_expand_delivers:
  assumes "engine_ok nq" and "length (af_samples frame) = nq_output_frame_size_samples nq"
    and "af_samples_per_channel frame * unat (nc_channels (nq_config nq)) = nq_output_frame_size_samples nq"
  shows "delivers dec frame nq (decode_preemptive_expand dec frame nq)"
proof (cases "nc_for_test_no_time_stretching (nq_config nq)")
  case True
  then show ?thesis using decode_normal_delivers [OF assms(1)] by (simp add: decode_preemptive_expand_def)
next
  case False
  let ?c = "nq_config nq" and ?n = "nq_output_frame_size_samples nq"
  define spc where "spc = af_samples_per_channel frame * 3"
  have len: "spc * unat (nc_channels ?c) = ?n * 3" using assms(3) by (simp add: spc_def)
  obtain ext nq1 where dn: "decode_normal dec (audio_frame_new (nc_sample_rate ?c) (nc_channels ?c) spc) nq = (ext, nq1)" by fastforce
  note spec = decode_normal_spec [OF dn, simplified]
  from spec have dec: "decoded_from nq nq1" by blast
  note ok1 = engine_ok_decoded [OF assms(1) dec]
  have ov: "2 \<le> px_overlap_length (nq_preemptive_expand nq1)" "px_overlap_length (nq_preemptive_expand nq1) \<le> ?n * 3"
    using overlap_bounds [of "nc_sample_rate ?c" "nc_channels ?c"] assms(1) ok1(4) by (auto simp: engine_ok_def)
  obtain res out px where ex: "expand_internal (af_samples ext) (replicate (?n * 3) 0) (nq_preemptive_expand nq1) = Some (res, out, px)"
      "length out = ?n * 3" "px_overlap_length px = px_overlap_length (nq_preemptive_expand nq1)"
      "px_used_input_samples px \<le> length (af_samples ext)"
    using expand_internal_ok [of "nq_preemptive_expand nq1" "replicate (?n * 3) 0" "af_samples ext"] ov by auto
  let ?nq2 = "put_back (px_used_input_samples px) (af_samples ext) (nq1\<lparr>nq_preemptive_expand := px\<rparr>)"
  have "engine_ok ?nq2" using engine_ok_parts(3) [OF ok1(1) ex(3)] by simp
  then obtain frame1 nq3 where del: "deliver frame out ?nq2 = Some (frame1, nq3)" "length (af_samples frame1) = length (af_samples frame)"
      "same_shape frame frame1" "engine_ok nq3" "nq_config nq3 = ?c" "nq_output_frame_size_samples nq3 = ?n"
      "pending dec nq3 = pending dec ?nq2"
    using deliver_ok [of ?nq2 frame out 3 dec] assms(2) ex(2) ok1 by auto
  define added where "added = as_i32 (as_i32 (int (length out)) - as_i32 (int (px_used_input_samples px)))"
  have run: "decode_preemptive_expand dec frame nq = Some (frame1\<lparr>af_speech_type := SpeechNormal, af_vad_activity := af_vad_activity ext\<rparr>,
      nq3\<lparr>nq_timestretch_added_samples := as_i32 (nq_timestretch_added_samples nq3 + i32_div added (nc_channels ?c)),
        nq_statistics := time_stretch_operation StretchPreemptiveExpand (of_int added) (nq_statistics nq3)\<rparr>)"
    by (simp add: decode_preemptive_expand_def False added_def dn [unfolded spc_def] len [unfolded spc_def] ex(1) del(1) Let_def)
  have cons: "consumes (pending dec nq) (pending dec ?nq2)"
    by (rule pending_put_back [where r = "spc * unat (nc_channels ?c)"]) (use spec ex(4) in simp_all)
  show ?thesis by (rule deliversI [OF run del(2-6)]) (simp_all add: del(7) cons)
qed

lemma decode_expand_delivers:
  assumes "engine_ok nq"
  shows "delivers dec frame nq (decode_expand dec frame phase nq)"
proof -
  let ?c = "nq_config nq"
  define k where "k = samples_required phase (nq_expand nq)"
  obtain input nq1 where dn: "decode_normal dec (audio_frame_new (nc_sample_rate ?c) (nc_channels ?c) k) nq = (input, nq1)" by fastforce
  note spec = decode_normal_spec [OF dn, simplified]
  from spec have dec: "decoded_from nq nq1" by blast
  note ok1 = engine_ok_decoded [OF assms(1) dec]
  obtain res out ex where ex: "expand_process (af_samples input) (af_samples frame) phase (nq_expand nq1) = Some (res, out, ex)"
      "length out = length (af_samples frame)" "ex_overlap_length ex = ex_overlap_length (nq_expand nq1)"
      "ex_used_input_samples ex \<le> length (af_samples input)"
    using expand_process_ok [of "af_samples input" "af_samples frame" phase "nq_expand nq1"] by auto
  let ?nq2 = "put_back (ex_used_input_samples ex) (af_samples input) (nq1\<lparr>nq_expand := ex\<rparr>)"
  have ok2: "engine_ok ?nq2" using engine_ok_parts(4) [OF ok1(1) ex(3)] by simp
  have "consumes (pending dec nq) (pending dec ?nq2)"
    by (rule pending_put_back [where r = "k * unat (nc_channels ?c)"]) (use spec ex(4) in simp_all)
  moreover have "?nq2 = ?nq2\<lparr>nq_timestretch_added_samples := nq_timestretch_added_samples ?nq2\<rparr>" by simp
  ultimately show ?thesis
    using engine_ok_parts(5) [OF ok2] engine_ok_counts [OF ok2] ex(2) ok1(2,6)
    by (simp add: delivers_def decode_expand_def dn [unfolded k_def] ex(1) same_shape_def Let_def)
qed

lemma return_time_stretch_buffer_delivers:
  assumes "engine_ok nq" and "length (af_samples frame) = nq_output_frame_size_samples nq"
  shows "delivers dec frame nq (return_time_stretch_buffer frame nq)"
proof (cases "nq_leftover_time_stretched_samples nq = []")
  case True
  then show ?thesis
    using assms(1) consumes_refl by (simp add: delivers_def return_time_stretch_buffer_def same_shape_def)
next
  case False
  let ?n = "nq_output_frame_size_samples nq" and ?l = "nq_leftover_time_stretched_samples nq"
  have dvd: "?n dvd length ?l" using assms(1) by (simp add: engine_ok_def)
  then have "?n \<le> length ?l" using False by (simp add: dvd_imp_le)
  moreover have "engine_ok (nq\<lparr>nq_leftover_time_stretched_samples := drop ?n ?l\<rparr>)"
    by (rule engine_ok_parts(1) [OF assms(1)]) (use dvd in simp)
  ultimately show ?thesis
    using False assms(2) consumes_refl by (simp add: delivers_def return_time_stretch_buffer_def same_shape_def Let_def)
qed

section \<open>Decisions and frames\<close>

lemma reset_ok: "engine_ok nq \<Longrightarrow> engine_ok (neteq_reset now nq)"
  by (simp add: neteq_reset_def engine_ok_def delay_ok_def delay_manager_reset_def tracker_reset_def)

lemma reset_fields [simp]:
  "nq_config (neteq_reset now nq) = nq_config nq"
  "nq_output_frame_size_samples (neteq_reset now nq) = nq_output_frame_size_samples nq"
  "pending dec (neteq_reset now nq) = pending dec nq"
  "nq_statistics (neteq_reset now nq) = nq_statistics nq"
  by (simp_all add: neteq_reset_def pending_def)

lemma get_decision_ok:
  assumes "engine_ok nq" and "get_decision now nq = (op, nq')"
  shows "engine_ok nq' \<and> nq_config nq' = nq_config nq \<and>
    nq_output_frame_size_samples nq' = nq_output_frame_size_samples nq \<and> pending dec nq' = pending dec nq \<and>
    operation_index op < 9 \<and> nq_statistics nq' = nq_statistics nq"
proof -
  define nq1 where "nq1 = nq\<lparr>nq_buffer_level_filter := level_filter_update (current_buffer_size_samples nq)
      (- nq_timestretch_added_samples nq)
      (set_target_buffer_level (target_delay_ms (nq_delay_manager nq)) (nq_buffer_level_filter nq)),
      nq_timestretch_added_samples := 0\<rparr>"
  have ok1: "engine_ok nq1" using assms(1) by (simp add: nq1_def)
  have same: "nq_config nq1 = nq_config nq" "nq_output_frame_size_samples nq1 = nq_output_frame_size_samples nq"
      "pending dec nq1 = pending dec nq" "nq_statistics nq1 = nq_statistics nq"
    by (simp_all add: nq1_def pending_def)
  have "operation_index op < 9 \<and> (\<exists>e. nq' = nq1\<lparr>nq_consecutive_expands := e\<rparr> \<or> nq' = (neteq_reset now nq1)\<lparr>nq_consecutive_expands := e\<rparr>)"
    using assms(2) unfolding get_decision_def Let_def nq1_def [symmetric]
    by (auto split: if_splits intro: exI [of _ "nq_consecutive_expands nq1"])
  then show ?thesis
    using ok1 same reset_ok [OF ok1, of now] by auto
qed

lemma perform_delivers:
  assumes "engine_ok nq" and "length (af_samples frame) = nq_output_frame_size_samples nq"
    and "af_samples_per_channel frame * unat (nc_channels (nq_config nq)) = nq_output_frame_size_samples nq"
    and "operation_index op < 9"
  shows "delivers dec frame nq (perform dec op frame nq)"
  using assms(4)
  by (cases op) (simp_all add: decode_normal_delivers decode_accelerate_delivers decode_preemptive_expand_delivers
      decode_expand_delivers return_time_stretch_buffer_delivers assms(1-3))

lemma new_output_frame_size:
  assumes "engine_ok nq"
  shows "length (af_samples (new_output_frame nq)) = nq_output_frame_size_samples nq"
    and "af_samples_per_channel (new_output_frame nq) * unat (nc_channels (nq_config nq)) = nq_output_frame_size_samples nq"
proof -
  have "unat (nc_channels (nq_config nq)) dvd nq_output_frame_size_samples nq"
    using assms dvd_triv_right [of "unat (nc_channels (nq_config nq))" "unat (nc_sample_rate (nq_config nq) div 100)"]
    by (simp add: engine_ok_def)
  then show "length (af_samples (new_output_frame nq)) = nq_output_frame_size_samples nq"
    "af_samples_per_channel (new_output_frame nq) * unat (nc_channels (nq_config nq)) = nq_output_frame_size_samples nq"
    by (simp_all add: new_output_frame_def audio_frame_new_def)
qed

lemma roll_ok:
  "engine_ok (maybe_roll_packet_rate now nq) = engine_ok nq"
  "nq_config (maybe_roll_packet_rate now nq) = nq_config nq"
  "nq_output_frame_size_samples (maybe_roll_packet_rate now nq) = nq_output_frame_size_samples nq"
  "pending dec (maybe_roll_packet_rate now nq) = pending dec nq"
  "new_output_frame (maybe_roll_packet_rate now nq) = new_output_frame nq"
  by (simp_all add: maybe_roll_packet_rate_def engine_ok_def pending_def new_output_frame_def)

lemma record_operation_ok:
  assumes "length (sc_operation_counts sc) = 9" and "operation_index op < 9"
  shows "\<exists>sc'. record_decode_operation now op sc = Some sc' \<and> length (sc_operation_counts sc') = 9"
  using assms by (simp add: record_decode_operation_def update_operation_rates_def Let_def)

lemma get_audio_ok:
  assumes "engine_ok nq"
  shows "\<exists>frame nq'. get_audio dec now nq = Some (frame, nq') \<and> engine_ok nq' \<and> nq_config nq' = nq_config nq \<and>
    length (af_samples frame) = nq_output_frame_size_samples nq \<and> same_shape (new_output_frame nq) frame \<and>
    consumes (pending dec nq) (pending dec nq')"
proof -
  define nq1 where "nq1 = maybe_roll_packet_rate now nq"
  have nq1: "engine_ok nq1" "nq_config nq1 = nq_config nq" "nq_output_frame_size_samples nq1 = nq_output_frame_size_samples nq"
      "pending dec nq1 = pending dec nq" "new_output_frame nq1 = new_output_frame nq"
    using assms by (simp_all add: nq1_def roll_ok)
  show ?thesis
  proof (cases "nc_bypass_mode (nq_config nq1)")
    case True
    then show ?thesis
      using nq1 consumes_refl [of "pending dec nq"]
      by (simp add: get_audio_def nq1_def [symmetric] bypass_audio_def Let_def same_shape_def pending_def)
  next
    case False
    obtain op nq2 where dec: "get_decision now nq1 = (op, nq2)" by fastforce
    note d = get_decision_ok [OF nq1(1) dec, of dec]
    let ?nq2 = "nq2\<lparr>nq_last_operation := op\<rparr>"
    have "delivers dec (new_output_frame nq1) ?nq2 (perform dec op (new_output_frame nq1) ?nq2)"
      by (rule perform_delivers) (use d new_output_frame_size [OF nq1(1)] in simp_all)
    then obtain frame nq3 where p: "perform dec op (new_output_frame nq1) ?nq2 = Some (frame, nq3)"
        "length (af_samples frame) = nq_output_frame_size_samples nq1" "same_shape (new_output_frame nq1) frame"
        "engine_ok nq3" "nq_config nq3 = nq_config nq1" "consumes (pending dec nq1) (pending dec nq3)"
      using d new_output_frame_size [OF nq1(1)] by (auto simp: delivers_def)
    obtain sc where sc: "record_decode_operation now op (nq_statistics nq3) = Some sc" "length (sc_operation_counts sc) = 9"
      using record_operation_ok [of "nq_statistics nq3" op now] engine_ok_counts [OF p(4)] d by blast
    have "engine_ok (nq3\<lparr>nq_frame_timestamp := t, nq_statistics := jitter_buffer_delay a b sc\<rparr>)" for t a b
      by (rule engine_ok_parts(5)) (use p(4) sc(2) in simp_all)
    then show ?thesis
      using p nq1 False dec sc(1) by (simp add: get_audio_def nq1_def [symmetric] Let_def)
  qed
qed

section \<open>Runs\<close>

lemma delay_manager_update_inv:
  assumes "delay_ok dm" and "rate \<noteq> 0"
  shows "\<exists>dm'. delay_manager_update now t rate False dm = Some dm' \<and> delay_ok dm'"
  using delay_manager_update_ok [OF assms, of now t False] by auto

lemma insert_packet_ok:
  assumes "engine_ok nq" and "ap_sample_rate packet \<noteq> 0"
  shows "\<exists>nq'. neteq_insert_packet dec now packet nq = Some nq' \<and> engine_ok nq' \<and> nq_config nq' = nq_config nq"
proof -
  define nq1 where "nq1 = maybe_roll_packet_rate now
      (nq\<lparr>nq_packets_received_this_second := sat_incr (nq_packets_received_this_second nq)\<rparr>)"
  have nq1: "engine_ok nq1" "nq_config nq1 = nq_config nq"
    using assms(1) by (simp_all add: nq1_def roll_ok)
  show ?thesis
  proof (cases "nc_bypass_mode (nq_config nq)")
    case True
    then show ?thesis
      using nq1 by (auto simp: neteq_insert_packet_def nq1_def [symmetric] bypass_insert_def Let_def
          split: option.split prod.split)
  next
    case False
    have inv: "delay_ok (nq_delay_manager nq1)" "pb_inv (nq_packet_buffer nq1)" using nq1(1) by (simp_all add: engine_ok_def)
    obtain dm where dm: "delay_manager_update now (rh_timestamp (ap_header packet)) (ap_sample_rate packet) False (nq_delay_manager nq1) = Some dm"
        "delay_ok dm"
      using delay_manager_update_inv [OF inv(1) assms(2)] by blast
    obtain pb where "pb_step (nq_packet_buffer nq1) (PInsert now packet (target_delay_ms dm)) = Some pb" "pb_inv pb"
      using pb_inv_step [OF inv(2), of "PInsert now packet (target_delay_ms dm)"] assms(2) by auto
    then obtain rc evs where ins: "insert_packet now packet (target_delay_ms dm) (nq_packet_buffer nq1) = Some (rc, pb, evs)" "pb_inv pb"
      by auto
    have "engine_ok (nq1\<lparr>nq_delay_manager := dm, nq_packet_buffer := pb, nq_statistics := sc\<rparr>)"
      if "length (sc_operation_counts sc) = 9" for sc
      by (intro engine_ok_parts(5-7) that) (use nq1(1) dm(2) ins(2) in simp_all)
    then show ?thesis
      using False nq1 dm(1) ins(1) engine_ok_counts [OF nq1(1)]
      by (simp add: neteq_insert_packet_def nq1_def [symmetric] Let_def)
  qed
qed

datatype 'd neteq_event =
    NqPacket instant audio_packet
  | NqAudio instant
  | NqFlush instant
  | NqSetMin u32
  | NqSetMax u32
  | NqRegister u8 'd

text \<open>A step also collects the frames that were delivered.\<close>

fun neteq_step :: "'d decode_fn \<Rightarrow> ('d neteq \<times> audio_frame list) option \<Rightarrow> 'd neteq_event \<Rightarrow>
    ('d neteq \<times> audio_frame list) option" where
  "neteq_step dec None ev = None"
| "neteq_step dec (Some (nq, frames)) (NqPacket now packet) =
     map_option (\<lambda>nq'. (nq', frames)) (neteq_insert_packet dec now packet nq)"
| "neteq_step dec (Some (nq, frames)) (NqAudio now) =
     map_option (\<lambda>(frame, nq'). (nq', frames @ [frame])) (get_audio dec now nq)"
| "neteq_step dec (Some (nq, frames)) (NqFlush now) = Some (neteq_flush now nq, frames)"
| "neteq_step dec (Some (nq, frames)) (NqSetMin d) = Some (snd (neteq_set_minimum_delay d nq), frames)"
| "neteq_step dec (Some (nq, frames)) (NqSetMax d) = Some (snd (neteq_set_maximum_delay d nq), frames)"
| "neteq_step dec (Some (nq, frames)) (NqRegister pt decoder) = Some (register_decoder pt decoder nq, frames)"

fun packet_has_rate :: "'d neteq_event \<Rightarrow> bool" where
  "packet_has_rate (NqPacket now packet) = (ap_sample_rate packet \<noteq> 0)"
| "packet_has_rate ev = True"

fun is_audio_request :: "'d neteq_event \<Rightarrow> bool" where
  "is_audio_request (NqAudio now) = True"
| "is_audio_request ev = False"

definition full_frame :: "neteq_config \<Rightarrow> audio_frame \<Rightarrow> bool" where
  "full_frame config frame \<longleftrightarrow>
     length (af_samples frame) = unat (nc_sample_rate config div 100) * unat (nc_channels config) \<and>
     af_sample_rate frame = nc_sample_rate config \<and> af_channels frame = nc_channels config"

definition playing :: "neteq_config \<Rightarrow> ('d neteq \<times> audio_frame list) option \<Rightarrow> bool" where
  "playing config s \<longleftrightarrow> (\<exists>nq frames. s = Some (nq, frames) \<and> engine_ok nq \<and> nq_config nq = config \<and>
     list_all (full_frame config) frames)"

lemma flush_ok:
  assumes "engine_ok nq"
  shows "engine_ok (neteq_flush now nq)" and "nq_config (neteq_flush now nq) = nq_config nq"
proof -
  obtain pb evs where f: "pb_flush (nq_packet_buffer nq) = (pb, evs)" by fastforce
  then have "pb = (nq_packet_buffer nq)\<lparr>pb_buffer := drop (length (pb_buffer (nq_packet_buffer nq))) (pb_buffer (nq_packet_buffer nq))\<rparr>"
    by (simp add: pb_flush_def Let_def)
  then have "pb_inv pb" using pb_inv_drop assms by (simp only: engine_ok_def)
  from engine_ok_parts(5) [OF engine_ok_parts(7) [OF assms this], of "apply_stats evs (nq_statistics nq)"]
  show "engine_ok (neteq_flush now nq)" "nq_config (neteq_flush now nq) = nq_config nq"
    using engine_ok_counts [OF assms] f by (auto simp: neteq_flush_def intro!: reset_ok)
qed

lemma delay_setters_ok:
  assumes "delay_ok dm"
  shows "delay_ok (snd (set_minimum_delay d dm))" and "delay_ok (snd (set_maximum_delay d dm))"
  using delay_inv_step [of "Some dm" "DmSetMin d"] delay_inv_step [of "Some dm" "DmSetMax d"] assms
  by (simp_all add: delay_inv_def)

lemma set_delay_ok:
  assumes "engine_ok nq"
  shows "engine_ok (snd (neteq_set_minimum_delay d nq))" and "engine_ok (snd (neteq_set_maximum_delay d nq))"
    and "nq_config (snd (neteq_set_minimum_delay d nq)) = nq_config nq"
    and "nq_config (snd (neteq_set_maximum_delay d nq)) = nq_config nq"
  using delay_setters_ok [of "nq_delay_manager nq" d] assms
  by (auto simp: neteq_set_minimum_delay_def neteq_set_maximum_delay_def engine_ok_def split: prod.splits)

lemma neteq_step_ok:
  assumes "playing config s" and "packet_has_rate ev"
  shows "playing config (neteq_step dec s ev)"
proof -
  obtain nq frames where s: "s = Some (nq, frames)" "engine_ok nq" "nq_config nq = config" "list_all (full_frame config) frames"
    using assms(1) by (auto simp: playing_def)
  show ?thesis
  proof (cases ev)
    case (NqPacket now packet)
    then show ?thesis using insert_packet_ok [OF s(2), of packet dec now] assms(2) s by (auto simp: playing_def)
  next
    case (NqAudio now)
    obtain frame nq' where a: "get_audio dec now nq = Some (frame, nq')" "engine_ok nq'" "nq_config nq' = config"
        "length (af_samples frame) = nq_output_frame_size_samples nq" "same_shape (new_output_frame nq) frame"
      using get_audio_ok [OF s(2), of dec now] s(3) by auto
    then have "full_frame config frame"
      using s(2,3) by (auto simp: full_frame_def same_shape_def new_output_frame_def audio_frame_new_def engine_ok_def)
    then show ?thesis using a s NqAudio by (simp add: playing_def)
  next
    case (NqFlush now)
    then show ?thesis
      using s flush_ok [OF s(2), of now] by (simp add: playing_def)
  qed (use s set_delay_ok [OF s(2)] in \<open>auto simp: playing_def register_decoder_def\<close>)
qed

interpretation playout: invariant_system "neteq_step dec" "playing config" packet_has_rate for dec config
  by unfold_locales (rule neteq_step_ok)

lemma new_engine_ok:
  assumes "neteq_new now rng config = Inr nq" and "1100 \<le> nc_sample_rate config" and "config_ok (nc_delay_config config)"
    and "2 \<le> nc_max_packets_in_buffer config" and "nc_max_packets_in_buffer config * 15 < 2 ^ 32"
  shows "playing config (Some (nq, []))"
proof -
  let ?b = "of_nat (nc_max_packets_in_buffer config * 20 * 3 div 4) :: u32"
  have quarter: "nc_max_packets_in_buffer config * 20 * 3 div 4 = nc_max_packets_in_buffer config * 15" by simp
  have "unat ?b = nc_max_packets_in_buffer config * 15"
    unfolding quarter unat_of_nat using assms(5) by simp
  then have "20 \<le> ?b" using assms(4) by (simp add: word_le_nat_alt)
  then have "delay_ok (delay_manager_new ((nc_delay_config config)\<lparr>dc_base_minimum_delay_ms := K_BASE_MIN_DELAY_MS,
      dc_base_maximum_delay_ms := ?b, dc_additional_delay_ms := nc_additional_delay_ms config\<rparr>))"
    by (intro delay_ok_new) (use assms(3) in \<open>simp_all add: config_ok_def K_BASE_MIN_DELAY_MS_def\<close>)
  then have "delay_ok (initial_delay_manager config)"
    by (simp add: initial_delay_manager_def Let_def delay_setters_ok)
  then show ?thesis
    using assms(1,2,4)
    by (auto simp: neteq_new_def playing_def engine_ok_def accelerate_new_def preemptive_expand_new_def expand_new_def
        statistics_new_def pb_inv_def pb_sorted_def packet_buffer_with_config_def split: if_splits)
qed

lemma frames_counted:
  "foldl (neteq_step dec) (Some (nq, fs)) evs = Some (nq', frames) \<Longrightarrow>
   length frames = length fs + length (filter is_audio_request evs)"
proof (induction evs arbitrary: nq fs)
  case (Cons ev evs)
  have "foldl (neteq_step dec) None evs = None" by (induction evs) simp_all
  then obtain nq1 fs1 where st: "neteq_step dec (Some (nq, fs)) ev = Some (nq1, fs1)"
    using Cons.prems by (cases "neteq_step dec (Some (nq, fs)) ev") auto
  then have "length fs1 = length fs + (if is_audio_request ev then 1 else 0)" by (cases ev) auto
  then show ?case using Cons.IH [of nq1 fs1] Cons.prems st by simp
qed simp

lemma get_audio_normal:
  assumes "engine_ok nq" and "\<not> nc_bypass_mode (nq_config nq)"
    and "fst (get_decision now (maybe_roll_packet_rate now nq)) = OpNormal"
    and "get_audio dec now nq = Some (frame, nq')"
  shows "af_samples frame = take_padded (nq_output_frame_size_samples nq) (pending dec nq) \<and>
    pending dec nq' = drop (nq_output_frame_size_samples nq) (pending dec nq)"
proof -
  define nq1 where "nq1 = maybe_roll_packet_rate now nq"
  have ok1: "engine_ok nq1" using assms(1) by (simp add: nq1_def roll_ok)
  obtain nq2 where dec: "get_decision now nq1 = (OpNormal, nq2)"
    using assms(3) by (cases "get_decision now nq1") (simp add: nq1_def)
  note d = get_decision_ok [OF ok1 dec, of dec]
  obtain frame1 nq3 where dn: "decode_normal dec (new_output_frame nq1) (nq2\<lparr>nq_last_operation := OpNormal\<rparr>) = (frame1, nq3)"
    by fastforce
  have "frame = frame1" "pending dec nq' = pending dec nq3"
  proof -
    have "\<not> nc_bypass_mode (nq_config nq1)" using assms(2) by (simp add: nq1_def roll_ok)
    then have "Option.bind (record_decode_operation now OpNormal (nq_statistics nq3)) (\<lambda>sc. Some (frame1,
        nq3\<lparr>nq_frame_timestamp := nq_frame_timestamp nq3 + of_nat (af_samples_per_channel frame1 * unat (nc_channels (nq_config nq3))),
          nq_statistics := jitter_buffer_delay (ucast (duration_ms frame1)) (of_nat (af_samples_per_channel frame1)) sc\<rparr>)) = Some (frame, nq')"
      using assms(4) dec dn by (simp add: get_audio_def nq1_def [symmetric] Let_def)
    then show "frame = frame1" "pending dec nq' = pending dec nq3" by (auto simp: bind_eq_Some_conv)
  qed
  then show ?thesis
    using decode_normal_spec [OF dn] new_output_frame_size(1) [OF ok1] d by (simp add: nq1_def roll_ok)
qed

section \<open>Properties\<close>

text \<open>
  C29: Decoding takes samples from a queue. Think of the samples that are left over from the last packet, followed by
  what the waiting packets decode to, as one queue. Decoding a frame of any length fills it with the head of that
  queue, adds silence only when the queue runs out, and leaves exactly the rest of the queue: packets of any duration
  are cut into frames without losing, repeating or reordering a sample, for every decoder, also one with state.
\<close>
theorem decode_takes_from_queue:
  assumes "decode_normal dec frame nq = (frame', nq')" and "m = length (af_samples frame)"
    and "queue = (\<lambda>q. nq_leftover_samples q @ decode_all dec (nq_decoders q) (pb_buffer (nq_packet_buffer q)))"
  shows "af_samples frame' = take m (queue nq) @ replicate (m - length (queue nq)) 0 \<and> queue nq' = drop m (queue nq)"
  using decode_normal_spec [OF assms(1)] assms(2,3) by (simp add: pending_def take_padded_def)

text \<open>
  C27: The sound card always gets its frame. From a new engine with a sample rate of at least 1100 Hz and room for at
  least two packets, whatever packets arrive in whatever order at whatever times, however often the buffer is
  flushed, the delay limits are changed and decoders are registered: no call panics, and every request for audio is
  answered with one frame of exactly ten milliseconds in the configured format.
\<close>
theorem audio_always_delivered:
  assumes "neteq_new start rng config = Inr nq0" and "1100 \<le> nc_sample_rate config" and "config_ok (nc_delay_config config)"
    and "2 \<le> nc_max_packets_in_buffer config" and "nc_max_packets_in_buffer config * 15 < 2 ^ 32"
    and "list_all packet_has_rate evs"
  shows "\<exists>nq frames. foldl (neteq_step dec) (Some (nq0, [])) evs = Some (nq, frames) \<and>
    length frames = length (filter is_audio_request evs) \<and>
    list_all (\<lambda>frame. length (af_samples frame) = unat (nc_sample_rate config div 100) * unat (nc_channels config) \<and>
      af_sample_rate frame = nc_sample_rate config \<and> af_channels frame = nc_channels config) frames"
proof -
  have "playing config (foldl (neteq_step dec) (Some (nq0, [])) evs)"
    by (rule playout.run_inv [OF new_engine_ok [OF assms(1-5)] assms(6)])
  then obtain nq frames where "foldl (neteq_step dec) (Some (nq0, [])) evs = Some (nq, frames)" "list_all (full_frame config) frames"
    by (auto simp: playing_def)
  then show ?thesis using frames_counted [of dec nq0 "[]" evs nq frames] by (auto simp: full_frame_def list_all_iff)
qed


text \<open>
  Concealment starts and ends with a margin. While no stretched audio waits: an engine that plays starts to conceal
  exactly when less than one and a half frames are buffered, and an engine that conceals goes on until the
  buffer holds a full frame and has reached the low limit, three quarters of the target level or the target level less 85 ms. So it does not
  flip between the two around one level.
\<close>
theorem concealment_hysteresis:
  assumes "nq_leftover_time_stretched_samples nq = []" and "get_decision now nq = (op, nq')"
    and "buffered = current_buffer_size_samples nq" and "n = nq_output_frame_size_samples nq"
    and "spm = nc_sample_rate (nq_config nq) div 1000" and "target = target_delay_ms (nq_delay_manager nq) * spm"
  shows "(nq_consecutive_expands nq = 0 \<longrightarrow>
       (op \<in> {OpExpandStart, OpExpand} \<longleftrightarrow> buffered < n * 3 div 2) \<and> op \<noteq> OpExpandEnd) \<and>
     (0 < nq_consecutive_expands nq \<longrightarrow>
       (if buffered < n \<or> buffered < unat (low_limit target spm)
        then op = OpExpand \<and> 0 < nq_consecutive_expands nq' else op = OpExpandEnd \<and> nq_consecutive_expands nq' = 0))"
proof -
  have "x \<noteq> 0 \<Longrightarrow> 0 < sat_incr x" for x by (auto simp: sat_incr_def word_neq_0_conv [symmetric]) (metis add.inverse_inverse add_eq_0_iff)
  then show ?thesis
    using assms by (auto simp: get_decision_def Let_def word_neq_0_conv split: if_splits)
qed

end
