(* ===== verification/Neteq_Witnesses.thy ===== *)
theory Neteq_Witnesses
  imports Neteq_Runs
begin

text \<open>
  Concrete engines for the properties of \<open>Neteq_Runs\<close>, and two behaviours of the audio engine that differ from what
  its comments and tests say.
\<close>

section \<open>A default engine\<close>

definition demo_decode :: "unit decode_fn" where
  "demo_decode d payload = (Some (map (\<lambda>b. real (unat b)) payload), d)"

definition demo_engine :: "unit neteq" where
  "demo_engine = projr (neteq_new 0 1 neteq_config_default)"

definition demo_packet :: "u16 \<Rightarrow> audio_packet" where
  "demo_packet k = audio_packet_new 0 (rtp_header_new k (320 * ucast k) 7 96 False) [1, 2, 3] 16000 1 20"

lemma demo_engine_new: "neteq_new 0 1 neteq_config_default = Inr demo_engine"
  by (simp add: demo_engine_def neteq_new_def neteq_config_default_def)

lemma demo_config:
  "1100 \<le> nc_sample_rate neteq_config_default" "config_ok (nc_delay_config neteq_config_default)"
  "2 \<le> nc_max_packets_in_buffer neteq_config_default" "nc_max_packets_in_buffer neteq_config_default * 15 < 2 ^ 32"
  by (simp_all add: neteq_config_default_def config_ok_def delay_config_default_def)

lemma demo_engine_fields:
  "nq_leftover_samples demo_engine = []" "pb_buffer (nq_packet_buffer demo_engine) = []"
  "nq_leftover_time_stretched_samples demo_engine = []" "nq_consecutive_expands demo_engine = 0"
  "nq_output_frame_size_samples demo_engine = 160" "nq_decoders demo_engine = (\<lambda>_. None)"
  by (simp_all add: demo_engine_def neteq_new_def neteq_config_default_def packet_buffer_with_config_def)

theorem decode_takes_from_queue_witness:
  "af_samples (fst (decode_normal demo_decode ((audio_frame_new 16000 1 3)) (demo_engine\<lparr>nq_leftover_samples := [5, 6]\<rparr>))) = [5, 6, 0]"
proof -
  let ?r = "decode_normal demo_decode ((audio_frame_new 16000 1 3)) (demo_engine\<lparr>nq_leftover_samples := [5, 6]\<rparr>)"
  from decode_takes_from_queue [of demo_decode _ _ "fst ?r" "snd ?r", OF surjective_pairing refl refl]
  show ?thesis by (simp add: demo_engine_fields)
qed

theorem audio_always_delivered_witness:
  "\<exists>nq frames. foldl (neteq_step demo_decode) (Some (demo_engine, []))
       [NqAudio 5, NqPacket 10 (demo_packet 2), NqPacket 11 (demo_packet 1), NqAudio 20] = Some (nq, frames) \<and> length frames = 2"
  using audio_always_delivered [OF demo_engine_new demo_config, of
      "[NqAudio 5, NqPacket 10 (demo_packet 2), NqPacket 11 (demo_packet 1), NqAudio 20]" demo_decode]
  by (auto simp: demo_packet_def audio_packet_new_def)


theorem concealment_hysteresis_witness:
  "fst (get_decision 9 demo_engine) \<in> {OpExpandStart, OpExpand}"
proof -
  obtain op nq' where d: "get_decision 9 demo_engine = (op, nq')" by fastforce
  have "current_buffer_size_samples demo_engine = 0"
    by (simp add: current_buffer_size_samples_def demo_engine_fields num_samples_in_buffer_def)
  then show ?thesis
    using concealment_hysteresis [OF demo_engine_fields(3) d refl refl refl refl] d by (simp add: demo_engine_fields)
qed

section \<open>Behaviours that differ from the documentation\<close>

text \<open>
  In bypass mode a frame of pure silence, delivered because nothing is queued, is classified as normal speech with voice
  activity: the count that decides is compared after the silence has been added to it.
\<close>

lemma bypass_silence_is_speech:
  assumes "nq_bypass_audio_queue nq = []" and "0 < nq_output_frame_size_samples nq"
  shows "set (af_samples (fst (bypass_audio nq))) = {0} \<and> af_speech_type (fst (bypass_audio nq)) = SpeechNormal \<and>
    af_vad_activity (fst (bypass_audio nq))"
  using assms by (simp add: bypass_audio_def Let_def)

text \<open>
  Counting an operation beyond the ninth would index the array of counters out of range; the engine never decides for
  one of them, but the type of operations has twelve.
\<close>

lemma late_operations_not_counted:
  "record_decode_operation now OpComfortNoise (statistics_new t) = None"
  by (simp add: record_decode_operation_def statistics_new_def Let_def)

end
