(* ===== verification/Call_Client.thy ===== *)
theory Call_Client
  imports Peer_Decoding Connection_Manager
begin

text \<open>
  The video call client of the browser, \<open>videocall-client/src/client/video_call_client.rs\<close>, with the keys of
  \<open>crypto/aes.rs\<close> and \<open>crypto/rsa.rs\<close>: what each inbound packet does, which callbacks of the user interface it
  fires, what is sent back, and how the client sits on the connection manager.

  \<^item> The ciphers are the record \<open>crypto\<close>; a private key is its decryption function. The messages that carry keys
    and diagnostics are parsed and written by the record \<open>key_proto\<close>.
  \<^item> A callback that is optional in the options is a boolean that says whether it is set. Callbacks, packets
    for the server, calls of the controller and effects of the peer table are returned in program order.
  \<^item> \<open>Aes128State::from_vecs\<close> copies into arrays of sixteen bytes and panics for other lengths: the value \<open>None\<close>.
  \<^item> While the client handles a packet, the cell (\<open>RefCell\<close>) of its state is borrowed for writing. The operations of
    the user interface therefore take an option: nothing while it is borrowed, which is when a callback runs. The
    other cells are never borrowed twice, and their failures are left out.
\<close>

section \<open>Byte strings as text\<close>

text \<open>
  \<open>String::from_utf8_lossy\<close>: at each position either a well-formed sequence, which is kept, or the longest start of
  one (at least one byte), which becomes the replacement character. The result says which and how long.
\<close>

definition byte_in :: "nat \<Rightarrow> nat \<Rightarrow> bytes \<Rightarrow> nat \<Rightarrow> bool" where
  "byte_in lo hi bs k = (k < length bs \<and> lo \<le> unat (bs ! k) \<and> unat (bs ! k) \<le> hi)"

definition second_byte_ok :: "nat \<Rightarrow> bytes \<Rightarrow> bool" where
  "second_byte_ok first bs =
     (if first = 0xE0 then byte_in 0xA0 0xBF bs 1
      else if first = 0xED then byte_in 0x80 0x9F bs 1
      else if first = 0xF0 then byte_in 0x90 0xBF bs 1
      else if first = 0xF4 then byte_in 0x80 0x8F bs 1
      else byte_in 0x80 0xBF bs 1)"

definition utf8_chunk :: "bytes \<Rightarrow> bool \<times> nat" where
  "utf8_chunk bs =
     (let first = unat (hd bs) in
      if first < 0x80 then (True, 1)
      else if first < 0xC2 \<or> 0xF4 < first then (False, 1)
      else if \<not> second_byte_ok first bs then (False, 1)
      else if first < 0xE0 then (True, 2)
      else if \<not> byte_in 0x80 0xBF bs 2 then (False, 2)
      else if first < 0xF0 then (True, 3)
      else if \<not> byte_in 0x80 0xBF bs 3 then (False, 3)
      else (True, 4))"

definition REPLACEMENT :: bytes where "REPLACEMENT = [0xEF, 0xBF, 0xBD]"

lemma utf8_chunk_pos: "utf8_chunk bs = (ok, n) \<Longrightarrow> 0 < n"
  by (simp add: utf8_chunk_def Let_def split: if_splits)

function lossy_bytes :: "bytes \<Rightarrow> bytes" where
  "lossy_bytes bs =
     (if bs = [] then []
      else case utf8_chunk bs of
             (ok, n) \<Rightarrow> (if ok then take n bs else REPLACEMENT) @ lossy_bytes (drop n bs))"
  by pat_completeness auto
termination
  by (relation "measure length") (auto dest!: utf8_chunk_pos [OF sym] simp: neq_Nil_conv)

declare lossy_bytes.simps [simp del]

definition from_utf8_lossy :: "bytes \<Rightarrow> string" where
  "from_utf8_lossy bs = map (\<lambda>b. char_of (unat b)) (lossy_bytes bs)"

text \<open>Text in ASCII is kept as it is.\<close>

lemma lossy_ascii: "list_all (\<lambda>b. unat b < 0x80) bs \<Longrightarrow> lossy_bytes bs = bs"
proof (induction bs)
  case (Cons b bs)
  then show ?case by (subst lossy_bytes.simps) (simp add: utf8_chunk_def)
qed (simp add: lossy_bytes.simps)

lemma from_utf8_lossy_ascii:
  assumes "list_all (\<lambda>c. of_char c < (0x80 :: nat)) s"
  shows "from_utf8_lossy (as_bytes s) = s"
proof -
  have "list_all (\<lambda>b. unat b < 0x80) (as_bytes s)"
    using assms by (simp add: as_bytes_def list_all_iff unat_of_nat)
  then show ?thesis
    by (simp add: from_utf8_lossy_def lossy_ascii) (simp add: as_bytes_def unat_of_nat comp_def)
qed

section \<open>Keys\<close>

record aes128 =
  ae_enabled :: bool
  ae_key :: bytes
  ae_iv :: bytes

record 'p crypto =
  cr_cbc_encrypt :: "bytes \<Rightarrow> bytes \<Rightarrow> bytes \<Rightarrow> bytes"
  cr_cbc_decrypt :: "bytes \<Rightarrow> bytes \<Rightarrow> bytes \<Rightarrow> bytes option"
  cr_rsa_encrypt :: "'p \<Rightarrow> bytes \<Rightarrow> bytes option"
  cr_to_public_key_der :: "'p \<Rightarrow> bytes option"
  cr_from_public_key_der :: "bytes \<Rightarrow> 'p option"

text \<open>The random key and vector are arguments.\<close>

definition aes_new :: "bytes \<Rightarrow> bytes \<Rightarrow> bool \<Rightarrow> aes128" where
  "aes_new random_key random_iv enabled =
     (if enabled then \<lparr>ae_enabled = True, ae_key = random_key, ae_iv = random_iv\<rparr>
      else \<lparr>ae_enabled = enabled, ae_key = replicate 16 0, ae_iv = replicate 16 0\<rparr>)"

definition aes_from_vecs :: "bytes \<Rightarrow> bytes \<Rightarrow> bool \<Rightarrow> aes128 option" where
  "aes_from_vecs key iv enabled =
     (if length key = 16 \<and> length iv = 16 then Some \<lparr>ae_enabled = enabled, ae_key = key, ae_iv = iv\<rparr> else None)"

definition aes_encrypt :: "'p crypto \<Rightarrow> aes128 \<Rightarrow> bytes \<Rightarrow> bytes" where
  "aes_encrypt C aes data = (if \<not> ae_enabled aes then data else cr_cbc_encrypt C (ae_key aes) (ae_iv aes) data)"

definition aes_decrypt :: "'p crypto \<Rightarrow> aes128 \<Rightarrow> bytes \<Rightarrow> bytes option" where
  "aes_decrypt C aes data = (if \<not> ae_enabled aes then Some data else cr_cbc_decrypt C (ae_key aes) (ae_iv aes) data)"

record 'p rsa_wrapper =
  rs_enabled :: bool
  rs_pub_key :: 'p
  rs_key :: "bytes \<Rightarrow> bytes option"

definition rsa_decrypt :: "'p rsa_wrapper \<Rightarrow> bytes \<Rightarrow> bytes option" where
  "rsa_decrypt rsa data = (if \<not> rs_enabled rsa then Some data else rs_key rsa data)"

definition encrypt_with_key :: "'p crypto \<Rightarrow> 'p rsa_wrapper \<Rightarrow> bytes \<Rightarrow> 'p \<Rightarrow> bytes option" where
  "encrypt_with_key C rsa data key = (if \<not> rs_enabled rsa then Some data else cr_rsa_encrypt C key data)"

record 'g key_proto =
  kp_parse_aes :: "bytes \<Rightarrow> (bytes \<times> bytes) option"
  kp_write_aes :: "bytes \<times> bytes \<Rightarrow> bytes option"
  kp_parse_rsa :: "bytes \<Rightarrow> (bytes \<times> bytes) option"
  kp_write_rsa :: "bytes \<times> bytes \<Rightarrow> bytes option"
  kp_parse_diagnostics :: "bytes \<Rightarrow> 'g option"

section \<open>The client\<close>

definition meeting_event_type_from_i32 :: "enum_or_unknown \<Rightarrow> meeting_event_type option" where
  "meeting_event_type_from_i32 v =
     (if v = 0 then Some MEETING_EVENT_TYPE_UNKNOWN else if v = 1 then Some MEETING_STARTED
      else if v = 2 then Some MEETING_ENDED else if v = 3 then Some PARTICIPANT_JOINED
      else if v = 4 then Some PARTICIPANT_LEFT else if v = 5 then Some MEETING_ACTIVATED
      else if v = 6 then Some PARTICIPANT_ADMITTED else if v = 7 then Some PARTICIPANT_REJECTED
      else if v = 8 then Some WAITING_ROOM_UPDATED else None)"

record inner_options =
  io_enable_e2ee :: bool
  io_user_id :: string
  io_on_meeting_info :: bool
  io_on_meeting_ended :: bool
  io_on_meeting_activated :: bool
  io_on_participant_admitted :: bool
  io_on_participant_rejected :: bool
  io_on_waiting_room_updated :: bool
  io_on_peer_left :: bool
  io_on_peer_joined :: bool

record 'p inner =
  in_options :: inner_options
  in_has_controller :: bool
  in_connection_state :: ui_state
  in_aes :: aes128
  in_rsa :: "'p rsa_wrapper"
  in_peer_decode_manager :: "aes128 peer_manager"
  in_has_sender_diagnostics :: bool
  in_own_session_id :: "u64 option"
  in_recent_peer_events :: "string \<times> string \<rightharpoonup> real"
  in_force_camera_keyframe :: bool
  in_force_screen_keyframe :: bool
  in_congestion_step_down_requested :: bool

datatype 'g client_effect =
    Peers pm_effect
  | ToServer packet_wrapper
  | SetOwnSession u64
  | ReportDiagnostics 'g
  | CbPeerAdded string
  | CbMeetingInfo real
  | CbMeetingEnded real string
  | CbMeetingActivated
  | CbParticipantAdmitted
  | CbParticipantRejected
  | CbWaitingRoomUpdated
  | CbPeerJoined string string
  | CbPeerLeft string string

text \<open>What the environment answers during one call: the clock (\<open>Date.now()\<close> and its whole milliseconds), the
  decoders, and whether decoders for a new peer can be created.\<close>

record inbound_env =
  ie_now :: real
  ie_now_ms :: u64
  ie_answers :: decoder_answers
  ie_new_peer :: bool

type_synonym ('p, 'g) handled = "'p inner \<times> 'g client_effect list"

definition is_duplicate_peer_event :: "real \<Rightarrow> string \<Rightarrow> string \<Rightarrow> 'p inner \<Rightarrow> bool \<times> 'p inner" where
  "is_duplicate_peer_event now event_type target_user_id c =
     (let key = (event_type, target_user_id);
          recent = (\<lambda>k. case in_recent_peer_events c k of
                          Some ts \<Rightarrow> if now - ts < 30000 then Some ts else None | None \<Rightarrow> None)
      in if recent key = None then (False, c\<lparr>in_recent_peer_events := recent(key \<mapsto> now)\<rparr>)
         else (True, c\<lparr>in_recent_peer_events := recent\<rparr>))"

definition try_handle_keyframe_request :: "proto \<Rightarrow> packet_wrapper \<Rightarrow> 'p inner \<Rightarrow> bool \<times> 'p inner" where
  "try_handle_keyframe_request P response c =
     (case parse_media P (pw_data response) of
        None \<Rightarrow> (False, c)
      | Some mp \<Rightarrow>
          if media_type_from_i32 (med_media_type mp) \<noteq> Some KEYFRAME_REQUEST then (False, c)
          else
            let requested_stream = from_utf8_lossy (med_data mp)
            in (True,
                if requested_stream = ''VIDEO'' then c\<lparr>in_force_camera_keyframe := True\<rparr>
                else if requested_stream = ''SCREEN'' then c\<lparr>in_force_screen_keyframe := True\<rparr>
                else c))"

definition serialize_aes_packet :: "'g key_proto \<Rightarrow> 'p inner \<Rightarrow> bytes option" where
  "serialize_aes_packet K c = kp_write_aes K (ae_key (in_aes c), ae_iv (in_aes c))"

definition send_public_key :: "'p crypto \<Rightarrow> 'g key_proto \<Rightarrow> 'p inner \<Rightarrow> 'g client_effect list" where
  "send_public_key C K c =
     (if \<not> io_enable_e2ee (in_options c) then []
      else
        let userid = as_bytes (io_user_id (in_options c))
        in case cr_to_public_key_der C (rs_pub_key (in_rsa c)) of
             None \<Rightarrow> []
           | Some der \<Rightarrow>
               (case kp_write_rsa K (userid, der) of
                  None \<Rightarrow> []
                | Some data \<Rightarrow>
                    if in_has_controller c
                    then [ToServer (default_packet_wrapper
                            \<lparr>pw_packet_type := packet_type_value RSA_PUB_KEY, pw_user_id := userid, pw_data := data\<rparr>)]
                    else []))"

text \<open>The key of a peer. \<open>None\<close> is the panic for a key of the wrong length.\<close>

definition handle_aes_key :: "'g key_proto \<Rightarrow> packet_wrapper \<Rightarrow> 'p inner \<Rightarrow> 'p inner option" where
  "handle_aes_key K response c =
     (case rsa_decrypt (in_rsa c) (pw_data response) of
        None \<Rightarrow> Some c
      | Some bs \<Rightarrow>
          (case kp_parse_aes K bs of
             None \<Rightarrow> Some c
           | Some (key, iv) \<Rightarrow>
               (case aes_from_vecs key iv (io_enable_e2ee (in_options c)) of
                  None \<Rightarrow> None
                | Some aes \<Rightarrow>
                    Some (c\<lparr>in_peer_decode_manager :=
                              snd (set_peer_aes (pw_session_id response) aes (in_peer_decode_manager c))\<rparr>))))"

definition handle_rsa_pub_key :: "'p crypto \<Rightarrow> 'g key_proto \<Rightarrow> packet_wrapper \<Rightarrow> 'p inner \<Rightarrow> 'g client_effect list" where
  "handle_rsa_pub_key C K response c =
     (let encrypted_aes_packet =
            Option.bind (kp_parse_rsa K (pw_data response)) (\<lambda>(user, der).
            Option.bind (cr_from_public_key_der C der) (\<lambda>pub_key.
            Option.bind (serialize_aes_packet K c) (\<lambda>aes_packet.
              encrypt_with_key C (in_rsa c) aes_packet pub_key)))
      in case encrypted_aes_packet of
           None \<Rightarrow> []
         | Some data \<Rightarrow>
             if in_has_controller c
             then [ToServer (default_packet_wrapper
                     \<lparr>pw_packet_type := packet_type_value AES_KEY,
                      pw_user_id := as_bytes (io_user_id (in_options c)), pw_data := data\<rparr>)]
             else [])"

definition handle_media :: "proto \<Rightarrow> 'p crypto \<Rightarrow> inbound_env \<Rightarrow> packet_wrapper \<Rightarrow> 'p inner \<Rightarrow> ('p, 'g) handled" where
  "handle_media P C E response c =
     (case manager_decode P (aes_decrypt C) (ie_now_ms E) (ie_answers E) response (io_user_id (in_options c))
             (in_peer_decode_manager c) of
        (Inr _, pm, es) \<Rightarrow> (c\<lparr>in_peer_decode_manager := pm\<rparr>, map Peers es)
      | (Inl (SameUserPacket sid), pm, es) \<Rightarrow> (c\<lparr>in_peer_decode_manager := pm\<rparr>, map Peers es)
      | (Inl e, pm, es) \<Rightarrow>
          (case delete_peer (pw_session_id response) pm of
             (pm1, es1) \<Rightarrow> (c\<lparr>in_peer_decode_manager := pm1\<rparr>, map Peers (es @ es1))))"

definition shown_name :: "bytes \<Rightarrow> string \<Rightarrow> string" where
  "shown_name display_name target = (if display_name = [] then target else from_utf8_lossy display_name)"

definition participant_joined :: "inbound_env \<Rightarrow> meeting_packet \<Rightarrow> 'p inner \<Rightarrow> ('p, 'g) handled" where
  "participant_joined E mp c =
     (let target_str = from_utf8_lossy (mp_target_user_id mp);
          display_name = shown_name (mp_display_name mp) target_str;
          c1 = c\<lparr>in_peer_decode_manager :=
                   set_peer_display_name_by_user_id target_str display_name (in_peer_decode_manager c)\<rparr>
      in if mp_target_user_id mp \<noteq> [] \<and> mp_target_user_id mp \<noteq> as_bytes (io_user_id (in_options c))
         then (case is_duplicate_peer_event (ie_now E) ''joined'' target_str c1 of
                 (dup, c2) \<Rightarrow>
                   (c2, if \<not> dup \<and> io_on_peer_joined (in_options c) then [CbPeerJoined display_name target_str] else []))
         else (c1, []))"

definition participant_left :: "inbound_env \<Rightarrow> meeting_packet \<Rightarrow> 'p inner \<Rightarrow> ('p, 'g) handled" where
  "participant_left E mp c =
     (let (c1, es) = (if mp_session_id mp \<noteq> 0
            then (case delete_peer (mp_session_id mp) (in_peer_decode_manager c) of
                    (pm, es) \<Rightarrow> (c\<lparr>in_peer_decode_manager := pm\<rparr>, map Peers es))
            else (c, []));
          target_str = from_utf8_lossy (mp_target_user_id mp)
      in if mp_target_user_id mp \<noteq> [] \<and> mp_target_user_id mp \<noteq> as_bytes (io_user_id (in_options c))
         then (case is_duplicate_peer_event (ie_now E) ''left'' target_str c1 of
                 (dup, c2) \<Rightarrow>
                   (c2, es @ (if \<not> dup \<and> io_on_peer_left (in_options c)
                              then [CbPeerLeft (shown_name (mp_display_name mp) target_str) target_str] else [])))
         else (c1, es))"

definition handle_meeting :: "proto \<Rightarrow> inbound_env \<Rightarrow> packet_wrapper \<Rightarrow> 'p inner \<Rightarrow> ('p, 'g) handled" where
  "handle_meeting P E response c =
     (case parse_meeting P (pw_data response) of
        None \<Rightarrow> (c, [])
      | Some mp \<Rightarrow>
          let opts = in_options c; to_us = (mp_target_user_id mp = as_bytes (io_user_id opts))
          in case meeting_event_type_from_i32 (mp_event_type mp) of
               Some MEETING_STARTED \<Rightarrow>
                 (c, if io_on_meeting_info opts then [CbMeetingInfo (real (unat (mp_start_time_ms mp)))] else [])
             | Some MEETING_ENDED \<Rightarrow>
                 (c, if io_on_meeting_ended opts then [CbMeetingEnded (real (unat (ie_now_ms E))) (mp_message mp)] else [])
             | Some PARTICIPANT_JOINED \<Rightarrow> participant_joined E mp c
             | Some PARTICIPANT_LEFT \<Rightarrow> participant_left E mp c
             | Some MEETING_ACTIVATED \<Rightarrow> (c, if io_on_meeting_activated opts then [CbMeetingActivated] else [])
             | Some PARTICIPANT_ADMITTED \<Rightarrow>
                 (c, if to_us \<and> io_on_participant_admitted opts then [CbParticipantAdmitted] else [])
             | Some PARTICIPANT_REJECTED \<Rightarrow>
                 (c, if to_us \<and> io_on_participant_rejected opts then [CbParticipantRejected] else [])
             | Some WAITING_ROOM_UPDATED \<Rightarrow> (c, if io_on_waiting_room_updated opts then [CbWaitingRoomUpdated] else [])
             | _ \<Rightarrow> (c, []))"

text \<open>The dispatch on the packet type. The flag says whether the handler returned early, which skips the
  announcement of a new peer; no result is a panic.\<close>

definition dispatch_packet ::
  "proto \<Rightarrow> 'p crypto \<Rightarrow> 'g key_proto \<Rightarrow> inbound_env \<Rightarrow> packet_wrapper \<Rightarrow> 'p inner \<Rightarrow> (bool \<times> ('p, 'g) handled) option" where
  "dispatch_packet P C K E response c =
     (let e2ee = io_enable_e2ee (in_options c)
      in case packet_type_from_i32 (pw_packet_type response) of
           Some AES_KEY \<Rightarrow>
             if \<not> e2ee then Some (True, (c, []))
             else map_option (\<lambda>c1. (False, (c1, []))) (handle_aes_key K response c)
         | Some RSA_PUB_KEY \<Rightarrow>
             if \<not> e2ee then Some (True, (c, []))
             else Some (False, (c, handle_rsa_pub_key C K response c))
         | Some MEDIA \<Rightarrow>
             (case try_handle_keyframe_request P response c of
                (True, c1) \<Rightarrow> Some (True, (c1, []))
              | (False, c1) \<Rightarrow> Some (False, handle_media P C E response c1))
         | Some DIAGNOSTICS \<Rightarrow>
             Some (False, (c, case kp_parse_diagnostics K (pw_data response) of
                                Some d \<Rightarrow> if in_has_sender_diagnostics c then [ReportDiagnostics d] else []
                              | None \<Rightarrow> []))
         | Some SESSION_ASSIGNED \<Rightarrow>
             Some (False, (c\<lparr>in_own_session_id := Some (pw_session_id response)\<rparr>,
                           if in_has_controller c then [SetOwnSession (pw_session_id response)] else []))
         | Some MEETING \<Rightarrow> Some (False, handle_meeting P E response c)
         | Some CONGESTION \<Rightarrow>
             Some (False, (if in_own_session_id c = Some (pw_session_id response)
                           then c\<lparr>in_congestion_step_down_requested := True\<rparr> else c, []))
         | _ \<Rightarrow> Some (False, (c, [])))"

definition on_inbound_media ::
  "proto \<Rightarrow> 'p crypto \<Rightarrow> 'g key_proto \<Rightarrow> inbound_env \<Rightarrow> packet_wrapper \<Rightarrow> 'p inner \<Rightarrow> ('p, 'g) handled option" where
  "on_inbound_media P C K E response c =
     (let (peer_status, c1) =
            (if pw_user_id response = as_bytes SYSTEM_USER_ID \<or> pw_session_id response = 0 then (NoChange, c)
             else (case ensure_peer (ie_new_peer E) (pw_session_id response) (from_utf8_lossy (pw_user_id response))
                          (in_peer_decode_manager c) of
                     (st, pm) \<Rightarrow> (st, c\<lparr>in_peer_decode_manager := pm\<rparr>)))
      in case dispatch_packet P C K E response c1 of
           None \<Rightarrow> None
         | Some (early, (c2, es)) \<Rightarrow>
             if early then Some (c2, es)
             else (case peer_status of
                     Added sid \<Rightarrow> Some (c2, es @ CbPeerAdded (show_u64 sid) # send_public_key C K c2)
                   | NoChange \<Rightarrow> Some (c2, es)))"

section \<open>On top of the connection manager\<close>

record 'p call_client =
  cc_websocket_urls :: "string list"
  cc_webtransport_urls :: "string list"
  cc_enable_webtransport :: bool
  cc_rtt_testing_period_ms :: u64
  cc_health_reporter :: bool
  cc_on_speaking_changed :: bool
  cc_inner :: "'p inner"
  cc_controller :: "connection_manager option"

datatype call_effect =
    Manager manager_effect
  | CbConnected
  | CbConnectionLost string

text \<open>The callback \<open>on_state_changed\<close>: peers are dropped when the connection failed.\<close>

definition on_state_changed :: "ui_state \<Rightarrow> 'p inner \<Rightarrow> 'p inner \<times> call_effect list" where
  "on_state_changed st c =
     (case st of
        UiFailed err server \<Rightarrow>
          (c\<lparr>in_connection_state := st, in_peer_decode_manager := fst (clear_all_peers (in_peer_decode_manager c))\<rparr>,
           [CbConnectionLost err])
      | UiConnected url rtt wt \<Rightarrow> (c\<lparr>in_connection_state := st\<rparr>, [CbConnected])
      | _ \<Rightarrow> (c\<lparr>in_connection_state := st\<rparr>, []))"

definition peer_monitor :: "'p inner \<Rightarrow> ('p, 'g) handled" where
  "peer_monitor c =
     (case run_peer_monitor (in_peer_decode_manager c) of
        (pm, es) \<Rightarrow> (c\<lparr>in_peer_decode_manager := pm\<rparr>, map Peers es))"

text \<open>A packet arrives on a connection: the callback of the connection manager decides whether it reaches the client,
  and the calls of the client on its controller are carried out.\<close>

definition controller_call :: "'g client_effect \<Rightarrow> connection_manager \<Rightarrow> connection_manager" where
  "controller_call e cm = (case e of SetOwnSession sid \<Rightarrow> set_own_session_id sid cm | _ \<Rightarrow> cm)"

definition receive_packet ::
  "proto \<Rightarrow> 'p crypto \<Rightarrow> 'g key_proto \<Rightarrow> inbound_env \<Rightarrow> real \<Rightarrow> string \<Rightarrow> packet_wrapper \<Rightarrow> 'p call_client \<Rightarrow>
   ('p call_client \<times> 'g client_effect list) option" where
  "receive_packet P C K E monotonic_now connection_id packet cl =
     (case cc_controller cl of
        None \<Rightarrow> Some (cl, [])
      | Some cm \<Rightarrow>
          (case inbound_media_callback P (aes_decrypt C (in_aes (cc_inner cl))) monotonic_now connection_id packet cm of
             (cm1, es) \<Rightarrow>
               if EmitInbound packet \<in> set es
               then (case on_inbound_media P C K E packet (cc_inner cl) of
                       None \<Rightarrow> None
                     | Some (c, fs) \<Rightarrow>
                         Some (cl\<lparr>cc_inner := c, cc_controller := Some (fold controller_call fs cm1)\<rparr>, fs))
               else Some (cl\<lparr>cc_controller := Some cm1\<rparr>, [])))"

section \<open>A new client\<close>

text \<open>The options of \<open>VideoCallClient::new\<close> that matter here; the new private key is an argument.\<close>

record client_options =
  vo_inner :: inner_options
  vo_enable_webtransport :: bool
  vo_websocket_urls :: "string list"
  vo_webtransport_urls :: "string list"
  vo_rtt_testing_period_ms :: u64
  vo_enable_diagnostics :: bool
  vo_enable_health_reporting :: bool
  vo_on_speaking_changed :: bool
  vo_vad_threshold :: "real option"
  vo_get_peer_video_canvas_id :: "string \<Rightarrow> string"
  vo_get_peer_screen_canvas_id :: "string \<Rightarrow> string"

definition rsa_new :: "'p \<Rightarrow> (bytes \<Rightarrow> bytes option) \<Rightarrow> bool \<Rightarrow> 'p rsa_wrapper" where
  "rsa_new pub_key key enabled =
     (if enabled then \<lparr>rs_enabled = True, rs_pub_key = pub_key, rs_key = key\<rparr>
      else \<lparr>rs_enabled = False, rs_pub_key = pub_key, rs_key = key\<rparr>)"

definition create_peer_decoder_manager :: "client_options \<Rightarrow> aes128 peer_manager" where
  "create_peer_decoder_manager opts =
     set_vad_threshold (vo_vad_threshold opts)
       ((peer_manager_new (vo_enable_diagnostics opts))
          \<lparr>pm_get_video_canvas_id := vo_get_peer_video_canvas_id opts,
           pm_get_screen_canvas_id := vo_get_peer_screen_canvas_id opts\<rparr>)"

definition call_client_new ::
  "bytes \<Rightarrow> bytes \<Rightarrow> 'p \<Rightarrow> (bytes \<Rightarrow> bytes option) \<Rightarrow> client_options \<Rightarrow> 'p call_client" where
  "call_client_new random_key random_iv pub_key key opts =
     (let e2ee = io_enable_e2ee (vo_inner opts);
          inner =
            \<lparr>in_options = vo_inner opts, in_has_controller = False,
             in_connection_state = UiFailed ''Not connected'' None,
             in_aes = aes_new random_key random_iv e2ee, in_rsa = rsa_new pub_key key e2ee,
             in_peer_decode_manager =
               set_send_packet_callback (io_user_id (vo_inner opts)) (create_peer_decoder_manager opts),
             in_has_sender_diagnostics = vo_enable_diagnostics opts, in_own_session_id = None,
             in_recent_peer_events = Map.empty, in_force_camera_keyframe = False,
             in_force_screen_keyframe = False, in_congestion_step_down_requested = False\<rparr>
      in \<lparr>cc_websocket_urls = vo_websocket_urls opts, cc_webtransport_urls = vo_webtransport_urls opts,
          cc_enable_webtransport = vo_enable_webtransport opts,
          cc_rtt_testing_period_ms = vo_rtt_testing_period_ms opts,
          cc_health_reporter = vo_enable_health_reporting opts,
          cc_on_speaking_changed = vo_on_speaking_changed opts,
          cc_inner = inner, cc_controller = None\<rparr>)"

section \<open>Connecting\<close>

text \<open>The state changes a call of the connection manager reports, each through \<open>on_state_changed\<close>.\<close>

primrec report_states :: "manager_effect list \<Rightarrow> 'p inner \<Rightarrow> 'p inner \<times> call_effect list" where
  "report_states [] c = (c, [])"
| "report_states (e # es) c =
     (let (c1, fs) = (case e of StateChanged st \<Rightarrow> on_state_changed st c | _ \<Rightarrow> (c, [Manager e]));
          (c2, gs) = report_states es c1
      in (c2, fs @ gs))"

definition update_server_urls :: "string list \<Rightarrow> string list \<Rightarrow> 'p call_client \<Rightarrow> 'p call_client" where
  "update_server_urls websocket_urls webtransport_urls cl =
     cl\<lparr>cc_websocket_urls := websocket_urls, cc_webtransport_urls := webtransport_urls\<rparr>"

text \<open>The old manager is marked as disconnected, so that its reconnection tasks end, and dropped.\<close>

definition client_disconnect :: "'p call_client \<Rightarrow> connection_manager option \<times> 'p call_client" where
  "client_disconnect cl =
     (map_option manager_disconnect (cc_controller cl),
      cl\<lparr>cc_controller := None,
         cc_inner := (cc_inner cl)\<lparr>in_has_controller := False,
                                    in_connection_state := UiFailed ''Disconnected'' None\<rparr>\<rparr>)"

definition start_controller ::
  "(bool \<Rightarrow> string \<Rightarrow> bool) \<Rightarrow> real \<Rightarrow> 'p call_client \<Rightarrow> (string + unit) \<times> 'p call_client \<times> call_effect list" where
  "start_controller opens now cl =
     (let webtransport_urls = (if cc_enable_webtransport cl then cc_webtransport_urls cl else []);
          total_servers = length (cc_websocket_urls cl) + length webtransport_urls
      in if total_servers = 0 then (Inl ''No servers provided for RTT testing'', cl, [])
         else
           let manager_options =
                 \<lparr>mo_websocket_urls = cc_websocket_urls cl, mo_webtransport_urls = webtransport_urls,
                  mo_userid = io_user_id (in_options (cc_inner cl)),
                  mo_election_period_ms = cc_rtt_testing_period_ms cl\<rparr>
           in case connection_manager_new now manager_options of
                Inl e \<Rightarrow> (Inl e, cl, [])
              | Inr cm \<Rightarrow>
                  (case initialize_manager opens now cm of
                     (cm1, es) \<Rightarrow>
                       (case report_states es (cc_inner cl) of
                          (c, fs) \<Rightarrow>
                            (Inr (), cl\<lparr>cc_inner := c\<lparr>in_has_controller := True\<rparr>, cc_controller := Some cm1\<rparr>, fs))))"

definition connect_with_rtt_testing ::
  "(bool \<Rightarrow> string \<Rightarrow> bool) \<Rightarrow> real \<Rightarrow> 'p call_client \<Rightarrow> (string + unit) \<times> 'p call_client \<times> call_effect list" where
  "connect_with_rtt_testing opens now cl =
     (case cc_controller cl of
        None \<Rightarrow> start_controller opens now cl
      | Some cm \<Rightarrow>
          (case get_connection_state now cm of
             UiFailed e server \<Rightarrow> start_controller opens now (snd (client_disconnect cl))
           | _ \<Rightarrow> (Inr (), cl, [])))"

definition client_connection_state :: "real \<Rightarrow> connection_manager option \<Rightarrow> ui_state option" where
  "client_connection_state now controller = map_option (get_connection_state now) controller"

definition is_reconnecting :: "real \<Rightarrow> connection_manager option \<Rightarrow> bool" where
  "is_reconnecting now controller =
     (case client_connection_state now controller of Some (UiReconnecting url attempt) \<Rightarrow> True | _ \<Rightarrow> False)"

definition client_is_connected :: "'p call_client \<Rightarrow> bool" where
  "client_is_connected cl = (case cc_controller cl of None \<Rightarrow> False | Some cm \<Rightarrow> manager_is_connected cm)"

definition client_rtt_measurements :: "'p call_client \<Rightarrow> (string \<times> real) list option" where
  "client_rtt_measurements cl =
     map_option
       (\<lambda>cm. List.map_filter (\<lambda>(i, m). map_option (Pair i) (sr_average_rtt m)) (cm_rtt_measurements cm))
       (cc_controller cl)"

section \<open>Sending\<close>

definition client_send_packet :: "packet_wrapper \<Rightarrow> 'p call_client \<Rightarrow> wire_effect list" where
  "client_send_packet packet cl =
     (case cc_controller cl of
        None \<Rightarrow> []
      | Some cm \<Rightarrow> (case manager_send_packet packet cm of Inl e \<Rightarrow> [] | Inr es \<Rightarrow> es))"

text \<open>The diagnostics packet is unwrapped after writing: no result is a panic.\<close>

definition send_diagnostic_packet :: "bytes option \<Rightarrow> 'p call_client \<Rightarrow> wire_effect list option" where
  "send_diagnostic_packet written cl =
     map_option
       (\<lambda>data. client_send_packet
          (default_packet_wrapper
             \<lparr>pw_packet_type := packet_type_value DIAGNOSTICS,
              pw_user_id := as_bytes (io_user_id (in_options (cc_inner cl))), pw_data := data\<rparr>) cl)
       written"

text \<open>The switches of the microphone and camera also reach the health reporter, when the switch succeeded.\<close>

definition with_controller ::
  "(connection_manager \<Rightarrow> string + connection_manager \<times> wire_effect list) \<Rightarrow> 'p call_client \<Rightarrow>
   bool \<times> 'p call_client \<times> wire_effect list" where
  "with_controller f cl =
     (case cc_controller cl of
        None \<Rightarrow> (False, cl, [])
      | Some cm \<Rightarrow>
          (case f cm of
             Inl e \<Rightarrow> (False, cl, [])
           | Inr (cm1, ws) \<Rightarrow> (True, cl\<lparr>cc_controller := Some cm1\<rparr>, ws)))"

definition client_set_video_enabled ::
  "proto \<Rightarrow> 'p crypto \<Rightarrow> real \<Rightarrow> bool \<Rightarrow> 'p call_client \<Rightarrow> bool option \<times> 'p call_client \<times> wire_effect list" where
  "client_set_video_enabled P C date_now enabled cl =
     (case with_controller
             (manager_set_video_enabled P (\<lambda>d. Some (aes_encrypt C (in_aes (cc_inner cl)) d)) date_now enabled) cl of
        (ok, cl1, ws) \<Rightarrow> (if ok \<and> cc_health_reporter cl then Some enabled else None, cl1, ws))"

definition client_set_audio_enabled ::
  "proto \<Rightarrow> 'p crypto \<Rightarrow> real \<Rightarrow> bool \<Rightarrow> 'p call_client \<Rightarrow> bool option \<times> 'p call_client \<times> wire_effect list" where
  "client_set_audio_enabled P C date_now enabled cl =
     (case with_controller
             (manager_set_audio_enabled P (\<lambda>d. Some (aes_encrypt C (in_aes (cc_inner cl)) d)) date_now enabled) cl of
        (ok, cl1, ws) \<Rightarrow> (if ok \<and> cc_health_reporter cl then Some enabled else None, cl1, ws))"

definition client_set_screen_enabled ::
  "proto \<Rightarrow> 'p crypto \<Rightarrow> real \<Rightarrow> bool \<Rightarrow> 'p call_client \<Rightarrow> 'p call_client \<times> wire_effect list" where
  "client_set_screen_enabled P C date_now enabled cl =
     snd (with_controller
       (manager_set_screen_enabled P (\<lambda>d. Some (aes_encrypt C (in_aes (cc_inner cl)) d)) date_now enabled) cl)"

definition client_set_speaking ::
  "proto \<Rightarrow> 'p crypto \<Rightarrow> real \<Rightarrow> bool \<Rightarrow> 'p call_client \<Rightarrow> bool option \<times> 'p call_client \<times> wire_effect list" where
  "client_set_speaking P C date_now speaking cl =
     (if cc_on_speaking_changed cl then Some speaking else None,
      snd (with_controller
        (\<lambda>cm. Inr (manager_set_speaking P (\<lambda>d. Some (aes_encrypt C (in_aes (cc_inner cl)) d)) date_now speaking cm)) cl))"

section \<open>Questions of the user interface\<close>

definition peer_of :: "string \<Rightarrow> 'p inner option \<Rightarrow> aes128 peer option" where
  "peer_of key cell =
     Option.bind (parse_u64 key) (\<lambda>sid. Option.bind cell (\<lambda>c. get_peer sid (in_peer_decode_manager c)))"

definition get_peer_user_id :: "string \<Rightarrow> 'p inner option \<Rightarrow> string option" where
  "get_peer_user_id key cell = map_option pe_user_id (peer_of key cell)"

definition client_peer_display_name :: "string \<Rightarrow> 'p inner option \<Rightarrow> string option" where
  "client_peer_display_name key cell =
     Option.bind cell (\<lambda>c. get_peer_display_name key (in_peer_decode_manager c))"

text \<open>Whether the screen decoder of a peer waits for a keyframe is an answer of the decoder.\<close>

definition is_awaiting_peer_screen_frame :: "(aes128 peer \<Rightarrow> bool) \<Rightarrow> string \<Rightarrow> 'p inner option \<Rightarrow> bool" where
  "is_awaiting_peer_screen_frame waiting key cell = (case peer_of key cell of Some pe \<Rightarrow> waiting pe | None \<Rightarrow> False)"

definition is_video_enabled_for_peer :: "string \<Rightarrow> 'p inner option \<Rightarrow> bool" where
  "is_video_enabled_for_peer key cell = (case peer_of key cell of Some pe \<Rightarrow> pe_video_enabled pe | None \<Rightarrow> False)"

definition is_screen_share_enabled_for_peer :: "string \<Rightarrow> 'p inner option \<Rightarrow> bool" where
  "is_screen_share_enabled_for_peer key cell =
     (case peer_of key cell of Some pe \<Rightarrow> pe_screen_enabled pe | None \<Rightarrow> False)"

definition is_audio_enabled_for_peer :: "string \<Rightarrow> 'p inner option \<Rightarrow> bool" where
  "is_audio_enabled_for_peer key cell = (case peer_of key cell of Some pe \<Rightarrow> pe_audio_enabled pe | None \<Rightarrow> False)"

definition is_speaking_for_peer :: "string \<Rightarrow> 'p inner option \<Rightarrow> bool" where
  "is_speaking_for_peer key cell =
     (case cell of Some c \<Rightarrow> is_peer_speaking key (in_peer_decode_manager c) | None \<Rightarrow> False)"

definition audio_level_for_peer :: "string \<Rightarrow> 'p inner option \<Rightarrow> real" where
  "audio_level_for_peer key cell =
     (case cell of Some c \<Rightarrow> peer_audio_level key (in_peer_decode_manager c) | None \<Rightarrow> 0)"

definition sorted_peer_keys :: "'p inner option \<Rightarrow> string list" where
  "sorted_peer_keys cell =
     (case cell of Some c \<Rightarrow> map show_u64 (sorted_keys (in_peer_decode_manager c)) | None \<Rightarrow> [])"

definition has_peer_with_user_id :: "string \<Rightarrow> 'p inner option \<Rightarrow> bool" where
  "has_peer_with_user_id user_id cell =
     (case cell of
        Some c \<Rightarrow>
          list_ex (\<lambda>sid. case get_peer sid (in_peer_decode_manager c) of
                            Some pe \<Rightarrow> pe_user_id pe = user_id | None \<Rightarrow> False)
            (sorted_keys (in_peer_decode_manager c))
      | None \<Rightarrow> False)"

definition client_set_peer_visibility :: "string \<Rightarrow> bool \<Rightarrow> 'p inner option \<Rightarrow> 'p inner option" where
  "client_set_peer_visibility peer_id visible cell =
     (case parse_u64 peer_id of
        None \<Rightarrow> cell
      | Some sid \<Rightarrow>
          map_option (\<lambda>c. c\<lparr>in_peer_decode_manager := set_peer_visibility sid visible (in_peer_decode_manager c)\<rparr>) cell)"

definition client_set_peer_screen_canvas ::
  "proto \<Rightarrow> string + unit \<Rightarrow> string \<Rightarrow> 'p inner option \<Rightarrow> (string + unit) \<times> pm_effect list" where
  "client_set_peer_screen_canvas P set_canvas peer_id cell =
     (case parse_u64 peer_id of
        None \<Rightarrow> (Inl ''Invalid peer_id'', [])
      | Some sid \<Rightarrow>
          (case cell of
             Some c \<Rightarrow> set_peer_screen_canvas P set_canvas sid (in_peer_decode_manager c)
           | None \<Rightarrow> (Inl ''Failed to borrow inner state'', [])))"

end
