(* ===== verification/Call_Page.thy ===== *)
theory Call_Page
  imports Call_Client
begin

text \<open>
  The page of a meeting: the client with the notifications of arrivals and departures that
  \<open>dioxus-ui/src/components/attendants.rs\<close> shows, over every sequence of packets, timers and operations.

  \<^item> A callback runs inside the call that handles the packet, so the cell of the client is borrowed for writing
    and the questions the callback asks are answered as for a borrowed cell.
  \<^item> The timers of the connection manager are one event that gives its next state and the states it reports.
\<close>

section \<open>Notifications\<close>

record toast_board =
  tb_counter :: u64
  tb_toasts :: "(u64 \<times> string \<times> string \<times> bool) list"
  tb_version :: u32
  tb_peer_list_version :: u32

datatype board_effect =
    PlayUserJoined
  | PlayUserLeft
  | LeaveSoundAfter500ms u64
  | RemoveToastAfter8s u64

definition toast_board_new :: toast_board where
  "toast_board_new = \<lparr>tb_counter = 0, tb_toasts = [], tb_version = 0, tb_peer_list_version = 0\<rparr>"

text \<open>What a callback sees of the client: its controller, and its state unless that is borrowed. Nothing before the
  client has been built.\<close>

type_synonym 'p client_view = "(connection_manager option \<times> 'p inner option) option"

definition suppress_leave_toast :: "real \<Rightarrow> 'p client_view \<Rightarrow> string \<Rightarrow> bool" where
  "suppress_leave_toast now view user_id =
     (case view of
        Some (controller, cell) \<Rightarrow>
          if is_reconnecting now controller then True else \<not> has_peer_with_user_id user_id cell
      | None \<Rightarrow> False)"

definition suppress_join_toast :: "real \<Rightarrow> 'p client_view \<Rightarrow> string \<Rightarrow> bool" where
  "suppress_join_toast now view user_id =
     (case view of
        Some (controller, cell) \<Rightarrow>
          if is_reconnecting now controller then True else has_peer_with_user_id user_id cell
      | None \<Rightarrow> False)"

definition on_peer_left ::
  "real \<Rightarrow> 'p client_view \<Rightarrow> string \<Rightarrow> string \<Rightarrow> toast_board \<Rightarrow> toast_board \<times> board_effect list" where
  "on_peer_left now view display_name user_id tb =
     (if suppress_leave_toast now view user_id then (tb, [])
      else
        let i = tb_counter tb
        in (tb\<lparr>tb_counter := i + 1, tb_toasts := tb_toasts tb @ [(i, display_name, user_id, False)],
               tb_version := tb_version tb + 1\<rparr>,
            [LeaveSoundAfter500ms i, RemoveToastAfter8s i]))"

definition on_peer_joined ::
  "real \<Rightarrow> 'p client_view \<Rightarrow> string \<Rightarrow> string \<Rightarrow> toast_board \<Rightarrow> toast_board \<times> board_effect list" where
  "on_peer_joined now view display_name user_id tb =
     (let current = filter (\<lambda>(i, d, uid, is_joined). is_joined \<or> uid \<noteq> user_id) (tb_toasts tb);
          i = tb_counter tb;
          (tb1, es) =
            (if \<not> suppress_join_toast now view user_id
             then (tb\<lparr>tb_counter := i + 1, tb_toasts := current @ [(i, display_name, user_id, True)],
                      tb_version := tb_version tb + 1\<rparr>, [PlayUserJoined, RemoveToastAfter8s i])
             else (tb\<lparr>tb_toasts := current\<rparr>, []))
      in (tb1\<lparr>tb_peer_list_version := tb_peer_list_version tb1 + 1\<rparr>, es))"

definition leave_sound_due :: "u64 \<Rightarrow> toast_board \<Rightarrow> board_effect list" where
  "leave_sound_due i tb = (if list_ex (\<lambda>(tid, _). tid = i) (tb_toasts tb) then [PlayUserLeft] else [])"

definition toast_expires :: "u64 \<Rightarrow> toast_board \<Rightarrow> toast_board" where
  "toast_expires i tb =
     tb\<lparr>tb_toasts := filter (\<lambda>(tid, _). tid \<noteq> i) (tb_toasts tb), tb_version := tb_version tb + 1\<rparr>"

definition board_callback :: "real \<Rightarrow> 'p client_view \<Rightarrow> toast_board \<Rightarrow> 'g client_effect \<Rightarrow> toast_board" where
  "board_callback now view tb e =
     (case e of
        CbPeerLeft d u \<Rightarrow> fst (on_peer_left now view d u tb)
      | CbPeerJoined d u \<Rightarrow> fst (on_peer_joined now view d u tb)
      | _ \<Rightarrow> tb)"

section \<open>The page\<close>

record 'p call_page =
  cp_client :: "'p call_client"
  cp_board :: toast_board

datatype page_event =
    PacketArrives inbound_env real string packet_wrapper
  | ManagerMoves connection_manager "manager_effect list"
  | PeersChecked
  | ConnectCalled "bool \<Rightarrow> string \<Rightarrow> bool" real
  | DisconnectCalled
  | ToastExpires u64

text \<open>One event, with the callbacks of the client it leads to. A panic leaves a dead page: nothing changes.\<close>

fun page_step ::
  "proto \<Rightarrow> 'p crypto \<Rightarrow> 'g key_proto \<Rightarrow> 'p call_page \<Rightarrow> page_event \<Rightarrow> 'p call_page \<times> 'g client_effect list" where
  "page_step P C K pg (PacketArrives E t i packet) =
     (case receive_packet P C K E t i packet (cp_client pg) of
        None \<Rightarrow> (pg, [])
      | Some (cl, es) \<Rightarrow>
          (\<lparr>cp_client = cl,
            cp_board = foldl (board_callback t (Some (cc_controller (cp_client pg), None :: 'p inner option))) (cp_board pg) es\<rparr>, es))"
| "page_step P C K pg (ManagerMoves cm es) =
     (let cl = cp_client pg
      in (pg\<lparr>cp_client := cl\<lparr>cc_inner := fst (report_states es (cc_inner cl)),
                              cc_controller := map_option (\<lambda>_. cm) (cc_controller cl)\<rparr>\<rparr>, []))"
| "page_step P C K pg PeersChecked =
     (let cl = cp_client pg
      in case peer_monitor (cc_inner cl) of (c, es) \<Rightarrow> (pg\<lparr>cp_client := cl\<lparr>cc_inner := c\<rparr>\<rparr>, es))"
| "page_step P C K pg (ConnectCalled opens now) =
     (pg\<lparr>cp_client := fst (snd (connect_with_rtt_testing opens now (cp_client pg)))\<rparr>, [])"
| "page_step P C K pg DisconnectCalled = (pg\<lparr>cp_client := snd (client_disconnect (cp_client pg))\<rparr>, [])"
| "page_step P C K pg (ToastExpires i) = (pg\<lparr>cp_board := toast_expires i (cp_board pg)\<rparr>, [])"

definition page_run :: "proto \<Rightarrow> 'p crypto \<Rightarrow> 'g key_proto \<Rightarrow> 'p call_page \<Rightarrow> page_event list \<Rightarrow> 'p call_page" where
  "page_run P C K pg evs = foldl (\<lambda>p ev. fst (page_step P C K p ev)) pg evs"

section \<open>What the notifications show\<close>

lemma never_reconnecting [simp]: "\<not> is_reconnecting now controller"
  by (cases controller)
     (simp_all add: is_reconnecting_def client_connection_state_def get_connection_state_def
        split: election_state.split option.split)

lemma borrowed_has_no_peer [simp]: "\<not> has_peer_with_user_id u None"
  by (simp add: has_peer_with_user_id_def)

definition only_arrivals :: "toast_board \<Rightarrow> bool" where
  "only_arrivals tb \<longleftrightarrow> list_all (\<lambda>(i, d, u, is_joined). is_joined) (tb_toasts tb)"

lemma board_callback_arrivals:
  "only_arrivals tb \<Longrightarrow> only_arrivals (board_callback now (Some (controller, None)) tb e)"
  by (auto simp: board_callback_def on_peer_left_def on_peer_joined_def suppress_leave_toast_def
      suppress_join_toast_def only_arrivals_def list_all_iff Let_def split: client_effect.split)

interpretation board: invariant_system
  "board_callback now (Some (controller, None))" only_arrivals "\<lambda>_. True"
  by unfold_locales (rule board_callback_arrivals)

lemma toast_expires_arrivals: "only_arrivals tb \<Longrightarrow> only_arrivals (toast_expires i tb)"
  by (auto simp: only_arrivals_def toast_expires_def list_all_iff)

lemma callbacks_arrivals:
  "only_arrivals tb \<Longrightarrow> only_arrivals (foldl (board_callback now (Some (controller, None))) tb es)"
  by (rule board.run_inv) (simp_all add: list_all_iff)

lemma page_step_arrivals:
  "only_arrivals (cp_board pg) \<Longrightarrow> only_arrivals (cp_board (fst (page_step P C K pg ev)))"
  by (cases ev) (simp_all add: Let_def toast_expires_arrivals callbacks_arrivals split: option.split prod.split)

interpretation page_arrivals: invariant_system
  "\<lambda>p ev. fst (page_step P C K p ev)" "\<lambda>p. only_arrivals (cp_board p)" "\<lambda>_. True"
  by unfold_locales (rule page_step_arrivals)

lemma page_run_arrivals:
  "only_arrivals (cp_board pg) \<Longrightarrow> only_arrivals (cp_board (page_run P C K pg evs))"
  unfolding page_run_def by (rule page_arrivals.run_inv) (simp_all add: list_all_iff)

text \<open>C12: Departures are never shown. The callback for a departure runs while the client is borrowed, is told that
  the user is unknown, and shows nothing: over every run, no notification is one of a departure. For the same reason an
  arrival is shown even if the user is in the peer list already, and the test for a reconnection never succeeds.\<close>

theorem departures_never_shown:
  "filter (\<lambda>(i, d, u, is_joined). \<not> is_joined)
     (tb_toasts (cp_board (page_run P C K \<lparr>cp_client = cl, cp_board = toast_board_new\<rparr> evs))) = [] \<and>
   on_peer_left now (Some (controller, None)) d u tb = (tb, []) \<and>
   PlayUserJoined \<in> set (snd (on_peer_joined now (Some (controller, None)) d u tb)) \<and>
   \<not> is_reconnecting now controller"
proof -
  have "only_arrivals (cp_board (page_run P C K \<lparr>cp_client = cl, cp_board = toast_board_new\<rparr> evs))"
    by (rule page_run_arrivals) (simp add: only_arrivals_def toast_board_new_def)
  then show ?thesis
    by (auto simp: only_arrivals_def list_all_iff filter_empty_conv on_peer_left_def on_peer_joined_def
        suppress_leave_toast_def suppress_join_toast_def Let_def)
qed

section \<open>Announcements are spaced\<close>

definition still_recent :: "real \<Rightarrow> ('k \<rightharpoonup> real) \<Rightarrow> 'k \<rightharpoonup> real" where
  "still_recent now m = (\<lambda>k. case m k of Some ts \<Rightarrow> if now - ts < 30000 then Some ts else None | None \<Rightarrow> None)"

text \<open>Either the memory of events is untouched and nothing is announced, or one event was looked up.\<close>

definition looked_up ::
  "real \<Rightarrow> (string \<times> string \<rightharpoonup> real) \<Rightarrow> (string \<times> string \<rightharpoonup> real) \<Rightarrow> 'g client_effect list \<Rightarrow> bool" where
  "looked_up now m m' es \<longleftrightarrow>
     (m' = m \<and> (\<forall>d u. CbPeerJoined d u \<notin> set es \<and> CbPeerLeft d u \<notin> set es)) \<or>
     (\<exists>key. still_recent now m key = None \<and> m' = (still_recent now m)(key \<mapsto> now) \<and>
        (\<forall>d u. (CbPeerJoined d u \<in> set es \<longrightarrow> key = (''joined'', u)) \<and>
               (CbPeerLeft d u \<in> set es \<longrightarrow> key = (''left'', u)))) \<or>
     (m' = still_recent now m \<and> (\<forall>d u. CbPeerJoined d u \<notin> set es \<and> CbPeerLeft d u \<notin> set es))"

abbreviation recents :: "'p inner \<Rightarrow> string \<times> string \<rightharpoonup> real" where
  "recents \<equiv> in_recent_peer_events"

lemma looked_up_same:
  assumes "recents c' = recents c" and "\<And>d u. CbPeerJoined d u \<notin> set es" and "\<And>d u. CbPeerLeft d u \<notin> set es"
  shows "looked_up now (recents c) (recents c') es"
  using assms by (simp add: looked_up_def)

lemma looked_up_first:
  assumes "still_recent now m key = None" and "m' = (still_recent now m)(key \<mapsto> now)"
    and "\<And>d u. CbPeerJoined d u \<in> set es \<Longrightarrow> key = (''joined'', u)"
    and "\<And>d u. CbPeerLeft d u \<in> set es \<Longrightarrow> key = (''left'', u)"
  shows "looked_up now m m' es"
  unfolding looked_up_def by (rule disjI2, rule disjI1, rule exI [of _ key]) (use assms in blast)

fun announces :: "string \<times> string \<Rightarrow> 'g client_effect \<Rightarrow> bool" where
  "announces key (CbPeerJoined d u) = (key = (''joined'', u))"
| "announces key (CbPeerLeft d u) = (key = (''left'', u))"
| "announces key _ = False"

lemma looked_up_cases:
  assumes "looked_up now m m' es"
  obtains (same) "m' = m \<or> m' = still_recent now m" "\<And>key. \<not> list_ex (announces key) es"
  | (first) k where "still_recent now m k = None" "m' = (still_recent now m)(k \<mapsto> now)"
      "\<And>key. list_ex (announces key) es \<Longrightarrow> key = k"
proof -
  have ex: "list_ex (announces key) es \<Longrightarrow> \<exists>d u. (CbPeerJoined d u \<in> set es \<and> key = (''joined'', u)) \<or>
      (CbPeerLeft d u \<in> set es \<and> key = (''left'', u))" for key
  proof -
    assume "list_ex (announces key) es"
    then obtain e where "e \<in> set es" "announces key e" by (auto simp: list_ex_iff)
    moreover from this(2) have "\<exists>d u. (e = CbPeerJoined d u \<and> key = (''joined'', u)) \<or>
      (e = CbPeerLeft d u \<and> key = (''left'', u))" by (cases e) simp_all
    ultimately show ?thesis by blast
  qed
  from assms consider
      "m' = m \<or> m' = still_recent now m" "\<forall>d u. CbPeerJoined d u \<notin> set es \<and> CbPeerLeft d u \<notin> set es"
    | k where "still_recent now m k = None" "m' = (still_recent now m)(k \<mapsto> now)"
        "\<forall>d u. (CbPeerJoined d u \<in> set es \<longrightarrow> k = (''joined'', u)) \<and> (CbPeerLeft d u \<in> set es \<longrightarrow> k = (''left'', u))"
    unfolding looked_up_def by metis
  then show ?thesis
  proof cases
    case 1
    then show ?thesis using ex by (intro same) metis+
  next
    case 2
    then show ?thesis using ex by (intro first [of k]) metis+
  qed
qed

lemma keyframe_request_frame: "recents (snd (try_handle_keyframe_request P w c)) = recents c"
  by (simp add: try_handle_keyframe_request_def Let_def split: option.split)

lemma handle_media_frame:
  assumes "handle_media P C E w c = (c', es)"
  shows "recents c' = recents c" "CbPeerJoined d u \<notin> set es" "CbPeerLeft d u \<notin> set es"
  using assms by (auto simp: handle_media_def split: prod.splits sum.splits peer_decode_error.splits)

lemma handle_aes_key_frame: "handle_aes_key K w c = Some c' \<Longrightarrow> recents c' = recents c"
  by (auto simp: handle_aes_key_def split: option.splits prod.splits)

lemma handle_rsa_pub_key_frame:
  "CbPeerJoined d u \<notin> set (handle_rsa_pub_key C K w c)" "CbPeerLeft d u \<notin> set (handle_rsa_pub_key C K w c)"
  by (auto simp: handle_rsa_pub_key_def Let_def split: option.split)

lemma send_public_key_frame:
  "CbPeerJoined d u \<notin> set (send_public_key C K c)" "CbPeerLeft d u \<notin> set (send_public_key C K c)"
  by (auto simp: send_public_key_def Let_def split: option.split)

lemma duplicate_test_looked_up:
  assumes "is_duplicate_peer_event now ty v c = (dup, c')"
    and "\<And>d u. CbPeerJoined d u \<in> set es \<Longrightarrow> \<not> dup \<and> ty = ''joined'' \<and> v = u"
    and "\<And>d u. CbPeerLeft d u \<in> set es \<Longrightarrow> \<not> dup \<and> ty = ''left'' \<and> v = u"
  shows "looked_up now (recents c) (recents c') es"
proof -
  have m: "(\<lambda>k. case recents c k of Some ts \<Rightarrow> if now - ts < 30000 then Some ts else None | None \<Rightarrow> None) =
      still_recent now (recents c)" by (simp add: still_recent_def)
  show ?thesis
  proof (cases "still_recent now (recents c) (ty, v) = None")
    case True
    then have "recents c' = (still_recent now (recents c))((ty, v) \<mapsto> now)" "\<not> dup"
      using assms(1) by (auto simp: is_duplicate_peer_event_def m Let_def)
    then show ?thesis using assms(2,3) by (intro looked_up_first [OF True]) auto
  next
    case False
    then have "recents c' = still_recent now (recents c)" "dup"
      using assms(1) by (auto simp: is_duplicate_peer_event_def m Let_def)
    then show ?thesis using assms(2,3) by (auto simp: looked_up_def)
  qed
qed

lemma participant_joined_looked_up:
  fixes r :: "('p, 'g) handled"
  assumes "r = participant_joined E mp c"
  shows "looked_up (ie_now E) (recents c) (recents (fst r)) (snd r)"
proof -
  define u where "u = from_utf8_lossy (mp_target_user_id mp)"
  define c1 where "c1 = c\<lparr>in_peer_decode_manager :=
    set_peer_display_name_by_user_id u (shown_name (mp_display_name mp) u) (in_peer_decode_manager c)\<rparr>"
  obtain dup c2 where d: "is_duplicate_peer_event (ie_now E) ''joined'' u c1 = (dup, c2)" by fastforce
  show ?thesis
  proof (cases "mp_target_user_id mp \<noteq> [] \<and> mp_target_user_id mp \<noteq> as_bytes (io_user_id (in_options c))")
    case True
    then have r: "r = (c2, if \<not> dup \<and> io_on_peer_joined (in_options c)
        then [CbPeerJoined (shown_name (mp_display_name mp) u) u] else [])"
      using assms d by (simp add: participant_joined_def Let_def u_def c1_def)
    have "looked_up (ie_now E) (recents c1) (recents c2) (snd r)"
      by (rule duplicate_test_looked_up [OF d]) (auto simp: r split: if_splits)
    then show ?thesis by (simp add: r c1_def)
  next
    case False
    then show ?thesis using assms by (auto simp: participant_joined_def looked_up_def Let_def)
  qed
qed

lemma participant_left_looked_up:
  fixes r :: "('p, 'g) handled"
  assumes "r = participant_left E mp c"
  shows "looked_up (ie_now E) (recents c) (recents (fst r)) (snd r)"
proof -
  define u where "u = from_utf8_lossy (mp_target_user_id mp)"
  obtain c1 and es :: "'g client_effect list" where c1: "(c1, es) = (if mp_session_id mp \<noteq> 0
      then (case delete_peer (mp_session_id mp) (in_peer_decode_manager c) of
              (pm, es) \<Rightarrow> (c\<lparr>in_peer_decode_manager := pm\<rparr>, map Peers es))
      else (c, []))" by (metis surj_pair)
  then have f: "recents c1 = recents c" "CbPeerJoined d v \<notin> set es" "CbPeerLeft d v \<notin> set es" for d v
    by (auto split: if_splits prod.splits)
  obtain dup c2 where d: "is_duplicate_peer_event (ie_now E) ''left'' u c1 = (dup, c2)" by fastforce
  show ?thesis
  proof (cases "mp_target_user_id mp \<noteq> [] \<and> mp_target_user_id mp \<noteq> as_bytes (io_user_id (in_options c))")
    case True
    then have r: "r = (c2, es @ (if \<not> dup \<and> io_on_peer_left (in_options c)
        then [CbPeerLeft (shown_name (mp_display_name mp) u) u] else []))"
      using assms d by (simp add: participant_left_def u_def c1 [symmetric] Let_def)
    have "looked_up (ie_now E) (recents c1) (recents c2) (snd r)"
      by (rule duplicate_test_looked_up [OF d]) (use f in \<open>auto simp: r split: if_splits\<close>)
    then show ?thesis by (simp add: r f(1))
  next
    case False
    then have "r = (c1, es)" using assms by (auto simp: participant_left_def c1 [symmetric] Let_def)
    then show ?thesis using f by (simp add: looked_up_def)
  qed
qed

lemma handle_meeting_looked_up:
  fixes r :: "('p, 'g) handled"
  assumes "r = handle_meeting P E w c"
  shows "looked_up (ie_now E) (recents c) (recents (fst r)) (snd r)"
proof (cases "parse_meeting P (pw_data w)")
  case None
  then show ?thesis using assms by (simp add: handle_meeting_def looked_up_def)
next
  case (Some mp)
  show ?thesis
  proof (cases "meeting_event_type_from_i32 (mp_event_type mp)")
    case None
    then show ?thesis using assms Some by (simp add: handle_meeting_def looked_up_def)
  next
    case (Some ty)
    with \<open>parse_meeting P (pw_data w) = Some mp\<close> show ?thesis
      using assms participant_joined_looked_up [where r = r and E = E and mp = mp and c = c]
        participant_left_looked_up [where r = r and E = E and mp = mp and c = c]
      by (cases ty) (auto simp: handle_meeting_def Let_def looked_up_def)
  qed
qed

lemma dispatch_looked_up:
  assumes "dispatch_packet P C K E w c = Some (early, c', es)"
  shows "looked_up (ie_now E) (recents c) (recents c') es"
proof (cases "packet_type_from_i32 (pw_packet_type w)")
  case None
  then show ?thesis using assms by (simp add: dispatch_packet_def looked_up_def)
next
  case (Some ty)
  note d = assms [unfolded dispatch_packet_def Let_def Some option.case]
  show ?thesis
  proof (cases ty)
    case MEDIA
    obtain b c1 where k: "try_handle_keyframe_request P w c = (b, c1)" by fastforce
    then have "recents c1 = recents c" using keyframe_request_frame [where P = P and w = w and c = c] by simp
    then show ?thesis
      using d MEDIA k by (cases b) (auto intro!: looked_up_same dest: handle_media_frame)
  next
    case MEETING
    then show ?thesis using d handle_meeting_looked_up [where r = "(c', es)" and P = P and E = E and w = w and c = c] by simp
  qed (use d in \<open>auto intro!: looked_up_same dest: handle_aes_key_frame
        simp: handle_rsa_pub_key_frame split: if_splits option.splits\<close>)
qed

lemma inbound_looked_up:
  assumes "on_inbound_media P C K E w c = Some (c', es)"
  shows "looked_up (ie_now E) (recents c) (recents c') es"
proof -
  obtain st c1 where c1: "(st, c1) =
      (if pw_user_id w = as_bytes SYSTEM_USER_ID \<or> pw_session_id w = 0 then (NoChange, c)
       else (case ensure_peer (ie_new_peer E) (pw_session_id w) (from_utf8_lossy (pw_user_id w))
                    (in_peer_decode_manager c) of
               (st, pm) \<Rightarrow> (st, c\<lparr>in_peer_decode_manager := pm\<rparr>)))" by (metis surj_pair)
  then have r: "recents c1 = recents c" by (auto split: if_splits prod.splits)
  from assms obtain early c2 fs where d: "dispatch_packet P C K E w c1 = Some (early, c2, fs)"
      and es: "c' = c2" "es = fs \<or> (\<exists>sid. es = fs @ CbPeerAdded (show_u64 sid) # send_public_key C K c2)"
    unfolding on_inbound_media_def c1 [symmetric]
    by (auto split: option.splits if_splits peer_status.splits)
  then have "set es \<inter> X = set fs \<inter> X" if "X = {CbPeerJoined d u, CbPeerLeft d u}" for X d u
    using that by (auto simp: send_public_key_frame)
  then have same: "(CbPeerJoined d u \<in> set es) = (CbPeerJoined d u \<in> set fs)"
    "(CbPeerLeft d u \<in> set es) = (CbPeerLeft d u \<in> set fs)" for d u by blast+
  show ?thesis using dispatch_looked_up [OF d] by (simp add: looked_up_def same r es(1))
qed

lemma report_states_frame [simp]: "recents (fst (report_states es c)) = recents c"
proof (induction es arbitrary: c)
  case (Cons e es)
  have "recents (fst (on_state_changed st c)) = recents c" for st
    by (simp add: on_state_changed_def split: ui_state.split)
  then show ?case using Cons by (simp add: split_beta Let_def split: manager_effect.split)
qed simp

lemma report_states_recents: "report_states es c = (c', fs) \<Longrightarrow> recents c' = recents c"
  using report_states_frame [of es c] by simp

lemma receive_looked_up:
  assumes "receive_packet P C K E t i w cl = Some (cl', es)"
  shows "looked_up (ie_now E) (recents (cc_inner cl)) (recents (cc_inner cl')) es"
  using assms by (auto simp: receive_packet_def looked_up_same dest: inbound_looked_up
      split: option.splits prod.splits if_splits)

fun event_clock :: "page_event \<Rightarrow> real option" where
  "event_clock (PacketArrives E t i w) = Some (ie_now E)"
| "event_clock _ = None"

text \<open>When a run announces that a user joined (or left): the clock readings at the callbacks.\<close>

fun announcement_times ::
  "proto \<Rightarrow> 'p crypto \<Rightarrow> 'g key_proto \<Rightarrow> string \<times> string \<Rightarrow> 'p call_page \<Rightarrow> page_event list \<Rightarrow> real list" where
  "announcement_times P C K key pg [] = []"
| "announcement_times P C K key pg (ev # evs) =
     (case page_step P C K pg ev of
        (pg1, es) \<Rightarrow>
          (case event_clock ev of Some t \<Rightarrow> if list_ex (announces key) es then [t] else [] | None \<Rightarrow> []) @
          announcement_times P C K key pg1 evs)"

abbreviation page_recents :: "'p call_page \<Rightarrow> string \<times> string \<rightharpoonup> real" where
  "page_recents pg \<equiv> recents (cc_inner (cp_client pg))"

lemma page_step_looked_up:
  assumes "page_step P C K pg ev = (pg1, es)" and "event_clock ev = Some t"
  shows "looked_up t (page_recents pg) (page_recents pg1) es"
  using assms by (cases ev) (auto simp: looked_up_same dest: receive_looked_up split: option.splits)

lemma start_controller_frame [simp]:
  "recents (cc_inner (fst (snd (start_controller opens now cl)))) = recents (cc_inner cl)"
  by (auto simp: start_controller_def Let_def dest: report_states_recents split: sum.split prod.split)

lemma page_step_frame:
  assumes "page_step P C K pg ev = (pg1, es)" and "event_clock ev = None"
  shows "page_recents pg1 = page_recents pg"
  using assms
  by (cases ev) (auto simp: peer_monitor_def client_disconnect_def connect_with_rtt_testing_def Let_def
      split: prod.splits option.splits ui_state.splits)

text \<open>An announcement at \<open>T\<close> is remembered until a reading of the clock is half a minute later.\<close>

definition remembered :: "('k \<rightharpoonup> real) \<Rightarrow> 'k \<Rightarrow> real \<Rightarrow> real \<Rightarrow> bool" where
  "remembered m key T now \<longleftrightarrow> T + 30000 \<le> now \<or> (\<exists>ts. m key = Some ts \<and> T \<le> ts)"

lemma still_recent_remembered:
  assumes "remembered m key T L" and "L \<le> now"
  shows "T + 30000 \<le> now \<or> (\<exists>ts. still_recent now m key = Some ts \<and> T \<le> ts)"
  using assms by (cases "m key") (auto simp: remembered_def still_recent_def)

lemma looked_up_remembered:
  assumes "looked_up now m m' es" and "L \<le> now" and "remembered m key T L"
  shows "remembered m' key T now"
proof (cases "T + 30000 \<le> now")
  case False
  then obtain ts where ts: "still_recent now m key = Some ts" "T \<le> ts" using still_recent_remembered [OF assms(3,2)] by auto
  moreover obtain ts' where ts': "m key = Some ts'" "T \<le> ts'" using False assms(2,3) by (auto simp: remembered_def)
  from assms(1) show ?thesis
  proof (cases rule: looked_up_cases)
    case same
    then show ?thesis using ts ts' by (auto simp: remembered_def)
  next
    case (first k)
    then have "k \<noteq> key" using ts by auto
    then show ?thesis using ts first(2) by (simp add: remembered_def)
  qed
qed (simp add: remembered_def)

lemma looked_up_announced:
  assumes "looked_up now m m' es" and "list_ex (announces key) es"
  shows "still_recent now m key = None" and "remembered m' key now now"
proof -
  from assms(1) have "still_recent now m key = None \<and> m' = (still_recent now m)(key \<mapsto> now)"
    by (cases rule: looked_up_cases) (use assms(2) in auto)
  then show "still_recent now m key = None" "remembered m' key now now" by (simp_all add: remembered_def)
qed

lemma announcements_after:
  assumes "sorted (L # List.map_filter event_clock evs)"
  shows "sorted_wrt (\<lambda>s t. s + 30000 \<le> t) (announcement_times P C K key pg evs) \<and>
    (\<forall>T. remembered (page_recents pg) key T L \<longrightarrow>
      (\<forall>t\<in>set (announcement_times P C K key pg evs). T + 30000 \<le> t))"
  using assms
proof (induction evs arbitrary: pg L)
  case (Cons ev evs)
  obtain pg1 es where st: "page_step P C K pg ev = (pg1, es)" by fastforce
  show ?case
  proof (cases "event_clock ev")
    case None
    then show ?thesis
      using Cons.IH [of L pg1] Cons.prems st page_step_frame [OF st None] by (simp add: map_filter_simps)
  next
    case (Some now)
    then have le: "L \<le> now" and so: "sorted (now # List.map_filter event_clock evs)"
      using Cons.prems by (auto simp: map_filter_simps)
    note look = page_step_looked_up [OF st Some]
    have ih: "sorted_wrt (\<lambda>s t. s + 30000 \<le> t) (announcement_times P C K key pg1 evs)"
      "remembered (page_recents pg1) key T now \<Longrightarrow> t \<in> set (announcement_times P C K key pg1 evs) \<Longrightarrow> T + 30000 \<le> t"
      for T t using Cons.IH [OF so, of pg1] by auto
    have new: "T + 30000 \<le> now" if "list_ex (announces key) es" "remembered (page_recents pg) key T L" for T
      using still_recent_remembered [OF that(2) le] looked_up_announced(1) [OF look that(1)] by auto
    show ?thesis
      using st Some ih new looked_up_announced(2) [OF look] looked_up_remembered [OF look le]
      by auto
  qed
qed simp

text \<open>C13: Announcements are not repeated: over every run in which the clock does not go back, two callbacks that the
  same user joined, or that the same user left, are at least thirty seconds apart. And a departure is announced when
  the user is not the client's own, the callback is set and no departure of that user is remembered.\<close>

theorem announcements_spaced:
  assumes "sorted (List.map_filter event_clock evs)"
  shows "sorted_wrt (\<lambda>s t. s + 30000 \<le> t) (announcement_times P C K key pg evs) \<and>
    (CbPeerLeft name u \<in> set (snd (participant_left E mp c)) \<longleftrightarrow>
      u = from_utf8_lossy (mp_target_user_id mp) \<and> name = shown_name (mp_display_name mp) u \<and>
      mp_target_user_id mp \<noteq> [] \<and> mp_target_user_id mp \<noteq> as_bytes (io_user_id (in_options c)) \<and>
      io_on_peer_left (in_options c) \<and>
      (\<forall>ts. in_recent_peer_events c (''left'', u) = Some ts \<longrightarrow> ts + 30000 \<le> ie_now E))"
proof
  let ?L = "case List.map_filter event_clock evs of [] \<Rightarrow> 0 | t # ts \<Rightarrow> t"
  have "sorted (?L # List.map_filter event_clock evs)" using assms by (auto split: list.split)
  then show "sorted_wrt (\<lambda>s t. s + 30000 \<le> t) (announcement_times P C K key pg evs)"
    using announcements_after by blast
  show "CbPeerLeft name u \<in> set (snd (participant_left E mp c)) \<longleftrightarrow>
      u = from_utf8_lossy (mp_target_user_id mp) \<and> name = shown_name (mp_display_name mp) u \<and>
      mp_target_user_id mp \<noteq> [] \<and> mp_target_user_id mp \<noteq> as_bytes (io_user_id (in_options c)) \<and>
      io_on_peer_left (in_options c) \<and>
      (\<forall>ts. in_recent_peer_events c (''left'', u) = Some ts \<longrightarrow> ts + 30000 \<le> ie_now E)"
    by (auto simp: participant_left_def is_duplicate_peer_event_def Let_def split: prod.splits option.splits if_splits)
qed

end
