(* ===== verification/Call_Keys.thy ===== *)
theory Call_Keys
  imports Call_Client
begin

text \<open>
  Properties of the client's handling of inbound packets: the exchange of media keys between two clients, the packets
  that stop a client, and the callbacks of the waiting room.

  \<^item> The laws of the ciphers are hypotheses: a private key opens what its public key closed, for messages that fit
    PKCS#1 v1.5 under a key of 1024 bits (at most 117 bytes), and CBC decryption inverts encryption.
  \<^item> The server writes the session of the sender into a packet it forwards; the statements do the same.
\<close>

definition rsa_pair :: "'p crypto \<Rightarrow> 'p rsa_wrapper \<Rightarrow> bool" where
  "rsa_pair C rsa \<longleftrightarrow>
     (\<exists>der. cr_to_public_key_der C (rs_pub_key rsa) = Some der \<and>
        cr_from_public_key_der C der = Some (rs_pub_key rsa)) \<and>
     (\<forall>d. length d \<le> 117 \<longrightarrow>
        (\<exists>ct. cr_rsa_encrypt C (rs_pub_key rsa) d = Some ct \<and> rs_key rsa ct = Some d))"

definition key_proto_roundtrip :: "'g key_proto \<Rightarrow> bool" where
  "key_proto_roundtrip K \<longleftrightarrow>
     (\<forall>m. \<exists>b. kp_write_rsa K m = Some b \<and> kp_parse_rsa K b = Some m) \<and>
     (\<forall>k v. length k = 16 \<and> length v = 16 \<longrightarrow>
        (\<exists>b. kp_write_aes K (k, v) = Some b \<and> length b \<le> 117 \<and> kp_parse_aes K b = Some (k, v)))"

definition cbc_inverse :: "'p crypto \<Rightarrow> bool" where
  "cbc_inverse C \<longleftrightarrow> (\<forall>k v d. cr_cbc_decrypt C k v (cr_cbc_encrypt C k v d) = Some d)"

text \<open>A client with encryption on, as \<open>VideoCallClient::new\<close> builds it, that has a controller.\<close>

definition e2ee_client :: "'p inner \<Rightarrow> bool" where
  "e2ee_client c \<longleftrightarrow> io_enable_e2ee (in_options c) \<and> rs_enabled (in_rsa c) \<and> ae_enabled (in_aes c) \<and>
     length (ae_key (in_aes c)) = 16 \<and> length (ae_iv (in_aes c)) = 16 \<and> in_has_controller c"

definition from_session :: "u64 \<Rightarrow> packet_wrapper \<Rightarrow> packet_wrapper" where
  "from_session sid w = w\<lparr>pw_session_id := sid\<rparr>"

lemma from_session_sel [simp]:
  "pw_session_id (from_session sid w) = sid" "pw_packet_type (from_session sid w) = pw_packet_type w"
  "pw_user_id (from_session sid w) = pw_user_id w" "pw_data (from_session sid w) = pw_data w"
  by (simp_all add: from_session_def)

section \<open>Handling a packet\<close>

text \<open>The table of peers before the packet is dispatched, and what follows the dispatch.\<close>

definition with_sender :: "inbound_env \<Rightarrow> packet_wrapper \<Rightarrow> 'p inner \<Rightarrow> peer_status \<times> 'p inner" where
  "with_sender E w c =
     (if pw_user_id w = as_bytes SYSTEM_USER_ID \<or> pw_session_id w = 0 then (NoChange, c)
      else (case ensure_peer (ie_new_peer E) (pw_session_id w) (from_utf8_lossy (pw_user_id w))
                   (in_peer_decode_manager c) of
              (st, pm) \<Rightarrow> (st, c\<lparr>in_peer_decode_manager := pm\<rparr>)))"

lemma on_inbound_media_alt:
  "on_inbound_media P C K E w c =
     (case with_sender E w c of
        (st, c1) \<Rightarrow>
          (case dispatch_packet P C K E w c1 of
             None \<Rightarrow> None
           | Some (early, c2, es) \<Rightarrow>
               Some (c2, es @ (case st of
                                 Added sid \<Rightarrow> if early then [] else CbPeerAdded (show_u64 sid) # send_public_key C K c2
                               | NoChange \<Rightarrow> []))))"
  unfolding on_inbound_media_def with_sender_def Let_def
  by (simp split: prod.split option.split peer_status.split)

lemma with_sender_frame:
  assumes "with_sender E w c = (st, c1)"
  shows "in_options c1 = in_options c" "in_rsa c1 = in_rsa c" "in_aes c1 = in_aes c"
    "in_has_controller c1 = in_has_controller c"
  using assms by (auto simp: with_sender_def split: if_splits prod.splits)

lemma with_known_sender:
  assumes "hm_map (pm_connected_peers (in_peer_decode_manager c)) (pw_session_id w) = Some pe"
  shows "with_sender E w c = (NoChange, c)"
  using assms by (simp add: with_sender_def ensure_peer_def hmok_contains_key_def)

section \<open>Packets that stop the client\<close>

lemma dispatch_panics_iff:
  "dispatch_packet P C K E w c = None \<longleftrightarrow>
     io_enable_e2ee (in_options c) \<and> pw_packet_type w = packet_type_value AES_KEY \<and>
     handle_aes_key K w c = None"
proof -
  have "packet_type_from_i32 (pw_packet_type w) = Some AES_KEY \<longleftrightarrow> pw_packet_type w = packet_type_value AES_KEY"
    by (auto simp: packet_type_from_i32_def packet_type_value.simps split: if_splits)
  then show ?thesis
    by (auto simp: dispatch_packet_def Let_def split: option.split packet_type.split prod.split bool.split)
qed

lemma handle_aes_key_panics_iff:
  "handle_aes_key K w c = None \<longleftrightarrow>
     (\<exists>bs key iv. rsa_decrypt (in_rsa c) (pw_data w) = Some bs \<and> kp_parse_aes K bs = Some (key, iv) \<and>
        \<not> (length key = 16 \<and> length iv = 16))"
  by (auto simp: handle_aes_key_def aes_from_vecs_def split: option.split)


section \<open>The exchange of keys\<close>

lemma public_key_sent:
  assumes "e2ee_client a" and "rsa_pair C (in_rsa a)" and "key_proto_roundtrip K"
  obtains w der where "send_public_key C K a = [ToServer w]" and "pw_packet_type w = packet_type_value RSA_PUB_KEY"
    and "kp_parse_rsa K (pw_data w) = Some (as_bytes (io_user_id (in_options a)), der)"
    and "cr_from_public_key_der C der = Some (rs_pub_key (in_rsa a))"
proof -
  obtain der where der: "cr_to_public_key_der C (rs_pub_key (in_rsa a)) = Some der"
      "cr_from_public_key_der C der = Some (rs_pub_key (in_rsa a))"
    using assms(2) by (auto simp: rsa_pair_def)
  obtain b where b: "kp_write_rsa K (as_bytes (io_user_id (in_options a)), der) = Some b"
      "kp_parse_rsa K b = Some (as_bytes (io_user_id (in_options a)), der)"
    using assms(3) unfolding key_proto_roundtrip_def by meson
  show thesis
    by (rule that [of "default_packet_wrapper \<lparr>pw_packet_type := packet_type_value RSA_PUB_KEY,
          pw_user_id := as_bytes (io_user_id (in_options a)), pw_data := b\<rparr>" der])
       (use assms(1) der b in \<open>simp_all add: send_public_key_def e2ee_client_def default_packet_wrapper_def Let_def\<close>)
qed

lemma media_key_answered:
  assumes "e2ee_client b" and "key_proto_roundtrip K" and "rsa_pair C rsa"
    and "kp_parse_rsa K (pw_data w) = Some (u, der)" and "cr_from_public_key_der C der = Some (rs_pub_key rsa)"
  obtains w2 d where "handle_rsa_pub_key C K w b = [ToServer w2]" and "pw_packet_type w2 = packet_type_value AES_KEY"
    and "rs_key rsa (pw_data w2) = Some d" and "kp_parse_aes K d = Some (ae_key (in_aes b), ae_iv (in_aes b))"
proof -
  obtain d where d: "serialize_aes_packet K b = Some d" "length d \<le> 117"
      "kp_parse_aes K d = Some (ae_key (in_aes b), ae_iv (in_aes b))"
    using assms(1,2) unfolding e2ee_client_def key_proto_roundtrip_def serialize_aes_packet_def by meson
  obtain ct where ct: "cr_rsa_encrypt C (rs_pub_key rsa) d = Some ct" "rs_key rsa ct = Some d"
    using assms(3) d(2) unfolding rsa_pair_def by meson
  show thesis
    by (rule that [of "default_packet_wrapper \<lparr>pw_packet_type := packet_type_value AES_KEY,
          pw_user_id := as_bytes (io_user_id (in_options b)), pw_data := ct\<rparr>" d])
       (use assms(1,4,5) d ct in \<open>simp_all add: handle_rsa_pub_key_def encrypt_with_key_def e2ee_client_def
          default_packet_wrapper_def Let_def\<close>)
qed

lemma media_key_stored:
  assumes "e2ee_client a" and "rs_key (in_rsa a) (pw_data w) = Some d" and "kp_parse_aes K d = Some (ae_key k, ae_iv k)"
    and "ae_enabled k" "length (ae_key k) = 16" "length (ae_iv k) = 16"
    and "hm_map (pm_connected_peers (in_peer_decode_manager a)) (pw_session_id w) = Some pe"
    and "pw_packet_type w = packet_type_value AES_KEY"
  shows "\<exists>a'. on_inbound_media P C K E w a = Some (a', []) \<and>
    map_option pe_aes (get_peer (pw_session_id w) (in_peer_decode_manager a')) = Some (Some k)"
  using assms
  by (simp add: on_inbound_media_alt with_known_sender dispatch_packet_def handle_aes_key_def rsa_decrypt_def
      e2ee_client_def aes_from_vecs_def set_peer_aes_def modify_peer_def hmok_modify_def get_peer_def hmok_get_def)

text \<open>C11: Two clients with encryption on agree on a key. When client a, which has session \<open>sb\<close> of client b in its
  table, sends its public key, b answers with its own media key, closed with that public key, and keeps its key; when a
  receives the answer, it stores exactly b's media key for that session, and opens with it what b closes.\<close>

theorem key_exchange:
  assumes "e2ee_client a" and "e2ee_client b" and "rsa_pair C (in_rsa a)" and "key_proto_roundtrip K"
    and "cbc_inverse C" and "hm_map (pm_connected_peers (in_peer_decode_manager a)) sb = Some pe"
  shows "\<exists>w1 w2 b' fs a' k.
     send_public_key C K a = [ToServer w1] \<and>
     on_inbound_media P C K E (from_session sa w1) b = Some (b', fs) \<and> ToServer w2 \<in> set fs \<and>
     on_inbound_media P C K E' (from_session sb w2) a = Some (a', []) \<and> in_aes b' = in_aes b \<and>
     map_option pe_aes (get_peer sb (in_peer_decode_manager a')) = Some (Some k) \<and>
     aes_decrypt C k (aes_encrypt C (in_aes b') d) = Some d"
proof -
  obtain w1 der where w1: "send_public_key C K a = [ToServer w1]" "pw_packet_type w1 = packet_type_value RSA_PUB_KEY"
      "kp_parse_rsa K (pw_data w1) = Some (as_bytes (io_user_id (in_options a)), der)"
      "cr_from_public_key_der C der = Some (rs_pub_key (in_rsa a))"
    using public_key_sent [OF assms(1,3,4)] by blast
  obtain st b1 where s: "with_sender E (from_session sa w1) b = (st, b1)" by fastforce
  note fr = with_sender_frame [OF s]
  have e: "e2ee_client b1" using assms(2) fr by (simp add: e2ee_client_def)
  obtain w2 d2 where w2: "handle_rsa_pub_key C K (from_session sa w1) b1 = [ToServer w2]"
      "pw_packet_type w2 = packet_type_value AES_KEY" "rs_key (in_rsa a) (pw_data w2) = Some d2"
      "kp_parse_aes K d2 = Some (ae_key (in_aes b), ae_iv (in_aes b))"
    using media_key_answered [OF e assms(4,3), of "from_session sa w1"] w1(3,4) fr(3) by auto
  have b: "on_inbound_media P C K E (from_session sa w1) b =
      Some (b1, [ToServer w2] @ (case st of Added sid \<Rightarrow> CbPeerAdded (show_u64 sid) # send_public_key C K b1 | NoChange \<Rightarrow> []))"
    using s w1(2) w2(1) e
    by (simp add: on_inbound_media_alt dispatch_packet_def e2ee_client_def Let_def split: peer_status.split)
  obtain a' where a': "on_inbound_media P C K E' (from_session sb w2) a = Some (a', [])"
      "map_option pe_aes (get_peer sb (in_peer_decode_manager a')) = Some (Some (in_aes b))"
    using media_key_stored [OF assms(1), of "from_session sb w2" d2 K "in_aes b" pe P C E'] w2(2-4) assms(2,6)
    by (auto simp: e2ee_client_def)
  have "aes_decrypt C (in_aes b) (aes_encrypt C (in_aes b1) d) = Some d"
    using assms(2,5) fr(3) by (simp add: aes_decrypt_def aes_encrypt_def e2ee_client_def cbc_inverse_def)
  then show ?thesis using w1(1) b a' fr(3) by force
qed

end
