(* ===== verification/Call_Witnesses.thy ===== *)
theory Call_Witnesses
  imports Call_Page Call_Keys
begin

text \<open>Concrete clients for the properties of \<open>Call_Page\<close> and \<open>Call_Keys\<close>: ciphers that satisfy the laws, two clients
  that exchange keys, and a page that receives the announcement of a participant three times.\<close>

section \<open>Two clients exchange keys\<close>

definition demo_crypto :: "unit crypto" where
  "demo_crypto =
     \<lparr>cr_cbc_encrypt = (\<lambda>k v d. k @ v @ d),
      cr_cbc_decrypt = (\<lambda>k v d. if take (length (k @ v)) d = k @ v then Some (drop (length (k @ v)) d) else None),
      cr_rsa_encrypt = (\<lambda>p d. Some (rev d)), cr_to_public_key_der = (\<lambda>p. Some [5]),
      cr_from_public_key_der = (\<lambda>der. if der = [5] then Some () else None)\<rparr>"

definition demo_keys :: "unit key_proto" where
  "demo_keys =
     \<lparr>kp_parse_aes = (\<lambda>b. Some (take 16 b, drop 16 b)), kp_write_aes = (\<lambda>(k, v). Some (k @ v)),
      kp_parse_rsa = (\<lambda>b. case take_fields 2 b of [u, d] \<Rightarrow> Some (u, d) | _ \<Rightarrow> None),
      kp_write_rsa = (\<lambda>(u, d). Some (frame_fields [u, d])), kp_parse_diagnostics = (\<lambda>b. None)\<rparr>"

definition demo_options :: "string \<Rightarrow> inner_options" where
  "demo_options user =
     \<lparr>io_enable_e2ee = True, io_user_id = user, io_on_meeting_info = True, io_on_meeting_ended = True,
      io_on_meeting_activated = True, io_on_participant_admitted = True, io_on_participant_rejected = True,
      io_on_waiting_room_updated = True, io_on_peer_left = True, io_on_peer_joined = True\<rparr>"

definition demo_client :: "string \<Rightarrow> 8 word \<Rightarrow> unit inner" where
  "demo_client user seed =
     \<lparr>in_options = demo_options user, in_has_controller = True, in_connection_state = UiFailed ''Not connected'' None,
      in_aes = \<lparr>ae_enabled = True, ae_key = replicate 16 seed, ae_iv = replicate 16 (seed + 1)\<rparr>,
      in_rsa = \<lparr>rs_enabled = True, rs_pub_key = (), rs_key = (\<lambda>d. Some (rev d))\<rparr>,
      in_peer_decode_manager = snd (ensure_peer True 7 ''bob'' (peer_manager_new False)),
      in_has_sender_diagnostics = False, in_own_session_id = None, in_recent_peer_events = Map.empty,
      in_force_camera_keyframe = False, in_force_screen_keyframe = False, in_congestion_step_down_requested = False\<rparr>"

definition demo_env :: "real \<Rightarrow> inbound_env" where
  "demo_env now =
     \<lparr>ie_now = now, ie_now_ms = 0,
      ie_answers = \<lparr>da_video = None, da_audio = None, da_screen = None, da_screen_waiting = False, da_new_decoders = True\<rparr>,
      ie_new_peer = True\<rparr>"

lemma demo_laws:
  "e2ee_client (demo_client u k)" "rsa_pair demo_crypto (in_rsa (demo_client u k))" "key_proto_roundtrip demo_keys"
  "cbc_inverse demo_crypto"
  by (simp_all add: e2ee_client_def rsa_pair_def key_proto_roundtrip_def cbc_inverse_def demo_client_def demo_options_def
      demo_crypto_def demo_keys_def take_fields_frame numeral_2_eq_2 del: frame_fields.simps take_fields.simps)

lemma demo_knows_bob: "\<exists>pe. hm_map (pm_connected_peers (in_peer_decode_manager (demo_client u k))) 7 = Some pe"
  by (simp add: demo_client_def ensure_peer_def add_peer_def peer_manager_new_def hmok_contains_key_def hmok_new_def
      hmok_insert_def Let_def)

theorem key_exchange_witness:
  "\<exists>w1 w2 b' fs a' k.
     send_public_key demo_crypto demo_keys (demo_client ''ana'' 1) = [ToServer w1] \<and>
     on_inbound_media ref_proto demo_crypto demo_keys (demo_env 0) (from_session 3 w1) (demo_client ''bob'' 9) = Some (b', fs) \<and>
     ToServer w2 \<in> set fs \<and>
     on_inbound_media ref_proto demo_crypto demo_keys (demo_env 0) (from_session 7 w2) (demo_client ''ana'' 1) = Some (a', []) \<and>
     map_option pe_aes (get_peer 7 (in_peer_decode_manager a')) = Some (Some k) \<and>
     aes_decrypt demo_crypto k (aes_encrypt demo_crypto (in_aes b') [4, 2]) = Some [4, 2]"
proof -
  obtain pe where pe: "hm_map (pm_connected_peers (in_peer_decode_manager (demo_client ''ana'' 1))) 7 = Some pe"
    using demo_knows_bob by blast
  show ?thesis
    using key_exchange [OF demo_laws(1) [of "''ana''" 1] demo_laws(1) [of "''bob''" 9] demo_laws(2) demo_laws(3,4) pe,
        where P = ref_proto and E = "demo_env 0" and E' = "demo_env 0" and sa = 3 and d = "[4, 2]"] by blast
qed

section \<open>A participant is announced\<close>

definition dora_joins :: meeting_packet where
  "dora_joins = default_meeting_packet
     \<lparr>mp_event_type := meeting_event_type_value PARTICIPANT_JOINED, mp_target_user_id := as_bytes ''dora''\<rparr>"

definition dora_proto :: proto where
  "dora_proto = ref_proto\<lparr>parse_meeting := \<lambda>b. Some dora_joins\<rparr>"

definition demo_packet :: packet_wrapper where
  "demo_packet = default_packet_wrapper
     \<lparr>pw_packet_type := packet_type_value MEETING, pw_user_id := as_bytes SYSTEM_USER_ID\<rparr>"

definition demo_manager :: connection_manager where
  "demo_manager =
     \<lparr>cm_connections = [], cm_active_connection_id = None, cm_rtt_measurements = [],
      cm_election_state = ElectionTesting 0 2000 0, cm_rtt_responses = [],
      cm_options = \<lparr>mo_websocket_urls = [''u''], mo_webtransport_urls = [], mo_userid = ''ana'', mo_election_period_ms = 2000\<rparr>,
      cm_own_session_id = Some 9, cm_pending_session_ids = [],
      cm_reconnection_phase = Idle, cm_baseline_rtt = None, cm_degradation_counter = 0,
      cm_reelection_in_progress = False, cm_old_active_connection = None,
      cm_intentionally_disconnected = False, cm_next_serial = 0\<rparr>"

definition demo_call :: "unit call_client" where
  "demo_call =
     \<lparr>cc_websocket_urls = [''u''], cc_webtransport_urls = [], cc_enable_webtransport = False,
      cc_rtt_testing_period_ms = 2000, cc_health_reporter = False, cc_on_speaking_changed = False,
      cc_inner = demo_client ''ana'' 1, cc_controller = Some demo_manager\<rparr>"

definition demo_page :: "(string \<times> string \<rightharpoonup> real) \<Rightarrow> aes128 peer_manager \<Rightarrow> toast_board \<Rightarrow> unit call_page" where
  "demo_page m pm tb =
     \<lparr>cp_client = demo_call\<lparr>cc_inner := (demo_client ''ana'' 1)\<lparr>in_peer_decode_manager := pm, in_recent_peer_events := m\<rparr>\<rparr>,
      cp_board = tb\<rparr>"

abbreviation demo_event :: "real \<Rightarrow> page_event" where
  "demo_event t \<equiv> PacketArrives (demo_env t) t ''ws_0'' demo_packet"

lemma lossy_dora: "from_utf8_lossy (as_bytes ''dora'') = ''dora''"
  by (rule from_utf8_lossy_ascii) (simp add: of_char_def)

lemma demo_inbound:
  "inbound_media_callback P dec t i demo_packet demo_manager = (demo_manager, [EmitInbound demo_packet])"
  by (simp add: inbound_media_callback_def demo_packet_def demo_manager_def default_packet_wrapper_def
      SYSTEM_USER_ID_def as_bytes_def)

lemma demo_now [simp]: "ie_now (demo_env t) = t"
  by (simp add: demo_env_def)

lemma dora_joins_sel:
  "as_bytes ''dora'' \<noteq> []" "as_bytes ''dora'' \<noteq> as_bytes ''ana''"
  "mp_target_user_id dora_joins = as_bytes ''dora''" "mp_display_name dora_joins = []"
  "meeting_event_type_from_i32 (mp_event_type dora_joins) = Some PARTICIPANT_JOINED"
  by (simp_all add: as_bytes_def dora_joins_def default_meeting_packet_def meeting_event_type_from_i32_def
      meeting_event_type_value.simps)

lemma dora_looked_up:
  assumes "in_options c = demo_options ''ana''"
  shows "\<exists>pm'. participant_joined (demo_env t) dora_joins c =
     (if still_recent t (in_recent_peer_events c) (''joined'', ''dora'') = None
      then (c\<lparr>in_peer_decode_manager := pm',
              in_recent_peer_events := (still_recent t (in_recent_peer_events c))((''joined'', ''dora'') \<mapsto> t)\<rparr>,
            [CbPeerJoined ''dora'' ''dora''])
      else (c\<lparr>in_peer_decode_manager := pm', in_recent_peer_events := still_recent t (in_recent_peer_events c)\<rparr>, []))"
proof -
  have m: "(\<lambda>k. case m k of Some ts \<Rightarrow> if t - ts < 30000 then Some ts else None | None \<Rightarrow> None) = still_recent t m"
    for m :: "string \<times> string \<rightharpoonup> real" by (simp add: still_recent_def)
  show ?thesis
    by (rule exI [of _ "set_peer_display_name_by_user_id ''dora'' ''dora'' (in_peer_decode_manager c)"])
       (simp add: participant_joined_def dora_joins_sel lossy_dora shown_name_def is_duplicate_peer_event_def m
          assms demo_options_def Let_def)
qed

lemma demo_meeting_step:
  "\<exists>pm' tb'. page_step dora_proto demo_crypto demo_keys (demo_page m pm tb) (demo_event t) =
     (if still_recent t m (''joined'', ''dora'') = None
      then (demo_page ((still_recent t m)((''joined'', ''dora'') \<mapsto> t)) pm' tb', [CbPeerJoined ''dora'' ''dora''])
      else (demo_page (still_recent t m) pm' tb', []))"
proof -
  let ?c = "(demo_client ''ana'' 1)\<lparr>in_peer_decode_manager := pm, in_recent_peer_events := m\<rparr>"
  have o: "in_options ?c = demo_options ''ana''" by (simp add: demo_client_def)
  have "in_recent_peer_events ?c = m" by simp
  from dora_looked_up [OF o, of t, unfolded this]
  obtain pm' where j: "(participant_joined (demo_env t) dora_joins ?c :: (unit, unit) handled) =
     (if still_recent t m (''joined'', ''dora'') = None
      then (?c\<lparr>in_peer_decode_manager := pm',
              in_recent_peer_events := (still_recent t m)((''joined'', ''dora'') \<mapsto> t)\<rparr>,
            [CbPeerJoined ''dora'' ''dora''])
      else (?c\<lparr>in_peer_decode_manager := pm', in_recent_peer_events := still_recent t m\<rparr>, []))" by (elim exE)
  have d: "on_inbound_media dora_proto demo_crypto demo_keys (demo_env t) demo_packet ?c =
      Some (participant_joined (demo_env t) dora_joins ?c)"
    by (simp add: on_inbound_media_alt with_sender_def dispatch_packet_def handle_meeting_def demo_packet_def
        default_packet_wrapper_def dora_proto_def dora_joins_sel split: prod.split)
  show ?thesis
    by (rule exI [of _ pm']) (simp add: demo_page_def demo_call_def receive_packet_def demo_inbound d j controller_call_def)
qed

definition demo_start :: "unit call_page" where
  "demo_start = demo_page Map.empty (peer_manager_new False) toast_board_new"

lemma dora_announced:
  "announcement_times dora_proto demo_crypto demo_keys (''joined'', ''dora'') demo_start
     [demo_event 0, demo_event 10000, demo_event 40000] = [0, 40000]"
proof -
  let ?k = "(''joined'', ''dora'')"
  have r: "still_recent t Map.empty = Map.empty" "still_recent 10000 [?k \<mapsto> 0] = [?k \<mapsto> 0]"
    "still_recent 40000 [?k \<mapsto> 0] = Map.empty" for t by (auto simp: still_recent_def)
  obtain p1 b1 where 1: "page_step dora_proto demo_crypto demo_keys demo_start (demo_event 0) =
      (demo_page [?k \<mapsto> 0] p1 b1, [CbPeerJoined ''dora'' ''dora''])"
    using demo_meeting_step [of Map.empty "peer_manager_new False" toast_board_new 0] by (auto simp: demo_start_def r)
  obtain p2 b2 where 2: "page_step dora_proto demo_crypto demo_keys (demo_page [?k \<mapsto> 0] p1 b1) (demo_event 10000) =
      (demo_page [?k \<mapsto> 0] p2 b2, [])"
    using demo_meeting_step [of "[?k \<mapsto> 0]" p1 b1 10000] by (auto simp: r)
  obtain p3 b3 where 3: "page_step dora_proto demo_crypto demo_keys (demo_page [?k \<mapsto> 0] p2 b2) (demo_event 40000) =
      (demo_page [?k \<mapsto> 40000] p3 b3, [CbPeerJoined ''dora'' ''dora''])"
    using demo_meeting_step [of "[?k \<mapsto> 0]" p2 b2 40000] by (auto simp: r)
  show ?thesis by (simp add: 1 2 3 del: page_step.simps)
qed

theorem announcements_spaced_witness:
  "announcement_times dora_proto demo_crypto demo_keys (''joined'', ''dora'') demo_start
     [demo_event 0, demo_event 10000, demo_event 40000] = [0, 40000] \<and>
   sorted_wrt (\<lambda>s t. s + 30000 \<le> t) [0 :: real, 40000]"
  using announcements_spaced [where evs = "[demo_event 0, demo_event 10000, demo_event 40000]" and P = dora_proto and
      C = demo_crypto and K = demo_keys and key = "(''joined'', ''dora'')" and pg = demo_start] dora_announced
  by (simp add: map_filter_simps del: announcement_times.simps page_step.simps)

end
