(* ===== verification/Transport_Sessions.thy ===== *)
theory Transport_Sessions
  imports Session_Logic
begin

text \<open>
  The session actors of the media server, \<open>actors/transports/ws_chat_session.rs\<close> and \<open>wt_chat_session.rs\<close>, with the
  bridge of \<open>webtransport/bridge.rs\<close>: how the session logic is driven by a transport.

  \<^item> An actor handles one event after the other. What it sends is returned in program order. \<open>ctx.stop()\<close> is always
    the last thing a handler does; it runs \<open>stopping\<close>, and an actor that stopped handles nothing more.
  \<^item> The answers of the session manager and of the chat server are events of their own: the order in which the
    runtime delivers them is not fixed by the code.
  \<^item> \<open>ctx.notify\<close> puts a packet into a queue of the actor, from which it is handled later.
  \<^item> The outbound channel of WebTransport is a bounded queue with a flag for its closing. The writer takes from it.
\<close>

section \<open>Constants and messages\<close>

definition HEARTBEAT_INTERVAL :: nat where "HEARTBEAT_INTERVAL = ms 5000"
definition CLIENT_TIMEOUT :: nat where "CLIENT_TIMEOUT = ms 30000"
definition WT_HEARTBEAT_INTERVAL :: nat where "WT_HEARTBEAT_INTERVAL = ms 5000"
definition KEEP_ALIVE_PING :: bytes where "KEEP_ALIVE_PING = as_bytes ''ping''"
definition DATAGRAM_MAX_SIZE :: nat where "DATAGRAM_MAX_SIZE = 1200"
definition OUTBOUND_CAPACITY :: nat where "OUTBOUND_CAPACITY = 256"

datatype session_effect =
    Logic logic_effect
  | ToChatConnect u64
  | ToChatJoin join_room_msg
  | ToChatActivate activate_connection_msg
  | ToChatClient client_message
  | ToClient bytes
  | SendPing
  | SendPong bytes
  | SendClose "(nat \<times> string) option"

datatype ws_message =
    WsBinary bytes
  | WsPing bytes
  | WsPong bytes
  | WsText string
  | WsClose "(nat \<times> string) option"
  | WsOther

text \<open>\<open>CloseCode::Policy\<close>.\<close>

definition CLOSE_POLICY :: nat where "CLOSE_POLICY = 1008"

section \<open>WebSocket\<close>

record ws_session =
  ws_logic :: session_logic
  ws_heartbeat :: instant
  ws_activated :: bool
  ws_notified :: "bytes list"
  ws_stopped :: bool

definition ws_session_new :: "session_logic \<Rightarrow> instant \<Rightarrow> ws_session" where
  "ws_session_new l now =
     \<lparr>ws_logic = l, ws_heartbeat = now, ws_activated = False, ws_notified = [], ws_stopped = False\<rparr>"

definition ws_started :: "ws_session \<Rightarrow> ws_session \<times> session_effect list" where
  "ws_started s =
     (s, map Logic (track_connection_start (ws_logic s) ''websocket'') @
         [ToChatConnect (sl_id (ws_logic s)), ToChatJoin (create_join_room_message (ws_logic s))])"

definition ws_stop :: "ws_session \<Rightarrow> session_effect list \<Rightarrow> ws_session \<times> session_effect list" where
  "ws_stop s es = (s\<lparr>ws_stopped := True\<rparr>, es @ map Logic (on_stopping (ws_logic s)))"

definition ws_session_started ::
  "proto \<Rightarrow> string + session_start_result \<Rightarrow> ws_session \<Rightarrow> ws_session \<times> session_effect list" where
  "ws_session_started P result s =
     (case result of
        Inr r \<Rightarrow>
          (s, [ToClient (build_session_assigned P (ws_logic s)),
               ToClient (build_meeting_started P (ws_logic s) (ssr_start_time_ms r) (ssr_creator_id r))])
      | Inl e \<Rightarrow>
          ws_stop s [ToClient (build_meeting_ended P (ws_logic s) (''Session rejected: '' @ e)),
                     SendClose (Some (CLOSE_POLICY, ''Session rejected''))])"

text \<open>The answers of the chat server to \<open>Connect\<close> and \<open>JoinRoom\<close>.\<close>

definition ws_connected :: "bool \<Rightarrow> ws_session \<Rightarrow> ws_session \<times> session_effect list" where
  "ws_connected ok s = (if ok then (s, []) else ws_stop s [])"

definition ws_joined :: "string + (string + unit) \<Rightarrow> ws_session \<Rightarrow> ws_session \<times> session_effect list" where
  "ws_joined result s = (if handle_join_room_result (ws_logic s) result then ws_stop s [] else (s, []))"

definition ws_heartbeat_check :: "instant \<Rightarrow> ws_session \<Rightarrow> ws_session \<times> session_effect list" where
  "ws_heartbeat_check now s =
     (if now - ws_heartbeat s > CLIENT_TIMEOUT then ws_stop s [] else (s, [SendPing]))"

definition ws_outbound :: "session_message \<Rightarrow> ws_session \<Rightarrow> ws_session \<times> session_effect list" where
  "ws_outbound msg s =
     (case handle_outbound (ws_logic s) msg of (bs, es) \<Rightarrow> (s, map Logic es @ [ToClient bs]))"

definition ws_packet :: "ws_session \<Rightarrow> ws_session \<times> session_effect list" where
  "ws_packet s =
     (case ws_notified s of
        [] \<Rightarrow> (s, [])
      | data # rest \<Rightarrow>
          (s\<lparr>ws_notified := rest\<rparr>, [ToChatClient (create_client_message (ws_logic s) data)]))"

definition ws_binary :: "proto \<Rightarrow> instant \<Rightarrow> bytes \<Rightarrow> ws_session \<Rightarrow> ws_session \<times> session_effect list" where
  "ws_binary P now data s =
     (case handle_inbound P now (ws_logic s) data of
        (action, l, es) \<Rightarrow>
          let s1 = s\<lparr>ws_heartbeat := now, ws_logic := l\<rparr>;
              (s2, fs) = (if \<not> ws_activated s1 \<and> should_activate_on_action action
                          then (s1\<lparr>ws_activated := True\<rparr>, [ToChatActivate \<lparr>ac_session = sl_id l\<rparr>])
                          else (s1, []))
          in (case action of
                Echo bs \<Rightarrow> (s2, map Logic es @ fs @ [ToClient bs])
              | Forward bs \<Rightarrow> (s2\<lparr>ws_notified := ws_notified s2 @ [bs]\<rparr>, map Logic es @ fs)
              | _ \<Rightarrow> (s2, map Logic es @ fs)))"

definition ws_item ::
  "proto \<Rightarrow> instant \<Rightarrow> string + ws_message \<Rightarrow> ws_session \<Rightarrow> ws_session \<times> session_effect list" where
  "ws_item P now item s =
     (case item of
        Inl err \<Rightarrow> ws_stop s []
      | Inr msg \<Rightarrow>
          (case msg of
             WsBinary data \<Rightarrow> ws_binary P now data s
           | WsPing bs \<Rightarrow> (s\<lparr>ws_heartbeat := now\<rparr>, [SendPong bs])
           | WsPong bs \<Rightarrow> (s\<lparr>ws_heartbeat := now\<rparr>, [])
           | WsText t \<Rightarrow> (s\<lparr>ws_heartbeat := now\<rparr>, [])
           | WsClose reason \<Rightarrow> ws_stop s [SendClose reason]
           | WsOther \<Rightarrow> (s, [])))"

datatype ws_event =
    WsSessionStarted "string + session_start_result"
  | WsConnected bool
  | WsJoined "string + (string + unit)"
  | WsTick instant
  | WsFromChat session_message
  | WsNotified
  | WsItem instant "string + ws_message"
  | WsFinished

fun ws_step :: "proto \<Rightarrow> ws_session \<Rightarrow> ws_event \<Rightarrow> ws_session \<times> session_effect list" where
  "ws_step P s ev =
     (if ws_stopped s then (s, [])
      else case ev of
             WsSessionStarted result \<Rightarrow> ws_session_started P result s
           | WsConnected ok \<Rightarrow> ws_connected ok s
           | WsJoined result \<Rightarrow> ws_joined result s
           | WsTick now \<Rightarrow> ws_heartbeat_check now s
           | WsFromChat msg \<Rightarrow> ws_outbound msg s
           | WsNotified \<Rightarrow> ws_packet s
           | WsItem now item \<Rightarrow> ws_item P now item s
           | WsFinished \<Rightarrow> ws_stop s [])"

section \<open>WebTransport\<close>

datatype wt_outbound = UniStream bytes | Datagram bytes

datatype wt_send_result = Sent | SendDropped | Dead

datatype wt_source = FromUniStream | FromDatagram

record wt_session =
  wt_logic :: session_logic
  wt_heartbeat :: instant
  wt_activated :: bool
  wt_notified :: "bytes list"
  wt_stopped :: bool
  wt_channel :: "wt_outbound list"
  wt_channel_closed :: bool

definition wt_session_new :: "session_logic \<Rightarrow> instant \<Rightarrow> wt_session" where
  "wt_session_new l now =
     \<lparr>wt_logic = l, wt_heartbeat = now, wt_activated = False, wt_notified = [], wt_stopped = False,
      wt_channel = [], wt_channel_closed = False\<rparr>"

definition try_send :: "wt_outbound \<Rightarrow> wt_session \<Rightarrow> wt_send_result \<times> wt_session" where
  "try_send out s =
     (if wt_channel_closed s then (Dead, s)
      else if length (wt_channel s) \<ge> OUTBOUND_CAPACITY then (SendDropped, s)
      else (Sent, s\<lparr>wt_channel := wt_channel s @ [out]\<rparr>))"

text \<open>The callers ignore the result of \<open>send\<close>, which says whether the channel is still open.\<close>

definition wt_send :: "bytes \<Rightarrow> wt_session \<Rightarrow> bool \<times> wt_session" where
  "wt_send data s =
     (case try_send (UniStream data) s of
        (Sent, s1) \<Rightarrow> (True, s1) | (Dead, s1) \<Rightarrow> (False, s1) | (SendDropped, s1) \<Rightarrow> (True, s1))"

definition route :: "bytes \<Rightarrow> bool \<Rightarrow> wt_outbound" where
  "route data is_media =
     (if \<not> is_media \<and> length data \<le> DATAGRAM_MAX_SIZE then Datagram data else UniStream data)"

definition send_auto :: "bytes \<Rightarrow> bool \<Rightarrow> wt_session \<Rightarrow> wt_send_result \<times> wt_session" where
  "send_auto data is_media s = try_send (route data is_media) s"

definition wt_stop :: "wt_session \<Rightarrow> session_effect list \<Rightarrow> wt_session \<times> session_effect list" where
  "wt_stop s es = (s\<lparr>wt_stopped := True\<rparr>, es @ map Logic (on_stopping (wt_logic s)))"

definition wt_started :: "wt_session \<Rightarrow> wt_session \<times> session_effect list" where
  "wt_started s =
     (s, map Logic (track_connection_start (wt_logic s) ''webtransport'') @
         [ToChatConnect (sl_id (wt_logic s)), ToChatJoin (create_join_room_message (wt_logic s))])"

definition wt_session_started ::
  "proto \<Rightarrow> string + session_start_result \<Rightarrow> wt_session \<Rightarrow> wt_session \<times> session_effect list" where
  "wt_session_started P result s =
     (case result of
        Inr r \<Rightarrow>
          let s1 = snd (wt_send (build_session_assigned P (wt_logic s)) s)
          in (snd (wt_send (build_meeting_started P (wt_logic s1) (ssr_start_time_ms r) (ssr_creator_id r)) s1), [])
      | Inl e \<Rightarrow> wt_stop (snd (wt_send (build_meeting_ended P (wt_logic s) (''Session rejected: '' @ e)) s)) [])"

definition wt_connected :: "bool \<Rightarrow> wt_session \<Rightarrow> wt_session \<times> session_effect list" where
  "wt_connected ok s = (if ok then (s, []) else wt_stop s [])"

definition wt_joined :: "string + (string + unit) \<Rightarrow> wt_session \<Rightarrow> wt_session \<times> session_effect list" where
  "wt_joined result s = (if handle_join_room_result (wt_logic s) result then wt_stop s [] else (s, []))"

definition wt_stop_session :: "wt_session \<Rightarrow> wt_session \<times> session_effect list" where
  "wt_stop_session s = wt_stop s []"

definition wt_heartbeat_check :: "instant \<Rightarrow> wt_session \<Rightarrow> wt_session \<times> session_effect list" where
  "wt_heartbeat_check now s =
     (if wt_channel_closed s then wt_stop s []
      else if now - wt_heartbeat s > CLIENT_TIMEOUT then wt_stop s []
      else (s, []))"

definition wt_outbound_message ::
  "proto \<Rightarrow> instant \<Rightarrow> session_message \<Rightarrow> wt_session \<Rightarrow> wt_session \<times> session_effect list" where
  "wt_outbound_message P now msg s =
     (case handle_outbound (wt_logic s) msg of
        (bs, es) \<Rightarrow>
          let parsed = parse_wrapper P (sm_msg msg);
              sender_session_id = (case parsed of Some pw \<Rightarrow> pw_session_id pw | None \<Rightarrow> 0);
              is_media = (case parsed of Some pw \<Rightarrow> pw_packet_type pw = packet_type_value MEDIA | None \<Rightarrow> False)
          in case send_auto bs is_media s of
               (Sent, s1) \<Rightarrow> (s1, map Logic es)
             | (Dead, s1) \<Rightarrow> wt_stop s1 (map Logic es)
             | (SendDropped, s1) \<Rightarrow>
                 if sender_session_id \<noteq> 0
                 then (case on_outbound_drop P now (wt_logic s1) sender_session_id of
                         (l, fs) \<Rightarrow> (s1\<lparr>wt_logic := l\<rparr>, map Logic (es @ fs)))
                 else (s1, map Logic es))"

definition echo_back :: "wt_source \<Rightarrow> bytes \<Rightarrow> wt_outbound" where
  "echo_back source data = (case source of FromUniStream \<Rightarrow> UniStream data | FromDatagram \<Rightarrow> Datagram data)"

definition wt_inbound ::
  "proto \<Rightarrow> instant \<Rightarrow> bytes \<Rightarrow> wt_source \<Rightarrow> wt_session \<Rightarrow> wt_session \<times> session_effect list" where
  "wt_inbound P now data source s0 =
     (let s = s0\<lparr>wt_heartbeat := now\<rparr>
      in if source = FromDatagram \<and> data = KEEP_ALIVE_PING then (s, [])
         else case handle_inbound P now (wt_logic s) data of
                (action, l, es) \<Rightarrow>
                  let s1 = s\<lparr>wt_logic := l\<rparr>;
                      (s2, fs) = (if \<not> wt_activated s1 \<and> should_activate_on_action action
                                  then (s1\<lparr>wt_activated := True\<rparr>, [ToChatActivate \<lparr>ac_session = sl_id l\<rparr>])
                                  else (s1, []))
                  in (case action of
                        Echo bs \<Rightarrow>
                          (case try_send (echo_back source bs) s2 of
                             (Dead, s3) \<Rightarrow> wt_stop s3 (map Logic es @ fs)
                           | (_, s3) \<Rightarrow> (s3, map Logic es @ fs))
                      | Forward bs \<Rightarrow> (s2\<lparr>wt_notified := wt_notified s2 @ [bs]\<rparr>, map Logic es @ fs)
                      | _ \<Rightarrow> (s2, map Logic es @ fs)))"

definition wt_packet :: "wt_session \<Rightarrow> wt_session \<times> session_effect list" where
  "wt_packet s =
     (case wt_notified s of
        [] \<Rightarrow> (s, [])
      | data # rest \<Rightarrow>
          (s\<lparr>wt_notified := rest\<rparr>, [ToChatClient (create_client_message (wt_logic s) data)]))"

text \<open>The writer of the bridge takes the next message. A stream that cannot be opened or written ends the writer,
  which closes the channel; a datagram that cannot be sent is lost. When one task of the bridge ends, all are shut
  down, the channel is closed and the actor is told to stop.\<close>

definition writer_takes :: "bool \<Rightarrow> wt_session \<Rightarrow> wt_session \<times> wt_outbound option" where
  "writer_takes ok s =
     (if wt_channel_closed s then (s, None)
      else case wt_channel s of
             [] \<Rightarrow> (s, None)
           | UniStream data # rest \<Rightarrow>
               if ok then (s\<lparr>wt_channel := rest\<rparr>, Some (UniStream data))
               else (s\<lparr>wt_channel := [], wt_channel_closed := True\<rparr>, None)
           | Datagram data # rest \<Rightarrow> (s\<lparr>wt_channel := rest\<rparr>, if ok then Some (Datagram data) else None))"

definition bridge_ends :: "wt_session \<Rightarrow> wt_session" where
  "bridge_ends s = s\<lparr>wt_channel := [], wt_channel_closed := True\<rparr>"

datatype wt_event =
    WtSessionStarted "string + session_start_result"
  | WtConnected bool
  | WtJoined "string + (string + unit)"
  | WtTick instant
  | WtFromChat instant session_message
  | WtNotified
  | WtArrives instant bytes wt_source
  | WtWriter bool
  | WtBridgeEnds
  | WtStopSession

fun wt_step :: "proto \<Rightarrow> wt_session \<Rightarrow> wt_event \<Rightarrow> wt_session \<times> session_effect list" where
  "wt_step P s (WtWriter ok) = (fst (writer_takes ok s), [])"
| "wt_step P s WtBridgeEnds = (bridge_ends s, [])"
| "wt_step P s ev =
     (if wt_stopped s then (s, [])
      else case ev of
             WtSessionStarted result \<Rightarrow> wt_session_started P result s
           | WtConnected ok \<Rightarrow> wt_connected ok s
           | WtJoined result \<Rightarrow> wt_joined result s
           | WtTick now \<Rightarrow> wt_heartbeat_check now s
           | WtFromChat now msg \<Rightarrow> wt_outbound_message P now msg s
           | WtNotified \<Rightarrow> wt_packet s
           | WtArrives now data source \<Rightarrow> wt_inbound P now data source s
           | _ \<Rightarrow> wt_stop_session s)"

lemmas actor_answers [simp] = ws_connected_def ws_joined_def wt_connected_def wt_joined_def wt_stop_session_def
  bridge_ends_def

section \<open>The contract of a session actor\<close>

primrec actor_run :: "('s \<Rightarrow> 'e \<Rightarrow> 's \<times> 'x list) \<Rightarrow> 's \<Rightarrow> 'e list \<Rightarrow> 's \<times> 'x list" where
  "actor_run step s [] = (s, [])"
| "actor_run step s (e # es) =
     (case step s e of (s1, xs) \<Rightarrow> (case actor_run step s1 es of (s2, ys) \<Rightarrow> (s2, xs @ ys)))"

lemma actor_run_append:
  "actor_run step s (xs @ ys) =
     (case actor_run step s xs of (s1, as) \<Rightarrow> (case actor_run step s1 ys of (s2, bs) \<Rightarrow> (s2, as @ bs)))"
  by (induction xs arbitrary: s) (simp_all split: prod.split)

text \<open>What an actor tells the chat server after it has joined: the activation and the packets of its client.\<close>

fun for_chat :: "session_effect \<Rightarrow> bool" where
  "for_chat (ToChatActivate a) = True"
| "for_chat (ToChatClient m) = True"
| "for_chat _ = False"

definition chat_part :: "session_effect list \<Rightarrow> session_effect list" where
  "chat_part es = filter for_chat es"

lemma chat_part_simps [simp]:
  "chat_part [] = []" "chat_part (xs @ ys) = chat_part xs @ chat_part ys" "chat_part (map Logic ls) = []"
  by (auto simp: chat_part_def filter_empty_conv)

fun is_disconnect :: "session_effect \<Rightarrow> bool" where
  "is_disconnect (Logic (SendDisconnect d)) = True"
| "is_disconnect _ = False"

definition disconnect_of :: "session_logic \<Rightarrow> session_effect" where
  "disconnect_of l = Logic (SendDisconnect \<lparr>di_session = sl_id l, di_room = sl_room l, di_user_id = sl_user_id l,
     di_display_name = sl_display_name l, di_observer = sl_observer l\<rparr>)"

text \<open>The session logic up to its record of dropped packets, which does not matter for inbound packets.\<close>

definition calm :: "session_logic \<Rightarrow> session_logic" where
  "calm l = l\<lparr>sl_congestion_tracker := congestion_tracker_new\<rparr>"

lemma handle_inbound_calm:
  "handle_inbound P t (calm l) d =
     (case handle_inbound P t l d of (a, l', es) \<Rightarrow> (a, calm l', es))"
  by (simp add: handle_inbound_def calm_def Let_def split: packet_kind.split prod.split)

lemma forwarded_calm: "forwarded P (calm l) ps = forwarded P l ps"
proof (induction ps arbitrary: l)
  case (Cons p ps)
  obtain a l' es where "handle_inbound P (fst p) l (snd p) = (a, l', es)" by (metis surj_pair)
  then show ?case by (simp add: forwarded.simps handle_inbound_calm Cons split: inbound_action.split)
qed (simp add: forwarded.simps)

lemma calm_identity:
  assumes "calm l = calm l'"
  shows "create_client_message l = create_client_message l'" "disconnect_of l = disconnect_of l'" "sl_id l = sl_id l'"
proof -
  from assms have "sl_id l = sl_id l'" "sl_room l = sl_room l'" "sl_user_id l = sl_user_id l'"
    "sl_display_name l = sl_display_name l'" "sl_observer l = sl_observer l'"
    by (auto simp: calm_def dest: arg_cong [where f = sl_id] arg_cong [where f = sl_room] arg_cong [where f = sl_user_id]
        arg_cong [where f = sl_display_name] arg_cong [where f = sl_observer])
  then show "create_client_message l = create_client_message l'" "disconnect_of l = disconnect_of l'" "sl_id l = sl_id l'"
    by (auto simp: create_client_message_def disconnect_of_def)
qed

lemma inbound_identity:
  assumes "handle_inbound P t l d = (a, l', es)"
  shows "create_client_message l' = create_client_message l" "disconnect_of l' = disconnect_of l" "sl_id l' = sl_id l"
  using assms
  by (auto simp: handle_inbound_def Let_def create_client_message_def disconnect_of_def
      split: packet_kind.splits prod.splits if_splits)

text \<open>The interface of the two transports: how an event of the client reaches the session logic, and what any
  event may do to the chat server.\<close>

locale session_actor =
  fixes step :: "'s \<Rightarrow> 'e \<Rightarrow> 's \<times> session_effect list"
    and logic :: "'s \<Rightarrow> session_logic"
    and activated :: "'s \<Rightarrow> bool"
    and notified :: "'s \<Rightarrow> bytes list"
    and stopped :: "'s \<Rightarrow> bool"
    and arrives :: "'e \<Rightarrow> (instant \<times> bytes) option"
    and P :: proto
  assumes silent: "stopped s \<Longrightarrow> step s e = (s', es) \<Longrightarrow>
      es = [] \<and> stopped s' \<and> notified s' = notified s \<and> activated s' = activated s \<and> logic s' = logic s"
    and arrival: "\<not> stopped s \<Longrightarrow> arrives e = Some p \<Longrightarrow> step s e = (s', es) \<Longrightarrow>
      handle_inbound P (fst p) (logic s) (snd p) = (a, l, fs) \<Longrightarrow>
      logic s' = l \<and> notified s' = notified s @ (case a of Forward b \<Rightarrow> [b] | _ \<Rightarrow> []) \<and>
      activated s' = (activated s \<or> should_activate_on_action a) \<and>
      chat_part es = (if activated s' \<and> \<not> activated s then [ToChatActivate \<lparr>ac_session = sl_id (logic s)\<rparr>] else [])"
    and other: "\<not> stopped s \<Longrightarrow> arrives e = None \<Longrightarrow> step s e = (s', es) \<Longrightarrow>
      calm (logic s') = calm (logic s) \<and> activated s' = activated s \<and>
      (chat_part es = [] \<and> notified s' = notified s \<or>
       (\<exists>d. notified s = d # notified s' \<and> chat_part es = [ToChatClient (create_client_message (logic s) d)]))"
    and stops: "\<not> stopped s \<Longrightarrow> step s e = (s', es) \<Longrightarrow>
      filter is_disconnect es = (if stopped s' then [disconnect_of (logic s)] else [])"
begin

definition sound :: "'s \<Rightarrow> bool" where
  "sound s \<longleftrightarrow> notified s = [] \<or> activated s"

lemma stopped_run: "stopped s \<Longrightarrow> actor_run step s evs = (s', out) \<Longrightarrow>
    out = [] \<and> stopped s' \<and> notified s' = notified s \<and> activated s' = activated s"
proof (induction evs arbitrary: s out)
  case (Cons e evs)
  obtain s1 xs where st: "step s e = (s1, xs)" by fastforce
  with Cons.prems obtain ys where r: "actor_run step s1 evs = (s', ys)" "out = xs @ ys" by (auto split: prod.splits)
  show ?case using Cons.IH [OF _ r(1)] silent [OF Cons.prems(1) st] r(2) by auto
qed simp

lemma sound_step: "sound s \<Longrightarrow> step s e = (s', es) \<Longrightarrow> sound s'"
proof (cases "stopped s")
  case True
  then show "sound s \<Longrightarrow> step s e = (s', es) \<Longrightarrow> sound s'" using silent by (auto simp: sound_def)
next
  case False
  assume s: "sound s" "step s e = (s', es)"
  show "sound s'"
  proof (cases "arrives e")
    case None
    then show ?thesis using other [OF False None s(2)] s(1) by (auto simp: sound_def)
  next
    case (Some p)
    obtain a l fs where "handle_inbound P (fst p) (logic s) (snd p) = (a, l, fs)" by (metis surj_pair)
    from arrival [OF False Some s(2) this] show ?thesis
      using s(1) by (auto simp: sound_def should_activate_on_action_def split: inbound_action.splits)
  qed
qed

text \<open>Packets reach the chat server in the order in which the logic let them through, once each, after the
  activation; the rest of the run is what a session that stopped did not look at.\<close>

lemma relay:
  assumes "sound s" and "actor_run step s evs = (s', out)"
  shows "\<exists>ds rest. chat_part out =
      (if activated s' \<and> \<not> activated s then [ToChatActivate \<lparr>ac_session = sl_id (logic s)\<rparr>] else []) @
      map (\<lambda>d. ToChatClient (create_client_message (logic s) d)) ds \<and>
    notified s @ forwarded P (logic s) (List.map_filter arrives evs) = ds @ notified s' @ rest \<and>
    (rest = [] \<or> stopped s') \<and> (activated s \<longrightarrow> activated s') \<and> (ds = [] \<or> activated s')"
  using assms
proof (induction evs arbitrary: s out)
  case Nil
  then show ?case by (auto simp: map_filter_simps forwarded.simps intro!: exI [of _ "[]"])
next
  case (Cons e evs)
  obtain s1 xs where st: "step s e = (s1, xs)" by fastforce
  with Cons.prems(2) obtain ys where r: "actor_run step s1 evs = (s', ys)" "out = xs @ ys" by (auto split: prod.splits)
  show ?case
  proof (cases "stopped s")
    case True
    then show ?thesis
      using stopped_run [OF True Cons.prems(2)]
      by (intro exI [of _ "[]"] exI [of _ "forwarded P (logic s) (List.map_filter arrives (e # evs))"]) simp
  next
    case False
    obtain ds rest where ih: "chat_part ys =
          (if activated s' \<and> \<not> activated s1 then [ToChatActivate \<lparr>ac_session = sl_id (logic s1)\<rparr>] else []) @
          map (\<lambda>d. ToChatClient (create_client_message (logic s1) d)) ds"
        "notified s1 @ forwarded P (logic s1) (List.map_filter arrives evs) = ds @ notified s' @ rest"
        "rest = [] \<or> stopped s'" "activated s1 \<longrightarrow> activated s'" "ds = [] \<or> activated s'"
      using Cons.IH [OF sound_step [OF Cons.prems(1) st] r(1)] by blast
    show ?thesis
    proof (cases "arrives e")
      case (Some p)
      obtain a l fs where h: "handle_inbound P (fst p) (logic s) (snd p) = (a, l, fs)" by (metis surj_pair)
      note ar = arrival [OF False Some st h]
      have "forwarded P (logic s) (List.map_filter arrives (e # evs)) =
          (case a of Forward b \<Rightarrow> [b] | _ \<Rightarrow> []) @ forwarded P (logic s1) (List.map_filter arrives evs)"
        using Some h ar by (simp add: map_filter_simps forwarded.simps split: inbound_action.split)
      then show ?thesis
        using ar ih r(2) inbound_identity [OF h] by (intro exI [of _ ds] exI [of _ rest]) auto
    next
      case None
      note ot = other [OF False None st]
      note id = calm_identity [OF conjunct1 [OF ot]]
      have f: "forwarded P (logic s) (List.map_filter arrives (e # evs)) = forwarded P (logic s1) (List.map_filter arrives evs)"
        using forwarded_calm [of P "logic s1"] forwarded_calm [of P "logic s"] conjunct1 [OF ot] None
        by (simp add: map_filter_simps)
      from ot consider "chat_part xs = []" "notified s1 = notified s"
        | d where "notified s = d # notified s1" "chat_part xs = [ToChatClient (create_client_message (logic s) d)]" by blast
      then show ?thesis
      proof cases
        case 1
        then show ?thesis using ih r(2) id ot f by (intro exI [of _ ds] exI [of _ rest]) simp
      next
        case (2 d)
        then have "activated s" using Cons.prems(1) by (simp add: sound_def)
        then show ?thesis using 2 ih r(2) id ot f by (intro exI [of _ "d # ds"] exI [of _ rest]) simp
      qed
    qed
  qed
qed

lemma step_identity: "step s e = (s', es) \<Longrightarrow> disconnect_of (logic s') = disconnect_of (logic s)"
proof (cases "stopped s")
  case True
  then show "step s e = (s', es) \<Longrightarrow> disconnect_of (logic s') = disconnect_of (logic s)" using silent by metis
next
  case False
  assume st: "step s e = (s', es)"
  show ?thesis
  proof (cases "arrives e")
    case None
    then show ?thesis using other [OF False None st] calm_identity(2) by blast
  next
    case (Some p)
    obtain a l fs where h: "handle_inbound P (fst p) (logic s) (snd p) = (a, l, fs)" by (metis surj_pair)
    then show ?thesis using arrival [OF False Some st h] inbound_identity(2) [OF h] by simp
  qed
qed

lemma one_disconnect:
  assumes "actor_run step s evs = (s', out)" and "\<not> stopped s"
  shows "filter is_disconnect out = (if stopped s' then [disconnect_of (logic s)] else [])"
  using assms
proof (induction evs arbitrary: s out)
  case (Cons e evs)
  obtain s1 xs where st: "step s e = (s1, xs)" by fastforce
  with Cons.prems(1) obtain ys where r: "actor_run step s1 evs = (s', ys)" "out = xs @ ys" by (auto split: prod.splits)
  show ?case
  proof (cases "stopped s1")
    case True
    then show ?thesis using stopped_run [OF True r(1)] stops [OF Cons.prems(2) st] r(2) by simp
  next
    case False
    then show ?thesis using Cons.IH [OF r(1) False] stops [OF Cons.prems(2) st] step_identity [OF st] r(2) by simp
  qed
qed simp

end

section \<open>Both transports keep it\<close>

fun ws_arrives :: "ws_event \<Rightarrow> (instant \<times> bytes) option" where
  "ws_arrives (WsItem now (Inr (WsBinary data))) = Some (now, data)"
| "ws_arrives _ = None"

fun wt_arrives :: "wt_event \<Rightarrow> (instant \<times> bytes) option" where
  "wt_arrives (WtArrives now data source) =
     (if source = FromDatagram \<and> data = KEEP_ALIVE_PING then None else Some (now, data))"
| "wt_arrives _ = None"

lemma stop_effects [simp]: "filter is_disconnect (map Logic (on_stopping l)) = [disconnect_of l]"
  by (simp add: on_stopping_def disconnect_of_def)

lemma no_disconnect [simp]:
  "handle_inbound P t l d = (a, l', es) \<Longrightarrow> filter is_disconnect (map Logic es) = []"
  "handle_outbound l m = (bs, es) \<Longrightarrow> filter is_disconnect (map Logic es) = []"
  "on_outbound_drop P t l i = (l', es) \<Longrightarrow> filter is_disconnect (map Logic es) = []"
  by (auto simp: handle_inbound_def handle_outbound_def on_outbound_drop_def Let_def
      split: packet_kind.splits prod.splits if_splits option.splits)

interpretation ws: session_actor "ws_step P" ws_logic ws_activated ws_notified ws_stopped ws_arrives P
proof
  show "ws_stopped s \<Longrightarrow> ws_step P s e = (s', es) \<Longrightarrow>
      es = [] \<and> ws_stopped s' \<and> ws_notified s' = ws_notified s \<and> ws_activated s' = ws_activated s \<and> ws_logic s' = ws_logic s"
    for s e s' es by simp
next
  fix s e p s' es a l fs
  assume s: "\<not> ws_stopped s" "ws_arrives e = Some p" "ws_step P s e = (s', es)"
    and h: "handle_inbound P (fst p) (ws_logic s) (snd p) = (a, l, fs)"
  from s(2) obtain now data where e: "e = WsItem now (Inr (WsBinary data))" "p = (now, data)"
    by (cases e rule: ws_arrives.cases) auto
  show "ws_logic s' = l \<and> ws_notified s' = ws_notified s @ (case a of Forward b \<Rightarrow> [b] | _ \<Rightarrow> []) \<and>
      ws_activated s' = (ws_activated s \<or> should_activate_on_action a) \<and>
      chat_part es = (if ws_activated s' \<and> \<not> ws_activated s then [ToChatActivate \<lparr>ac_session = sl_id (ws_logic s)\<rparr>] else [])"
    using s(1,3) h inbound_identity(3) [OF h] unfolding e
    by (auto simp: ws_item_def ws_binary_def Let_def should_activate_on_action_def chat_part_def
        split: if_splits inbound_action.splits)
next
  fix s e s' es
  assume s: "\<not> ws_stopped s" "ws_arrives e = None" "ws_step P s e = (s', es)"
  show "calm (ws_logic s') = calm (ws_logic s) \<and> ws_activated s' = ws_activated s \<and>
      (chat_part es = [] \<and> ws_notified s' = ws_notified s \<or>
       (\<exists>d. ws_notified s = d # ws_notified s' \<and> chat_part es = [ToChatClient (create_client_message (ws_logic s) d)]))"
    using s
    by (cases e) (auto simp: ws_session_started_def ws_stop_def ws_heartbeat_check_def ws_outbound_def ws_packet_def
        ws_item_def chat_part_def on_stopping_def handle_outbound_def
        split: if_splits sum.splits list.splits ws_message.splits)
next
  fix s e s' es
  assume s: "\<not> ws_stopped s" "ws_step P s e = (s', es)"
  then show "filter is_disconnect es = (if ws_stopped s' then [disconnect_of (ws_logic s)] else [])"
    by (cases e) (auto simp: ws_session_started_def ws_stop_def ws_heartbeat_check_def ws_outbound_def ws_packet_def
        ws_item_def ws_binary_def Let_def
        split: if_splits sum.splits list.splits ws_message.splits prod.splits inbound_action.splits)
qed

text \<open>Sending changes only the channel.\<close>

lemma try_send_frame:
  assumes "try_send out s = (r, s')"
  shows "wt_logic s' = wt_logic s" "wt_activated s' = wt_activated s" "wt_notified s' = wt_notified s"
    "wt_stopped s' = wt_stopped s" "wt_heartbeat s' = wt_heartbeat s" "wt_channel_closed s' = wt_channel_closed s"
  using assms by (auto simp: try_send_def split: if_splits)

lemma wt_send_frame [simp]:
  "wt_logic (snd (wt_send d s)) = wt_logic s" "wt_activated (snd (wt_send d s)) = wt_activated s"
  "wt_notified (snd (wt_send d s)) = wt_notified s" "wt_stopped (snd (wt_send d s)) = wt_stopped s"
  "wt_heartbeat (snd (wt_send d s)) = wt_heartbeat s" "wt_channel_closed (snd (wt_send d s)) = wt_channel_closed s"
  by (auto simp: wt_send_def try_send_frame split: prod.split wt_send_result.split)

lemma writer_takes_frame [simp]:
  "wt_logic (fst (writer_takes ok s)) = wt_logic s" "wt_activated (fst (writer_takes ok s)) = wt_activated s"
  "wt_notified (fst (writer_takes ok s)) = wt_notified s" "wt_stopped (fst (writer_takes ok s)) = wt_stopped s"
  "wt_heartbeat (fst (writer_takes ok s)) = wt_heartbeat s"
  by (simp_all add: writer_takes_def split: list.split wt_outbound.split)

lemma on_outbound_drop_calm: "on_outbound_drop P t l i = (l', es) \<Longrightarrow> calm l' = calm l"
  by (auto simp: on_outbound_drop_def calm_def Let_def split: prod.splits option.splits)

lemma wt_outbound_message_parts:
  assumes "wt_outbound_message P t msg s = (s', es)" and "\<not> wt_stopped s"
  shows "calm (wt_logic s') = calm (wt_logic s)" "wt_activated s' = wt_activated s" "wt_notified s' = wt_notified s"
    "chat_part es = []" "filter is_disconnect es = (if wt_stopped s' then [disconnect_of (wt_logic s)] else [])"
    "wt_heartbeat s' = wt_heartbeat s"
proof -
  obtain bs fs where h: "handle_outbound (wt_logic s) msg = (bs, fs)" by fastforce
  obtain r s1 where t: "send_auto bs (case parse_wrapper P (sm_msg msg) of
      Some pw \<Rightarrow> pw_packet_type pw = packet_type_value MEDIA | None \<Rightarrow> False) s = (r, s1)" by fastforce
  note fr = try_send_frame [OF t [unfolded send_auto_def]]
  have "calm (wt_logic s') = calm (wt_logic s) \<and> wt_activated s' = wt_activated s \<and> wt_notified s' = wt_notified s \<and>
    chat_part es = [] \<and> filter is_disconnect es = (if wt_stopped s' then [disconnect_of (wt_logic s)] else []) \<and>
    wt_heartbeat s' = wt_heartbeat s"
    using assms h t fr
    by (cases r) (auto simp: wt_outbound_message_def Let_def wt_stop_def on_outbound_drop_calm
        split: if_splits prod.splits)
  then show "calm (wt_logic s') = calm (wt_logic s)" "wt_activated s' = wt_activated s" "wt_notified s' = wt_notified s"
    "chat_part es = []" "filter is_disconnect es = (if wt_stopped s' then [disconnect_of (wt_logic s)] else [])"
    "wt_heartbeat s' = wt_heartbeat s"
    by simp_all
qed

lemma wt_inbound_parts:
  assumes "wt_inbound P now data source s = (s', es)" and "\<not> (source = FromDatagram \<and> data = KEEP_ALIVE_PING)"
    and "handle_inbound P now (wt_logic s) data = (a, l, fs)" and "\<not> wt_stopped s"
  shows "wt_logic s' = l" "wt_notified s' = wt_notified s @ (case a of Forward b \<Rightarrow> [b] | _ \<Rightarrow> [])"
    "wt_activated s' = (wt_activated s \<or> should_activate_on_action a)"
    "chat_part es = (if wt_activated s' \<and> \<not> wt_activated s then [ToChatActivate \<lparr>ac_session = sl_id (wt_logic s)\<rparr>] else [])"
    "filter is_disconnect es = (if wt_stopped s' then [disconnect_of (wt_logic s)] else [])"
    "wt_heartbeat s' = now"
proof -
  define act where "act \<longleftrightarrow> \<not> wt_activated s \<and> should_activate_on_action a"
  obtain s2 gs where sg: "(if \<not> wt_activated (s\<lparr>wt_heartbeat := now, wt_logic := l\<rparr>) \<and> should_activate_on_action a
      then (s\<lparr>wt_heartbeat := now, wt_logic := l, wt_activated := True\<rparr>, [ToChatActivate \<lparr>ac_session = sl_id l\<rparr>])
      else (s\<lparr>wt_heartbeat := now, wt_logic := l\<rparr>, [])) = (s2, gs)" by (metis surj_pair)
  have same: "wt_logic (s\<lparr>wt_heartbeat := now\<rparr>) = wt_logic s" by simp
  have eq: "(s', es) = (case a of
      Echo bs \<Rightarrow> (case try_send (echo_back source bs) s2 of
                      (Dead, s3) \<Rightarrow> wt_stop s3 (map Logic fs @ gs) | (_, s3) \<Rightarrow> (s3, map Logic fs @ gs))
    | Forward bs \<Rightarrow> (s2\<lparr>wt_notified := wt_notified s2 @ [bs]\<rparr>, map Logic fs @ gs)
    | _ \<Rightarrow> (s2, map Logic fs @ gs))"
    using assms(1) [symmetric, unfolded wt_inbound_def Let_def if_not_P [OF assms(2)]]
    by (simp only: same assms(3) prod.case sg)
  have s2: "wt_logic s2 = l" "wt_notified s2 = wt_notified s" "wt_activated s2 = (wt_activated s \<or> act)"
    "\<not> wt_stopped s2" "wt_heartbeat s2 = now" and gs_def: "gs = (if act then [ToChatActivate \<lparr>ac_session = sl_id l\<rparr>] else [])"
    using sg assms(4) by (auto simp: act_def split: if_splits)
  have gs: "chat_part gs = gs" "filter is_disconnect gs = []" by (simp_all add: gs_def chat_part_def)
  have echo: "act = False" if "a = Echo bs" for bs using that by (simp add: act_def should_activate_on_action_def)
  note id = inbound_identity [OF assms(3)]
  have all: "wt_logic s' = l \<and> wt_notified s' = wt_notified s @ (case a of Forward b \<Rightarrow> [b] | _ \<Rightarrow> []) \<and>
      wt_activated s' = (wt_activated s \<or> should_activate_on_action a) \<and> chat_part es = gs \<and>
      filter is_disconnect es = (if wt_stopped s' then [disconnect_of (wt_logic s)] else []) \<and> wt_heartbeat s' = now"
  proof (cases a)
    case (Echo bs)
    obtain r s3 where t: "try_send (echo_back source bs) s2 = (r, s3)" by fastforce
    show ?thesis
      using eq t try_send_frame [OF t] s2 gs echo [OF Echo] id assms(3) Echo
      by (cases r) (auto simp: wt_stop_def should_activate_on_action_def)
  qed (use eq s2 gs assms(3) in \<open>auto simp: act_def should_activate_on_action_def\<close>)
  then show "wt_logic s' = l" "wt_notified s' = wt_notified s @ (case a of Forward b \<Rightarrow> [b] | _ \<Rightarrow> [])"
    "wt_activated s' = (wt_activated s \<or> should_activate_on_action a)"
    "filter is_disconnect es = (if wt_stopped s' then [disconnect_of (wt_logic s)] else [])" "wt_heartbeat s' = now"
    by simp_all
  show "chat_part es =
      (if wt_activated s' \<and> \<not> wt_activated s then [ToChatActivate \<lparr>ac_session = sl_id (wt_logic s)\<rparr>] else [])"
    using all id by (auto simp: gs_def act_def)
qed

interpretation wt: session_actor "wt_step P" wt_logic wt_activated wt_notified wt_stopped wt_arrives P
proof
  show "wt_stopped s \<Longrightarrow> wt_step P s e = (s', es) \<Longrightarrow>
      es = [] \<and> wt_stopped s' \<and> wt_notified s' = wt_notified s \<and> wt_activated s' = wt_activated s \<and> wt_logic s' = wt_logic s"
    for s e s' es by (cases e) auto
next
  fix s e p s' es a l fs
  assume s: "\<not> wt_stopped s" "wt_arrives e = Some p" "wt_step P s e = (s', es)"
    and h: "handle_inbound P (fst p) (wt_logic s) (snd p) = (a, l, fs)"
  from s(2) obtain now data source where e: "e = WtArrives now data source" "p = (now, data)"
      "\<not> (source = FromDatagram \<and> data = KEEP_ALIVE_PING)"
    by (cases e) (auto split: if_splits)
  then have "wt_inbound P now data source s = (s', es)" "handle_inbound P now (wt_logic s) data = (a, l, fs)"
    using s(1,3) h by simp_all
  from wt_inbound_parts [OF this(1) e(3) this(2) s(1)]
  show "wt_logic s' = l \<and> wt_notified s' = wt_notified s @ (case a of Forward b \<Rightarrow> [b] | _ \<Rightarrow> []) \<and>
      wt_activated s' = (wt_activated s \<or> should_activate_on_action a) \<and>
      chat_part es = (if wt_activated s' \<and> \<not> wt_activated s then [ToChatActivate \<lparr>ac_session = sl_id (wt_logic s)\<rparr>] else [])"
    by simp
next
  fix s e s' es
  assume s: "\<not> wt_stopped s" "wt_arrives e = None" "wt_step P s e = (s', es)"
  show "calm (wt_logic s') = calm (wt_logic s) \<and> wt_activated s' = wt_activated s \<and>
      (chat_part es = [] \<and> wt_notified s' = wt_notified s \<or>
       (\<exists>d. wt_notified s = d # wt_notified s' \<and> chat_part es = [ToChatClient (create_client_message (wt_logic s) d)]))"
  proof (cases e)
    case (WtFromChat now msg)
    then show ?thesis using s(1,3) wt_outbound_message_parts [OF _ s(1)] by simp
  next
    case (WtArrives now data source)
    then show ?thesis using s by (auto simp: wt_inbound_def Let_def split: if_splits)
  qed (use s in \<open>auto simp: wt_session_started_def wt_stop_def wt_heartbeat_check_def wt_packet_def chat_part_def Let_def
        split: if_splits sum.splits list.splits\<close>)
next
  fix s e s' es
  assume s: "\<not> wt_stopped s" "wt_step P s e = (s', es)"
  show "filter is_disconnect es = (if wt_stopped s' then [disconnect_of (wt_logic s)] else [])"
  proof (cases e)
    case (WtFromChat now msg)
    then show ?thesis using s wt_outbound_message_parts(5) [OF _ s(1)] by simp
  next
    case (WtArrives now data source)
    then have i: "wt_inbound P now data source s = (s', es)" using s by simp
    obtain a l fs where h: "handle_inbound P now (wt_logic s) data = (a, l, fs)" by (metis surj_pair)
    show ?thesis
    proof (cases "source = FromDatagram \<and> data = KEEP_ALIVE_PING")
      case True
      then show ?thesis using i s(1) by (auto simp: wt_inbound_def Let_def)
    next
      case False
      then show ?thesis by (rule wt_inbound_parts(5) [OF i _ h s(1)])
    qed
  qed (use s in \<open>auto simp: wt_session_started_def wt_stop_def wt_heartbeat_check_def wt_packet_def Let_def
        split: if_splits sum.splits list.splits\<close>)
qed

section \<open>Sessions over time\<close>

abbreviation ws_run :: "proto \<Rightarrow> session_logic \<Rightarrow> instant \<Rightarrow> ws_event list \<Rightarrow> ws_session \<times> session_effect list" where
  "ws_run P l t evs \<equiv> actor_run (ws_step P) (ws_session_new l t) evs"

abbreviation wt_run :: "proto \<Rightarrow> session_logic \<Rightarrow> instant \<Rightarrow> wt_event list \<Rightarrow> wt_session \<times> session_effect list" where
  "wt_run P l t evs \<equiv> actor_run (wt_step P) (wt_session_new l t) evs"

text \<open>What a session has told the chat server, when its client sent the given packets.\<close>

definition relayed ::
  "proto \<Rightarrow> session_logic \<Rightarrow> (instant \<times> bytes) list \<Rightarrow> bool \<Rightarrow> bytes list \<Rightarrow> bool \<Rightarrow> session_effect list \<Rightarrow> bool" where
  "relayed P l packets active waiting ended es \<longleftrightarrow>
     (\<exists>ds rest. chat_part es =
        (if active then [ToChatActivate \<lparr>ac_session = sl_id l\<rparr>] else []) @
        map (\<lambda>d. ToChatClient (create_client_message l d)) ds \<and>
        forwarded P l packets = ds @ waiting @ rest \<and> (rest = [] \<or> ended) \<and> (ds = [] \<or> active)) \<and>
     filter is_disconnect es = (if ended then [disconnect_of l] else [])"

lemma ws_relayed:
  assumes "ws_run P l t evs = (s, es)"
  shows "relayed P l (List.map_filter ws_arrives evs) (ws_activated s) (ws_notified s) (ws_stopped s) es"
  using ws.relay [OF _ assms] ws.one_disconnect [OF assms]
  by (auto simp: relayed_def ws.sound_def ws_session_new_def)

lemma wt_relayed:
  assumes "wt_run P l t evs = (s, es)"
  shows "relayed P l (List.map_filter wt_arrives evs) (wt_activated s) (wt_notified s) (wt_stopped s) es"
  using wt.relay [OF _ assms] wt.one_disconnect [OF assms]
  by (auto simp: relayed_def wt.sound_def wt_session_new_def)

text \<open>C9: Both transports relay the same. Over every sequence of events, a session tells the chat server first, once,
  that it is active, and then exactly the packets of its client that the session logic forwards, unchanged, in order and
  under the session's own identity; those not yet sent wait in its queue, unless the session ended. It reports its end
  exactly once, when it stops.\<close>

theorem sessions_relay:
  "relayed P l (List.map_filter ws_arrives evs) (ws_activated (fst (ws_run P l t evs)))
     (ws_notified (fst (ws_run P l t evs))) (ws_stopped (fst (ws_run P l t evs))) (snd (ws_run P l t evs)) \<and>
   relayed P l (List.map_filter wt_arrives fvs) (wt_activated (fst (wt_run P l t fvs)))
     (wt_notified (fst (wt_run P l t fvs))) (wt_stopped (fst (wt_run P l t fvs))) (snd (wt_run P l t fvs))"
  using ws_relayed [of P l t evs] wt_relayed [of P l t fvs] by (metis prod.collapse)

section \<open>Silent clients\<close>

fun ws_heard :: "ws_event \<Rightarrow> instant option" where
  "ws_heard (WsItem now (Inr (WsClose r))) = None"
| "ws_heard (WsItem now (Inr WsOther)) = None"
| "ws_heard (WsItem now (Inr m)) = Some now"
| "ws_heard _ = None"

fun wt_heard :: "wt_event \<Rightarrow> instant option" where
  "wt_heard (WtArrives now data source) = Some now"
| "wt_heard _ = None"

definition last_heard :: "('e \<Rightarrow> instant option) \<Rightarrow> instant \<Rightarrow> 'e list \<Rightarrow> instant" where
  "last_heard heard t evs = foldl (\<lambda>t e. case heard e of Some now \<Rightarrow> now | None \<Rightarrow> t) t evs"

lemma ws_step_heard:
  assumes "ws_step P s e = (s', es)" and "\<not> ws_stopped s'"
  shows "ws_heartbeat s' = (case ws_heard e of Some now \<Rightarrow> now | None \<Rightarrow> ws_heartbeat s)" "\<not> ws_stopped s"
  using assms
  by (auto simp: ws_session_started_def ws_stop_def ws_heartbeat_check_def ws_outbound_def ws_packet_def
      ws_item_def ws_binary_def Let_def
      split: if_splits sum.splits list.splits ws_message.splits prod.splits inbound_action.splits ws_event.splits)

lemma wt_inbound_heard:
  assumes "\<not> wt_stopped s" and "wt_inbound P now data source s = (s', es)"
  shows "wt_heartbeat s' = now"
proof (cases "source = FromDatagram \<and> data = KEEP_ALIVE_PING")
  case True
  then show ?thesis using assms by (auto simp: wt_inbound_def Let_def)
next
  case False
  obtain a l fs where "handle_inbound P now (wt_logic s) data = (a, l, fs)" by (metis surj_pair)
  from wt_inbound_parts(6) [OF assms(2) False this assms(1)] show ?thesis .
qed

lemma wt_step_heard:
  assumes "wt_step P s e = (s', es)" and "\<not> wt_stopped s'"
  shows "wt_heartbeat s' = (case wt_heard e of Some now \<Rightarrow> now | None \<Rightarrow> wt_heartbeat s)" "\<not> wt_stopped s"
proof -
  show n: "\<not> wt_stopped s" using assms wt.silent by blast
  show "wt_heartbeat s' = (case wt_heard e of Some now \<Rightarrow> now | None \<Rightarrow> wt_heartbeat s)"
  proof (cases e)
    case (WtFromChat now msg)
    then show ?thesis using assms n wt_outbound_message_parts(6) [OF _ n] by simp
  next
    case (WtArrives now data source)
    then show ?thesis using assms n wt_inbound_heard [OF n] by simp
  qed (use assms n in \<open>auto simp: wt_session_started_def wt_stop_def wt_heartbeat_check_def wt_packet_def Let_def
        split: if_splits sum.splits list.splits\<close>)
qed

lemma ws_run_heard:
  "\<not> ws_stopped (fst (ws_run P l t evs)) \<Longrightarrow> ws_heartbeat (fst (ws_run P l t evs)) = last_heard ws_heard t evs"
proof (induction evs rule: rev_induct)
  case (snoc e evs)
  obtain s es where r: "ws_run P l t evs = (s, es)" by fastforce
  obtain s' fs where st: "ws_step P s e = (s', fs)" by fastforce
  then have "fst (ws_run P l t (evs @ [e])) = s'" using r by (simp add: actor_run_append del: ws_step.simps)
  then show ?case
    using snoc ws_step_heard [OF st] r by (simp add: last_heard_def del: ws_step.simps split: option.split)
qed (simp add: last_heard_def ws_session_new_def)

lemma wt_run_heard:
  "\<not> wt_stopped (fst (wt_run P l t evs)) \<Longrightarrow> wt_heartbeat (fst (wt_run P l t evs)) = last_heard wt_heard t evs"
proof (induction evs rule: rev_induct)
  case (snoc e evs)
  obtain s es where r: "wt_run P l t evs = (s, es)" by fastforce
  obtain s' fs where st: "wt_step P s e = (s', fs)" by fastforce
  then have "fst (wt_run P l t (evs @ [e])) = s'" using r by (simp add: actor_run_append del: wt_step.simps)
  then show ?case
    using snoc wt_step_heard [OF st] r by (simp add: last_heard_def del: wt_step.simps split: option.split)
qed (simp add: last_heard_def wt_session_new_def)

text \<open>Silent clients are dropped. A check of the heartbeat stops a session that has not stopped before exactly if
  nothing was heard from the client for more than thirty seconds before it; with WebTransport also if the channel to the
  client is closed.\<close>

theorem silent_client_dropped:
  "(ws_stopped (fst (ws_run P l t (evs @ [WsTick now]))) \<longleftrightarrow>
      ws_stopped (fst (ws_run P l t evs)) \<or> ms 30000 < now - last_heard ws_heard t evs) \<and>
   (wt_stopped (fst (wt_run P l t (fvs @ [WtTick now]))) \<longleftrightarrow>
      wt_stopped (fst (wt_run P l t fvs)) \<or> wt_channel_closed (fst (wt_run P l t fvs)) \<or>
      ms 30000 < now - last_heard wt_heard t fvs)"
proof
  obtain s es where r: "ws_run P l t evs = (s, es)" by fastforce
  then show "ws_stopped (fst (ws_run P l t (evs @ [WsTick now]))) \<longleftrightarrow>
      ws_stopped (fst (ws_run P l t evs)) \<or> ms 30000 < now - last_heard ws_heard t evs"
    using ws_run_heard [of P l t evs]
    by (auto simp: actor_run_append ws_heartbeat_check_def ws_stop_def CLIENT_TIMEOUT_def)
next
  obtain s es where r: "wt_run P l t fvs = (s, es)" by fastforce
  then show "wt_stopped (fst (wt_run P l t (fvs @ [WtTick now]))) \<longleftrightarrow>
      wt_stopped (fst (wt_run P l t fvs)) \<or> wt_channel_closed (fst (wt_run P l t fvs)) \<or>
      ms 30000 < now - last_heard wt_heard t fvs"
    using wt_run_heard [of P l t fvs]
    by (auto simp: actor_run_append wt_heartbeat_check_def wt_stop_def CLIENT_TIMEOUT_def)
qed

section \<open>The channel to a WebTransport client\<close>

definition channel_ok :: "wt_session \<Rightarrow> bool" where
  "channel_ok s \<longleftrightarrow> length (wt_channel s) \<le> OUTBOUND_CAPACITY"

lemma try_send_ok: "channel_ok s \<Longrightarrow> try_send out s = (r, s') \<Longrightarrow> channel_ok s'"
  by (auto simp: try_send_def channel_ok_def split: if_splits)

lemma wt_send_ok: "channel_ok s \<Longrightarrow> channel_ok (snd (wt_send d s))"
  using try_send_ok by (auto simp: wt_send_def split: prod.split wt_send_result.split)

lemma channel_ok_cong: "wt_channel s' = wt_channel s \<Longrightarrow> channel_ok s' = channel_ok s"
  by (simp add: channel_ok_def)

lemma channel_ok_updates [simp]:
  "channel_ok (s\<lparr>wt_logic := l\<rparr>) = channel_ok s" "channel_ok (s\<lparr>wt_heartbeat := t\<rparr>) = channel_ok s"
  "channel_ok (s\<lparr>wt_activated := b\<rparr>) = channel_ok s" "channel_ok (s\<lparr>wt_notified := q\<rparr>) = channel_ok s"
  "channel_ok (s\<lparr>wt_stopped := b\<rparr>) = channel_ok s"
  by (simp_all add: channel_ok_def)

lemma wt_outbound_message_ok: "channel_ok s \<Longrightarrow> channel_ok (fst (wt_outbound_message P t msg s))"
  by (auto simp: wt_outbound_message_def send_auto_def Let_def wt_stop_def dest: try_send_ok
      split: prod.split wt_send_result.split)

lemma wt_inbound_ok: "channel_ok s \<Longrightarrow> channel_ok (fst (wt_inbound P t d source s))"
  by (auto simp: wt_inbound_def Let_def wt_stop_def dest!: try_send_ok [rotated]
      split: prod.split wt_send_result.split inbound_action.split)

lemma writer_takes_ok: "channel_ok s \<Longrightarrow> channel_ok (fst (writer_takes ok s))"
  by (auto simp: writer_takes_def channel_ok_def split: list.split wt_outbound.split)

lemma channel_ok_step: "channel_ok s \<Longrightarrow> channel_ok (fst (wt_step P s e))"
proof (cases e)
  case WtBridgeEnds
  then show ?thesis by (simp add: channel_ok_def)
qed (auto simp: wt_outbound_message_ok wt_inbound_ok wt_session_started_def wt_send_ok wt_stop_def wt_heartbeat_check_def
       wt_packet_def writer_takes_ok Let_def split: sum.split list.split)

interpretation wt_channel: invariant_system "\<lambda>s e. fst (wt_step P s e)" channel_ok "\<lambda>_. True"
  by unfold_locales (rule channel_ok_step)

text \<open>The route of a message for a WebTransport client: what the wrapper calls media goes by a reliable stream, which
  includes heartbeats and round-trip probes; every other message that fits goes by an unreliable datagram, which
  includes the exchange of keys and the announcements of the meeting.\<close>

lemma wt_route:
  assumes "parse_wrapper P (sm_msg msg) = Some w" and "\<not> wt_channel_closed s" and "length (wt_channel s) < OUTBOUND_CAPACITY"
  shows "wt_channel (fst (wt_outbound_message P now msg s)) = wt_channel s @
    [if pw_packet_type w = packet_type_value MEDIA \<or> DATAGRAM_MAX_SIZE < length (sm_msg msg)
     then UniStream (sm_msg msg) else Datagram (sm_msg msg)]"
  using assms by (auto simp: wt_outbound_message_def handle_outbound_def send_auto_def route_def try_send_def Let_def)

end
