(* ===== verification/Session_Flow.thy ===== *)
theory Session_Flow
  imports Transport_Sessions Chat_Server
begin

text \<open>
  The session actors and the chat server together: what a client sends is published in its room.

  The chat server handles the messages of all sessions in some order. For one session the only assumption is that its
  own messages arrive in the order in which its actor sent them, which is what a mailbox guarantees.
\<close>

text \<open>The bytes the chat server publishes for a packet: the session is filled in where the client left it zero.\<close>

definition stamped :: "proto \<Rightarrow> u64 \<Rightarrow> bytes \<Rightarrow> bytes" where
  "stamped P session msg =
     (case parse_wrapper P msg of
        Some packet_wrapper \<Rightarrow>
          (case write_wrapper P (if pw_session_id packet_wrapper = 0
                                 then packet_wrapper\<lparr>pw_session_id := session\<rparr> else packet_wrapper) of
             Some bs \<Rightarrow> bs | None \<Rightarrow> msg)
      | None \<Rightarrow> msg)"

fun chat_event :: "session_effect \<Rightarrow> 'r server_event option" where
  "chat_event (ToChatActivate a) = Some (EvActivate a)"
| "chat_event (ToChatClient m) = Some (EvClient m)"
| "chat_event (Logic (SendDisconnect d)) = Some (EvDisconnect d)"
| "chat_event _ = None"

text \<open>The messages of a session that matter for whether its packets are published.\<close>

fun concerns :: "u64 \<Rightarrow> 'r server_event \<Rightarrow> bool" where
  "concerns sid (EvConnect m) = (co_id m = sid)"
| "concerns sid (EvDisconnect m) = (di_session m = sid)"
| "concerns sid (EvActivate m) = (ac_session m = sid)"
| "concerns sid (EvClient m) = (cm_session m = sid)"
| "concerns sid _ = False"

fun client_of :: "u64 \<Rightarrow> 'r server_event \<Rightarrow> bool" where
  "client_of sid (EvClient m) = (cm_session m = sid)"
| "client_of sid _ = False"

text \<open>What the server does in a run for the packets of one session.\<close>

definition done_for :: "proto \<Rightarrow> u64 \<Rightarrow> 'r chat_system \<Rightarrow> 'r server_event list \<Rightarrow> 'r server_effect list" where
  "done_for P sid sys evs =
     concat (map snd (filter (\<lambda>(ev, eff). client_of sid ev) (sys_trace P sys evs)))"

abbreviation state_of :: "'r chat_system \<Rightarrow> u64 \<Rightarrow> connection_state option" where
  "state_of sys sid \<equiv> cs_connection_states (sys_server sys) sid"

lemma leave_rooms_states [simp]:
  "cs_connection_states (fst (leave_rooms P session room user dn obs sv)) = cs_connection_states sv"
  by (simp add: leave_rooms_def Let_def split: option.split)

lemma other_events_keep_state:
  assumes "\<not> concerns sid ev"
  shows "state_of (fst (sys_step P sys ev)) sid = state_of sys sid"
proof (cases ev)
  case (EvConnect m)
  then show ?thesis using assms by (simp add: handle_connect_def)
next
  case (EvDisconnect m)
  then show ?thesis
    using assms by (simp add: handle_disconnect_def Let_def split_beta split: option.split)
next
  case (EvLeave m)
  then show ?thesis by (simp add: handle_leave_def Let_def split_beta)
next
  case (EvActivate m)
  then show ?thesis using assms by (simp add: handle_activate_def Let_def split_beta split: option.split)
next
  case (EvJoin now_ms m)
  then show ?thesis by (simp add: handle_join_room_def Let_def split_beta split: option.split)
next
  case (EvTimer h)
  then show ?thesis
    by (auto simp: fire_timer_def handle_execute_pending_departure_def Let_def split_beta split: option.split)
qed simp_all

lemma active_packet_published:
  "state_of sys (cm_session m) = Some Active \<Longrightarrow>
   snd (sys_step P sys (EvClient m)) = [Publish (session_subject (cm_room m) (cm_session m)) (stamped P (cm_session m) (cm_msg m))]"
  by (simp add: handle_client_message_def stamped_def Let_def split: option.split)

lemma active_packets_published:
  assumes "state_of sys (sl_id l) = Some Active"
    and "filter (concerns (sl_id l)) evs = map (\<lambda>d. EvClient (create_client_message l d)) ds"
  shows "done_for P (sl_id l) sys evs = map (\<lambda>d. Publish (session_subject (sl_room l) (sl_id l)) (stamped P (sl_id l) d)) ds"
  using assms
proof (induction evs arbitrary: sys ds)
  case (Cons ev evs)
  let ?sid = "sl_id l"
  show ?case
  proof (cases "concerns ?sid ev")
    case False
    then have "\<not> client_of ?sid ev" by (cases ev) simp_all
    then show ?thesis
      using Cons.IH [of "fst (sys_step P sys ev)" ds] Cons.prems False other_events_keep_state [OF False, of P sys]
      by (simp add: done_for_def)
  next
    case True
    then obtain d ds' where ds: "ds = d # ds'" "ev = EvClient (create_client_message l d)"
        "filter (concerns ?sid) evs = map (\<lambda>d. EvClient (create_client_message l d)) ds'"
      using Cons.prems(2) by (cases ds) auto
    then show ?thesis
      using Cons.IH [of sys ds'] Cons.prems(1) active_packet_published [of sys "create_client_message l d" P]
      by (simp add: done_for_def create_client_message_def)
  qed
qed (simp add: done_for_def)

lemma activation_then_packets:
  assumes "state_of sys (sl_id l) = Some Testing"
    and "filter (concerns (sl_id l)) evs =
      EvActivate \<lparr>ac_session = sl_id l\<rparr> # map (\<lambda>d. EvClient (create_client_message l d)) ds"
  shows "done_for P (sl_id l) sys evs = map (\<lambda>d. Publish (session_subject (sl_room l) (sl_id l)) (stamped P (sl_id l) d)) ds"
  using assms
proof (induction evs arbitrary: sys)
  case (Cons ev evs)
  let ?sid = "sl_id l"
  show ?case
  proof (cases "concerns ?sid ev")
    case False
    then have "\<not> client_of ?sid ev" by (cases ev) simp_all
    then show ?thesis
      using Cons.IH [of "fst (sys_step P sys ev)"] Cons.prems False other_events_keep_state [OF False, of P sys]
      by (simp add: done_for_def)
  next
    case True
    then have ev: "ev = EvActivate \<lparr>ac_session = ?sid\<rparr>"
        "filter (concerns ?sid) evs = map (\<lambda>d. EvClient (create_client_message l d)) ds"
      using Cons.prems(2) by simp_all
    have "state_of (fst (sys_step P sys ev)) ?sid = Some Active"
      using Cons.prems(1) ev(1) by (simp add: handle_activate_def Let_def split_beta split: option.split)
    from active_packets_published [OF this ev(2)] show ?thesis using ev(1) by (simp add: done_for_def)
  qed
qed simp

lemma chat_events_of_parts:
  assumes "filter is_disconnect es = []"
  shows "List.map_filter (chat_event :: session_effect \<Rightarrow> 'r server_event option) es =
    List.map_filter chat_event (chat_part es)"
  using assms
proof (induction es)
  case (Cons e es)
  have "(chat_event e :: 'r server_event option) = None" if "\<not> for_chat e" "\<not> is_disconnect e"
    using that by (cases e rule: chat_event.cases) simp_all
  then show ?case using Cons by (auto simp: map_filter_simps chat_part_def split: if_splits option.split)
qed (simp add: map_filter_simps)

lemma relayed_published:
  assumes "relayed P l packets active waiting False es" and "state_of sys (sl_id l) = Some Testing"
    and "filter (concerns (sl_id l)) evs = List.map_filter chat_event es"
  shows "\<exists>ds. done_for P (sl_id l) sys evs =
      map (\<lambda>d. Publish (session_subject (sl_room l) (sl_id l)) (stamped P (sl_id l) d)) ds \<and>
    forwarded P l packets = ds @ waiting"
proof -
  have m: "List.map_filter chat_event (map (\<lambda>d. ToChatClient (create_client_message l d)) ds) =
      map (\<lambda>d. EvClient (create_client_message l d)) ds" for ds
    by (induction ds) (simp_all add: map_filter_simps)
  from assms(1) obtain ds where es: "chat_part es =
        (if active then [ToChatActivate \<lparr>ac_session = sl_id l\<rparr>] else []) @
        map (\<lambda>d. ToChatClient (create_client_message l d)) ds"
      and f: "forwarded P l packets = ds @ waiting" "ds = [] \<or> active" and nd: "filter is_disconnect es = []"
    by (auto simp: relayed_def)
  have ev: "filter (concerns (sl_id l)) evs = List.map_filter chat_event (chat_part es)"
    using assms(3) chat_events_of_parts [OF nd] by simp
  show ?thesis
  proof (cases active)
    case True
    then have "filter (concerns (sl_id l)) evs =
        EvActivate \<lparr>ac_session = sl_id l\<rparr> # map (\<lambda>d. EvClient (create_client_message l d)) ds"
      using ev es m by (simp add: map_filter_simps)
    from activation_then_packets [OF assms(2) this] show ?thesis using f(1) by blast
  next
    case False
    then have "ds = []" "filter (concerns (sl_id l)) evs = []" using f(2) ev es by (simp_all add: map_filter_simps)
    moreover have "done_for P (sl_id l) sys evs = []"
    proof -
      have "\<not> client_of (sl_id l) ev" if "ev \<in> set evs" for ev
        using \<open>filter (concerns (sl_id l)) evs = []\<close> that by (cases ev) (auto simp: filter_empty_conv)
      moreover have "fst ` set (sys_trace P sys evs) \<subseteq> set evs" by (induction evs arbitrary: sys) auto
      ultimately show ?thesis unfolding done_for_def by (auto simp: filter_empty_conv concat_eq_Nil_conv)
    qed
    ultimately show ?thesis using f(1) by auto
  qed
qed


text \<open>The same over WebTransport.\<close>

theorem wt_client_packets_published:
  assumes "wt_run P l t evs = (s, es)" and "\<not> wt_stopped s" and "state_of sys (sl_id l) = Some Testing"
    and "filter (concerns (sl_id l)) sevs = List.map_filter chat_event es"
  shows "\<exists>ds. done_for P (sl_id l) sys sevs =
      map (\<lambda>d. Publish (session_subject (sl_room l) (sl_id l)) (stamped P (sl_id l) d)) ds \<and>
    forwarded P l (List.map_filter wt_arrives evs) = ds @ wt_notified s"
  using relayed_published [OF _ assms(3,4)] wt_relayed [OF assms(1)] assms(2) by auto

section \<open>A session sends a packet\<close>

definition flow_logic :: session_logic where
  "flow_logic = session_logic_new 1 0 ''r'' ''alice'' ''Alice'' False"

definition flow_server :: "unit chat_system" where
  "flow_server = chat_system_new\<lparr>sys_server := handle_connect \<lparr>co_id = 1, co_addr = ()\<rparr> chat_server_new\<rparr>"

definition flow_packet :: bytes where
  "flow_packet = ref_write_wrapper default_packet_wrapper"


end
