(* ===== verification/Client_Diagnostics.thy ===== *)
theory Client_Diagnostics
  imports Bitrate_Controller Peer_Decoding Connection_Manager
begin

text \<open>
  What the client measures about the streams it receives and learns about the streams it sends:
  \<open>videocall-client/src/diagnostics/diagnostics_manager.rs\<close>, with the events of the diagnostics bus
  (\<open>videocall-diagnostics/src/lib.rs\<close>).

  \<^item> A worker handles one event after the other and reads the clock once per event. What it broadcasts, shows or hands to
    a callback is returned in program order. Callbacks that can be unset are flags.
  \<^item> The managers only put events into the channel of their worker; whether the channel takes one is an argument.
  \<^item> Statistics are printed with a fixed number of decimals, rounded half to even as the standard library does.
  \<^item> \<open>None\<close> as a result of the sender's worker is a panic.
\<close>

section \<open>The diagnostics bus\<close>

datatype metric_value = MI64 "64 word" | MU64 u64 | MF64 real | MText string

record metric =
  mt_name :: string
  mt_value :: metric_value

record diag_event =
  de_subsystem :: string
  de_stream_id :: "string option"
  de_ts_ms :: u64
  de_metrics :: "metric list"

abbreviation metric_of :: "string \<Rightarrow> metric_value \<Rightarrow> metric" where
  "metric_of n v \<equiv> \<lparr>mt_name = n, mt_value = v\<rparr>"

definition now_ms :: "real \<Rightarrow> u64" where
  "now_ms now = f64_to_u64 now"

fun media_type_debug :: "media_type \<Rightarrow> string" where
  "media_type_debug MEDIA_TYPE_UNKNOWN = ''MEDIA_TYPE_UNKNOWN''"
| "media_type_debug VIDEO = ''VIDEO''"
| "media_type_debug AUDIO = ''AUDIO''"
| "media_type_debug SCREEN = ''SCREEN''"
| "media_type_debug HEARTBEAT = ''HEARTBEAT''"
| "media_type_debug RTT = ''RTT''"
| "media_type_debug KEYFRAME_REQUEST = ''KEYFRAME_REQUEST''"

section \<open>Frame rates of the streams received\<close>

record fps_tracker =
  ft_frames_count :: u32
  ft_fps :: real
  ft_last_fps_update :: real
  ft_total_frames :: u32
  ft_media_type :: media_type
  ft_last_frame_time :: real
  ft_bytes_received :: u64
  ft_last_bitrate_update :: real
  ft_current_bitrate :: real

definition fps_tracker_new :: "real \<Rightarrow> media_type \<Rightarrow> fps_tracker" where
  "fps_tracker_new now media_type =
     \<lparr>ft_frames_count = 0, ft_fps = 0, ft_last_fps_update = now, ft_total_frames = 0,
      ft_media_type = media_type, ft_last_frame_time = now, ft_bytes_received = 0,
      ft_last_bitrate_update = now, ft_current_bitrate = 0\<rparr>"

definition track_frame_with_size :: "real \<Rightarrow> u64 \<Rightarrow> fps_tracker \<Rightarrow> (real \<times> real) \<times> fps_tracker" where
  "track_frame_with_size now nbytes t =
     (let t1 = t\<lparr>ft_frames_count := ft_frames_count t + 1, ft_total_frames := ft_total_frames t + 1,
                 ft_last_frame_time := now, ft_bytes_received := ft_bytes_received t + nbytes\<rparr>;
          elapsed_ms = now - ft_last_bitrate_update t1;
          t2 = (if elapsed_ms \<ge> 1000
                then t1\<lparr>ft_fps := real (unat (ft_frames_count t1)) * 1000 / elapsed_ms,
                        ft_frames_count := 0,
                        ft_current_bitrate := real (unat (ft_bytes_received t1 * 8)) / elapsed_ms * 1000 / 1000,
                        ft_bytes_received := 0, ft_last_fps_update := now, ft_last_bitrate_update := now\<rparr>
                else t1)
      in ((ft_fps t2, ft_current_bitrate t2), t2))"

definition check_inactive :: "real \<Rightarrow> fps_tracker \<Rightarrow> fps_tracker" where
  "check_inactive now t =
     (if now - ft_last_frame_time t > 1000 \<and> (ft_fps t > 0 \<or> ft_current_bitrate t > 0)
      then t\<lparr>ft_fps := 0, ft_current_bitrate := 0, ft_frames_count := 0, ft_bytes_received := 0,
             ft_last_fps_update := now, ft_last_bitrate_update := now\<rparr>
      else t)"

definition get_metrics :: "real \<Rightarrow> fps_tracker \<Rightarrow> real \<times> real" where
  "get_metrics now t =
     (if now - ft_last_frame_time t > 1000 then (0, 0) else (ft_fps t, ft_current_bitrate t))"

section \<open>The worker of the receiver\<close>

datatype diagnostic_event =
    FrameReceived string media_type u64
  | RequestStats
  | SetStatsCallback
  | SetReportingInterval u64
  | HeartbeatTick
  | SetPacketHandler

record diagnostic_worker =
  wk_fps_trackers :: "(string \<times> (media_type \<times> fps_tracker) list) list"
  wk_on_stats_update :: bool
  wk_last_report_time :: real
  wk_report_interval_ms :: u64
  wk_packet_handler :: bool
  wk_userid :: string

datatype diag_effect =
    Broadcast diag_event
  | ShowStats string
  | HandlePacket diagnostics_packet

definition diagnostic_worker_new :: "real \<Rightarrow> string \<Rightarrow> diagnostic_worker" where
  "diagnostic_worker_new now userid =
     \<lparr>wk_fps_trackers = [], wk_on_stats_update = False, wk_last_report_time = now,
      wk_report_interval_ms = 500, wk_packet_handler = False, wk_userid = userid\<rparr>"

definition round_half_even :: "real \<Rightarrow> int" where
  "round_half_even x =
     (let n = \<lfloor>x\<rfloor>; d = x - of_int n
      in if d < 1 / 2 \<or> (d = 1 / 2 \<and> even n) then n else n + 1)"

text \<open>\<open>{x:.d}\<close>.\<close>

definition fmt_fixed :: "nat \<Rightarrow> real \<Rightarrow> string" where
  "fmt_fixed d x =
     (let n = nat (round_half_even (\<bar>x\<bar> * 10 ^ d));
          frac = show_nat (n mod 10 ^ d)
      in (if x < 0 then ''-'' else []) @ show_nat (n div 10 ^ d) @
         (if d = 0 then [] else ''.'' @ replicate (d - length frac) (CHR ''0'') @ frac))"

definition append_media_stats :: "string \<Rightarrow> (real \<times> real) option \<Rightarrow> string" where
  "append_media_stats media_str metrics =
     (case metrics of
        None \<Rightarrow> []
      | Some (fps, bitrate) \<Rightarrow>
          if fps \<le> 1 / 100 \<or> bitrate \<le> 1 / 100 then media_str @ ''=INACTIVE ''
          else media_str @ ''='' @ fmt_fixed 2 fps @ '' FPS '' @ fmt_fixed 1 bitrate @ '' kbit/s '')"

definition get_all_fps_stats :: "real \<Rightarrow> diagnostic_worker \<Rightarrow> (string \<times> (media_type \<times> real \<times> real) list) list" where
  "get_all_fps_stats now w =
     map (\<lambda>(peer_id, ts). (peer_id, map (\<lambda>(m, t). (m, get_metrics now t)) ts)) (wk_fps_trackers w)"

definition get_fps_stats_string :: "real \<Rightarrow> diagnostic_worker \<Rightarrow> string" where
  "get_fps_stats_string now w =
     (let stats = get_all_fps_stats now w
      in ''Time: '' @ fmt_fixed 0 now @ ''ms'' @ [CHR 0x0A] @
         concat (map (\<lambda>(peer_id, entries).
           ''Peer '' @ peer_id @ '': '' @
           append_media_stats ''Video'' (map_of entries VIDEO) @
           append_media_stats ''Audio'' (map_of entries AUDIO) @
           append_media_stats ''Screen'' (map_of entries SCREEN) @ [CHR 0x0A]) stats) @
         (if stats = [] then ''No active peers.'' @ [CHR 0x0A] else []))"

definition maybe_report_stats_to_ui :: "real \<Rightarrow> diagnostic_worker \<Rightarrow> diagnostic_worker \<times> diag_effect list" where
  "maybe_report_stats_to_ui now w =
     (if now - wk_last_report_time w \<ge> real (unat (wk_report_interval_ms w))
      then (w\<lparr>wk_last_report_time := now\<rparr>,
            if wk_on_stats_update w then [ShowStats (get_fps_stats_string now w)] else [])
      else (w, []))"

definition decoder_event :: "real \<Rightarrow> string \<Rightarrow> string \<Rightarrow> media_type \<Rightarrow> fps_tracker \<Rightarrow> diag_event" where
  "decoder_event now userid peer_id media_type t =
     \<lparr>de_subsystem = ''decoder'', de_stream_id = None, de_ts_ms = now_ms now,
      de_metrics = [metric_of ''fps'' (MF64 (ft_fps t)),
                    metric_of ''bitrate_kbps'' (MF64 (ft_current_bitrate t)),
                    metric_of ''media_type'' (MText (media_type_debug media_type)),
                    metric_of ''from_peer'' (MText userid), metric_of ''to_peer'' (MText peer_id)]\<rparr>"

definition video_event :: "real \<Rightarrow> string \<Rightarrow> string \<Rightarrow> fps_tracker \<Rightarrow> diag_event" where
  "video_event now userid peer_id t =
     \<lparr>de_subsystem = ''video'', de_stream_id = None, de_ts_ms = now_ms now,
      de_metrics = [metric_of ''fps_received'' (MF64 (ft_fps t)),
                    metric_of ''bitrate_kbps'' (MF64 (ft_current_bitrate t)),
                    metric_of ''from_peer'' (MText userid), metric_of ''to_peer'' (MText peer_id)]\<rparr>"

definition stream_packet :: "real \<Rightarrow> string \<Rightarrow> string \<Rightarrow> media_type \<Rightarrow> fps_tracker \<Rightarrow> diagnostics_packet" where
  "stream_packet now userid peer_id media_type t =
     (let metrics = \<lparr>sm_fps_received = ft_fps t, sm_bitrate_kbps = f64_to_u32 (ft_current_bitrate t)\<rparr>
      in \<lparr>dp_stream_id = [], dp_sender_id = peer_id, dp_target_id = userid,
          dp_timestamp_ms = f64_to_u64 now, dp_media_type = media_type_value media_type,
          dp_video_metrics = (if media_type = AUDIO then None else Some metrics),
          dp_audio_metrics = (if media_type = AUDIO then Some metrics else None)\<rparr>)"

definition stream_report :: "real \<Rightarrow> diagnostic_worker \<Rightarrow> string \<Rightarrow> media_type \<times> fps_tracker \<Rightarrow> diag_effect list" where
  "stream_report now w peer_id entry =
     (case entry of
        (media_type, t) \<Rightarrow>
          [Broadcast (decoder_event now (wk_userid w) peer_id media_type t),
           Broadcast (video_event now (wk_userid w) peer_id t)] @
          (if wk_packet_handler w
           then [HandlePacket (stream_packet now (wk_userid w) peer_id media_type t)] else []))"

definition send_diagnostic_packets :: "real \<Rightarrow> diagnostic_worker \<Rightarrow> diag_effect list" where
  "send_diagnostic_packets now w =
     concat (map (\<lambda>(peer_id, ts). concat (map (stream_report now w peer_id) ts)) (wk_fps_trackers w))"

definition frame_received :: "real \<Rightarrow> string \<Rightarrow> media_type \<Rightarrow> u64 \<Rightarrow> diagnostic_worker \<Rightarrow> diagnostic_worker" where
  "frame_received now peer_id media_type frame_size w =
     (let ts = (case map_of (wk_fps_trackers w) peer_id of Some ts \<Rightarrow> ts | None \<Rightarrow> []);
          t = (case map_of ts media_type of Some t \<Rightarrow> t | None \<Rightarrow> fps_tracker_new now media_type)
      in w\<lparr>wk_fps_trackers :=
             AList.update peer_id
               (AList.update media_type (snd (track_frame_with_size now frame_size t)) ts)
               (wk_fps_trackers w)\<rparr>)"

fun worker_event :: "real \<times> diagnostic_event \<Rightarrow> diagnostic_worker \<Rightarrow> diagnostic_worker \<times> diag_effect list" where
  "worker_event (now, FrameReceived peer_id media_type frame_size) w =
     (frame_received now peer_id media_type frame_size w, [])"
| "worker_event (now, SetStatsCallback) w = (w\<lparr>wk_on_stats_update := True\<rparr>, [])"
| "worker_event (now, SetReportingInterval interval) w = (w\<lparr>wk_report_interval_ms := interval\<rparr>, [])"
| "worker_event (now, RequestStats) w = maybe_report_stats_to_ui now w"
| "worker_event (now, HeartbeatTick) w =
     (case maybe_report_stats_to_ui now w of (w1, es) \<Rightarrow> (w1, es @ send_diagnostic_packets now w1))"
| "worker_event (now, SetPacketHandler) w = (w\<lparr>wk_packet_handler := True\<rparr>, [])"

text \<open>\<open>DiagnosticWorker::run\<close>.\<close>

fun worker_run :: "(real \<times> diagnostic_event) list \<Rightarrow> diagnostic_worker \<Rightarrow> diagnostic_worker \<times> diag_effect list" where
  "worker_run [] w = (w, [])"
| "worker_run (ev # evs) w =
     (case worker_event ev w of (w1, es) \<Rightarrow> case worker_run evs w1 of (w2, fs) \<Rightarrow> (w2, es @ fs))"

text \<open>The manager in front of the worker.\<close>

record diagnostic_manager =
  dgm_queue :: "diagnostic_event list"
  dgm_frames_decoded :: u32
  dgm_frames_dropped :: u32
  dgm_report_interval_ms :: u64

definition diagnostic_manager_new :: diagnostic_manager where
  "diagnostic_manager_new =
     \<lparr>dgm_queue = [], dgm_frames_decoded = 0, dgm_frames_dropped = 0, dgm_report_interval_ms = 500\<rparr>"

definition dgm_try_send :: "bool \<Rightarrow> diagnostic_event \<Rightarrow> diagnostic_manager \<Rightarrow> diagnostic_manager" where
  "dgm_try_send taken ev d = (if taken then d\<lparr>dgm_queue := dgm_queue d @ [ev]\<rparr> else d)"

definition track_frame ::
  "bool \<Rightarrow> bool \<Rightarrow> string \<Rightarrow> media_type \<Rightarrow> u64 \<Rightarrow> diagnostic_manager \<Rightarrow> real \<times> diagnostic_manager" where
  "track_frame taken1 taken2 peer_id media_type frame_size d =
     (0, dgm_try_send taken2 RequestStats
           (dgm_try_send taken1 (FrameReceived peer_id media_type frame_size)
              (d\<lparr>dgm_frames_decoded := dgm_frames_decoded d + 1\<rparr>)))"

definition set_reporting_interval :: "bool \<Rightarrow> u64 \<Rightarrow> diagnostic_manager \<Rightarrow> diagnostic_manager" where
  "set_reporting_interval taken interval_ms d =
     dgm_try_send taken (SetReportingInterval interval_ms) (d\<lparr>dgm_report_interval_ms := interval_ms\<rparr>)"

definition set_stats_callback :: "bool \<Rightarrow> diagnostic_manager \<Rightarrow> diagnostic_manager" where
  "set_stats_callback taken d = dgm_try_send taken SetStatsCallback d"

definition set_packet_handler :: "bool \<Rightarrow> diagnostic_manager \<Rightarrow> diagnostic_manager" where
  "set_packet_handler taken d = dgm_try_send taken SetPacketHandler d"

definition diagnostics_heartbeat :: "bool \<Rightarrow> diagnostic_manager \<Rightarrow> diagnostic_manager" where
  "diagnostics_heartbeat taken d = dgm_try_send taken HeartbeatTick d"

definition increment_frames_dropped :: "diagnostic_manager \<Rightarrow> diagnostic_manager" where
  "increment_frames_dropped d = d\<lparr>dgm_frames_dropped := dgm_frames_dropped d + 1\<rparr>"

section \<open>The worker of the sender\<close>

record stream_stats =
  ss_media_type :: media_type
  ss_last_update :: real
  ss_median_latency_ms :: u32
  ss_jitter_ms :: u32
  ss_estimated_bandwidth_kbps :: u32
  ss_round_trip_time_ms :: u32
  ss_peer_id :: string

definition stream_stats_new :: "real \<Rightarrow> string \<Rightarrow> media_type \<Rightarrow> stream_stats" where
  "stream_stats_new now peer_id media_type =
     \<lparr>ss_media_type = media_type, ss_last_update = now, ss_median_latency_ms = 0, ss_jitter_ms = 0,
      ss_estimated_bandwidth_kbps = 0, ss_round_trip_time_ms = 0, ss_peer_id = peer_id\<rparr>"

definition update_from_packet ::
  "real \<Rightarrow> diagnostics_packet \<Rightarrow> media_type \<Rightarrow> stream_stats \<Rightarrow> stream_stats option" where
  "update_from_packet now packet media_type st =
     (let bandwidth =
            (case media_type of
               VIDEO \<Rightarrow> map_option sm_bitrate_kbps (dp_video_metrics packet)
             | AUDIO \<Rightarrow> map_option sm_bitrate_kbps (dp_audio_metrics packet)
             | SCREEN \<Rightarrow> map_option sm_bitrate_kbps (dp_video_metrics packet)
             | _ \<Rightarrow> Some 0)
      in map_option (\<lambda>b. st\<lparr>ss_last_update := now, ss_estimated_bandwidth_kbps := b\<rparr>) bandwidth)"

definition is_stale :: "real \<Rightarrow> stream_stats \<Rightarrow> bool" where
  "is_stale now st \<longleftrightarrow> now - ss_last_update st > 2000"

datatype sender_event =
    DiagnosticPacketReceived diagnostics_packet
  | SenderSetStatsCallback
  | SenderSetReportingInterval u64
  | SenderHeartbeatTick
  | AddEncoderCallback
  | AddSenderChannel nat media_type

record sender_worker =
  sw_stream_stats :: "(string \<times> (media_type \<times> stream_stats) list) list"
  sw_on_stats_update :: bool
  sw_encoder_callbacks :: nat
  sw_sender_channels :: "(nat \<times> media_type) list"
  sw_last_report_time :: real
  sw_report_interval_ms :: u64
  sw_userid :: string

datatype sender_effect =
    SenderBroadcast diag_event
  | ToChannel nat diagnostics_packet
  | ShowSenderStats string

definition sender_worker_new :: "real \<Rightarrow> string \<Rightarrow> sender_worker" where
  "sender_worker_new now userid =
     \<lparr>sw_stream_stats = [], sw_on_stats_update = False, sw_encoder_callbacks = 0,
      sw_sender_channels = [], sw_last_report_time = now, sw_report_interval_ms = 500,
      sw_userid = userid\<rparr>"

definition remove_stale ::
  "real \<Rightarrow> (string \<times> (media_type \<times> stream_stats) list) list \<Rightarrow> (string \<times> (media_type \<times> stream_stats) list) list" where
  "remove_stale now table =
     filter (\<lambda>(p, entries). entries \<noteq> [])
       (map (\<lambda>(p, entries). (p, filter (\<lambda>(m, st). \<not> is_stale now st) entries)) table)"

definition sender_media_stats :: "string \<Rightarrow> stream_stats option \<Rightarrow> string" where
  "sender_media_stats media_str entry =
     (case entry of
        None \<Rightarrow> []
      | Some st \<Rightarrow>
          media_str @ '': '' @ show_nat (unat (ss_estimated_bandwidth_kbps st)) @ '' kbps, '' @
          show_nat (unat (ss_median_latency_ms st)) @ '' ms latency, '' @
          show_nat (unat (ss_jitter_ms st)) @ '' ms jitter, '' @
          show_nat (unat (ss_round_trip_time_ms st)) @ '' ms RTT'' @ [CHR 0x0A])"

definition get_stats_string :: "real \<Rightarrow> sender_worker \<Rightarrow> string \<times> sender_worker" where
  "get_stats_string now sw =
     (let table = remove_stale now (sw_stream_stats sw)
      in (concat (map (\<lambda>(peer_id, entries).
            ''Peer '' @ peer_id @ [CHR 0x0A] @ sender_media_stats ''Video'' (map_of entries VIDEO) @
            sender_media_stats ''Audio'' (map_of entries AUDIO) @
            sender_media_stats ''Screen'' (map_of entries SCREEN)) table) @
          (if table = [] then ''No feedback received about your streams yet.'' @ [CHR 0x0A] else []),
          sw\<lparr>sw_stream_stats := table\<rparr>))"

definition sender_maybe_report :: "real \<Rightarrow> sender_worker \<Rightarrow> sender_worker \<times> sender_effect list" where
  "sender_maybe_report now sw =
     (if now - sw_last_report_time sw \<ge> real (unat (sw_report_interval_ms sw))
      then (case get_stats_string now sw of
              (txt, sw1) \<Rightarrow>
                (sw1\<lparr>sw_last_report_time := now\<rparr>, if sw_on_stats_update sw then [ShowSenderStats txt] else []))
      else (sw, []))"

definition packet_media_type :: "diagnostics_packet \<Rightarrow> media_type" where
  "packet_media_type packet =
     (case media_type_from_i32 (dp_media_type packet) of Some m \<Rightarrow> m | None \<Rightarrow> MEDIA_TYPE_UNKNOWN)"

definition sender_diag_event :: "real \<Rightarrow> diagnostics_packet \<Rightarrow> diag_event" where
  "sender_diag_event now packet =
     \<lparr>de_subsystem = ''sender'', de_stream_id = Some (dp_target_id packet), de_ts_ms = now_ms now,
      de_metrics = [metric_of ''sender_id'' (MText (dp_sender_id packet)),
                    metric_of ''target_id'' (MText (dp_target_id packet)),
                    metric_of ''media_type'' (MText (media_type_debug (packet_media_type packet))),
                    metric_of ''packet_timestamp'' (MU64 (dp_timestamp_ms packet))]\<rparr>"

definition record_own_stats :: "real \<Rightarrow> diagnostics_packet \<Rightarrow> sender_worker \<Rightarrow> sender_worker option" where
  "record_own_stats now packet sw =
     (if dp_sender_id packet = sw_userid sw
      then (let target_id = dp_target_id packet; m = packet_media_type packet;
                entries = (case map_of (sw_stream_stats sw) target_id of Some entries \<Rightarrow> entries | None \<Rightarrow> []);
                st = (case map_of entries m of Some st \<Rightarrow> st | None \<Rightarrow> stream_stats_new now target_id m)
            in map_option (\<lambda>st1. sw\<lparr>sw_stream_stats :=
                   AList.update target_id (AList.update m st1 entries) (sw_stream_stats sw)\<rparr>)
                 (update_from_packet now packet m st))
      else Some sw)"

definition diagnostic_packet_received ::
  "real \<Rightarrow> diagnostics_packet \<Rightarrow> sender_worker \<Rightarrow> (sender_worker \<times> sender_effect list) option" where
  "diagnostic_packet_received now packet sw =
     map_option (\<lambda>sw1.
         (sw1, SenderBroadcast (sender_diag_event now packet) #
               map (\<lambda>(c, m). ToChannel c packet)
                 (filter (\<lambda>(c, m). m = packet_media_type packet) (sw_sender_channels sw1))))
       (record_own_stats now packet sw)"

fun sender_step :: "real \<times> sender_event \<Rightarrow> sender_worker \<Rightarrow> (sender_worker \<times> sender_effect list) option" where
  "sender_step (now, DiagnosticPacketReceived packet) sw = diagnostic_packet_received now packet sw"
| "sender_step (now, SenderSetStatsCallback) sw = Some (sw\<lparr>sw_on_stats_update := True\<rparr>, [])"
| "sender_step (now, SenderSetReportingInterval interval) sw = Some (sw\<lparr>sw_report_interval_ms := interval\<rparr>, [])"
| "sender_step (now, SenderHeartbeatTick) sw = Some (sender_maybe_report now sw)"
| "sender_step (now, AddEncoderCallback) sw =
     Some (sw\<lparr>sw_encoder_callbacks := Suc (sw_encoder_callbacks sw)\<rparr>, [])"
| "sender_step (now, AddSenderChannel c m) sw =
     Some (sw\<lparr>sw_sender_channels := sw_sender_channels sw @ [(c, m)]\<rparr>, [])"

fun sender_run :: "(real \<times> sender_event) list \<Rightarrow> sender_worker \<Rightarrow> (sender_worker \<times> sender_effect list) option" where
  "sender_run [] sw = Some (sw, [])"
| "sender_run (ev # evs) sw =
     (case sender_step ev sw of
        None \<Rightarrow> None
      | Some (sw1, es) \<Rightarrow> map_option (\<lambda>(sw2, fs). (sw2, es @ fs)) (sender_run evs sw1))"

section \<open>Accounting of frames and bytes\<close>

text \<open>The windows a tracker closes over a sequence of frames, each with its length and the rates it published.\<close>

fun track_all :: "(real \<times> u64) list \<Rightarrow> fps_tracker \<Rightarrow> (real \<times> real \<times> real) list \<times> fps_tracker" where
  "track_all [] t = ([], t)"
| "track_all ((now, nbytes) # frames) t =
     (let t1 = snd (track_frame_with_size now nbytes t); elapsed = now - ft_last_bitrate_update t
      in case track_all frames t1 of
           (ws, t2) \<Rightarrow>
             ((if elapsed \<ge> 1000 then [(elapsed, ft_fps t1, ft_current_bitrate t1)] else []) @ ws, t2))"

abbreviation bytes_of :: "(real \<times> u64) list \<Rightarrow> nat" where
  "bytes_of frames \<equiv> sum_list (map (\<lambda>(now, n). unat n) frames)"

abbreviation frames_in :: "(real \<times> real \<times> real) list \<Rightarrow> real" where
  "frames_in ws \<equiv> sum_list (map (\<lambda>(elapsed, fps, bitrate). fps * elapsed / 1000) ws)"

abbreviation bits_in :: "(real \<times> real \<times> real) list \<Rightarrow> real" where
  "bits_in ws \<equiv> sum_list (map (\<lambda>(elapsed, fps, bitrate). bitrate * elapsed) ws)"

lemma unat_add_small: "unat a + unat b < 2 ^ LENGTH('a) \<Longrightarrow> unat (a + b :: 'a::len word) = unat a + unat b"
  by (simp add: unat_word_ariths)

lemma unat_times_8: "8 * unat a < 2 ^ 64 \<Longrightarrow> unat (a * 8 :: u64) = 8 * unat a"
  by (simp add: unat_word_ariths mult.commute)

abbreviation closed_window :: "real \<Rightarrow> u64 \<Rightarrow> fps_tracker \<Rightarrow> (real \<times> real \<times> real) list" where
  "closed_window now n t \<equiv>
     (let t1 = snd (track_frame_with_size now n t); elapsed = now - ft_last_bitrate_update t
      in if elapsed \<ge> 1000 then [(elapsed, ft_fps t1, ft_current_bitrate t1)] else [])"

lemma track_all_Cons:
  "track_all ((now, n) # frames) t =
     (closed_window now n t @ fst (track_all frames (snd (track_frame_with_size now n t))),
      snd (track_all frames (snd (track_frame_with_size now n t))))"
  by (simp add: Let_def split: prod.splits)

lemma frame_accounts:
  fixes now n t
  defines "t1 \<equiv> snd (track_frame_with_size now n t)"
  assumes "unat (ft_frames_count t) + 1 < 2 ^ 32" "unat (ft_total_frames t) + 1 < 2 ^ 32"
    and "8 * (unat (ft_bytes_received t) + unat n) < 2 ^ 64"
  shows "frames_in (closed_window now n t) + real (unat (ft_frames_count t1)) = real (unat (ft_frames_count t) + 1)"
    and "bits_in (closed_window now n t) + real (8 * unat (ft_bytes_received t1)) =
         real (8 * (unat (ft_bytes_received t) + unat n))"
    and "unat (ft_total_frames t1) = unat (ft_total_frames t) + 1"
proof -
  have count: "unat (ft_frames_count t + 1) = unat (ft_frames_count t) + 1"
    and total: "unat (ft_total_frames t + 1) = unat (ft_total_frames t) + 1"
    using assms(2,3) by (simp_all add: unat_plus_one)
  have nbytes: "unat (ft_bytes_received t + n) = unat (ft_bytes_received t) + unat n"
    by (rule unat_add_small) (use assms(4) in simp)
  then have nbits: "unat ((ft_bytes_received t + n) * 8) = 8 * (unat (ft_bytes_received t) + unat n)"
    using unat_times_8 [of "ft_bytes_received t + n"] assms(4) by simp
  show "frames_in (closed_window now n t) + real (unat (ft_frames_count t1)) = real (unat (ft_frames_count t) + 1)"
    unfolding t1_def using count by (simp add: track_frame_with_size_def Let_def del: of_nat_unat)
  show "bits_in (closed_window now n t) + real (8 * unat (ft_bytes_received t1)) =
         real (8 * (unat (ft_bytes_received t) + unat n))"
  proof -
    obtain e where "now - ft_last_bitrate_update t = e" by simp
    then show ?thesis
      unfolding t1_def using nbytes nbits
      by (cases "1000 \<le> e")
        (simp_all add: track_frame_with_size_def Let_def field_simps del: of_nat_unat)
  qed
  show "unat (ft_total_frames t1) = unat (ft_total_frames t) + 1"
    unfolding t1_def using total by (simp add: track_frame_with_size_def Let_def)
qed

lemma frame_counts_bounded:
  assumes "unat (ft_frames_count t) + 1 < 2 ^ 32" "8 * (unat (ft_bytes_received t) + unat n) < 2 ^ 64"
  shows "unat (ft_frames_count (snd (track_frame_with_size now n t))) \<le> unat (ft_frames_count t) + 1"
    and "unat (ft_bytes_received (snd (track_frame_with_size now n t))) \<le> unat (ft_bytes_received t) + unat n"
  using assms unat_add_small [of "ft_bytes_received t" n]
  by (auto simp: track_frame_with_size_def Let_def unat_plus_one)

lemma track_all_accounts:
  assumes "unat (ft_frames_count t) + length frames < 2 ^ 32" "unat (ft_total_frames t) + length frames < 2 ^ 32"
    and "8 * (unat (ft_bytes_received t) + bytes_of frames) < 2 ^ 64"
  shows "frames_in (fst (track_all frames t)) + real (unat (ft_frames_count (snd (track_all frames t)))) =
           real (unat (ft_frames_count t) + length frames) \<and>
         bits_in (fst (track_all frames t)) + real (8 * unat (ft_bytes_received (snd (track_all frames t)))) =
           real (8 * (unat (ft_bytes_received t) + bytes_of frames)) \<and>
         unat (ft_total_frames (snd (track_all frames t))) = unat (ft_total_frames t) + length frames"
  using assms
proof (induction frames arbitrary: t)
  case (Cons f frames)
  obtain now n where f: "f = (now, n)" by (cases f)
  define t1 where "t1 = snd (track_frame_with_size now n t)"
  have small: "unat (ft_frames_count t) + 1 < 2 ^ 32" "unat (ft_total_frames t) + 1 < 2 ^ 32"
    "8 * (unat (ft_bytes_received t) + unat n) < 2 ^ 64"
    using Cons.prems by (auto simp: f)
  note one = frame_accounts [OF small, of now, folded t1_def]
  have "unat (ft_frames_count t1) \<le> unat (ft_frames_count t) + 1"
    "unat (ft_bytes_received t1) \<le> unat (ft_bytes_received t) + unat n"
    unfolding t1_def by (rule frame_counts_bounded [OF small(1,3)])+
  then have rest: "frames_in (fst (track_all frames t1)) + real (unat (ft_frames_count (snd (track_all frames t1)))) =
           real (unat (ft_frames_count t1) + length frames) \<and>
         bits_in (fst (track_all frames t1)) + real (8 * unat (ft_bytes_received (snd (track_all frames t1)))) =
           real (8 * (unat (ft_bytes_received t1) + bytes_of frames)) \<and>
         unat (ft_total_frames (snd (track_all frames t1))) = unat (ft_total_frames t1) + length frames"
    using Cons.prems one(3) by (intro Cons.IH) (auto simp: f)
  show ?case
    unfolding f track_all_Cons fst_conv snd_conv t1_def [symmetric] map_append sum_list_append
    using rest one by (simp add: algebra_simps)
qed simp

text \<open>C20: A new tracker that sees \<open>frames\<close> loses nothing: the frames of the windows it closed (published frame rate times length)
  and the frames it counts for the open window are all of them, and the same holds for the published
  bitrates (in kbit/s, that is bits per millisecond) and the bits received, as long as the counters do not overflow.\<close>

theorem frame_accounting:
  assumes "track_all frames (fps_tracker_new now0 m) = (ws, t)"
    and "length frames < 2 ^ 32" and "8 * bytes_of frames < 2 ^ 64"
  shows "frames_in ws + real (unat (ft_frames_count t)) = real (length frames) \<and>
         bits_in ws + real (8 * unat (ft_bytes_received t)) = real (8 * bytes_of frames) \<and>
         unat (ft_total_frames t) = length frames"
  using track_all_accounts [where frames = frames and t = "fps_tracker_new now0 m"] assms
  by (simp add: fps_tracker_new_def)

section \<open>Reports about streams\<close>

definition tracker_of :: "diagnostic_worker \<Rightarrow> string \<Rightarrow> media_type \<Rightarrow> fps_tracker option" where
  "tracker_of w peer_id m = Option.bind (map_of (wk_fps_trackers w) peer_id) (\<lambda>ts. map_of ts m)"

lemma maybe_report_keeps [simp]:
  "wk_fps_trackers (fst (maybe_report_stats_to_ui now w)) = wk_fps_trackers w"
  "wk_packet_handler (fst (maybe_report_stats_to_ui now w)) = wk_packet_handler w"
  "wk_userid (fst (maybe_report_stats_to_ui now w)) = wk_userid w"
  by (simp_all add: maybe_report_stats_to_ui_def)

lemma tracker_of_keeps [simp]:
  "tracker_of (fst (maybe_report_stats_to_ui now w)) = tracker_of w"
  "tracker_of (w\<lparr>wk_on_stats_update := b\<rparr>) = tracker_of w"
  "tracker_of (w\<lparr>wk_report_interval_ms := i\<rparr>) = tracker_of w"
  "tracker_of (w\<lparr>wk_packet_handler := b\<rparr>) = tracker_of w"
  by (simp_all add: fun_eq_iff tracker_of_def)

lemma tracker_of_frame_received:
  "tracker_of (frame_received now p m n w) q k =
     (if p = q \<and> m = k
      then Some (snd (track_frame_with_size now n
             (case tracker_of w p m of Some t \<Rightarrow> t | None \<Rightarrow> fps_tracker_new now m)))
      else tracker_of w q k)"
  by (auto simp: tracker_of_def frame_received_def Let_def split: option.splits)

lemma frame_received_keeps [simp]:
  "wk_packet_handler (frame_received now p m n w) = wk_packet_handler w"
  "wk_userid (frame_received now p m n w) = wk_userid w"
  by (simp_all add: frame_received_def Let_def)

definition frame_of :: "string \<Rightarrow> media_type \<Rightarrow> diagnostic_event \<Rightarrow> bool" where
  "frame_of p m ev \<longleftrightarrow> (case ev of FrameReceived q k n \<Rightarrow> q = p \<and> k = m | _ \<Rightarrow> False)"

lemma worker_event_other:
  assumes "\<not> frame_of p m (snd ev)"
  shows "tracker_of (fst (worker_event ev w)) p m = tracker_of w p m"
    and "wk_userid (fst (worker_event ev w)) = wk_userid w"
    and "wk_packet_handler w \<Longrightarrow> wk_packet_handler (fst (worker_event ev w))"
proof -
  obtain now e where ev: "ev = (now, e)" by (cases ev)
  show "tracker_of (fst (worker_event ev w)) p m = tracker_of w p m"
    using assms by (cases e)
      (auto simp: ev tracker_of_frame_received frame_of_def case_prod_unfold)
  show "wk_userid (fst (worker_event ev w)) = wk_userid w"
    by (cases e) (simp_all add: ev case_prod_unfold)
  show "wk_packet_handler (fst (worker_event ev w))" if "wk_packet_handler w"
    using that by (cases e) (simp_all add: ev case_prod_unfold)
qed

lemma worker_run_fst: "fst (worker_run (ev # evs) w) = fst (worker_run evs (fst (worker_event ev w)))"
  by (simp split: prod.splits)

lemma worker_run_other:
  assumes "\<forall>ev \<in> set evs. \<not> frame_of p m (snd ev)"
  shows "tracker_of (fst (worker_run evs w)) p m = tracker_of w p m \<and>
         wk_userid (fst (worker_run evs w)) = wk_userid w \<and>
         (wk_packet_handler w \<longrightarrow> wk_packet_handler (fst (worker_run evs w)))"
  using assms
proof (induction evs arbitrary: w)
  case (Cons ev evs)
  then have "\<not> frame_of p m (snd ev)" by simp
  note one = worker_event_other [OF this]
  show ?case
    unfolding worker_run_fst using Cons one by auto
qed simp

lemma stream_report_sent:
  assumes "tracker_of w p m = Some t"
  shows "set (stream_report now w p (m, t)) \<subseteq> set (send_diagnostic_packets now w)"
proof -
  obtain ts where "(p, ts) \<in> set (wk_fps_trackers w)" and "(m, t) \<in> set ts"
    using assms by (auto simp: tracker_of_def bind_eq_Some_conv dest: map_of_SomeD)
  then show ?thesis unfolding send_diagnostic_packets_def by fastforce
qed

lemma send_after_report [simp]:
  "send_diagnostic_packets now (fst (maybe_report_stats_to_ui now w)) = send_diagnostic_packets now w"
proof -
  have "stream_report now (fst (maybe_report_stats_to_ui now w)) = stream_report now w"
    by (simp add: fun_eq_iff stream_report_def)
  then show ?thesis by (simp add: send_diagnostic_packets_def)
qed

lemma heartbeat_sends:
  "set (send_diagnostic_packets now w) \<subseteq> set (snd (worker_event (now, HeartbeatTick) w))"
  by (auto simp: case_prod_unfold)

text \<open>C17: Once a stream has been measured, every later heartbeat reports its last measured frame rate to the
  sender, however long no frame has come; the statistics on the page call the same stream inactive one second
  after its last frame.\<close>

theorem stalled_stream_reported_live:
  assumes "tracker_of w p m = Some t" and "wk_packet_handler w"
    and "\<forall>ev \<in> set evs. \<not> frame_of p m (snd ev)" and "now > ft_last_frame_time t + 1000"
    and "m = VIDEO \<or> m = AUDIO \<or> m = SCREEN"
  shows "HandlePacket (stream_packet now (wk_userid w) p m t)
           \<in> set (snd (worker_event (now, HeartbeatTick) (fst (worker_run evs w)))) \<and>
         packet_fps (stream_packet now (wk_userid w) p m t) = Some (ft_fps t) \<and>
         get_metrics now t = (0, 0)"
proof (intro conjI)
  let ?w = "fst (worker_run evs w)"
  have "tracker_of ?w p m = Some t" "wk_userid ?w = wk_userid w" "wk_packet_handler ?w"
    using worker_run_other [OF assms(3), where w = w] assms(1,2) by auto
  then show "HandlePacket (stream_packet now (wk_userid w) p m t)
           \<in> set (snd (worker_event (now, HeartbeatTick) ?w))"
    using stream_report_sent [where w = ?w and p = p and m = m and t = t and now = now]
      heartbeat_sends [of now ?w]
    by (auto simp: stream_report_def)
  show "packet_fps (stream_packet now (wk_userid w) p m t) = Some (ft_fps t)"
    using assms(5) by (auto simp: packet_fps_def stream_packet_def Let_def)
  show "get_metrics now t = (0, 0)"
    using assms(4) by (simp add: get_metrics_def)
qed

section \<open>Feedback to the sender\<close>

definition lacks_metrics :: "diagnostics_packet \<Rightarrow> bool" where
  "lacks_metrics packet \<longleftrightarrow>
     (case packet_media_type packet of
        VIDEO \<Rightarrow> dp_video_metrics packet = None
      | AUDIO \<Rightarrow> dp_audio_metrics packet = None
      | SCREEN \<Rightarrow> dp_video_metrics packet = None
      | _ \<Rightarrow> False)"

lemma update_from_packet_None: "update_from_packet now packet (packet_media_type packet) st = None \<longleftrightarrow> lacks_metrics packet"
  by (simp add: update_from_packet_def lacks_metrics_def Let_def split: media_type.split)

lemma packet_panics_iff:
  "diagnostic_packet_received now packet sw = None \<longleftrightarrow>
     dp_sender_id packet = sw_userid sw \<and> lacks_metrics packet"
  by (auto simp: diagnostic_packet_received_def record_own_stats_def Let_def update_from_packet_None)

lemma record_own_stats_keeps:
  "record_own_stats now packet sw = Some sw1 \<Longrightarrow>
     sw_sender_channels sw1 = sw_sender_channels sw \<and> sw_userid sw1 = sw_userid sw"
  by (auto simp: record_own_stats_def Let_def split: if_splits)

lemma sender_report_keeps [simp]:
  "sw_sender_channels (fst (sender_maybe_report now sw)) = sw_sender_channels sw"
  "sw_userid (fst (sender_maybe_report now sw)) = sw_userid sw"
  by (simp_all add: sender_maybe_report_def get_stats_string_def Let_def)

definition packets_of :: "(real \<times> sender_event) list \<Rightarrow> diagnostics_packet list" where
  "packets_of evs = concat (map (\<lambda>(now, ev). case ev of DiagnosticPacketReceived p \<Rightarrow> [p] | _ \<Rightarrow> []) evs)"

definition sent_to :: "nat \<Rightarrow> sender_effect list \<Rightarrow> diagnostics_packet list" where
  "sent_to c es = concat (map (\<lambda>e. case e of ToChannel d p \<Rightarrow> if d = c then [p] else [] | _ \<Rightarrow> []) es)"

definition adds_channel :: "real \<times> sender_event \<Rightarrow> bool" where
  "adds_channel ev \<longleftrightarrow> (case snd ev of AddSenderChannel c m \<Rightarrow> True | _ \<Rightarrow> False)"

lemma sent_to_append [simp]: "sent_to c (es @ fs) = sent_to c es @ sent_to c fs"
  by (simp add: sent_to_def)

lemma sent_to_channels:
  "sent_to c (map (\<lambda>(d, m). ToChannel d p) (filter (\<lambda>(d, m). m = k) cs)) =
     map (\<lambda>_. p) (filter (\<lambda>(d, m). m = k) (filter (\<lambda>(d, m). d = c) cs))"
  by (induction cs) (auto simp: sent_to_def)

lemma sender_step_channels:
  assumes "sender_step ev sw = Some (sw1, es)" and "\<not> adds_channel ev"
    and "filter (\<lambda>(d, m). d = c) (sw_sender_channels sw) = [(c, k)]"
  shows "sw_sender_channels sw1 = sw_sender_channels sw"
    and "sent_to c es = filter (\<lambda>p. packet_media_type p = k) (packets_of [ev])"
proof -
  obtain now e where ev: "ev = (now, e)" by (cases ev)
  show "sw_sender_channels sw1 = sw_sender_channels sw"
    using assms(1,2) sender_report_keeps(1) [of now sw]
    by (cases e) (auto simp: ev adds_channel_def diagnostic_packet_received_def dest: record_own_stats_keeps)
  show "sent_to c es = filter (\<lambda>p. packet_media_type p = k) (packets_of [ev])"
  proof (cases e)
    case (DiagnosticPacketReceived p)
    then obtain sw' where "record_own_stats now p sw = Some sw'"
      and es: "es = SenderBroadcast (sender_diag_event now p) #
           map (\<lambda>(d, m). ToChannel d p) (filter (\<lambda>(d, m). m = packet_media_type p) (sw_sender_channels sw'))"
      using assms(1) by (auto simp: ev diagnostic_packet_received_def)
    then have "sw_sender_channels sw' = sw_sender_channels sw" by (simp add: record_own_stats_keeps)
    then have "sent_to c es = map (\<lambda>_. p) (filter (\<lambda>(d, m). m = packet_media_type p) [(c, k)])"
      using sent_to_channels [of c p "packet_media_type p" "sw_sender_channels sw"] assms(3)
      by (simp add: es sent_to_def)
    then show ?thesis by (auto simp: ev DiagnosticPacketReceived packets_of_def)
  qed (use assms(1,2) in \<open>auto simp: ev adds_channel_def sent_to_def packets_of_def sender_maybe_report_def
         get_stats_string_def Let_def split: if_splits\<close>)
qed

lemma sender_run_channels:
  assumes "sender_run evs sw = Some (sw1, es)" and "\<forall>ev \<in> set evs. \<not> adds_channel ev"
    and "filter (\<lambda>(d, m). d = c) (sw_sender_channels sw) = [(c, k)]"
  shows "sent_to c es = filter (\<lambda>p. packet_media_type p = k) (packets_of evs)"
  using assms
proof (induction evs arbitrary: sw es)
  case Nil
  then show ?case by (simp add: sent_to_def packets_of_def)
next
  case (Cons ev evs)
  then obtain sw2 fs gs where step: "sender_step ev sw = Some (sw2, fs)"
    and run: "sender_run evs sw2 = Some (sw1, gs)" and es: "es = fs @ gs"
    by (auto split: option.splits)
  note one = sender_step_channels [OF step _ Cons.prems(3)]
  have "sent_to c gs = filter (\<lambda>p. packet_media_type p = k) (packets_of evs)"
    using Cons.prems one(1) by (intro Cons.IH [OF run]) auto
  moreover have "packets_of (ev # evs) = packets_of [ev] @ packets_of evs" by (simp add: packets_of_def)
  ultimately show ?case using one(2) Cons.prems(2) by (simp add: es)
qed

text \<open>C16: A channel that an encoder registered once for a media type receives exactly the reports of that type, in the
  order in which they came in, whose stream they describe is not asked: reports of one participant
  about the stream of another reach the bitrate control of every third one.\<close>

theorem feedback_not_filtered:
  assumes "sender_run evs sw = Some (sw1, es)" and "\<forall>ev \<in> set evs. \<not> adds_channel ev"
    and "filter (\<lambda>(d, m). d = c) (sw_sender_channels sw) = [(c, k)]"
  shows "sent_to c es = filter (\<lambda>p. packet_media_type p = k) (packets_of evs)"
  by (rule sender_run_channels [OF assms])

definition no_feedback :: string where
  "no_feedback = ''No feedback received about your streams yet.'' @ [CHR 0x0A]"

definition only_no_feedback :: "sender_effect list \<Rightarrow> bool" where
  "only_no_feedback es \<longleftrightarrow> (\<forall>txt. ShowSenderStats txt \<in> set es \<longrightarrow> txt = no_feedback)"

lemma sender_step_foreign:
  assumes "sw_stream_stats sw = []" and "\<forall>p \<in> set (packets_of [ev]). dp_sender_id p \<noteq> sw_userid sw"
  shows "\<exists>sw1 es. sender_step ev sw = Some (sw1, es) \<and> sw_stream_stats sw1 = [] \<and>
           sw_userid sw1 = sw_userid sw \<and> only_no_feedback es"
proof -
  obtain now e where ev: "ev = (now, e)" by (cases ev)
  show ?thesis
    using assms
    by (cases e) (auto simp: ev packets_of_def diagnostic_packet_received_def record_own_stats_def
        only_no_feedback_def no_feedback_def sender_maybe_report_def get_stats_string_def remove_stale_def)
qed

lemma sender_run_foreign:
  assumes "sw_stream_stats sw = []" and "\<forall>p \<in> set (packets_of evs). dp_sender_id p \<noteq> sw_userid sw"
  shows "\<exists>sw1 es. sender_run evs sw = Some (sw1, es) \<and> only_no_feedback es"
  using assms
proof (induction evs arbitrary: sw)
  case Nil
  then show ?case by (simp add: only_no_feedback_def)
next
  case (Cons ev evs)
  have split: "packets_of (ev # evs) = packets_of [ev] @ packets_of evs" by (simp add: packets_of_def)
  then obtain sw2 fs where step: "sender_step ev sw = Some (sw2, fs)" "sw_stream_stats sw2 = []"
    "sw_userid sw2 = sw_userid sw" "only_no_feedback fs"
    using sender_step_foreign [OF Cons.prems(1), of ev] Cons.prems(2) by auto
  then obtain sw1 gs where "sender_run evs sw2 = Some (sw1, gs)" "only_no_feedback gs"
    using Cons.IH [of sw2] Cons.prems(2) split by auto
  with step show ?case by (auto simp: only_no_feedback_def)
qed

text \<open>Receivers name a stream by the session number of its sender, the sender looks for its user name. Unless
  the user name is a number, the statistics of the own streams stay empty: over every run the worker does not panic and each time
  it shows statistics it shows that no feedback was received, however many reports came in.\<close>

theorem own_feedback_never_shown:
  assumes "\<forall>n. userid \<noteq> show_u64 n"
    and "\<forall>p \<in> set (packets_of evs). \<exists>session_id. dp_sender_id p = show_u64 session_id"
  shows "\<exists>sw es. sender_run evs (sender_worker_new now0 userid) = Some (sw, es) \<and> only_no_feedback es"
proof -
  have "\<forall>p \<in> set (packets_of evs). dp_sender_id p \<noteq> userid"
    using assms by metis
  then show ?thesis
    using sender_run_foreign [of "sender_worker_new now0 userid" evs] by (simp add: sender_worker_new_def)
qed

end
