(* ===== verification/Health_Reports.thy ===== *)
theory Health_Reports
  imports Client_Diagnostics
begin

text \<open>
  The health reporter of the client, \<open>videocall-client/src/health_reporter.rs\<close>: it follows the diagnostics bus,
  keeps for each peer whether it can be heard and seen, and periodically sends a health packet.

  \<^item> One event or tick reads the clock once. The reporter runs on the one thread of the page and holds no borrow across an
    \<open>await\<close>, so \<open>try_borrow\<close> succeeds and is not modelled.
  \<^item> The two tasks hold weak references; they live as long as the reporter does.
  \<^item> A JSON value is the datatype \<open>json\<close> with the three kinds of numbers of \<open>serde_json\<close>; its parser and the encoder of the health packet
    are parameters.
\<close>

section \<open>JSON values\<close>

datatype json =
    JNull
  | JBool bool
  | JPosInt u64
  | JNegInt "64 word"
  | JFloat real
  | JString string
  | JArray "json list"
  | JObject "(string \<times> json) list"

fun json_get :: "string \<Rightarrow> json \<Rightarrow> json option" where
  "json_get k (JObject obj) = map_of obj k"
| "json_get k _ = None"

fun json_set :: "string \<Rightarrow> json \<Rightarrow> json \<Rightarrow> json" where
  "json_set k v (JObject obj) = JObject (AList.update k v obj)"
| "json_set k v j = j"

fun as_f64 :: "json \<Rightarrow> real option" where
  "as_f64 (JPosInt n) = Some (real (unat n))"
| "as_f64 (JNegInt n) = Some (real_of_int (sint n))"
| "as_f64 (JFloat x) = Some x"
| "as_f64 _ = None"

fun as_u64 :: "json \<Rightarrow> u64 option" where
  "as_u64 (JPosInt n) = Some n"
| "as_u64 _ = None"

section \<open>Health of a peer\<close>

record peer_health_data =
  ph_peer_id :: string
  ph_last_neteq_stats :: "json option"
  ph_last_video_stats :: "json option"
  ph_can_listen :: bool
  ph_can_see :: bool
  ph_last_update_ms :: u64

definition peer_health_data_new :: "string \<Rightarrow> peer_health_data" where
  "peer_health_data_new peer_id =
     \<lparr>ph_peer_id = peer_id, ph_last_neteq_stats = None, ph_last_video_stats = None,
      ph_can_listen = False, ph_can_see = False, ph_last_update_ms = 0\<rparr>"

definition update_audio_stats :: "u64 \<Rightarrow> json \<Rightarrow> peer_health_data \<Rightarrow> peer_health_data" where
  "update_audio_stats now neteq_stats pd =
     pd\<lparr>ph_last_neteq_stats := Some neteq_stats, ph_can_listen := True, ph_last_update_ms := now\<rparr>"

definition update_video_stats :: "u64 \<Rightarrow> json \<Rightarrow> peer_health_data \<Rightarrow> peer_health_data" where
  "update_video_stats now video_stats pd =
     pd\<lparr>ph_last_video_stats := Some video_stats, ph_can_see := True, ph_last_update_ms := now\<rparr>"

definition mark_audio_timeout :: "peer_health_data \<Rightarrow> peer_health_data" where
  "mark_audio_timeout pd = pd\<lparr>ph_can_listen := False\<rparr>"

definition mark_video_timeout :: "peer_health_data \<Rightarrow> peer_health_data" where
  "mark_video_timeout pd = pd\<lparr>ph_can_see := False\<rparr>"

type_synonym health_map = "(string \<times> peer_health_data) list"

definition with_peer :: "string \<Rightarrow> (peer_health_data \<Rightarrow> peer_health_data) \<Rightarrow> health_map \<Rightarrow> health_map" where
  "with_peer target f hm =
     AList.update target (f (case map_of hm target of Some pd \<Rightarrow> pd | None \<Rightarrow> peer_health_data_new target)) hm"

section \<open>Diagnostics events\<close>

definition text_metric :: "string \<Rightarrow> metric list \<Rightarrow> string option" where
  "text_metric n metrics =
     foldl (\<lambda>found m. if mt_name m = n then (case mt_value m of MText s \<Rightarrow> Some s | _ \<Rightarrow> found) else found)
       None metrics"

function split_arrow :: "string \<Rightarrow> string list" where
  "split_arrow [] = [[]]"
| "split_arrow (c # s) =
     (if c = CHR ''-'' \<and> s \<noteq> [] \<and> hd s = CHR ''>'' then [] # split_arrow (tl s)
      else (case split_arrow s of [] \<Rightarrow> [[c]] | part # parts \<Rightarrow> (c # part) # parts))"
  by pat_completeness auto
termination by (relation "measure length") auto

definition event_peers :: "diag_event \<Rightarrow> string \<times> string" where
  "event_peers ev =
     (let reporting = text_metric ''from_peer'' (de_metrics ev);
          target = text_metric ''to_peer'' (de_metrics ev);
          (reporting1, target1) =
            (if reporting = None \<or> target = None
             then (case de_stream_id ev of
                     None \<Rightarrow> (reporting, target)
                   | Some sid \<Rightarrow>
                       (case split_arrow sid of
                          [a, b] \<Rightarrow> (Some (case reporting of Some r \<Rightarrow> r | None \<Rightarrow> a),
                                     Some (case target of Some t \<Rightarrow> t | None \<Rightarrow> b))
                        | _ \<Rightarrow> (reporting, target)))
             else (reporting, target))
      in (case reporting1 of Some r \<Rightarrow> r | None \<Rightarrow> ''unknown'',
          case target1 of Some t \<Rightarrow> t | None \<Rightarrow> ''unknown''))"

fun contains_str :: "string \<Rightarrow> string \<Rightarrow> bool" where
  "contains_str [] pat = (pat = [])"
| "contains_str (c # s) pat = (take (length pat) (c # s) = pat \<or> contains_str s pat)"

definition neteq_metric :: "(string \<Rightarrow> json option) \<Rightarrow> u64 \<Rightarrow> peer_health_data \<Rightarrow> metric \<Rightarrow> peer_health_data" where
  "neteq_metric from_str now pd m =
     (if mt_name m = ''stats_json''
      then (case mt_value m of
              MText s \<Rightarrow>
                (case from_str s of
                   Some neteq_json \<Rightarrow> (update_audio_stats now neteq_json pd)\<lparr>ph_can_listen := True\<rparr>
                 | None \<Rightarrow> pd)
            | _ \<Rightarrow> pd)
      else if mt_name m = ''audio_buffer_ms''
      then (case mt_value m of MU64 buffer_ms \<Rightarrow> pd\<lparr>ph_can_listen := 0 < buffer_ms\<rparr> | _ \<Rightarrow> pd)
      else pd)"

definition decoder_metric :: "peer_health_data \<Rightarrow> metric \<Rightarrow> peer_health_data" where
  "decoder_metric pd m =
     (if mt_name m = ''fps''
      then (case mt_value m of MF64 fps \<Rightarrow> pd\<lparr>ph_can_see := 0 < fps\<rparr> | _ \<Rightarrow> pd)
      else if mt_name m = ''media_type''
      then (case mt_value m of
              MText s \<Rightarrow>
                if contains_str s ''AUDIO'' then pd\<lparr>ph_can_listen := True\<rparr>
                else if contains_str s ''VIDEO'' \<or> contains_str s ''SCREEN'' then pd\<lparr>ph_can_see := True\<rparr>
                else pd
            | _ \<Rightarrow> pd)
      else pd)"

definition peer_status_metric :: "peer_health_data \<Rightarrow> metric \<Rightarrow> peer_health_data" where
  "peer_status_metric pd m =
     (if mt_name m = ''audio_enabled''
      then (case mt_value m of MU64 v \<Rightarrow> pd\<lparr>ph_can_listen := 0 < v\<rparr> | _ \<Rightarrow> pd)
      else if mt_name m = ''video_enabled''
      then (case mt_value m of MU64 v \<Rightarrow> pd\<lparr>ph_can_see := 0 < v\<rparr> | _ \<Rightarrow> pd)
      else pd)"

definition video_metric :: "json \<times> peer_health_data \<Rightarrow> metric \<Rightarrow> json \<times> peer_health_data" where
  "video_metric acc m =
     (case acc of
        (stats, pd) \<Rightarrow>
          if mt_name m = ''fps_received''
          then (case mt_value m of
                  MF64 fps \<Rightarrow> (json_set ''fps_received'' (JFloat fps) stats, pd\<lparr>ph_can_see := 0 < fps\<rparr>)
                | _ \<Rightarrow> (stats, pd))
          else if mt_name m = ''frames_buffered'' \<or> mt_name m = ''packets_buffered''
          then (case mt_value m of
                  MU64 v \<Rightarrow> (json_set ''frames_buffered'' (JPosInt v) stats, pd)
                | MF64 v \<Rightarrow> (json_set ''frames_buffered'' (JFloat v) stats, pd)
                | _ \<Rightarrow> (stats, pd))
          else if mt_name m = ''frames_decoded''
          then (case mt_value m of
                  MU64 v \<Rightarrow> (json_set ''frames_decoded'' (JPosInt v) stats, pd) | _ \<Rightarrow> (stats, pd))
          else if mt_name m = ''bitrate_kbps''
          then (case mt_value m of
                  MU64 v \<Rightarrow> (json_set ''bitrate_kbps'' (JPosInt v) stats, pd) | _ \<Rightarrow> (stats, pd))
          else (stats, pd))"

definition video_update :: "u64 \<Rightarrow> diag_event \<Rightarrow> peer_health_data \<Rightarrow> peer_health_data" where
  "video_update now ev pd =
     (let stats0 = (case ph_last_video_stats pd of Some (JObject obj) \<Rightarrow> JObject obj | _ \<Rightarrow> JObject []);
          (stats, pd1) = foldl video_metric (json_set ''timestamp_ms'' (JPosInt (de_ts_ms ev)) stats0, pd)
                           (de_metrics ev)
      in update_video_stats now stats pd1)"

definition process_diagnostics_event ::
  "(string \<Rightarrow> json option) \<Rightarrow> u64 \<Rightarrow> diag_event \<Rightarrow> health_map \<Rightarrow> health_map" where
  "process_diagnostics_event from_str now ev hm =
     (let target = snd (event_peers ev); sys = de_subsystem ev
      in if sys = ''neteq''
         then with_peer target (\<lambda>pd. foldl (neteq_metric from_str now) pd (de_metrics ev)) hm
         else if sys = ''decoder'' then with_peer target (\<lambda>pd. foldl decoder_metric pd (de_metrics ev)) hm
         else if sys = ''sender'' then hm
         else if sys = ''peer_status''
         then with_peer target (\<lambda>pd. foldl peer_status_metric pd (de_metrics ev)) hm
         else if sys = ''video_decoder'' \<or> sys = ''video'' then with_peer target (video_update now ev) hm
         else hm)"

section \<open>The reporter\<close>

record health_reporter =
  hr_session_id :: string
  hr_meeting_id :: string
  hr_reporting_peer :: string
  hr_peer_health_data :: health_map
  hr_send_packet_callback :: bool
  hr_health_interval_ms :: u64
  hr_audio_enabled :: bool
  hr_video_enabled :: bool
  hr_active_server_url :: "string option"
  hr_active_server_type :: "string option"
  hr_active_server_rtt_ms :: "real option"

definition health_reporter_new :: "string \<Rightarrow> string \<Rightarrow> u64 \<Rightarrow> health_reporter" where
  "health_reporter_new session_id reporting_peer health_interval_ms =
     \<lparr>hr_session_id = session_id, hr_meeting_id = [], hr_reporting_peer = reporting_peer,
      hr_peer_health_data = [], hr_send_packet_callback = False,
      hr_health_interval_ms = health_interval_ms, hr_audio_enabled = False, hr_video_enabled = False,
      hr_active_server_url = None, hr_active_server_type = None, hr_active_server_rtt_ms = None\<rparr>"

definition set_meeting_id :: "string \<Rightarrow> health_reporter \<Rightarrow> health_reporter" where
  "set_meeting_id meeting_id hr = hr\<lparr>hr_meeting_id := meeting_id\<rparr>"

definition set_reporting_audio_enabled :: "bool \<Rightarrow> health_reporter \<Rightarrow> health_reporter" where
  "set_reporting_audio_enabled enabled hr = hr\<lparr>hr_audio_enabled := enabled\<rparr>"

definition set_reporting_video_enabled :: "bool \<Rightarrow> health_reporter \<Rightarrow> health_reporter" where
  "set_reporting_video_enabled enabled hr = hr\<lparr>hr_video_enabled := enabled\<rparr>"

definition hr_set_send_packet_callback :: "health_reporter \<Rightarrow> health_reporter" where
  "hr_set_send_packet_callback hr = hr\<lparr>hr_send_packet_callback := True\<rparr>"

definition set_health_interval :: "u64 \<Rightarrow> health_reporter \<Rightarrow> health_reporter" where
  "set_health_interval interval_ms hr = hr\<lparr>hr_health_interval_ms := interval_ms\<rparr>"

definition hr_remove_peer :: "string \<Rightarrow> health_reporter \<Rightarrow> health_reporter" where
  "hr_remove_peer peer_id hr = hr\<lparr>hr_peer_health_data := AList.delete peer_id (hr_peer_health_data hr)\<rparr>"

definition sender_metric :: "health_reporter \<Rightarrow> metric \<Rightarrow> health_reporter" where
  "sender_metric hr m =
     (if mt_name m = ''sender_audio_enabled''
      then (case mt_value m of MU64 v \<Rightarrow> hr\<lparr>hr_audio_enabled := 0 < v\<rparr> | _ \<Rightarrow> hr)
      else if mt_name m = ''sender_video_enabled''
      then (case mt_value m of MU64 v \<Rightarrow> hr\<lparr>hr_video_enabled := 0 < v\<rparr> | _ \<Rightarrow> hr)
      else hr)"

definition server_metric :: "health_reporter \<Rightarrow> metric \<Rightarrow> health_reporter" where
  "server_metric hr m =
     (if mt_name m = ''active_server_url''
      then (case mt_value m of MText v \<Rightarrow> hr\<lparr>hr_active_server_url := Some v\<rparr> | _ \<Rightarrow> hr)
      else if mt_name m = ''active_server_type''
      then (case mt_value m of MText v \<Rightarrow> hr\<lparr>hr_active_server_type := Some v\<rparr> | _ \<Rightarrow> hr)
      else if mt_name m = ''active_server_rtt''
      then (case mt_value m of MF64 v \<Rightarrow> hr\<lparr>hr_active_server_rtt_ms := Some v\<rparr> | _ \<Rightarrow> hr)
      else hr)"

text \<open>The body of the loop in \<open>start_diagnostics_subscription\<close>.\<close>

definition reporter_event :: "(string \<Rightarrow> json option) \<Rightarrow> u64 \<times> diag_event \<Rightarrow> health_reporter \<Rightarrow> health_reporter" where
  "reporter_event from_str timed hr =
     (case timed of
        (now, ev) \<Rightarrow>
          let hr1 = (if de_subsystem ev = ''sender'' then foldl sender_metric hr (de_metrics ev) else hr);
              hr2 = (if de_subsystem ev = ''connection_manager'' then foldl server_metric hr1 (de_metrics ev) else hr1)
          in hr2\<lparr>hr_peer_health_data := process_diagnostics_event from_str now ev (hr_peer_health_data hr2)\<rparr>)"

section \<open>Health packets\<close>

record neteq_operation_counters =
  oc_normal_per_sec :: real
  oc_expand_per_sec :: real
  oc_accelerate_per_sec :: real
  oc_fast_accelerate_per_sec :: real
  oc_preemptive_expand_per_sec :: real
  oc_merge_per_sec :: real
  oc_comfort_noise_per_sec :: real
  oc_dtmf_per_sec :: real
  oc_undefined_per_sec :: real

record pb_neteq_stats =
  ns_current_buffer_size_ms :: real
  ns_packets_awaiting_decode :: real
  ns_network :: "neteq_operation_counters option option"
  ns_packets_per_sec :: real

record pb_video_stats =
  vs_fps_received :: real
  vs_frames_buffered :: real
  vs_frames_decoded :: u64
  vs_bitrate_kbps :: u64

record pb_peer_stats =
  pst_can_listen :: bool
  pst_can_see :: bool
  pst_audio_enabled :: bool
  pst_video_enabled :: bool
  pst_neteq_stats :: "pb_neteq_stats option"
  pst_video_stats :: "pb_video_stats option"

record health_packet =
  hp_session_id :: string
  hp_meeting_id :: string
  hp_reporting_user_id :: bytes
  hp_timestamp_ms :: u64
  hp_reporting_audio_enabled :: bool
  hp_reporting_video_enabled :: bool
  hp_peer_stats :: "(string \<times> pb_peer_stats) list"
  hp_active_server_url :: string
  hp_active_server_type :: string
  hp_active_server_rtt_ms :: real

definition f64_field :: "string \<Rightarrow> json \<Rightarrow> real" where
  "f64_field k v = (case Option.bind (json_get k v) as_f64 of Some x \<Rightarrow> x | None \<Rightarrow> 0)"

definition u64_field :: "string \<Rightarrow> json \<Rightarrow> u64" where
  "u64_field k v = (case Option.bind (json_get k v) as_u64 of Some x \<Rightarrow> x | None \<Rightarrow> 0)"

definition pb_counters :: "json \<Rightarrow> neteq_operation_counters" where
  "pb_counters c =
     \<lparr>oc_normal_per_sec = f64_field ''normal_per_sec'' c, oc_expand_per_sec = f64_field ''expand_per_sec'' c,
      oc_accelerate_per_sec = f64_field ''accelerate_per_sec'' c,
      oc_fast_accelerate_per_sec = f64_field ''fast_accelerate_per_sec'' c,
      oc_preemptive_expand_per_sec = f64_field ''preemptive_expand_per_sec'' c,
      oc_merge_per_sec = f64_field ''merge_per_sec'' c,
      oc_comfort_noise_per_sec = f64_field ''comfort_noise_per_sec'' c,
      oc_dtmf_per_sec = f64_field ''dtmf_per_sec'' c, oc_undefined_per_sec = f64_field ''undefined_per_sec'' c\<rparr>"

definition pb_neteq :: "json \<Rightarrow> pb_neteq_stats" where
  "pb_neteq neteq =
     \<lparr>ns_current_buffer_size_ms = f64_field ''current_buffer_size_ms'' neteq,
      ns_packets_awaiting_decode = f64_field ''packets_awaiting_decode'' neteq,
      ns_network = map_option (\<lambda>network. map_option pb_counters (json_get ''operation_counters'' network))
                     (json_get ''network'' neteq),
      ns_packets_per_sec = f64_field ''packets_per_sec'' neteq\<rparr>"

definition pb_video :: "json \<Rightarrow> pb_video_stats" where
  "pb_video video =
     \<lparr>vs_fps_received = f64_field ''fps_received'' video, vs_frames_buffered = f64_field ''frames_buffered'' video,
      vs_frames_decoded = u64_field ''frames_decoded'' video, vs_bitrate_kbps = u64_field ''bitrate_kbps'' video\<rparr>"

definition pb_peer :: "peer_health_data \<Rightarrow> pb_peer_stats" where
  "pb_peer pd =
     \<lparr>pst_can_listen = ph_can_listen pd, pst_can_see = ph_can_see pd, pst_audio_enabled = ph_can_listen pd,
      pst_video_enabled = ph_can_see pd, pst_neteq_stats = map_option pb_neteq (ph_last_neteq_stats pd),
      pst_video_stats = map_option pb_video (ph_last_video_stats pd)\<rparr>"

text \<open>What \<open>start_health_reporting\<close> copies into the task.\<close>

record health_task =
  ht_session_id :: string
  ht_meeting_id :: string
  ht_reporting_peer :: string
  ht_interval_ms :: u64

definition start_health_reporting :: "health_reporter \<Rightarrow> health_task option" where
  "start_health_reporting hr =
     (if \<not> hr_send_packet_callback hr then None
      else Some \<lparr>ht_session_id = hr_session_id hr, ht_meeting_id = hr_meeting_id hr,
                 ht_reporting_peer = hr_reporting_peer hr, ht_interval_ms = hr_health_interval_ms hr\<rparr>)"

definition health_packet_of :: "u64 \<Rightarrow> health_task \<Rightarrow> health_reporter \<Rightarrow> health_packet" where
  "health_packet_of now task hr =
     \<lparr>hp_session_id = ht_session_id task, hp_meeting_id = ht_meeting_id task,
      hp_reporting_user_id = as_bytes (ht_reporting_peer task), hp_timestamp_ms = now,
      hp_reporting_audio_enabled = hr_audio_enabled hr, hp_reporting_video_enabled = hr_video_enabled hr,
      hp_peer_stats = map (\<lambda>(peer_id, pd). (peer_id, pb_peer pd)) (hr_peer_health_data hr),
      hp_active_server_url = (case hr_active_server_url hr of Some u \<Rightarrow> u | None \<Rightarrow> []),
      hp_active_server_type = (case hr_active_server_type hr of Some t \<Rightarrow> t | None \<Rightarrow> []),
      hp_active_server_rtt_ms = (case hr_active_server_rtt_ms hr of Some r \<Rightarrow> r | None \<Rightarrow> 0)\<rparr>"

definition create_health_packet ::
  "(health_packet \<Rightarrow> bytes option) \<Rightarrow> u64 \<Rightarrow> health_task \<Rightarrow> health_reporter \<Rightarrow> packet_wrapper option" where
  "create_health_packet write_health now task hr =
     (if hr_peer_health_data hr = [] then None
      else Some (default_packet_wrapper\<lparr>
             pw_packet_type := packet_type_value HEALTH, pw_user_id := as_bytes (ht_reporting_peer task),
             pw_data := bytes_or_default (write_health (health_packet_of now task hr))\<rparr>))"

text \<open>One round of the loop in \<open>start_health_reporting\<close>: what is handed to the connection.\<close>

definition health_tick ::
  "(health_packet \<Rightarrow> bytes option) \<Rightarrow> u64 \<Rightarrow> health_task \<Rightarrow> health_reporter \<Rightarrow> packet_wrapper list" where
  "health_tick write_health now task hr =
     (case create_health_packet write_health now task hr of Some packet \<Rightarrow> [packet] | None \<Rightarrow> [])"

definition get_health_summary :: "health_reporter \<Rightarrow> json" where
  "get_health_summary hr =
     JObject (map (\<lambda>(peer_id, pd).
       (peer_id, JObject [(''can_listen'', JBool (ph_can_listen pd)), (''can_see'', JBool (ph_can_see pd)),
                          (''last_update_ms'', JPosInt (ph_last_update_ms pd))])) (hr_peer_health_data hr))"

section \<open>What the reporter concludes from a heartbeat\<close>

definition broadcasts :: "diag_effect list \<Rightarrow> diag_event list" where
  "broadcasts es = concat (map (\<lambda>e. case e of Broadcast ev \<Rightarrow> [ev] | _ \<Rightarrow> []) es)"

definition reporter_run ::
  "(string \<Rightarrow> json option) \<Rightarrow> (u64 \<times> diag_event) list \<Rightarrow> health_reporter \<Rightarrow> health_reporter" where
  "reporter_run from_str evs hr = fold (reporter_event from_str) evs hr"

lemma broadcasts_append [simp]: "broadcasts (es @ fs) = broadcasts es @ broadcasts fs"
  by (simp add: broadcasts_def)

lemma broadcasts_Nil [simp]: "broadcasts [] = []"
  by (simp add: broadcasts_def)

lemma broadcasts_concat: "broadcasts (concat ess) = concat (map broadcasts ess)"
  by (induction ess) (simp_all add: broadcasts_def)

lemma reporter_run_simps [simp]:
  "reporter_run from_str [] hr = hr"
  "reporter_run from_str (ev # evs) hr = reporter_run from_str evs (reporter_event from_str ev hr)"
  "reporter_run from_str (evs @ gs) hr = reporter_run from_str gs (reporter_run from_str evs hr)"
  by (simp_all add: reporter_run_def)

lemma map_of_with_peer:
  "map_of (with_peer q f hm) p =
     (if p = q then Some (f (case map_of hm q of Some pd \<Rightarrow> pd | None \<Rightarrow> peer_health_data_new q))
      else map_of hm p)"
  by (simp add: with_peer_def)

lemma worker_event_peers [simp]:
  "event_peers (decoder_event now u p m t) = (u, p)"
  "event_peers (video_event now u p t) = (u, p)"
  by (simp_all add: event_peers_def text_metric_def decoder_event_def video_event_def)

lemma worker_event_subsystem [simp]:
  "de_subsystem (decoder_event now u p m t) = ''decoder''" "de_subsystem (video_event now u p t) = ''video''"
  by (simp_all add: decoder_event_def video_event_def)

lemma reporter_decoder_event:
  "hr_peer_health_data (reporter_event from_str (n, decoder_event now u p m t) hr) =
     with_peer p (\<lambda>pd. foldl decoder_metric pd (de_metrics (decoder_event now u p m t))) (hr_peer_health_data hr)"
  by (simp add: reporter_event_def process_diagnostics_event_def Let_def)

lemma reporter_video_event:
  "hr_peer_health_data (reporter_event from_str (n, video_event now u p t) hr) =
     with_peer p (video_update n (video_event now u p t)) (hr_peer_health_data hr)"
  by (simp add: reporter_event_def process_diagnostics_event_def Let_def)

lemma video_update_sees [simp]: "ph_can_see (video_update n ev pd)"
  by (simp add: video_update_def update_video_stats_def Let_def case_prod_unfold)

definition visible :: "string \<Rightarrow> health_reporter \<Rightarrow> bool" where
  "visible p hr \<longleftrightarrow> (\<exists>pd. map_of (hr_peer_health_data hr) p = Some pd \<and> ph_can_see pd)"

text \<open>The streams of a worker in the order of the reports.\<close>

definition streams_of :: "diagnostic_worker \<Rightarrow> (string \<times> media_type \<times> fps_tracker) list" where
  "streams_of w = concat (map (\<lambda>(p, ts). map (\<lambda>(m, t). (p, m, t)) ts) (wk_fps_trackers w))"

definition stream_events :: "real \<Rightarrow> string \<Rightarrow> string \<times> media_type \<times> fps_tracker \<Rightarrow> diag_event list" where
  "stream_events now userid entry =
     (case entry of (p, m, t) \<Rightarrow> [decoder_event now userid p m t, video_event now userid p t])"

lemma tracker_in_streams: "tracker_of w p m = Some t \<Longrightarrow> p \<in> fst ` set (streams_of w)"
  by (force simp: tracker_of_def bind_eq_Some_conv streams_of_def dest: map_of_SomeD)

lemma packets_broadcast:
  "broadcasts (send_diagnostic_packets now w) = concat (map (stream_events now (wk_userid w)) (streams_of w))"
proof -
  have one: "broadcasts (stream_report now w p e) = stream_events now (wk_userid w) (p, e)" for p e
    by (cases e) (simp add: stream_report_def broadcasts_def stream_events_def)
  have peer: "broadcasts (concat (map (stream_report now w p) ts)) =
      concat (map (\<lambda>(m, t). stream_events now (wk_userid w) (p, m, t)) ts)" for p ts
    by (simp add: broadcasts_concat o_def one case_prod_unfold)
  have "broadcasts (concat (map (\<lambda>(p, ts). concat (map (stream_report now w p) ts)) trackers)) =
      concat (map (stream_events now (wk_userid w)) (concat (map (\<lambda>(p, ts). map (\<lambda>(m, t). (p, m, t)) ts) trackers)))"
    for trackers
    by (induction trackers) (auto simp: peer o_def case_prod_unfold)
  then show ?thesis by (simp add: send_diagnostic_packets_def streams_of_def)
qed

lemma stream_makes_visible:
  assumes "map snd xs = stream_events now u (q, m, t)" and "visible p hr \<or> p = q"
  shows "visible p (reporter_run from_str xs hr)"
proof -
  obtain a b where xs: "xs = [(a, decoder_event now u q m t), (b, video_event now u q t)]"
    using assms(1) by (auto simp: stream_events_def map_eq_Cons_conv)
  show ?thesis
    using assms(2) by (auto simp: xs visible_def reporter_video_event reporter_decoder_event map_of_with_peer)
qed

lemma streams_make_visible:
  assumes "map snd xs = concat (map (stream_events now u) ss)" and "visible p hr \<or> p \<in> fst ` set ss"
  shows "visible p (reporter_run from_str xs hr)"
  using assms
proof (induction ss arbitrary: xs hr)
  case (Cons s ss)
  obtain q m t where s: "s = (q, m, t)" by (cases s)
  obtain ys zs where xs: "xs = ys @ zs" and ys: "map snd ys = stream_events now u (q, m, t)"
    and zs: "map snd zs = concat (map (stream_events now u) ss)"
    using Cons.prems(1) by (auto simp: s map_eq_append_conv)
  let ?hr = "reporter_run from_str ys hr"
  have "visible p ?hr \<or> p \<in> fst ` set ss"
    using Cons.prems(2) stream_makes_visible [OF ys, of p hr from_str] by (auto simp: s)
  then show ?case using Cons.IH [OF zs] by (simp add: xs)
qed simp

lemma heartbeat_broadcasts:
  "broadcasts (snd (worker_event (now, HeartbeatTick) w)) = broadcasts (send_diagnostic_packets now w)"
proof -
  have "broadcasts (snd (maybe_report_stats_to_ui now w)) = []"
    by (simp add: maybe_report_stats_to_ui_def broadcasts_def)
  then show ?thesis by (simp add: case_prod_unfold)
qed

text \<open>After the reporter has followed the broadcasts of one heartbeat of the diagnostics worker, the next health
  packet says of every peer the worker ever tracked, by whatever medium and with whatever frame rate, that it can be seen; a peer
  that was removed from the reporter before is back.\<close>

theorem tracked_peers_reported_visible:
  assumes "tracker_of w p m = Some t"
    and "map snd xs = broadcasts (snd (worker_event (now, HeartbeatTick) w))"
  shows "\<exists>pst. map_of (hp_peer_stats (health_packet_of n task (reporter_run from_str xs (hr_remove_peer p hr)))) p = Some pst \<and>
           pst_can_see pst \<and> pst_video_enabled pst"
proof -
  have "visible p (reporter_run from_str xs (hr_remove_peer p hr))"
    using streams_make_visible assms(2) tracker_in_streams [OF assms(1)] by (metis heartbeat_broadcasts packets_broadcast)
  then show ?thesis
    by (auto simp: visible_def health_packet_of_def map_of_map pb_peer_def)
qed

section \<open>Bitrates\<close>

text \<open>Statistics that a decoding worker posts (\<open>videocall-codecs/src/decoder/wasm.rs\<close>).\<close>

definition codec_stats_event :: "real \<Rightarrow> string option \<Rightarrow> string option \<Rightarrow> u64 option \<Rightarrow> diag_event" where
  "codec_stats_event now from_peer to_peer frames_buffered =
     \<lparr>de_subsystem = ''video'', de_stream_id = None, de_ts_ms = now_ms now,
      de_metrics = [metric_of ''from_peer'' (MText (case from_peer of Some s \<Rightarrow> s | None \<Rightarrow> [])),
                    metric_of ''to_peer'' (MText (case to_peer of Some s \<Rightarrow> s | None \<Rightarrow> [])),
                    metric_of ''frames_buffered'' (MU64 (case frames_buffered of Some n \<Rightarrow> n | None \<Rightarrow> 0))]\<rparr>"

text \<open>The events on the bus of a client: those of the diagnostics worker, the statistics of the decoding workers, and the
  events of other subsystems.\<close>

inductive on_bus :: "diag_event \<Rightarrow> bool" where
  worker: "ev \<in> set (broadcasts (snd (worker_event (now, HeartbeatTick) w))) \<Longrightarrow> on_bus ev"
| codec: "on_bus (codec_stats_event now from_peer to_peer frames_buffered)"
| other: "de_subsystem ev \<noteq> ''video'' \<Longrightarrow> de_subsystem ev \<noteq> ''video_decoder'' \<Longrightarrow> on_bus ev"

definition whole_bitrate :: "diag_event \<Rightarrow> bool" where
  "whole_bitrate ev \<longleftrightarrow>
     list_ex (\<lambda>m. mt_name m = ''bitrate_kbps'' \<and> (case mt_value m of MU64 v \<Rightarrow> True | _ \<Rightarrow> False)) (de_metrics ev)"

lemma on_bus_bitrate:
  assumes "on_bus ev"
  shows "de_subsystem ev \<in> {''video'', ''video_decoder''} \<Longrightarrow> \<not> whole_bitrate ev"
  using assms
proof (cases rule: on_bus.cases)
  case (worker now w)
  then obtain p m t where "ev = decoder_event now (wk_userid w) p m t \<or> ev = video_event now (wk_userid w) p t"
    unfolding heartbeat_broadcasts packets_broadcast by (auto simp: stream_events_def)
  then show ?thesis by (auto simp: whole_bitrate_def decoder_event_def video_event_def)
qed (auto simp: whole_bitrate_def codec_stats_event_def)

definition no_bitrate :: "json \<Rightarrow> bool" where
  "no_bitrate j \<longleftrightarrow> json_get ''bitrate_kbps'' j = None"

definition bitrate_unknown :: "peer_health_data \<Rightarrow> bool" where
  "bitrate_unknown pd \<longleftrightarrow> (case ph_last_video_stats pd of Some j \<Rightarrow> no_bitrate j | None \<Rightarrow> True)"

lemma no_bitrate_set: "k \<noteq> ''bitrate_kbps'' \<Longrightarrow> no_bitrate j \<Longrightarrow> no_bitrate (json_set k v j)"
  by (cases j) (auto simp: no_bitrate_def)

lemma video_metric_no_bitrate:
  assumes "no_bitrate j" and "\<not> (mt_name m = ''bitrate_kbps'' \<and> (case mt_value m of MU64 v \<Rightarrow> True | _ \<Rightarrow> False))"
  shows "no_bitrate (fst (video_metric (j, pd) m))"
  using assms by (auto simp: video_metric_def no_bitrate_set split: metric_value.split)

lemma video_metrics_no_bitrate:
  assumes "\<not> list_ex (\<lambda>m. mt_name m = ''bitrate_kbps'' \<and> (case mt_value m of MU64 v \<Rightarrow> True | _ \<Rightarrow> False)) metrics"
    and "no_bitrate (fst acc)"
  shows "no_bitrate (fst (foldl video_metric acc metrics))"
  using assms
proof (induction metrics arbitrary: acc)
  case (Cons m metrics)
  then show ?case using video_metric_no_bitrate [of "fst acc" m "snd acc"] by simp
qed simp

lemma video_update_bitrate_unknown:
  assumes "\<not> whole_bitrate ev" and "bitrate_unknown pd"
  shows "bitrate_unknown (video_update now ev pd)"
proof -
  let ?j = "case ph_last_video_stats pd of Some (JObject obj) \<Rightarrow> JObject obj | _ \<Rightarrow> JObject []"
  have "no_bitrate ?j"
    using assms(2) by (auto simp: bitrate_unknown_def no_bitrate_def split: option.splits json.splits)
  then have "no_bitrate (fst (foldl video_metric (json_set ''timestamp_ms'' (JPosInt (de_ts_ms ev)) ?j, pd) (de_metrics ev)))"
    using assms(1) by (intro video_metrics_no_bitrate) (auto simp: whole_bitrate_def no_bitrate_set)
  then show ?thesis
    by (simp add: video_update_def update_video_stats_def Let_def case_prod_unfold bitrate_unknown_def)
qed

lemma foldl_keeps_video_stats:
  "ph_last_video_stats (foldl (neteq_metric from_str now) pd metrics) = ph_last_video_stats pd"
  "ph_last_video_stats (foldl decoder_metric pd metrics) = ph_last_video_stats pd"
  "ph_last_video_stats (foldl peer_status_metric pd metrics) = ph_last_video_stats pd"
proof -
  have "ph_last_video_stats (neteq_metric from_str now pd m) = ph_last_video_stats pd" for pd m
    by (simp add: neteq_metric_def update_audio_stats_def split: metric_value.split option.split)
  then show "ph_last_video_stats (foldl (neteq_metric from_str now) pd metrics) = ph_last_video_stats pd"
    by (induction metrics arbitrary: pd) simp_all
  have "ph_last_video_stats (decoder_metric pd m) = ph_last_video_stats pd" for pd m
    by (simp add: decoder_metric_def split: metric_value.split)
  then show "ph_last_video_stats (foldl decoder_metric pd metrics) = ph_last_video_stats pd"
    by (induction metrics arbitrary: pd) simp_all
  have "ph_last_video_stats (peer_status_metric pd m) = ph_last_video_stats pd" for pd m
    by (simp add: peer_status_metric_def split: metric_value.split)
  then show "ph_last_video_stats (foldl peer_status_metric pd metrics) = ph_last_video_stats pd"
    by (induction metrics arbitrary: pd) simp_all
qed

definition all_unknown :: "health_map \<Rightarrow> bool" where
  "all_unknown hm \<longleftrightarrow> (\<forall>(p, pd) \<in> set hm. bitrate_unknown pd)"

definition health_bitrate_unknown :: "health_reporter \<Rightarrow> bool" where
  "health_bitrate_unknown hr \<longleftrightarrow> all_unknown (hr_peer_health_data hr)"

lemma with_peer_bitrate_unknown:
  assumes "all_unknown hm" and "\<And>pd. bitrate_unknown pd \<Longrightarrow> bitrate_unknown (f pd)"
  shows "all_unknown (with_peer q f hm)"
proof -
  have "bitrate_unknown (case map_of hm q of Some pd \<Rightarrow> pd | None \<Rightarrow> peer_health_data_new q)"
    using assms(1) by (auto simp: all_unknown_def bitrate_unknown_def peer_health_data_new_def split: option.split dest!: map_of_SomeD)
  then have "bitrate_unknown (f (case map_of hm q of Some pd \<Rightarrow> pd | None \<Rightarrow> peer_health_data_new q))"
    by (rule assms(2))
  moreover have "set (AList.update q v hm) \<subseteq> insert (q, v) (set hm)" for v
    by (induction hm) auto
  ultimately show ?thesis using assms(1) unfolding with_peer_def all_unknown_def by blast
qed

lemma metrics_keep_health [simp]:
  "hr_peer_health_data (foldl sender_metric hr metrics) = hr_peer_health_data hr"
  "hr_peer_health_data (foldl server_metric hr metrics) = hr_peer_health_data hr"
proof -
  have "hr_peer_health_data (sender_metric hr m) = hr_peer_health_data hr" for hr m
    by (simp add: sender_metric_def split: metric_value.split)
  then show "hr_peer_health_data (foldl sender_metric hr metrics) = hr_peer_health_data hr"
    by (induction metrics arbitrary: hr) simp_all
  have "hr_peer_health_data (server_metric hr m) = hr_peer_health_data hr" for hr m
    by (simp add: server_metric_def split: metric_value.split)
  then show "hr_peer_health_data (foldl server_metric hr metrics) = hr_peer_health_data hr"
    by (induction metrics arbitrary: hr) simp_all
qed

lemma process_bitrate_unknown:
  assumes "on_bus ev" and "all_unknown hm"
  shows "all_unknown (process_diagnostics_event from_str now ev hm)"
proof -
  have keep: "all_unknown (with_peer q f hm)" if "\<And>pd. ph_last_video_stats (f pd) = ph_last_video_stats pd" for q f
    using assms(2) by (rule with_peer_bitrate_unknown) (simp add: bitrate_unknown_def that)
  have video: "all_unknown (with_peer q (video_update now ev) hm)"
    if "de_subsystem ev \<in> {''video'', ''video_decoder''}" for q
    using assms(2) by (rule with_peer_bitrate_unknown)
      (rule video_update_bitrate_unknown [OF on_bus_bitrate [OF assms(1) that]])
  show ?thesis
    using assms(2) video
    by (simp add: process_diagnostics_event_def Let_def keep foldl_keeps_video_stats)
qed

interpretation reporter_bitrates: invariant_system
  "\<lambda>hr ev. reporter_event from_str ev hr" health_bitrate_unknown "\<lambda>ev. on_bus (snd ev)"
proof
  fix hr :: health_reporter and ev :: "u64 \<times> diag_event"
  assume inv: "health_bitrate_unknown hr" and pub: "on_bus (snd ev)"
  obtain n e where ev: "ev = (n, e)" by (cases ev)
  show "health_bitrate_unknown (reporter_event from_str ev hr)"
    using process_bitrate_unknown [of e "hr_peer_health_data hr" from_str n] inv pub
    by (auto simp: ev reporter_event_def health_bitrate_unknown_def Let_def)
qed

text \<open>The bitrates on the bus are fractional numbers, the reporter takes whole ones only: over every run of a client the video bitrate of
  every peer in every health packet is zero.\<close>

theorem video_bitrate_never_reported:
  assumes "list_all (\<lambda>ev. on_bus (snd ev)) evs"
    and "(p, pst) \<in> set (hp_peer_stats (health_packet_of n task
            (reporter_run from_str evs (health_reporter_new session_id user interval))))"
    and "pst_video_stats pst = Some vs"
  shows "vs_bitrate_kbps vs = 0"
proof -
  let ?hr = "reporter_run from_str evs (health_reporter_new session_id user interval)"
  have "health_bitrate_unknown (health_reporter_new session_id user interval)"
    by (simp add: health_bitrate_unknown_def all_unknown_def health_reporter_new_def)
  then have "health_bitrate_unknown ?hr"
    using reporter_bitrates.run_inv [OF _ assms(1)]
    by (simp add: reporter_run_def foldl_conv_fold)
  moreover obtain pd where "(p, pd) \<in> set (hr_peer_health_data ?hr)" and "pst = pb_peer pd"
    using assms(2) by (auto simp: health_packet_of_def)
  ultimately have "bitrate_unknown pd" "map_option pb_video (ph_last_video_stats pd) = Some vs"
    using assms(3) by (auto simp: health_bitrate_unknown_def all_unknown_def pb_peer_def)
  then show ?thesis
    by (auto simp: bitrate_unknown_def no_bitrate_def pb_video_def u64_field_def)
qed

end
