(* ===== verification/Metrics_Server.thy ===== *)
theory Metrics_Server
  imports Health_Reports Call_Client
begin

text \<open>
  Where health packets end: the media server republishes them on NATS (\<open>actix-api/src/client_diagnostics.rs\<close>) and the metrics server
  (\<open>actix-api/src/bin/metrics_server.rs\<close>) turns them into Prometheus series and removes the series of sessions that fell silent.

  \<^item> A gauge vector of \<open>metrics.rs\<close> holds one value per list of labels; the registry is a partial function from a gauge and its labels.
  \<^item> A message and a scrape each run as one step. Between its two locks the message handler could be interrupted by a scrape, which removes
    nothing of a session that was seen less than thirty seconds ago.
  \<^item> Times: \<open>now\<close> is the monotone instant of the process, \<open>now_ms\<close> the wall clock in milliseconds.
  \<^item> The codec of the health packet, environment variables and the text encoding of the registry are parameters or left out.
\<close>

section \<open>The media server\<close>

record metrics_env =
  me_region :: "string option"
  me_server_id :: "string option"
  me_service_type :: "string option"

definition health_topic :: "metrics_env \<Rightarrow> string" where
  "health_topic env =
     ''health.diagnostics.'' @ (case me_region env of Some r \<Rightarrow> r | None \<Rightarrow> ''us-east'') @ ''.'' @
     (case me_service_type env of Some s \<Rightarrow> s | None \<Rightarrow> ''websocket'') @ ''.'' @
     (case me_server_id env of Some i \<Rightarrow> i | None \<Rightarrow> ''server-1'')"

record health_codec =
  hc_parse :: "bytes \<Rightarrow> health_packet option"
  hc_write :: "health_packet \<Rightarrow> bytes option"

definition publish_health_to_nats :: "health_codec \<Rightarrow> metrics_env \<Rightarrow> health_packet \<Rightarrow> (string \<times> bytes) list" where
  "publish_health_to_nats H env hp =
     (case hc_write H hp of Some payload \<Rightarrow> [(health_topic env, payload)] | None \<Rightarrow> [])"

definition is_health_packet :: "packet_wrapper \<Rightarrow> bool" where
  "is_health_packet pw \<longleftrightarrow> pw_packet_type pw = packet_type_value HEALTH"

definition is_health_packet_bytes :: "proto \<Rightarrow> bytes \<Rightarrow> bool" where
  "is_health_packet_bytes P data =
     (case parse_wrapper P data of Some pw \<Rightarrow> is_health_packet pw | None \<Rightarrow> False)"

text \<open>What \<open>process_health_packet_bytes\<close> publishes.\<close>

definition process_health_packet_bytes ::
  "proto \<Rightarrow> health_codec \<Rightarrow> metrics_env \<Rightarrow> bytes \<Rightarrow> (string \<times> bytes) list" where
  "process_health_packet_bytes P H env data =
     (case parse_wrapper P data of
        Some pw \<Rightarrow>
          if is_health_packet pw
          then (case hc_parse H (pw_data pw) of
                  Some hp \<Rightarrow> publish_health_to_nats H env hp | None \<Rightarrow> [])
          else []
      | None \<Rightarrow> [])"

section \<open>The registry\<close>

datatype gauge =
    ACTIVE_SESSIONS_TOTAL | CLIENT_ACTIVE_SERVER | CLIENT_ACTIVE_SERVER_RTT_MS | MEETING_PARTICIPANTS
  | NETEQ_ACCELERATE_OPS_PER_SEC | NETEQ_AUDIO_BUFFER_MS | NETEQ_COMFORT_NOISE_OPS_PER_SEC
  | NETEQ_DTMF_OPS_PER_SEC | NETEQ_EXPAND_OPS_PER_SEC | NETEQ_FAST_ACCELERATE_OPS_PER_SEC
  | NETEQ_MERGE_OPS_PER_SEC | NETEQ_NORMAL_OPS_PER_SEC | NETEQ_PACKETS_AWAITING_DECODE
  | NETEQ_PACKETS_PER_SEC | NETEQ_PREEMPTIVE_EXPAND_OPS_PER_SEC | NETEQ_UNDEFINED_OPS_PER_SEC
  | PEER_AUDIO_ENABLED | PEER_CAN_LISTEN | PEER_CAN_SEE | PEER_CONNECTIONS_TOTAL | PEER_VIDEO_ENABLED
  | SELF_AUDIO_ENABLED | SELF_VIDEO_ENABLED | VIDEO_FPS | VIDEO_PACKETS_BUFFERED

type_synonym series = "gauge \<times> string list"
type_synonym registry = "series \<Rightarrow> real option"

definition set_all :: "(series \<times> real) list \<Rightarrow> registry \<Rightarrow> registry" where
  "set_all sets R = fold (\<lambda>(s, v) R. R(s \<mapsto> v)) sets R"

definition remove_all :: "series list \<Rightarrow> registry \<Rightarrow> registry" where
  "remove_all ss R = fold (\<lambda>s R. R(s := None)) ss R"

section \<open>Sessions\<close>

record session_info =
  si_session_id :: string
  si_meeting_id :: string
  si_reporting_user_id :: string
  si_last_seen :: instant
  si_to_peers :: "string list"
  si_peer_ids :: "string list"
  si_active_servers :: "(string \<times> string) list"

record metrics_server =
  mx_registry :: registry
  mx_tracker :: "(string \<times> session_info) list"
  mx_store :: "string \<rightharpoonup> json"

definition metrics_server_new :: metrics_server where
  "metrics_server_new = \<lparr>mx_registry = (\<lambda>_. None), mx_tracker = [], mx_store = Map.empty\<rparr>"

definition to_peer_gauges :: "gauge list" where
  "to_peer_gauges =
     [PEER_CAN_LISTEN, PEER_CAN_SEE, VIDEO_FPS, VIDEO_PACKETS_BUFFERED, NETEQ_AUDIO_BUFFER_MS,
      NETEQ_PACKETS_AWAITING_DECODE, NETEQ_PACKETS_PER_SEC, NETEQ_NORMAL_OPS_PER_SEC,
      NETEQ_EXPAND_OPS_PER_SEC, NETEQ_ACCELERATE_OPS_PER_SEC, NETEQ_FAST_ACCELERATE_OPS_PER_SEC,
      NETEQ_PREEMPTIVE_EXPAND_OPS_PER_SEC, NETEQ_MERGE_OPS_PER_SEC, NETEQ_COMFORT_NOISE_OPS_PER_SEC,
      NETEQ_DTMF_OPS_PER_SEC, NETEQ_UNDEFINED_OPS_PER_SEC]"

definition session_series :: "session_info \<Rightarrow> series list" where
  "session_series info =
     (let m = si_meeting_id info; s = si_session_id info; u = si_reporting_user_id info
      in [(ACTIVE_SESSIONS_TOTAL, [m, s]), (SELF_AUDIO_ENABLED, [m, u]), (SELF_VIDEO_ENABLED, [m, u])] @
         concat (map (\<lambda>(url, typ). [(CLIENT_ACTIVE_SERVER, [m, s, u, url, typ]),
                                    (CLIENT_ACTIVE_SERVER_RTT_MS, [m, s, u, url, typ])])
                   (si_active_servers info)) @
         map (\<lambda>p. (PEER_CONNECTIONS_TOTAL, [m, p])) (si_peer_ids info) @
         concat (map (\<lambda>p. map (\<lambda>g. (g, [m, s, u, p])) to_peer_gauges) (si_to_peers info)))"

definition remove_session_metrics :: "session_info \<Rightarrow> registry \<Rightarrow> registry" where
  "remove_session_metrics info R = remove_all (session_series info) R"

definition session_stale :: "instant \<Rightarrow> session_info \<Rightarrow> bool" where
  "session_stale now info \<longleftrightarrow> now - si_last_seen info > secs 30"

definition remove_session :: "string \<Rightarrow> metrics_server \<Rightarrow> metrics_server" where
  "remove_session k mx =
     (case map_of (mx_tracker mx) k of
        None \<Rightarrow> mx
      | Some info \<Rightarrow> mx\<lparr>mx_tracker := AList.delete k (mx_tracker mx),
                        mx_registry := remove_session_metrics info (mx_registry mx)\<rparr>)"

definition cleanup_stale_sessions :: "instant \<Rightarrow> metrics_server \<Rightarrow> metrics_server" where
  "cleanup_stale_sessions now mx =
     fold remove_session (map fst (filter (\<lambda>(k, info). session_stale now info) (mx_tracker mx))) mx"

text \<open>A scrape returns what is left in the registry.\<close>

definition metrics_handler :: "instant \<Rightarrow> metrics_server \<Rightarrow> metrics_server \<times> registry" where
  "metrics_handler now mx = (let mx1 = cleanup_stale_sessions now mx in (mx1, mx_registry mx1))"

section \<open>Health packets\<close>

definition or_unknown :: "string \<Rightarrow> string" where
  "or_unknown s = (if s = [] then ''unknown'' else s)"

definition hp_labels :: "health_packet \<Rightarrow> string \<times> string \<times> string" where
  "hp_labels hp =
     (or_unknown (hp_meeting_id hp), or_unknown (hp_session_id hp),
      if hp_reporting_user_id hp = [] then ''unknown'' else from_utf8_lossy (hp_reporting_user_id hp))"

definition session_key :: "string \<times> string \<times> string \<Rightarrow> string" where
  "session_key l = (case l of (m, s, u) \<Rightarrow> m @ ''_'' @ s @ ''_'' @ u)"

definition flag :: "bool \<Rightarrow> real" where
  "flag b = (if b then 1 else 0)"

definition set_nonzero :: "series \<Rightarrow> real \<Rightarrow> (series \<times> real) list" where
  "set_nonzero s v = (if v \<noteq> 0 then [(s, v)] else [])"

definition counter_sets :: "string list \<Rightarrow> neteq_operation_counters \<Rightarrow> (series \<times> real) list" where
  "counter_sets ls oc =
     [((NETEQ_NORMAL_OPS_PER_SEC, ls), oc_normal_per_sec oc),
      ((NETEQ_EXPAND_OPS_PER_SEC, ls), oc_expand_per_sec oc),
      ((NETEQ_ACCELERATE_OPS_PER_SEC, ls), oc_accelerate_per_sec oc),
      ((NETEQ_FAST_ACCELERATE_OPS_PER_SEC, ls), oc_fast_accelerate_per_sec oc),
      ((NETEQ_PREEMPTIVE_EXPAND_OPS_PER_SEC, ls), oc_preemptive_expand_per_sec oc),
      ((NETEQ_MERGE_OPS_PER_SEC, ls), oc_merge_per_sec oc),
      ((NETEQ_COMFORT_NOISE_OPS_PER_SEC, ls), oc_comfort_noise_per_sec oc),
      ((NETEQ_DTMF_OPS_PER_SEC, ls), oc_dtmf_per_sec oc),
      ((NETEQ_UNDEFINED_OPS_PER_SEC, ls), oc_undefined_per_sec oc)]"

definition neteq_sets :: "string list \<Rightarrow> pb_neteq_stats \<Rightarrow> (series \<times> real) list" where
  "neteq_sets ls ns =
     set_nonzero (NETEQ_AUDIO_BUFFER_MS, ls) (ns_current_buffer_size_ms ns) @
     set_nonzero (NETEQ_PACKETS_AWAITING_DECODE, ls) (ns_packets_awaiting_decode ns) @
     set_nonzero (NETEQ_PACKETS_PER_SEC, ls) (ns_packets_per_sec ns) @
     (case ns_network ns of
        Some (Some oc) \<Rightarrow> counter_sets ls oc
      | _ \<Rightarrow> [])"

definition video_sets :: "string list \<Rightarrow> pb_video_stats \<Rightarrow> (series \<times> real) list" where
  "video_sets ls vs =
     set_nonzero (VIDEO_FPS, ls) (vs_fps_received vs) @
     set_nonzero (VIDEO_PACKETS_BUFFERED, ls) (vs_frames_buffered vs)"

definition peer_sets :: "string \<times> string \<times> string \<Rightarrow> string \<times> pb_peer_stats \<Rightarrow> (series \<times> real) list" where
  "peer_sets l entry =
     (case (l, entry) of
        ((m, s, u), (p, pst)) \<Rightarrow>
          let ls = [m, s, u, p]
          in [((PEER_CONNECTIONS_TOTAL, [m, p]), 1),
              ((PEER_CAN_LISTEN, ls), flag (pst_can_listen pst)), ((PEER_CAN_SEE, ls), flag (pst_can_see pst))] @
             (case pst_neteq_stats pst of Some ns \<Rightarrow> neteq_sets ls ns | None \<Rightarrow> []) @
             (case pst_video_stats pst of Some vs \<Rightarrow> video_sets ls vs | None \<Rightarrow> []) @
             [((PEER_AUDIO_ENABLED, ls), flag (pst_audio_enabled pst)),
              ((PEER_VIDEO_ENABLED, ls), flag (pst_video_enabled pst))])"

text \<open>Each write for a peer also inserts the peer into the sets of the session; inserting again changes nothing.\<close>

definition track_peer :: "string \<Rightarrow> session_info \<Rightarrow> session_info" where
  "track_peer p info =
     info\<lparr>si_peer_ids := List.insert p (si_peer_ids info), si_to_peers := List.insert p (si_to_peers info)\<rparr>"

definition update_info ::
  "string \<Rightarrow> (session_info \<Rightarrow> session_info) \<Rightarrow> (string \<times> session_info) list \<Rightarrow> (string \<times> session_info) list" where
  "update_info k f tracker =
     (case map_of tracker k of Some info \<Rightarrow> AList.update k (f info) tracker | None \<Rightarrow> tracker)"

definition publish_active_server :: "health_packet \<Rightarrow> metrics_server \<Rightarrow> metrics_server" where
  "publish_active_server hp mx =
     (if hp_active_server_url hp = [] then mx
      else (case hp_labels hp of
              (m, s, u) \<Rightarrow>
                let url = hp_active_server_url hp; typ = or_unknown (hp_active_server_type hp);
                    ls = [m, s, u, url, typ]
                in mx\<lparr>mx_registry := set_all (((CLIENT_ACTIVE_SERVER, ls), 1) #
                                       set_nonzero (CLIENT_ACTIVE_SERVER_RTT_MS, ls) (hp_active_server_rtt_ms hp))
                                       (mx_registry mx),
                      mx_tracker := update_info (session_key (hp_labels hp))
                        (\<lambda>info. info\<lparr>si_active_servers := List.insert (url, typ) (si_active_servers info)\<rparr>)
                        (mx_tracker mx)\<rparr>))"

definition publish_peer :: "health_packet \<Rightarrow> string \<times> pb_peer_stats \<Rightarrow> metrics_server \<Rightarrow> metrics_server" where
  "publish_peer hp entry mx =
     mx\<lparr>mx_registry := set_all (peer_sets (hp_labels hp) entry) (mx_registry mx),
        mx_tracker := update_info (session_key (hp_labels hp)) (track_peer (fst entry)) (mx_tracker mx)\<rparr>"

definition publish_session :: "health_packet \<Rightarrow> metrics_server \<Rightarrow> metrics_server" where
  "publish_session hp mx =
     (case hp_labels hp of
        (m, s, u) \<Rightarrow>
          mx\<lparr>mx_registry := set_all [((ACTIVE_SESSIONS_TOTAL, [m, s]), 1),
               ((SELF_AUDIO_ENABLED, [m, u]), flag (hp_reporting_audio_enabled hp)),
               ((SELF_VIDEO_ENABLED, [m, u]), flag (hp_reporting_video_enabled hp))] (mx_registry mx)\<rparr>)"

definition publish_peers :: "health_packet \<Rightarrow> metrics_server \<Rightarrow> metrics_server" where
  "publish_peers hp mx =
     (if hp_peer_stats hp = [] then mx
      else (let mx1 = fold (publish_peer hp) (hp_peer_stats hp) mx
            in mx1\<lparr>mx_registry := set_all [((MEETING_PARTICIPANTS, [fst (hp_labels hp)]),
                 real (length (hp_peer_stats hp)))] (mx_registry mx1)\<rparr>))"

definition fresh_info :: "instant \<Rightarrow> health_packet \<Rightarrow> session_info" where
  "fresh_info now hp =
     (case hp_labels hp of
        (m, s, u) \<Rightarrow>
          \<lparr>si_session_id = s, si_meeting_id = m, si_reporting_user_id = u, si_last_seen = now,
           si_to_peers = [], si_peer_ids = [], si_active_servers = []\<rparr>)"

definition process_health_packet_to_metrics :: "instant \<Rightarrow> health_packet \<Rightarrow> metrics_server \<Rightarrow> metrics_server" where
  "process_health_packet_to_metrics now hp mx =
     (let k = session_key (hp_labels hp);
          mx1 = mx\<lparr>mx_tracker := AList.update k (fresh_info now hp) (mx_tracker mx)\<rparr>
      in if map_of (mx_tracker mx1) k \<noteq> None
         then publish_peers hp (publish_session hp (publish_active_server hp mx1))
         else mx1)"

definition is_fresh :: "nat \<Rightarrow> health_packet \<Rightarrow> bool" where
  "is_fresh wall_ms hp \<longleftrightarrow> wall_ms - unat (hp_timestamp_ms hp) \<le> 30000"

definition handle_health_message ::
  "health_codec \<Rightarrow> nat \<Rightarrow> instant \<Rightarrow> string \<Rightarrow> bytes \<Rightarrow> metrics_server \<Rightarrow> (string + unit) \<times> metrics_server" where
  "handle_health_message H wall_ms now topic payload mx =
     (case hc_parse H payload of
        None \<Rightarrow> (Inl ''parse error'', mx)
      | Some hp \<Rightarrow>
          let mx1 = (if is_fresh wall_ms hp then process_health_packet_to_metrics now hp mx else mx);
              entry = JObject [(''session_id'', JString (hp_session_id hp)), (''meeting_id'', JString (hp_meeting_id hp)),
                        (''reporting_user_id'', JString (snd (snd (hp_labels hp)))),
                        (''timestamp_ms'', JPosInt (hp_timestamp_ms hp))]
          in (Inr (), mx1\<lparr>mx_store := (mx_store mx1)(topic \<mapsto> entry)\<rparr>))"

datatype metrics_event =
    HealthMessage nat instant string bytes
  | Scrape instant

fun metrics_step :: "health_codec \<Rightarrow> metrics_server \<Rightarrow> metrics_event \<Rightarrow> metrics_server" where
  "metrics_step H mx (HealthMessage wall_ms now topic payload) =
     snd (handle_health_message H wall_ms now topic payload mx)"
| "metrics_step H mx (Scrape now) = fst (metrics_handler now mx)"

section \<open>The registry under updates and removals\<close>

lemma set_all_simps [simp]:
  "set_all [] R = R" "set_all ((s, v) # sets) R = set_all sets (R(s \<mapsto> v))"
  "set_all (sets @ rest) R = set_all rest (set_all sets R)"
  by (simp_all add: set_all_def)

lemma set_all_other: "s \<notin> fst ` set sets \<Longrightarrow> set_all sets R s = R s"
  by (induction sets arbitrary: R) auto

lemma set_all_keeps: "R s \<noteq> None \<Longrightarrow> set_all sets R s \<noteq> None"
  by (induction sets arbitrary: R) auto

lemma set_all_in: "s \<in> fst ` set sets \<Longrightarrow> set_all sets R s \<noteq> None"
proof (induction sets arbitrary: R)
  case (Cons e sets)
  then consider "s = fst e" | "s \<in> fst ` set sets" by auto
  then show ?case by cases (use Cons.IH set_all_keeps [of "R(s \<mapsto> snd e)" s sets] in \<open>cases e; simp\<close>)+
qed simp

lemma remove_all_apply: "remove_all ss R s = (if s \<in> set ss then None else R s)"
  by (induction ss arbitrary: R) (auto simp: remove_all_def)

lemma to_peer_gauge_series:
  "g \<in> set to_peer_gauges \<Longrightarrow>
     (g, ls) \<in> set (session_series info) \<longleftrightarrow>
     (\<exists>p \<in> set (si_to_peers info). ls = [si_meeting_id info, si_session_id info, si_reporting_user_id info, p])"
  by (auto simp: session_series_def Let_def to_peer_gauges_def)

abbreviation unremoved :: "gauge set" where
  "unremoved \<equiv> {PEER_AUDIO_ENABLED, PEER_VIDEO_ENABLED, MEETING_PARTICIPANTS}"

lemma unremoved_series: "g \<in> unremoved \<Longrightarrow> (g, ls) \<notin> set (session_series info)"
  by (auto simp: session_series_def Let_def to_peer_gauges_def)

section \<open>What a packet changes\<close>

abbreviation peers_of :: "health_packet \<Rightarrow> string set" where
  "peers_of hp \<equiv> fst ` set (hp_peer_stats hp)"

lemma peer_sets_labels:
  assumes "((g, [m, s, u, p]), v) \<in> set (peer_sets l entry)"
  shows "l = (m, s, u) \<and> fst entry = p"
  using assms
  by (auto simp: peer_sets_def neteq_sets_def counter_sets_def video_sets_def set_nonzero_def Let_def
      split: prod.splits option.splits if_splits)

lemma fold_publish_peer_registry:
  "mx_registry (fold (publish_peer hp) entries mx) =
     set_all (concat (map (peer_sets (hp_labels hp)) entries)) (mx_registry mx)"
  by (induction entries arbitrary: mx) (simp_all add: publish_peer_def)

text \<open>All writes of a packet, in order.\<close>

definition packet_sets :: "health_packet \<Rightarrow> (series \<times> real) list" where
  "packet_sets hp =
     (case hp_labels hp of
        (m, s, u) \<Rightarrow>
          (if hp_active_server_url hp = [] then []
           else (let ls = [m, s, u, hp_active_server_url hp, or_unknown (hp_active_server_type hp)]
                 in ((CLIENT_ACTIVE_SERVER, ls), 1) #
                    set_nonzero (CLIENT_ACTIVE_SERVER_RTT_MS, ls) (hp_active_server_rtt_ms hp))) @
          [((ACTIVE_SESSIONS_TOTAL, [m, s]), 1),
           ((SELF_AUDIO_ENABLED, [m, u]), flag (hp_reporting_audio_enabled hp)),
           ((SELF_VIDEO_ENABLED, [m, u]), flag (hp_reporting_video_enabled hp))] @
          (if hp_peer_stats hp = [] then []
           else concat (map (peer_sets (hp_labels hp)) (hp_peer_stats hp)) @
                [((MEETING_PARTICIPANTS, [m]), real (length (hp_peer_stats hp)))]))"

lemma process_registry:
  "mx_registry (process_health_packet_to_metrics now hp mx) = set_all (packet_sets hp) (mx_registry mx)"
  by (simp add: process_health_packet_to_metrics_def packet_sets_def publish_peers_def publish_session_def
      publish_active_server_def fold_publish_peer_registry Let_def split: prod.split)

lemma packet_sets_labels:
  assumes "((g, [m, s, u, p]), v) \<in> set (packet_sets hp)"
  shows "hp_labels hp = (m, s, u) \<and> p \<in> peers_of hp"
proof -
  have "\<exists>entry \<in> set (hp_peer_stats hp). ((g, [m, s, u, p]), v) \<in> set (peer_sets (hp_labels hp) entry)"
    using assms by (auto simp: packet_sets_def set_nonzero_def Let_def split: prod.splits if_splits)
  then show ?thesis using peer_sets_labels by blast
qed

lemma process_other_series:
  assumes "hp_labels hp \<noteq> (m, s, u) \<or> p \<notin> peers_of hp"
  shows "mx_registry (process_health_packet_to_metrics now hp mx) (g, [m, s, u, p]) = mx_registry mx (g, [m, s, u, p])"
  unfolding process_registry by (rule set_all_other) (use assms packet_sets_labels in fastforce)

lemma map_of_update_info:
  "map_of (update_info k f tracker) j = (if j = k then map_option f (map_of tracker k) else map_of tracker j)"
  by (auto simp: update_info_def split: option.split)

lemma fold_publish_peer_tracker:
  "map_of (mx_tracker (fold (publish_peer hp) entries mx)) j =
     (if j = session_key (hp_labels hp)
      then map_option (fold track_peer (map fst entries)) (map_of (mx_tracker mx) j)
      else map_of (mx_tracker mx) j)"
  by (induction entries arbitrary: mx)
    (auto simp: publish_peer_def map_of_update_info option.map_comp comp_def option.map_ident id_def)

lemma fold_track_peer:
  "set (si_to_peers (fold track_peer ps info)) = set ps \<union> set (si_to_peers info)"
  "si_meeting_id (fold track_peer ps info) = si_meeting_id info"
  "si_session_id (fold track_peer ps info) = si_session_id info"
  "si_reporting_user_id (fold track_peer ps info) = si_reporting_user_id info"
  "si_last_seen (fold track_peer ps info) = si_last_seen info"
  by (induction ps arbitrary: info) (auto simp: track_peer_def)

definition info_of :: "instant \<Rightarrow> health_packet \<Rightarrow> session_info \<Rightarrow> bool" where
  "info_of now hp info \<longleftrightarrow>
     (si_meeting_id info, si_session_id info, si_reporting_user_id info) = hp_labels hp \<and>
     si_last_seen info = now \<and> set (si_to_peers info) = peers_of hp"

lemma process_tracker:
  shows "\<exists>info. map_of (mx_tracker (process_health_packet_to_metrics now hp mx)) (session_key (hp_labels hp)) = Some info \<and>
           info_of now hp info"
    and "k \<noteq> session_key (hp_labels hp) \<Longrightarrow>
         map_of (mx_tracker (process_health_packet_to_metrics now hp mx)) k = map_of (mx_tracker mx) k"
  by (auto simp: process_health_packet_to_metrics_def publish_peers_def publish_session_def
      publish_active_server_def fold_publish_peer_tracker fold_track_peer map_of_update_info Let_def
      info_of_def fresh_info_def split: prod.splits)

lemma process_distinct:
  assumes "distinct (map fst (mx_tracker mx))"
  shows "distinct (map fst (mx_tracker (process_health_packet_to_metrics now hp mx)))"
proof -
  have upd: "distinct (map fst (update_info k f tracker))" if "distinct (map fst tracker)" for k f tracker
    using that by (auto simp: update_info_def distinct_keys_update split: option.split)
  have "distinct (map fst (mx_tracker (fold (publish_peer hp) entries mx)))"
    if "distinct (map fst (mx_tracker mx))" for entries mx
    using that by (induction entries arbitrary: mx) (simp_all add: publish_peer_def upd)
  then show ?thesis
    using assms
    by (simp add: process_health_packet_to_metrics_def publish_peers_def publish_session_def
        publish_active_server_def Let_def distinct_keys_update upd split: prod.split)
qed

section \<open>What a scrape changes\<close>

lemma remove_session_tracker:
  "map_of (mx_tracker (remove_session k mx)) j = (if j = k then None else map_of (mx_tracker mx) j)"
  by (auto simp: remove_session_def split: option.split)

lemma remove_session_registry:
  "mx_registry (remove_session k mx) s =
     (if \<exists>info. map_of (mx_tracker mx) k = Some info \<and> s \<in> set (session_series info) then None
      else mx_registry mx s)"
  by (auto simp: remove_session_def remove_session_metrics_def remove_all_apply split: option.split)

lemma fold_remove_session:
  "map_of (mx_tracker (fold remove_session ks mx)) j = (if j \<in> set ks then None else map_of (mx_tracker mx) j)"
  "mx_registry (fold remove_session ks mx) s =
     (if \<exists>k \<in> set ks. \<exists>info. map_of (mx_tracker mx) k = Some info \<and> s \<in> set (session_series info) then None
      else mx_registry mx s)"
proof (induction ks arbitrary: mx)
  case (Cons k ks)
  { case 1 then show ?case by (auto simp: Cons remove_session_tracker)
  next case 2 then show ?case by (auto simp: Cons remove_session_tracker remove_session_registry) }
qed simp_all

lemma stale_keys:
  assumes "distinct (map fst tracker)"
  shows "k \<in> set (map fst (filter (\<lambda>(k, info). session_stale now info) tracker)) \<longleftrightarrow>
         (\<exists>info. map_of tracker k = Some info \<and> session_stale now info)"
  using assms by (force simp: map_of_eq_Some_iff)

lemma scrape_tracker:
  assumes "distinct (map fst (mx_tracker mx))"
  shows "map_of (mx_tracker (fst (metrics_handler now mx))) k =
           (case map_of (mx_tracker mx) k of
              Some info \<Rightarrow> if session_stale now info then None else Some info | None \<Rightarrow> None)"
  unfolding metrics_handler_def cleanup_stale_sessions_def Let_def fst_conv fold_remove_session(1) stale_keys [OF assms]
  by (auto split: option.split)

lemma scrape_registry:
  assumes "distinct (map fst (mx_tracker mx))"
  shows "mx_registry (fst (metrics_handler now mx)) s =
           (if \<exists>k info. map_of (mx_tracker mx) k = Some info \<and> session_stale now info \<and> s \<in> set (session_series info)
            then None else mx_registry mx s)"
proof -
  let ?stale = "map fst (filter (\<lambda>(k, info). session_stale now info) (mx_tracker mx))"
  have "(\<exists>k \<in> set ?stale. \<exists>info. map_of (mx_tracker mx) k = Some info \<and> s \<in> set (session_series info)) \<longleftrightarrow>
      (\<exists>k info. map_of (mx_tracker mx) k = Some info \<and> session_stale now info \<and> s \<in> set (session_series info))"
    using stale_keys [OF assms, of _ now] by (metis option.inject)
  then show ?thesis
    by (simp only: metrics_handler_def cleanup_stale_sessions_def Let_def fst_conv fold_remove_session(2))
qed

lemma scrape_distinct:
  assumes "distinct (map fst (mx_tracker mx))"
  shows "distinct (map fst (mx_tracker (fst (metrics_handler now mx))))"
proof -
  have "distinct (map fst (mx_tracker (remove_session k mx)))" if "distinct (map fst (mx_tracker mx))" for k mx
    using that by (auto simp: remove_session_def distinct_keys_delete split: option.split)
  then have "distinct (map fst (mx_tracker (fold remove_session ks mx)))" if "distinct (map fst (mx_tracker mx))" for ks mx
    using that by (induction ks arbitrary: mx) simp_all
  then show ?thesis
    using assms by (simp add: metrics_handler_def cleanup_stale_sessions_def Let_def)
qed

section \<open>Runs of the metrics server\<close>

definition si_labels :: "session_info \<Rightarrow> string \<times> string \<times> string" where
  "si_labels info = (si_meeting_id info, si_session_id info, si_reporting_user_id info)"

definition metrics_ok :: "metrics_server \<Rightarrow> bool" where
  "metrics_ok mx \<longleftrightarrow>
     distinct (map fst (mx_tracker mx)) \<and>
     (\<forall>k info. map_of (mx_tracker mx) k = Some info \<longrightarrow> k = session_key (si_labels info))"

definition message_of :: "health_codec \<Rightarrow> metrics_event \<Rightarrow> health_packet option" where
  "message_of H ev = (case ev of HealthMessage wall_ms now topic payload \<Rightarrow> hc_parse H payload | Scrape now \<Rightarrow> None)"

text \<open>A message is ignored, only stored, or processed.\<close>

lemma message_step:
  obtains "mx_registry (metrics_step H mx (HealthMessage wall_ms now topic payload)) = mx_registry mx"
      "mx_tracker (metrics_step H mx (HealthMessage wall_ms now topic payload)) = mx_tracker mx"
    | hp where "hc_parse H payload = Some hp" "is_fresh wall_ms hp"
      "mx_registry (metrics_step H mx (HealthMessage wall_ms now topic payload)) =
         mx_registry (process_health_packet_to_metrics now hp mx)"
      "mx_tracker (metrics_step H mx (HealthMessage wall_ms now topic payload)) =
         mx_tracker (process_health_packet_to_metrics now hp mx)"
proof (cases "hc_parse H payload")
  case None
  then show ?thesis using that(1) by (simp add: handle_health_message_def)
next
  case (Some hp)
  then show ?thesis
    using that(1) that(2) [OF Some] by (cases "is_fresh wall_ms hp") (simp_all add: handle_health_message_def Let_def)
qed

lemma process_ok:
  assumes "metrics_ok mx"
  shows "metrics_ok (process_health_packet_to_metrics now hp mx)"
proof -
  let ?mx = "process_health_packet_to_metrics now hp mx"
  have "k = session_key (si_labels info)" if "map_of (mx_tracker ?mx) k = Some info" for k info
  proof (cases "k = session_key (hp_labels hp)")
    case True
    then show ?thesis using that process_tracker(1) [of now hp mx] by (auto simp: info_of_def si_labels_def)
  next
    case False
    then show ?thesis using that assms process_tracker(2) [of k hp now mx] by (simp add: metrics_ok_def)
  qed
  then show ?thesis using assms process_distinct by (auto simp: metrics_ok_def)
qed

lemma scrape_ok: "metrics_ok mx \<Longrightarrow> metrics_ok (fst (metrics_handler now mx))"
  by (auto simp: metrics_ok_def scrape_distinct scrape_tracker split: option.splits if_splits)

lemma metrics_ok_cong: "mx_tracker mx1 = mx_tracker mx \<Longrightarrow> metrics_ok mx1 = metrics_ok mx"
  by (simp add: metrics_ok_def)

lemma metrics_step_ok:
  assumes "metrics_ok mx"
  shows "metrics_ok (metrics_step H mx ev)"
proof (cases ev)
  case (HealthMessage wall_ms now topic payload)
  show ?thesis
  proof (cases rule: message_step [of H mx wall_ms now topic payload])
    case 1
    then show ?thesis using assms metrics_ok_cong by (metis HealthMessage)
  next
    case (2 hp)
    then show ?thesis using process_ok [OF assms, of now hp] metrics_ok_cong by (metis HealthMessage)
  qed
qed (simp add: assms scrape_ok)

interpretation metrics_run: invariant_system "metrics_step H" metrics_ok "\<lambda>ev. True"
  by unfold_locales (rule metrics_step_ok)

lemma metrics_ok_run: "metrics_ok (foldl (metrics_step H) metrics_server_new evs)"
  by (rule metrics_run.run_inv) (simp_all add: metrics_ok_def metrics_server_new_def list_all_iff)

text \<open>A session that fell silent: it is still tracked as its last packet left it, or its series are gone.\<close>

definition silent_session :: "instant \<Rightarrow> health_packet \<Rightarrow> metrics_server \<Rightarrow> bool" where
  "silent_session seen hp mx \<longleftrightarrow>
     metrics_ok mx \<and>
     (case map_of (mx_tracker mx) (session_key (hp_labels hp)) of
        Some info \<Rightarrow> info_of seen hp info
      | None \<Rightarrow> \<forall>p \<in> peers_of hp. \<forall>g \<in> set to_peer_gauges.
                  case hp_labels hp of (m, s, u) \<Rightarrow> mx_registry mx (g, [m, s, u, p]) = None)"

definition same_session :: "health_codec \<Rightarrow> health_packet \<Rightarrow> metrics_event \<Rightarrow> bool" where
  "same_session H hp ev \<longleftrightarrow>
     (case message_of H ev of Some q \<Rightarrow> session_key (hp_labels q) = session_key (hp_labels hp) | None \<Rightarrow> False)"

lemma session_removed:
  assumes "metrics_ok mx" and "map_of (mx_tracker mx) k = Some info" and "session_stale now info"
    and "info_of seen hp info" and "hp_labels hp = (m, s, u)" and "p \<in> peers_of hp" and "g \<in> set to_peer_gauges"
  shows "mx_registry (fst (metrics_handler now mx)) (g, [m, s, u, p]) = None"
proof -
  have "(g, [m, s, u, p]) \<in> set (session_series info)"
    using assms(4-7) by (simp add: to_peer_gauge_series info_of_def)
  then show ?thesis
    using assms(1-3) by (auto simp: metrics_ok_def scrape_registry)
qed

lemma silent_scrape:
  assumes "silent_session seen hp mx"
  shows "silent_session seen hp (fst (metrics_handler now mx))"
proof -
  have ok: "metrics_ok mx" and dist: "distinct (map fst (mx_tracker mx))"
    using assms by (auto simp: silent_session_def metrics_ok_def)
  obtain m s u where l: "hp_labels hp = (m, s, u)" by (cases "hp_labels hp")
  let ?k = "session_key (hp_labels hp)"
  show ?thesis
  proof (cases "map_of (mx_tracker mx) ?k")
    case None
    then show ?thesis
      using assms scrape_ok [OF ok] by (auto simp: silent_session_def scrape_tracker [OF dist] scrape_registry [OF dist])
  next
    case (Some info)
    then have info: "info_of seen hp info" using assms by (simp add: silent_session_def)
    show ?thesis
      using session_removed [OF ok Some _ info l] scrape_ok [OF ok] info Some
      by (auto simp: silent_session_def scrape_tracker [OF dist] l)
  qed
qed

lemma silent_message:
  assumes "silent_session seen hp mx" and "session_key (hp_labels q) \<noteq> session_key (hp_labels hp)"
  shows "silent_session seen hp (process_health_packet_to_metrics now q mx)"
proof -
  have "hp_labels q \<noteq> hp_labels hp" using assms(2) by auto
  then have "mx_registry (process_health_packet_to_metrics now q mx) (g, [m, s, u, p]) = mx_registry mx (g, [m, s, u, p])"
    if "hp_labels hp = (m, s, u)" for g m s u p
    using that by (intro process_other_series) auto
  then show ?thesis
    using assms process_tracker(2) [of "session_key (hp_labels hp)" q now mx]
    by (auto simp: silent_session_def process_ok split: option.splits prod.splits)
qed

lemma silent_cong:
  "mx_tracker mx1 = mx_tracker mx \<Longrightarrow> mx_registry mx1 = mx_registry mx \<Longrightarrow>
     silent_session seen hp mx1 = silent_session seen hp mx"
  by (auto simp: silent_session_def metrics_ok_def split: option.splits)

interpretation silence: invariant_system "metrics_step H" "silent_session seen hp" "\<lambda>ev. \<not> same_session H hp ev"
proof
  fix mx ev
  assume inv: "silent_session seen hp mx" and other: "\<not> same_session H hp ev"
  show "silent_session seen hp (metrics_step H mx ev)"
  proof (cases ev)
    case (HealthMessage wall_ms now topic payload)
    show ?thesis
    proof (cases rule: message_step [of H mx wall_ms now topic payload])
      case 1
      then show ?thesis using inv silent_cong by (metis HealthMessage)
    next
      case (2 q)
      then have "session_key (hp_labels q) \<noteq> session_key (hp_labels hp)"
        using other by (simp add: HealthMessage same_session_def message_of_def)
      then show ?thesis using 2 silent_message [OF inv, of q now] silent_cong by (metis HealthMessage)
    qed
  qed (simp add: inv silent_scrape)
qed

text \<open>C18: Once a session reported its peers and then nothing more, the first scrape more than thirty seconds later, and with it the answer to Prometheus,
  contains none of the sixteen series per peer that the cleanup knows, whatever other sessions report meanwhile.\<close>

theorem silent_session_series_removed:
  assumes "hc_parse H payload = Some hp" and "is_fresh wall_ms hp" and "hp_labels hp = (m, s, u)"
    and "list_all (\<lambda>ev. \<not> same_session H hp ev) later"
    and "now > seen + secs 30" and "p \<in> peers_of hp" and "g \<in> set to_peer_gauges"
  shows "snd (metrics_handler now (foldl (metrics_step H) metrics_server_new
           (earlier @ HealthMessage wall_ms seen topic payload # later))) (g, [m, s, u, p]) = None"
proof -
  let ?start = "foldl (metrics_step H) metrics_server_new earlier"
  let ?mid = "metrics_step H ?start (HealthMessage wall_ms seen topic payload)"
  let ?mx = "foldl (metrics_step H) ?mid later"
  have "silent_session seen hp (process_health_packet_to_metrics seen hp ?start)"
    using process_tracker(1) [of seen hp ?start] process_ok [OF metrics_ok_run]
    by (auto simp: silent_session_def)
  then have "silent_session seen hp ?mid"
    using assms(1,2) by (subst silent_cong) (simp_all add: handle_health_message_def Let_def)
  then have silent: "silent_session seen hp ?mx"
    using silence.run_inv assms(4) by blast
  then have ok: "metrics_ok ?mx" by (simp add: silent_session_def)
  have "mx_registry (fst (metrics_handler now ?mx)) (g, [m, s, u, p]) = None"
  proof (cases "map_of (mx_tracker ?mx) (session_key (hp_labels hp))")
    case None
    then have "mx_registry ?mx (g, [m, s, u, p]) = None"
      using silent assms(3,6,7) by (auto simp: silent_session_def)
    then show ?thesis using ok by (simp add: metrics_ok_def scrape_registry)
  next
    case (Some info)
    then have info: "info_of seen hp info" using silent by (simp add: silent_session_def)
    moreover have "session_stale now info" using info assms(5) by (auto simp: info_of_def session_stale_def)
    ultimately show ?thesis by (intro session_removed [OF ok Some _ _ assms(3,6,7)])
  qed
  then show ?thesis by (simp add: metrics_handler_def Let_def)
qed

section \<open>Series that stay\<close>

text \<open>A peer that its session does not report any more.\<close>

definition mentions :: "health_codec \<Rightarrow> string \<times> string \<times> string \<Rightarrow> string \<Rightarrow> metrics_event \<Rightarrow> bool" where
  "mentions H l p ev \<longleftrightarrow>
     (case message_of H ev of Some q \<Rightarrow> hp_labels q = l \<and> p \<in> peers_of q | None \<Rightarrow> False)"

definition forgotten :: "gauge \<Rightarrow> string \<times> string \<times> string \<Rightarrow> string \<Rightarrow> real \<Rightarrow> metrics_server \<Rightarrow> bool" where
  "forgotten g l p v mx \<longleftrightarrow>
     metrics_ok mx \<and> (case l of (m, s, u) \<Rightarrow> mx_registry mx (g, [m, s, u, p]) = Some v) \<and>
     (\<forall>k info. map_of (mx_tracker mx) k = Some info \<and> si_labels info = l \<longrightarrow> p \<notin> set (si_to_peers info))"

lemma forgotten_cong:
  "mx_tracker mx1 = mx_tracker mx \<Longrightarrow> mx_registry mx1 = mx_registry mx \<Longrightarrow>
     forgotten g l p v mx1 = forgotten g l p v mx"
  by (simp add: forgotten_def metrics_ok_def)

lemma forgotten_message:
  assumes "forgotten g l p v mx" and "\<not> (hp_labels q = l \<and> p \<in> peers_of q)"
  shows "forgotten g l p v (process_health_packet_to_metrics now q mx)"
proof -
  let ?mx = "process_health_packet_to_metrics now q mx"
  obtain m s u where l: "l = (m, s, u)" by (cases l)
  have "mx_registry ?mx (g, [m, s, u, p]) = mx_registry mx (g, [m, s, u, p])"
    using assms(2) by (intro process_other_series) (auto simp: l)
  moreover have "p \<notin> set (si_to_peers info)"
    if "map_of (mx_tracker ?mx) k = Some info" "si_labels info = l" for k info
  proof (cases "k = session_key (hp_labels q)")
    case True
    then show ?thesis using that assms(2) process_tracker(1) [of now q mx] by (auto simp: info_of_def si_labels_def)
  next
    case False
    then show ?thesis using that assms(1) process_tracker(2) [of k q now mx] by (simp add: forgotten_def)
  qed
  ultimately show ?thesis using assms(1) process_ok by (auto simp: forgotten_def l)
qed

lemma forgotten_scrape:
  assumes "forgotten g l p v mx" and "g \<in> set to_peer_gauges"
  shows "forgotten g l p v (fst (metrics_handler now mx))"
proof -
  obtain m s u where l: "l = (m, s, u)" by (cases l)
  have dist: "distinct (map fst (mx_tracker mx))" using assms(1) by (simp add: forgotten_def metrics_ok_def)
  have "(g, [m, s, u, p]) \<notin> set (session_series info)" if "map_of (mx_tracker mx) k = Some info" for k info
    using that assms by (auto simp: forgotten_def l to_peer_gauge_series si_labels_def)
  then have "mx_registry (fst (metrics_handler now mx)) (g, [m, s, u, p]) = Some v"
    using assms(1) by (auto simp: scrape_registry [OF dist] forgotten_def l)
  then show ?thesis
    using assms(1) scrape_ok by (auto simp: forgotten_def l scrape_tracker [OF dist] split: option.splits if_splits)
qed

lemma forgotten_run:
  assumes "forgotten g l p v mx" and "g \<in> set to_peer_gauges" and "list_all (\<lambda>ev. \<not> mentions H l p ev) evs"
  shows "forgotten g l p v (foldl (metrics_step H) mx evs)"
  using assms(1,3)
proof (induction evs arbitrary: mx)
  case (Cons ev evs)
  have "forgotten g l p v (metrics_step H mx ev)"
  proof (cases ev)
    case (HealthMessage wall_ms now topic payload)
    show ?thesis
    proof (cases rule: message_step [of H mx wall_ms now topic payload])
      case 1
      then show ?thesis using Cons.prems(1) forgotten_cong by (metis HealthMessage)
    next
      case (2 q)
      then have "\<not> (hp_labels q = l \<and> p \<in> peers_of q)"
        using Cons.prems(2) by (auto simp: HealthMessage mentions_def message_of_def)
      then show ?thesis
        using 2 forgotten_message [OF Cons.prems(1), of q now] forgotten_cong by (metis HealthMessage)
    qed
  qed (simp add: Cons.prems forgotten_scrape assms(2))
  then show ?case using Cons by simp
qed simp

text \<open>C19: Each packet starts the bookkeeping of its session anew. If a session once exported a series for a peer and a later packet of the session does not
  mention the peer, then every later scrape exports the series with its old value, also after the session has been
  cleaned up, until a packet of the same session mentions the peer again.\<close>

theorem departed_peer_series_kept:
  assumes "mx_registry (foldl (metrics_step H) metrics_server_new earlier) (g, [m, s, u, p]) = Some v"
    and "g \<in> set to_peer_gauges"
    and "hc_parse H payload = Some hp" and "is_fresh wall_ms hp" and "hp_labels hp = (m, s, u)" and "p \<notin> peers_of hp"
    and "list_all (\<lambda>ev. \<not> mentions H (m, s, u) p ev) later"
  shows "snd (metrics_handler now (foldl (metrics_step H) metrics_server_new
           (earlier @ HealthMessage wall_ms seen topic payload # later))) (g, [m, s, u, p]) = Some v"
proof -
  let ?start = "foldl (metrics_step H) metrics_server_new earlier"
  let ?mid = "metrics_step H ?start (HealthMessage wall_ms seen topic payload)"
  let ?pr = "process_health_packet_to_metrics seen hp ?start"
  have keys: "k = session_key (si_labels info)" if "map_of (mx_tracker ?pr) k = Some info" for k info
    using that process_ok [OF metrics_ok_run, of seen hp H earlier] by (simp add: metrics_ok_def)
  have "p \<notin> set (si_to_peers info)"
    if "map_of (mx_tracker ?pr) k = Some info" "si_labels info = (m, s, u)" for k info
    using keys [OF that(1)] that process_tracker(1) [of seen hp ?start] assms(5,6) by (auto simp: info_of_def)
  moreover have "mx_registry ?pr (g, [m, s, u, p]) = Some v"
    using assms(1,6) process_other_series [of hp m s u p seen ?start g] by simp
  ultimately have "forgotten g (m, s, u) p v ?pr"
    using process_ok [OF metrics_ok_run] by (auto simp: forgotten_def)
  then have "forgotten g (m, s, u) p v ?mid"
    using assms(3,4) by (subst forgotten_cong) (simp_all add: handle_health_message_def Let_def)
  then have "forgotten g (m, s, u) p v (fst (metrics_handler now (foldl (metrics_step H) ?mid later)))"
    using assms(2,7) by (intro forgotten_scrape forgotten_run)
  then show ?thesis by (simp add: forgotten_def metrics_handler_def Let_def)
qed

text \<open>The series of the flags that tell whether a peer's audio and video are enabled, and of the number of participants of a meeting, are never
  removed once they have been exported.\<close>

lemma unremoved_step:
  assumes "metrics_ok mx" and "g \<in> unremoved" and "mx_registry mx (g, ls) \<noteq> None"
  shows "mx_registry (metrics_step H mx ev) (g, ls) \<noteq> None"
proof (cases ev)
  case (HealthMessage wall_ms now topic payload)
  show ?thesis
  proof (cases rule: message_step [of H mx wall_ms now topic payload])
    case 1
    then show ?thesis using assms(3) by (simp add: HealthMessage)
  next
    case (2 hp)
    then show ?thesis
      using set_all_keeps [of "mx_registry mx" "(g, ls)" "packet_sets hp"] assms(3) by (simp add: HealthMessage process_registry)
  qed
next
  case (Scrape now)
  then show ?thesis
    using assms unremoved_series [OF assms(2)] by (simp add: metrics_ok_def scrape_registry)
qed

theorem enabled_series_never_removed:
  assumes "g \<in> unremoved" and "mx_registry (foldl (metrics_step H) metrics_server_new earlier) (g, ls) \<noteq> None"
  shows "mx_registry (foldl (metrics_step H) metrics_server_new (earlier @ later)) (g, ls) \<noteq> None"
proof (induction later rule: rev_induct)
  case (snoc ev later)
  then show ?case
    using unremoved_step [OF metrics_ok_run assms(1), of H "earlier @ later" ls H ev] by simp
qed (simp add: assms(2))

end
