(* ===== verification/Health_Flow.thy ===== *)
theory Health_Flow
  imports Metrics_Server Session_Logic
begin

text \<open>
  The path of a health report from the diagnostics worker of a client over the health reporter, a session of the media server
  and NATS to the registry of the metrics server, and concrete instances of the properties of its parts.
\<close>

section \<open>Exported values\<close>

lemma set_all_value:
  assumes "s \<in> fst ` set sets" and "\<forall>v'. (s, v') \<in> set sets \<longrightarrow> v' = v"
  shows "set_all sets R s = Some v"
  using assms
proof (induction sets arbitrary: R)
  case (Cons e sets)
  obtain a b where e: "e = (a, b)" by (rule prod.exhaust)
  show ?case
  proof (cases "s \<in> fst ` set sets")
    case True
    then have "set_all sets (R(a \<mapsto> b)) s = Some v"
      by (rule Cons.IH) (use Cons.prems(2) in simp)
    then show ?thesis by (simp add: e)
  next
    case False
    then show ?thesis using Cons.prems by (auto simp: e set_all_other)
  qed
qed simp

lemma peer_sets_can_see:
  "((PEER_CAN_SEE, [m, s, u, p]), v) \<in> set (peer_sets (m, s, u) (q, pst)) \<longleftrightarrow> q = p \<and> v = flag (pst_can_see pst)"
  by (auto simp: peer_sets_def neteq_sets_def counter_sets_def video_sets_def set_nonzero_def Let_def
      split: option.splits)

lemma packet_sets_can_see:
  assumes "hp_labels hp = (m, s, u)"
  shows "((PEER_CAN_SEE, [m, s, u, p]), v) \<in> set (packet_sets hp) \<longleftrightarrow>
         (\<exists>pst. (p, pst) \<in> set (hp_peer_stats hp) \<and> v = flag (pst_can_see pst))"
proof -
  have "((PEER_CAN_SEE, [m, s, u, p]), v) \<in> set (packet_sets hp) \<longleftrightarrow>
      (\<exists>entry \<in> set (hp_peer_stats hp). ((PEER_CAN_SEE, [m, s, u, p]), v) \<in> set (peer_sets (m, s, u) entry))"
    by (auto simp: packet_sets_def assms set_nonzero_def Let_def split: if_splits)
  also have "\<dots> \<longleftrightarrow> (\<exists>q pst. (q, pst) \<in> set (hp_peer_stats hp) \<and> q = p \<and> v = flag (pst_can_see pst))"
    by (simp only: Bex_def split_paired_Ex peer_sets_can_see)
  finally show ?thesis by simp
qed

lemma can_see_exported:
  assumes "hp_labels hp = (m, s, u)" and "distinct (map fst (hp_peer_stats hp))"
    and "map_of (hp_peer_stats hp) p = Some pst"
  shows "mx_registry (process_health_packet_to_metrics now hp mx) (PEER_CAN_SEE, [m, s, u, p]) = Some (flag (pst_can_see pst))"
proof -
  have "(p, pst') \<in> set (hp_peer_stats hp) \<longleftrightarrow> pst' = pst" for pst'
    using assms(2,3) by (metis map_of_eq_Some_iff option.inject)
  then have "((PEER_CAN_SEE, [m, s, u, p]), v) \<in> set (packet_sets hp) \<longleftrightarrow> v = flag (pst_can_see pst)" for v
    by (simp add: packet_sets_can_see [OF assms(1)])
  then show ?thesis
    unfolding process_registry by (intro set_all_value) force+
qed

section \<open>Distinct peers\<close>

lemma process_event_distinct:
  "distinct (map fst hm) \<Longrightarrow> distinct (map fst (process_diagnostics_event from_str now ev hm))"
  by (simp add: process_diagnostics_event_def with_peer_def Let_def distinct_keys_update)

interpretation reporter_keys: invariant_system
  "\<lambda>hr ev. reporter_event from_str ev hr" "\<lambda>hr. distinct (map fst (hr_peer_health_data hr))" "\<lambda>ev. True"
  by unfold_locales (auto simp: reporter_event_def Let_def process_event_distinct)

lemma reporter_run_distinct:
  "distinct (map fst (hr_peer_health_data hr)) \<Longrightarrow>
     distinct (map fst (hr_peer_health_data (reporter_run from_str evs hr)))"
  using reporter_keys.run_inv [of hr evs from_str] by (simp add: reporter_run_def foldl_conv_fold list_all_iff)

section \<open>From the diagnostics worker to Prometheus\<close>

lemma health_packet_handled:
  assumes "parse_wrapper P data = Some pw" and "pw_packet_type pw = packet_type_value HEALTH"
  shows "handle_inbound P now l data =
           (Processed, l, [TrackReceived (sl_id l) (of_nat (length data)), ProcessHealthPacket data])"
  using assms by (simp add: handle_inbound_def classify_packet_def)


section \<open>Concrete runs\<close>

theorem frame_accounting_witness:
  "\<exists>t. track_all [(400, 100), (1000, 50), (1200, 10)] (fps_tracker_new 0 VIDEO) = ([(1000, 2, 6 / 5)], t) \<and>
       frames_in [(1000, 2, 6 / 5)] + real (unat (ft_frames_count t)) = 3 \<and>
       bits_in [(1000, 2, 6 / 5)] + real (8 * unat (ft_bytes_received t)) = 1280 \<and> unat (ft_total_frames t) = 3"
proof -
  obtain t where run: "track_all [(400, 100), (1000, 50), (1200, 10)] (fps_tracker_new 0 VIDEO) = ([(1000, 2, 6 / 5)], t)"
    by (simp add: track_frame_with_size_def fps_tracker_new_def)
  show ?thesis
    using frame_accounting [OF run] by (intro exI [of _ t] conjI run) simp_all
qed

definition some_tracker :: fps_tracker where
  "some_tracker =
     \<lparr>ft_frames_count = 3, ft_fps = 30, ft_last_fps_update = 900, ft_total_frames = 90, ft_media_type = VIDEO,
      ft_last_frame_time = 1000, ft_bytes_received = 0, ft_last_bitrate_update = 900, ft_current_bitrate = 500\<rparr>"

definition some_worker :: diagnostic_worker where
  "some_worker =
     \<lparr>wk_fps_trackers = [(''7'', [(VIDEO, some_tracker)])], wk_on_stats_update = False, wk_last_report_time = 0,
      wk_report_interval_ms = 500, wk_packet_handler = True, wk_userid = ''bob''\<rparr>"

lemma some_worker_tracks: "tracker_of some_worker ''7'' VIDEO = Some some_tracker"
  by (simp add: tracker_of_def some_worker_def)

theorem stalled_stream_reported_live_witness:
  "HandlePacket (stream_packet 9000 ''bob'' ''7'' VIDEO some_tracker)
     \<in> set (snd (worker_event (9000, HeartbeatTick) (fst (worker_run [(5000, HeartbeatTick), (6000, RequestStats)] some_worker)))) \<and>
   packet_fps (stream_packet 9000 ''bob'' ''7'' VIDEO some_tracker) = Some 30 \<and> get_metrics 9000 some_tracker = (0, 0)"
  using stalled_stream_reported_live
    [OF some_worker_tracks, where evs = "[(5000, HeartbeatTick), (6000, RequestStats)]" and now = 9000]
  by (simp add: frame_of_def some_worker_def some_tracker_def)

theorem feedback_not_filtered_witness:
  "\<exists>sw es. sender_run [(1, DiagnosticPacketReceived (stream_packet 1 ''bob'' ''7'' VIDEO some_tracker))]
             ((sender_worker_new 0 ''ann'')\<lparr>sw_sender_channels := [(0, VIDEO)]\<rparr>) = Some (sw, es) \<and>
           sent_to 0 es = [stream_packet 1 ''bob'' ''7'' VIDEO some_tracker]"
proof -
  let ?pk = "stream_packet 1 ''bob'' ''7'' VIDEO some_tracker"
  let ?sw = "(sender_worker_new 0 ''ann'')\<lparr>sw_sender_channels := [(0, VIDEO)]\<rparr>"
  have "sender_run [(1, DiagnosticPacketReceived ?pk)] ?sw \<noteq> None"
    by (simp add: packet_panics_iff stream_packet_def sender_worker_new_def split: option.split)
  then obtain sw es where run: "sender_run [(1, DiagnosticPacketReceived ?pk)] ?sw = Some (sw, es)" by auto
  have "packet_media_type ?pk = VIDEO"
    by (simp add: packet_media_type_def stream_packet_def media_type_from_i32_def media_type_value.simps)
  then have "sent_to 0 es = [?pk]"
    using feedback_not_filtered [OF run, where c = 0 and k = VIDEO]
    by (simp add: adds_channel_def sender_worker_new_def packets_of_def)
  with run show ?thesis by blast
qed

definition some_packet :: "(string \<times> pb_peer_stats) list \<Rightarrow> health_packet" where
  "some_packet peer_stats =
     \<lparr>hp_session_id = ''s'', hp_meeting_id = ''m'', hp_reporting_user_id = [], hp_timestamp_ms = 1000,
      hp_reporting_audio_enabled = True, hp_reporting_video_enabled = True, hp_peer_stats = peer_stats,
      hp_active_server_url = [], hp_active_server_type = [], hp_active_server_rtt_ms = 0\<rparr>"

definition seen_peer :: pb_peer_stats where
  "seen_peer =
     \<lparr>pst_can_listen = True, pst_can_see = True, pst_audio_enabled = True, pst_video_enabled = True,
      pst_neteq_stats = None, pst_video_stats = None\<rparr>"

text \<open>The byte 1 stands for a packet that reports the peer 7, any other for one that reports nobody.\<close>

definition some_codec :: health_codec where
  "some_codec =
     \<lparr>hc_parse = (\<lambda>b. Some (some_packet (if b = [1] then [(''7'', seen_peer)] else []))), hc_write = (\<lambda>hp. Some [1])\<rparr>"

lemma some_packet_simps [simp]:
  "hp_peer_stats (some_packet peer_stats) = peer_stats" "pst_can_see seen_peer"
  "hc_parse some_codec b = Some (some_packet (if b = [1] then [(''7'', seen_peer)] else []))"
  by (simp_all add: some_packet_def seen_peer_def some_codec_def)

lemma some_labels: "hp_labels (some_packet peer_stats) = (''m'', ''s'', ''unknown'')"
  by (simp add: hp_labels_def some_packet_def or_unknown_def)

lemma some_fresh: "is_fresh 1000 (some_packet peer_stats)"
  by (simp add: is_fresh_def some_packet_def)

theorem silent_session_series_removed_witness:
  "snd (metrics_handler (secs 31) (foldl (metrics_step some_codec) metrics_server_new
     [HealthMessage 1000 0 [] [1], Scrape (secs 10)])) (PEER_CAN_SEE, [''m'', ''s'', ''unknown'', ''7'']) = None"
  using silent_session_series_removed [where H = some_codec and payload = "[1]" and hp = "some_packet [(''7'', seen_peer)]"
      and wall_ms = 1000 and m = "''m''" and s = "''s''" and u = "''unknown''" and later = "[Scrape (secs 10)]" and seen = 0
      and now = "secs 31" and p = "''7''" and g = PEER_CAN_SEE and earlier = "[]" and topic = "[]"]
  by (simp add: some_labels some_fresh same_session_def message_of_def to_peer_gauges_def del: foldl_Cons)

theorem departed_peer_series_kept_witness:
  "snd (metrics_handler (secs 99) (foldl (metrics_step some_codec) metrics_server_new
     [HealthMessage 1000 0 [] [1], HealthMessage 1000 5 [] [2], Scrape (secs 60)]))
     (PEER_CAN_SEE, [''m'', ''s'', ''unknown'', ''7'']) = Some 1"
proof -
  have "mx_registry (foldl (metrics_step some_codec) metrics_server_new [HealthMessage 1000 0 [] [1]])
      (PEER_CAN_SEE, [''m'', ''s'', ''unknown'', ''7'']) = Some 1"
    using can_see_exported [OF some_labels, of "[(''7'', seen_peer)]" "''7''" seen_peer 0 metrics_server_new]
    by (simp add: handle_health_message_def some_fresh flag_def Let_def)
  then show ?thesis
    using departed_peer_series_kept [where H = some_codec and earlier = "[HealthMessage 1000 0 [] [1]]" and payload = "[2]"
        and hp = "some_packet []" and g = PEER_CAN_SEE and m = "''m''" and s = "''s''" and u = "''unknown''" and p = "''7''"
        and v = 1 and wall_ms = 1000 and seen = 5 and topic = "[]" and later = "[Scrape (secs 60)]" and now = "secs 99"]
    by (simp add: some_labels some_fresh mentions_def message_of_def to_peer_gauges_def del: foldl_Cons)
qed

definition some_task :: health_task where
  "some_task = \<lparr>ht_session_id = ''s'', ht_meeting_id = ''m'', ht_reporting_peer = [], ht_interval_ms = 5000\<rparr>"


end
