(* ===== verification/Spec2Isabelle.thy ===== *)
theory Spec2Isabelle
  imports Chat_Presence Ordered_Map Video_Jitter_Buffer Packet_Buffer Meeting_Lifecycle Client_Runs Bitrate_Controller Peer_Witnesses Neteq_Witnesses Call_Witnesses Session_Flow Health_Flow
begin

text \<open>
  A verification development for videocall-rs, a multi-user video conferencing system: a media server
  that relays packets between the participants of a room, a meeting service that decides who
  may enter a room, and a browser client that connects to the servers, sends media at a quality the
  network can carry and plays what the other participants send.

  \<^bold>\<open>How the parts interact.\<close> A user asks the meeting service (\<open>meeting-api\<close>) to join a meeting. The service
  answers with a room token, or with an observer token while the user has to wait. The browser client
  (\<open>videocall-client\<close>) presents the token to several media servers (\<open>actix-api\<close>) over WebSocket or
  WebTransport, measures the round-trip times and elects one connection. The media server checks the
  token, starts a session and registers it with the chat server actor, which joins it to the
  room: it subscribes to the room's NATS subjects and tells the participants who joined and who left. A packet
  of the client is classified by the session logic and, unless it is the server's own business, published for
  the others. At the receiving client it goes to the peer it came from, through a jitter buffer
  (\<open>videocall-codecs\<close> for video, \<open>neteq\<close> for audio) to a decoder; reports about what was received
  go back and drive the sender's bitrate controller.

  \<^bold>\<open>Theories, sources and what is shown.\<close> Names are those of the sources; a record field carries a short
  prefix of its struct.

  \<^item> \<open>VC_Prelude\<close>: types and facts shared by all parts (words of the Rust integers, UTF-8 strings as lists of
    bytes, instants in nanoseconds, decimal rendering, identifiers), and the locale \<open>invariant_system\<close>, the contract of a
    transition system with an invariant, which each stateful component interprets on its own step function.
  \<^item> \<open>Proto_Types\<close>: the protobuf messages of \<open>videocall-types/src/protos\<close> as records; the codec is the
    parameter \<open>proto\<close>, and a self-made format shows that its laws can hold.
  \<^item> \<open>Nats_Subjects\<close>: subject names of both services; that a subscription sees exactly its own room, and that
    both services render the same subjects.
  \<^item> \<open>Packet_Handler\<close>, \<open>Session_Manager\<close>, \<open>Session_Logic\<close>: \<open>actors/packet_handler.rs\<close>, \<open>session_manager.rs\<close>,
    \<open>actors/session_logic.rs\<close>. Which packets are forwarded, that observers forward none, how often keyframe requests
    and congestion signals pass.
  \<^item> \<open>Chat_Server\<close>, \<open>Chat_Presence\<close>: the actor of \<open>actors/chat_server.rs\<close>, every message handler with the
    timers of its context, and its runs. An inductive invariant of the actor; who is told about whom, the grace period of
    a departure, silent reconnections, relaying; and three runs on which the bookkeeping goes wrong.
  \<^item> \<open>Transport_Sessions\<close>, \<open>Session_Flow\<close>: the session actors of \<open>actors/transports\<close> and \<open>webtransport/bridge.rs\<close> behind
    the locale \<open>session_actor\<close>: order and completeness of what they relay, silent clients, and that what a client sends is published.
  \<^item> \<open>Room_Tokens\<close>: \<open>token.rs\<close> of both services, \<open>token_validator.rs\<close>, \<open>lobby.rs\<close>, \<open>webtransport/mod.rs\<close>: the life of a
    token, exactly who is admitted, and that both transports agree.
  \<^item> \<open>Meeting_Types\<close>, \<open>Meeting_Db\<close>, \<open>Meeting_Routes\<close>, \<open>Meeting_Lifecycle\<close>: the responses and errors, the SQL
    queries of \<open>db/meetings.rs\<close> and \<open>db/participants.rs\<close> as list operations with the schema's constraints, the
    request handlers, and runs of requests: consistency of the tables, who may admit, change or end, who gets a token.
  \<^item> \<open>Ordered_Map\<close>: \<open>decode/hash_map_with_ordered_keys.rs\<close> and sorted maps, behind the locale
    \<open>ordered_map\<close>; a refinement of finite maps.
  \<^item> \<open>Video_Jitter_Buffer\<close>: \<open>videocall-codecs/src/jitter_buffer.rs\<close> and \<open>jitter_estimator.rs\<close>: bounds, what the decoder sees, and
    that a poll plays everything that is ready and ends.
  \<^item> \<open>Packet_Buffer\<close>: \<open>neteq/src/buffer.rs\<close> and \<open>packet.rs\<close>: order, size, duplicates, flushing.
  \<^item> \<open>Neteq_Delay\<close>: \<open>histogram.rs\<close>, \<open>delay_manager.rs\<close>, \<open>buffer_level_filter.rs\<close>: the histogram is a distribution in
    fixed-point arithmetic, its quantile is the least one, the target delay covers the recorded jitter, the level
    filter converges.
  \<^item> \<open>Neteq_Stretch\<close>: \<open>signal.rs\<close>, \<open>time_stretch.rs\<close>, \<open>expand.rs\<close>: every slice access is in range, and the search for a quiet region
    in linear time finds the longest one.
  \<^item> \<open>Neteq_Statistics\<close>: \<open>statistics.rs\<close>: what the published numbers mean, and which are published under wrong names.
  \<^item> \<open>Neteq_Engine\<close>, \<open>Neteq_Runs\<close>, \<open>Neteq_Witnesses\<close>: \<open>neteq.rs\<close>: decoding refines a queue of samples, every request for audio is
    answered with a full frame and no panic, playing takes only from the front, concealment has a margin.
  \<^item> \<open>Client_Connection\<close>, \<open>Connection_Manager\<close>, \<open>Connection_Election\<close>, \<open>Client_Runs\<close>: \<open>connection/connection.rs\<close>,
    \<open>connection_manager.rs\<close> and the timers of \<open>connection_controller.rs\<close>, with the reconnection task as a
    thread of its own that is interleaved with everything else. Which connection is elected, that an
    election is decided, that at most one reconnection task lives and that leaving ends it.
  \<^item> \<open>Adaptive_Quality\<close>, \<open>Bitrate_Controller\<close>: \<open>adaptive_quality_constants.rs\<close>,
    \<open>diagnostics/adaptive_quality_manager.rs\<close>, \<open>encoder_bitrate_controller.rs\<close> and the control tasks of the
    camera and screen encoders: when tiers change, what bitrates are set, that encoders follow the tiers.
  \<^item> \<open>Peer_Decoding\<close>, \<open>Peer_Runs\<close>, \<open>Peer_Requests\<close>, \<open>Peer_Witnesses\<close>: \<open>decode/peer_decode_manager.rs\<close>: the table of remote
    peers, that media follow the heartbeats, when keyframes are requested, when silent peers are removed.
  \<^item> \<open>Call_Client\<close>: the video call client (\<open>client/video_call_client.rs\<close>) with the keys of \<open>crypto/aes.rs\<close> and
    \<open>crypto/rsa.rs\<close>; \<open>Call_Page\<close>: the page around it with the notifications of \<open>attendants.rs\<close>, spacing of
    announcements; \<open>Call_Keys\<close>: exchange of media keys, packets that stop the client; \<open>Call_Witnesses\<close>: concrete clients.
  \<^item> \<open>Client_Diagnostics\<close>: \<open>diagnostics/diagnostics_manager.rs\<close> with the events of \<open>videocall-diagnostics\<close>: frame rates account for every frame, what is
    reported about stopped streams, whom the feedback reaches. \<open>Health_Reports\<close>: \<open>health_reporter.rs\<close>: what the reporter concludes from the events.
    \<open>Metrics_Server\<close>: \<open>client_diagnostics.rs\<close> and \<open>bin/metrics_server.rs\<close>: which series are exported, removed and left behind. \<open>Health_Flow\<close>: a report on its
    whole way from the client to the registry, and concrete runs.
  \<^item> This theory: the properties that need two of the meeting service, the media server and the client.

  \<^bold>\<open>How code becomes definitions.\<close> Structs are records, enums datatypes, unsigned integers words that wrap.
  A function that mutates returns the new state; what it sends, publishes, logs for others or asks the
  runtime to do is returned as a list of effects in program order. Errors are values of sum
  types, and a panic is a value too (\<open>None\<close> or a constructor of its own), so that its absence is a
  theorem. Loops are recursive functions with termination proofs; no model runs on fuel. Actors and tasks
  are transition functions on events, so that a theorem about all event lists speaks about all interleavings.
  The clock, random numbers and answers of the environment are arguments of the operations.

  \<^bold>\<open>Idealisations.\<close> \<open>f64\<close> and \<open>f32\<close> are reals: rounding, overflow and NaN are outside, and a quotient whose
  divisor may vanish is guarded where the code's result would differ from HOL's. One request or message reads one time. A
  \<open>HashMap\<close> that is only looked up is a function; one that is iterated is an association list in
  insertion order, and what the theorems say does not depend on that order. Tables of the database are lists in the
  order of insertion. Requests to the meeting service are serialised, one query at a time where a theorem says so.

  \<^bold>\<open>Parameters.\<close> Code that is not in the repository is an argument with its documented laws as
  hypotheses: protobuf encoding (\<open>proto_roundtrip\<close>), JSON web tokens (\<open>jwt_law\<close>), NATS subject matching,
  password hashing, AES and RSA, the PID controller, JSON parsing, the browser's decoders and transports. Each law has a concrete instance.

  \<^bold>\<open>Not modelled.\<close> Process start-up, HTTP routing and OAuth exchanges; the actix runtime and the QUIC library;
  connection statistics of the servers and the text format of Prometheus; the browser interfaces for capture, encoding, decoding and sockets; the codecs behind NetEq; the user interfaces, the website, the camera
  library, the bot and the bindings, which are presentation, platform code or generated.

  \<^bold>\<open>Order of work.\<close> Servers first (who may enter, who sees what), then the media path of the receiver, then
  the client's connection and quality control, its peers, NetEq, the client as a whole and its reports. What is left is platform code; the next
  step would be the connection statistics of the servers.
\<close>

section \<open>From the meeting service to the media server\<close>


lemma demo_join_token:
  "\<exists>resp s' token. join_meeting demo_app 4000 ''ana'' ''standup'' None new_service = (Inr resp, s') \<and>
     ps_room_token (resp_result resp) = Some token"
proof -
  have "case join_meeting demo_app 4000 ''ana'' ''standup'' None new_service of
          (Inr resp, s') \<Rightarrow> ps_room_token (resp_result resp) \<noteq> None | _ \<Rightarrow> False"
    by code_simp
  then show ?thesis by (auto split: prod.splits sum.splits)
qed


text \<open>
  C7: whoever waits can only listen. When a join request returns an observer token, it returns
  no room token, and every media session that this token opens, at any time, is one of the
  same user in the same room that forwards nothing: whatever packets the client sends over it,
  none reaches the room.
\<close>
theorem waiting_attendee_cannot_send:
  assumes "jwt_law rc_exp rc_iss (as_jwt A)" and "0 \<le> timestamp now"
    and "join_meeting A now uid room req s = (Inr resp, s')"
    and "ps_observer_token (resp_result resp) = Some token"
    and "ws_connect_authenticated (as_jwt A) later (as_jwt_secret A) token = Inr a"
  shows "ps_room_token (resp_result resp) = None \<and> ad_room a = room \<and> ad_user_id a = uid \<and>
         forwarded P (session_logic_new uuid t (ad_room a) (ad_user_id a) (ad_display_name a)
                        (ad_observer a)) packets = []"
proof -
  obtain dn where
    gen: "generate_observer_token (as_jwt A) (timestamp now) (as_jwt_secret A) uid room dn = Inr token"
    and none: "ps_room_token (resp_result resp) = None"
    using join_observer_token_facts [OF assms(3,4)] by blast
  from decode_room_token_issued [OF assms(1) gen [unfolded generate_observer_token_Inr_iff], of later]
    assms(2,5)
  have a: "a = \<lparr>ad_room = room, ad_user_id = uid, ad_display_name = dn, ad_observer = True\<rparr>"
    by (auto simp: ws_connect_authenticated_def admit_claims_def OBSERVER_TOKEN_TTL_SECS_def
             split: if_splits)
  have "forwarded P l packets = []" if "sl_observer l" for l
    using forwarded_sound [of _ P l packets] that by (metis last_in_set)
  then show ?thesis using a none by (simp add: session_logic_new_def)
qed

theorem waiting_attendee_cannot_send_witness:
  "\<exists>token a. ws_connect_authenticated ref_room_jwt 5 ''key'' token = Inr a \<and>
     ad_room a = ''standup'' \<and> ad_user_id a = ''bob'' \<and>
     forwarded ref_proto (session_logic_new 1 0 (ad_room a) (ad_user_id a) (ad_display_name a)
                            (ad_observer a)) [(0, [1, 2, 3])] = []"
proof -
  have "case join_meeting demo_app 4000 ''bob'' ''standup'' None demo_service of
          (Inr resp, s') \<Rightarrow> (case ps_observer_token (resp_result resp) of
             None \<Rightarrow> False
           | Some token \<Rightarrow> (case ws_connect_authenticated ref_room_jwt 5 ''key'' token of
                 Inr a \<Rightarrow> True | Inl e \<Rightarrow> False)) | _ \<Rightarrow> False"
    by code_simp
  then obtain resp s' token where
    j: "join_meeting demo_app 4000 ''bob'' ''standup'' None demo_service = (Inr resp, s')"
    and t: "ps_observer_token (resp_result resp) = Some token"
    and opens: "case ws_connect_authenticated ref_room_jwt 5 ''key'' token of Inr a \<Rightarrow> True | Inl e \<Rightarrow> False"
    by (auto split: prod.splits sum.splits option.splits)
  then obtain a where a: "ws_connect_authenticated ref_room_jwt 5 ''key'' token = Inr a"
    by (cases "ws_connect_authenticated ref_room_jwt 5 ''key'' token") auto
  have "jwt_law rc_exp rc_iss (as_jwt demo_app)" by (simp add: demo_app_def ref_room_jwt_law)
  from waiting_attendee_cannot_send [OF this _ j t, of 5 a ref_proto 1 0 "[(0, [1, 2, 3])]"] a
  show ?thesis by (auto simp: demo_app_def timestamp_def)
qed

section \<open>From the media server to the client\<close>

text \<open>
  C10: congestion feedback is lost. The packet that the server publishes for a congested receiver carries the session of
  the sender it is meant for. On whatever connection it arrives at a client that knows its session, the filter for the
  client's own packets drops it: the client fires nothing and its state, with the request to step down, is
  unchanged. The server exempts these packets from its own filter, and the client has a branch to handle them.
\<close>
theorem congestion_feedback_lost:
  assumes "proto_roundtrip P" and "snd (on_outbound_drop P now l sid) \<noteq> []"
    and "cc_controller cl = Some cm" and "cm_own_session_id cm = Some sid" and "sid \<noteq> 0"
  shows "\<exists>bs w cl'. snd (on_outbound_drop P now l sid) = [NatsPublish (session_subject (sl_room l) sid) bs] \<and>
     parse_wrapper P bs = Some w \<and> pw_packet_type w = packet_type_value CONGESTION \<and>
     receive_packet P C K E t i w cl = Some (cl', []) \<and> cc_inner cl' = cc_inner cl"
proof -
  obtain bs w where bs: "snd (on_outbound_drop P now l sid) = [NatsPublish (session_subject (sl_room l) sid) bs]"
      and w: "parse_wrapper P bs = Some w" "pw_packet_type w = packet_type_value CONGESTION" "pw_session_id w = sid"
    using congestion_signal_targets_sender [OF assms(1,2)] by blast
  have "EmitInbound w \<notin> set (snd (inbound_media_callback P dec t i w cm))" for dec
    using w assms(4,5) by (simp add: inbound_media_callback_def Let_def split: option.split)
  then have "\<exists>cl'. receive_packet P C K E t i w cl = Some (cl', []) \<and> cc_inner cl' = cc_inner cl"
    using assms(3) by (simp add: receive_packet_def split_beta)
  then show ?thesis using bs w by blast
qed

theorem congestion_feedback_lost_witness:
  "\<exists>l bs w cl'. snd (on_outbound_drop ref_proto 0 l 9) = [NatsPublish (session_subject ''r'' 9) bs] \<and>
     parse_wrapper ref_proto bs = Some w \<and>
     receive_packet ref_proto demo_crypto demo_keys (demo_env 0) 0 ''ws_0'' w demo_call = Some (cl', []) \<and>
     \<not> in_congestion_step_down_requested (cc_inner cl')"
proof -
  let ?l = "(session_logic_new 1 0 ''r'' ''bob'' ''Bob'' False)
    \<lparr>sl_congestion_tracker := \<lparr>ct_senders = [9 \<mapsto> \<lparr>sds_drop_count = 4, sds_window_start = 0,
        sds_last_notify = None\<rparr>], ct_total_drops = 4\<rparr>\<rparr>"
  have d: "snd (on_outbound_drop ref_proto 0 ?l 9) \<noteq> []"
    by (simp add: on_outbound_drop_def record_drop_eq swept_def bumped_def limited_def Let_def
        congestion_consts ref_proto_def word_le_nat_alt)
  have cm: "cc_controller demo_call = Some demo_manager" "cm_own_session_id demo_manager = Some 9"
    by (simp_all add: demo_call_def demo_manager_def)
  have i: "\<not> in_congestion_step_down_requested (cc_inner demo_call)"
    by (simp add: demo_call_def demo_client_def)
  have r: "sl_room ?l = ''r''" by (simp add: session_logic_new_def)
  from congestion_feedback_lost [OF ref_proto_roundtrip d cm, where C = demo_crypto and K = demo_keys and
      E = "demo_env 0" and t = 0 and i = "''ws_0''"]
  show ?thesis unfolding r using i by fastforce
qed

end
